(* ===== verification/Ipfs_Prelude.thy ===== *)
theory Ipfs_Prelude
  imports Main "HOL-Library.Word"
begin

unbundle bit_operations_syntax

text \<open>
  The vocabulary every theory of the development shares: bytes and machine integers, the
  ways a C function can end other than by returning a value, the sequencing of calls that
  write one after the other into a buffer, and the lemmas on them that the component
  theories use.
\<close>

section \<open>Machine types\<close>

type_synonym byte = "8 word"
type_synonym bytes = "byte list"
type_synonym u32 = "32 word"
type_synonym u64 = "64 word"

text \<open>
  Conversion of a wider value to C's 32-bit \<open>int\<close>: the value modulo 2^32, read as two's
  complement, which is what gcc and clang define it to be.
\<close>

definition c_int :: "int \<Rightarrow> int" where
  "c_int n = signed_take_bit 31 n"

text \<open>Conversion of a signed value to \<open>size_t\<close>: reduction modulo 2^64.\<close>

definition c_size :: "int \<Rightarrow> nat" where
  "c_size n = nat (n mod 2 ^ 64)"

text \<open>
  \<open>malloc\<close> of more than \<open>PTRDIFF_MAX\<close> bytes always fails (glibc documents it);
  a smaller request is taken to be granted.
\<close>

definition malloc_ok :: "nat \<Rightarrow> bool" where
  "malloc_ok n \<longleftrightarrow> n < 2 ^ 63"

text \<open>
  The length a C string has: the bytes up to the first zero. An array of characters is the
  list of its bytes, with the terminating zero after its last one left implicit.
\<close>

definition c_string :: "bytes \<Rightarrow> bytes" where
  "c_string s = takeWhile (\<lambda>b. b \<noteq> 0) s"

definition strlen :: "bytes \<Rightarrow> nat" where
  "strlen s = length (c_string s)"

section \<open>Outcomes\<close>

text \<open>
  A call ends in one of these ways when it does not deliver its result: it reports failure
  to its caller (\<open>return 0\<close>, \<open>NULL\<close> or a negative code), an \<open>assert\<close> stops the
  process, or the C standard gives the execution no meaning (an access outside an array,
  the use of a null or indeterminate pointer, a shift by the width of the type or more).
\<close>

datatype fault = Failure | Abort | Undefined

type_synonym 'a result = "fault + 'a"

text \<open>A computation that may also never return: \<open>None\<close> is divergence.\<close>

type_synonym 'a run = "'a result option"

definition bind_res :: "'a result \<Rightarrow> ('a \<Rightarrow> 'b result) \<Rightarrow> 'b result" where
  "bind_res m f = (case m of Inl e \<Rightarrow> Inl e | Inr x \<Rightarrow> f x)"

definition bind_run :: "'a run \<Rightarrow> ('a \<Rightarrow> 'b run) \<Rightarrow> 'b run" where
  "bind_run m f =
     (case m of None \<Rightarrow> None
      | Some r \<Rightarrow> (case r of Inl e \<Rightarrow> Some (Inl e) | Inr x \<Rightarrow> f x))"

text \<open>A sequence of calls on one state, left at the first one that fails.\<close>

fun chain :: "('s \<Rightarrow> 's result) list \<Rightarrow> 's \<Rightarrow> 's result" where
  "chain [] s = Inr s"
| "chain (f # fs) s = (case f s of Inl e \<Rightarrow> Inl e | Inr s' \<Rightarrow> chain fs s')"

lemma bind_res_simps [simp]:
  "bind_res (Inl e) f = Inl e"
  "bind_res (Inr x) f = f x"
  by (simp_all add: bind_res_def)

lemma bind_run_simps [simp]:
  "bind_run None f = None"
  "bind_run (Some (Inl e)) f = Some (Inl e)"
  "bind_run (Some (Inr x)) f = f x"
  by (simp_all add: bind_run_def)

lemma bind_res_Inr_iff: "bind_res m f = Inr y \<longleftrightarrow> (\<exists>x. m = Inr x \<and> f x = Inr y)"
  by (cases m) auto

lemma bind_res_InrE [elim]:
  assumes "bind_res m f = Inr y"
  obtains x where "m = Inr x" and "f x = Inr y"
  using assms by (auto simp: bind_res_Inr_iff)

lemma bind_run_Inr_iff:
  "bind_run m f = Some (Inr y) \<longleftrightarrow> (\<exists>x. m = Some (Inr x) \<and> f x = Some (Inr y))"
  by (cases m) (auto simp: bind_run_def split: sum.splits)

lemma bind_run_not_None: "m \<noteq> None \<Longrightarrow> (\<And>x. f x \<noteq> None) \<Longrightarrow> bind_run m f \<noteq> None"
  by (auto simp: bind_run_def split: sum.splits)

lemma chain_append: "chain (fs @ gs) s = bind_res (chain fs s) (chain gs)"
  by (induction fs arbitrary: s) (auto split: sum.splits)

lemma chain_append_Inr: "chain fs s = Inr s' \<Longrightarrow> chain (fs @ gs) s = chain gs s'"
  by (simp add: chain_append)

text \<open>What the program relies on of SHA-256, which the crypto library computes.\<close>

definition sha_ok :: "(bytes \<Rightarrow> bytes) \<Rightarrow> bool" where
  "sha_ok sha256 \<longleftrightarrow> (\<forall>m. length (sha256 m) = 32)"

section \<open>Generic lemmas\<close>

named_theorems c_arith \<open>conversions between C's integer types on values that fit\<close>

lemma c_int_small [c_arith]: "0 \<le> n \<Longrightarrow> n < 2 ^ 31 \<Longrightarrow> c_int n = n"
  by (simp add: c_int_def signed_take_bit_int_eq_self)

lemma c_int_nat_small [c_arith]: "n < 2 ^ 31 \<Longrightarrow> c_int (int n) = int n"
  by (rule c_int_small) simp_all

lemma c_int_range: "- (2 ^ 31) \<le> c_int n \<and> c_int n < 2 ^ 31"
  unfolding c_int_def
  using signed_take_bit_int_greater_eq_minus_exp [of 31 n] signed_take_bit_int_less_exp [of 31 n]
  by simp

lemma c_int_le: "c_int (int n) \<le> int n"
proof (cases "n < 2 ^ 31")
  case True
  then show ?thesis by (simp add: c_int_nat_small)
next
  case False
  then have "(2::int) ^ 31 \<le> int n" by simp
  then show ?thesis using c_int_range [of "int n"] by linarith
qed

lemma c_size_small [c_arith]: "0 \<le> n \<Longrightarrow> n < 2 ^ 64 \<Longrightarrow> c_size n = nat n"
  by (simp add: c_size_def)

lemma c_size_nat [c_arith]: "n < 2 ^ 64 \<Longrightarrow> c_size (int n) = n"
  by (simp add: c_size_def)

lemma unat_byte_less: "unat (b :: byte) < 256"
  using unsigned_less [of b, where 'a = nat] by simp

lemma unat_u32_less: "unat (w :: u32) < 4294967296"
  using unsigned_less [of w, where 'a = nat] by simp

lemma unat_u64_less: "unat (w :: u64) < 18446744073709551616"
  using unsigned_less [of w, where 'a = nat] by simp

lemma unat_ucast_byte: "unat (ucast (b :: byte) :: u64) = unat b"
  using unat_byte_less [of b] by (simp add: unsigned_ucast_eq take_bit_nat_eq_self)

lemma ucast_byte_u64 [simp]: "ucast (ucast (b :: byte) :: u64) = b"
  by (rule bit_word_eqI) (simp add: bit_simps)

lemma ucast_u32_u64 [simp]: "ucast (ucast (w :: u32) :: u64) = w"
  by (rule bit_word_eqI) (simp add: bit_simps)

lemma map_unat_eq: "map unat xs = map unat ys \<longleftrightarrow> xs = (ys :: 'a::len word list)"
  by (rule inj_map_eq_map) (simp add: inj_on_def word_unat_eq_iff)

lemma byte_and_128: "(b :: byte) AND 0x80 = 0 \<longleftrightarrow> unat b < 128"
proof -
  have "b AND 0x80 = 0 \<longleftrightarrow> \<not> bit b 7"
    using and_exp_eq_0_iff_not_bit [of b 7] by simp
  also have "bit b 7 \<longleftrightarrow> odd (unat b div 128)"
    by (simp add: bit_unsigned_iff flip: bit_iff_odd [of "unat b" 7, simplified])
  also have "\<dots> \<longleftrightarrow> 128 \<le> unat b"
  proof (cases "unat b < 128")
    case False
    then have "unat b div 128 = 1"
      using unsigned_less [of b, where 'a = nat] by (intro div_nat_eqI) simp_all
    with False show ?thesis by simp
  qed simp
  finally show ?thesis by auto
qed

lemma malloc_ok_mono: "malloc_ok n \<Longrightarrow> m \<le> n \<Longrightarrow> malloc_ok m"
  by (simp add: malloc_ok_def)

lemma c_string_id [simp]: "0 \<notin> set s \<Longrightarrow> c_string s = s"
  unfolding c_string_def takeWhile_eq_all_conv by auto

lemma c_string_no_zero [simp]: "0 \<notin> set (c_string s)"
  unfolding c_string_def using set_takeWhileD [of 0 "\<lambda>b. b \<noteq> 0" s] by auto

lemma c_string_idem [simp]: "c_string (c_string s) = c_string s"
  by simp

lemma c_string_terminated [simp]: "c_string (s @ 0 # t) = c_string s"
  by (induction s) (simp_all add: c_string_def)

lemma strlen_le: "strlen s \<le> length s"
  by (simp add: strlen_def c_string_def length_takeWhile_le)

lemma drop_append_shift:
  "drop p xs = ys @ zs \<Longrightarrow> drop (p + length ys) xs = zs"
  by (metis add.commute append_eq_conv_conj drop_drop)

lemma drop_length_bound:
  "drop p xs = ys \<Longrightarrow> ys \<noteq> [] \<Longrightarrow> p + length ys = length xs"
  by (auto simp: not_le)

lemma drop_eq_append_le:
  "drop p xs = ys @ zs \<Longrightarrow> p \<le> length xs \<Longrightarrow> p + length ys + length zs = length xs"
  by (metis add.assoc le_add_diff_inverse length_append length_drop)

text \<open>Keyed lists as maps.\<close>

lemma map_of_keyed_update:
  assumes "distinct (map k es)" and "i < length es" and "k e = k (es ! i)"
  shows "map_of (map (\<lambda>e. (k e, v e)) (es[i := e])) = (map_of (map (\<lambda>e. (k e, v e)) es))(k e \<mapsto> v e)"
  using assms
proof (induction es arbitrary: i)
  case (Cons x es)
  show ?case
  proof (cases i)
    case 0
    then show ?thesis using Cons.prems by (simp add: fun_eq_iff)
  next
    case (Suc j)
    then have "k x \<noteq> k e" using Cons.prems by (auto simp: image_iff)
    then show ?thesis using Suc Cons by (auto simp: fun_eq_iff)
  qed
qed simp

lemma map_of_keyed_append:
  assumes "k e \<notin> k ` set es"
  shows "map_of (map (\<lambda>e. (k e, v e)) (es @ [e])) = (map_of (map (\<lambda>e. (k e, v e)) es))(k e \<mapsto> v e)"
  using assms by (induction es) (auto simp: fun_eq_iff)

lemma map_of_keyed_None: "map_of (map (\<lambda>e. (k e, v e)) es) x = None \<longleftrightarrow> x \<notin> k ` set es"
  by (induction es) auto

lemma map_of_keyed_nth:
  "distinct (map k es) \<Longrightarrow> i < length es \<Longrightarrow> map_of (map (\<lambda>e. (k e, v e)) es) (k (es ! i)) = Some (v (es ! i))"
  by (rule map_of_is_SomeI) (auto simp: o_def)

end
