(* ===== verification/Vector.thy ===== *)
theory Vector
  imports Ipfs_Prelude
begin

text \<open>
  The growing array of \<open>libp2p/utils/vector.c\<close>, and the interface of containers that items
  are appended to one by one, which the vector and the linked lists of the program share.

  An item is a pointer, \<open>None\<close> the null pointer. The model keeps the items below \<open>total\<close>;
  the slots from there to \<open>capacity\<close> have no value.
\<close>

section \<open>The code\<close>

record 'a vector =
  vec_items :: "'a option list"
  vec_capacity :: int

definition vec_total :: "'a vector \<Rightarrow> int" where
  "vec_total v = int (length (vec_items v))"

definition libp2p_utils_vector_new :: "int \<Rightarrow> 'a vector" where
  "libp2p_utils_vector_new initial_size = \<lparr>vec_items = [], vec_capacity = initial_size\<rparr>"

definition libp2p_utils_vector_total :: "'a vector \<Rightarrow> int" where
  "libp2p_utils_vector_total v = vec_total v"

text \<open>
  \<open>realloc\<close> to zero bytes releases the array and returns null: the vector then keeps a pointer
  that must not be used, which is \<open>Undefined\<close> here. A request that cannot be granted leaves
  the vector as it is.
\<close>

definition libp2p_utils_vector_resize :: "'a vector \<Rightarrow> int \<Rightarrow> 'a vector result" where
  "libp2p_utils_vector_resize v capacity =
     (if capacity = 0 then Inl Undefined
      else if malloc_ok (c_size (8 * capacity)) then Inr (v\<lparr>vec_capacity := capacity\<rparr>)
      else Inr v)"

text \<open>The doubled capacity is an \<open>int\<close>; an overflow has no meaning.\<close>

definition libp2p_utils_vector_add :: "'a vector \<Rightarrow> 'a option \<Rightarrow> ('a vector \<times> int) result" where
  "libp2p_utils_vector_add v item =
     bind_res
       (if vec_capacity v = vec_total v then
          (if vec_capacity v * 2 < 2 ^ 31 then libp2p_utils_vector_resize v (vec_capacity v * 2)
           else Inl Undefined)
        else Inr v) (\<lambda>v.
     if vec_capacity v \<le> vec_total v then Inl Undefined
     else
       let v' = v\<lparr>vec_items := vec_items v @ [item]\<rparr>
       in Inr (v', vec_total v'))"

definition libp2p_utils_vector_set :: "'a vector \<Rightarrow> int \<Rightarrow> 'a option \<Rightarrow> 'a vector" where
  "libp2p_utils_vector_set v index item =
     (if 0 \<le> index \<and> index < vec_total v
      then v\<lparr>vec_items := (vec_items v)[nat index := item]\<rparr> else v)"

definition libp2p_utils_vector_get :: "'a vector \<Rightarrow> int \<Rightarrow> 'a option" where
  "libp2p_utils_vector_get v index =
     (if 0 \<le> index \<and> index < vec_total v then vec_items v ! nat index else None)"

text \<open>The loop of \<open>delete\<close>: from index 0, each item moves one place down and leaves a null.\<close>

fun vector_shift :: "'a option list \<Rightarrow> nat \<Rightarrow> nat \<Rightarrow> 'a option list" where
  "vector_shift items i 0 = items"
| "vector_shift items i (Suc n) =
     vector_shift (items[i := items ! (i + 1), i + 1 := None]) (i + 1) n"

definition libp2p_utils_vector_delete :: "'a vector \<Rightarrow> int \<Rightarrow> 'a vector result" where
  "libp2p_utils_vector_delete v index =
     (if index < 0 \<or> vec_total v \<le> index then Inr v
      else
        let items = (vec_items v)[nat index := None];
            items' = vector_shift items 0 (length items - 1);
            v' = v\<lparr>vec_items := take (length items - 1) items'\<rparr>
        in if 0 < vec_total v' \<and> vec_total v' = vec_capacity v' div 4
           then libp2p_utils_vector_resize v' (vec_capacity v' div 2)
           else Inr v')"

section \<open>Appending\<close>

text \<open>
  What a client that adds items one by one relies on: \<open>room c n\<close> says that \<open>n\<close> more can be
  added to \<open>c\<close>, \<open>items\<close> lists what was added.
\<close>

locale appending =
  fixes room :: "'c \<Rightarrow> nat \<Rightarrow> bool"
    and items :: "'c \<Rightarrow> 'a list"
    and add :: "'a \<Rightarrow> 'c \<Rightarrow> 'c result"
  assumes add_item: "room c (Suc n) \<Longrightarrow>
    \<exists>c'. add a c = Inr c' \<and> items c' = items c @ [a] \<and> room c' n"
begin

lemma add_all:
  assumes "room c (length xs)"
  shows "\<exists>c'. chain (map add xs) c = Inr c' \<and> items c' = items c @ xs \<and> room c' 0"
  using assms
proof (induction xs arbitrary: c)
  case (Cons x xs)
  then obtain c' where c': "add x c = Inr c'" "items c' = items c @ [x]" "room c' (length xs)"
    using add_item [of c "length xs" x] by auto
  from Cons.IH [OF c'(3)] c'(1,2) show ?case by auto
qed simp

lemma add_all_length:
  assumes "room c (length xs)" and "chain (map add xs) c = Inr c'"
  shows "length (items c') = length (items c) + length xs"
  using add_all [OF assms(1)] assms(2) by auto

end

definition vector_room :: "'a vector \<Rightarrow> nat \<Rightarrow> bool" where
  "vector_room v n \<longleftrightarrow> 1 \<le> vec_capacity v \<and> vec_capacity v < 2 ^ 31 \<and> vec_total v \<le> vec_capacity v \<and>
     vec_total v + int n \<le> 2 ^ 30"

definition vector_append :: "'a option \<Rightarrow> 'a vector \<Rightarrow> 'a vector result" where
  "vector_append item v = bind_res (libp2p_utils_vector_add v item) (\<lambda>(v', n). Inr v')"

lemma vector_add_ok:
  assumes "vector_room v (Suc n)"
  shows "\<exists>c. libp2p_utils_vector_add v item =
      Inr (v\<lparr>vec_items := vec_items v @ [item], vec_capacity := c\<rparr>, vec_total v + 1) \<and>
    vector_room (v\<lparr>vec_items := vec_items v @ [item], vec_capacity := c\<rparr>) n"
proof (cases "vec_capacity v = vec_total v")
  case True
  let ?c = "vec_capacity v * 2"
  have bounds: "1 \<le> vec_capacity v" "?c < 2 ^ 31" using assms True by (simp_all add: vector_room_def)
  then have "c_size (8 * ?c) = nat (8 * ?c)" "nat (8 * ?c) < 2 ^ 63"
    using c_size_small [of "8 * ?c"] by simp_all
  then have r: "libp2p_utils_vector_resize v ?c = Inr (v\<lparr>vec_capacity := ?c\<rparr>)"
    using bounds by (simp add: libp2p_utils_vector_resize_def malloc_ok_def)
  have "vec_items v \<noteq> []" using bounds True by (auto simp: vec_total_def)
  then show ?thesis
    using bounds True assms r
    by (intro exI [of _ ?c]) (simp add: libp2p_utils_vector_add_def vec_total_def Let_def vector_room_def)
next
  case False
  then show ?thesis using assms
    by (intro exI [of _ "vec_capacity v"])
      (simp add: libp2p_utils_vector_add_def vec_total_def Let_def vector_room_def)
qed

interpretation vec: appending vector_room vec_items vector_append
proof
  fix v :: "'a vector" and n item
  assume "vector_room v (Suc n)"
  from vector_add_ok [OF this, of item]
  show "\<exists>c'. vector_append item v = Inr c' \<and> vec_items c' = vec_items v @ [item] \<and> vector_room c' n"
    by (auto simp: vector_append_def)
qed

section \<open>Deleting\<close>

lemma vector_shift_tl:
  "i + n < length xs \<Longrightarrow>
   vector_shift xs i n =
     take i xs @ take n (drop (i + 1) xs) @ (if n = 0 then [xs ! i] else [None]) @ drop (i + n + 1) xs"
proof (induction n arbitrary: xs i)
  case 0
  then show ?case by (simp add: id_take_nth_drop)
next
  case (Suc n)
  let ?ys = "xs[i := xs ! (i + 1), i + 1 := None]"
  have "vector_shift xs i (Suc n) =
      take (i + 1) ?ys @ take n (drop (i + 2) ?ys) @ (if n = 0 then [?ys ! (i + 1)] else [None]) @
      drop (i + 1 + n + 1) ?ys"
    using Suc.IH [of "i + 1" ?ys] Suc.prems by simp
  moreover have "take (i + 1) ?ys = take i xs @ [xs ! (i + 1)]"
    using Suc.prems by (simp add: take_Suc_conv_app_nth)
  moreover have "xs ! (i + 1) # take n (drop (i + 2) xs) = take (Suc n) (drop (i + 1) xs)"
    using Suc.prems by (simp add: Cons_nth_drop_Suc [symmetric])
  ultimately show ?case using Suc.prems by (cases "n = 0") simp_all
qed

lemma vector_delete_items:
  assumes "i < length (vec_items v)" and "vec_total v \<le> vec_capacity v" and "vec_capacity v < 2 ^ 31"
  shows "\<exists>c. libp2p_utils_vector_delete v (int i) =
    Inr (v\<lparr>vec_items := tl ((vec_items v)[i := None]), vec_capacity := c\<rparr>) \<and>
    vec_total v - 1 \<le> c \<and> c \<le> vec_capacity v \<and> (1 \<le> vec_capacity v \<longrightarrow> 1 \<le> c)"
proof -
  let ?xs = "(vec_items v)[i := None]"
  obtain x xs where xs: "?xs = x # xs" using assms(1) by (cases ?xs) auto
  define w where "w = v\<lparr>vec_items := tl ?xs\<rparr>"
  have t: "take (length ?xs - 1) (vector_shift ?xs 0 (length ?xs - 1)) = tl ?xs"
    using vector_shift_tl [of 0 "length ?xs - 1" ?xs] xs by (cases "length xs = 0") simp_all
  have "\<not> (int i < 0 \<or> vec_total v \<le> int i)" using assms(1) by (simp add: vec_total_def)
  then have del: "libp2p_utils_vector_delete v (int i) =
      (if 0 < vec_total w \<and> vec_total w = vec_capacity w div 4
       then libp2p_utils_vector_resize w (vec_capacity w div 2) else Inr w)"
    by (simp only: libp2p_utils_vector_delete_def Let_def nat_int t if_False w_def)
  have w: "vec_total w = vec_total v - 1" "vec_capacity w = vec_capacity v"
    using assms(1) by (auto simp: w_def vec_total_def)
  show ?thesis
  proof (cases "0 < vec_total w \<and> vec_total w = vec_capacity w div 4")
    case True
    let ?c = "vec_capacity v div 2"
    have c: "0 < ?c" "?c < 2 ^ 30" "vec_total v - 1 \<le> ?c" "?c \<le> vec_capacity v"
      using True w assms(3) by auto
    then have "malloc_ok (c_size (8 * ?c))"
      using c_size_small [of "8 * ?c"] by (simp add: malloc_ok_def)
    then have "libp2p_utils_vector_resize w ?c = Inr (w\<lparr>vec_capacity := ?c\<rparr>)"
      using c by (simp add: libp2p_utils_vector_resize_def)
    then show ?thesis using True w c by (intro exI [of _ ?c]) (simp add: del w_def)
  next
    case False
    then show ?thesis using assms(2) w
      by (intro exI [of _ "vec_capacity v"]) (simp add: del w_def del: de_Morgan_conj)
  qed
qed

lemma vector_delete_room:
  assumes "i < length (vec_items v)" and "vector_room v n"
  shows "\<exists>v'. libp2p_utils_vector_delete v (int i) = Inr v' \<and>
    vec_items v' = tl ((vec_items v)[i := None]) \<and> vector_room v' n"
proof -
  obtain c where c: "libp2p_utils_vector_delete v (int i) =
      Inr (v\<lparr>vec_items := tl ((vec_items v)[i := None]), vec_capacity := c\<rparr>)"
    "vec_total v - 1 \<le> c" "c \<le> vec_capacity v" "1 \<le> c"
    using vector_delete_items [OF assms(1)] assms(2) by (auto simp: vector_room_def)
  then show ?thesis using assms by (auto simp: vector_room_def vec_total_def)
qed

section \<open>Properties\<close>

text \<open>
  Items added to a new vector of a positive capacity, up to 2^30 of them, are all there,
  in order, at their indices.
\<close>

theorem vector_add_all:
  assumes "1 \<le> n" and "n < 2 ^ 31" and "length xs \<le> 2 ^ 30"
  shows "\<exists>v. chain (map vector_append xs) (libp2p_utils_vector_new n) = Inr v \<and> vec_items v = xs \<and>
    libp2p_utils_vector_total v = int (length xs) \<and>
    (\<forall>i < length xs. libp2p_utils_vector_get v (int i) = xs ! i) \<and>
    libp2p_utils_vector_get v (int (length xs)) = None"
proof -
  have "vector_room (libp2p_utils_vector_new n) (length xs)"
    using assms by (simp add: vector_room_def libp2p_utils_vector_new_def vec_total_def)
  from vec.add_all [OF this] show ?thesis
    by (auto simp: libp2p_utils_vector_new_def libp2p_utils_vector_total_def vec_total_def
        libp2p_utils_vector_get_def)
qed

theorem vector_add_all_witness:
  "\<exists>v. chain (map vector_append [Some 5, None, Some 7]) (libp2p_utils_vector_new 1) = Inr v \<and>
    libp2p_utils_vector_get v 2 = Some (7 :: nat)"
proof -
  let ?xs = "[Some 5, None, Some (7 :: nat)]"
  obtain v where v: "chain (map vector_append ?xs) (libp2p_utils_vector_new 1) = Inr v"
    "\<forall>i < length ?xs. libp2p_utils_vector_get v (int i) = ?xs ! i"
    using vector_add_all [of 1 ?xs] by fastforce
  from v(2) have "libp2p_utils_vector_get v (int 2) = ?xs ! 2" by (elim allE [of _ 2]) simp
  with v(1) show ?thesis by auto
qed

text \<open>The first item added to a vector that was made with capacity 0 is written out of bounds.\<close>

theorem vector_zero_capacity:
  "libp2p_utils_vector_add (libp2p_utils_vector_new 0) item = Inl Undefined"
  by (simp add: libp2p_utils_vector_add_def libp2p_utils_vector_new_def vec_total_def
      libp2p_utils_vector_resize_def)

text \<open>
  Deleting shifts the whole vector, whatever the index. Deleting the first item is right;
  deleting a later one loses the first item and leaves a null pointer in front of the place of
  the deleted one.
\<close>

theorem vector_delete_shifts_all:
  assumes "i < length (vec_items v)" and "vec_total v \<le> vec_capacity v" and "vec_capacity v < 2 ^ 31"
  shows "\<exists>w. libp2p_utils_vector_delete v (int i) = Inr w \<and>
    vec_items w = tl ((vec_items v)[i := None]) \<and> vec_total w \<le> vec_capacity w \<and>
    (i = 0 \<longrightarrow> vec_items w = tl (vec_items v)) \<and>
    (0 < i \<longrightarrow> libp2p_utils_vector_get w (int i - 1) = None)"
proof -
  obtain c where c: "libp2p_utils_vector_delete v (int i) =
      Inr (v\<lparr>vec_items := tl ((vec_items v)[i := None]), vec_capacity := c\<rparr>)" "vec_total v - 1 \<le> c"
    using vector_delete_items [OF assms] by blast
  obtain x xs where xs: "vec_items v = x # xs" using assms(1) by (cases "vec_items v") auto
  show ?thesis
    using c assms(1) xs
    by (cases i) (auto simp: vec_total_def libp2p_utils_vector_get_def)
qed

theorem vector_delete_shifts_all_witness:
  "\<exists>w. libp2p_utils_vector_delete \<lparr>vec_items = [Some 1, Some 2, Some (3::nat)], vec_capacity = 4\<rparr> 1 =
      Inr w \<and> vec_items w = [None, Some 3]"
  using vector_delete_shifts_all [of 1 "\<lparr>vec_items = [Some 1, Some 2, Some (3::nat)], vec_capacity = 4\<rparr>"]
  by (auto simp: vec_total_def)

end
