(* ===== verification/Varint.thy ===== *)
theory Varint
  imports Ipfs_Prelude
begin

text \<open>
  The variable-length integers of \<open>libp2p/protobuf/varint.c\<close>: the two loops over the
  caller's buffer, with every write and read checked against the buffer's extent and each
  \<open>assert\<close> a branch, and the base-128 notation they implement.
\<close>

section \<open>The code\<close>

definition varint_encoding_length :: "u64 \<Rightarrow> int" where
  "varint_encoding_length n =
     (if n < 128 then 1
      else if n < 16384 then 2
      else if n < 2097152 then 3
      else if n < 268435456 then 4
      else if n < 34359738368 then 5
      else if n < 4398046511104 then 6
      else if n < 562949953421312 then 7
      else if n < 72057594037927936 then 8
      else if n < 9223372036854775808 then 9
      else 10)"

text \<open>
  The signed character constants \<open>MSB\<close> (0x80) and \<open>MSBALL\<close> (the complement of 0x7F),
  widened to 64 bits by the usual conversions: both have all bits from the seventh up.
\<close>

definition MSBALL :: u64 where
  "MSBALL = NOT 0x7F"

definition MSB :: u64 where
  "MSB = NOT 0x7F"

text \<open>
  \<open>varint_encode\<close> writes at \<open>buf\<close>, of which \<open>cap\<close> bytes belong to the caller's array;
  \<open>len\<close> is the length it is told, \<open>i\<close> the distance \<open>ptr - buf\<close>. The result is the
  list of bytes written, so \<open>*bytes\<close> is its length.
\<close>

function varint_encode_loop :: "u64 \<Rightarrow> nat \<Rightarrow> int \<Rightarrow> nat \<Rightarrow> bytes result" where
  "varint_encode_loop copy cap len i =
     (if copy AND MSBALL \<noteq> 0 then
        (if i < cap then
           (if int (i + 1) < len then
              (case varint_encode_loop (drop_bit 7 copy) cap len (i + 1) of
                 Inl e \<Rightarrow> Inl e
               | Inr bs \<Rightarrow> Inr (ucast ((copy AND 0xFF) OR MSB) # bs))
            else Inl Abort)
         else Inl Undefined)
      else (if i < cap then Inr [ucast copy] else Inl Undefined))"
  by pat_completeness auto
termination
proof (relation "measure (\<lambda>(copy, cap, len, i). unat copy)")
  fix copy :: u64 and cap :: nat and len :: int and i :: nat
  assume "copy AND MSBALL \<noteq> 0"
  then have "copy \<noteq> 0" by auto
  then have "unat copy \<noteq> 0" by (simp add: unat_eq_zero)
  then show "((drop_bit 7 copy, cap, len, i + 1), (copy, cap, len, i))
      \<in> measure (\<lambda>(copy, cap, len, i). unat copy)"
    by (simp add: unat_drop_bit_eq drop_bit_nat_def)
qed simp

declare varint_encode_loop.simps [simp del]

definition varint_encode :: "u64 \<Rightarrow> nat \<Rightarrow> int \<Rightarrow> bytes result" where
  "varint_encode n cap len = varint_encode_loop n cap len 0"

text \<open>
  \<open>varint_decode\<close> reads at \<open>buf\<close>: the list holds the bytes of the caller's array from
  there to its end, so reading past the list is an access outside the array. \<open>i\<close> is the
  distance \<open>ptr - buf\<close>; \<open>bits\<close> is \<open>7 * i\<close>, and a shift by 64 or more has no meaning.
  The result is the value and the number of bytes read.
\<close>

definition varint_bits :: "byte \<Rightarrow> nat \<Rightarrow> u64" where
  "varint_bits b i = push_bit (7 * i) (ucast b AND 0x7F)"

fun varint_decode_loop :: "bytes \<Rightarrow> int \<Rightarrow> nat \<Rightarrow> u64 \<Rightarrow> (u64 \<times> nat) result" where
  "varint_decode_loop [] len i acc = Inl Undefined"
| "varint_decode_loop (b # bs) len i acc =
     (if 64 \<le> 7 * i then Inl Undefined
      else if (ucast b :: u64) AND 0x80 \<noteq> 0 then
        (if int (i + 1) < len then varint_decode_loop bs len (i + 1) (acc + varint_bits b i)
         else Inl Abort)
      else Inr (acc + varint_bits b i, i + 1))"

definition varint_decode :: "bytes \<Rightarrow> int \<Rightarrow> (u64 \<times> nat) result" where
  "varint_decode buf len = varint_decode_loop buf len 0 0"

section \<open>Base-128 notation\<close>

text \<open>
  The reference: seven bits to a byte, least significant group first, the top bit set on
  every byte but the last (LEB128, the protobuf varint).
\<close>

fun leb128 :: "nat \<Rightarrow> bytes" where
  "leb128 n =
     (if n < 128 then [of_nat n] else of_nat (n mod 128 + 128) # leb128 (n div 128))"

declare leb128.simps [simp del]

lemma leb128_small: "n < 128 \<Longrightarrow> leb128 n = [of_nat n]"
  by (subst leb128.simps) simp

section \<open>Bits of a byte\<close>

lemma MSBALL_mask: "MSBALL = NOT (mask 7)" "MSB = NOT (mask 7)"
  by (simp_all add: MSBALL_def MSB_def mask_numeral)

lemma MSBALL_drop: "w AND MSBALL = push_bit 7 (drop_bit 7 w)"
  unfolding MSBALL_mask by (rule bit_eqI) (auto simp add: bit_simps)

lemma MSBALL_zero_iff: "w AND MSBALL = 0 \<longleftrightarrow> unat w < 128"
proof -
  have "w AND MSBALL = 0 \<longleftrightarrow> unat (push_bit 7 (drop_bit 7 w)) = 0"
    by (simp only: MSBALL_drop unat_eq_0)
  also have "unat (push_bit 7 (drop_bit 7 w)) = 128 * (unat w div 128)"
  proof -
    have "128 * (unat w div 128) \<le> unat w" by simp
    also have "unat w < 2^64" using unsigned_less [of w] by simp
    finally show ?thesis 
     by (simp add: push_bit_eq_mult unat_word_ariths unat_drop_bit_eq drop_bit_nat_def)
  qed
  finally show ?thesis by auto
qed

lemma bit_128: "bit (128::nat) n \<longleftrightarrow> n = 7"
  using bit_exp_iff [of 7 n, where ?'a = nat] by (simp add: eq_commute)

lemma mod128_or: "m mod 128 + 128 = take_bit 7 m OR (128::nat)"
proof -
  have "take_bit 7 m + 128 = take_bit 7 m OR (128::nat)"
    by (rule disjunctive_add) (auto simp: bit_simps bit_128)
  then show ?thesis by (simp add: take_bit_eq_mod)
qed

lemma encode_byte: "(ucast ((w AND 0xFF) OR MSB) :: byte) = of_nat (unat w mod 128 + 128)"
proof (rule bit_eqI)
  fix n
  have e: "(0xFF :: u64) = mask 8" by (simp add: mask_numeral)
  show "bit (ucast ((w AND 0xFF) OR MSB) :: byte) n = bit (of_nat (unat w mod 128 + 128) :: byte) n"
    unfolding mod128_or e MSBALL_mask by (auto simp add: bit_simps bit_128)
qed

lemma unat_ucast_low7: "unat ((ucast (b::byte) :: u64) AND 0x7F) = unat b mod 128"
proof -
  have e: "(0x7F :: u64) = mask 7" by (simp add: mask_numeral)
  show ?thesis
    unfolding e take_bit_eq_mask [symmetric]
    by (simp only: unsigned_take_bit_eq) (simp add: unsigned_ucast_eq take_bit_eq_mod mod_mod_cancel)
qed

lemma ucast_high: "(ucast (b::byte) :: u64) AND 0x80 \<noteq> 0 \<longleftrightarrow> 128 \<le> unat b"
proof -
  have e: "(0x80 :: u64) = 2 ^ 7" by simp
  have "(ucast b :: u64) AND 0x80 \<noteq> 0 \<longleftrightarrow> bit (ucast b :: u64) 7"
    unfolding e by (simp only: and_exp_eq_0_iff_not_bit not_not)
  also have "\<dots> \<longleftrightarrow> bit b 7" by (simp add: bit_simps)
  also have "\<dots> \<longleftrightarrow> bit (unat b) 7" by (simp add: bit_simps)
  also have "\<dots> \<longleftrightarrow> odd (unat b div 128)" by (simp add: bit_iff_odd)
  also have "\<dots> \<longleftrightarrow> 128 \<le> unat b"
  proof (cases "unat b < 128")
    case False
    then have "unat b div 128 = 1"
      using unsigned_less [of b, where 'a = nat] by (intro div_nat_eqI) simp_all
    with False show ?thesis by simp
  qed simp
  finally show ?thesis .
qed

section \<open>Lengths\<close>

lemma length_leb128_pos [simp]: "0 < length (leb128 n)" "leb128 n \<noteq> []"
  by (subst leb128.simps, simp)+

lemma leb128_length_le: "n < 2 ^ (7 * Suc k) \<Longrightarrow> length (leb128 n) \<le> Suc k"
proof (induction k arbitrary: n)
  case 0
  then show ?case by (subst leb128.simps) simp
next
  case (Suc k)
  have "n div 128 < 2 ^ (7 * Suc k)"
    using Suc.prems by (simp add: div_less_iff_less_mult power_add)
  then have "length (leb128 (n div 128)) \<le> Suc k" by (rule Suc.IH)
  then show ?case by (subst leb128.simps) simp
qed

lemma leb128_length_gt: "2 ^ (7 * k) \<le> n \<Longrightarrow> k < length (leb128 n)"
proof (induction k arbitrary: n)
  case 0
  then show ?case by simp
next
  case (Suc k)
  have "2 ^ (7 * k) \<le> n div 128"
    using div_le_mono [OF Suc.prems, of 128] by (simp add: power_add)
  then have "k < length (leb128 (n div 128))" by (rule Suc.IH)
  moreover have "\<not> n < 128"
  proof -
    have "(128::nat) \<le> 128 * 2 ^ (7 * k)" by simp
    also have "\<dots> \<le> n" using Suc.prems by (simp add: power_add)
    finally show ?thesis by (simp only: not_less)
  qed
  ultimately show ?case by (subst leb128.simps) simp
qed

lemma length_leb128_u64: "length (leb128 (unat (w :: u64))) \<le> 10"
  using unsigned_less [of w, where 'a = nat] leb128_length_le [of "unat w" 9] by simp

lemma varint_encoding_length_eq: "varint_encoding_length n = int (length (leb128 (unat n)))"
proof -
  have l: "\<And>k. unat n < 2 ^ (7 * Suc k) \<Longrightarrow> 2 ^ (7 * k) \<le> unat n \<or> k = 0 \<Longrightarrow>
      length (leb128 (unat n)) = Suc k"
    using leb128_length_le leb128_length_gt length_leb128_pos
    by (metis le_antisym Suc_leI One_nat_def)
  have l9: "length (leb128 (unat n)) = 10" if "9223372036854775808 \<le> unat n"
    using that leb128_length_gt [of 9 "unat n"] length_leb128_u64 [of n] by simp
  note k = l [of 0] l [of 1] l [of 2] l [of 3] l [of 4] l [of 5] l [of 6] l [of 7] l [of 8]
  note k' = k [simplified]
  show ?thesis
    unfolding varint_encoding_length_def word_less_nat_alt
    by (simp add: k' l9 not_less split: if_split)
qed

section \<open>The encoder\<close>

lemma encode_loop_ok:
  assumes "i + length (leb128 (unat w)) \<le> cap"
    and "length (leb128 (unat w)) = 1 \<or> int (i + length (leb128 (unat w))) \<le> len"
  shows "varint_encode_loop w cap len i = Inr (leb128 (unat w))"
  using assms
proof (induction w cap len i rule: varint_encode_loop.induct)
  case (1 w cap len i)
  show ?case
  proof (cases "unat w < 128")
    case True
    then have "leb128 (unat w) = [ucast w]"
      by (subst leb128.simps) (simp add: unsigned_ucast_eq of_nat_unat)
    with True 1 show ?thesis by (subst varint_encode_loop.simps) (simp add: MSBALL_zero_iff)
  next
    case False
    have d: "unat (drop_bit 7 w) = unat w div 128"
      by (simp add: unat_drop_bit_eq drop_bit_nat_def)
    from False have e: "leb128 (unat w) = of_nat (unat w mod 128 + 128) # leb128 (unat w div 128)"
      by (subst leb128.simps) simp
    have l: "1 \<le> int (length (leb128 (unat w div 128)))"
      using length_leb128_pos(1) [of "unat w div 128"] by linarith
    have n: "int (i + 1) < len" using "1.prems"(2) e l by auto
    have "varint_encode_loop (drop_bit 7 w) cap len (i + 1) = Inr (leb128 (unat w div 128))"
      using "1.prems" False e n by (subst "1.IH") (auto simp: MSBALL_zero_iff d)
    with n False "1.prems"(1) show ?thesis
      by (subst varint_encode_loop.simps) (simp add: MSBALL_zero_iff encode_byte e)
  qed
qed

lemma encode_loop_short:
  assumes "i < cap" and "cap < i + length (leb128 (unat w))"
  shows "varint_encode_loop w cap (int cap) i = Inl Abort"
  using assms
proof (induction w cap "int cap" i rule: varint_encode_loop.induct)
  case (1 w cap i)
  have big: "\<not> unat w < 128"
  proof
    assume "unat w < 128"
    then have "leb128 (unat w) = [of_nat (unat w)]" by (subst leb128.simps) simp
    with "1.prems" show False by simp
  qed
  have d: "unat (drop_bit 7 w) = unat w div 128"
    by (simp add: unat_drop_bit_eq drop_bit_nat_def)
  have e: "length (leb128 (unat w)) = Suc (length (leb128 (unat w div 128)))"
    using big by (subst leb128.simps) simp
  show ?case
  proof (cases "i + 1 < cap")
    case True
    then have "varint_encode_loop (drop_bit 7 w) cap (int cap) (i + 1) = Inl Abort"
      using "1.hyps" "1.prems" big d e by (simp add: MSBALL_zero_iff)
    with True big show ?thesis
      by (subst varint_encode_loop.simps) (simp add: MSBALL_zero_iff)
  next
    case False
    with big "1.prems" show ?thesis
      by (subst varint_encode_loop.simps) (simp add: MSBALL_zero_iff)
  qed
qed

lemma encode_loop_Inr:
  "varint_encode_loop w cap len i = Inr bs \<Longrightarrow> bs = leb128 (unat w) \<and> i + length bs \<le> cap"
proof (induction w cap len i arbitrary: bs rule: varint_encode_loop.induct)
  case (1 w cap len i)
  show ?case
  proof (cases "unat w < 128")
    case True
    then have "leb128 (unat w) = [ucast w]"
      by (subst leb128.simps) (simp add: unsigned_ucast_eq of_nat_unat)
    moreover have "i < cap \<and> bs = [ucast w]" using True "1.prems"
      by (subst (asm) varint_encode_loop.simps) (auto simp: MSBALL_zero_iff split: if_splits)
    ultimately show ?thesis by simp
  next
    case False
    have d: "unat (drop_bit 7 w) = unat w div 128"
      by (simp add: unat_drop_bit_eq drop_bit_nat_def)
    from False have e: "leb128 (unat w) = of_nat (unat w mod 128 + 128) # leb128 (unat w div 128)"
      by (subst leb128.simps) simp
    from False "1.prems" obtain bs' where c: "i < cap" "int (i + 1) < len"
      and r: "varint_encode_loop (drop_bit 7 w) cap len (i + 1) = Inr bs'"
      and bs: "bs = of_nat (unat w mod 128 + 128) # bs'"
      by (subst (asm) varint_encode_loop.simps)
        (auto simp: MSBALL_zero_iff encode_byte split: if_splits sum.splits)
    from False have "w AND MSBALL \<noteq> 0" by (simp add: MSBALL_zero_iff)
    from "1.IH" [OF this c r] have "bs' = leb128 (unat w div 128)" "i + 1 + length bs' \<le> cap"
      unfolding d by (rule conjunct1, rule conjunct2)
    then show ?thesis by (simp add: bs e)
  qed
qed

lemma varint_encode_Inr: "varint_encode n cap len = Inr bs \<Longrightarrow> bs = leb128 (unat n)"
  unfolding varint_encode_def using encode_loop_Inr by blast

lemma varint_encode_ok:
  "length (leb128 (unat n)) \<le> cap \<Longrightarrow> int (length (leb128 (unat n))) \<le> len \<Longrightarrow>
   varint_encode n cap len = Inr (leb128 (unat n))"
  unfolding varint_encode_def by (rule encode_loop_ok) simp_all

section \<open>The decoder\<close>

lemma varint_bits_leb:
  assumes "unat b mod 128 = r" shows "varint_bits b i = of_nat (r * 2 ^ (7 * i))"
proof -
  have "(ucast b AND 0x7F :: u64) = of_nat (unat (ucast b AND 0x7F :: u64))" by simp
  also have "\<dots> = of_nat r" by (simp only: unat_ucast_low7 assms)
  finally show ?thesis by (simp add: varint_bits_def push_bit_eq_mult)
qed

lemma decode_loop_leb128:
  assumes "i + length (leb128 m) \<le> 10"
    and "length (leb128 m) = 1 \<or> int (i + length (leb128 m)) \<le> len"
  shows "varint_decode_loop (leb128 m @ rest) len i acc =
    Inr (acc + of_nat (m * 2 ^ (7 * i)), i + length (leb128 m))"
  using assms
proof (induction m arbitrary: i acc rule: leb128.induct)
  case (1 m)
  show ?case
  proof (cases "m < 128")
    case True
    then have u: "unat (of_nat m :: byte) = m" by (simp add: unat_of_nat)
    from True have e: "leb128 m = [of_nat m]" by (subst leb128.simps) simp
    have "varint_bits (of_nat m) i = of_nat (m * 2 ^ (7 * i))"
      by (rule varint_bits_leb) (simp add: u True)
    with True "1.prems" show ?thesis using ucast_high [of "of_nat m"]
      by (simp add: e u del: of_nat_mult)
  next
    case False
    let ?b = "of_nat (m mod 128 + 128) :: byte"
    have u: "unat ?b = m mod 128 + 128"
      by (simp add: unat_of_nat del: of_nat_add)
    from False have e: "leb128 m = ?b # leb128 (m div 128)" by (subst leb128.simps) simp
    have l: "1 \<le> int (length (leb128 (m div 128)))"
      using length_leb128_pos(1) [of "m div 128"] by linarith
    have b: "varint_bits ?b i = of_nat ((m mod 128) * 2 ^ (7 * i))"
      by (rule varint_bits_leb) (simp add: u del: of_nat_add)
    have h: "(ucast ?b :: u64) AND 0x80 \<noteq> 0"
      unfolding ucast_high u by simp
    have i: "i < 9" using "1.prems"(1) l e by simp
    have n: "int (i + 1) < len" using "1.prems"(2) l e by auto
    have s: "(m mod 128) * 2 ^ (7 * i) + (m div 128) * 2 ^ (7 * (i + 1)) = m * 2 ^ (7 * i)"
    proof -
      have "r * p + q * (128 * p) = (r + 128 * q) * p" for r q p :: nat
        by (simp add: algebra_simps)
      moreover have "(2::nat) ^ (7 * (i + 1)) = 128 * 2 ^ (7 * i)" by (simp add: power_add)
      ultimately show ?thesis by (simp only: mod_mult_div_eq)
    qed
    have "varint_decode_loop (leb128 (m div 128) @ rest) len (i + 1) (acc + varint_bits ?b i) =
        Inr (acc + varint_bits ?b i + of_nat (m div 128 * 2 ^ (7 * (i + 1))),
             i + 1 + length (leb128 (m div 128)))"
      using "1.prems" False e by (intro "1.IH") auto
    also have "acc + varint_bits ?b i + of_nat (m div 128 * 2 ^ (7 * (i + 1))) = acc + of_nat (m * 2 ^ (7 * i))"
      unfolding b s [symmetric] by (simp only: of_nat_add add.assoc)
    finally show ?thesis using h i n
      by (simp add: e del: of_nat_mult of_nat_add)
  qed
qed


lemma decode_loop_bounds:
  assumes "varint_decode_loop bs len i acc = Inr (v, n)"
  shows "i < n \<and> n \<le> 10 \<and> n \<le> i + length bs"
  using assms
proof (induction bs len i acc rule: varint_decode_loop.induct)
  case (2 b bs len i acc)
  then show ?case by (fastforce split: if_splits)
qed simp

lemma varint_bits_bound:
  assumes "unat acc < 2 ^ (7 * i)"
  shows "unat (acc + varint_bits b i) < 2 ^ (7 * (i + 1))"
proof -
  define r p where "r = unat b mod 128" and "p = (2::nat) ^ (7 * i)"
  have "unat (varint_bits b i) \<le> r * p"
    unfolding varint_bits_leb [OF refl] unat_of_nat r_def p_def by (rule mod_less_eq_dividend)
  moreover have "unat (acc + varint_bits b i) \<le> unat acc + unat (varint_bits b i)"
    by (simp only: unat_word_ariths(1) mod_less_eq_dividend)
  moreover have "unat acc < p" using assms by (simp add: p_def)
  ultimately have "unat (acc + varint_bits b i) < (1 + r) * p" by (simp add: distrib_right)
  also have "(1 + r) * p \<le> 128 * p" unfolding r_def by (intro mult_le_mono le_refl) simp
  finally show ?thesis by (simp add: p_def power_add)
qed

lemma decode_loop_value:
  assumes "varint_decode_loop bs len i acc = Inr (v, n)" and "unat acc < 2 ^ (7 * i)"
  shows "unat v < 2 ^ (7 * n)"
  using assms
proof (induction bs len i acc rule: varint_decode_loop.induct)
  case (2 b bs len i acc)
  have small: "unat (acc + varint_bits b i) < 2 ^ (7 * (i + 1))"
    by (rule varint_bits_bound) (rule "2.prems"(2))
  show ?case
  proof (cases "(ucast b :: u64) AND 0x80 \<noteq> 0")
    case True
    with "2.prems"(1) have "\<not> 64 \<le> 7 * i" "int (i + 1) < len"
      and r: "varint_decode_loop bs len (i + 1) (acc + varint_bits b i) = Inr (v, n)"
      by (auto split: if_splits)
    then show ?thesis using "2.IH" True small by blast
  next
    case False
    with "2.prems"(1) have "v = acc + varint_bits b i" "n = i + 1"
      by (auto split: if_splits)
    with small show ?thesis by simp
  qed
qed simp

lemma decode_loop_mono:
  assumes "varint_decode_loop bs len i acc = Inr r"
  shows "varint_decode_loop (bs @ ys) len i acc = Inr r"
  using assms
  by (induction bs len i acc rule: varint_decode_loop.induct) (auto split: if_splits)

lemma varint_decode_leb128:
  assumes "int (length (leb128 (unat n))) \<le> len"
  shows "varint_decode (leb128 (unat n) @ rest) len = Inr (n, length (leb128 (unat n)))"
  using decode_loop_leb128 [of 0 "unat n" len rest 0] assms length_leb128_u64 [of n]
  by (simp add: varint_decode_def)

lemma varint_decode_nat:
  assumes "m < 2 ^ 64" and "int (length (leb128 m)) \<le> len"
  shows "varint_decode (leb128 m @ rest) len = Inr (of_nat m, length (leb128 m))"
  using varint_decode_leb128 [of "of_nat m" len rest] assms by (simp add: unat_of_nat)

lemma varint_decode_bounds:
  "varint_decode buf len = Inr (v, n) \<Longrightarrow> 0 < n \<and> n \<le> 10 \<and> n \<le> length buf"
  using decode_loop_bounds [of buf len 0 0 v n] by (simp add: varint_decode_def)

lemma decode_loop_told:
  assumes "varint_decode_loop bs len i acc = Inr (v, n)"
  shows "n = i + 1 \<or> int n \<le> len"
  using assms
proof (induction bs len i acc rule: varint_decode_loop.induct)
  case (2 b bs len i acc)
  then show ?case by (fastforce split: if_splits)
qed simp

lemma varint_encode_300: "varint_encode 300 10 10 = Inr [0xAC, 0x02]"
  by (simp add: varint_encode_def varint_encode_loop.simps MSBALL_def MSB_def)

section \<open>What a varint is\<close>

text \<open>
  Told the true size of its buffer, \<open>varint_encode\<close> writes the base-128 notation of the
  number when \<open>varint_encoding_length\<close> says that it fits, writes out of bounds when the buffer
  has no byte, and stops at its assertion in every other case.
\<close>

theorem varint_encode_spec:
  "varint_encode n cap (int cap) =
    (if varint_encoding_length n \<le> int cap then Inr (leb128 (unat n))
     else if cap = 0 then Inl Undefined else Inl Abort)"
proof (cases "varint_encoding_length n \<le> int cap")
  case True
  then show ?thesis by (simp add: varint_encoding_length_eq varint_encode_ok)
next
  case False
  then have short: "cap < length (leb128 (unat n))" by (simp add: varint_encoding_length_eq)
  show ?thesis
  proof (cases "cap = 0")
    case True
    then show ?thesis using False
      by (simp add: varint_encode_def varint_encode_loop.simps [of n])
  next
    case pos: False
    then show ?thesis using False short encode_loop_short [of 0 cap n]
      by (simp add: varint_encode_def)
  qed
qed

text \<open>
  C1: whatever follows it, an encoded number is decoded to itself, and exactly the bytes
  written are read, as soon as the decoder is given a length that covers them.
\<close>

theorem varint_round_trip:
  assumes "varint_encode n cap len = Inr bs" and "int (length bs) \<le> len'"
  shows "varint_decode (bs @ rest) len' = Inr (n, length bs)"
  using assms varint_decode_leb128 [of n len' rest] by (auto dest!: varint_encode_Inr)

theorem varint_round_trip_witness:
  "varint_decode ([0xAC, 0x02] @ [7]) 3 = Inr (300, 2)"
  using varint_round_trip [of 300 10 10 "[0xAC, 0x02]" 3 "[7]"] varint_encode_300
  by simp

text \<open>
  A decoder that returns has read between one and ten bytes, all of them inside the
  buffer and inside the length it was told (or just the first), and its value fits the
  seven-bit groups it has read.
\<close>

theorem varint_decode_safe:
  assumes "varint_decode buf len = Inr (v, n)"
  shows "0 < n \<and> n \<le> 10 \<and> n \<le> length buf \<and> (n = 1 \<or> int n \<le> len) \<and> unat v < 2 ^ (7 * n)"
  using varint_decode_bounds [OF assms] assms decode_loop_value [of buf len 0 0 v n]
    decode_loop_told [of buf len 0 0 v n]
  by (auto simp: varint_decode_def)

theorem varint_decode_safe_witness:
  "\<exists>v n. varint_decode [0xAC, 0x02, 7] 3 = Inr (v, n) \<and> n \<le> 3"
  using varint_decode_safe [of "[0xAC, 0x02, 7]" 3 300 2]
  by (simp add: varint_decode_def varint_bits_def)

end
