(* ===== verification/Protobuf.thy ===== *)
theory Protobuf
  imports Varint
begin

text \<open>
  The wire format helpers of \<open>libp2p/protobuf/protobuf.c\<close>, the \<open>while (pos < size)\<close> loop
  every decoder of the program is built on, and the format they implement: a message is a
  sequence of numbered fields, each a varint or a length-delimited byte string.

  A buffer argument is the list of the bytes of the caller's array from the pointer on.
  An encoder gets the number of bytes that are left in the caller's array, which is also
  the \<open>max_buffer_length\<close> it is passed, and returns the bytes it writes.
\<close>

section \<open>The code\<close>

datatype wire_type =
    WIRETYPE_VARINT
  | WIRETYPE_64BIT
  | WIRETYPE_LENGTH_DELIMITED
  | WIRETYPE_START_GROUP
  | WIRETYPE_END_GROUP
  | WIRETYPE_32BIT

fun wire_type_code :: "wire_type \<Rightarrow> u32" where
  "wire_type_code WIRETYPE_VARINT = 0"
| "wire_type_code WIRETYPE_64BIT = 1"
| "wire_type_code WIRETYPE_LENGTH_DELIMITED = 2"
| "wire_type_code WIRETYPE_START_GROUP = 3"
| "wire_type_code WIRETYPE_END_GROUP = 4"
| "wire_type_code WIRETYPE_32BIT = 5"

definition pb_tag :: "int \<Rightarrow> wire_type \<Rightarrow> u64" where
  "pb_tag field_number field_type =
     (let field_no = push_bit 3 (word_of_int field_number :: u32)
      in ucast (field_no OR wire_type_code field_type))"

definition protobuf_encode_length_delimited ::
    "int \<Rightarrow> wire_type \<Rightarrow> bytes \<Rightarrow> nat \<Rightarrow> bytes result" where
  "protobuf_encode_length_delimited field_number field_type incoming max_len =
     bind_res (varint_encode (pb_tag field_number field_type) max_len (c_int (int max_len))) (\<lambda>t.
     bind_res (varint_encode (of_nat (length incoming)) (max_len - length t)
                 (c_int (int (max_len - length t)))) (\<lambda>l.
     if incoming = [] then Inr (t @ l)
     else if length t + length l + length incoming \<le> max_len then Inr (t @ l @ incoming)
     else Inl Undefined))"

definition protobuf_encode_string ::
    "int \<Rightarrow> wire_type \<Rightarrow> bytes \<Rightarrow> nat \<Rightarrow> bytes result" where
  "protobuf_encode_string field_number field_type incoming max_len =
     protobuf_encode_length_delimited field_number field_type (c_string incoming) max_len"

definition protobuf_encode_varint ::
    "int \<Rightarrow> wire_type \<Rightarrow> u64 \<Rightarrow> nat \<Rightarrow> bytes result" where
  "protobuf_encode_varint field_number field_type incoming max_len =
     bind_res (varint_encode (pb_tag field_number field_type) max_len (c_int (int max_len))) (\<lambda>t.
     bind_res (varint_encode incoming (max_len - length t)
                 (c_int (int (max_len - length t)))) (\<lambda>v.
     Inr (t @ v)))"

text \<open>The decoders return the value and \<open>*bytes_read\<close>.\<close>

definition protobuf_decode_length_delimited ::
    "bytes \<Rightarrow> nat \<Rightarrow> (bytes \<times> nat) result" where
  "protobuf_decode_length_delimited buffer buffer_length =
     bind_res (varint_decode buffer (c_int (int buffer_length))) (\<lambda>(v, n).
     let field_size = unat v in
     if \<not> malloc_ok field_size then Inl Failure
     else if field_size \<le> length (drop n buffer)
     then Inr (take field_size (drop n buffer), n + field_size)
     else Inl Undefined)"

definition protobuf_decode_varint :: "bytes \<Rightarrow> nat \<Rightarrow> (u64 \<times> nat) result" where
  "protobuf_decode_varint buffer buffer_length =
     varint_decode buffer (c_int (int buffer_length))"

text \<open>
  \<open>protobuf_decode_string\<close> stores a pointer only when the length, read as an \<open>int\<close>, is
  positive (\<open>None\<close>: \<open>*results\<close> is left as it was), and adds that \<open>int\<close> to the
  unsigned \<open>*bytes_read\<close>.
\<close>

definition protobuf_decode_string :: "bytes \<Rightarrow> nat \<Rightarrow> (bytes option \<times> nat) result" where
  "protobuf_decode_string buffer buffer_length =
     bind_res (varint_decode buffer (c_int (int buffer_length))) (\<lambda>(v, n).
     let len = c_int (uint v); bytes_read = c_size (int n + len) in
     if 0 < len then
       (if nat len \<le> length (drop n buffer)
        then Inr (Some (take (nat len) (drop n buffer)), bytes_read)
        else Inl Undefined)
     else Inr (None, bytes_read))"

text \<open>
  The field number is the tag shifted, converted to \<open>int\<close>; the field type is what is left
  of the tag, converted to the 32 bits of the enumeration. No caller looks at the type.
\<close>

definition protobuf_decode_field_and_type :: "bytes \<Rightarrow> nat \<Rightarrow> (int \<times> u32 \<times> nat) result" where
  "protobuf_decode_field_and_type buffer buffer_length =
     bind_res (varint_decode buffer (c_int (int buffer_length))) (\<lambda>(field, n).
     let field_no = c_int (uint (drop_bit 3 field));
         field_type = (ucast (field - word_of_int (c_int (field_no * 8))) :: u32)
     in Inr (field_no, field_type, n))"

text \<open>
  The loop of every decoder: \<open>while (pos < size)\<close>, one tag read at \<open>buffer[pos]\<close> with the
  whole \<open>size\<close> as its length, then the decoder's own \<open>switch\<close> on the field number
  (\<open>h\<close>), which updates the object and \<open>pos\<close>. Nothing bounds the number of rounds, so
  the result is an option: \<open>None\<close> when the loop never ends.
\<close>

partial_function (option) pb_decode_loop ::
    "(int \<Rightarrow> nat \<Rightarrow> 's \<Rightarrow> ('s \<times> nat) run) \<Rightarrow> bytes \<Rightarrow> nat \<Rightarrow> 's \<Rightarrow> 's run" where
  "pb_decode_loop h buffer pos s =
     (if pos < length buffer then
        (case protobuf_decode_field_and_type (drop pos buffer) (length buffer) of
           Inl e \<Rightarrow> Some (Inl e)
         | Inr (field_no, field_type, n) \<Rightarrow>
             (case h field_no (pos + n) s of
                None \<Rightarrow> None
              | Some r \<Rightarrow>
                  (case r of
                     Inl e \<Rightarrow> Some (Inl e)
                   | Inr (s', pos') \<Rightarrow> pb_decode_loop h buffer pos' s')))
      else Some (Inr s))"

text \<open>
  What an encoder does for one field: call the helper at \<open>&buffer[*bytes_written]\<close> with
  what is left of the buffer and advance \<open>*bytes_written\<close>. \<open>out\<close> is what has been
  written so far, \<open>max_len\<close> the size of the buffer.
\<close>

definition put_bytes :: "int \<Rightarrow> bytes \<Rightarrow> nat \<Rightarrow> bytes \<Rightarrow> bytes result" where
  "put_bytes k d max_len out =
     bind_res (protobuf_encode_length_delimited k WIRETYPE_LENGTH_DELIMITED d (max_len - length out))
       (\<lambda>w. Inr (out @ w))"

definition put_string :: "int \<Rightarrow> bytes \<Rightarrow> nat \<Rightarrow> bytes \<Rightarrow> bytes result" where
  "put_string k d max_len out =
     bind_res (protobuf_encode_string k WIRETYPE_LENGTH_DELIMITED d (max_len - length out))
       (\<lambda>w. Inr (out @ w))"

definition put_varint :: "int \<Rightarrow> u64 \<Rightarrow> nat \<Rightarrow> bytes \<Rightarrow> bytes result" where
  "put_varint k v max_len out =
     bind_res (protobuf_encode_varint k WIRETYPE_VARINT v (max_len - length out))
       (\<lambda>w. Inr (out @ w))"

text \<open>
  An embedded message: a temporary buffer of the estimated size, the message's own encoder
  on it, then the bytes written as a length-delimited field.
\<close>

definition put_message ::
    "('m \<Rightarrow> nat) \<Rightarrow> ('m \<Rightarrow> nat \<Rightarrow> bytes result) \<Rightarrow> int \<Rightarrow> 'm \<Rightarrow> nat \<Rightarrow> bytes \<Rightarrow> bytes result" where
  "put_message sz enc k m max_len out =
     bind_res (enc m (sz m)) (\<lambda>w. put_bytes k w max_len out)"

text \<open>
  The same with a heap buffer, for a message whose size can fail to be computed.
\<close>

definition put_message_heap ::
    "('m \<Rightarrow> nat result) \<Rightarrow> ('m \<Rightarrow> nat \<Rightarrow> bytes result) \<Rightarrow> int \<Rightarrow> 'm \<Rightarrow> nat \<Rightarrow> bytes \<Rightarrow> bytes result" where
  "put_message_heap sz enc k m max_len out =
     bind_res (sz m) (\<lambda>n.
     if \<not> malloc_ok n then Inl Failure
     else bind_res (enc m n) (\<lambda>w. put_bytes k w max_len out))"

section \<open>The wire format\<close>

datatype wire_field = Varint_Field nat u64 | Bytes_Field nat bytes

fun fnum :: "wire_field \<Rightarrow> nat" where
  "fnum (Varint_Field k v) = k"
| "fnum (Bytes_Field k d) = k"

fun field_tag :: "wire_field \<Rightarrow> bytes" where
  "field_tag (Varint_Field k v) = leb128 (8 * k)"
| "field_tag (Bytes_Field k d) = leb128 (8 * k + 2)"

fun field_body :: "wire_field \<Rightarrow> bytes" where
  "field_body (Varint_Field k v) = leb128 (unat v)"
| "field_body (Bytes_Field k d) = leb128 (length d) @ d"

definition field_bytes :: "wire_field \<Rightarrow> bytes" where
  "field_bytes f = field_tag f @ field_body f"

definition wire :: "wire_field list \<Rightarrow> bytes" where
  "wire fs = concat (map field_bytes fs)"

lemma wire_simps [simp]:
  "wire [] = []"
  "wire (f # fs) = field_bytes f @ wire fs"
  "wire (fs @ gs) = wire fs @ wire gs"
  by (simp_all add: wire_def)

lemma field_bytes_nonempty [simp]: "field_bytes f \<noteq> []"
  by (cases f) (simp_all add: field_bytes_def)

section \<open>Encoding fields\<close>

lemma pb_tag_nat:
  assumes "k < 2 ^ 29"
  shows "unat (pb_tag (int k) WIRETYPE_VARINT) = 8 * k"
    and "unat (pb_tag (int k) WIRETYPE_LENGTH_DELIMITED) = 8 * k + 2"
proof -
  have u: "unat (push_bit 3 (word_of_int (int k)) :: u32) = 8 * k"
    using assms by (simp add: push_bit_eq_mult unat_word_ariths unat_of_nat)
  have d: "(push_bit 3 x :: u32) OR 2 = push_bit 3 x + 2" for x
  proof -
    have b: "bit (2 :: u32) n \<longleftrightarrow> n = 1" for n
      using bit_exp_iff [of 1 n, where ?'a = u32] by auto
    show ?thesis
      by (rule disjunctive_add [symmetric]) (auto simp: bit_simps b)
  qed
  have "unat ((push_bit 3 (word_of_int (int k)) :: u32) + 2) = 8 * k + 2"
    using assms u by (simp add: unat_word_ariths)
  then show "unat (pb_tag (int k) WIRETYPE_LENGTH_DELIMITED) = 8 * k + 2"
    using assms
    by (simp only: pb_tag_def Let_def wire_type_code.simps d)
      (simp add: unsigned_ucast_eq take_bit_nat_eq_self)
  show "unat (pb_tag (int k) WIRETYPE_VARINT) = 8 * k"
    using u assms by (simp add: pb_tag_def unsigned_ucast_eq take_bit_nat_eq_self)
qed

lemma length_leb128_small: "n < 2 ^ 31 \<Longrightarrow> length (leb128 n) \<le> 5"
  using leb128_length_le [of n 4] by simp

lemma protobuf_encode_length_delimited_ok:
  assumes "0 \<le> k" and "k < 2 ^ 28" and "max_len < 2 ^ 31"
    and fits: "length (field_bytes (Bytes_Field (nat k) d)) \<le> max_len"
  shows "protobuf_encode_length_delimited k WIRETYPE_LENGTH_DELIMITED d max_len =
    Inr (field_bytes (Bytes_Field (nat k) d))"
proof -
  let ?t = "leb128 (8 * nat k + 2)" and ?l = "leb128 (length d)"
  have t: "unat (pb_tag k WIRETYPE_LENGTH_DELIMITED) = 8 * nat k + 2"
    using pb_tag_nat(2) [of "nat k"] assms by simp
  have l: "unat (of_nat (length d) :: u64) = length d"
    using fits assms(3) by (simp add: field_bytes_def unat_of_nat)
  have len: "length ?t + length ?l + length d \<le> max_len"
    using fits by (simp add: field_bytes_def)
  have "varint_encode (pb_tag k WIRETYPE_LENGTH_DELIMITED) max_len (c_int (int max_len)) = Inr ?t"
    using varint_encode_ok [of "pb_tag k WIRETYPE_LENGTH_DELIMITED" max_len "int max_len"] len assms(3)
    by (simp add: t c_arith)
  moreover have "varint_encode (of_nat (length d)) (max_len - length ?t)
      (c_int (int (max_len - length ?t))) = Inr ?l"
    using varint_encode_ok [of "of_nat (length d)" "max_len - length ?t" "int (max_len - length ?t)"]
      len assms(3)
    by (simp add: l c_arith)
  ultimately show ?thesis using len
    by (simp add: protobuf_encode_length_delimited_def field_bytes_def)
qed

lemma protobuf_encode_varint_ok:
  assumes "0 \<le> k" and "k < 2 ^ 28" and "max_len < 2 ^ 31"
    and fits: "length (field_bytes (Varint_Field (nat k) v)) \<le> max_len"
  shows "protobuf_encode_varint k WIRETYPE_VARINT v max_len =
    Inr (field_bytes (Varint_Field (nat k) v))"
proof -
  let ?t = "leb128 (8 * nat k)" and ?v = "leb128 (unat v)"
  have t: "unat (pb_tag k WIRETYPE_VARINT) = 8 * nat k"
    using pb_tag_nat(1) [of "nat k"] assms by simp
  have len: "length ?t + length ?v \<le> max_len"
    using fits by (simp add: field_bytes_def)
  have "varint_encode (pb_tag k WIRETYPE_VARINT) max_len (c_int (int max_len)) = Inr ?t"
    using varint_encode_ok [of "pb_tag k WIRETYPE_VARINT" max_len "int max_len"] len assms(3)
    by (simp add: t c_arith)
  moreover have "varint_encode v (max_len - length ?t) (c_int (int (max_len - length ?t))) = Inr ?v"
    using varint_encode_ok [of v "max_len - length ?t" "int (max_len - length ?t)"] len assms(3)
    by (simp add: c_arith)
  ultimately show ?thesis by (simp add: protobuf_encode_varint_def field_bytes_def)
qed

section \<open>Writing sequences of fields\<close>

text \<open>
  A step of an encoder writes the fields \<open>fs\<close>: given room for them it appends exactly
  their bytes.
\<close>

definition writes :: "nat \<Rightarrow> (bytes \<Rightarrow> bytes result) \<Rightarrow> wire_field list \<Rightarrow> bool" where
  "writes max_len f fs \<longleftrightarrow>
     (\<forall>out. length out + length (wire fs) \<le> max_len \<longrightarrow> f out = Inr (out @ wire fs))"

named_theorems writes_intros \<open>what the steps of an encoder write\<close>

lemma writesD:
  "writes max_len f fs \<Longrightarrow> length out + length (wire fs) \<le> max_len \<Longrightarrow> f out = Inr (out @ wire fs)"
  by (simp add: writes_def)

lemma writes_put_bytes [writes_intros]:
  assumes "max_len < 2 ^ 31" and "k = int j" and "j < 2 ^ 28"
  shows "writes max_len (put_bytes k d max_len) [Bytes_Field j d]"
  using assms protobuf_encode_length_delimited_ok [of k _ d]
  by (auto simp: writes_def put_bytes_def)

lemma writes_put_string [writes_intros]:
  assumes "max_len < 2 ^ 31" and "k = int j" and "j < 2 ^ 28"
  shows "writes max_len (put_string k d max_len) [Bytes_Field j (c_string d)]"
  using assms protobuf_encode_length_delimited_ok [of k _ "c_string d"]
  by (auto simp: writes_def put_string_def protobuf_encode_string_def)

lemma writes_put_varint [writes_intros]:
  assumes "max_len < 2 ^ 31" and "k = int j" and "j < 2 ^ 28"
  shows "writes max_len (put_varint k v max_len) [Varint_Field j v]"
  using assms protobuf_encode_varint_ok [of k _ v]
  by (auto simp: writes_def put_varint_def)

lemma writes_put_message:
  assumes "enc m (sz m) = Inr w" and "max_len < 2 ^ 31" and "k = int j" and "j < 2 ^ 28"
  shows "writes max_len (put_message sz enc k m max_len) [Bytes_Field j w]"
  using writes_put_bytes [OF assms(2-4), of w] assms(1)
  by (simp add: writes_def put_message_def)

lemma writes_put_message_heap:
  assumes "sz m = Inr n" and "malloc_ok n" and "enc m n = Inr w"
    and "max_len < 2 ^ 31" and "k = int j" and "j < 2 ^ 28"
  shows "writes max_len (put_message_heap sz enc k m max_len) [Bytes_Field j w]"
  using writes_put_bytes [OF assms(4-6), of w] assms(1-3)
  by (simp add: writes_def put_message_heap_def)

lemma writes_Nil [writes_intros]: "writes max_len (chain []) []"
  by (simp add: writes_def)

lemma writes_Cons [writes_intros]:
  "writes max_len f [x] \<Longrightarrow> writes max_len (chain ps) gs \<Longrightarrow>
   writes max_len (chain (f # ps)) (x # gs)"
  by (simp add: writes_def)

lemma writes_append [writes_intros]:
  "writes max_len (chain ps) fs \<Longrightarrow> writes max_len (chain qs) gs \<Longrightarrow>
   writes max_len (chain (ps @ qs)) (fs @ gs)"
  by (simp add: writes_def chain_append)

lemma writes_map [writes_intros]:
  "(\<And>x. x \<in> set xs \<Longrightarrow> writes max_len (f x) [g x]) \<Longrightarrow>
   writes max_len (chain (map f xs)) (map g xs)"
  by (induction xs) (simp_all add: writes_Nil writes_Cons)

lemma chain_writes:
  "writes max_len (chain ps) fs \<Longrightarrow> length (wire fs) \<le> max_len \<Longrightarrow>
   chain ps [] = Inr (wire fs)"
  by (simp add: writes_def)

section \<open>Decoding fields\<close>

lemma varint_decode_tag:
  assumes "k < 2 ^ 28" and "c < 8" and "length (leb128 (8 * k + c)) \<le> n" and "n < 2 ^ 31"
  shows "\<exists>t. protobuf_decode_field_and_type (leb128 (8 * k + c) @ rest) n =
    Inr (int k, t, length (leb128 (8 * k + c)))"
proof -
  have "varint_decode (leb128 (8 * k + c) @ rest) (c_int (int n)) =
      Inr (of_nat (8 * k + c), length (leb128 (8 * k + c)))"
    using assms by (intro varint_decode_nat) (simp_all add: c_arith)
  moreover have "uint (drop_bit 3 (of_nat (8 * k + c) :: u64)) = int k"
  proof -
    have "unat (of_nat (8 * k + c) :: u64) = 8 * k + c"
      unfolding unat_of_nat using assms by simp
    then have "unat (drop_bit 3 (of_nat (8 * k + c) :: u64)) = k"
      using assms(2) by (simp only: unat_drop_bit_eq drop_bit_nat_def) simp
    then show ?thesis by (simp only: uint_nat)
  qed
  ultimately show ?thesis using assms(1)
    by (simp add: protobuf_decode_field_and_type_def c_arith)
qed

lemma decode_length_delimited_body [simp]:
  assumes "n = length (leb128 (length d)) + length d + length rest" and "n < 2 ^ 31"
  shows "protobuf_decode_length_delimited (leb128 (length d) @ d @ rest) n =
    Inr (d, length (leb128 (length d)) + length d)"
proof -
  have "varint_decode (leb128 (length d) @ d @ rest) (c_int (int n)) =
      Inr (of_nat (length d), length (leb128 (length d)))"
    using assms by (intro varint_decode_nat) (simp_all add: c_arith)
  moreover have "unat (of_nat (length d) :: u64) = length d"
    using assms by (simp add: unat_of_nat)
  ultimately show ?thesis using assms
    by (simp add: protobuf_decode_length_delimited_def malloc_ok_def Let_def)
qed

lemma decode_length_delimited_empty [simp]:
  assumes "n = length (leb128 0) + length rest" and "n < 2 ^ 31"
  shows "protobuf_decode_length_delimited (leb128 0 @ rest) n = Inr ([], length (leb128 0))"
  using decode_length_delimited_body [of n "[]" rest] assms by simp

lemma decode_varint_body [simp]:
  assumes "n = length (leb128 (unat v)) + length rest" and "n < 2 ^ 31"
  shows "protobuf_decode_varint (leb128 (unat v) @ rest) n = Inr (v, length (leb128 (unat v)))"
  using assms by (simp add: protobuf_decode_varint_def varint_decode_leb128 c_arith)

lemma varint_decode_body [simp]:
  assumes "n = length (leb128 (unat v)) + length rest" and "n < 2 ^ 31"
  shows "varint_decode (leb128 (unat v) @ rest) (c_int (int n)) = Inr (v, length (leb128 (unat v)))"
  using assms by (simp add: varint_decode_leb128 c_arith)

lemma varint_decode_body_sum [simp]:
  assumes "length (leb128 (unat v)) + length rest < 2 ^ 31"
  shows "varint_decode (leb128 (unat v) @ rest)
      (c_int (int (length (leb128 (unat v))) + int (length rest))) =
    Inr (v, length (leb128 (unat v)))"
  using varint_decode_body [OF refl assms] by simp

lemma decode_string_body [simp]:
  assumes "n = length (leb128 (length d)) + length d + length rest" and "n < 2 ^ 31"
  shows "protobuf_decode_string (leb128 (length d) @ d @ rest) n =
    Inr (if d = [] then None else Some d, length (leb128 (length d)) + length d)"
proof -
  have "varint_decode (leb128 (length d) @ d @ rest) (c_int (int n)) =
      Inr (of_nat (length d), length (leb128 (length d)))"
    using assms by (intro varint_decode_nat) (simp_all add: c_arith)
  moreover have "uint (of_nat (length d) :: u64) = int (length d)"
    using assms by (simp add: unsigned_of_nat take_bit_nat_eq_self flip: of_nat_take_bit)
  moreover have "c_size (int (length (leb128 (length d))) + int (length d)) =
      length (leb128 (length d)) + length d"
    using c_size_nat [of "length (leb128 (length d)) + length d"] assms by simp
  ultimately show ?thesis using assms
    by (cases "d = []") (simp_all add: protobuf_decode_string_def c_arith Let_def leb128_small)
qed

lemma decode_string_empty [simp]:
  assumes "n = length (leb128 0) + length rest" and "n < 2 ^ 31"
  shows "protobuf_decode_string (leb128 0 @ rest) n = Inr (None, length (leb128 0))"
  using decode_string_body [of n "[]" rest] assms by simp

text \<open>
  A decoder's \<open>switch\<close> understands the field \<open>f\<close>: positioned after its tag, it updates
  the object by \<open>app f\<close> and leaves \<open>pos\<close> just behind the field.
\<close>

definition decodes ::
    "(int \<Rightarrow> nat \<Rightarrow> 's \<Rightarrow> ('s \<times> nat) run) \<Rightarrow> bytes \<Rightarrow> (wire_field \<Rightarrow> 's \<Rightarrow> 's) \<Rightarrow> wire_field \<Rightarrow> bool" where
  "decodes h buffer app f \<longleftrightarrow>
     (\<forall>pos rest s.
        drop pos buffer = field_body f @ rest \<longrightarrow>
        length buffer - pos = length (field_body f) + length rest \<longrightarrow>
        h (int (fnum f)) pos s = Some (Inr (app f s, pos + length (field_body f))))"

lemma decodesI:
  assumes "\<And>pos rest s. drop pos buffer = field_body f @ rest \<Longrightarrow>
      length buffer - pos = length (field_body f) + length rest \<Longrightarrow>
      h (int (fnum f)) pos s = Some (Inr (app f s, pos + length (field_body f)))"
  shows "decodes h buffer app f"
  using assms by (simp add: decodes_def)

lemma c_size_pos:
  assumes "length buffer - pos = length (leb128 m) + n" and "length buffer < 2 ^ 31"
    and "k \<le> length (leb128 m) + n"
  shows "c_size (int pos + int k) = pos + k"
proof -
  have "pos + k \<le> length buffer" using assms(1,3) length_leb128_pos(1) [of m] by linarith
  then have "pos + k < 2 ^ 64" using assms(2) by simp
  then show ?thesis using c_size_nat [of "pos + k"] by simp
qed

lemma pb_decode_loop_end: "length buffer \<le> pos \<Longrightarrow> pb_decode_loop h buffer pos s = Some (Inr s)"
  by (subst pb_decode_loop.simps) simp

lemma pb_decode_loop_tag:
  assumes "fnum f < 2 ^ 28" and "length buffer < 2 ^ 31"
    and d: "drop pos buffer = field_tag f @ rest"
  shows "pb_decode_loop h buffer pos s =
    bind_run (h (int (fnum f)) (pos + length (field_tag f)) s)
      (\<lambda>(s', pos'). pb_decode_loop h buffer pos' s')"
proof -
  obtain c where tag: "field_tag f = leb128 (8 * fnum f + c)" and c: "c < 8"
    by (cases f) (use that [of 0] that [of 2] in auto)
  have pos: "pos < length buffer"
    using d length_leb128_pos(2) by (metis append_is_Nil_conv drop_eq_Nil not_le tag)
  moreover have "length (field_tag f) \<le> length buffer"
    using arg_cong [OF d, of length] by simp
  ultimately obtain t where "protobuf_decode_field_and_type (drop pos buffer) (length buffer) =
      Inr (int (fnum f), t, length (field_tag f))"
    using varint_decode_tag [OF assms(1) c, of "length buffer" rest] assms(2)
    by (auto simp: d tag)
  with pos show ?thesis
    by (subst pb_decode_loop.simps) (simp add: bind_run_def split: option.splits sum.splits)
qed

lemma pb_decode_loop_field:
  assumes "fnum f < 2 ^ 28" and "length buffer < 2 ^ 31" and "decodes h buffer app f"
    and d: "drop pos buffer = field_bytes f @ rest" and "pos \<le> length buffer"
  shows "pb_decode_loop h buffer pos s =
    pb_decode_loop h buffer (pos + length (field_bytes f)) (app f s)"
proof -
  from d have d': "drop pos buffer = field_tag f @ field_body f @ rest"
    by (simp add: field_bytes_def)
  then have "drop (pos + length (field_tag f)) buffer = field_body f @ rest"
    by (rule drop_append_shift)
  moreover have "length buffer - (pos + length (field_tag f)) = length (field_body f) + length rest"
    using drop_eq_append_le [OF d] assms(5) by (simp add: field_bytes_def)
  ultimately have "h (int (fnum f)) (pos + length (field_tag f)) s =
      Some (Inr (app f s, pos + length (field_bytes f)))"
    using assms(3) by (simp add: decodes_def field_bytes_def)
  then show ?thesis
    by (simp add: pb_decode_loop_tag [OF assms(1,2) d'])
qed

text \<open>A round that ends where it began, with the object unchanged, is repeated for ever.\<close>

lemma pb_decode_loop_stuck:
  assumes "pos < length buffer"
    and "protobuf_decode_field_and_type (drop pos buffer) (length buffer) = Inr (k, t, n)"
    and "h k (pos + n) s = Some (Inr (s, pos))"
  shows "pb_decode_loop h buffer pos s = None"
proof (rule ccontr)
  assume "pb_decode_loop h buffer pos s \<noteq> None"
  then obtain r where r: "pb_decode_loop h buffer pos s = Some r" by blast
  have "\<not> (h = h \<and> buffer = buffer \<and> pos = pos \<and> s = s)"
    by (rule pb_decode_loop.raw_induct
        [where P = "\<lambda>h' b p u r. \<not> (h' = h \<and> b = buffer \<and> p = pos \<and> u = s)", OF _ r])
      (use assms in \<open>auto, blast\<close>)
  then show False by simp
qed

lemma pb_decode_loop_wire_rest:
  assumes "length buffer < 2 ^ 31"
    and "\<And>f. f \<in> set fs \<Longrightarrow> fnum f < 2 ^ 28 \<and> decodes h buffer app f"
    and "drop pos buffer = wire fs @ rest" and "pos \<le> length buffer"
  shows "pb_decode_loop h buffer pos s = pb_decode_loop h buffer (pos + length (wire fs)) (fold app fs s)"
  using assms
proof (induction fs arbitrary: pos s)
  case Nil
  then show ?case by simp
next
  case (Cons f fs)
  let ?pos = "pos + length (field_bytes f)"
  have "drop ?pos buffer = wire fs @ rest"
    using Cons.prems(3) by (intro drop_append_shift) simp
  moreover have "?pos \<le> length buffer"
    using drop_eq_append_le [of pos buffer "field_bytes f" "wire fs @ rest"] Cons.prems by simp
  ultimately have "pb_decode_loop h buffer ?pos (app f s) =
      pb_decode_loop h buffer (pos + length (wire (f # fs))) (fold app (f # fs) s)"
    using Cons.IH [of ?pos "app f s"] Cons.prems(1,2) by (simp add: add.assoc)
  moreover have "pb_decode_loop h buffer pos s = pb_decode_loop h buffer ?pos (app f s)"
    using Cons.prems by (intro pb_decode_loop_field [where rest = "wire fs @ rest"]) auto
  ultimately show ?case by simp
qed

lemma pb_decode_loop_wire:
  assumes "length buffer < 2 ^ 31"
    and "\<And>f. f \<in> set fs \<Longrightarrow> fnum f < 2 ^ 28 \<and> decodes h buffer app f"
    and "drop pos buffer = wire fs" and "pos \<le> length buffer"
  shows "pb_decode_loop h buffer pos s = Some (Inr (fold app fs s))"
proof -
  have "pos + length (wire fs) = length buffer" using assms(3,4) by (metis le_add_diff_inverse length_drop)
  then show ?thesis
    using pb_decode_loop_wire_rest [OF assms(1,2), of fs pos "[]" s] assms(3,4) by (simp add: pb_decode_loop_end)
qed

text \<open>What evaluates the wire helpers on a concrete buffer.\<close>

lemmas varint_eval =
  varint_decode_def varint_bits_def protobuf_decode_field_and_type_def protobuf_decode_string_def
  c_int_def c_size_def Let_def

section \<open>Termination of the decoding loop\<close>

text \<open>
  A \<open>switch\<close> advances when it always returns and never moves \<open>pos\<close> back. Each round then
  consumes at least the tag, so the loop ends on every input.
\<close>

definition advances :: "(int \<Rightarrow> nat \<Rightarrow> 's \<Rightarrow> ('s \<times> nat) run) \<Rightarrow> bool" where
  "advances h \<longleftrightarrow>
     (\<forall>k pos s. h k pos s \<noteq> None \<and>
        (\<forall>s' pos'. h k pos s = Some (Inr (s', pos')) \<longrightarrow> pos \<le> pos'))"

lemma decode_field_and_type_reads:
  "protobuf_decode_field_and_type buf n = Inr (k, t, m) \<Longrightarrow> 0 < m \<and> m \<le> length buf"
  by (auto simp: protobuf_decode_field_and_type_def bind_res_Inr_iff Let_def
      dest: varint_decode_bounds)

lemma pb_decode_loop_terminates:
  assumes "advances h"
  shows "pb_decode_loop h buffer pos s \<noteq> None"
proof (induction "length buffer - pos" arbitrary: pos s rule: less_induct)
  case less
  show ?case
  proof (cases "pos < length buffer")
    case True
    note step = less [OF diff_less_mono2, OF _ True]
    show ?thesis
    proof (cases "protobuf_decode_field_and_type (drop pos buffer) (length buffer)")
      case (Inr r)
      obtain k t n where r: "r = (k, t, n)" by (cases r)
      from Inr r have n: "0 < n" using decode_field_and_type_reads by blast
      from assms have h: "h k (pos + n) s \<noteq> None"
        "\<And>s' pos'. h k (pos + n) s = Some (Inr (s', pos')) \<Longrightarrow> pos + n \<le> pos'"
        unfolding advances_def by blast+
      then show ?thesis using True Inr r step n
        by (subst pb_decode_loop.simps) (fastforce split: option.splits sum.splits prod.splits)
    qed (use True in \<open>subst pb_decode_loop.simps, simp\<close>)
  qed (simp add: pb_decode_loop_end)
qed

text \<open>What every field of a message preserves, decoding the message preserves.\<close>

lemma pb_decode_loop_invariant:
  assumes "pb_decode_loop h buffer pos s = Some (Inr s')" and "P s"
    and step: "\<And>k pos s s' pos'. P s \<Longrightarrow> h k pos s = Some (Inr (s', pos')) \<Longrightarrow> P s'"
  shows "P s'"
proof -
  have "\<forall>s'. g = h \<longrightarrow> P s \<longrightarrow> r = Inr s' \<longrightarrow> P s'" if "pb_decode_loop g buffer pos s = Some r" for g r
    using that
  proof (rule pb_decode_loop.raw_induct [where P = "\<lambda>g buffer pos s r. \<forall>s'. g = h \<longrightarrow> P s \<longrightarrow> r = Inr s' \<longrightarrow> P s'", rotated])
    fix loop g and buffer :: bytes and pos s r
    assume IH: "\<And>g buffer pos s r. loop g buffer pos s = Some r \<Longrightarrow> \<forall>s'. g = h \<longrightarrow> P s \<longrightarrow> r = Inr s' \<longrightarrow> P s'"
      and eq: "(if pos < length buffer
        then case protobuf_decode_field_and_type (drop pos buffer) (length buffer) of
          Inl e \<Rightarrow> Some (Inl e)
        | Inr (field_no, field_type, n) \<Rightarrow>
            (case g field_no (pos + n) s of
              None \<Rightarrow> None
            | Some (Inl e) \<Rightarrow> Some (Inl e)
            | Some (Inr (s', pos')) \<Rightarrow> loop g buffer pos' s')
        else Some (Inr s)) = Some r"
    show "\<forall>s'. g = h \<longrightarrow> P s \<longrightarrow> r = Inr s' \<longrightarrow> P s'"
    proof (intro allI impI)
      fix s' assume h: "g = h" and "P s" and r: "r = Inr s'"
      show "P s'"
      proof (cases "pos < length buffer")
        case True
        then obtain k t n t' pos' where "h k (pos + n) s = Some (Inr (t', pos'))" and "loop h buffer pos' t' = Some (Inr s')"
          using eq unfolding h r by (auto split: sum.splits option.splits)
        then show ?thesis using IH step \<open>P s\<close> by blast
      qed (use eq r \<open>P s\<close> in simp)
    qed
  qed
  then show ?thesis using assms(1,2) by blast
qed

section \<open>Sizes\<close>

lemma length_field_tag:
  assumes "fnum f < 16"
  shows "length (field_tag f) = 1"
  using assms by (cases f) (simp_all add: leb128_small)

lemma length_bytes_field:
  assumes "k < 16" and "length d < 2 ^ 31"
  shows "length (field_bytes (Bytes_Field k d)) \<le> 6 + length d"
  using assms length_leb128_small [of "length d"] by (simp add: field_bytes_def leb128_small)

lemma length_varint_field:
  assumes "k < 16"
  shows "length (field_bytes (Varint_Field k v)) \<le> 11"
  using assms length_leb128_u64 [of v] by (simp add: field_bytes_def leb128_small)

lemma length_varint_field_le:
  assumes "k < 16" and "unat v < 2 ^ (7 * Suc n)"
  shows "length (field_bytes (Varint_Field k v)) \<le> n + 2"
  using assms leb128_length_le [of "unat v" n] by (simp add: field_bytes_def leb128_small)

section \<open>The contract of a message type\<close>

text \<open>
  What every message of the program offers its callers: an encoder into a buffer of a given
  size, an estimate of the size that is needed, and (for most) a decoder. \<open>fields\<close> is the
  message's content in the wire format, \<open>wf\<close> what is required of a message, \<open>norm\<close>
  what a decoded message keeps of the encoded one.
\<close>

locale pb_encoder =
  fixes fields :: "'m \<Rightarrow> wire_field list"
    and enc :: "'m \<Rightarrow> nat \<Rightarrow> bytes result"
    and sz :: "'m \<Rightarrow> nat"
    and wf :: "'m \<Rightarrow> bool"
  assumes enc_wire: "wf m \<Longrightarrow> length (wire (fields m)) \<le> n \<Longrightarrow> n < 2 ^ 31 \<Longrightarrow>
      enc m n = Inr (wire (fields m))"
    and sz_enough: "wf m \<Longrightarrow> sz m < 2 ^ 31 \<Longrightarrow> length (wire (fields m)) \<le> sz m"
begin

text \<open>A buffer of the estimated size holds the message: no assertion, no overrun.\<close>

lemma enc_estimated: "wf m \<Longrightarrow> sz m < 2 ^ 31 \<Longrightarrow> enc m (sz m) = Inr (wire (fields m))"
  by (rule enc_wire) (simp_all add: sz_enough)

lemma enc_estimated_fits:
  assumes "wf m" and "sz m < 2 ^ 31"
  shows "\<exists>bs. enc m (sz m) = Inr bs \<and> length bs \<le> sz m"
  using enc_estimated [OF assms] sz_enough [OF assms] by simp

lemma writes_embedded:
  assumes "wf m" and "sz m < 2 ^ 31" and "max_len < 2 ^ 31" and "k = int j" and "j < 2 ^ 28"
  shows "writes max_len (put_message sz enc k m max_len) [Bytes_Field j (wire (fields m))]"
  using writes_put_message [where enc = enc and sz = sz and m = m and w = "wire (fields m)"]
    enc_estimated assms by simp

end

locale pb_codec = pb_encoder fields enc sz wf
  for fields :: "'m \<Rightarrow> wire_field list"
    and enc :: "'m \<Rightarrow> nat \<Rightarrow> bytes result"
    and sz :: "'m \<Rightarrow> nat"
    and wf :: "'m \<Rightarrow> bool" +
  fixes dec :: "bytes \<Rightarrow> 'm run"
    and norm :: "'m \<Rightarrow> 'm"
  assumes dec_wire: "wf m \<Longrightarrow> length (wire (fields m)) < 2 ^ 31 \<Longrightarrow>
      dec (wire (fields m)) = Some (Inr (norm m))"
begin

lemma round_trip:
  assumes "wf m" and "sz m < 2 ^ 31"
  shows "\<exists>bs. enc m (sz m) = Inr bs \<and> dec bs = Some (Inr (norm m))"
  using enc_estimated [OF assms] dec_wire [OF assms(1)] sz_enough [OF assms] assms(2)
  by (metis le_less_trans)

lemma dec_embedded:
  assumes "wf m" and "sz m < 2 ^ 31"
  shows "dec (wire (fields m)) = Some (Inr (norm m))"
  using dec_wire [OF assms(1)] sz_enough [OF assms] assms(2) by simp

end

end
