(* ===== verification/Dht_Record.thy ===== *)
theory Dht_Record
  imports Protobuf
begin

text \<open>
  The DHT record of \<open>libp2p/record/record.c\<close>: its struct, its protobuf encoder, size
  estimate and decoder, and \<open>libp2p_record_make_put_record\<close>.

  A pointer and its size field are one byte list, \<open>[]\<close> for a null pointer with size 0.
  The key is an option, because the decoder takes \<open>strlen\<close> of the pointer, which has no
  meaning while it is null.
\<close>

section \<open>The code\<close>

record libp2p_record =
  rec_key :: "bytes option"
  rec_value :: bytes
  rec_author :: bytes
  rec_signature :: bytes
  rec_time_received :: bytes

definition libp2p_record_new :: libp2p_record where
  "libp2p_record_new =
     \<lparr>rec_key = None, rec_value = [], rec_author = [], rec_signature = [], rec_time_received = []\<rparr>"

definition rec_key_bytes :: "libp2p_record \<Rightarrow> bytes" where
  "rec_key_bytes r = (case rec_key r of None \<Rightarrow> [] | Some k \<Rightarrow> k)"

definition libp2p_record_protobuf_encode :: "libp2p_record \<Rightarrow> nat \<Rightarrow> bytes result" where
  "libp2p_record_protobuf_encode r max_len =
     chain
       [put_bytes 1 (rec_key_bytes r) max_len,
        put_bytes 2 (rec_value r) max_len,
        put_bytes 3 (rec_author r) max_len,
        put_bytes 4 (rec_signature r) max_len,
        put_bytes 5 (rec_time_received r) max_len] []"

definition libp2p_record_protobuf_encode_size :: "libp2p_record option \<Rightarrow> nat" where
  "libp2p_record_protobuf_encode_size r =
     (case r of
        None \<Rightarrow> 0
      | Some r \<Rightarrow> 11 + length (rec_key_bytes r) + (11 + length (rec_value r)) +
          (11 + length (rec_author r)) + (11 + length (rec_signature r)) +
          (11 + length (rec_time_received r)))"

definition libp2p_record_protobuf_allocate_and_encode :: "libp2p_record \<Rightarrow> bytes result" where
  "libp2p_record_protobuf_allocate_and_encode r =
     (let buffer_size = libp2p_record_protobuf_encode_size (Some r) in
      if malloc_ok buffer_size then libp2p_record_protobuf_encode r buffer_size
      else Inl Failure)"

text \<open>The \<open>switch\<close> of the decoder, with \<open>in\<close> the whole input.\<close>

definition libp2p_record_field ::
    "bytes \<Rightarrow> int \<Rightarrow> nat \<Rightarrow> libp2p_record \<Rightarrow> (libp2p_record \<times> nat) run" where
  "libp2p_record_field buf field_no pos r =
     (let rest = drop pos buf; remaining = length buf - pos;
          bytes_field = (\<lambda>store.
            bind_res (protobuf_decode_length_delimited rest remaining) (\<lambda>(d, n).
            Inr (store d, pos + n)))
      in Some
        (if field_no = 1 then
           bind_res (protobuf_decode_string rest remaining) (\<lambda>(s, n).
           case (case s of None \<Rightarrow> rec_key r | Some k \<Rightarrow> Some k) of
             None \<Rightarrow> Inl Undefined
           | Some k \<Rightarrow> Inr (r\<lparr>rec_key := Some (c_string k)\<rparr>, c_size (int pos + int n)))
         else if field_no = 2 then bytes_field (\<lambda>d. r\<lparr>rec_value := d\<rparr>)
         else if field_no = 3 then bytes_field (\<lambda>d. r\<lparr>rec_author := d\<rparr>)
         else if field_no = 4 then bytes_field (\<lambda>d. r\<lparr>rec_signature := d\<rparr>)
         else if field_no = 5 then bytes_field (\<lambda>d. r\<lparr>rec_time_received := d\<rparr>)
         else Inr (r, pos)))"

definition libp2p_record_protobuf_decode :: "bytes \<Rightarrow> libp2p_record run" where
  "libp2p_record_protobuf_decode buf =
     pb_decode_loop (libp2p_record_field buf) buf 0 libp2p_record_new"

text \<open>
  \<open>libp2p_record_make_put_record\<close>. SHA-256 and the RSA signature are the crypto library's:
  \<open>sha256\<close> maps a message to its hash, \<open>rsa_sign\<close> a message to its signature or to an
  error. \<open>public_key_der\<close> is the private key's copy of the public one.
\<close>

definition put_record_struct ::
    "(bytes \<Rightarrow> bytes) \<Rightarrow> (bytes \<Rightarrow> bytes option) \<Rightarrow> bytes \<Rightarrow> bytes \<Rightarrow> bytes \<Rightarrow> bool \<Rightarrow>
     libp2p_record option" where
  "put_record_struct sha256 rsa_sign public_key_der key val sign =
     (let author = sha256 public_key_der;
          r = \<lparr>rec_key = Some (c_string key), rec_value = val, rec_author = author,
               rec_signature = [], rec_time_received = []\<rparr>
      in if sign then
           (case rsa_sign (c_string key @ val @ author) of
              None \<Rightarrow> None
            | Some sig \<Rightarrow> Some (r\<lparr>rec_signature := sig\<rparr>))
         else Some r)"

definition libp2p_record_make_put_record ::
    "(bytes \<Rightarrow> bytes) \<Rightarrow> (bytes \<Rightarrow> bytes option) \<Rightarrow> bytes \<Rightarrow> bytes \<Rightarrow> bytes \<Rightarrow> bool \<Rightarrow> bytes result" where
  "libp2p_record_make_put_record sha256 rsa_sign public_key_der key val sign =
     (case put_record_struct sha256 rsa_sign public_key_der key val sign of
        None \<Rightarrow> Inl Failure
      | Some r \<Rightarrow> libp2p_record_protobuf_allocate_and_encode r)"

section \<open>The wire format of a record\<close>

definition record_fields :: "libp2p_record \<Rightarrow> wire_field list" where
  "record_fields r =
     [Bytes_Field 1 (rec_key_bytes r), Bytes_Field 2 (rec_value r), Bytes_Field 3 (rec_author r),
      Bytes_Field 4 (rec_signature r), Bytes_Field 5 (rec_time_received r)]"

text \<open>A record that survives the wire: its key is a non-empty C string.\<close>

definition record_wf :: "libp2p_record \<Rightarrow> bool" where
  "record_wf r \<longleftrightarrow> (\<exists>k. rec_key r = Some k \<and> k \<noteq> [] \<and> 0 \<notin> set k)"

fun record_store :: "wire_field \<Rightarrow> libp2p_record \<Rightarrow> libp2p_record" where
  "record_store (Varint_Field k v) r = r"
| "record_store (Bytes_Field k d) r =
     (if k = 1 then r\<lparr>rec_key := Some d\<rparr>
      else if k = 2 then r\<lparr>rec_value := d\<rparr>
      else if k = 3 then r\<lparr>rec_author := d\<rparr>
      else if k = 4 then r\<lparr>rec_signature := d\<rparr>
      else if k = 5 then r\<lparr>rec_time_received := d\<rparr>
      else r)"

lemma record_decodes_bytes:
  assumes "length buf < 2 ^ 31" and "k \<in> {2, 3, 4, 5}"
  shows "decodes (libp2p_record_field buf) buf record_store (Bytes_Field k d)"
  using assms by (auto intro!: decodesI simp: libp2p_record_field_def Let_def)

lemma record_decodes_key:
  assumes n: "length buf < 2 ^ 31" and "d \<noteq> []" and "0 \<notin> set d"
  shows "decodes (libp2p_record_field buf) buf record_store (Bytes_Field 1 d)"
proof (rule decodesI)
  fix pos rest s
  assume "drop pos buf = field_body (Bytes_Field 1 d) @ rest"
    and len: "length buf - pos = length (field_body (Bytes_Field 1 d)) + length rest"
  moreover have "c_size (int pos + int (length (leb128 (length d)) + length d)) =
      pos + (length (leb128 (length d)) + length d)"
    by (rule c_size_pos [OF _ n, of pos "length d" "length d + length rest"]) (use len in simp_all)
  ultimately show "libp2p_record_field buf (int (fnum (Bytes_Field 1 d))) pos s =
      Some (Inr (record_store (Bytes_Field 1 d) s, pos + length (field_body (Bytes_Field 1 d))))"
    using assms by (simp add: libp2p_record_field_def Let_def)
qed

lemma record_encode_wire:
  assumes fits: "length (wire (record_fields r)) \<le> n" and n: "n < 2 ^ 31"
  shows "libp2p_record_protobuf_encode r n = Inr (wire (record_fields r))"
  unfolding libp2p_record_protobuf_encode_def
  by (rule chain_writes [OF _ fits], unfold record_fields_def)
    (intro writes_intros; use n in simp)

interpretation record_codec: pb_codec record_fields libp2p_record_protobuf_encode
  "\<lambda>r. libp2p_record_protobuf_encode_size (Some r)" record_wf libp2p_record_protobuf_decode
  "\<lambda>r. r"
proof
  fix r n
  assume "length (wire (record_fields r)) \<le> n" and "n < 2 ^ 31"
  then show "libp2p_record_protobuf_encode r n = Inr (wire (record_fields r))"
    by (rule record_encode_wire)
next
  fix r
  assume "libp2p_record_protobuf_encode_size (Some r) < 2 ^ 31"
  then show "length (wire (record_fields r)) \<le> libp2p_record_protobuf_encode_size (Some r)"
    using length_bytes_field [of 1 "rec_key_bytes r"] length_bytes_field [of 2 "rec_value r"]
      length_bytes_field [of 3 "rec_author r"] length_bytes_field [of 4 "rec_signature r"]
      length_bytes_field [of 5 "rec_time_received r"]
    by (simp add: libp2p_record_protobuf_encode_size_def record_fields_def)
next
  fix r
  assume wf: "record_wf r" and n: "length (wire (record_fields r)) < 2 ^ 31"
  then have d: "decodes (libp2p_record_field (wire (record_fields r))) (wire (record_fields r))
      record_store f \<and> fnum f < 2 ^ 28" if "f \<in> set (record_fields r)" for f
    using that wf record_decodes_bytes [OF n] record_decodes_key [OF n, of "rec_key_bytes r"]
    by (auto simp: record_fields_def record_wf_def rec_key_bytes_def)
  have "fold record_store (record_fields r) libp2p_record_new = r"
    using wf by (auto simp: record_fields_def record_wf_def rec_key_bytes_def libp2p_record_new_def)
  with d show "libp2p_record_protobuf_decode (wire (record_fields r)) = Some (Inr r)"
    unfolding libp2p_record_protobuf_decode_def
    using pb_decode_loop_wire [OF n, of "record_fields r" _ record_store 0] by simp
qed

section \<open>Properties\<close>

text \<open>
  A record whose key is a non-empty C string, and whose estimated size is below 2 GiB,
  is encoded into a buffer of exactly the estimated size without an assertion or an overrun,
  and the decoder gives the same record back.
\<close>

theorem record_round_trip:
  assumes "record_wf r" and "libp2p_record_protobuf_encode_size (Some r) < 2 ^ 31"
  shows "\<exists>bs. libp2p_record_protobuf_allocate_and_encode r = Inr bs \<and>
    length bs \<le> libp2p_record_protobuf_encode_size (Some r) \<and>
    libp2p_record_protobuf_decode bs = Some (Inr r)"
  using record_codec.round_trip [OF assms] record_codec.enc_estimated_fits [OF assms] assms(2)
  by (auto simp: libp2p_record_protobuf_allocate_and_encode_def malloc_ok_def)

definition sample_record :: libp2p_record where
  "sample_record =
     \<lparr>rec_key = Some [107], rec_value = [1, 0, 2], rec_author = [7], rec_signature = [],
      rec_time_received = []\<rparr>"

theorem record_round_trip_witness:
  "\<exists>bs. libp2p_record_protobuf_allocate_and_encode sample_record = Inr bs \<and>
    length bs \<le> libp2p_record_protobuf_encode_size (Some sample_record) \<and>
    libp2p_record_protobuf_decode bs = Some (Inr sample_record)"
  by (rule record_round_trip)
    (simp_all add: sample_record_def record_wf_def libp2p_record_protobuf_encode_size_def
      rec_key_bytes_def)

lemma record_decode_empty_key:
  assumes "length (field_bytes (Bytes_Field 1 []) @ rest) < 2 ^ 31"
  shows "libp2p_record_protobuf_decode (field_bytes (Bytes_Field 1 []) @ rest) =
    Some (Inl Undefined)"
proof -
  let ?buf = "field_bytes (Bytes_Field 1 []) @ rest"
  have b: "?buf = field_tag (Bytes_Field 1 []) @ leb128 (length ([] :: bytes)) @ [] @ rest"
    by (simp add: field_bytes_def)
  have d: "drop (length (field_tag (Bytes_Field 1 []))) ?buf =
      leb128 (length ([] :: bytes)) @ [] @ rest"
    unfolding b by simp
  have l: "length ?buf - length (field_tag (Bytes_Field 1 [])) =
      length (leb128 (length ([] :: bytes))) + length ([] :: bytes) + length rest"
    unfolding b by simp
  have "libp2p_record_field ?buf 1 (length (field_tag (Bytes_Field 1 []))) libp2p_record_new =
      Some (Inl Undefined)"
    using assms decode_string_body [OF refl, of "[]" rest] b
    unfolding libp2p_record_field_def Let_def d l
    by (simp add: libp2p_record_new_def field_bytes_def)
  then show ?thesis
    unfolding libp2p_record_protobuf_decode_def
    using pb_decode_loop_tag [of "Bytes_Field 1 []" ?buf 0 "leb128 (length ([] :: bytes)) @ [] @ rest"
        "libp2p_record_field ?buf" libp2p_record_new]
      assms b by simp
qed

text \<open>
  A record with no key (or an empty one) is encoded, but decoding the result takes the
  length of a null pointer.
\<close>

theorem record_empty_key_undefined:
  assumes "rec_key_bytes r = []" and "length (wire (record_fields r)) \<le> n" and "n < 2 ^ 31"
  shows "\<exists>bs. libp2p_record_protobuf_encode r n = Inr bs \<and>
    libp2p_record_protobuf_decode bs = Some (Inl Undefined)"
proof -
  have "libp2p_record_protobuf_encode r n = Inr (wire (record_fields r))"
    using assms(2,3) by (rule record_encode_wire)
  moreover have "libp2p_record_protobuf_decode (wire (record_fields r)) = Some (Inl Undefined)"
    using record_decode_empty_key assms by (simp add: record_fields_def)
  ultimately show ?thesis by blast
qed

theorem record_empty_key_undefined_witness:
  "\<exists>bs. libp2p_record_protobuf_encode (libp2p_record_new\<lparr>rec_value := [5]\<rparr>) 100 = Inr bs \<and>
    libp2p_record_protobuf_decode bs = Some (Inl Undefined)"
  by (rule record_empty_key_undefined)
    (simp_all add: rec_key_bytes_def libp2p_record_new_def record_fields_def field_bytes_def
      leb128_small)

text \<open>
  The decoder trusts the length prefix of a byte field. A record that announces more
  bytes of value than the message holds makes it read past the end of the message.
\<close>

theorem record_length_prefix_overread:
  assumes "length rest < n" and "n < 2 ^ 30"
  shows "libp2p_record_protobuf_decode (leb128 18 @ leb128 n @ rest) = Some (Inl Undefined)"
proof -
  let ?buf = "leb128 18 @ leb128 n @ rest"
  have len: "length ?buf < 2 ^ 31"
    using assms length_leb128_small [of n] by (simp add: leb128_small)
  have "varint_decode (leb128 n @ rest) (c_int (int (length (leb128 n) + length rest))) =
      Inr (of_nat n, length (leb128 n))"
    using assms len by (intro varint_decode_nat) (simp_all add: c_arith)
  moreover have "unat (of_nat n :: u64) = n" unfolding unat_of_nat using assms by simp
  ultimately have "protobuf_decode_length_delimited (leb128 n @ rest)
      (length (leb128 n) + length rest) = Inl Undefined"
    using assms by (simp add: protobuf_decode_length_delimited_def malloc_ok_def Let_def)
  then have "libp2p_record_field ?buf 2 (length (leb128 18)) libp2p_record_new =
      Some (Inl Undefined)"
    by (simp add: libp2p_record_field_def)
  then show ?thesis
    unfolding libp2p_record_protobuf_decode_def
    using pb_decode_loop_tag [of "Bytes_Field 2 []" ?buf 0 "leb128 n @ rest"
        "libp2p_record_field ?buf" libp2p_record_new] len
    by simp
qed

theorem record_length_prefix_overread_witness:
  "libp2p_record_protobuf_decode (leb128 18 @ leb128 1000 @ [1, 2, 3]) = Some (Inl Undefined)"
  by (rule record_length_prefix_overread) simp_all

definition looping_record :: bytes where
  "looping_record = [0x0A, 0x01, 0x78, 0x0A, 0xFA, 0xFF, 0xFF, 0xFF, 0x0F]"

lemma looping_record_diverges: "libp2p_record_protobuf_decode looping_record = None"
proof -
  let ?h = "libp2p_record_field looping_record" and ?r = "libp2p_record_new\<lparr>rec_key := Some [0x78]\<rparr>"
  have "\<exists>t. protobuf_decode_field_and_type looping_record 9 = Inr (1, t, 1)"
    by (simp add: looping_record_def varint_eval)
  moreover have "?h 1 1 libp2p_record_new = Some (Inr (?r, 3))"
    by (simp add: looping_record_def libp2p_record_field_def varint_eval libp2p_record_new_def c_string_def)
  moreover have "\<exists>t. protobuf_decode_field_and_type (drop 3 looping_record) 9 = Inr (1, t, 1)"
    by (simp add: looping_record_def varint_eval)
  moreover have "?h 1 (3 + 1) ?r = Some (Inr (?r, 3))"
    by (simp add: looping_record_def libp2p_record_field_def varint_eval libp2p_record_new_def c_string_def)
  moreover have "length looping_record = 9" by (simp add: looping_record_def)
  ultimately have "pb_decode_loop ?h looping_record 0 libp2p_record_new =
      pb_decode_loop ?h looping_record 3 ?r" "pb_decode_loop ?h looping_record 3 ?r = None"
    using pb_decode_loop_stuck [of 3 looping_record 1 _ 1 ?h ?r]
    by (auto simp: pb_decode_loop.simps [of _ _ 0])
  then show ?thesis by (simp add: libp2p_record_protobuf_decode_def)
qed

text \<open>
  A nine-byte record makes the decoder loop for ever: the length of its second key is
  negative as an \<open>int\<close> and moves \<open>pos\<close> back to the tag it was read from.
\<close>

theorem record_decode_diverges: "libp2p_record_protobuf_decode looping_record = None"
  by (rule looping_record_diverges)

text \<open>
  A put record carries the key, the value, the hash of the author's public key and,
  when it is signed, the signature over key, value and author, and it decodes to them.
\<close>

theorem make_put_record_decodes:
  assumes "c_string key \<noteq> []"
    and "put_record_struct sha256 rsa_sign public_key_der key val sign = Some r"
    and "libp2p_record_protobuf_encode_size (Some r) < 2 ^ 31"
  shows "\<exists>bs. libp2p_record_make_put_record sha256 rsa_sign public_key_der key val sign = Inr bs \<and>
    libp2p_record_protobuf_decode bs = Some (Inr r) \<and>
    rec_key r = Some (c_string key) \<and> rec_value r = val \<and> rec_author r = sha256 public_key_der \<and>
    (sign \<longrightarrow> rsa_sign (c_string key @ val @ sha256 public_key_der) = Some (rec_signature r)) \<and>
    (\<not> sign \<longrightarrow> rec_signature r = [])"
proof -
  have r: "rec_key r = Some (c_string key) \<and> rec_value r = val \<and>
      rec_author r = sha256 public_key_der \<and>
      (sign \<longrightarrow> rsa_sign (c_string key @ val @ sha256 public_key_der) = Some (rec_signature r)) \<and>
      (\<not> sign \<longrightarrow> rec_signature r = [])"
    using assms(2) by (auto simp: put_record_struct_def Let_def split: if_splits option.splits)
  then have "record_wf r" using assms(1) by (simp add: record_wf_def)
  from record_codec.round_trip [OF this assms(3)] assms(2,3) r show ?thesis
    by (auto simp: libp2p_record_make_put_record_def libp2p_record_protobuf_allocate_and_encode_def
        malloc_ok_def)
qed

theorem make_put_record_decodes_witness:
  "\<exists>bs. libp2p_record_make_put_record (\<lambda>m. [9, 9, 9, 9]) (\<lambda>m. Some (rev m)) [1] [107] [1, 2] True =
      Inr bs \<and>
    libp2p_record_protobuf_decode bs =
      Some (Inr \<lparr>rec_key = Some [107], rec_value = [1, 2], rec_author = [9, 9, 9, 9],
        rec_signature = [9, 9, 9, 9, 2, 1, 107], rec_time_received = []\<rparr>)"
proof -
  have "put_record_struct (\<lambda>m. [9, 9, 9, 9]) (\<lambda>m. Some (rev m)) [1] [107] [1, 2] True =
      Some \<lparr>rec_key = Some [107], rec_value = [1, 2], rec_author = [9, 9, 9, 9],
        rec_signature = [9, 9, 9, 9, 2, 1, 107], rec_time_received = []\<rparr>"
    by (simp add: put_record_struct_def c_string_def)
  from make_put_record_decodes [OF _ this] show ?thesis
    by (simp add: c_string_def libp2p_record_protobuf_encode_size_def rec_key_bytes_def)
qed

end
