(* ===== verification/Multihash.thy ===== *)
theory Multihash
  imports Ipfs_Prelude
begin

text \<open>
  The multihash helpers of \<open>libp2p/multihash\<close>: a hash prefixed with one byte for its
  function and one for its length. \<open>multihash.c\<close> reads and builds them, \<open>hashes.c\<close> holds
  the table of the known functions.

  The functions answer with an \<open>int\<close>, negative for an error. A buffer is the list of the
  bytes of the caller's array, \<open>len\<close> the length the caller passes.
\<close>

section \<open>The code\<close>

definition MH_E_NO_ERROR :: int where "MH_E_NO_ERROR = 0"
definition MH_E_UNKNOWN_CODE :: int where "MH_E_UNKNOWN_CODE = - 1"
definition MH_E_TOO_SHORT :: int where "MH_E_TOO_SHORT = - 2"
definition MH_E_TOO_LONG :: int where "MH_E_TOO_LONG = - 3"
definition MH_E_VARINT_NOT_SUPPORTED :: int where "MH_E_VARINT_NOT_SUPPORTED = - 4"
definition MH_E_DIGSET_TOO_LONG :: int where "MH_E_DIGSET_TOO_LONG = - 5"

lemmas mh_errors =
  MH_E_NO_ERROR_def MH_E_UNKNOWN_CODE_def MH_E_TOO_SHORT_def MH_E_TOO_LONG_def
  MH_E_VARINT_NOT_SUPPORTED_def MH_E_DIGSET_TOO_LONG_def

definition MH_H_SHA2_256 :: int where "MH_H_SHA2_256 = 0x12"

definition check_len :: "nat \<Rightarrow> int" where
  "check_len len =
     (if len < 1 then MH_E_TOO_SHORT
      else if 128 \<le> len then MH_E_TOO_LONG
      else MH_E_NO_ERROR)"

definition check_multihash :: "bytes \<Rightarrow> nat \<Rightarrow> int result" where
  "check_multihash mh len =
     (if len < 3 then Inr MH_E_TOO_SHORT
      else case mh of
        b0 # b1 # rest \<Rightarrow>
          (if b0 AND 0x80 \<noteq> 0 then Inr MH_E_VARINT_NOT_SUPPORTED
           else if b1 AND 0x80 \<noteq> 0 then Inr MH_E_VARINT_NOT_SUPPORTED
           else Inr (check_len (unat b1)))
      | _ \<Rightarrow> Inl Undefined)"

definition mh_multihash_hash :: "bytes \<Rightarrow> nat \<Rightarrow> int result" where
  "mh_multihash_hash mh len =
     bind_res (check_multihash mh len) (\<lambda>err.
     if err \<noteq> 0 then Inr err else Inr (uint (mh ! 0)))"

definition mh_multihash_length :: "bytes \<Rightarrow> nat \<Rightarrow> int result" where
  "mh_multihash_length mh len =
     bind_res (check_multihash mh len) (\<lambda>err.
     if err \<noteq> 0 then Inr err else Inr (uint (mh ! 1)))"

text \<open>
  The digest is a pointer two bytes into the multihash, and the length found there: nothing
  compares it with \<open>len\<close>. \<open>None\<close> stands for the outputs not being set.
\<close>

definition mh_multihash_digest :: "bytes \<Rightarrow> nat \<Rightarrow> (int \<times> (bytes \<times> nat) option) result" where
  "mh_multihash_digest multihash len =
     bind_res (check_multihash multihash len) (\<lambda>err.
     if err \<noteq> 0 then Inr (err, None)
     else bind_res (mh_multihash_length multihash len) (\<lambda>n.
          Inr (0, Some (drop 2 multihash, c_size n))))"

definition mh_new_length :: "int \<Rightarrow> nat \<Rightarrow> int" where
  "mh_new_length code hash_len = c_int (2 + int hash_len)"

text \<open>\<open>mh_new\<close> returns its code and the caller's buffer.\<close>

definition mh_new :: "bytes \<Rightarrow> int \<Rightarrow> bytes \<Rightarrow> (int \<times> bytes) result" where
  "mh_new buffer code digest =
     (if code AND 0x80 \<noteq> 0 then Inr (MH_E_VARINT_NOT_SUPPORTED, buffer)
      else if 127 < length digest then Inr (MH_E_DIGSET_TOO_LONG, buffer)
      else if length buffer < 2 + length digest then Inl Undefined
      else Inr (0, word_of_int code # of_nat (length digest) # digest @
                    drop (2 + length digest) buffer))"

text \<open>The table of \<open>hashes.c\<close>: code, name and default length.\<close>

definition hash_infos :: "(int \<times> string \<times> int) list" where
  "hash_infos =
     [(0x11, ''sha1'', 20), (0x12, ''sha2-256'', 32), (0x13, ''sha2-512'', 64),
      (0x14, ''sha3-512'', 64), (0x15, ''sha3-384'', 45), (0x16, ''sha3-256'', 32),
      (0x17, ''sha3-224'', 28), (0x18, ''shake-128'', 16), (0x19, ''shake-256'', 32),
      (0x40, ''blake2b'', 64), (0x41, ''blake2s'', 32)]"

fun find_hash :: "(int \<times> string \<times> int) list \<Rightarrow> int \<Rightarrow> (int \<times> string \<times> int) option" where
  "find_hash [] h = None"
| "find_hash ((code, name, len) # infos) h =
     (if code = h then Some (code, name, len) else find_hash infos h)"

definition mh_hash_name :: "int \<Rightarrow> string option" where
  "mh_hash_name h = map_option (\<lambda>(code, name, len). name) (find_hash hash_infos h)"

definition mh_hash_default_length :: "int \<Rightarrow> int" where
  "mh_hash_default_length h =
     (case find_hash hash_infos h of
        None \<Rightarrow> MH_E_UNKNOWN_CODE
      | Some (code, name, len) \<Rightarrow> len)"

section \<open>Building and reading\<close>

lemma int_and_128_bit: "(k :: int) AND 0x80 = 0 \<longleftrightarrow> \<not> bit k 7"
  using and_exp_eq_0_iff_not_bit [of k 7] by simp

text \<open>The hash codes the header defines fit in seven bits.\<close>

definition mh_code_ok :: "int \<Rightarrow> bool" where
  "mh_code_ok code \<longleftrightarrow> 0 \<le> code \<and> code < 128"

lemma mh_code_no_varint: "mh_code_ok code \<Longrightarrow> code AND 0x80 = 0"
proof -
  assume "mh_code_ok code"
  then have "code div 128 = 0" by (simp add: mh_code_ok_def div_pos_pos_trivial)
  then show ?thesis by (simp add: int_and_128_bit bit_iff_odd)
qed

lemma unat_code: "mh_code_ok code \<Longrightarrow> unat (word_of_int code :: byte) = nat code"
  by (simp add: mh_code_ok_def unat_eq_nat_uint uint_word_of_int)

lemma check_len_ok: "check_len n = 0 \<longleftrightarrow> 0 < n \<and> n < 128"
  by (auto simp: check_len_def mh_errors)

lemma check_multihash_ok:
  "check_multihash mh len = Inr 0 \<longleftrightarrow>
     3 \<le> len \<and> 2 \<le> length mh \<and> unat (mh ! 0) < 128 \<and> 0 < unat (mh ! 1) \<and> unat (mh ! 1) < 128"
  by (auto simp: check_multihash_def mh_errors byte_and_128 check_len_ok check_len_def
      split: list.splits)

lemma mh_new_ok:
  assumes "mh_code_ok code" and "length d \<le> 127" and "2 + length d \<le> length buf"
  shows "mh_new buf code d =
    Inr (0, word_of_int code # of_nat (length d) # d @ drop (2 + length d) buf)"
  using assms by (simp add: mh_new_def mh_code_no_varint)

lemma unat_of_nat_byte: "n \<le> 127 \<Longrightarrow> unat (of_nat n :: byte) = n"
  by (simp add: unat_of_nat)

section \<open>Properties\<close>

text \<open>
  A multihash built by \<open>mh_new\<close> from a seven-bit code and a digest of 1 to 127 bytes
  is accepted by the readers, which give back the code, the length and the digest.
\<close>

theorem mh_new_read_back:
  assumes "mh_code_ok code" and "d \<noteq> []" and "length d \<le> 127"
    and "length buf = nat (mh_new_length code (length d))"
  shows "\<exists>mh. mh_new buf code d = Inr (0, mh) \<and> length mh = length buf \<and>
    mh_multihash_hash mh (length mh) = Inr code \<and>
    mh_multihash_length mh (length mh) = Inr (int (length d)) \<and>
    mh_multihash_digest mh (length mh) = Inr (0, Some (d, length d))"
proof -
  let ?mh = "word_of_int code # of_nat (length d) # d :: bytes"
  have buf: "length buf = 2 + length d"
    using assms(3,4) by (simp add: mh_new_length_def c_arith)
  then have new: "mh_new buf code d = Inr (0, ?mh)"
    using assms by (simp add: mh_new_ok)
  have "check_multihash ?mh (length ?mh) = Inr 0"
    using assms unat_code [OF assms(1)]
    by (cases d) (simp_all add: check_multihash_ok unat_of_nat_byte mh_code_ok_def nat_less_iff del: of_nat_Suc)
  moreover have "uint (word_of_int code :: byte) = code"
    using assms(1) by (simp add: mh_code_ok_def uint_word_of_int)
  moreover have "uint (of_nat (length d) :: byte) = int (length d)"
    using assms(3) by (simp only: uint_nat unat_of_nat_byte)
  ultimately show ?thesis using new buf assms(3)
    by (simp add: mh_multihash_hash_def mh_multihash_length_def mh_multihash_digest_def c_size_nat)
qed

theorem mh_new_read_back_witness:
  "\<exists>mh. mh_new [0, 0, 0, 0] MH_H_SHA2_256 [7, 9] = Inr (0, mh) \<and> length mh = 4 \<and>
    mh_multihash_hash mh (length mh) = Inr MH_H_SHA2_256 \<and>
    mh_multihash_length mh (length mh) = Inr 2 \<and>
    mh_multihash_digest mh (length mh) = Inr (0, Some ([7, 9], 2))"
  using mh_new_read_back [of MH_H_SHA2_256 "[7, 9]" "[0, 0, 0, 0]"]
  by (simp add: MH_H_SHA2_256_def mh_code_ok_def mh_new_length_def c_int_def eval_nat_numeral)

text \<open>
  \<open>mh_new\<close> writes exactly when the code needs no varint and the digest is at most 127
  bytes; otherwise the caller's buffer is untouched and the code is negative.
\<close>

theorem mh_new_errors:
  assumes "2 + length d \<le> length buf"
  shows "(\<exists>err mh. mh_new buf code d = Inr (err, mh) \<and> length mh = length buf \<and>
      (err = 0 \<longleftrightarrow> \<not> bit code 7 \<and> length d \<le> 127) \<and>
      (err \<noteq> 0 \<longrightarrow> err < 0 \<and> mh = buf) \<and>
      (err = 0 \<longrightarrow> take (length d) (drop 2 mh) = d))"
  using assms by (auto simp: mh_new_def int_and_128_bit mh_errors)

theorem mh_new_errors_witness:
  "\<exists>err mh. mh_new (replicate 200 0) 0x12 (replicate 128 0) = Inr (err, mh) \<and> err < 0 \<and>
    mh = replicate 200 0"
  using mh_new_errors [where d = "replicate 128 0" and buf = "replicate 200 0" and code = "0x12"]
  by auto

text \<open>
  The digest reader does not compare the length byte with the length of the buffer: it
  accepts a three-byte buffer that announces a digest of 127 bytes.
\<close>

theorem mh_digest_unchecked_length:
  "mh_multihash_digest [0x12, 127, 1] 3 = Inr (0, Some ([1], 127))"
  by (simp add: mh_multihash_digest_def mh_multihash_length_def check_multihash_def check_len_def
      mh_errors c_size_def)

text \<open>
  A hash function has a name exactly when it has a default length, and every default
  length is one a digest of \<open>mh_new\<close> can have.
\<close>

theorem mh_hash_table:
  "(mh_hash_name h = None \<longleftrightarrow> mh_hash_default_length h = MH_E_UNKNOWN_CODE) \<and>
   (mh_hash_default_length h \<noteq> MH_E_UNKNOWN_CODE \<longrightarrow>
      mh_code_ok h \<and> 0 < mh_hash_default_length h \<and> mh_hash_default_length h \<le> 127)"
  by (simp add: mh_hash_name_def mh_hash_default_length_def hash_infos_def mh_errors mh_code_ok_def)

theorem mh_hash_table_witness:
  "mh_code_ok MH_H_SHA2_256 \<and> 0 < mh_hash_default_length MH_H_SHA2_256"
  using mh_hash_table [of MH_H_SHA2_256]
  by (simp add: mh_hash_default_length_def hash_infos_def mh_errors MH_H_SHA2_256_def)

end
