(* ===== verification/Crypto_Key.thy ===== *)
theory Crypto_Key
  imports Protobuf
begin

text \<open>
  Public and private keys of \<open>libp2p/crypto/key.c\<close>. \<open>struct PublicKey\<close> and
  \<open>struct PrivateKey\<close> have the same members (a type and the DER bytes), so one record
  stands for both; their encoders and decoders are modelled one by one.
\<close>

section \<open>The code\<close>

text \<open>The enumeration is stored in 32 bits; the decoder stores any number in it.\<close>

definition KEYTYPE_RSA :: u32 where "KEYTYPE_RSA = 0"
definition KEYTYPE_ED25519 :: u32 where "KEYTYPE_ED25519 = 1"
definition KEYTYPE_INVALID :: u32 where "KEYTYPE_INVALID = 2"

record crypto_key =
  key_type :: u32
  key_data :: bytes

definition libp2p_crypto_public_key_new :: crypto_key where
  "libp2p_crypto_public_key_new = \<lparr>key_type = KEYTYPE_INVALID, key_data = []\<rparr>"

definition libp2p_crypto_public_key_protobuf_encode_size :: "crypto_key \<Rightarrow> nat" where
  "libp2p_crypto_public_key_protobuf_encode_size k = 11 + 11 + length (key_data k)"

definition libp2p_crypto_public_key_protobuf_encode :: "crypto_key \<Rightarrow> nat \<Rightarrow> bytes result" where
  "libp2p_crypto_public_key_protobuf_encode k max_len =
     chain
       [put_varint 1 (ucast (key_type k)) max_len,
        put_bytes 2 (key_data k) max_len] []"

text \<open>
  The \<open>switch\<close> of both decoders. The 64-bit varint is written over the 32-bit type and the
  padding that follows it, so the type gets the low half.
\<close>

definition libp2p_crypto_key_field ::
    "bytes \<Rightarrow> int \<Rightarrow> nat \<Rightarrow> crypto_key \<Rightarrow> (crypto_key \<times> nat) run" where
  "libp2p_crypto_key_field buf field_no pos k =
     (let rest = drop pos buf; remaining = length buf - pos
      in Some
        (if field_no = 1 then
           bind_res (protobuf_decode_varint rest remaining) (\<lambda>(v, n).
           Inr (k\<lparr>key_type := ucast v\<rparr>, pos + n))
         else if field_no = 2 then
           bind_res (protobuf_decode_length_delimited rest remaining) (\<lambda>(d, n).
           Inr (k\<lparr>key_data := d\<rparr>, pos + n))
         else Inr (k, pos)))"

definition libp2p_crypto_public_key_protobuf_decode :: "bytes \<Rightarrow> crypto_key run" where
  "libp2p_crypto_public_key_protobuf_decode buf =
     pb_decode_loop (libp2p_crypto_key_field buf) buf 0 libp2p_crypto_public_key_new"

definition libp2p_crypto_private_key_new :: crypto_key where
  "libp2p_crypto_private_key_new = \<lparr>key_type = KEYTYPE_INVALID, key_data = []\<rparr>"

definition libp2p_crypto_private_key_copy :: "crypto_key option \<Rightarrow> crypto_key option \<Rightarrow> crypto_key result" where
  "libp2p_crypto_private_key_copy source destination =
     (case (source, destination) of
        (Some s, Some d) \<Rightarrow>
          if malloc_ok (length (key_data s))
          then Inr (d\<lparr>key_type := key_type s, key_data := key_data s\<rparr>)
          else Inl Failure
      | _ \<Rightarrow> Inl Failure)"

definition libp2p_crypto_private_key_protobuf_encode_size :: "crypto_key \<Rightarrow> nat" where
  "libp2p_crypto_private_key_protobuf_encode_size k = 22 + length (key_data k)"

definition libp2p_crypto_private_key_protobuf_encode :: "crypto_key \<Rightarrow> nat \<Rightarrow> bytes result" where
  "libp2p_crypto_private_key_protobuf_encode k max_len =
     chain
       [put_varint 1 (ucast (key_type k)) max_len,
        put_bytes 2 (key_data k) max_len] []"

definition libp2p_crypto_private_key_protobuf_decode :: "bytes \<Rightarrow> crypto_key run" where
  "libp2p_crypto_private_key_protobuf_decode buf =
     pb_decode_loop (libp2p_crypto_key_field buf) buf 0 libp2p_crypto_private_key_new"

section \<open>The wire format of a key\<close>

definition key_fields :: "crypto_key \<Rightarrow> wire_field list" where
  "key_fields k = [Varint_Field 1 (ucast (key_type k)), Bytes_Field 2 (key_data k)]"

fun key_store :: "wire_field \<Rightarrow> crypto_key \<Rightarrow> crypto_key" where
  "key_store (Varint_Field n v) k = (if n = 1 then k\<lparr>key_type := ucast v\<rparr> else k)"
| "key_store (Bytes_Field n d) k = (if n = 2 then k\<lparr>key_data := d\<rparr> else k)"

lemma ucast_u64_u32 [simp]: "ucast (ucast (w :: u32) :: u64) = w"
  by (rule bit_word_eqI) (simp add: bit_simps)

lemma key_decodes:
  assumes "length buf < 2 ^ 31" and "f \<in> set (key_fields k)"
  shows "fnum f < 2 ^ 28 \<and> decodes (libp2p_crypto_key_field buf) buf key_store f"
  using assms
  by (auto simp: key_fields_def intro!: decodesI simp: libp2p_crypto_key_field_def Let_def)

lemma key_encode_wire:
  assumes fits: "length (wire (key_fields k)) \<le> n" and n: "n < 2 ^ 31"
  shows "libp2p_crypto_public_key_protobuf_encode k n = Inr (wire (key_fields k))"
  unfolding libp2p_crypto_public_key_protobuf_encode_def
  by (rule chain_writes [OF _ fits], unfold key_fields_def)
    (intro writes_intros; use n in simp)

lemma key_size_enough:
  assumes "22 + length (key_data k) < 2 ^ 31"
  shows "length (wire (key_fields k)) \<le> 22 + length (key_data k)"
  using assms length_bytes_field [of 2 "key_data k"] length_varint_field [of 1 "ucast (key_type k)"]
  by (simp add: key_fields_def)

lemma key_decode_wire:
  assumes n: "length (wire (key_fields k)) < 2 ^ 31"
  shows "libp2p_crypto_public_key_protobuf_decode (wire (key_fields k)) = Some (Inr k)"
proof -
  have "fold key_store (key_fields k) libp2p_crypto_public_key_new = k"
    by (simp add: key_fields_def libp2p_crypto_public_key_new_def)
  then show ?thesis
    unfolding libp2p_crypto_public_key_protobuf_decode_def
    using pb_decode_loop_wire [OF n, of "key_fields k" _ key_store 0] key_decodes [OF n] by simp
qed

interpretation public_key_codec: pb_codec key_fields libp2p_crypto_public_key_protobuf_encode
  libp2p_crypto_public_key_protobuf_encode_size "\<lambda>k. True"
  libp2p_crypto_public_key_protobuf_decode "\<lambda>k. k"
  by unfold_locales
    (use key_size_enough in \<open>auto simp: key_encode_wire key_decode_wire
      libp2p_crypto_public_key_protobuf_encode_size_def\<close>)

lemma private_key_encode:
  "libp2p_crypto_private_key_protobuf_encode = libp2p_crypto_public_key_protobuf_encode"
  by (intro ext) (simp add: libp2p_crypto_private_key_protobuf_encode_def
      libp2p_crypto_public_key_protobuf_encode_def)

lemma private_key_decode:
  "libp2p_crypto_private_key_protobuf_decode = libp2p_crypto_public_key_protobuf_decode"
  by (intro ext) (simp add: libp2p_crypto_private_key_protobuf_decode_def
      libp2p_crypto_public_key_protobuf_decode_def libp2p_crypto_private_key_new_def
      libp2p_crypto_public_key_new_def)

lemma private_key_size:
  "libp2p_crypto_private_key_protobuf_encode_size = libp2p_crypto_public_key_protobuf_encode_size"
  by (intro ext) (simp add: libp2p_crypto_private_key_protobuf_encode_size_def
      libp2p_crypto_public_key_protobuf_encode_size_def)

interpretation private_key_codec: pb_codec key_fields libp2p_crypto_private_key_protobuf_encode
  libp2p_crypto_private_key_protobuf_encode_size "\<lambda>k. True"
  libp2p_crypto_private_key_protobuf_decode "\<lambda>k. k"
  unfolding private_key_encode private_key_decode private_key_size
  by (rule public_key_codec.pb_codec_axioms)

lemma key_field_advances: "advances (libp2p_crypto_key_field buf)"
  by (auto simp: advances_def libp2p_crypto_key_field_def Let_def bind_res_Inr_iff)

section \<open>Properties\<close>

text \<open>
  A public key of any type, and a private key of any type, whose estimated size is below
  2 GiB, is encoded into a buffer of the estimated size and decoded to itself.
\<close>

theorem key_round_trip:
  assumes "libp2p_crypto_public_key_protobuf_encode_size k < 2 ^ 31"
  shows "(\<exists>bs. libp2p_crypto_public_key_protobuf_encode k
        (libp2p_crypto_public_key_protobuf_encode_size k) = Inr bs \<and>
      libp2p_crypto_public_key_protobuf_decode bs = Some (Inr k)) \<and>
    (\<exists>bs. libp2p_crypto_private_key_protobuf_encode k
        (libp2p_crypto_private_key_protobuf_encode_size k) = Inr bs \<and>
      libp2p_crypto_private_key_protobuf_decode bs = Some (Inr k))"
  using public_key_codec.round_trip [of k] private_key_codec.round_trip [of k] assms
  by (simp add: private_key_size)

theorem key_round_trip_witness:
  "\<exists>bs. libp2p_crypto_public_key_protobuf_encode \<lparr>key_type = KEYTYPE_RSA, key_data = [1, 2]\<rparr> 24 =
      Inr bs \<and>
    libp2p_crypto_public_key_protobuf_decode bs =
      Some (Inr \<lparr>key_type = KEYTYPE_RSA, key_data = [1, 2]\<rparr>)"
  using key_round_trip [of "\<lparr>key_type = KEYTYPE_RSA, key_data = [1, 2]\<rparr>"]
  by (simp add: libp2p_crypto_public_key_protobuf_encode_size_def)

text \<open>
  Decoding a key returns on every input: the loop over the fields cannot run for ever.
\<close>

theorem key_decode_terminates:
  "libp2p_crypto_public_key_protobuf_decode buf \<noteq> None \<and>
   libp2p_crypto_private_key_protobuf_decode buf \<noteq> None"
  unfolding libp2p_crypto_public_key_protobuf_decode_def
    libp2p_crypto_private_key_protobuf_decode_def
  by (intro conjI pb_decode_loop_terminates key_field_advances)

end
