(* ===== verification/Base58.thy ===== *)
theory Base58
  imports Complex_Main Ipfs_Prelude
begin

text \<open>
  The base 58 coding of \<open>libp2p/crypto/encoding/base58.c\<close>: multiplication and division of
  a big-endian number held in an array, one digit or byte at a time. The reference is
  positional notation (\<open>be\<close>): encoding and decoding keep the number.
\<close>

section \<open>The code\<close>

text \<open>\<open>b58digits_ordered\<close>, the ASCII codes of the digits.\<close>

definition b58digits_ordered :: bytes where
  "b58digits_ordered =
     map of_char ''123456789ABCDEFGHJKLMNPQRSTUVWXYZabcdefghijkmnopqrstuvwxyz''"

definition b58digits_map :: "int list" where
  "b58digits_map =
    [-1,-1,-1,-1,-1,-1,-1,-1, -1,-1,-1,-1,-1,-1,-1,-1,
     -1,-1,-1,-1,-1,-1,-1,-1, -1,-1,-1,-1,-1,-1,-1,-1,
     -1,-1,-1,-1,-1,-1,-1,-1, -1,-1,-1,-1,-1,-1,-1,-1,
     -1, 0, 1, 2, 3, 4, 5, 6,  7, 8,-1,-1,-1,-1,-1,-1,
     -1, 9,10,11,12,13,14,15, 16,-1,17,18,19,20,21,-1,
     22,23,24,25,26,27,28,29, 30,31,32,-1,-1,-1,-1,-1,
     -1,33,34,35,36,37,38,39, 40,41,42,43,-1,44,45,46,
     47,48,49,50,51,52,53,54, 55,56,57,-1,-1,-1,-1,-1]"

text \<open>
  Counting the leading ones: the table has 128 entries and is read before the top bit of the
  character is looked at.
\<close>

fun b58_count_zeros :: "bytes \<Rightarrow> nat result" where
  "b58_count_zeros [] = Inr 0"
| "b58_count_zeros (b # bs) =
     (if 128 \<le> unat b then Inl Undefined
      else if b58digits_map ! unat b = 0
      then bind_res (b58_count_zeros bs) (\<lambda>n. Inr (Suc n))
      else Inr 0)"

text \<open>\<open>for (j = outisz; j--;)\<close>: multiply the number in \<open>outi\<close> by 58 and add \<open>c\<close>.\<close>

fun b58_mul_add :: "u32 list \<Rightarrow> u32 \<Rightarrow> u32 list \<times> u32" where
  "b58_mul_add [] c = ([], c)"
| "b58_mul_add (w # ws) c =
     (let (ws', c') = b58_mul_add ws c;
          t = (ucast w :: u64) * 58 + ucast c'
      in (ucast (t AND 0xffffffff) # ws', ucast (drop_bit 32 (t AND 0x3f00000000))))"

fun b58_decode_loop :: "bytes \<Rightarrow> u32 \<Rightarrow> u32 list \<Rightarrow> u32 list result" where
  "b58_decode_loop [] zeromask outi = Inr outi"
| "b58_decode_loop (b # bs) zeromask outi =
     (if b AND 0x80 \<noteq> 0 then Inl Failure
      else if b58digits_map ! unat b = - 1 then Inl Failure
      else
        let (outi', c) = b58_mul_add outi (word_of_int (b58digits_map ! unat b)) in
        if c \<noteq> 0 then Inl Failure
        else if outi' = [] then Inl Undefined
        else if hd outi' AND zeromask \<noteq> 0 then Inl Failure
        else b58_decode_loop bs zeromask outi')"

definition u32_bytes :: "u32 \<Rightarrow> bytes" where
  "u32_bytes w =
     [ucast (drop_bit 0x18 w), ucast (drop_bit 0x10 w), ucast (drop_bit 8 w), ucast w]"

text \<open>
  The result is what the whole output buffer of \<open>binsz\<close> bytes holds, and the size that is
  stored in \<open>*binszp\<close>.
\<close>

definition libp2p_crypto_encoding_base58_decode :: "bytes \<Rightarrow> nat \<Rightarrow> (bytes \<times> nat) result" where
  "libp2p_crypto_encoding_base58_decode b58 binsz =
     (let outisz = (binsz + 3) div 4;
          bytesleft = binsz mod 4;
          zeromask = (if bytesleft = 0 then 0 else push_bit (bytesleft * 8) (0xffffffff :: u32));
          s = c_string b58
      in bind_res (b58_count_zeros s) (\<lambda>zerocount.
         bind_res (b58_decode_loop (drop zerocount s) zeromask (replicate outisz 0)) (\<lambda>outi.
         let first = (if bytesleft = 0 then [] else drop (4 - bytesleft) (u32_bytes (hd outi)));
             rest = (if bytesleft = 0 then outi else tl outi);
             bin = first @ concat (map u32_bytes rest);
             zeros = length (takeWhile (\<lambda>b. b = 0) bin)
         in Inr (bin, binsz - zeros + zerocount))))"

text \<open>
  The division loop of the encoder, on the array \<open>buf\<close> from its last element down:
  \<open>for (...; (j > high) || carry; --j)\<close>, giving the array and \<open>j\<close>.
\<close>

function b58_carry_loop :: "bytes \<Rightarrow> int \<Rightarrow> nat \<Rightarrow> int \<Rightarrow> (bytes \<times> int) result" where
  "b58_carry_loop buf high carry j =
     (if high < j \<or> carry \<noteq> 0 then
        (if j < 0 \<or> length buf \<le> nat j then Inl Undefined
         else
           let carry' = carry + 256 * unat (buf ! nat j) in
           b58_carry_loop (buf[nat j := of_nat (carry' mod 58)]) high (carry' div 58) (j - 1))
      else Inr (buf, j))"
  by pat_completeness auto
termination by (relation "measure (\<lambda>(buf, high, carry, j). nat (j + 1))") auto

declare b58_carry_loop.simps [simp del]

fun b58_encode_loop :: "bytes \<Rightarrow> bytes \<Rightarrow> int \<Rightarrow> bytes result" where
  "b58_encode_loop [] buf high = Inr buf"
| "b58_encode_loop (b # bs) buf high =
     bind_res (b58_carry_loop buf high (unat b) (int (length buf) - 1)) (\<lambda>(buf', j).
     b58_encode_loop bs buf' j)"

text \<open>
  The result is the return value, \<open>*base58_size\<close>, and the bytes stored in the buffer.
  The leading zeros are written through \<open>base58\<close>, the address of the caller's pointer,
  not through the pointer.
\<close>

definition libp2p_crypto_encoding_base58_encode ::
    "bytes \<Rightarrow> nat \<Rightarrow> (int \<times> nat \<times> bytes) result" where
  "libp2p_crypto_encoding_base58_encode binary_data base58_size =
     (let zcount = length (takeWhile (\<lambda>b. b = 0) binary_data);
          size = (length binary_data - zcount) * 138 mod 2 ^ 64 div 100 + 1
      in bind_res (b58_encode_loop (drop zcount binary_data) (replicate size 0) (int size - 1))
         (\<lambda>buf.
          let j = length (takeWhile (\<lambda>b. b = 0) buf) in
          if base58_size \<le> zcount + size - j then Inr (0, zcount + size - j + 1, [])
          else if 0 < zcount then Inl Undefined
          else let out = map (\<lambda>d. b58digits_ordered ! unat d) (drop j buf) @ [0]
               in Inr (1, length out, out)))"

text \<open>
  The two size estimates compute with \<open>double\<close>s; the definitions give the exact value of
  the expression.
\<close>

definition libp2p_crypto_encoding_base58_decode_size :: "nat \<Rightarrow> nat" where
  "libp2p_crypto_encoding_base58_decode_size encoded_size =
     nat \<lceil>real encoded_size * log 2 58 / 8\<rceil>"

definition libp2p_crypto_encoding_base58_encode_size :: "nat \<Rightarrow> nat" where
  "libp2p_crypto_encoding_base58_encode_size decoded_size =
     nat \<lceil>8 / log 2 58 * real decoded_size\<rceil>"

section \<open>Positional notation\<close>

definition be :: "nat \<Rightarrow> nat list \<Rightarrow> nat" where
  "be B ds = foldl (\<lambda>a d. a * B + d) 0 ds"

lemma be_Nil [simp]: "be B [] = 0"
  by (simp add: be_def)

lemma be_snoc [simp]: "be B (ds @ [d]) = be B ds * B + d"
  by (simp add: be_def)

lemma be_append: "be B (xs @ ys) = be B xs * B ^ length ys + be B ys"
proof (induction ys rule: rev_induct)
  case (snoc y ys)
  have "be B (xs @ ys @ [y]) = be B (xs @ ys) * B + y"
    using be_snoc [of B "xs @ ys" y] by simp
  with snoc show ?case by (simp add: algebra_simps)
qed simp

lemma be_Cons: "be B (d # ds) = d * B ^ length ds + be B ds"
  using be_append [of B "[d]" ds] by (simp add: be_def)

lemma be_less: "(\<And>d. d \<in> set ds \<Longrightarrow> d < B) \<Longrightarrow> be B ds < B ^ length ds"
proof (induction ds rule: rev_induct)
  case (snoc d ds)
  then have "be B ds < B ^ length ds" and "d < B" by auto
  then have "be B ds * B + d < (be B ds + 1) * B" by simp
  also have "\<dots> \<le> B ^ length ds * B" using \<open>be B ds < B ^ length ds\<close> by (intro mult_le_mono1) simp
  finally show ?case by (simp add: mult.commute)
qed simp

lemma be_inj:
  "length xs = length ys \<Longrightarrow> (\<And>d. d \<in> set xs \<union> set ys \<Longrightarrow> d < B) \<Longrightarrow> be B xs = be B ys \<Longrightarrow> xs = ys"
proof (induction xs arbitrary: ys rule: rev_induct)
  case (snoc x xs)
  from snoc.prems(1) obtain zs z where ys: "ys = zs @ [z]" by (cases ys rule: rev_cases) auto
  have e: "be B xs * B + x = be B zs * B + z" and xz: "x < B" "z < B"
    using snoc.prems ys by auto
  have "be B xs = be B zs"
    using arg_cong [OF e, of "\<lambda>n. n div B"] xz by simp
  with e have "x = z" by simp
  with snoc ys \<open>be B xs = be B zs\<close> show ?case by auto
qed simp

lemma be_zeros: "(\<And>d. d \<in> set ds \<Longrightarrow> d = 0) \<Longrightarrow> be B ds = 0"
  by (induction ds rule: rev_induct) auto

lemma be_dropWhile: "be B (dropWhile (\<lambda>d. d = 0) ds) = be B ds"
  by (induction ds) (auto simp: be_Cons)

lemma be_zero_iff: "0 < B \<Longrightarrow> be B ds = 0 \<longleftrightarrow> (\<forall>d \<in> set ds. d = 0)"
  by (induction ds) (auto simp: be_Cons)

section \<open>The decoder\<close>

definition words_value :: "u32 list \<Rightarrow> nat" where
  "words_value ws = be (2 ^ 32) (map unat ws)"

definition bytes_value :: "bytes \<Rightarrow> nat" where
  "bytes_value bs = be 256 (map unat bs)"

lemma digits_byte: "d \<in> set (map unat (bs :: bytes)) \<Longrightarrow> d < 256"
  using unat_byte_less by auto

lemma digits_word: "d \<in> set (map unat (ws :: u32 list)) \<Longrightarrow> d < 2 ^ 32"
  using unat_u32_less by auto

lemma bytes_value_less: "bytes_value bs < 256 ^ length bs"
proof -
  have "be (256) (map unat bs) < (256) ^ length (map unat bs)"
    by (rule be_less) (erule digits_byte)
  then show ?thesis by (simp add: bytes_value_def)
qed

lemma words_value_less: "words_value ws < (2 ^ 32) ^ length ws"
proof -
  have "be (2 ^ 32) (map unat ws) < (2 ^ 32) ^ length (map unat ws)"
    by (rule be_less) (erule digits_word)
  then show ?thesis by (simp add: words_value_def)
qed

lemma bytes_value_inj:
  assumes "length xs = length ys" and "bytes_value xs = bytes_value ys"
  shows "xs = ys"
proof -
  have "map unat xs = map unat ys"
    by (rule be_inj [where B = 256]) (use assms digits_byte in \<open>auto simp: bytes_value_def\<close>)
  then show ?thesis by (simp only: map_unat_eq)
qed

lemma mul_add_step:
  assumes "unat (c :: u32) < 58"
  shows "unat (ucast (((ucast (w :: u32) :: u64) * 58 + ucast c) AND 0xffffffff) :: u32) =
      (unat w * 58 + unat c) mod 2 ^ 32"
    and "unat (ucast (drop_bit 32 (((ucast w :: u64) * 58 + ucast c) AND 0x3f00000000)) :: u32) =
      (unat w * 58 + unat c) div 2 ^ 32"
proof -
  let ?t = "(ucast w :: u64) * 58 + ucast c"
  have w: "unat w < 2 ^ 32" using unat_u32_less [of w] by simp
  have t: "unat ?t = unat w * 58 + unat c"
    using w assms by (simp add: unat_word_ariths unsigned_ucast_eq take_bit_nat_eq_self)
  have m: "(0xffffffff :: u64) = mask 32" "(0x3f00000000 :: u64) = push_bit 32 (mask 6)"
    by (simp_all add: mask_numeral)
  have "(ucast (?t AND mask 32) :: u32) = ucast ?t"
    by (rule bit_word_eqI) (auto simp: bit_simps)
  then show "unat (ucast (?t AND 0xffffffff) :: u32) = (unat w * 58 + unat c) mod 2 ^ 32"
    unfolding m t [symmetric] by (simp add: unsigned_ucast_eq take_bit_eq_mod)
  have d: "unat (drop_bit 32 ?t) = (unat w * 58 + unat c) div 2 ^ 32"
    by (simp only: unat_drop_bit_eq t drop_bit_nat_def)
  have small: "(unat w * 58 + unat c) div 2 ^ 32 < 58"
    using w assms by (intro div_less_iff_less_mult [THEN iffD2]) simp_all
  have "drop_bit 32 (?t AND push_bit 32 (mask 6)) = drop_bit 32 ?t AND mask 6"
    by (rule bit_word_eqI) (auto simp: bit_simps)
  then have "unat (drop_bit 32 (?t AND push_bit 32 (mask 6))) = take_bit 6 (unat (drop_bit 32 ?t))"
    by (simp only: take_bit_eq_mask [symmetric] unsigned_take_bit_eq)
  also have "\<dots> = (unat w * 58 + unat c) div 2 ^ 32"
    unfolding d using small by (simp add: take_bit_nat_eq_self)
  finally have "unat (drop_bit 32 (?t AND push_bit 32 (mask 6))) = (unat w * 58 + unat c) div 2 ^ 32" .
  with small show "unat (ucast (drop_bit 32 (?t AND 0x3f00000000)) :: u32) =
      (unat w * 58 + unat c) div 2 ^ 32"
    unfolding m by (simp only: unsigned_ucast_eq) (simp add: take_bit_nat_eq_self)
qed

lemma b58_mul_add_value:
  assumes "unat c < 58" and "b58_mul_add ws c = (ws', c')"
  shows "length ws' = length ws" and "unat c' < 58"
    and "unat c' * (2 ^ 32) ^ length ws + words_value ws' = words_value ws * 58 + unat c"
proof -
  have "length ws' = length ws \<and> unat c' < 58 \<and>
      unat c' * (2 ^ 32) ^ length ws + words_value ws' = words_value ws * 58 + unat c"
    using assms
  proof (induction ws arbitrary: ws' c')
    case Nil
    then show ?case by (simp add: words_value_def)
  next
    case (Cons w ws)
    obtain vs c1 where r: "b58_mul_add ws c = (vs, c1)" by (cases "b58_mul_add ws c")
    with Cons have IH: "length vs = length ws" "unat c1 < 58"
      "unat c1 * (2 ^ 32) ^ length ws + words_value vs = words_value ws * 58 + unat c"
      by blast+
    let ?t = "unat w * 58 + unat c1"
    have w: "unat w < 2 ^ 32" using unat_u32_less [of w] by simp
    from Cons.prems(2) r have ws': "ws' = ucast (((ucast w :: u64) * 58 + ucast c1) AND 0xffffffff) # vs"
      and c': "c' = ucast (drop_bit 32 (((ucast w :: u64) * 58 + ucast c1) AND 0x3f00000000))"
      by (auto simp: Let_def)
    have u: "unat (hd ws') = ?t mod 2 ^ 32" "unat c' = ?t div 2 ^ 32"
      using mul_add_step [OF IH(2), of w] by (simp_all add: ws' c')
    have "unat c' < 58" unfolding u
      using w IH(2) by (intro div_less_iff_less_mult [THEN iffD2]) simp_all

    have "unat c' * (2 ^ 32) ^ length (w # ws) + words_value ws' =
        (unat c' * 2 ^ 32 + unat (hd ws')) * (2 ^ 32) ^ length ws + words_value vs"
      by (simp add: ws' words_value_def be_Cons IH(1) algebra_simps)
    also have "unat c' * 2 ^ 32 + unat (hd ws') = ?t" unfolding u by simp
    also have "?t * (2 ^ 32) ^ length ws + words_value vs = words_value (w # ws) * 58 + unat c"
      using IH(3) by (simp add: words_value_def be_Cons algebra_simps)
    finally have "unat c' * (2 ^ 32) ^ length (w # ws) + words_value ws' =
        words_value (w # ws) * 58 + unat c" .
    moreover have "length ws' = length (w # ws)" by (simp add: ws' IH(1))
    ultimately show ?case using \<open>unat c' < 58\<close> by blast
  qed
  then show "length ws' = length ws" and "unat c' < 58"
    and "unat c' * (2 ^ 32) ^ length ws + words_value ws' = words_value ws * 58 + unat c"
    by blast+
qed

lemma mask_zero_iff:
  assumes "n \<le> 32"
  shows "(w :: u32) AND push_bit n 0xffffffff = 0 \<longleftrightarrow> unat w < 2 ^ n"
proof -
  have m: "(0xffffffff :: u32) = mask 32" by (simp add: mask_numeral)
  have "w AND push_bit n (mask 32) = 0 \<longleftrightarrow> drop_bit n w = 0"
  proof
    assume *: "w AND push_bit n (mask 32) = 0"
    show "drop_bit n w = 0"
    proof (rule bit_word_eqI)
      fix i
      have "\<not> bit (w AND push_bit n (mask 32)) (n + i)" unfolding * by simp
      then show "bit (drop_bit n w) i = bit (0 :: u32) i"
        using bit_imp_le_length [of w "n + i"] by (auto simp: bit_simps)
    qed
  next
    assume *: "drop_bit n w = 0"
    show "w AND push_bit n (mask 32) = 0"
    proof (rule bit_word_eqI)
      fix i
      have "\<not> bit (drop_bit n w) (i - n)" unfolding * by simp
      then show "bit (w AND push_bit n (mask 32)) i = bit (0 :: u32) i"
        by (auto simp: bit_simps)
    qed
  qed
  also have "\<dots> \<longleftrightarrow> unat (drop_bit n w) = 0" by (simp only: unat_eq_0)
  also have "\<dots> \<longleftrightarrow> unat w < 2 ^ n"
    by (simp add: unat_drop_bit_eq drop_bit_nat_def div_eq_0_iff)
  finally show ?thesis unfolding m .
qed

lemma lead_digit_less:
  assumes "v < B" shows "w * B + v < K * B \<longleftrightarrow> w < (K :: nat)"
proof
  assume "w < K"
  then have "(w + 1) * B \<le> K * B" by (intro mult_le_mono1) simp
  with assms show "w * B + v < K * B" by simp
next
  assume "w * B + v < K * B"
  then have "w * B < K * B" by linarith
  then show "w < K" by simp
qed

lemma b58_limit:
  assumes "ws \<noteq> []" and "length ws = (binsz + 3) div 4"
  shows "hd ws AND (if binsz mod 4 = 0 then 0 else push_bit (binsz mod 4 * 8) (0xffffffff :: u32)) = 0
    \<longleftrightarrow> words_value ws < 256 ^ binsz"
proof (cases "binsz mod 4 = 0")
  case True
  then have "binsz = 4 * length ws" using assms(2) by auto
  then have "(256 :: nat) ^ binsz = (2 ^ 32) ^ length ws" by (simp add: power_mult)
  with True show ?thesis using words_value_less [of ws] by simp
next
  case False
  define r m where "r = binsz mod 4" and "m = binsz div 4"
  have r: "r < 4" and b: "binsz = r + 4 * m" by (simp_all add: r_def m_def)
  obtain w vs where ws: "ws = w # vs" using assms(1) by (cases ws) auto
  have "(binsz + 3) div 4 = Suc (binsz div 4)" using False by presburger
  then have n: "length vs = m" using assms(2) by (simp add: ws m_def)
  have "(256 :: nat) ^ binsz = 256 ^ r * (2 ^ 32) ^ m" unfolding b
    by (simp add: power_add power_mult)
  moreover have "words_value ws = unat w * (2 ^ 32) ^ m + words_value vs"
    by (simp add: ws words_value_def be_Cons n)
  moreover have "words_value vs < (2 ^ 32) ^ m" using words_value_less [of vs] by (simp add: n)
  ultimately have "words_value ws < 256 ^ binsz \<longleftrightarrow> unat w < 256 ^ r"
    by (simp only: lead_digit_less)
  moreover have "(2::nat) ^ (r * 8) = 256 ^ r" by (simp add: mult.commute [of r] power_mult)
  moreover have "w AND push_bit (r * 8) 0xffffffff = 0 \<longleftrightarrow> unat w < 2 ^ (r * 8)"
    by (rule mask_zero_iff) (use r in linarith)
  ultimately show ?thesis using False by (simp add: ws flip: r_def)
qed

definition b58_digit :: "nat \<Rightarrow> byte" where
  "b58_digit d = b58digits_ordered ! d"

lemma b58digits_ordered_codes: "b58digits_ordered =
    map of_nat ([49..<58] @ [65..<73] @ [74..<79] @ [80..<91] @ [97..<108] @ [109..<123])"
  by (simp add: b58digits_ordered_def upt_rec)

lemma b58_tables:
  "map (\<lambda>b. b58digits_map ! unat b) b58digits_ordered = map int [0..<58]"
  "list_all (\<lambda>b. unat b < 128 \<and> b \<noteq> 0) b58digits_ordered"
  "length b58digits_ordered = 58"
  unfolding b58digits_ordered_def b58digits_map_def by (simp_all add: upt_rec)

lemma b58_digit_table:
  assumes "d < 58"
  shows "unat (b58_digit d) < 128 \<and> b58_digit d \<noteq> 0 \<and> b58digits_map ! unat (b58_digit d) = int d"
proof -
  have "map (\<lambda>b. b58digits_map ! unat b) b58digits_ordered ! d = map int [0..<58] ! d"
    by (simp only: b58_tables(1))
  with assms b58_tables(2) show ?thesis
    by (simp add: b58_digit_def b58_tables(3) list_all_length)
qed

lemma b58_decode_loop_value:
  assumes "outi \<noteq> []" and "length outi = (binsz + 3) div 4" and "words_value outi < 256 ^ binsz"
    and "\<And>d. d \<in> set ds \<Longrightarrow> d < 58"
    and zm: "zm = (if binsz mod 4 = 0 then 0 else push_bit (binsz mod 4 * 8) (0xffffffff :: u32))"
  shows "if words_value outi * 58 ^ length ds + be 58 ds < 256 ^ binsz
    then \<exists>ws. b58_decode_loop (map b58_digit ds) zm outi = Inr ws \<and> length ws = length outi \<and>
        words_value ws = words_value outi * 58 ^ length ds + be 58 ds
    else b58_decode_loop (map b58_digit ds) zm outi = Inl Failure"
  using assms(1-4)
proof (induction ds arbitrary: outi)
  case Nil
  then show ?case by simp
next
  case (Cons d ds)
  have d: "d < 58" using Cons.prems(4) by simp
  note t = b58_digit_table [OF d]
  have byte: "b58_digit d AND 0x80 = 0"
    using t by (simp add: byte_and_128)
  obtain ws c where r: "b58_mul_add outi (of_nat d) = (ws, c)"
    by (cases "b58_mul_add outi (of_nat d)")
  have ud: "unat (of_nat d :: u32) = d" using d by (simp add: unat_of_nat)
  let ?V = "words_value outi * 58 + d" and ?N = "length outi"
  have m: "length ws = ?N" "unat c * (2 ^ 32) ^ ?N + words_value ws = ?V"
    using b58_mul_add_value [OF _ r] d by (simp_all add: ud)
  have total: "words_value outi * 58 ^ length (d # ds) + be 58 (d # ds) =
      ?V * 58 ^ length ds + be 58 ds"
    by (simp add: be_Cons algebra_simps)
  have N: "256 ^ binsz \<le> ((2 ^ 32) ^ ?N :: nat)"
  proof -
    have "binsz \<le> 4 * ?N" using Cons.prems(2) by linarith
    then have "(256 :: nat) ^ binsz \<le> 256 ^ (4 * ?N)" by (intro power_increasing) simp_all
    then show ?thesis by (simp add: power_mult)
  qed
  have lim: "hd ws AND zm = 0 \<longleftrightarrow> words_value ws < 256 ^ binsz"
    unfolding zm by (rule b58_limit) (use m(1) Cons.prems in auto)
  have step: "b58_decode_loop (map b58_digit (d # ds)) zm outi =
      (if c \<noteq> 0 then Inl Failure else if hd ws AND zm \<noteq> 0 then Inl Failure
       else b58_decode_loop (map b58_digit ds) zm ws)"
    using byte t r m(1) Cons.prems(1) by auto
  show ?case
  proof (cases "?V < 256 ^ binsz")
    case True
    then have "unat c = 0" using m(2) N by (cases "unat c") simp_all
    then have c: "c = 0" and V: "words_value ws = ?V" using m(2) by (simp_all add: unat_eq_0)
    have "ws \<noteq> []" using m(1) Cons.prems(1) by auto
    then show ?thesis
      using Cons.IH [of ws] Cons.prems True c V lim m(1)
      unfolding total step by (simp split: if_splits)
  next
    case False
    have "c \<noteq> 0 \<or> hd ws AND zm \<noteq> 0"
      using False m(2) by (auto simp: lim)
    moreover have "?V \<le> ?V * 58 ^ length ds + be 58 ds"
      by (rule trans_le_add1) simp
    ultimately show ?thesis using False unfolding total step by auto
  qed
qed

lemma u32_bytes_length [simp]: "length (u32_bytes w) = 4"
  by (simp add: u32_bytes_def)

lemma base256_digits:
  "((n div 2 ^ 24 * 256 + n div 2 ^ 16 mod 256) * 256 + n div 2 ^ 8 mod 256) * 256 + n mod 256 = (n :: nat)"
proof -
  have d: "q div 256 * 256 + q mod 256 = q" for q :: nat by simp
  have "n div 2 ^ 24 = n div 2 ^ 16 div 256" "n div 2 ^ 16 = n div 2 ^ 8 div 256"
    by (simp_all flip: div_mult2_eq)
  then show ?thesis by (simp only: d) simp
qed

lemma u32_bytes_value: "bytes_value (u32_bytes w) = unat w"
proof -
  have "unat (ucast (drop_bit k w) :: byte) = unat w div 2 ^ k mod 256" for k
    by (simp add: unsigned_ucast_eq take_bit_eq_mod unat_drop_bit_eq drop_bit_nat_def)
  from this [of 0] this have "map unat (u32_bytes w) =
      [unat w div 2 ^ 24 mod 256, unat w div 2 ^ 16 mod 256, unat w div 2 ^ 8 mod 256, unat w mod 256]"
    by (simp add: u32_bytes_def)
  moreover have "unat w div 2 ^ 24 mod 256 = unat w div 2 ^ 24"
    using unat_u32_less [of w] by simp
  ultimately have "bytes_value (u32_bytes w) =
      ((unat w div 2 ^ 24 * 256 + unat w div 2 ^ 16 mod 256) * 256 + unat w div 2 ^ 8 mod 256) * 256
        + unat w mod 256"
    by (simp only: bytes_value_def be_def foldl.simps mult_0 add_0_left)
  then show ?thesis by (simp only: base256_digits)
qed

lemma bytes_value_append: "bytes_value (xs @ ys) = bytes_value xs * 256 ^ length ys + bytes_value ys"
  by (simp add: bytes_value_def be_append)

lemma bytes_value_concat:
  "bytes_value (concat (map u32_bytes ws)) = words_value ws"
  "length (concat (map u32_bytes ws)) = 4 * length ws"
  by (induction ws rule: rev_induct)
    (simp_all add: bytes_value_append u32_bytes_value words_value_def bytes_value_def [of "[]"])

lemma u32_bytes_low:
  assumes "unat w < 256 ^ r" and "r \<le> 4"
  shows "bytes_value (drop (4 - r) (u32_bytes w)) = unat w"
proof -
  let ?t = "take (4 - r) (u32_bytes w)" and ?d = "drop (4 - r) (u32_bytes w)"
  have l: "length ?d = r" using assms(2) by simp
  have "unat w = bytes_value ?t * 256 ^ r + bytes_value ?d"
    using bytes_value_append [of ?t ?d] assms(2) by (simp add: u32_bytes_value)
  moreover have "bytes_value ?t = 0"
    using assms(1) calculation by (cases "bytes_value ?t") simp_all
  ultimately show ?thesis by simp
qed

lemma b58_count_zeros_digits:
  "(\<And>d. d \<in> set ds \<Longrightarrow> d < 58) \<Longrightarrow>
   b58_count_zeros (map b58_digit ds) = Inr (length (takeWhile (\<lambda>d. d = 0) ds))"
proof (induction ds)
  case (Cons d ds)
  then show ?case using b58_digit_table [of d] by simp
qed simp

lemma b58_output:
  assumes "ws \<noteq> []" and "length ws = (binsz + 3) div 4" and "words_value ws < 256 ^ binsz"
  defines "bin \<equiv> (if binsz mod 4 = 0 then [] else drop (4 - binsz mod 4) (u32_bytes (hd ws))) @
      concat (map u32_bytes (if binsz mod 4 = 0 then ws else tl ws))"
  shows "length bin = binsz" and "bytes_value bin = words_value ws"
proof -
  have "length bin = binsz \<and> bytes_value bin = words_value ws"
  proof (cases "binsz mod 4 = 0")
    case True
    then show ?thesis using assms(2) bytes_value_concat [of ws] by (auto simp: bin_def)
  next
    case False
    define r m where "r = binsz mod 4" and "m = binsz div 4"
    have r: "r < 4" "r \<noteq> 0" and b: "binsz = r + 4 * m" using False by (simp_all add: r_def m_def)
    obtain w vs where ws: "ws = w # vs" using assms(1) by (cases ws) auto
    have "(binsz + 3) div 4 = Suc (binsz div 4)" using False by presburger
    then have n: "length vs = m" using assms(2) by (simp add: ws m_def)
    have B: "(256 :: nat) ^ binsz = 256 ^ r * (2 ^ 32) ^ m" unfolding b
      by (simp add: power_add power_mult)
    have W: "words_value ws = unat w * (2 ^ 32) ^ m + words_value vs"
      by (simp add: ws words_value_def be_Cons n)
    have v: "words_value vs < (2 ^ 32) ^ m" using words_value_less [of vs] by (simp add: n)
    have w: "unat w < 256 ^ r"
      using assms(3) unfolding B W lead_digit_less [OF v] .
    have bin: "bin = drop (4 - r) (u32_bytes w) @ concat (map u32_bytes vs)"
      using r by (simp add: bin_def ws flip: r_def)
    have "(256 :: nat) ^ (4 * m) = (2 ^ 32) ^ m" by (simp add: power_mult)
    then show ?thesis using r
      by (simp only: bin bytes_value_append u32_bytes_low [OF w] bytes_value_concat n W length_append
          length_drop u32_bytes_length b)
        simp
  qed
  then show "length bin = binsz" and "bytes_value bin = words_value ws" by blast+
qed

lemma base58_decode_value:
  assumes "\<And>d. d \<in> set ds \<Longrightarrow> d < 58"
  shows "if be 58 ds < 256 ^ binsz
    then \<exists>bin. libp2p_crypto_encoding_base58_decode (map b58_digit ds) binsz =
          Inr (bin, binsz - length (takeWhile (\<lambda>b. b = 0) bin) + length (takeWhile (\<lambda>d. d = 0) ds)) \<and>
        length bin = binsz \<and> bytes_value bin = be 58 ds
    else libp2p_crypto_encoding_base58_decode (map b58_digit ds) binsz = Inl Failure"
proof (cases "binsz = 0")
  case True
  let ?ds = "dropWhile (\<lambda>d. d = 0) ds" and ?z = "length (takeWhile (\<lambda>d. d = 0) ds)"
  have c: "c_string (map b58_digit ds) = map b58_digit ds"
    using assms(1) b58_digit_table by (intro c_string_id) fastforce
  have dr: "drop ?z (map b58_digit ds) = map b58_digit ?ds"
    by (simp add: drop_map dropWhile_eq_drop)
  show ?thesis
  proof (cases ?ds)
    case Nil
    then have "be 58 ds = 0" by (simp add: be_zeros)
    moreover have "drop ?z (map b58_digit ds) = []" unfolding dr Nil by simp
    ultimately show ?thesis using True
      by (simp add: libp2p_crypto_encoding_base58_decode_def c b58_count_zeros_digits assms(1)
          bytes_value_def)
  next
    case (Cons d es)
    have "d \<noteq> 0" using Cons hd_dropWhile [of "\<lambda>d. d = 0" ds] by force
    moreover have "d < 58" using Cons assms(1) set_dropWhileD [of d "\<lambda>d. d = 0" ds] by simp
    moreover have "be 58 ds \<noteq> 0"
      using be_dropWhile [of 58 ds] \<open>d \<noteq> 0\<close> by (simp add: Cons be_zero_iff flip: be_dropWhile [of 58 ds])
    moreover have "word_of_int (int d) \<noteq> (0 :: u32)"
      using \<open>d \<noteq> 0\<close> \<open>d < 58\<close> by (simp add: word_of_nat_eq_0_iff nat_dvd_not_less)
    ultimately show ?thesis using True Cons dr b58_digit_table [of d]
      by (simp add: libp2p_crypto_encoding_base58_decode_def c b58_count_zeros_digits assms(1)
          byte_and_128)
  qed
next
  case False
  then have pos: "0 < binsz" by simp
  let ?outi = "replicate ((binsz + 3) div 4) (0 :: u32)"
  let ?z = "length (takeWhile (\<lambda>d. d = 0) ds)" and ?ds = "dropWhile (\<lambda>d. d = 0) ds"
  have c: "c_string (map b58_digit ds) = map b58_digit ds"
    using assms(1) b58_digit_table by (intro c_string_id) fastforce
  have dr: "drop ?z (map b58_digit ds) = map b58_digit ?ds"
    by (simp add: drop_map dropWhile_eq_drop)
  have o: "?outi \<noteq> []" "words_value ?outi = 0"
    using pos be_zeros [of "map unat ?outi" "2 ^ 32"] by (auto simp: words_value_def)
  have lt: "words_value ?outi < 256 ^ binsz" by (simp add: o)
  have digits: "d < 58" if "d \<in> set ?ds" for d
    using that assms(1) by (meson set_dropWhileD)
  note loop = b58_decode_loop_value [where ds = ?ds, OF o(1) _ lt digits refl,
      unfolded o(2) be_dropWhile]
  show ?thesis
  proof (cases "be 58 ds < 256 ^ binsz")
    case True
    with loop obtain ws where ws: "length ws = (binsz + 3) div 4" "words_value ws = be 58 ds"
      and r: "b58_decode_loop (map b58_digit ?ds)
          (if binsz mod 4 = 0 then 0 else push_bit (binsz mod 4 * 8) 0xffffffff) ?outi = Inr ws"
      by auto
    have "ws \<noteq> []" using ws(1) pos by auto
    from b58_output [OF this ws(1)] True ws r show ?thesis
      using pos
      by (simp add: libp2p_crypto_encoding_base58_decode_def c b58_count_zeros_digits assms(1) dr Let_def)
  next
    case False
    with loop pos show ?thesis
      by (simp add: libp2p_crypto_encoding_base58_decode_def c b58_count_zeros_digits assms(1) dr Let_def)
  qed
qed

section \<open>The encoder\<close>

definition digits58 :: "bytes \<Rightarrow> bool" where
  "digits58 buf \<longleftrightarrow> (\<forall>b \<in> set buf. unat b < 58)"

definition digits_value :: "bytes \<Rightarrow> nat" where
  "digits_value buf = be 58 (map unat buf)"

lemma unat_of_digit: "d < 58 \<Longrightarrow> unat (of_nat d :: byte) = d"
  by (simp add: unat_of_nat)

text \<open>
  The inner loop multiplies the number in the array by 256 and adds \<open>carry\<close>. Up to
  \<open>high\<close> the array is known to be zero, so the loop may stop there once the carry is used up.
\<close>

lemma b58_carry_loop_value:
  assumes "\<And>k. k < length p \<Longrightarrow> int k \<le> high \<Longrightarrow> p ! k = 0" and "- 1 \<le> high"
    and "digits_value p * 256 + carry < 58 ^ length p"
  shows "\<exists>p' j. b58_carry_loop (p @ s) high carry (int (length p) - 1) = Inr (p' @ s, j) \<and>
    length p' = length p \<and> digits58 p' \<and> digits_value p' = digits_value p * 256 + carry \<and>
    - 1 \<le> j \<and> j < int (length p) \<and> (\<forall>k < length p'. int k \<le> j \<longrightarrow> p' ! k = 0)"
  using assms
proof (induction p arbitrary: carry s rule: rev_induct)
  case Nil
  then show ?case
    by (subst b58_carry_loop.simps) (simp add: digits_value_def digits58_def)
next
  case (snoc d p)
  show ?case
  proof (cases "high < int (length p) \<or> carry \<noteq> 0")
    case False
    have z: "b = 0" if b: "b \<in> set (p @ [d])" for b
    proof -
      from b obtain k where "k < length (p @ [d])" "b = (p @ [d]) ! k"
        by (metis in_set_conv_nth)
      moreover from this False have "int k \<le> high" by simp
      ultimately show ?thesis using snoc.prems(1) by metis
    qed
    have *: "digits_value (p @ [d]) = 0"
      unfolding digits_value_def
    proof (rule be_zeros)
      fix n
      assume "n \<in> set (map unat (p @ [d]))"
      then obtain b where "b \<in> set (p @ [d])" "n = unat b"
        unfolding list.set_map by blast
      with z [of b] show "n = 0" by simp
    qed
    have "digits58 (p @ [d])"
      unfolding digits58_def by (intro ballI) (drule z, simp)
    moreover have "b58_carry_loop ((p @ [d]) @ s) high carry (int (length (p @ [d])) - 1) =
        Inr ((p @ [d]) @ s, int (length p))"
      using False by (subst b58_carry_loop.simps) simp
    moreover have "carry = 0" using False by simp
    ultimately show ?thesis
      using * z [OF nth_mem]
      by (intro exI [of _ "p @ [d]"] exI [of _ "int (length p)"]) (simp del: append_assoc)
  next
    case True
    let ?c = "carry + 256 * unat d"
    have V: "digits_value (p @ [d]) * 256 + carry = digits_value p * 256 * 58 + ?c"
      by (simp add: digits_value_def algebra_simps)
    have "digits_value p * 256 + ?c div 58 < 58 ^ length p"
    proof -
      have "(digits_value p * 256 + ?c div 58) * 58 \<le> digits_value (p @ [d]) * 256 + carry"
        unfolding V by (simp add: algebra_simps)
      also have "\<dots> < 58 ^ length p * 58" using snoc.prems(3) by (simp add: mult.commute)
      finally show ?thesis by simp
    qed
    moreover have "p ! k = 0" if "k < length p" "int k \<le> high" for k
      using snoc.prems(1) [of k] that by (simp add: nth_append)
    ultimately obtain p' j where
      r: "b58_carry_loop (p @ of_nat (?c mod 58) # s) high (?c div 58) (int (length p) - 1) =
        Inr (p' @ of_nat (?c mod 58) # s, j)"
      and p': "length p' = length p" "digits58 p'" "digits_value p' = digits_value p * 256 + ?c div 58"
      and j: "- 1 \<le> j" "j < int (length p)" "\<forall>k < length p'. int k \<le> j \<longrightarrow> p' ! k = 0"
      using snoc.IH [of "?c div 58" "of_nat (?c mod 58) # s"] snoc.prems(2) by blast
    let ?p = "p' @ [of_nat (?c mod 58)]"
    have "b58_carry_loop ((p @ [d]) @ s) high carry (int (length (p @ [d])) - 1) = Inr (?p @ s, j)"
      using True r by (subst b58_carry_loop.simps) (simp add: nth_append Let_def)
    moreover have "digits58 ?p" using p'(2) by (simp add: digits58_def unat_of_digit)
    moreover have "digits_value ?p = digits_value (p @ [d]) * 256 + carry"
      unfolding V using p'(3) by (simp add: digits_value_def unat_of_digit algebra_simps)
    moreover have "\<forall>k < length ?p. int k \<le> j \<longrightarrow> ?p ! k = 0"
      using j p'(1) by (auto simp: nth_append less_Suc_eq)
    ultimately show ?thesis using p'(1) j(1,2)
      by (intro exI [of _ ?p] exI [of _ j]) simp
  qed
qed

lemma b58_encode_loop_value:
  assumes "digits58 buf" and "\<And>k. k < length buf \<Longrightarrow> int k \<le> high \<Longrightarrow> buf ! k = 0" and "- 1 \<le> high"
    and "digits_value buf * 256 ^ length bs + bytes_value bs < 58 ^ length buf"
  shows "\<exists>buf'. b58_encode_loop bs buf high = Inr buf' \<and> length buf' = length buf \<and> digits58 buf' \<and>
    digits_value buf' = digits_value buf * 256 ^ length bs + bytes_value bs"
  using assms
proof (induction bs arbitrary: buf high)
  case Nil
  then show ?case by (simp add: bytes_value_def)
next
  case (Cons b bs)
  let ?V = "digits_value buf * 256 + unat b"
  have total: "digits_value buf * 256 ^ length (b # bs) + bytes_value (b # bs) =
      ?V * 256 ^ length bs + bytes_value bs"
    by (simp add: bytes_value_def be_Cons algebra_simps)
  have "?V \<le> ?V * 256 ^ length bs" by simp
  then have "?V < 58 ^ length buf" using Cons.prems(4) unfolding total by linarith
  from b58_carry_loop_value [OF Cons.prems(2,3) this, of "[]"] obtain p j
    where r: "b58_carry_loop buf high (unat b) (int (length buf) - 1) = Inr (p, j)"
      and p: "length p = length buf" "digits58 p" "digits_value p = ?V"
      and j: "- 1 \<le> j" "\<And>k. k < length p \<Longrightarrow> int k \<le> j \<Longrightarrow> p ! k = 0"
    by auto
  have "digits_value p * 256 ^ length bs + bytes_value bs < 58 ^ length p"
    using Cons.prems(4) unfolding total p .
  from Cons.IH [OF p(2) j(2,1) this] r p show ?case unfolding total by simp
qed

lemma base58_size_enough: "(256 :: nat) ^ k < 58 ^ (k * 138 div 100 + 1)"
proof -
  let ?n = "k * 138 div 100 + 1"
  have "(256 ^ k) ^ 100 = (256 ^ 100 :: nat) ^ k" by (simp only: power_mult [symmetric] mult.commute)
  also have "\<dots> \<le> (58 ^ 138) ^ k" by (rule power_mono) simp_all
  also have "\<dots> = (58 :: nat) ^ (k * 138)" by (simp only: power_mult [symmetric] mult.commute)
  also have "\<dots> < 58 ^ (100 * ?n)" by (rule power_strict_increasing) simp_all
  also have "\<dots> = (58 ^ ?n) ^ 100" by (simp only: power_mult [symmetric] mult.commute)
  finally show ?thesis by (rule power_less_imp_less_base) simp
qed

text \<open>The reference: the digits of a number, none for zero.\<close>

fun base58_digits :: "nat \<Rightarrow> nat list" where
  "base58_digits n = (if n = 0 then [] else base58_digits (n div 58) @ [n mod 58])"

declare base58_digits.simps [simp del]

lemma base58_digits_less: "d \<in> set (base58_digits n) \<Longrightarrow> d < 58"
proof (induction n rule: base58_digits.induct)
  case (1 n)
  then show ?case by (subst (asm) (2) base58_digits.simps) (auto split: if_splits)
qed

lemma be_base58_digits: "be 58 (base58_digits n) = n"
proof (induction n rule: base58_digits.induct)
  case (1 n)
  then show ?case by (subst base58_digits.simps) simp
qed

lemma base58_digits_unique:
  "(\<And>d. d \<in> set ds \<Longrightarrow> d < 58) \<Longrightarrow> ds = [] \<or> hd ds \<noteq> 0 \<Longrightarrow> base58_digits (be 58 ds) = ds"
proof (induction ds rule: rev_induct)
  case Nil
  then show ?case by (simp add: base58_digits.simps)
next
  case (snoc d ds)
  have "be 58 (ds @ [d]) \<noteq> 0"
    using snoc.prems(2) by (cases ds) (auto simp: be_zero_iff simp del: be_snoc)
  moreover have "base58_digits (be 58 ds) = ds"
    using snoc by (cases ds) auto
  ultimately show ?case using snoc.prems(1) by (subst base58_digits.simps) simp
qed

lemma base58_digits_Nil [simp]: "base58_digits n = [] \<longleftrightarrow> n = 0"
  by (subst base58_digits.simps) simp

lemma base58_digits_hd: "base58_digits n = [] \<or> hd (base58_digits n) \<noteq> 0"
proof (induction n rule: base58_digits.induct)
  case (1 n)
  then show ?case
    by (subst (1 2) base58_digits.simps)
      (cases "n div 58 = 0"; auto simp: hd_append div_eq_0_iff)
qed

lemma no_zero_lead: "length (takeWhile (\<lambda>b. b = 0) xs) = 0 \<longleftrightarrow> xs = [] \<or> hd xs \<noteq> (0 :: 'a::zero)"
  by (cases xs) simp_all

text \<open>What the encoder does on data without a leading zero byte.\<close>

lemma base58_encode_digits:
  assumes "data = [] \<or> hd data \<noteq> 0" and "length data < 2 ^ 31"
  shows "libp2p_crypto_encoding_base58_encode data n =
    (let ds = base58_digits (bytes_value data) in
     if n \<le> length ds then Inr (0, length ds + 1, [])
     else Inr (1, length ds + 1, map b58_digit ds @ [0]))"
proof -
  define size where "size = length data * 138 div 100 + 1"
  let ?ds = "base58_digits (bytes_value data)" and ?buf = "replicate size (0 :: byte)"
  have z: "length (takeWhile (\<lambda>b. b = 0) data) = 0" using assms(1) by (simp only: no_zero_lead)
  have "digits58 ?buf" by (simp add: digits58_def)
  moreover have "digits_value ?buf = 0"
    unfolding digits_value_def by (rule be_zeros) (auto split: if_splits)
  moreover have "bytes_value data < 58 ^ size"
    unfolding size_def using bytes_value_less [of data] base58_size_enough [of "length data"]
    by linarith
  moreover have "- 1 \<le> int size - 1" by simp
  ultimately obtain buf where
    r: "b58_encode_loop data ?buf (int size - 1) = Inr buf"
    and buf: "length buf = size" "digits58 buf" "digits_value buf = bytes_value data"
    using b58_encode_loop_value [of ?buf "int size - 1" data] by auto
  let ?j = "length (takeWhile (\<lambda>b. b = 0) buf)"
  have dr: "drop ?j buf = dropWhile (\<lambda>b. b = 0) buf" by (simp add: dropWhile_eq_drop)
  have ds: "map unat (drop ?j buf) = ?ds"
  proof -
    have d: "map unat (drop ?j buf) = dropWhile (\<lambda>d. d = 0) (map unat buf)"
      unfolding dr by (simp add: dropWhile_map comp_def unat_eq_0)
    have "be 58 (map unat (drop ?j buf)) = bytes_value data"
      unfolding d be_dropWhile using buf(3) by (simp add: digits_value_def)
    moreover have "x < 58" if "x \<in> set (map unat (drop ?j buf))" for x
      using that buf(2) by (auto simp: digits58_def dest: in_set_dropD)
    moreover have "map unat (drop ?j buf) = [] \<or> hd (map unat (drop ?j buf)) \<noteq> 0"
      unfolding d using hd_dropWhile [of "\<lambda>d. d = 0" "map unat buf"] by blast
    ultimately show ?thesis using base58_digits_unique [of "map unat (drop ?j buf)"] by simp
  qed
  have len: "size - ?j = length ?ds" using arg_cong [OF ds, of length] buf(1) by simp
  have out: "map (\<lambda>d. b58digits_ordered ! unat d) (drop ?j buf) = map b58_digit ?ds"
    by (simp only: ds [symmetric] map_map comp_def b58_digit_def)
  have s: "length data * 138 mod 2 ^ 64 div 100 + 1 = size"
    unfolding size_def using assms(2) by simp
  show ?thesis
    unfolding libp2p_crypto_encoding_base58_encode_def Let_def z drop_0 diff_zero s r bind_res_simps
      add_0 len out
    by simp
qed

lemma b58_carry_loop_fault:
  "b58_carry_loop buf high carry j \<noteq> Inl Failure \<and> b58_carry_loop buf high carry j \<noteq> Inl Abort"
proof (induction buf high carry j rule: b58_carry_loop.induct)
  case (1 buf high carry j)
  then show ?case by (subst (1 2) b58_carry_loop.simps) (simp add: Let_def)
qed

lemma b58_encode_loop_fault:
  "(\<exists>buf'. b58_encode_loop bs buf high = Inr buf') \<or> b58_encode_loop bs buf high = Inl Undefined"
proof (induction bs arbitrary: buf high)
  case (Cons b bs)
  show ?case
  proof (cases "b58_carry_loop buf high (unat b) (int (length buf) - 1)")
    case (Inl e)
    then have "e = Undefined" using b58_carry_loop_fault by (cases e) metis+
    with Inl show ?thesis by simp
  next
    case (Inr r)
    then show ?thesis using Cons.IH by (cases r) simp
  qed
qed simp

text \<open>Data with a leading zero byte is never encoded.\<close>

lemma base58_encode_leading_zero:
  assumes "data \<noteq> []" and "hd data = 0"
  shows "(\<exists>m. libp2p_crypto_encoding_base58_encode data n = Inr (0, m, [])) \<or>
    libp2p_crypto_encoding_base58_encode data n = Inl Undefined"
proof -
  define z where "z = length (takeWhile (\<lambda>b. b = 0) data)"
  define P where "P r \<longleftrightarrow> (\<exists>m. r = Inr (0, m, [])) \<or> r = Inl Undefined"
    for r :: "(int \<times> nat \<times> bytes) result"
  have z: "0 < z" using assms unfolding z_def by (cases data) simp_all
  have "P (bind_res (b58_encode_loop bs buf high) f)" if "\<And>buf'. P (f buf')" for bs buf high f
    using b58_encode_loop_fault [of bs buf high]
  proof
    assume "\<exists>buf'. b58_encode_loop bs buf high = Inr buf'"
    then show ?thesis using that by auto
  qed (simp add: P_def)
  then have "P (libp2p_crypto_encoding_base58_encode data n)"
    unfolding libp2p_crypto_encoding_base58_encode_def Let_def z_def [symmetric]
    by this (use z in \<open>simp add: P_def\<close>)
  then show ?thesis by (simp add: P_def)
qed

section \<open>Sizes\<close>

lemma base58_digits_length:
  assumes "n \<noteq> 0" shows "58 ^ (length (base58_digits n) - 1) \<le> n"
proof -
  obtain d ds where ds: "base58_digits n = d # ds" and d: "d \<noteq> 0"
    using base58_digits_hd [of n] assms by (cases "base58_digits n") auto
  have "(58 :: nat) ^ length ds \<le> d * 58 ^ length ds" using d by simp
  also have "\<dots> \<le> be 58 (d # ds)" by (simp add: be_Cons)
  also have "\<dots> = n" by (simp flip: ds add: be_base58_digits)
  finally show ?thesis by (simp add: ds)
qed

lemma base58_encode_size_greater:
  assumes "(58 :: nat) ^ n < 256 ^ k"
  shows "n < libp2p_crypto_encoding_base58_encode_size k"
proof -
  have "real (58 ^ n) < real (256 ^ k)" using assms by (simp only: of_nat_less_iff)
  then have "log 2 (58 ^ n) < log 2 (256 ^ k)" by simp
  also have "\<dots> = real k * log 2 (2 ^ 8)" by (simp add: log_nat_power)
  also have "\<dots> = real k * 8" by (simp only: log_pow_cancel)
  finally have "real n * log 2 58 < 8 * real k" by (simp add: log_nat_power)
  then have "real n < 8 / log 2 58 * real k" by (simp add: field_simps)
  then have "int n < \<lceil>8 / log 2 58 * real k\<rceil>" by linarith
  then show ?thesis unfolding libp2p_crypto_encoding_base58_encode_size_def by linarith
qed

lemma base58_encode_size_enough:
  "length (base58_digits (bytes_value data)) \<le>
     libp2p_crypto_encoding_base58_encode_size (length data)"
proof (cases "bytes_value data = 0")
  case False
  let ?L = "length (base58_digits (bytes_value data))"
  have "58 ^ (?L - 1) < (256 :: nat) ^ length data"
    using base58_digits_length [OF False] bytes_value_less [of data] by linarith
  from base58_encode_size_greater [OF this] show ?thesis by linarith
qed (simp add: base58_digits.simps [of 0])

lemma base58_encode_size_le: "libp2p_crypto_encoding_base58_encode_size n \<le> 2 * n"
proof -
  have "log 2 (2 ^ 4) \<le> log 2 (58 :: real)"
    by (rule log_le_cancel_iff [THEN iffD2]) simp_all
  then have "4 \<le> log 2 (58 :: real)" by (simp only: log_pow_cancel)
  then have "8 / log 2 58 * real n \<le> 2 * real n"
    by (intro mult_right_mono) (simp_all add: field_simps)
  then have "\<lceil>8 / log 2 58 * real n\<rceil> \<le> int (2 * n)" by (simp add: ceiling_le_iff)
  then show ?thesis by (simp add: libp2p_crypto_encoding_base58_encode_size_def nat_le_iff)
qed

lemma base58_decode_size_eq:
  assumes "2 ^ (8 * m) < (58 :: nat) ^ n" and "58 ^ n \<le> (2 :: nat) ^ (8 * Suc m)"
  shows "libp2p_crypto_encoding_base58_decode_size n = Suc m"
proof -
  have e: "log 2 (58 ^ n) = real n * log 2 58" by (simp add: log_nat_power)
  have p: "log 2 (2 ^ k) = real k" for k by (simp add: log_nat_power)
  have r: "real (2 ^ (8 * m)) < real (58 ^ n)" "real (58 ^ n) \<le> real (2 ^ (8 * Suc m))"
    using assms by (simp_all only: of_nat_less_iff of_nat_le_iff)
  have "log 2 (real (2 ^ (8 * m))) < log 2 (real (58 ^ n))"
    by (rule log_less_cancel_iff [THEN iffD2, OF _ _ _ r(1)]) simp_all
  moreover have "log 2 (real (58 ^ n)) \<le> log 2 (real (2 ^ (8 * Suc m)))"
    by (rule log_le_cancel_iff [THEN iffD2, OF _ _ _ r(2)]) simp_all
  ultimately have "log 2 (2 ^ (8 * m)) < log 2 (58 ^ n)" "log 2 (58 ^ n) \<le> log 2 (2 ^ (8 * Suc m))"
    by (simp_all only: of_nat_power of_nat_numeral)
  then have "real (8 * m) < real n * log 2 58" "real n * log 2 58 \<le> real (8 * Suc m)"
    by (simp_all only: e p)
  then have "\<lceil>real n * log 2 58 / 8\<rceil> = int m + 1"
    by (intro ceiling_unique) simp_all
  then show ?thesis by (simp add: libp2p_crypto_encoding_base58_decode_size_def)
qed

lemma base58_decode_encoded:
  assumes "data \<noteq> []" and "hd data \<noteq> 0"
  shows "libp2p_crypto_encoding_base58_decode (map b58_digit (base58_digits (bytes_value data)))
    (length data) = Inr (data, length data)"
proof -
  let ?ds = "base58_digits (bytes_value data)"
  have nz: "bytes_value data \<noteq> 0"
    using assms by (cases data) (auto simp: bytes_value_def be_zero_iff unat_gt_0)
  have z: "length (takeWhile (\<lambda>d. d = 0) ?ds) = 0" "length (takeWhile (\<lambda>b. b = 0) data) = 0"
    using nz base58_digits_hd [of "bytes_value data"] assms unfolding no_zero_lead by auto
  have dl: "\<And>d. d \<in> set ?ds \<Longrightarrow> d < 58" by (erule base58_digits_less)
  obtain bin where bin: "libp2p_crypto_encoding_base58_decode (map b58_digit ?ds) (length data) =
      Inr (bin, length data - length (takeWhile (\<lambda>b. b = 0) bin) + length (takeWhile (\<lambda>d. d = 0) ?ds))"
    and b: "length bin = length data" "bytes_value bin = bytes_value data"
    using base58_decode_value [of ?ds "length data"] dl bytes_value_less [of data] assms(1)
    by (auto simp: be_base58_digits)
  have "bin = data" using b by (rule bytes_value_inj)
  then show ?thesis unfolding bin by (simp only: z) simp
qed

lemma base58_decode_terminated:
  "libp2p_crypto_encoding_base58_decode (s @ 0 # t) = libp2p_crypto_encoding_base58_decode s"
  by (intro ext) (simp add: libp2p_crypto_encoding_base58_decode_def)

section \<open>Properties\<close>

text \<open>
  Data that does not begin with a zero byte is encoded as its base 58 digits, most
  significant first, with a terminating zero; when the buffer does not hold them the call
  fails and reports the size that is needed. A buffer one byte larger than
  \<open>base58_encode_size\<close> always suffices.
\<close>

theorem base58_encode_value:
  assumes "data = [] \<or> hd data \<noteq> 0" and "length data < 2 ^ 31"
  shows "libp2p_crypto_encoding_base58_encode data n =
      (let ds = base58_digits (bytes_value data) in
       if n \<le> length ds then Inr (0, length ds + 1, [])
       else Inr (1, length ds + 1, map b58_digit ds @ [0])) \<and>
    length (base58_digits (bytes_value data)) <
      libp2p_crypto_encoding_base58_encode_size (length data) + 1"
  using base58_encode_digits [OF assms] base58_encode_size_enough [of data] by simp

theorem base58_encode_value_witness:
  "libp2p_crypto_encoding_base58_encode [1, 0] 5 = Inr (1, 3, [53, 82, 0])"
proof -
  have "base58_digits (bytes_value [1, 0]) = [4, 24]"
    by (simp add: bytes_value_def be_def base58_digits.simps)
  then show ?thesis using base58_encode_value [of "[1, 0]" 5]
    by (simp add: b58_digit_def b58digits_ordered_def)
qed

text \<open>
  Decoding a string of base 58 digits fails exactly when its number needs more bytes
  than the output buffer has. Otherwise the buffer holds the number, most significant byte
  first, and the reported size is that of its significant bytes plus the leading ones.
\<close>

theorem base58_decode_digits:
  assumes "\<forall>d \<in> set ds. d < 58"
  shows "if be 58 ds < 256 ^ binsz
    then \<exists>bin. libp2p_crypto_encoding_base58_decode (map b58_digit ds) binsz =
          Inr (bin, binsz - length (takeWhile (\<lambda>b. b = 0) bin) + length (takeWhile (\<lambda>d. d = 0) ds)) \<and>
        length bin = binsz \<and> bytes_value bin = be 58 ds
    else libp2p_crypto_encoding_base58_decode (map b58_digit ds) binsz = Inl Failure"
  by (rule base58_decode_value) (use assms in auto)

theorem base58_decode_digits_witness:
  "libp2p_crypto_encoding_base58_decode (map b58_digit [4, 25, 57]) 2 = Inr ([58, 115], 2) \<and>
   libp2p_crypto_encoding_base58_decode (map b58_digit [4, 25, 57]) 1 = Inl Failure"
proof -
  have e: "be 58 [4, 25, 57] = 14963" by (simp add: be_def)
  have "bytes_value [58, 115] = 14963" by (simp add: bytes_value_def be_def)
  then have "bin = [58, 115]" if "length bin = 2" "bytes_value bin = 14963" for bin
    using bytes_value_inj [of bin "[58, 115]"] that by simp
  moreover obtain bin where "libp2p_crypto_encoding_base58_decode (map b58_digit [4, 25, 57]) 2 =
      Inr (bin, 2 - length (takeWhile (\<lambda>b. b = 0) bin))" "length bin = 2" "bytes_value bin = 14963"
    using base58_decode_digits [of "[4, 25, 57]" 2] by (auto simp: e)
  ultimately have "libp2p_crypto_encoding_base58_decode (map b58_digit [4, 25, 57]) 2 =
      Inr ([58, 115], 2 - length (takeWhile (\<lambda>b. b = 0) [58, 115 :: byte]))"
    by metis
  then show ?thesis using base58_decode_digits [of "[4, 25, 57]" 1] by (simp add: e)
qed

text \<open>
  C38: decoding an encoding gives the data back, for every non-empty data that does not begin
  with a zero byte, when the output buffer has the size of the data.
\<close>

theorem base58_round_trip:
  assumes "data \<noteq> []" and "hd data \<noteq> 0" and "length data < 2 ^ 31"
    and "libp2p_crypto_encoding_base58_encode data n = Inr (1, m, out)"
  shows "libp2p_crypto_encoding_base58_decode out (length data) = Inr (data, length data)"
proof -
  have "out = map b58_digit (base58_digits (bytes_value data)) @ 0 # []"
    using base58_encode_digits [of data n] assms by (simp add: Let_def split: if_splits)
  with base58_decode_encoded [OF assms(1,2)] show ?thesis
    by (simp only: base58_decode_terminated)
qed

theorem base58_round_trip_witness:
  "libp2p_crypto_encoding_base58_decode [53, 82, 0] 2 = Inr ([1, 0], 2)"
proof -
  have "base58_digits (bytes_value [1, 0]) = [4, 24]"
    by (simp add: bytes_value_def be_def base58_digits.simps)
  then have "libp2p_crypto_encoding_base58_encode [1, 0] 5 = Inr (1, 3, [53, 82, 0])"
    using base58_encode_digits [of "[1, 0]" 5] by (simp add: b58_digit_def b58digits_ordered_def)
  then have "libp2p_crypto_encoding_base58_decode [53, 82, 0] (length [1, 0 :: byte]) =
      Inr ([1, 0], length [1, 0 :: byte])"
    by (rule base58_round_trip [rotated 3]) simp_all
  then show ?thesis by (simp add: numeral_2_eq_2)
qed

text \<open>
  Data that begins with a zero byte is never encoded: the call either refuses the size of
  the buffer, or writes the digit one over the caller's pointer.
\<close>

theorem base58_encode_zero_overwrites_pointer:
  assumes "data \<noteq> []" and "hd data = 0"
  shows "(\<exists>m. libp2p_crypto_encoding_base58_encode data n = Inr (0, m, [])) \<or>
    libp2p_crypto_encoding_base58_encode data n = Inl Undefined"
  using assms by (rule base58_encode_leading_zero)

theorem base58_encode_zero_overwrites_pointer_witness:
  "libp2p_crypto_encoding_base58_encode [0] 10 = Inl Undefined"
proof -
  have "\<nexists>m. libp2p_crypto_encoding_base58_encode [0] 10 = Inr (0, m, [])"
    by (simp add: libp2p_crypto_encoding_base58_encode_def)
  then show ?thesis using base58_encode_zero_overwrites_pointer [of "[0]" 10] by simp
qed

end
