(* ===== verification/Cid.thy ===== *)
theory Cid
  imports Protobuf Base58 Multihash "HOL-Library.Product_Lexorder" "HOL-Library.List_Lexorder"
begin

text \<open>
  Content identifiers, \<open>libipfs/cid/cid.c\<close>: the struct with its constructor, copy, protobuf
  coding and order, the conversions from and to base 58, and the reader of binary CIDs.

  The hash and its length are one byte list. A string argument is the list of its bytes,
  the terminating zero left implicit.
\<close>

section \<open>The code\<close>

record cid =
  cid_version :: int
  cid_codec :: int
  cid_hash :: bytes

definition CID_DAG_PROTOBUF :: int where "CID_DAG_PROTOBUF = 0x70"

text \<open>Conversion to a (signed) \<open>char\<close>.\<close>

definition c_char :: "int \<Rightarrow> int" where
  "c_char n = signed_take_bit 7 n"

definition ipfs_cid_new :: "int \<Rightarrow> bytes \<Rightarrow> int \<Rightarrow> cid result" where
  "ipfs_cid_new version hash codec =
     (if malloc_ok (length hash)
      then Inr \<lparr>cid_version = version, cid_codec = c_char codec, cid_hash = hash\<rparr>
      else Inl Failure)"

definition ipfs_cid_copy :: "cid \<Rightarrow> cid result" where
  "ipfs_cid_copy original =
     (if malloc_ok (length (cid_hash original))
      then Inr \<lparr>cid_version = cid_version original, cid_codec = cid_codec original,
                cid_hash = cid_hash original\<rparr>
      else Inl Failure)"

definition ipfs_cid_protobuf_encode_size :: "cid option \<Rightarrow> nat" where
  "ipfs_cid_protobuf_encode_size c =
     (case c of None \<Rightarrow> 0 | Some c \<Rightarrow> 11 + 12 + length (cid_hash c) + 11)"

definition ipfs_cid_protobuf_encode :: "cid option \<Rightarrow> nat \<Rightarrow> bytes result" where
  "ipfs_cid_protobuf_encode c max_len =
     (case c of
        None \<Rightarrow> Inr []
      | Some c \<Rightarrow>
          chain
            [put_varint 1 (word_of_int (cid_version c)) max_len,
             put_varint 2 (word_of_int (cid_codec c)) max_len,
             put_bytes 3 (cid_hash c) max_len] [])"

text \<open>
  The decoder's local variables: the version, the codec (a \<open>char\<close>), and the hash, which has
  no value before its field is read.
\<close>

record cid_locals =
  loc_version :: int
  loc_codec :: int
  loc_hash :: "bytes option"

definition ipfs_cid_field :: "bytes \<Rightarrow> int \<Rightarrow> nat \<Rightarrow> cid_locals \<Rightarrow> (cid_locals \<times> nat) run" where
  "ipfs_cid_field buf field_no pos s =
     (let rest = drop pos buf; remaining = length buf - pos
      in Some
        (if field_no = 1 then
           bind_res (varint_decode rest (c_int (int remaining))) (\<lambda>(v, n).
           Inr (s\<lparr>loc_version := c_int (uint v)\<rparr>, pos + n))
         else if field_no = 2 then
           bind_res (varint_decode rest (c_int (int remaining))) (\<lambda>(v, n).
           Inr (s\<lparr>loc_codec := c_char (uint v)\<rparr>, pos + n))
         else if field_no = 3 then
           bind_res (protobuf_decode_length_delimited rest remaining) (\<lambda>(d, n).
           Inr (s\<lparr>loc_hash := Some d\<rparr>, pos + n))
         else Inr (s, pos)))"

definition ipfs_cid_protobuf_decode :: "bytes \<Rightarrow> cid option run" where
  "ipfs_cid_protobuf_decode buf =
     (if buf = [] then Some (Inr None)
      else
        bind_run
          (pb_decode_loop (ipfs_cid_field buf) buf 0
             \<lparr>loc_version = 0, loc_codec = 0, loc_hash = None\<rparr>)
          (\<lambda>s. case loc_hash s of
             None \<Rightarrow> Some (Inl Undefined)
           | Some hash \<Rightarrow>
               Some (bind_res (ipfs_cid_new (loc_version s) hash (loc_codec s)) (\<lambda>c. Inr (Some c)))))"

text \<open>
  Only a string of 46 characters that begins with \<open>Qm\<close> is decoded. The hash is the decoded
  multihash without its first two bytes.
\<close>

definition ipfs_cid_decode_hash_from_base58 :: "bytes \<Rightarrow> nat \<Rightarrow> cid result" where
  "ipfs_cid_decode_hash_from_base58 incoming incoming_length =
     (if incoming_length < 2 then Inl Failure
      else if incoming_length = 46 \<and> incoming ! 0 = 81 \<and> incoming ! 1 = 109 then
        bind_res (libp2p_crypto_encoding_base58_decode incoming
                    (libp2p_crypto_encoding_base58_decode_size incoming_length))
          (\<lambda>(hash, hash_length).
           let n = c_size (int hash_length - 2) in
           if \<not> malloc_ok n then Inl Failure
           else if length (drop 2 hash) < n then Inl Undefined
           else ipfs_cid_new 0 (take n (drop 2 hash)) CID_DAG_PROTOBUF)
      else Inl Failure)"

text \<open>
  The string of an IPFS or IPNS path. \<open>strstr(incoming, "/")\<close> finds the slash the string
  begins with, and that one is overwritten by a zero. The result has the string as the call
  leaves it.
\<close>

definition ipfs_cid_decode_hash_from_ipfs_ipns_string :: "bytes \<Rightarrow> bytes \<times> cid result" where
  "ipfs_cid_decode_hash_from_ipfs_ipns_string incoming =
     (let s = c_string incoming in
      if take 6 s \<noteq> map of_char ''/ipfs/'' \<and> take 6 s \<noteq> map of_char ''/ipns/''
      then (incoming, Inl Failure)
      else
        let slash = length (takeWhile (\<lambda>b. b \<noteq> of_char (CHR ''/'')) s);
            incoming' = incoming[slash := 0];
            base58 = drop 6 incoming'
        in (incoming', ipfs_cid_decode_hash_from_base58 base58 (strlen base58)))"

definition ipfs_cid_hash_to_base58 :: "bytes \<Rightarrow> nat \<Rightarrow> bytes result" where
  "ipfs_cid_hash_to_base58 hash max_buffer_length =
     (let multihash_len = length hash + 2 in
      bind_res (mh_new (replicate multihash_len 0) MH_H_SHA2_256 hash) (\<lambda>(err, multihash).
      if err < 0 then Inl Failure
      else if max_buffer_length < libp2p_crypto_encoding_base58_encode_size multihash_len
      then Inl Failure
      else
        bind_res (libp2p_crypto_encoding_base58_encode multihash max_buffer_length)
          (\<lambda>(ret, size, buffer). if ret = 0 then Inl Failure else Inr buffer)))"

definition ipfs_cid_to_string :: "cid \<Rightarrow> bytes result" where
  "ipfs_cid_to_string c =
     (let str_len = libp2p_crypto_encoding_base58_encode_size (length (cid_hash c)) + 1 in
      if \<not> malloc_ok str_len then Inl Failure
      else
        bind_res (libp2p_crypto_encoding_base58_encode (cid_hash c) str_len)
          (\<lambda>(ret, size, str). if ret = 0 then Inl Failure else Inr str))"

definition ipfs_cid_cast :: "bytes \<Rightarrow> cid result" where
  "ipfs_cid_cast incoming =
     (if length incoming = 34 \<and> incoming ! 0 = 18 \<and> incoming ! 1 = 32 then
        bind_res (mh_multihash_digest incoming (length incoming)) (\<lambda>(err, digest).
        case digest of
          None \<Rightarrow> Inl Undefined
        | Some (hash, hash_length) \<Rightarrow>
            Inr \<lparr>cid_version = 0, cid_codec = CID_DAG_PROTOBUF, cid_hash = take hash_length hash\<rparr>)
      else
        bind_res (varint_decode incoming (c_int (int (length incoming)))) (\<lambda>(v, n).
        let version = c_int (uint v) in
        if n = 0 \<or> 1 < version \<or> version < 0 then Inl Failure
        else
          bind_res (varint_decode (drop n incoming) (c_int (int (length incoming - n)))) (\<lambda>(codec, m).
          if m = 0 then Inl Failure
          else Inr \<lparr>cid_version = version, cid_codec = c_int (uint (ucast codec :: u32)),
                    cid_hash = drop (n + m) incoming\<rparr>)))"

text \<open>The comparison subtracts; a difference of versions or codecs beyond \<open>int\<close> has no meaning.\<close>

fun compare_hashes :: "bytes \<Rightarrow> bytes \<Rightarrow> int" where
  "compare_hashes (x # xs) (y # ys) = (if x \<noteq> y then uint y - uint x else compare_hashes xs ys)"
| "compare_hashes _ _ = 0"

definition int_diff :: "int \<Rightarrow> int \<Rightarrow> int result" where
  "int_diff a b = (if a - b = c_int (a - b) then Inr (a - b) else Inl Undefined)"

definition ipfs_cid_compare :: "cid option \<Rightarrow> cid option \<Rightarrow> int result" where
  "ipfs_cid_compare a b =
     (case (a, b) of
        (None, None) \<Rightarrow> Inr 0
      | (Some a, None) \<Rightarrow> Inr (- 1)
      | (None, Some b) \<Rightarrow> Inr 1
      | (Some a, Some b) \<Rightarrow>
          if cid_version a \<noteq> cid_version b then int_diff (cid_version b) (cid_version a)
          else if cid_codec a \<noteq> cid_codec b then int_diff (cid_codec b) (cid_codec a)
          else if length (cid_hash a) \<noteq> length (cid_hash b)
          then Inr (c_int (int (length (cid_hash b)) - int (length (cid_hash a))))
          else Inr (compare_hashes (cid_hash a) (cid_hash b)))"

section \<open>The wire format of a CID\<close>

definition cid_fields :: "cid \<Rightarrow> wire_field list" where
  "cid_fields c =
     [Varint_Field 1 (word_of_int (cid_version c)), Varint_Field 2 (word_of_int (cid_codec c)),
      Bytes_Field 3 (cid_hash c)]"

text \<open>What a C program can hold: an \<open>int\<close> version. The codec survives up to a \<open>char\<close>.\<close>

definition cid_wf :: "cid \<Rightarrow> bool" where
  "cid_wf c \<longleftrightarrow> - (2 ^ 31) \<le> cid_version c \<and> cid_version c < 2 ^ 31"

definition cid_narrow :: "cid \<Rightarrow> cid" where
  "cid_narrow c = c\<lparr>cid_codec := c_char (cid_codec c)\<rparr>"

fun cid_store :: "wire_field \<Rightarrow> cid_locals \<Rightarrow> cid_locals" where
  "cid_store (Varint_Field k v) s =
     (if k = 1 then s\<lparr>loc_version := c_int (uint v)\<rparr>
      else if k = 2 then s\<lparr>loc_codec := c_char (uint v)\<rparr> else s)"
| "cid_store (Bytes_Field k d) s = (if k = 3 then s\<lparr>loc_hash := Some d\<rparr> else s)"

lemma c_char_idem [simp]: "c_char (c_char n) = c_char n"
  by (simp add: c_char_def)

lemma c_char_u64 [simp]: "c_char (uint (word_of_int n :: u64)) = c_char n"
  unfolding c_char_def uint_word_of_int_eq by (simp add: signed_take_bit_take_bit)

lemma c_int_u64 [simp]: "c_int (uint (word_of_int n :: u64)) = c_int n"
  unfolding c_int_def uint_word_of_int_eq by (simp add: signed_take_bit_take_bit)

lemma cid_decodes_varint:
  assumes "length buf < 2 ^ 31" and "k = 1 \<or> k = 2"
  shows "decodes (ipfs_cid_field buf) buf cid_store (Varint_Field k v)"
  using assms by (auto intro!: decodesI simp: ipfs_cid_field_def Let_def)

lemma cid_decodes:
  assumes "length buf < 2 ^ 31" and "f \<in> set (cid_fields c)"
  shows "fnum f < 2 ^ 28 \<and> decodes (ipfs_cid_field buf) buf cid_store f"
proof -
  have "decodes (ipfs_cid_field buf) buf cid_store (Bytes_Field 3 d)" for d
    using assms(1) by (auto intro!: decodesI simp: ipfs_cid_field_def Let_def)
  then show ?thesis using assms(2) cid_decodes_varint [OF assms(1)]
    by (auto simp: cid_fields_def)
qed

lemma cid_encode_wire:
  assumes fits: "length (wire (cid_fields c)) \<le> n" and n: "n < 2 ^ 31"
  shows "ipfs_cid_protobuf_encode (Some c) n = Inr (wire (cid_fields c))"
  unfolding ipfs_cid_protobuf_encode_def option.case
  by (rule chain_writes [OF _ fits], unfold cid_fields_def)
    (intro writes_intros; use n in simp)

lemma cid_size_enough:
  assumes "ipfs_cid_protobuf_encode_size (Some c) < 2 ^ 31"
  shows "length (wire (cid_fields c)) \<le> ipfs_cid_protobuf_encode_size (Some c)"
  using assms length_bytes_field [of 3 "cid_hash c"]
    length_varint_field [of 1 "word_of_int (cid_version c)"]
    length_varint_field [of 2 "word_of_int (cid_codec c)"]
  by (simp add: cid_fields_def ipfs_cid_protobuf_encode_size_def)

lemma cid_wf_c_int: "cid_wf c \<Longrightarrow> c_int (cid_version c) = cid_version c"
  by (simp add: cid_wf_def c_int_def signed_take_bit_int_eq_self)

lemma cid_decode_wire:
  assumes wf: "cid_wf c" and n: "length (wire (cid_fields c)) < 2 ^ 31"
  shows "ipfs_cid_protobuf_decode (wire (cid_fields c)) = Some (Inr (Some (cid_narrow c)))"
proof -
  let ?s = "\<lparr>loc_version = 0, loc_codec = 0, loc_hash = None\<rparr>"
  have "fold cid_store (cid_fields c) ?s =
      \<lparr>loc_version = cid_version c, loc_codec = c_char (cid_codec c), loc_hash = Some (cid_hash c)\<rparr>"
    using wf by (simp add: cid_fields_def cid_wf_c_int)
  moreover have "length (cid_hash c) < 2 ^ 31"
    using n by (simp add: cid_fields_def field_bytes_def)
  moreover have "wire (cid_fields c) \<noteq> []" by (simp add: cid_fields_def)
  ultimately show ?thesis
    using pb_decode_loop_wire [OF n, of "cid_fields c" _ cid_store 0 ?s] cid_decodes [OF n]
    by (simp add: ipfs_cid_protobuf_decode_def ipfs_cid_new_def malloc_ok_def cid_narrow_def)
qed

text \<open>
  A CID pointer may be null: it is encoded as nothing at all, and that decodes to null.
\<close>

definition cid_opt_fields :: "cid option \<Rightarrow> wire_field list" where
  "cid_opt_fields c = (case c of None \<Rightarrow> [] | Some c \<Rightarrow> cid_fields c)"

definition cid_opt_wf :: "cid option \<Rightarrow> bool" where
  "cid_opt_wf c \<longleftrightarrow> (\<forall>d. c = Some d \<longrightarrow> cid_wf d)"

lemma cid_opt_wf_simps [simp]: "cid_opt_wf None" "cid_opt_wf (Some c) \<longleftrightarrow> cid_wf c"
  by (simp_all add: cid_opt_wf_def)

interpretation cid_codec: pb_codec cid_opt_fields ipfs_cid_protobuf_encode
  ipfs_cid_protobuf_encode_size cid_opt_wf ipfs_cid_protobuf_decode "map_option cid_narrow"
proof
  fix c n
  assume "length (wire (cid_opt_fields c)) \<le> n" and "n < 2 ^ 31"
  then show "ipfs_cid_protobuf_encode c n = Inr (wire (cid_opt_fields c))"
    by (cases c) (simp_all add: cid_opt_fields_def cid_encode_wire ipfs_cid_protobuf_encode_def [of None])
next
  fix c
  assume "ipfs_cid_protobuf_encode_size c < 2 ^ 31"
  then show "length (wire (cid_opt_fields c)) \<le> ipfs_cid_protobuf_encode_size c"
    by (cases c) (simp_all add: cid_opt_fields_def cid_size_enough)
next
  fix c
  assume "cid_opt_wf c" and "length (wire (cid_opt_fields c)) < 2 ^ 31"
  then show "ipfs_cid_protobuf_decode (wire (cid_opt_fields c)) = Some (Inr (map_option cid_narrow c))"
    by (cases c)
      (simp_all add: cid_opt_fields_def cid_decode_wire ipfs_cid_protobuf_decode_def [of "[]"])
qed

lemma cid_field_advances: "advances (ipfs_cid_field buf)"
  by (auto simp: advances_def ipfs_cid_field_def Let_def bind_res_Inr_iff)

lemma cid_decode_terminates: "ipfs_cid_protobuf_decode buf \<noteq> None"
proof (cases "buf = []")
  case False
  have "bind_run (pb_decode_loop (ipfs_cid_field buf) buf 0 s) f \<noteq> None" if "\<And>x. f x \<noteq> None"
    for s and f :: "_ \<Rightarrow> cid option run"
    by (intro bind_run_not_None pb_decode_loop_terminates cid_field_advances that)
  then show ?thesis unfolding ipfs_cid_protobuf_decode_def if_not_P [OF False]
    by this (simp split: option.split)
qed (simp add: ipfs_cid_protobuf_decode_def)

section \<open>The base 58 form\<close>

text \<open>A SHA-256 multihash is a number whose 46 digits begin with \<open>Qm\<close>.\<close>

lemma sha256_multihash_digits:
  assumes "length h = 32"
  shows "length (base58_digits (bytes_value (0x12 # 0x20 # h))) = 46"
    and "take 2 (base58_digits (bytes_value (0x12 # 0x20 # h))) = [23, 44]"
proof -
  let ?V = "bytes_value (0x12 # 0x20 # h)" and ?ds = "base58_digits (bytes_value (0x12 # 0x20 # h))"
  have "?V = 0x1220 * 256 ^ 32 + bytes_value h"
    by (simp add: bytes_value_def be_Cons assms)
  moreover have "bytes_value h < 256 ^ 32" using bytes_value_less [of h] assms by simp
  ultimately have V: "0x1220 * 256 ^ 32 \<le> ?V" "?V < 0x1221 * 256 ^ 32" by simp_all
  have less: "?V < 58 ^ length ?ds"
    using be_less [of ?ds 58] base58_digits_less by (simp add: be_base58_digits)
  have "58 ^ (length ?ds - 1) \<le> ?V" by (rule base58_digits_length) (use V in simp)
  then have "(58 :: nat) ^ (length ?ds - 1) < 58 ^ 46" using V by simp
  then have "length ?ds - 1 < 46" by (rule power_less_imp_less_exp [rotated]) simp
  moreover have "(58 :: nat) ^ 45 < 58 ^ length ?ds" using V(1) less by simp
  then have "45 < length ?ds" by (rule power_less_imp_less_exp [rotated]) simp
  ultimately show len: "length ?ds = 46" by simp
  then obtain a b ds where ds: "?ds = a # b # ds" and l: "length ds = 44"
    by (cases ?ds; cases "tl ?ds") auto
  have ab: "a < 58" "b < 58" and r: "be 58 ds < 58 ^ 44"
    using base58_digits_less [of _ ?V] be_less [of ds 58] unfolding ds l by auto
  have "?V = (a * 58 + b) * 58 ^ 44 + be 58 ds"
    using be_base58_digits [of ?V] unfolding ds by (simp add: be_Cons l algebra_simps)
  then have "?V div 58 ^ 44 = a * 58 + b" using r by simp
  moreover have "?V div 58 ^ 44 = 1378"
    by (rule div_nat_eqI) (use V in simp_all)
  ultimately have "a * 58 + b = 1378" by simp
  then have "a = 23 \<and> b = 44" using ab by presburger
  then show "take 2 ?ds = [23, 44]" by (simp add: ds)
qed

lemma hash_to_base58_eq:
  assumes "length h = 32" and "libp2p_crypto_encoding_base58_encode_size 34 \<le> n"
  shows "ipfs_cid_hash_to_base58 h n =
    Inr (map b58_digit (base58_digits (bytes_value (0x12 # 0x20 # h))) @ [0])"
proof -
  let ?mh = "0x12 # 0x20 # h :: bytes"
  have "mh_new (replicate (length h + 2) 0) MH_H_SHA2_256 h = Inr (0, ?mh)"
    using mh_new_ok [of MH_H_SHA2_256 h "replicate (length h + 2) 0"] assms(1)
    by (simp add: MH_H_SHA2_256_def mh_code_ok_def)
  moreover have "libp2p_crypto_encoding_base58_encode ?mh n =
      Inr (1, 47, map b58_digit (base58_digits (bytes_value ?mh)) @ [0])"
    using base58_encode_digits [of ?mh n] base58_encode_size_greater [of 46 34] assms
      sha256_multihash_digits(1) [OF assms(1)]
    by (simp add: Let_def)
  ultimately show ?thesis using assms
    by (simp add: ipfs_cid_hash_to_base58_def)
qed

lemma b58_digit_Qm: "b58_digit 23 = 81" "b58_digit 44 = 109"
  by (simp_all add: b58_digit_def b58digits_ordered_def)

lemma decode_hash_from_base58_eq:
  assumes "length h = 32"
  shows "ipfs_cid_decode_hash_from_base58
      (map b58_digit (base58_digits (bytes_value (0x12 # 0x20 # h))) @ 0 # rest) 46 =
    Inr \<lparr>cid_version = 0, cid_codec = CID_DAG_PROTOBUF, cid_hash = h\<rparr>"
proof -
  let ?mh = "0x12 # 0x20 # h :: bytes" and ?ds = "base58_digits (bytes_value (0x12 # 0x20 # h))"
  let ?s = "map b58_digit ?ds @ 0 # rest"
  note d = sha256_multihash_digits [OF assms(1)]
  have "?ds ! 0 = 23" "?ds ! 1 = 44"
    using arg_cong [OF d(2), of "\<lambda>xs. xs ! 0"] arg_cong [OF d(2), of "\<lambda>xs. xs ! 1"] by simp_all
  then have Qm: "?s ! 0 = 81" "?s ! 1 = 109"
    using d(1) by (simp_all add: nth_append b58_digit_Qm)
  have sz: "libp2p_crypto_encoding_base58_decode_size 46 = 34"
    using base58_decode_size_eq [of 33 46] by simp
  have "libp2p_crypto_encoding_base58_decode ?s 34 = Inr (?mh, 34)"
    using base58_decode_encoded [of ?mh] assms by (simp add: base58_decode_terminated)
  then show ?thesis using Qm assms
    by (simp add: ipfs_cid_decode_hash_from_base58_def sz c_size_def malloc_ok_def ipfs_cid_new_def
        c_char_def CID_DAG_PROTOBUF_def)
qed

section \<open>The order of CIDs\<close>

text \<open>
  The order \<open>ipfs_cid_compare\<close> sorts by, from the greatest down: version, codec, length of
  the hash, then the hash as bytes.
\<close>

definition cid_key :: "'a cid_scheme \<Rightarrow> int \<times> int \<times> nat \<times> bytes" where
  "cid_key c = (cid_version c, cid_codec c, length (cid_hash c), cid_hash c)"

instantiation cid_ext :: (linorder) linorder
begin

definition less_eq_cid_ext :: "'a cid_ext \<Rightarrow> 'a cid_ext \<Rightarrow> bool" where
  "less_eq_cid_ext a b \<longleftrightarrow> (cid_key a, cid.more a) \<le> (cid_key b, cid.more b)"

definition less_cid_ext :: "'a cid_ext \<Rightarrow> 'a cid_ext \<Rightarrow> bool" where
  "less_cid_ext a b \<longleftrightarrow> (cid_key a, cid.more a) < (cid_key b, cid.more b)"

instance
proof
  fix a b c :: "'a cid_ext"
  show "a < b \<longleftrightarrow> a \<le> b \<and> \<not> b \<le> a"
    unfolding less_eq_cid_ext_def less_cid_ext_def by (rule less_le_not_le)
  show "a \<le> a" by (simp add: less_eq_cid_ext_def)
  show "a \<le> c" if "a \<le> b" "b \<le> c"
    using that unfolding less_eq_cid_ext_def by (rule order_trans)
  show "a = b" if "a \<le> b" "b \<le> a"
  proof -
    have "(cid_key a, cid.more a) = (cid_key b, cid.more b)"
      using that unfolding less_eq_cid_ext_def by (rule order_antisym)
    then show ?thesis by (simp add: cid_key_def)
  qed
  show "a \<le> b \<or> b \<le> a"
    unfolding less_eq_cid_ext_def by (rule linear)
qed

end

lemma cid_less_iff: "(a :: cid) < b \<longleftrightarrow> cid_key a < cid_key b"
  unfolding less_cid_ext_def by (simp add: less_prod_def)

lemma compare_hashes_order:
  "length xs = length ys \<Longrightarrow>
   (compare_hashes xs ys < 0 \<longleftrightarrow> ys < xs) \<and> (compare_hashes xs ys > 0 \<longleftrightarrow> xs < ys)"
  by (induction xs ys rule: list_induct2) (auto simp: word_less_def)

lemma int_diff_order:
  "int_diff a b = Inr r \<Longrightarrow> (r < 0 \<longleftrightarrow> a < b) \<and> (0 < r \<longleftrightarrow> b < a)"
  by (auto simp: int_diff_def split: if_splits)

lemma length_diff_order:
  "m < 2 ^ 31 \<Longrightarrow> n < 2 ^ 31 \<Longrightarrow> c_int (int m - int n) = int m - int n"
  by (simp add: c_int_def signed_take_bit_int_eq_self)

text \<open>CIDs on which no subtraction overflows: version and codec are not negative.\<close>

definition cid_ok :: "cid \<Rightarrow> bool" where
  "cid_ok c \<longleftrightarrow> 0 \<le> cid_version c \<and> cid_version c < 2 ^ 31 \<and> 0 \<le> cid_codec c \<and>
     cid_codec c < 2 ^ 31 \<and> length (cid_hash c) < 2 ^ 31"

lemma int_diff_ok:
  "0 \<le> a \<Longrightarrow> a < 2 ^ 31 \<Longrightarrow> 0 \<le> b \<Longrightarrow> b < 2 ^ 31 \<Longrightarrow> int_diff a b = Inr (a - b)"
  by (simp add: int_diff_def c_int_def signed_take_bit_int_eq_self)

lemma compare_hashes_zero: "length xs = length ys \<Longrightarrow> compare_hashes xs ys = 0 \<longleftrightarrow> xs = ys"
  using compare_hashes_order [of xs ys] by (metis less_irrefl linorder_less_linear)

lemma cid_compare_equal:
  assumes "cid_ok a" and "cid_ok b"
  shows "\<exists>r. ipfs_cid_compare (Some a) (Some b) = Inr r \<and> (r = 0 \<longleftrightarrow> a = b)"
  using assms compare_hashes_zero [of "cid_hash a" "cid_hash b"]
  by (cases a; cases b) (auto simp: ipfs_cid_compare_def cid_ok_def int_diff_ok length_diff_order)

section \<open>Properties\<close>

text \<open>
  A CID is encoded into a buffer of the estimated size and decoded to itself, when its
  codec fits in a \<open>char\<close>; a larger codec comes back reduced to eight signed bits.
\<close>

theorem cid_round_trip:
  assumes "cid_wf c" and "ipfs_cid_protobuf_encode_size (Some c) < 2 ^ 31"
  shows "\<exists>bs. ipfs_cid_protobuf_encode (Some c) (ipfs_cid_protobuf_encode_size (Some c)) = Inr bs \<and>
    ipfs_cid_protobuf_decode bs = Some (Inr (Some (c\<lparr>cid_codec := c_char (cid_codec c)\<rparr>))) \<and>
    (- 128 \<le> cid_codec c \<and> cid_codec c < 128 \<longrightarrow>
       ipfs_cid_protobuf_decode bs = Some (Inr (Some c)))"
proof -
  have "c_char (cid_codec c) = cid_codec c" if "- 128 \<le> cid_codec c" "cid_codec c < 128"
    unfolding c_char_def by (rule signed_take_bit_int_eq_self) (use that in simp_all)
  moreover have "cid_opt_wf (Some c)" using assms(1) by simp
  ultimately show ?thesis
    using cid_codec.round_trip [of "Some c"] assms(2) by (auto simp: cid_narrow_def)
qed

theorem cid_round_trip_witness:
  "\<exists>bs. ipfs_cid_protobuf_encode
        (Some \<lparr>cid_version = 1, cid_codec = 0x90, cid_hash = [1, 2]\<rparr>) 36 = Inr bs \<and>
    ipfs_cid_protobuf_decode bs =
      Some (Inr (Some \<lparr>cid_version = 1, cid_codec = - 112, cid_hash = [1, 2]\<rparr>))"
  using cid_round_trip [of "\<lparr>cid_version = 1, cid_codec = 0x90, cid_hash = [1, 2]\<rparr>"]
  by (auto simp: cid_wf_def ipfs_cid_protobuf_encode_size_def c_char_def)

text \<open>
  A message that holds a version or a codec but no hash makes the decoder use a hash
  pointer that was never set.
\<close>

theorem cid_decode_without_hash:
  assumes "fs \<noteq> []" and "\<forall>f \<in> set fs. \<exists>k v. f = Varint_Field k v \<and> (k = 1 \<or> k = 2)"
    and "length (wire fs) < 2 ^ 31"
  shows "ipfs_cid_protobuf_decode (wire fs) = Some (Inl Undefined)"
proof -
  let ?s = "\<lparr>loc_version = 0, loc_codec = 0, loc_hash = None\<rparr>"
  have "fnum f < 2 ^ 28 \<and> decodes (ipfs_cid_field (wire fs)) (wire fs) cid_store f"
    if "f \<in> set fs" for f
  proof -
    from bspec [OF assms(2) that] obtain k v where "f = Varint_Field k v" "k = 1 \<or> k = 2"
      by (elim exE conjE)
    then show ?thesis using cid_decodes_varint [OF assms(3)] by auto
  qed
  then have "pb_decode_loop (ipfs_cid_field (wire fs)) (wire fs) 0 ?s =
      Some (Inr (fold cid_store fs ?s))"
    using assms(3) by (intro pb_decode_loop_wire) auto
  moreover have "loc_hash (fold cid_store fs s) = loc_hash s"
    if "\<forall>f \<in> set fs. \<exists>k v. f = Varint_Field k v \<and> (k = 1 \<or> k = 2)" for fs s
    using that by (induction fs arbitrary: s) auto
  moreover have "wire fs \<noteq> []" using assms(1) by (cases fs) simp_all
  ultimately show ?thesis using assms(2) by (simp add: ipfs_cid_protobuf_decode_def)
qed

theorem cid_decode_without_hash_witness:
  "ipfs_cid_protobuf_decode [8, 1] = Some (Inl Undefined)"
  using cid_decode_without_hash [of "[Varint_Field 1 1]"]
  by (simp add: field_bytes_def leb128_small)

text \<open>
  The base 58 form of a 32-byte hash is a string of 46 characters that begins with
  \<open>Qm\<close>, and reading it gives the version 0 CID of that hash.
\<close>

theorem cid_base58_round_trip:
  assumes "length h = 32" and "libp2p_crypto_encoding_base58_encode_size 34 \<le> n"
  shows "\<exists>s. ipfs_cid_hash_to_base58 h n = Inr (s @ [0]) \<and> length s = 46 \<and>
    take 2 s = map of_char ''Qm'' \<and>
    ipfs_cid_decode_hash_from_base58 (s @ [0]) 46 =
      Inr \<lparr>cid_version = 0, cid_codec = CID_DAG_PROTOBUF, cid_hash = h\<rparr>"
proof -
  let ?s = "map b58_digit (base58_digits (bytes_value (0x12 # 0x20 # h)))"
  have "take 2 ?s = [81, 109]"
    using sha256_multihash_digits(2) [OF assms(1)] by (simp add: take_map b58_digit_Qm)
  then show ?thesis
    using hash_to_base58_eq [OF assms] sha256_multihash_digits(1) [OF assms(1)]
      decode_hash_from_base58_eq [OF assms(1), of "[]"]
    by (intro exI [of _ ?s]) simp
qed

theorem cid_base58_round_trip_witness:
  "\<exists>s. ipfs_cid_hash_to_base58 (replicate 32 7) 100 = Inr (s @ [0]) \<and> length s = 46 \<and>
    take 2 s = map of_char ''Qm'' \<and>
    ipfs_cid_decode_hash_from_base58 (s @ [0]) 46 =
      Inr \<lparr>cid_version = 0, cid_codec = CID_DAG_PROTOBUF, cid_hash = replicate 32 7\<rparr>"
  by (rule cid_base58_round_trip) (use base58_encode_size_le [of 34] in simp_all)

text \<open>
  An IPFS path with something behind the hash is refused, although the code means to cut
  the path there: the slash it looks for is the one the string begins with.
\<close>

theorem cid_path_with_rest_refused:
  assumes "length b = 46" and "0 \<notin> set b" and "0 \<notin> set path"
  shows "snd (ipfs_cid_decode_hash_from_ipfs_ipns_string
    (map of_char ''/ipfs/'' @ b @ of_char (CHR ''/'') # path)) = Inl Failure"
proof -
  have "c_string (b @ 47 # path) = b @ 47 # path" using assms by simp
  moreover have "c_string (47 # 105 # 112 # 102 # 115 # 47 # b @ 47 # path) =
      47 # 105 # 112 # 102 # 115 # 47 # b @ 47 # path"
    using assms by simp
  ultimately show ?thesis using assms(1)
    by (simp add: ipfs_cid_decode_hash_from_ipfs_ipns_string_def strlen_def
        ipfs_cid_decode_hash_from_base58_def)
qed

theorem cid_path_with_rest_refused_witness:
  "snd (ipfs_cid_decode_hash_from_ipfs_ipns_string
    (map of_char ''/ipfs/'' @ replicate 46 81 @ of_char (CHR ''/'') # [97])) = Inl Failure"
  by (rule cid_path_with_rest_refused) simp_all

text \<open>
  The reader of binary CIDs gives back the fields of a version 0 or 1 CID written as two
  varints and the hash, unless it looks like a bare SHA-256 multihash; that one is read as
  version 0.
\<close>

theorem cid_cast_reads:
  assumes "v < 2" and "k < 2 ^ 31" and "length (leb128 v @ leb128 k @ h) < 2 ^ 31"
  shows "ipfs_cid_cast (leb128 v @ leb128 k @ h) =
      Inr \<lparr>cid_version = int v, cid_codec = int k, cid_hash = h\<rparr> \<and>
    (length d = 32 \<longrightarrow> ipfs_cid_cast (0x12 # 0x20 # d) =
      Inr \<lparr>cid_version = 0, cid_codec = CID_DAG_PROTOBUF, cid_hash = d\<rparr>)"
proof
  let ?bs = "leb128 v @ leb128 k @ h"
  have v: "leb128 v = [of_nat v]" using assms(1) by (simp add: leb128_small)
  have 1: "varint_decode ?bs (c_int (int (length ?bs))) = Inr (of_nat v, length (leb128 v))"
    by (rule varint_decode_nat) (use assms in \<open>simp_all add: c_arith\<close>)
  have 2: "varint_decode (leb128 k @ h) (c_int (int (length (leb128 k @ h)))) =
      Inr (of_nat k, length (leb128 k))"
    by (rule varint_decode_nat) (use assms in \<open>simp_all add: c_arith\<close>)
  have "v = 0 \<or> v = 1" using assms(1) by auto
  moreover have "leb128 0 = [0]" "leb128 (Suc 0) = [1]" by (simp_all add: leb128_small)
  moreover have "uint (ucast (of_nat k :: u64) :: u32) = int k"
    using assms(2) by (simp add: uint_nat unsigned_ucast_eq unat_of_nat take_bit_nat_eq_self)
  ultimately show "ipfs_cid_cast ?bs = Inr \<lparr>cid_version = int v, cid_codec = int k, cid_hash = h\<rparr>"
    using 1 2 assms(2) unfolding ipfs_cid_cast_def
    by (elim disjE) (simp_all add: c_arith Let_def)
next
  show "length d = 32 \<longrightarrow> ipfs_cid_cast (0x12 # 0x20 # d) =
      Inr \<lparr>cid_version = 0, cid_codec = CID_DAG_PROTOBUF, cid_hash = d\<rparr>"
    by (simp add: ipfs_cid_cast_def mh_multihash_digest_def mh_multihash_length_def
        check_multihash_def check_len_def mh_errors c_size_def)
qed

theorem cid_cast_reads_witness:
  "ipfs_cid_cast [1, 0x70, 5, 6] = Inr \<lparr>cid_version = 1, cid_codec = 0x70, cid_hash = [5, 6]\<rparr>"
  using cid_cast_reads [of 1 "0x70" "[5, 6]"] by (simp add: leb128_small)

text \<open>
  \<open>ipfs_cid_compare\<close> is the total order of CIDs, descending: for hashes below 2 GiB the
  result, when the subtractions have one, is negative exactly when the first is the greater,
  positive when the second is, and zero only for equal CIDs.
\<close>

theorem cid_compare_order:
  assumes "ipfs_cid_compare (Some a) (Some b) = Inr r"
    and "length (cid_hash a) < 2 ^ 31" and "length (cid_hash b) < 2 ^ 31"
  shows "(r < 0 \<longleftrightarrow> b < a) \<and> (r = 0 \<longleftrightarrow> a = b) \<and> (0 < r \<longleftrightarrow> a < b)"
proof -
  have "(r < 0 \<longleftrightarrow> b < a) \<and> (0 < r \<longleftrightarrow> a < b)"
    using assms compare_hashes_order [of "cid_hash a" "cid_hash b"]
    unfolding cid_less_iff cid_key_def
    by (auto simp: ipfs_cid_compare_def length_diff_order dest: int_diff_order split: if_splits)
  then show ?thesis by (metis linorder_less_linear not_less_iff_gr_or_eq)
qed

theorem cid_compare_order_witness:
  "\<lparr>cid_version = 0, cid_codec = 0x70, cid_hash = [1, 2]\<rparr> <
    \<lparr>cid_version = 0, cid_codec = 0x70, cid_hash = [1, 3]\<rparr>"
  using cid_compare_order [of "\<lparr>cid_version = 0, cid_codec = 0x70, cid_hash = [1, 2]\<rparr>"
      "\<lparr>cid_version = 0, cid_codec = 0x70, cid_hash = [1, 3]\<rparr>" 1]
  by (simp add: ipfs_cid_compare_def)

end
