(* ===== verification/Peer_Id.thy ===== *)
theory Peer_Id
  imports Crypto_Key Cid
begin

text \<open>
  Peer ids: \<open>PrettyID\<close> of \<open>libp2p/crypto/peerutils.c\<close>, the base 58 form of the multihash of
  a digest, and \<open>libp2p_crypto_public_key_to_peer_id\<close> of \<open>libp2p/crypto/key.c\<close>. SHA-256 is
  the crypto library's function, a parameter.
\<close>

section \<open>The code\<close>

text \<open>
  The multihash is built in a zeroed buffer of \<open>rezbuflen\<close> bytes and its length is taken by
  \<open>strlen\<close>. The result is the string stored and \<open>*rezbuflen\<close>.
\<close>

definition PrettyID :: "nat \<Rightarrow> bytes \<Rightarrow> (bytes \<times> nat) result" where
  "PrettyID rezbuflen ID_BUF =
     bind_res (mh_new (replicate rezbuflen 0) MH_H_SHA2_256 ID_BUF) (\<lambda>(err, temp_buffer).
     if err < 0 then Inl Failure
     else if 0 \<notin> set temp_buffer then Inl Undefined
     else
       bind_res (libp2p_crypto_encoding_base58_encode (c_string temp_buffer) rezbuflen)
         (\<lambda>(ret, size, out). if ret = 0 then Inl Failure else Inr (out, size)))"

definition libp2p_crypto_public_key_to_peer_id :: "(bytes \<Rightarrow> bytes) \<Rightarrow> crypto_key \<Rightarrow> bytes result" where
  "libp2p_crypto_public_key_to_peer_id sha256 public_key =
     bind_res
       (libp2p_crypto_public_key_protobuf_encode public_key
          (libp2p_crypto_public_key_protobuf_encode_size public_key)) (\<lambda>protobuf.
     bind_res (PrettyID 100 (sha256 protobuf)) (\<lambda>(final_id, final_id_size).
     if malloc_ok (final_id_size + 1) then Inr (take final_id_size final_id @ [0])
     else Inl Failure))"

section \<open>Ids of digests\<close>

lemma PrettyID_no_zero:
  assumes "length h = 32" and "0 \<notin> set h"
  shows "PrettyID 100 h =
    Inr (map b58_digit (base58_digits (bytes_value (0x12 # 0x20 # h))) @ [0], 47)"
proof -
  let ?mh = "0x12 # 0x20 # h :: bytes"
  have "mh_new (replicate 100 0) MH_H_SHA2_256 h = Inr (0, ?mh @ replicate 66 0)"
    using mh_new_ok [of MH_H_SHA2_256 h "replicate 100 0"] assms(1)
    by (simp add: MH_H_SHA2_256_def mh_code_ok_def)
  moreover have "c_string (?mh @ replicate 66 0) = ?mh"
    using c_string_terminated [of ?mh "replicate 65 0"] assms(2)
    by (simp flip: replicate_Suc)
  moreover have "libp2p_crypto_encoding_base58_encode ?mh 100 =
      Inr (1, 47, map b58_digit (base58_digits (bytes_value ?mh)) @ [0])"
    using base58_encode_digits [of ?mh 100] sha256_multihash_digits(1) [OF assms(1)] assms(1)
    by (simp add: Let_def)
  moreover have "0 \<in> set (?mh @ replicate 66 0)" by simp
  ultimately show ?thesis by (simp add: PrettyID_def)
qed

lemma PrettyID_cut:
  assumes "length p + length q \<le> 126" and "length p + length q + 3 \<le> n"
  shows "PrettyID n (p @ 0 # q) =
    bind_res (libp2p_crypto_encoding_base58_encode
        (c_string (0x12 # of_nat (length p + length q + 1) # p)) n)
      (\<lambda>(ret, size, out). if ret = 0 then Inl Failure else Inr (out, size))"
proof -
  let ?mh = "0x12 # of_nat (length (p @ 0 # q)) # (p @ 0 # q) @
      drop (2 + length (p @ 0 # q)) (replicate n 0) :: bytes"
  have "mh_new (replicate n 0) MH_H_SHA2_256 (p @ 0 # q) = Inr (0, ?mh)"
    using mh_new_ok [of MH_H_SHA2_256 "p @ 0 # q" "replicate n 0"] assms
    by (simp add: MH_H_SHA2_256_def mh_code_ok_def)
  moreover have "0 \<in> set ?mh" by simp
  moreover have "c_string ?mh = c_string (0x12 # of_nat (length p + length q + 1) # p)"
    using c_string_terminated [of "0x12 # of_nat (length p + length q + 1) # p"
        "q @ drop (2 + length (p @ 0 # q)) (replicate n 0)"]
    by simp
  ultimately show ?thesis by (simp add: PrettyID_def)
qed

section \<open>Properties\<close>

text \<open>
  When the hash of a public key has no zero byte, the peer id of the key is the base 58
  form of the hash's multihash: 46 characters from which the hash can be read back.
\<close>

theorem peer_id_of_key:
  assumes "libp2p_crypto_public_key_protobuf_encode k
      (libp2p_crypto_public_key_protobuf_encode_size k) = Inr bs"
    and "length (sha256 bs) = 32" and "0 \<notin> set (sha256 bs)"
  shows "\<exists>s. libp2p_crypto_public_key_to_peer_id sha256 k = Inr (s @ [0, 0]) \<and> length s = 46 \<and>
    ipfs_cid_decode_hash_from_base58 (s @ [0, 0]) 46 =
      Inr \<lparr>cid_version = 0, cid_codec = CID_DAG_PROTOBUF, cid_hash = sha256 bs\<rparr>"
proof -
  let ?s = "map b58_digit (base58_digits (bytes_value (0x12 # 0x20 # sha256 bs)))"
  have l: "length ?s = 46" using sha256_multihash_digits(1) [OF assms(2)] by simp
  have "libp2p_crypto_public_key_to_peer_id sha256 k = Inr (?s @ [0, 0])"
    using l by (simp add: libp2p_crypto_public_key_to_peer_id_def assms PrettyID_no_zero malloc_ok_def)
  then show ?thesis using l decode_hash_from_base58_eq [OF assms(2), of "[0]"]
    by (intro exI [of _ ?s]) simp
qed

theorem peer_id_of_key_witness:
  "\<exists>s. libp2p_crypto_public_key_to_peer_id (\<lambda>m. replicate 32 (7 + of_nat (length m)))
      \<lparr>key_type = KEYTYPE_RSA, key_data = [1, 2]\<rparr> = Inr (s @ [0, 0]) \<and> length s = 46"
proof -
  let ?k = "\<lparr>key_type = KEYTYPE_RSA, key_data = [1, 2]\<rparr>"
  obtain bs where "libp2p_crypto_public_key_protobuf_encode ?k
      (libp2p_crypto_public_key_protobuf_encode_size ?k) = Inr bs" and "bs = wire (key_fields ?k)"
    using public_key_codec.enc_estimated [of ?k]
    by (auto simp: libp2p_crypto_public_key_protobuf_encode_size_def)
  moreover have "length (wire (key_fields ?k)) = 6"
    by (simp add: key_fields_def field_bytes_def leb128_small KEYTYPE_RSA_def)
  ultimately show ?thesis
    using peer_id_of_key [of ?k bs "\<lambda>m. replicate 32 (7 + of_nat (length m))"] by auto
qed

text \<open>
  The id of a digest depends only on what comes before its first zero byte. Digests of
  the same length that agree up to there, such as those of two different keys, have the same
  id.
\<close>

theorem peer_id_collision:
  assumes "length q = length q'" and "length p + length q \<le> 126" and "length p + length q + 3 \<le> n"
  shows "PrettyID n (p @ 0 # q) = PrettyID n (p @ 0 # q')"
  using assms PrettyID_cut [of p q n] PrettyID_cut [of p q' n] by simp

theorem peer_id_collision_witness:
  "PrettyID 100 ([5, 6] @ 0 # replicate 29 1) = PrettyID 100 ([5, 6] @ 0 # replicate 29 2)"
  by (rule peer_id_collision) simp_all

end
