(* ===== verification/Cid_Set.thy ===== *)
theory Cid_Set
  imports Cid
begin

text \<open>
  Sets of CIDs, \<open>libipfs/cid/set.c\<close>: a linked list whose head always exists and has no CID
  while the set is empty. A pointer to a node is the chain of nodes from there on, the null
  pointer or a pointer to a node that was freed.
\<close>

section \<open>The code\<close>

datatype cid_set =
    Set_Null
  | Set_Freed
  | Set_Node "cid option" cid_set

definition ErrInvalidParam :: int where "ErrInvalidParam = 19"

definition ipfs_cid_set_new :: cid_set where
  "ipfs_cid_set_new = Set_Node None Set_Null"

fun ipfs_cid_set_destroy :: "cid_set \<Rightarrow> cid_set result" where
  "ipfs_cid_set_destroy Set_Null = Inr Set_Null"
| "ipfs_cid_set_destroy Set_Freed = Inl Undefined"
| "ipfs_cid_set_destroy (Set_Node c next) = ipfs_cid_set_destroy next"

text \<open>
  The loop of \<open>add\<close>. A set holds one CID per hash, whatever its version and codec; \<open>visit\<close>
  keeps the CID that is there. A failed allocation (\<open>ErrAllocFailed\<close>) is \<open>Failure\<close>.
\<close>

fun cid_set_add_loop :: "cid_set \<Rightarrow> cid \<Rightarrow> bool \<Rightarrow> (int \<times> cid_set) result" where
  "cid_set_add_loop Set_Null cid visit = Inl Undefined"
| "cid_set_add_loop Set_Freed cid visit = Inl Undefined"
| "cid_set_add_loop (Set_Node None next) cid visit = Inl Undefined"
| "cid_set_add_loop (Set_Node (Some c) next) cid visit =
     (if cid_hash c = cid_hash cid then
        (if visit then Inr (0, Set_Node (Some c) next)
         else if malloc_ok (length (cid_hash cid)) then Inr (0, Set_Node (Some cid) next)
         else Inl Failure)
      else if next = Set_Null then
        (if malloc_ok (length (cid_hash cid))
         then Inr (0, Set_Node (Some c) (Set_Node (Some cid) Set_Null))
         else Inl Failure)
      else
        bind_res (cid_set_add_loop next cid visit) (\<lambda>(err, next').
        Inr (err, Set_Node (Some c) next')))"

definition ipfs_cid_set_add :: "cid_set \<Rightarrow> cid option \<Rightarrow> bool \<Rightarrow> (int \<times> cid_set) result" where
  "ipfs_cid_set_add s cid visit =
     (case (s, cid) of
        (Set_Null, _) \<Rightarrow> Inr (ErrInvalidParam, s)
      | (_, None) \<Rightarrow> Inr (ErrInvalidParam, s)
      | (Set_Freed, _) \<Rightarrow> Inl Undefined
      | (Set_Node None next, Some c) \<Rightarrow>
          if malloc_ok (length (cid_hash c)) then Inr (0, Set_Node (Some c) next)
          else Inl Failure
      | (Set_Node (Some d) next, Some c) \<Rightarrow> cid_set_add_loop s c visit)"

fun cid_set_has_loop :: "cid_set \<Rightarrow> cid \<Rightarrow> bool result" where
  "cid_set_has_loop (Set_Node (Some c) next) cid =
     (if cid_hash c = cid_hash cid then Inr True
      else if next = Set_Null then Inr False
      else cid_set_has_loop next cid)"
| "cid_set_has_loop _ cid = Inl Undefined"

definition ipfs_cid_set_has :: "cid_set \<Rightarrow> cid option \<Rightarrow> bool result" where
  "ipfs_cid_set_has s cid =
     (case (s, cid) of
        (Set_Null, _) \<Rightarrow> Inr False
      | (_, None) \<Rightarrow> Inr False
      | (Set_Freed, _) \<Rightarrow> Inl Undefined
      | (Set_Node None next, Some c) \<Rightarrow> Inr False
      | (Set_Node (Some d) next, Some c) \<Rightarrow> cid_set_has_loop s c)"

text \<open>
  Removing from the second node on unlinks the node; removing the first one moves the second
  node's CID into it and frees the second node, whose pointer stays in \<open>next\<close>.
\<close>

fun cid_set_remove_loop :: "cid_set \<Rightarrow> cid \<Rightarrow> (bool \<times> cid_set) result" where
  "cid_set_remove_loop (Set_Node (Some c) next) cid =
     (if cid_hash c = cid_hash cid then Inr (True, next)
      else if next = Set_Null then Inr (False, Set_Node (Some c) next)
      else
        bind_res (cid_set_remove_loop next cid) (\<lambda>(ret, next').
        Inr (ret, Set_Node (Some c) next')))"
| "cid_set_remove_loop _ cid = Inl Undefined"

definition ipfs_cid_set_remove :: "cid_set \<Rightarrow> cid option \<Rightarrow> (bool \<times> cid_set) result" where
  "ipfs_cid_set_remove s cid =
     (case (s, cid) of
        (Set_Null, _) \<Rightarrow> Inr (False, s)
      | (_, None) \<Rightarrow> Inr (False, s)
      | (Set_Freed, _) \<Rightarrow> Inl Undefined
      | (Set_Node None next, Some c) \<Rightarrow> Inr (False, s)
      | (Set_Node (Some d) next, Some c) \<Rightarrow>
          if cid_hash d = cid_hash c then
            (case next of
               Set_Null \<Rightarrow> Inr (True, Set_Node None Set_Null)
             | Set_Freed \<Rightarrow> Inl Undefined
             | Set_Node e next' \<Rightarrow> Inr (True, Set_Node e Set_Freed))
          else cid_set_remove_loop s c)"

fun cid_set_count :: "cid_set \<Rightarrow> nat result" where
  "cid_set_count Set_Null = Inr 0"
| "cid_set_count Set_Freed = Inl Undefined"
| "cid_set_count (Set_Node c next) = bind_res (cid_set_count next) (\<lambda>n. Inr (Suc n))"

definition ipfs_cid_set_len :: "cid_set \<Rightarrow> nat result" where
  "ipfs_cid_set_len s =
     (case s of
        Set_Null \<Rightarrow> Inr 0
      | Set_Freed \<Rightarrow> Inl Undefined
      | Set_Node None next \<Rightarrow> Inr 0
      | Set_Node (Some c) next \<Rightarrow> cid_set_count s)"

text \<open>
  The loop of \<open>keys\<close>, \<open>for (i = 0; i < len; len++)\<close>: it increments the bound instead of
  the index, and takes \<open>set->next\<close> of whatever pointer it has reached.
\<close>

fun cid_set_keys_loop :: "cid_set \<Rightarrow> nat \<Rightarrow> nat \<Rightarrow> bytes option list \<Rightarrow> bytes option list result" where
  "cid_set_keys_loop (Set_Node c next) i len ret =
     (if i < len
      then cid_set_keys_loop next i (len + 1)
             (case c of None \<Rightarrow> ret | Some c \<Rightarrow> ret[i := Some (cid_hash c)])
      else Inr ret)"
| "cid_set_keys_loop _ i len ret = (if i < len then Inl Undefined else Inr ret)"

definition ipfs_cid_set_keys :: "cid_set \<Rightarrow> bytes option list result" where
  "ipfs_cid_set_keys s =
     bind_res (ipfs_cid_set_len s) (\<lambda>len.
     cid_set_keys_loop s 0 len (replicate (len + 1) None))"

fun ipfs_cid_set_foreach :: "cid_set \<Rightarrow> (cid \<Rightarrow> int) \<Rightarrow> int \<Rightarrow> int result" where
  "ipfs_cid_set_foreach Set_Null func err = Inr err"
| "ipfs_cid_set_foreach Set_Freed func err = Inl Undefined"
| "ipfs_cid_set_foreach (Set_Node c next) func err =
     (case c of
        None \<Rightarrow> ipfs_cid_set_foreach next func err
      | Some c \<Rightarrow>
          let err' = func c in
          if err' \<noteq> 0 then Inr err' else ipfs_cid_set_foreach next func err')"

section \<open>The set a list stands for\<close>

text \<open>A proper set: the empty head, or a chain of CIDs, which \<open>set_of\<close> builds from a list.\<close>

fun nodes :: "cid list \<Rightarrow> cid_set" where
  "nodes [] = Set_Null"
| "nodes (c # cs) = Set_Node (Some c) (nodes cs)"

definition set_of :: "cid list \<Rightarrow> cid_set" where
  "set_of cs = (if cs = [] then ipfs_cid_set_new else nodes cs)"

text \<open>The specification: one CID per hash, in the order of their first insertion.\<close>

definition cids_add :: "cid list \<Rightarrow> cid \<Rightarrow> bool \<Rightarrow> cid list" where
  "cids_add cs c visit =
     (if cid_hash c \<notin> cid_hash ` set cs then cs @ [c]
      else if visit then cs
      else map (\<lambda>d. if cid_hash d = cid_hash c then c else d) cs)"

definition cids_remove :: "cid list \<Rightarrow> cid \<Rightarrow> cid list" where
  "cids_remove cs c = filter (\<lambda>d. cid_hash d \<noteq> cid_hash c) cs"

definition hashes_distinct :: "cid list \<Rightarrow> bool" where
  "hashes_distinct cs \<longleftrightarrow> distinct (map cid_hash cs)"

lemma nodes_Null [simp]: "nodes cs = Set_Null \<longleftrightarrow> cs = []"
  by (cases cs) simp_all

lemma add_loop_nodes:
  assumes "malloc_ok (length (cid_hash c))" and "cs \<noteq> []" and "hashes_distinct cs"
  shows "cid_set_add_loop (nodes cs) c visit = Inr (0, nodes (cids_add cs c visit))"
  using assms(2,3)
proof (induction cs)
  case (Cons d cs)
  have same: "map (\<lambda>d. if cid_hash d = cid_hash c then c else d) cs = cs"
    if "cid_hash d = cid_hash c"
    using Cons.prems(2) that by (intro map_idI) (auto simp: hashes_distinct_def image_iff)
  show ?case
    using Cons assms(1) same by (cases cs) (auto simp: cids_add_def hashes_distinct_def)
qed simp

lemma add_set_of:
  assumes "malloc_ok (length (cid_hash c))" and "hashes_distinct cs"
  shows "ipfs_cid_set_add (set_of cs) (Some c) visit = Inr (0, set_of (cids_add cs c visit))"
proof (cases cs)
  case Nil
  then show ?thesis using assms(1)
    by (simp add: set_of_def ipfs_cid_set_new_def ipfs_cid_set_add_def cids_add_def)
next
  case (Cons d ds)
  have "cids_add cs c visit \<noteq> []" using Cons by (simp add: cids_add_def)
  then show ?thesis using add_loop_nodes [OF assms(1) _ assms(2), of visit] Cons
    by (simp add: set_of_def ipfs_cid_set_add_def)
qed

lemma hashes_distinct_add: "hashes_distinct cs \<Longrightarrow> hashes_distinct (cids_add cs c visit)"
proof -
  assume d: "hashes_distinct cs"
  have "map cid_hash (map (\<lambda>d. if cid_hash d = cid_hash c then c else d) cs) = map cid_hash cs"
    by simp
  with d show ?thesis by (auto simp: hashes_distinct_def cids_add_def simp del: map_map)
qed

lemma hashes_distinct_remove: "hashes_distinct cs \<Longrightarrow> hashes_distinct (cids_remove cs c)"
  by (simp add: hashes_distinct_def cids_remove_def distinct_map_filter)

lemma has_set_of:
  "ipfs_cid_set_has (set_of cs) (Some c) = Inr (cid_hash c \<in> cid_hash ` set cs)"
proof -
  have "cs \<noteq> [] \<Longrightarrow> cid_set_has_loop (nodes cs) c = Inr (cid_hash c \<in> cid_hash ` set cs)"
    by (induction cs) auto
  then show ?thesis
    by (cases cs) (simp_all add: set_of_def ipfs_cid_set_has_def ipfs_cid_set_new_def)
qed

lemma len_set_of: "ipfs_cid_set_len (set_of cs) = Inr (length cs)"
proof -
  have "cid_set_count (nodes cs) = Inr (length cs)" by (induction cs) simp_all
  then show ?thesis
    by (cases cs) (simp_all add: set_of_def ipfs_cid_set_len_def ipfs_cid_set_new_def)
qed

lemma remove_set_of:
  assumes "hashes_distinct (d # ds)" and "cid_hash d \<noteq> cid_hash c"
  shows "ipfs_cid_set_remove (set_of (d # ds)) (Some c) =
    Inr (cid_hash c \<in> cid_hash ` set ds, set_of (cids_remove (d # ds) c))"
proof -
  have "cid_set_remove_loop (nodes cs) c = Inr (cid_hash c \<in> cid_hash ` set cs, nodes (cids_remove cs c))"
    if "cs \<noteq> []" "hashes_distinct cs" for cs
    using that
  proof (induction cs)
    case (Cons e es)
    have "filter (\<lambda>d. cid_hash d \<noteq> cid_hash c) es = es" if "cid_hash e = cid_hash c"
      using Cons.prems(2) that by (intro filter_True) (auto simp: hashes_distinct_def image_iff)
    then show ?case using Cons by (cases es) (auto simp: cids_remove_def hashes_distinct_def)
  qed simp
  from this [OF _ assms(1)] show ?thesis using assms(2)
    by (simp add: set_of_def ipfs_cid_set_remove_def cids_remove_def)
qed

section \<open>Properties\<close>

text \<open>
  Adding to a set refines insertion by hash: a new hash goes to the end, a known one is
  replaced, or kept when the caller only visits. The set then has exactly the hashes it had
  and the new one, once each, and its length is their number.
\<close>

theorem cid_set_add_refines:
  assumes "hashes_distinct cs" and "malloc_ok (length (cid_hash c))"
  shows "\<exists>cs'. ipfs_cid_set_add (set_of cs) (Some c) visit = Inr (0, set_of cs') \<and>
    cs' = cids_add cs c visit \<and> hashes_distinct cs' \<and>
    ipfs_cid_set_has (set_of cs') (Some d) =
      Inr (cid_hash d = cid_hash c \<or> cid_hash d \<in> cid_hash ` set cs) \<and>
    ipfs_cid_set_len (set_of cs') =
      Inr (if cid_hash c \<in> cid_hash ` set cs then length cs else length cs + 1)"
proof -
  have "cid_hash ` set (cids_add cs c visit) = insert (cid_hash c) (cid_hash ` set cs)"
    by (auto simp: cids_add_def image_iff)
  then show ?thesis
    using add_set_of [OF assms(2,1)] hashes_distinct_add [OF assms(1)]
    by (simp add: has_set_of len_set_of) (simp add: cids_add_def)
qed

theorem cid_set_add_refines_witness:
  "\<exists>s. ipfs_cid_set_add ipfs_cid_set_new
      (Some \<lparr>cid_version = 0, cid_codec = 0x70, cid_hash = [1, 2]\<rparr>) False = Inr (0, s) \<and>
    ipfs_cid_set_len s = Inr 1"
  using cid_set_add_refines [of "[]" "\<lparr>cid_version = 0, cid_codec = 0x70, cid_hash = [1, 2]\<rparr>" False]
  by (auto simp: hashes_distinct_def malloc_ok_def set_of_def)

text \<open>
  Removing a CID that is not the first one removes exactly its hash, and says whether it
  was there.
\<close>

theorem cid_set_remove_refines:
  assumes "hashes_distinct (d # ds)" and "cid_hash d \<noteq> cid_hash c"
  shows "ipfs_cid_set_remove (set_of (d # ds)) (Some c) =
      Inr (cid_hash c \<in> cid_hash ` set ds, set_of (cids_remove (d # ds) c)) \<and>
    ipfs_cid_set_has (set_of (cids_remove (d # ds) c)) (Some c) = Inr False"
  using remove_set_of [OF assms] by (auto simp: has_set_of cids_remove_def)

theorem cid_set_remove_refines_witness:
  "ipfs_cid_set_has (set_of [\<lparr>cid_version = 0, cid_codec = 0x70, cid_hash = [1]\<rparr>])
    (Some \<lparr>cid_version = 0, cid_codec = 0x70, cid_hash = [2]\<rparr>) = Inr False"
  using cid_set_remove_refines [of "\<lparr>cid_version = 0, cid_codec = 0x70, cid_hash = [1]\<rparr>"
      "[\<lparr>cid_version = 0, cid_codec = 0x70, cid_hash = [2]\<rparr>]"
      "\<lparr>cid_version = 0, cid_codec = 0x70, cid_hash = [2]\<rparr>"]
  by (simp add: hashes_distinct_def cids_remove_def)

text \<open>
  Removing the first of several CIDs leaves a set that points to freed memory: counting
  it, removing the new first one, or looking for a hash that is not the first uses the freed
  node.
\<close>

theorem cid_set_remove_first_dangles:
  assumes "cid_hash d = cid_hash c"
  shows "\<exists>s. ipfs_cid_set_remove (set_of (d # e # ds)) (Some c) = Inr (True, s) \<and>
    ipfs_cid_set_len s = Inl Undefined \<and>
    ipfs_cid_set_remove s (Some e) = Inl Undefined \<and>
    (\<forall>f. cid_hash f \<noteq> cid_hash e \<longrightarrow> ipfs_cid_set_has s (Some f) = Inl Undefined)"
  using assms
  by (auto simp: set_of_def ipfs_cid_set_remove_def ipfs_cid_set_len_def ipfs_cid_set_has_def)

theorem cid_set_remove_first_dangles_witness:
  "\<exists>s. ipfs_cid_set_remove
      (set_of [\<lparr>cid_version = 0, cid_codec = 0x70, cid_hash = [1]\<rparr>,
               \<lparr>cid_version = 0, cid_codec = 0x70, cid_hash = [2]\<rparr>])
      (Some \<lparr>cid_version = 0, cid_codec = 0x70, cid_hash = [1]\<rparr>) = Inr (True, s) \<and>
    ipfs_cid_set_len s = Inl Undefined"
  using cid_set_remove_first_dangles [of "\<lparr>cid_version = 0, cid_codec = 0x70, cid_hash = [1]\<rparr>"
      "\<lparr>cid_version = 0, cid_codec = 0x70, cid_hash = [1]\<rparr>"
      "\<lparr>cid_version = 0, cid_codec = 0x70, cid_hash = [2]\<rparr>" "[]"]
  by blast

text \<open>Listing the keys of a set that is not empty runs off the end of the list.\<close>

theorem cid_set_keys_overruns:
  "ipfs_cid_set_keys (set_of (c # cs)) = Inl Undefined \<and>
   ipfs_cid_set_keys (set_of []) = Inr [None]"
proof -
  have loop: "i < len \<Longrightarrow> cid_set_keys_loop (nodes cs) i len ret = Inl Undefined" for cs i len ret
    by (induction cs arbitrary: len ret) auto
  have "ipfs_cid_set_keys (set_of (c # cs)) =
      cid_set_keys_loop (nodes (c # cs)) 0 (length (c # cs)) (replicate (length (c # cs) + 1) None)"
    unfolding ipfs_cid_set_keys_def len_set_of by (simp add: set_of_def)
  also have "\<dots> = Inl Undefined" by (rule loop) simp
  finally have "ipfs_cid_set_keys (set_of (c # cs)) = Inl Undefined" .
  moreover have "ipfs_cid_set_keys (set_of []) = Inr [None]"
    by (simp add: ipfs_cid_set_keys_def ipfs_cid_set_len_def set_of_def ipfs_cid_set_new_def)
  ultimately show ?thesis by blast
qed

end
