(* ===== verification/Block.thy ===== *)
theory Block
  imports Cid
begin

text \<open>
  Blocks, \<open>libipfs/blocks/block.c\<close>: data with the CID that names it. SHA-256 is the crypto
  library's function, a parameter.
\<close>

section \<open>The code\<close>

record ipfs_block =
  block_cid :: "cid option"
  block_data :: bytes

definition ipfs_block_new :: ipfs_block where
  "ipfs_block_new = \<lparr>block_cid = None, block_data = []\<rparr>"

definition ipfs_blocks_block_protobuf_encode_size :: "ipfs_block \<Rightarrow> nat" where
  "ipfs_blocks_block_protobuf_encode_size b =
     22 + ipfs_cid_protobuf_encode_size (block_cid b) + length (block_data b)"

definition ipfs_blocks_block_protobuf_encode :: "ipfs_block \<Rightarrow> nat \<Rightarrow> bytes result" where
  "ipfs_blocks_block_protobuf_encode b max_len =
     chain
       [put_bytes 1 (block_data b) max_len,
        put_message ipfs_cid_protobuf_encode_size ipfs_cid_protobuf_encode 2 (block_cid b) max_len] []"

definition ipfs_block_field :: "bytes \<Rightarrow> int \<Rightarrow> nat \<Rightarrow> ipfs_block \<Rightarrow> (ipfs_block \<times> nat) run" where
  "ipfs_block_field buf field_no pos b =
     (let rest = drop pos buf; remaining = length buf - pos
      in
        if field_no = 1 then
          bind_run (Some (protobuf_decode_length_delimited rest remaining)) (\<lambda>(d, n).
          Some (Inr (b\<lparr>block_data := d\<rparr>, pos + n)))
        else if field_no = 2 then
          bind_run (Some (protobuf_decode_length_delimited rest remaining)) (\<lambda>(d, n).
          bind_run (ipfs_cid_protobuf_decode d) (\<lambda>c.
          Some (Inr (b\<lparr>block_cid := c\<rparr>, pos + n))))
        else Some (Inr (b, pos)))"

definition ipfs_blocks_block_protobuf_decode :: "bytes \<Rightarrow> ipfs_block run" where
  "ipfs_blocks_block_protobuf_decode buf =
     pb_decode_loop (ipfs_block_field buf) buf 0 ipfs_block_new"

definition ipfs_blocks_block_add_data ::
    "(bytes \<Rightarrow> bytes) \<Rightarrow> bytes \<Rightarrow> ipfs_block \<Rightarrow> ipfs_block result" where
  "ipfs_blocks_block_add_data sha256 data b =
     bind_res (ipfs_cid_new 0 (sha256 data) CID_DAG_PROTOBUF) (\<lambda>c.
     if malloc_ok (length data) then Inr (b\<lparr>block_cid := Some c, block_data := data\<rparr>)
     else Inl Failure)"

definition ipfs_block_copy :: "ipfs_block \<Rightarrow> ipfs_block result" where
  "ipfs_block_copy original =
     (if \<not> malloc_ok (length (block_data original)) then Inl Failure
      else
        case block_cid original of
          None \<Rightarrow> Inl Undefined
        | Some c \<Rightarrow>
            bind_res (ipfs_cid_copy c) (\<lambda>d.
            Inr (ipfs_block_new\<lparr>block_data := block_data original, block_cid := Some d\<rparr>)))"

section \<open>The wire format of a block\<close>

definition block_fields :: "ipfs_block \<Rightarrow> wire_field list" where
  "block_fields b =
     [Bytes_Field 1 (block_data b), Bytes_Field 2 (wire (cid_opt_fields (block_cid b)))]"

definition block_wf :: "ipfs_block \<Rightarrow> bool" where
  "block_wf b \<longleftrightarrow> cid_opt_wf (block_cid b) \<and>
     ipfs_cid_protobuf_encode_size (block_cid b) < 2 ^ 31"

definition block_norm :: "ipfs_block \<Rightarrow> ipfs_block" where
  "block_norm b = b\<lparr>block_cid := map_option cid_narrow (block_cid b)\<rparr>"

text \<open>A field stores what the CID decoder makes of it.\<close>

fun block_store :: "wire_field \<Rightarrow> ipfs_block \<Rightarrow> ipfs_block" where
  "block_store (Varint_Field k v) b = b"
| "block_store (Bytes_Field k d) b =
     (if k = 1 then b\<lparr>block_data := d\<rparr>
      else if k = 2 then
        (case ipfs_cid_protobuf_decode d of Some (Inr c) \<Rightarrow> b\<lparr>block_cid := c\<rparr> | _ \<Rightarrow> b)
      else b)"

lemma block_decodes:
  assumes "length buf < 2 ^ 31" and "block_wf b" and "f \<in> set (block_fields b)"
  shows "fnum f < 2 ^ 28 \<and> decodes (ipfs_block_field buf) buf block_store f"
proof -
  have "decodes (ipfs_block_field buf) buf block_store (Bytes_Field 1 d)" for d
    using assms(1) by (auto intro!: decodesI simp: ipfs_block_field_def Let_def)
  moreover have "ipfs_cid_protobuf_decode (wire (cid_opt_fields (block_cid b))) =
      Some (Inr (map_option cid_narrow (block_cid b)))"
    using assms(2) by (intro cid_codec.dec_embedded) (simp_all add: block_wf_def)
  then have "decodes (ipfs_block_field buf) buf block_store
      (Bytes_Field 2 (wire (cid_opt_fields (block_cid b))))"
    using assms(1) by (auto intro!: decodesI simp: ipfs_block_field_def Let_def)
  ultimately show ?thesis using assms(3) by (auto simp: block_fields_def)
qed

lemma block_encode_wire:
  assumes wf: "block_wf b" and fits: "length (wire (block_fields b)) \<le> n" and n: "n < 2 ^ 31"
  shows "ipfs_blocks_block_protobuf_encode b n = Inr (wire (block_fields b))"
  unfolding ipfs_blocks_block_protobuf_encode_def
  by (rule chain_writes [OF _ fits], unfold block_fields_def)
    (intro writes_intros cid_codec.writes_embedded; use n wf in \<open>simp add: block_wf_def\<close>)

interpretation block_codec: pb_codec block_fields ipfs_blocks_block_protobuf_encode
  ipfs_blocks_block_protobuf_encode_size block_wf ipfs_blocks_block_protobuf_decode block_norm
proof
  fix b n
  assume "block_wf b" and "length (wire (block_fields b)) \<le> n" and "n < 2 ^ 31"
  then show "ipfs_blocks_block_protobuf_encode b n = Inr (wire (block_fields b))"
    by (rule block_encode_wire)
next
  fix b
  assume "block_wf b" and "ipfs_blocks_block_protobuf_encode_size b < 2 ^ 31"
  then show "length (wire (block_fields b)) \<le> ipfs_blocks_block_protobuf_encode_size b"
    using length_bytes_field [of 1 "block_data b"] cid_codec.sz_enough [of "block_cid b"]
      length_bytes_field [of 2 "wire (cid_opt_fields (block_cid b))"]
    by (simp add: ipfs_blocks_block_protobuf_encode_size_def block_fields_def block_wf_def)
next
  fix b
  assume wf: "block_wf b" and n: "length (wire (block_fields b)) < 2 ^ 31"
  have "fold block_store (block_fields b) ipfs_block_new = block_norm b"
    using wf cid_codec.dec_embedded [of "block_cid b"]
    by (simp add: block_fields_def ipfs_block_new_def block_norm_def block_wf_def)
  then show "ipfs_blocks_block_protobuf_decode (wire (block_fields b)) = Some (Inr (block_norm b))"
    unfolding ipfs_blocks_block_protobuf_decode_def
    using pb_decode_loop_wire [OF n, of "block_fields b" _ block_store 0] block_decodes [OF n wf]
    by simp
qed

section \<open>Properties\<close>

text \<open>
  The block made from data carries the data's SHA-256 hash in a version 0 CID; it is
  encoded into a buffer of the estimated size, decoded to itself, and copied to itself.
\<close>

theorem block_of_data_round_trip:
  assumes "length (sha256 data) = 32" and "length data < 2 ^ 30"
  shows "\<exists>b bs. ipfs_blocks_block_add_data sha256 data ipfs_block_new = Inr b \<and>
    b = \<lparr>block_cid = Some \<lparr>cid_version = 0, cid_codec = CID_DAG_PROTOBUF, cid_hash = sha256 data\<rparr>,
         block_data = data\<rparr> \<and>
    ipfs_blocks_block_protobuf_encode b (ipfs_blocks_block_protobuf_encode_size b) = Inr bs \<and>
    ipfs_blocks_block_protobuf_decode bs = Some (Inr b) \<and>
    ipfs_block_copy b = Inr b"
proof -
  let ?c = "\<lparr>cid_version = 0, cid_codec = CID_DAG_PROTOBUF, cid_hash = sha256 data\<rparr>"
  let ?b = "\<lparr>block_cid = Some ?c, block_data = data\<rparr>"
  have new: "ipfs_blocks_block_add_data sha256 data ipfs_block_new = Inr ?b"
    using assms by (simp add: ipfs_blocks_block_add_data_def ipfs_cid_new_def malloc_ok_def c_char_def
        CID_DAG_PROTOBUF_def ipfs_block_new_def)
  have "block_wf ?b"
    using assms by (simp add: block_wf_def cid_wf_def ipfs_cid_protobuf_encode_size_def)
  moreover have "ipfs_blocks_block_protobuf_encode_size ?b < 2 ^ 31"
    using assms by (simp add: ipfs_blocks_block_protobuf_encode_size_def
        ipfs_cid_protobuf_encode_size_def)
  moreover have "block_norm ?b = ?b"
    by (simp add: block_norm_def cid_narrow_def c_char_def CID_DAG_PROTOBUF_def)
  moreover have "ipfs_block_copy ?b = Inr ?b"
    using assms by (simp add: ipfs_block_copy_def ipfs_cid_copy_def malloc_ok_def ipfs_block_new_def)
  ultimately show ?thesis using new block_codec.round_trip [of ?b] by metis
qed

theorem block_of_data_round_trip_witness:
  "\<exists>b bs. ipfs_blocks_block_add_data (\<lambda>m. replicate 32 9) [1, 2, 3] ipfs_block_new = Inr b \<and>
    ipfs_blocks_block_protobuf_encode b (ipfs_blocks_block_protobuf_encode_size b) = Inr bs \<and>
    ipfs_blocks_block_protobuf_decode bs = Some (Inr b)"
  using block_of_data_round_trip [of "\<lambda>m. replicate 32 9" "[1, 2, 3]"] by auto

text \<open>
  A block of any CID, or none, is encoded into a buffer of the estimated size and decoded
  to itself, up to the narrowing of the CID's codec.
\<close>

theorem block_round_trip:
  assumes "cid_opt_wf (block_cid b)" and "ipfs_blocks_block_protobuf_encode_size b < 2 ^ 31"
  shows "\<exists>bs. ipfs_blocks_block_protobuf_encode b (ipfs_blocks_block_protobuf_encode_size b) = Inr bs \<and>
    ipfs_blocks_block_protobuf_decode bs = Some (Inr (block_norm b))"
proof -
  have "block_wf b"
    using assms by (simp add: block_wf_def ipfs_blocks_block_protobuf_encode_size_def)
  then show ?thesis using assms(2) by (rule block_codec.round_trip)
qed

theorem block_round_trip_witness:
  "\<exists>bs. ipfs_blocks_block_protobuf_encode \<lparr>block_cid = None, block_data = [1]\<rparr> 23 = Inr bs \<and>
    ipfs_blocks_block_protobuf_decode bs = Some (Inr \<lparr>block_cid = None, block_data = [1]\<rparr>)"
  using block_round_trip [of "\<lparr>block_cid = None, block_data = [1]\<rparr>"]
  by (simp add: ipfs_blocks_block_protobuf_encode_size_def ipfs_cid_protobuf_encode_size_def
      block_norm_def)

end
