(* ===== verification/Unixfs.thy ===== *)
theory Unixfs
  imports Protobuf
begin

text \<open>
  UnixFS objects, \<open>libipfs/unixfs/unixfs.c\<close>: the struct, its list of block sizes, its hash,
  and its protobuf coding. The linked list of block sizes is a list, and a pointer to one of
  its nodes is the node's index (any index that is not below the length is a pointer to no
  node of the list). SHA-256 is the crypto library's function, a parameter.
\<close>

section \<open>The code\<close>

definition UNIXFS_RAW :: u32 where "UNIXFS_RAW = 0"
definition UNIXFS_DIRECTORY :: u32 where "UNIXFS_DIRECTORY = 1"
definition UNIXFS_FILE :: u32 where "UNIXFS_FILE = 2"
definition UNIXFS_METADATA :: u32 where "UNIXFS_METADATA = 3"
definition UNIXFS_SYMLINK :: u32 where "UNIXFS_SYMLINK = 4"

record unixfs =
  data_type :: u32
  ufs_bytes :: bytes
  file_size :: u64
  block_sizes :: "u64 list"
  ufs_hash :: bytes

definition ipfs_unixfs_new :: unixfs where
  "ipfs_unixfs_new =
     \<lparr>data_type = UNIXFS_RAW, ufs_bytes = [], file_size = 0, block_sizes = [], ufs_hash = []\<rparr>"

definition ipfs_unixfs_get_last_block_size :: "unixfs \<Rightarrow> nat option" where
  "ipfs_unixfs_get_last_block_size obj =
     (if block_sizes obj = [] then None else Some (length (block_sizes obj) - 1))"

text \<open>
  The walk stops at the node to delete or at the end. With no previous node the whole list is
  dropped: the head pointer is cleared.
\<close>

definition ipfs_unixfs_remove_blocksize :: "unixfs \<Rightarrow> nat \<Rightarrow> unixfs" where
  "ipfs_unixfs_remove_blocksize obj to_delete =
     (let xs = block_sizes obj in
      if xs = [] \<or> to_delete = 0 then obj\<lparr>block_sizes := []\<rparr>
      else obj\<lparr>block_sizes := take to_delete xs @ drop (Suc to_delete) xs\<rparr>)"

definition ipfs_unixfs_add_data :: "(bytes \<Rightarrow> bytes) \<Rightarrow> bytes \<Rightarrow> unixfs \<Rightarrow> unixfs result" where
  "ipfs_unixfs_add_data sha256 data obj =
     (if malloc_ok (length data) then Inr (obj\<lparr>ufs_bytes := data, ufs_hash := sha256 data\<rparr>)
      else Inl Failure)"

definition ipfs_unixfs_add_blocksize :: "u64 \<Rightarrow> unixfs \<Rightarrow> unixfs" where
  "ipfs_unixfs_add_blocksize blocksize obj = obj\<lparr>block_sizes := block_sizes obj @ [blocksize]\<rparr>"

definition ipfs_unixfs_protobuf_encode_size :: "unixfs \<Rightarrow> nat" where
  "ipfs_unixfs_protobuf_encode_size obj =
     length (ufs_bytes obj) + 11 + 2 + 11 + 11 * length (block_sizes obj)"

definition ipfs_unixfs_protobuf_encode :: "unixfs option \<Rightarrow> nat \<Rightarrow> bytes result" where
  "ipfs_unixfs_protobuf_encode incoming max_len =
     (case incoming of
        None \<Rightarrow> Inr []
      | Some obj \<Rightarrow>
          chain
            ([put_varint 1 (ucast (data_type obj)) max_len] @
             (if ufs_bytes obj \<noteq> [] then [put_bytes 2 (ufs_bytes obj) max_len] else []) @
             (if 0 < file_size obj then [put_varint 3 (file_size obj) max_len] else []) @
             map (\<lambda>n. put_varint 4 n max_len) (block_sizes obj)) [])"

definition ipfs_unixfs_field :: "bytes \<Rightarrow> int \<Rightarrow> nat \<Rightarrow> unixfs \<Rightarrow> (unixfs \<times> nat) run" where
  "ipfs_unixfs_field buf field_no pos obj =
     (let rest = drop pos buf; remaining = length buf - pos;
          varint_field = (\<lambda>store.
            bind_res (varint_decode rest (c_int (int remaining))) (\<lambda>(v, n).
            Inr (store v, pos + n)))
      in Some
        (if field_no = 1 then varint_field (\<lambda>v. obj\<lparr>data_type := ucast v\<rparr>)
         else if field_no = 2 then
           bind_res (protobuf_decode_length_delimited rest remaining) (\<lambda>(d, n).
           Inr (obj\<lparr>ufs_bytes := d\<rparr>, pos + n))
         else if field_no = 3 then varint_field (\<lambda>v. obj\<lparr>file_size := v\<rparr>)
         else if field_no = 4 then varint_field (\<lambda>v. ipfs_unixfs_add_blocksize v obj)
         else Inr (obj, pos)))"

definition ipfs_unixfs_protobuf_decode :: "bytes \<Rightarrow> unixfs run" where
  "ipfs_unixfs_protobuf_decode buf =
     (if buf = [] then Some (Inl Failure)
      else pb_decode_loop (ipfs_unixfs_field buf) buf 0 ipfs_unixfs_new)"

section \<open>The wire format of an object\<close>

definition unixfs_fields :: "unixfs \<Rightarrow> wire_field list" where
  "unixfs_fields obj =
     [Varint_Field 1 (ucast (data_type obj))] @
     (if ufs_bytes obj \<noteq> [] then [Bytes_Field 2 (ufs_bytes obj)] else []) @
     (if 0 < file_size obj then [Varint_Field 3 (file_size obj)] else []) @
     map (Varint_Field 4) (block_sizes obj)"

text \<open>The data type is one of the enumeration, which has five values.\<close>

definition unixfs_wf :: "unixfs \<Rightarrow> bool" where
  "unixfs_wf obj \<longleftrightarrow> data_type obj \<le> UNIXFS_SYMLINK"

text \<open>The hash is not saved.\<close>

definition unixfs_norm :: "unixfs \<Rightarrow> unixfs" where
  "unixfs_norm obj = obj\<lparr>ufs_hash := []\<rparr>"

fun unixfs_store :: "wire_field \<Rightarrow> unixfs \<Rightarrow> unixfs" where
  "unixfs_store (Varint_Field k v) obj =
     (if k = 1 then obj\<lparr>data_type := ucast v\<rparr>
      else if k = 3 then obj\<lparr>file_size := v\<rparr>
      else if k = 4 then ipfs_unixfs_add_blocksize v obj else obj)"
| "unixfs_store (Bytes_Field k d) obj = (if k = 2 then obj\<lparr>ufs_bytes := d\<rparr> else obj)"

lemma unixfs_decodes:
  assumes n: "length buf < 2 ^ 31" and "f \<in> set (unixfs_fields obj)"
  shows "fnum f < 2 ^ 28 \<and> decodes (ipfs_unixfs_field buf) buf unixfs_store f"
proof -
  have "decodes (ipfs_unixfs_field buf) buf unixfs_store (Varint_Field k v)" if "k \<in> {1, 3, 4}" for k v
    using n that by (auto intro!: decodesI simp: ipfs_unixfs_field_def Let_def)
  moreover have "decodes (ipfs_unixfs_field buf) buf unixfs_store (Bytes_Field 2 d)" for d
    using n by (auto intro!: decodesI simp: ipfs_unixfs_field_def Let_def)
  ultimately show ?thesis using assms(2)
    by (auto simp: unixfs_fields_def split: if_splits)
qed

lemma unixfs_encode_wire:
  assumes fits: "length (wire (unixfs_fields obj)) \<le> n" and n: "n < 2 ^ 31"
  shows "ipfs_unixfs_protobuf_encode (Some obj) n = Inr (wire (unixfs_fields obj))"
proof -
  have opt: "writes n (chain (if P then [p] else [])) (if P then [x] else [])"
    if "writes n p [x]" for P p x
    using that by (auto intro: writes_intros)
  show ?thesis
    unfolding ipfs_unixfs_protobuf_encode_def option.case
    by (rule chain_writes [OF _ fits], unfold unixfs_fields_def)
      (intro writes_intros opt; use n in simp)
qed

lemma length_wire_varints: "k < 16 \<Longrightarrow> length (wire (map (Varint_Field k) vs)) \<le> 11 * length vs"
proof (induction vs)
  case (Cons v vs)
  then show ?case using length_varint_field [of k v] by simp
qed simp

lemma unixfs_size_enough:
  assumes "unixfs_wf obj" and "ipfs_unixfs_protobuf_encode_size obj < 2 ^ 31"
  shows "length (wire (unixfs_fields obj)) \<le> ipfs_unixfs_protobuf_encode_size obj"
proof -
  have "unat (data_type obj) \<le> 4"
    using assms(1) by (simp add: unixfs_wf_def UNIXFS_SYMLINK_def word_le_nat_alt)
  then have "length (field_bytes (Varint_Field 1 (ucast (data_type obj)))) \<le> 2"
    using length_varint_field_le [of 1 "ucast (data_type obj)" 0]
    by (simp add: unsigned_ucast_eq take_bit_nat_eq_self)
  then show ?thesis
    using assms(2) length_bytes_field [of 2 "ufs_bytes obj"] length_varint_field [of 3 "file_size obj"]
      length_wire_varints [of 4 "block_sizes obj"]
    by (simp add: ipfs_unixfs_protobuf_encode_size_def unixfs_fields_def)
qed

lemma fold_block_sizes:
  "fold unixfs_store (map (Varint_Field 4) vs) obj = obj\<lparr>block_sizes := block_sizes obj @ vs\<rparr>"
  by (induction vs arbitrary: obj) (simp_all add: ipfs_unixfs_add_blocksize_def)

lemma unixfs_decode_wire:
  assumes n: "length (wire (unixfs_fields obj)) < 2 ^ 31"
  shows "ipfs_unixfs_protobuf_decode (wire (unixfs_fields obj)) = Some (Inr (unixfs_norm obj))"
proof -
  have "(ucast (ucast (data_type obj) :: u64) :: u32) = data_type obj"
    by (rule bit_word_eqI) (simp add: bit_simps)
  then have "fold unixfs_store (unixfs_fields obj) ipfs_unixfs_new = unixfs_norm obj"
    by (simp add: unixfs_fields_def fold_block_sizes ipfs_unixfs_new_def unixfs_norm_def
        word_neq_0_conv [symmetric])
  moreover have "wire (unixfs_fields obj) \<noteq> []" by (simp add: unixfs_fields_def)
  ultimately show ?thesis
    using pb_decode_loop_wire [OF n, of "unixfs_fields obj" _ unixfs_store 0] unixfs_decodes [OF n]
    by (simp add: ipfs_unixfs_protobuf_decode_def)
qed

interpretation unixfs_codec: pb_codec unixfs_fields "\<lambda>obj. ipfs_unixfs_protobuf_encode (Some obj)"
  ipfs_unixfs_protobuf_encode_size unixfs_wf ipfs_unixfs_protobuf_decode unixfs_norm
  by unfold_locales (simp_all add: unixfs_encode_wire unixfs_size_enough unixfs_decode_wire)

lemma unixfs_field_advances: "advances (ipfs_unixfs_field buf)"
  by (auto simp: advances_def ipfs_unixfs_field_def Let_def bind_res_Inr_iff)

lemma unixfs_decode_terminates: "ipfs_unixfs_protobuf_decode buf \<noteq> None"
  using pb_decode_loop_terminates [OF unixfs_field_advances [of buf], of buf 0 ipfs_unixfs_new]
  by (simp add: ipfs_unixfs_protobuf_decode_def)

section \<open>Properties\<close>

text \<open>
  An object with a data type of the enumeration is encoded into a buffer of the estimated
  size and decoded to itself, all block sizes in order, without its hash. Decoding returns on
  every input.
\<close>

theorem unixfs_round_trip:
  assumes "unixfs_wf obj" and "ipfs_unixfs_protobuf_encode_size obj < 2 ^ 31"
  shows "(\<exists>bs. ipfs_unixfs_protobuf_encode (Some obj) (ipfs_unixfs_protobuf_encode_size obj) = Inr bs \<and>
      ipfs_unixfs_protobuf_decode bs = Some (Inr (obj\<lparr>ufs_hash := []\<rparr>))) \<and>
    ipfs_unixfs_protobuf_decode buf \<noteq> None"
  using unixfs_codec.round_trip [OF assms] unixfs_decode_terminates [of buf]
  by (simp add: unixfs_norm_def)

theorem unixfs_round_trip_witness:
  "\<exists>bs. ipfs_unixfs_protobuf_encode
      (Some \<lparr>data_type = UNIXFS_FILE, ufs_bytes = [1], file_size = 300, block_sizes = [200, 100],
             ufs_hash = []\<rparr>) 47 = Inr bs \<and>
    ipfs_unixfs_protobuf_decode bs =
      Some (Inr \<lparr>data_type = UNIXFS_FILE, ufs_bytes = [1], file_size = 300, block_sizes = [200, 100],
                 ufs_hash = []\<rparr>)"
  using unixfs_round_trip [of "\<lparr>data_type = UNIXFS_FILE, ufs_bytes = [1], file_size = 300,
      block_sizes = [200, 100], ufs_hash = []\<rparr>" "[]"]
  by (simp add: unixfs_wf_def UNIXFS_FILE_def UNIXFS_SYMLINK_def ipfs_unixfs_protobuf_encode_size_def)

text \<open>
  Removing a block size that is not the first removes just that one; removing the first
  one drops the whole list.
\<close>

theorem unixfs_remove_blocksize:
  assumes "i < length (block_sizes obj)"
  shows "block_sizes (ipfs_unixfs_remove_blocksize obj i) =
    (if i = 0 then [] else take i (block_sizes obj) @ drop (Suc i) (block_sizes obj)) \<and>
    block_sizes (ipfs_unixfs_remove_blocksize obj (the (ipfs_unixfs_get_last_block_size obj))) =
      butlast (block_sizes obj)"
  using assms
  by (cases "block_sizes obj" rule: rev_cases)
    (auto simp: ipfs_unixfs_remove_blocksize_def ipfs_unixfs_get_last_block_size_def Let_def)

theorem unixfs_remove_blocksize_witness:
  "block_sizes (ipfs_unixfs_remove_blocksize (ipfs_unixfs_new\<lparr>block_sizes := [1, 2, 3]\<rparr>) 0) = []"
  using unixfs_remove_blocksize [of 0 "ipfs_unixfs_new\<lparr>block_sizes := [1, 2, 3]\<rparr>"] by simp

end
