(* ===== verification/Node.thy ===== *)
theory Node
  imports Unixfs Multihash
begin

text \<open>
  Merkle DAG nodes and their links, \<open>libipfs/merkledag/node.c\<close>: construction, the list of
  links, lookup and removal, the protobuf coding of links and nodes, and the paths of
  \<open>Node_Resolve\<close>.

  The linked list of links is a list; a pointer to a link of it is an index, as in \<open>Unixfs\<close>.
  A name is an option, \<open>None\<close> for the null pointer.
\<close>

section \<open>Links\<close>

record node_link =
  link_hash :: bytes
  link_name :: "bytes option"
  link_t_size :: u64

definition ipfs_node_link_new :: node_link where
  "ipfs_node_link_new = \<lparr>link_hash = [], link_name = None, link_t_size = 0\<rparr>"

definition ipfs_node_link_create :: "bytes option \<Rightarrow> bytes \<Rightarrow> node_link result" where
  "ipfs_node_link_create name ahash =
     (if \<not> malloc_ok (length ahash) then Inl Failure
      else
        let link = ipfs_node_link_new\<lparr>link_hash := ahash\<rparr> in
        case name of
          None \<Rightarrow> Inr link
        | Some s \<Rightarrow> if 0 < strlen s then Inr (link\<lparr>link_name := Some (c_string s)\<rparr>) else Inr link)"

definition name_bytes :: "node_link \<Rightarrow> bytes" where
  "name_bytes l = (case link_name l of None \<Rightarrow> [] | Some s \<Rightarrow> c_string s)"

definition ipfs_node_link_protobuf_encode_size :: "node_link option \<Rightarrow> nat" where
  "ipfs_node_link_protobuf_encode_size link =
     (case link of
        None \<Rightarrow> 0
      | Some l \<Rightarrow>
          (if link_hash l \<noteq> [] then 11 + length (link_hash l) else 0) +
          (if name_bytes l \<noteq> [] then 11 + length (name_bytes l) else 0) +
          (if 0 < link_t_size l then 22 else 0))"

text \<open>
  The hash is written as a multihash, built in a local array. The result of \<open>mh_new\<close> is not
  looked at: when it refuses the hash the array is written without ever having been set.
\<close>

definition put_link_hash :: "bytes \<Rightarrow> nat \<Rightarrow> bytes \<Rightarrow> bytes result" where
  "put_link_hash h max_len out =
     bind_res (mh_new (replicate (c_size (mh_new_length MH_H_SHA2_256 (length h))) 0) MH_H_SHA2_256 h)
       (\<lambda>(err, hash). if err \<noteq> 0 then Inl Undefined else put_bytes 1 hash max_len out)"

definition ipfs_node_link_protobuf_encode :: "node_link \<Rightarrow> nat \<Rightarrow> bytes result" where
  "ipfs_node_link_protobuf_encode l max_len =
     chain
       ((if link_hash l \<noteq> [] then [put_link_hash (link_hash l) max_len] else []) @
        [put_string 2 (name_bytes l) max_len] @
        (if 0 < link_t_size l then [put_varint 3 (link_t_size l) max_len] else [])) []"

definition ipfs_node_link_field :: "bytes \<Rightarrow> int \<Rightarrow> nat \<Rightarrow> node_link \<Rightarrow> (node_link \<times> nat) run" where
  "ipfs_node_link_field buf field_no pos l =
     (let rest = drop pos buf; remaining = length buf - pos
      in Some
        (if field_no = 1 then
           bind_res (protobuf_decode_length_delimited rest remaining) (\<lambda>(hash, n).
           if length hash < 2 then Inl Failure
           else Inr (l\<lparr>link_hash := drop 2 hash\<rparr>, pos + n))
         else if field_no = 2 then
           bind_res (protobuf_decode_string rest remaining) (\<lambda>(s, n).
           Inr (case s of None \<Rightarrow> l | Some name \<Rightarrow> l\<lparr>link_name := Some name\<rparr>,
                c_size (int pos + int n)))
         else if field_no = 3 then
           bind_res (protobuf_decode_varint rest remaining) (\<lambda>(v, n).
           Inr (l\<lparr>link_t_size := v\<rparr>, pos + n))
         else Inr (l, pos)))"

definition ipfs_node_link_protobuf_decode :: "bytes \<Rightarrow> node_link run" where
  "ipfs_node_link_protobuf_decode buf =
     pb_decode_loop (ipfs_node_link_field buf) buf 0 ipfs_node_link_new"

section \<open>Nodes\<close>

record hashtable_node =
  node_data :: bytes
  node_links :: "node_link list"
  node_encoded :: "bytes option"
  node_hash :: bytes

definition ipfs_hashtable_node_new :: hashtable_node where
  "ipfs_hashtable_node_new =
     \<lparr>node_data = [], node_links = [], node_encoded = None, node_hash = []\<rparr>"

definition link_encoder_size :: "node_link \<Rightarrow> nat" where
  "link_encoder_size l = ipfs_node_link_protobuf_encode_size (Some l)"

definition ipfs_hashtable_node_protobuf_encode_size :: "hashtable_node \<Rightarrow> nat" where
  "ipfs_hashtable_node_protobuf_encode_size node =
     sum_list (map (\<lambda>l. 11 + link_encoder_size l) (node_links node)) +
     (if node_data node \<noteq> [] then 11 + length (node_data node) else 0)"

definition ipfs_hashtable_node_protobuf_encode :: "hashtable_node \<Rightarrow> nat \<Rightarrow> bytes result" where
  "ipfs_hashtable_node_protobuf_encode node max_len =
     chain
       (map (\<lambda>l. put_message link_encoder_size ipfs_node_link_protobuf_encode 2 l max_len)
          (node_links node) @
        (if node_data node \<noteq> [] then [put_bytes 1 (node_data node) max_len] else [])) []"

definition ipfs_hashtable_node_add_link :: "hashtable_node \<Rightarrow> node_link \<Rightarrow> hashtable_node" where
  "ipfs_hashtable_node_add_link node mylink = node\<lparr>node_links := node_links node @ [mylink]\<rparr>"

text \<open>A link that does not decode is passed over.\<close>

definition ipfs_hashtable_node_field ::
    "bytes \<Rightarrow> int \<Rightarrow> nat \<Rightarrow> hashtable_node \<Rightarrow> (hashtable_node \<times> nat) run" where
  "ipfs_hashtable_node_field buf field_no pos node =
     (let rest = drop pos buf; remaining = length buf - pos
      in
        if field_no = 1 then
          bind_run (Some (protobuf_decode_length_delimited rest remaining)) (\<lambda>(d, n).
          Some (Inr (node\<lparr>node_data := d\<rparr>, pos + n)))
        else if field_no = 2 then
          bind_run (Some (protobuf_decode_length_delimited rest remaining)) (\<lambda>(d, n).
          if ipfs_node_link_protobuf_decode d = Some (Inl Failure) then Some (Inr (node, pos + n))
          else
            bind_run (ipfs_node_link_protobuf_decode d) (\<lambda>l.
            Some (Inr (ipfs_hashtable_node_add_link node l, pos + n))))
        else Some (Inr (node, pos)))"

text \<open>An empty buffer makes the decoder free the caller's pointer before it was set.\<close>

definition ipfs_hashtable_node_protobuf_decode :: "bytes \<Rightarrow> hashtable_node run" where
  "ipfs_hashtable_node_protobuf_decode buf =
     (if buf = [] then Some (Inl Undefined)
      else pb_decode_loop (ipfs_hashtable_node_field buf) buf 0 ipfs_hashtable_node_new)"

definition ipfs_hashtable_node_set_data :: "hashtable_node \<Rightarrow> bytes \<Rightarrow> hashtable_node result" where
  "ipfs_hashtable_node_set_data node d =
     (if malloc_ok (length d) then Inr (node\<lparr>node_data := d\<rparr>) else Inl Failure)"

definition ipfs_hashtable_node_create_directory :: "hashtable_node result" where
  "ipfs_hashtable_node_create_directory =
     (let unix_fs = ipfs_unixfs_new\<lparr>data_type := UNIXFS_DIRECTORY\<rparr>;
          protobuf_len = ipfs_unixfs_protobuf_encode_size unix_fs
      in bind_res (ipfs_unixfs_protobuf_encode (Some unix_fs) protobuf_len) (\<lambda>protobuf.
         case ipfs_hashtable_node_set_data ipfs_hashtable_node_new protobuf of
           Inl e \<Rightarrow> Inr ipfs_hashtable_node_new
         | Inr node \<Rightarrow> Inr node))"

definition ipfs_hashtable_node_is_directory :: "hashtable_node \<Rightarrow> bool run" where
  "ipfs_hashtable_node_is_directory node =
     (if length (node_data node) < 2 then Some (Inr False)
      else if ipfs_unixfs_protobuf_decode (node_data node) = Some (Inl Failure) then Some (Inr False)
      else
        bind_run (ipfs_unixfs_protobuf_decode (node_data node)) (\<lambda>unix_fs.
        Some (Inr (data_type unix_fs = UNIXFS_DIRECTORY))))"

definition ipfs_hashtable_node_set_hash :: "hashtable_node \<Rightarrow> bytes \<Rightarrow> hashtable_node" where
  "ipfs_hashtable_node_set_hash node hash =
     (let node' = (if length hash \<noteq> length (node_hash node) then node\<lparr>node_hash := []\<rparr> else node)
      in if hash \<noteq> [] then node'\<lparr>node_hash := hash\<rparr> else node')"

definition ipfs_hashtable_node_set_encoded :: "hashtable_node \<Rightarrow> bytes \<Rightarrow> hashtable_node" where
  "ipfs_hashtable_node_set_encoded node d = node\<lparr>node_encoded := Some d\<rparr>"

definition ipfs_hashtable_node_get_data :: "hashtable_node \<Rightarrow> bytes" where
  "ipfs_hashtable_node_get_data node = node_data node"

definition ipfs_node_link_last :: "hashtable_node \<Rightarrow> nat option" where
  "ipfs_node_link_last node =
     (if node_links node = [] then None else Some (length (node_links node) - 1))"

text \<open>
  A chain of links some of which may have been freed (\<open>None\<close>). Removing a link that is not
  the head frees it and leaves it in the chain.
\<close>

definition ipfs_node_remove_link :: "hashtable_node \<Rightarrow> nat \<Rightarrow> bool \<times> node_link option list" where
  "ipfs_node_remove_link node toRemove =
     (let links = map Some (node_links node) in
      if length links \<le> toRemove then (False, links)
      else if toRemove = 0 then (True, tl links)
      else (True, links[toRemove := None]))"

fun get_link_by_name :: "node_link option list \<Rightarrow> bytes \<Rightarrow> nat \<Rightarrow> nat option result" where
  "get_link_by_name [] name i = Inr None"
| "get_link_by_name (None # ls) name i = Inl Undefined"
| "get_link_by_name (Some l # ls) name i =
     (case link_name l of
        None \<Rightarrow> Inl Undefined
      | Some s \<Rightarrow>
          if c_string name = c_string s then Inr (Some i) else get_link_by_name ls name (i + 1))"

definition ipfs_hashtable_node_get_link_by_name :: "hashtable_node \<Rightarrow> bytes \<Rightarrow> nat option result" where
  "ipfs_hashtable_node_get_link_by_name node name = get_link_by_name (map Some (node_links node)) name 0"

definition name_matches :: "bytes option \<Rightarrow> node_link \<Rightarrow> bool" where
  "name_matches name l \<longleftrightarrow>
     \<not> ((name = None \<and> link_name l \<noteq> None) \<or> (name \<noteq> None \<and> link_name l = None) \<or>
        (name \<noteq> None \<and> link_name l \<noteq> None \<and>
         c_string (the name) \<noteq> c_string (the (link_name l))))"

definition ipfs_hashtable_node_remove_link_by_name ::
    "bytes option \<Rightarrow> hashtable_node \<Rightarrow> bool \<times> hashtable_node" where
  "ipfs_hashtable_node_remove_link_by_name name node =
     (let before = takeWhile (\<lambda>l. \<not> name_matches name l) (node_links node);
          found = dropWhile (\<lambda>l. \<not> name_matches name l) (node_links node)
      in case found of
           [] \<Rightarrow> (False, node)
         | l # after \<Rightarrow>
             if before = [] then
               (if after \<noteq> [] then (True, node\<lparr>node_links := after\<rparr>) else (True, node))
             else (True, node\<lparr>node_links := before @ after\<rparr>))"

definition ipfs_hashtable_node_new_from_link :: "node_link \<Rightarrow> hashtable_node" where
  "ipfs_hashtable_node_new_from_link mylink =
     ipfs_hashtable_node_add_link ipfs_hashtable_node_new mylink"

definition ipfs_hashtable_node_new_from_data :: "bytes option \<Rightarrow> hashtable_node result" where
  "ipfs_hashtable_node_new_from_data d =
     (case d of
        None \<Rightarrow> Inl Failure
      | Some d \<Rightarrow> ipfs_hashtable_node_set_data ipfs_hashtable_node_new d)"

definition ipfs_hashtable_node_new_from_encoded :: "bytes option \<Rightarrow> hashtable_node result" where
  "ipfs_hashtable_node_new_from_encoded d =
     (case d of
        None \<Rightarrow> Inl Failure
      | Some d \<Rightarrow> Inr (ipfs_hashtable_node_new\<lparr>node_encoded := Some d\<rparr>))"

section \<open>Paths\<close>

text \<open>The successive results of \<open>strtok_r(s, "/")\<close>: the runs of characters that are no slash.\<close>

function strtok_all :: "bytes \<Rightarrow> bytes list" where
  "strtok_all s =
     (let s' = dropWhile (\<lambda>b. b = 47) s in
      if s' = [] then []
      else takeWhile (\<lambda>b. b \<noteq> 47) s' # strtok_all (dropWhile (\<lambda>b. b \<noteq> 47) s'))"
  by pat_completeness auto
termination
proof (relation "measure length")
  fix s s' :: bytes
  assume "s' = dropWhile (\<lambda>b. b = 47) s" and "s' \<noteq> []"
  then have "hd s' \<noteq> 47" and "length s' \<le> length s"
    using hd_dropWhile [of "\<lambda>b. b = 47" s] by (auto simp: length_dropWhile_le)
  with \<open>s' \<noteq> []\<close> show "(dropWhile (\<lambda>b. b \<noteq> 47) s', s) \<in> measure length"
    using length_dropWhile_le [of "\<lambda>b. b \<noteq> 47" "tl s'"] by (cases s') auto
qed simp

declare strtok_all.simps [simp del]

definition Node_Resolve_Max_Size :: "bytes option \<Rightarrow> int" where
  "Node_Resolve_Max_Size input =
     (case input of None \<Rightarrow> - 1 | Some s \<Rightarrow> int (length (strtok_all (c_string s))))"

definition Node_Resolve :: "bytes option \<Rightarrow> bytes list result" where
  "Node_Resolve input =
     (case input of None \<Rightarrow> Inl Failure | Some s \<Rightarrow> Inr (strtok_all (c_string s)))"

text \<open>
  Each name is looked up in the node itself. A link that is found is copied only if the
  memory for the copy was \<^emph>\<open>not\<close> granted, and the node's own link is freed. The result is
  \<open>ammount\<close> and the chain of links the node is left with.
\<close>

fun resolve_names ::
    "bytes list \<Rightarrow> nat \<Rightarrow> node_link option list \<Rightarrow> (nat \<times> node_link option list) result" where
  "resolve_names [] ammount links = Inr (ammount, links)"
| "resolve_names (name # names) ammount links =
     bind_res (get_link_by_name links name 0) (\<lambda>found.
     case found of
       None \<Rightarrow> resolve_names names ammount links
     | Some i \<Rightarrow> resolve_names names ammount (links[i := None]))"

definition Node_Resolve_Links ::
    "hashtable_node \<Rightarrow> bytes \<Rightarrow> (nat \<times> node_link option list) result" where
  "Node_Resolve_Links node path =
     bind_res (Node_Resolve (Some path)) (\<lambda>linknames.
     resolve_names linknames 0 (map Some (node_links node)))"

definition Node_Tree :: "bytes option \<Rightarrow> bytes result" where
  "Node_Tree input =
     (case input of
        None \<Rightarrow> Inl Failure
      | Some s \<Rightarrow> Inr (map (\<lambda>b. if b = 47 then 32 else b) (c_string s)))"

section \<open>The wire format of links and nodes\<close>

definition link_fields :: "node_link \<Rightarrow> wire_field list" where
  "link_fields l =
     (if link_hash l \<noteq> []
      then [Bytes_Field 1 (0x12 # of_nat (length (link_hash l)) # link_hash l)] else []) @
     [Bytes_Field 2 (name_bytes l)] @
     (if 0 < link_t_size l then [Varint_Field 3 (link_t_size l)] else [])"

text \<open>The hash fits in a multihash, and the link is not entirely empty.\<close>

definition link_wf :: "node_link \<Rightarrow> bool" where
  "link_wf l \<longleftrightarrow> length (link_hash l) \<le> 127 \<and>
     (link_hash l \<noteq> [] \<or> name_bytes l \<noteq> [] \<or> 0 < link_t_size l)"

text \<open>An empty name comes back as no name.\<close>

definition link_norm :: "node_link \<Rightarrow> node_link" where
  "link_norm l = l\<lparr>link_name := (if name_bytes l = [] then None else Some (name_bytes l))\<rparr>"

fun link_store :: "wire_field \<Rightarrow> node_link \<Rightarrow> node_link" where
  "link_store (Varint_Field k v) l = (if k = 3 then l\<lparr>link_t_size := v\<rparr> else l)"
| "link_store (Bytes_Field k d) l =
     (if k = 1 then l\<lparr>link_hash := drop 2 d\<rparr>
      else if k = 2 then (if d = [] then l else l\<lparr>link_name := Some d\<rparr>)
      else l)"

lemma link_decodes_name:
  assumes n: "length buf < 2 ^ 31"
  shows "decodes (ipfs_node_link_field buf) buf link_store (Bytes_Field 2 d)"
proof (rule decodesI)
  fix pos rest s
  assume "drop pos buf = field_body (Bytes_Field 2 d) @ rest"
    and len: "length buf - pos = length (field_body (Bytes_Field 2 d)) + length rest"
  moreover have "c_size (int pos + int (length (leb128 (length d)) + length d)) =
      pos + (length (leb128 (length d)) + length d)"
    by (rule c_size_pos [OF _ n, of pos "length d" "length d + length rest"]) (use len in simp_all)
  ultimately show "ipfs_node_link_field buf (int (fnum (Bytes_Field 2 d))) pos s =
      Some (Inr (link_store (Bytes_Field 2 d) s, pos + length (field_body (Bytes_Field 2 d))))"
    using assms by (cases "d = []") (simp_all add: ipfs_node_link_field_def Let_def)
qed

lemma link_decodes:
  assumes n: "length buf < 2 ^ 31" and "f \<in> set (link_fields l)"
  shows "fnum f < 2 ^ 28 \<and> decodes (ipfs_node_link_field buf) buf link_store f"
proof -
  have "decodes (ipfs_node_link_field buf) buf link_store (Bytes_Field 1 (a # b # d))" for a b d
  proof (rule decodesI)
    fix pos rest s
    assume "drop pos buf = field_body (Bytes_Field 1 (a # b # d)) @ rest"
      and "length buf - pos = length (field_body (Bytes_Field 1 (a # b # d))) + length rest"
    then show "ipfs_node_link_field buf (int (fnum (Bytes_Field 1 (a # b # d)))) pos s =
        Some (Inr (link_store (Bytes_Field 1 (a # b # d)) s,
          pos + length (field_body (Bytes_Field 1 (a # b # d)))))"
      using n decode_length_delimited_body [OF refl, of "a # b # d" rest]
      by (simp add: ipfs_node_link_field_def Let_def)
  qed
  moreover have "decodes (ipfs_node_link_field buf) buf link_store (Varint_Field 3 v)" for v
    using n by (auto intro!: decodesI simp: ipfs_node_link_field_def Let_def)
  ultimately show ?thesis using assms(2) link_decodes_name [OF n]
    by (auto simp: link_fields_def split: if_splits)
qed

lemma writes_put_link_hash:
  assumes "length h \<le> 127" and "n < 2 ^ 31"
  shows "writes n (put_link_hash h n) [Bytes_Field 1 (0x12 # of_nat (length h) # h)]"
proof -
  have "c_size (mh_new_length MH_H_SHA2_256 (length h)) = length h + 2"
    using assms(1) by (simp add: mh_new_length_def c_arith)
  then have "mh_new (replicate (c_size (mh_new_length MH_H_SHA2_256 (length h))) 0) MH_H_SHA2_256 h =
      Inr (0, 0x12 # of_nat (length h) # h)"
    using mh_new_ok [of MH_H_SHA2_256 h] assms(1) by (simp add: MH_H_SHA2_256_def mh_code_ok_def)
  then have "put_link_hash h n = put_bytes 1 (0x12 # of_nat (length h) # h) n"
    by (intro ext) (simp add: put_link_hash_def)
  then show ?thesis using writes_put_bytes [of n 1 1] assms(2) by simp
qed

lemma name_bytes_c_string [simp]: "c_string (name_bytes l) = name_bytes l"
  by (simp add: name_bytes_def split: option.split)

lemma writes_put_name:
  assumes "n < 2 ^ 31"
  shows "writes n (put_string 2 (name_bytes l) n) [Bytes_Field 2 (name_bytes l)]"
  using writes_put_string [of n 2 2 "name_bytes l"] assms by simp

lemma writes_if:
  "(P \<Longrightarrow> writes n p [x]) \<Longrightarrow> writes n (chain (if P then [p] else [])) (if P then [x] else [])"
  by (auto intro: writes_intros)

lemma link_encode_wire:
  assumes wf: "link_wf l" and fits: "length (wire (link_fields l)) \<le> n" and n: "n < 2 ^ 31"
  shows "ipfs_node_link_protobuf_encode l n = Inr (wire (link_fields l))"
  unfolding ipfs_node_link_protobuf_encode_def
  by (rule chain_writes [OF _ fits], unfold link_fields_def)
    (intro writes_append writes_if writes_put_link_hash writes_put_name writes_Cons writes_Nil
      writes_put_varint; use n wf in \<open>simp add: link_wf_def\<close>)

lemma link_size_enough:
  assumes "link_wf l" and "link_encoder_size l < 2 ^ 31"
  shows "length (wire (link_fields l)) \<le> link_encoder_size l"
proof -
  have e: "length (field_bytes (Bytes_Field 2 [])) = 2"
    by (simp add: field_bytes_def leb128_small)
  show ?thesis
    using assms length_bytes_field [of 1 "0x12 # of_nat (length (link_hash l)) # link_hash l"]
      length_bytes_field [of 2 "name_bytes l"] length_varint_field [of 3 "link_t_size l"] e
    by (cases "name_bytes l = []")
      (auto simp: link_fields_def link_encoder_size_def ipfs_node_link_protobuf_encode_size_def
        link_wf_def)
qed

lemma link_decode_wire:
  assumes n: "length (wire (link_fields l)) < 2 ^ 31"
  shows "ipfs_node_link_protobuf_decode (wire (link_fields l)) = Some (Inr (link_norm l))"
proof -
  have "fold link_store (link_fields l) ipfs_node_link_new = link_norm l"
    by (simp add: link_fields_def ipfs_node_link_new_def link_norm_def word_neq_0_conv [symmetric])
  then show ?thesis
    unfolding ipfs_node_link_protobuf_decode_def
    using pb_decode_loop_wire [OF n, of "link_fields l" _ link_store 0] link_decodes [OF n] by simp
qed

interpretation link_codec: pb_codec link_fields ipfs_node_link_protobuf_encode link_encoder_size
  link_wf ipfs_node_link_protobuf_decode link_norm
  by unfold_locales (simp_all add: link_encode_wire link_size_enough link_decode_wire)

definition node_fields :: "hashtable_node \<Rightarrow> wire_field list" where
  "node_fields node =
     map (\<lambda>l. Bytes_Field 2 (wire (link_fields l))) (node_links node) @
     (if node_data node \<noteq> [] then [Bytes_Field 1 (node_data node)] else [])"

definition node_wf :: "hashtable_node \<Rightarrow> bool" where
  "node_wf node \<longleftrightarrow> (node_links node \<noteq> [] \<or> node_data node \<noteq> []) \<and>
     (\<forall>l \<in> set (node_links node). link_wf l \<and> link_encoder_size l < 2 ^ 31)"

definition node_norm :: "hashtable_node \<Rightarrow> hashtable_node" where
  "node_norm node =
     node\<lparr>node_links := map link_norm (node_links node), node_encoded := None, node_hash := []\<rparr>"

fun node_store :: "wire_field \<Rightarrow> hashtable_node \<Rightarrow> hashtable_node" where
  "node_store (Varint_Field k v) node = node"
| "node_store (Bytes_Field k d) node =
     (if k = 1 then node\<lparr>node_data := d\<rparr>
      else if k = 2 then
        (case ipfs_node_link_protobuf_decode d of
           Some (Inr l) \<Rightarrow> ipfs_hashtable_node_add_link node l
         | _ \<Rightarrow> node)
      else node)"

lemma node_decodes:
  assumes n: "length buf < 2 ^ 31" and wf: "node_wf node" and "f \<in> set (node_fields node)"
  shows "fnum f < 2 ^ 28 \<and> decodes (ipfs_hashtable_node_field buf) buf node_store f"
proof -
  have "decodes (ipfs_hashtable_node_field buf) buf node_store (Bytes_Field 1 d)" for d
    using n by (auto intro!: decodesI simp: ipfs_hashtable_node_field_def Let_def)
  moreover have "decodes (ipfs_hashtable_node_field buf) buf node_store
      (Bytes_Field 2 (wire (link_fields l)))" if "l \<in> set (node_links node)" for l
  proof -
    have "ipfs_node_link_protobuf_decode (wire (link_fields l)) = Some (Inr (link_norm l))"
      using wf that by (intro link_codec.dec_embedded) (simp_all add: node_wf_def)
    then show ?thesis using n
      by (auto intro!: decodesI simp: ipfs_hashtable_node_field_def Let_def)
  qed
  ultimately show ?thesis using assms(3) by (auto simp: node_fields_def split: if_splits)
qed

lemma node_encode_wire:
  assumes wf: "node_wf node" and fits: "length (wire (node_fields node)) \<le> n" and n: "n < 2 ^ 31"
  shows "ipfs_hashtable_node_protobuf_encode node n = Inr (wire (node_fields node))"
  unfolding ipfs_hashtable_node_protobuf_encode_def
  by (rule chain_writes [OF _ fits], unfold node_fields_def)
    (intro writes_append writes_if writes_map link_codec.writes_embedded writes_put_bytes;
      use n wf in \<open>simp add: node_wf_def\<close>)

lemma node_size_enough:
  assumes wf: "node_wf node" and s: "ipfs_hashtable_node_protobuf_encode_size node < 2 ^ 31"
  shows "length (wire (node_fields node)) \<le> ipfs_hashtable_node_protobuf_encode_size node"
proof -
  have "length (wire (map (\<lambda>l. Bytes_Field 2 (wire (link_fields l))) ls)) \<le>
      sum_list (map (\<lambda>l. 11 + link_encoder_size l) ls)"
    if "\<forall>l \<in> set ls. link_wf l \<and> link_encoder_size l < 2 ^ 31" for ls
    using that
  proof (induction ls)
    case (Cons l ls)
    then have "length (wire (link_fields l)) \<le> link_encoder_size l" "link_encoder_size l < 2 ^ 31"
      using link_codec.sz_enough [of l] by simp_all
    then show ?case using Cons length_bytes_field [of 2 "wire (link_fields l)"] by simp
  qed simp
  from this [of "node_links node"] show ?thesis
    using wf s length_bytes_field [of 1 "node_data node"]
    by (cases "node_data node = []")
      (simp_all add: node_wf_def node_fields_def ipfs_hashtable_node_protobuf_encode_size_def)
qed

lemma fold_node_links:
  assumes "\<forall>l \<in> set ls. link_wf l \<and> link_encoder_size l < 2 ^ 31"
  shows "fold node_store (map (\<lambda>l. Bytes_Field 2 (wire (link_fields l))) ls) node =
    node\<lparr>node_links := node_links node @ map link_norm ls\<rparr>"
  using assms
proof (induction ls arbitrary: node)
  case (Cons l ls)
  then show ?case using link_codec.dec_embedded [of l]
    by (simp add: ipfs_hashtable_node_add_link_def)
qed simp

lemma node_decode_wire:
  assumes wf: "node_wf node" and n: "length (wire (node_fields node)) < 2 ^ 31"
  shows "ipfs_hashtable_node_protobuf_decode (wire (node_fields node)) =
    Some (Inr (node_norm node))"
proof -
  have "fold node_store (node_fields node) ipfs_hashtable_node_new = node_norm node"
    using wf by (simp add: node_fields_def node_wf_def fold_node_links ipfs_hashtable_node_new_def
        node_norm_def)
  moreover have "wire (node_fields node) \<noteq> []"
    using wf by (cases "node_links node") (auto simp: node_fields_def node_wf_def)
  ultimately show ?thesis
    unfolding ipfs_hashtable_node_protobuf_decode_def
    using pb_decode_loop_wire [OF n, of "node_fields node" _ node_store 0] node_decodes [OF n wf]
    by simp
qed

interpretation node_codec: pb_codec node_fields ipfs_hashtable_node_protobuf_encode
  ipfs_hashtable_node_protobuf_encode_size node_wf ipfs_hashtable_node_protobuf_decode node_norm
  by unfold_locales (simp_all add: node_encode_wire node_size_enough node_decode_wire)

section \<open>Properties\<close>

text \<open>
  C9: a node with data or links, none of them entirely empty and no hash above 127 bytes, is
  encoded into a buffer of the estimated size and decoded to itself, its links in order; an
  empty name comes back as no name.
\<close>

theorem node_round_trip:
  assumes "node_links node \<noteq> [] \<or> node_data node \<noteq> []"
    and "\<forall>l \<in> set (node_links node). length (link_hash l) \<le> 127 \<and>
      (link_hash l \<noteq> [] \<or> name_bytes l \<noteq> [] \<or> 0 < link_t_size l)"
    and "ipfs_hashtable_node_protobuf_encode_size node < 2 ^ 31"
  shows "\<exists>bs. ipfs_hashtable_node_protobuf_encode node
      (ipfs_hashtable_node_protobuf_encode_size node) = Inr bs \<and>
    ipfs_hashtable_node_protobuf_decode bs =
      Some (Inr (node\<lparr>node_links := map link_norm (node_links node), node_encoded := None,
        node_hash := []\<rparr>))"
proof -
  have "link_encoder_size l < 2 ^ 31" if "l \<in> set (node_links node)" for l
  proof -
    have "11 + link_encoder_size l \<le> sum_list (map (\<lambda>l. 11 + link_encoder_size l) (node_links node))"
      using that by (intro member_le_sum_list) auto
    then show ?thesis using assms(3) by (simp add: ipfs_hashtable_node_protobuf_encode_size_def)
  qed
  then have "node_wf node" using assms(1,2) by (simp add: node_wf_def link_wf_def)
  from node_codec.round_trip [OF this assms(3)] show ?thesis by (simp add: node_norm_def)
qed

definition sample_node :: hashtable_node where
  "sample_node =
     \<lparr>node_data = [8, 1],
      node_links = [\<lparr>link_hash = [1, 2, 3], link_name = Some [97], link_t_size = 300\<rparr>,
                    \<lparr>link_hash = [4], link_name = Some [], link_t_size = 0\<rparr>],
      node_encoded = None, node_hash = []\<rparr>"

theorem node_round_trip_witness:
  "\<exists>bs. ipfs_hashtable_node_protobuf_encode sample_node
      (ipfs_hashtable_node_protobuf_encode_size sample_node) = Inr bs \<and>
    ipfs_hashtable_node_protobuf_decode bs =
      Some (Inr (sample_node\<lparr>node_links := map link_norm (node_links sample_node)\<rparr>))"
  using node_round_trip [of sample_node]
  by (simp add: sample_node_def name_bytes_def c_string_def ipfs_hashtable_node_protobuf_encode_size_def
      link_encoder_size_def ipfs_node_link_protobuf_encode_size_def)

text \<open>
  The links that are left out above do go wrong. An entirely empty link has the estimate
  0 and writes its empty name all the same, behind the end of its buffer; a hash above 127
  bytes is written from an array that was never set.
\<close>

theorem link_encode_undefined:
  "ipfs_node_link_protobuf_encode ipfs_node_link_new
      (ipfs_node_link_protobuf_encode_size (Some ipfs_node_link_new)) = Inl Undefined \<and>
   (127 < length (link_hash l) \<and> length (link_hash l) < 2 ^ 31 - 2 \<longrightarrow>
      ipfs_node_link_protobuf_encode l n = Inl Undefined)"
proof
  have "unat (pb_tag 2 WIRETYPE_LENGTH_DELIMITED) = 18"
    using pb_tag_nat(2) [of 2] by simp
  then have "pb_tag 2 WIRETYPE_LENGTH_DELIMITED AND MSBALL = 0"
    by (simp add: MSBALL_zero_iff)
  then have "varint_encode (pb_tag 2 WIRETYPE_LENGTH_DELIMITED) 0 0 = Inl Undefined"
    unfolding varint_encode_def by (subst varint_encode_loop.simps) simp
  then show "ipfs_node_link_protobuf_encode ipfs_node_link_new
      (ipfs_node_link_protobuf_encode_size (Some ipfs_node_link_new)) = Inl Undefined"
    by (simp add: ipfs_node_link_new_def ipfs_node_link_protobuf_encode_def put_string_def
        ipfs_node_link_protobuf_encode_size_def name_bytes_def protobuf_encode_string_def
        protobuf_encode_length_delimited_def c_int_def)
next
  have "put_link_hash h n out = Inl Undefined" if "127 < length h" for h out
    using that by (simp add: put_link_hash_def mh_new_def mh_errors MH_H_SHA2_256_def)
  then show "127 < length (link_hash l) \<and> length (link_hash l) < 2 ^ 31 - 2 \<longrightarrow>
      ipfs_node_link_protobuf_encode l n = Inl Undefined"
    by (auto simp: ipfs_node_link_protobuf_encode_def)
qed

theorem link_encode_undefined_witness:
  "ipfs_node_link_protobuf_encode \<lparr>link_hash = replicate 128 1, link_name = None, link_t_size = 0\<rparr>
    1000 = Inl Undefined"
  using link_encode_undefined [of "\<lparr>link_hash = replicate 128 1, link_name = None, link_t_size = 0\<rparr>"]
  by simp

text \<open>
  An eight-byte node makes the decoder loop for ever, through a link whose name has a
  length that is negative as an \<open>int\<close>.
\<close>

theorem node_decode_diverges:
  "ipfs_hashtable_node_protobuf_decode [0x12, 6, 0x12, 0xFA, 0xFF, 0xFF, 0xFF, 0x0F] = None"
proof -
  let ?link = "[0x12, 0xFA, 0xFF, 0xFF, 0xFF, 0x0F] :: bytes"
  let ?node = "0x12 # 6 # ?link"
  have "protobuf_decode_field_and_type (drop 0 ?link) (length ?link) = Inr (2, 2, 1)"
    by (simp add: varint_eval)
  moreover have "ipfs_node_link_field ?link 2 (0 + 1) ipfs_node_link_new =
      Some (Inr (ipfs_node_link_new, 0))"
    by (simp add: ipfs_node_link_field_def varint_eval)
  ultimately have "ipfs_node_link_protobuf_decode ?link = None"
    unfolding ipfs_node_link_protobuf_decode_def by (intro pb_decode_loop_stuck) simp_all
  moreover have "protobuf_decode_field_and_type ?node (length ?node) = Inr (2, 2, 1)"
    by (simp add: varint_eval)
  moreover have "protobuf_decode_length_delimited (drop 1 ?node) (length ?node - 1) = Inr (?link, 7)"
    by (simp add: protobuf_decode_length_delimited_def varint_eval malloc_ok_def)
  ultimately show ?thesis
    unfolding ipfs_hashtable_node_protobuf_decode_def
    by (subst pb_decode_loop.simps) (simp add: ipfs_hashtable_node_field_def)
qed

text \<open>
  A node created as a directory is one; a node whose data decodes to another type, or to
  nothing, is not.
\<close>

theorem node_directory:
  "\<exists>node. ipfs_hashtable_node_create_directory = Inr node \<and>
    ipfs_hashtable_node_is_directory node = Some (Inr True) \<and>
    ipfs_hashtable_node_is_directory ipfs_hashtable_node_new = Some (Inr False) \<and>
    ipfs_hashtable_node_is_directory any \<noteq> None"
proof -
  let ?dir = "ipfs_unixfs_new\<lparr>data_type := UNIXFS_DIRECTORY\<rparr>"
  have wf: "unixfs_wf ?dir"
    by (simp add: unixfs_wf_def UNIXFS_SYMLINK_def UNIXFS_DIRECTORY_def)
  obtain bs where enc: "ipfs_unixfs_protobuf_encode (Some ?dir) (ipfs_unixfs_protobuf_encode_size ?dir) =
      Inr bs"
    and dec: "ipfs_unixfs_protobuf_decode bs = Some (Inr ?dir)" and len: "length bs = 2"
    using unixfs_codec.enc_estimated [OF wf] unixfs_codec.dec_embedded [OF wf]
    by (simp add: ipfs_unixfs_protobuf_encode_size_def ipfs_unixfs_new_def unixfs_norm_def
        unixfs_fields_def field_bytes_def leb128_small UNIXFS_DIRECTORY_def)
  let ?node = "ipfs_hashtable_node_new\<lparr>node_data := bs\<rparr>"
  have "ipfs_hashtable_node_create_directory = Inr ?node"
    using enc len by (simp add: ipfs_hashtable_node_create_directory_def
        ipfs_hashtable_node_set_data_def malloc_ok_def)
  moreover have "ipfs_hashtable_node_is_directory ?node = Some (Inr True)"
    using dec len by (simp add: ipfs_hashtable_node_is_directory_def)
  moreover have "ipfs_hashtable_node_is_directory ipfs_hashtable_node_new = Some (Inr False)"
    by (simp add: ipfs_hashtable_node_is_directory_def ipfs_hashtable_node_new_def)
  moreover have "ipfs_hashtable_node_is_directory any \<noteq> None"
    using unixfs_decode_terminates [of "node_data any"]
    unfolding ipfs_hashtable_node_is_directory_def
    by (simp add: bind_run_not_None del: not_None_eq)
  ultimately show ?thesis by blast
qed

text \<open>
  Looking a link up by name gives the first link of that name, when every link has a
  name.
\<close>

theorem node_get_link_by_name:
  assumes "\<forall>l \<in> set (node_links node). link_name l \<noteq> None"
  shows "ipfs_hashtable_node_get_link_by_name node name =
    (if \<exists>l \<in> set (node_links node). name_matches (Some name) l
     then Inr (Some (length (takeWhile (\<lambda>l. \<not> name_matches (Some name) l) (node_links node))))
     else Inr None)"
proof -
  have "get_link_by_name (map Some ls) name i =
      (if \<exists>l \<in> set ls. name_matches (Some name) l
       then Inr (Some (i + length (takeWhile (\<lambda>l. \<not> name_matches (Some name) l) ls)))
       else Inr None)"
    if "\<forall>l \<in> set ls. link_name l \<noteq> None" for ls i
    using that by (induction ls arbitrary: i) (auto simp: name_matches_def)
  from this [OF assms, of 0] show ?thesis by (simp add: ipfs_hashtable_node_get_link_by_name_def)
qed

theorem node_get_link_by_name_witness:
  "ipfs_hashtable_node_get_link_by_name sample_node [97] = Inr (Some 0)"
proof -
  have "\<forall>l \<in> set (node_links sample_node). link_name l \<noteq> None"
    by (simp add: sample_node_def)
  from node_get_link_by_name [OF this, of "[97]"] show ?thesis
    by (simp add: sample_node_def name_matches_def)
qed

text \<open>
  Removing a link by name removes the first link of that name and only it, except that
  the only link of a node is reported as removed and stays.
\<close>

theorem node_remove_link_by_name:
  "ipfs_hashtable_node_remove_link_by_name name node =
    (case dropWhile (\<lambda>l. \<not> name_matches name l) (node_links node) of
       [] \<Rightarrow> (False, node)
     | l # after \<Rightarrow>
         (True,
          if node_links node = [l] then node
          else node\<lparr>node_links :=
            takeWhile (\<lambda>l. \<not> name_matches name l) (node_links node) @ after\<rparr>))"
proof (cases "dropWhile (\<lambda>l. \<not> name_matches name l) (node_links node)")
  case (Cons l after)
  then have "node_links node = takeWhile (\<lambda>l. \<not> name_matches name l) (node_links node) @ l # after"
    by (metis takeWhile_dropWhile_id)
  then have "node_links node = [l] \<longleftrightarrow>
      takeWhile (\<lambda>l. \<not> name_matches name l) (node_links node) = [] \<and> after = []"
    by (metis append_Nil append_self_conv2 butlast.simps(2) butlast_snoc list.inject list.sel(3)
        self_append_conv2 tl_append2 append_is_Nil_conv list.distinct(1))
  with Cons show ?thesis
    by (simp add: ipfs_hashtable_node_remove_link_by_name_def Let_def)
next
  case Nil
  then show ?thesis
    unfolding ipfs_hashtable_node_remove_link_by_name_def Let_def by (simp only: list.case)
qed

lemma strtok_all_segment:
  assumes "seg \<noteq> []" and "47 \<notin> set seg"
  shows "strtok_all (seg @ 47 # rest) = seg # strtok_all rest" and "strtok_all seg = [seg]"
proof -
  have hd: "dropWhile (\<lambda>b. b = 47) (seg @ xs) = seg @ xs" for xs
    using assms by (cases seg) auto
  have tk: "takeWhile (\<lambda>b. b \<noteq> 47) (seg @ 47 # rest) = seg" "takeWhile (\<lambda>b. b \<noteq> 47) seg = seg"
    "dropWhile (\<lambda>b. b \<noteq> 47) (seg @ 47 # rest) = 47 # rest" "dropWhile (\<lambda>b. b \<noteq> 47) seg = []"
    using assms(2) by (auto simp: takeWhile_append dropWhile_append takeWhile_eq_all_conv)
  have "strtok_all (47 # rest) = strtok_all rest"
    by (subst (1 2) strtok_all.simps) simp
  then show "strtok_all (seg @ 47 # rest) = seg # strtok_all rest"
    using assms(1) hd [of "47 # rest"] tk by (subst strtok_all.simps) (simp add: Let_def)
  show "strtok_all seg = [seg]"
    using assms(1) hd [of "[]"] tk
    by (subst strtok_all.simps)
      (simp add: Let_def strtok_all.simps [of "[]"] dropWhile_eq_Nil_conv [THEN iffD2])
qed

fun join_path :: "bytes list \<Rightarrow> bytes" where
  "join_path [] = []"
| "join_path [s] = s"
| "join_path (s # t # ss) = s @ 47 # join_path (t # ss)"

text \<open>
  A path that \<open>Node_Resolve\<close> is given as slash-separated names comes back as those names,
  and \<open>Node_Resolve_Max_Size\<close> is their number.
\<close>

theorem node_resolve_names:
  assumes "\<forall>s \<in> set segs. s \<noteq> [] \<and> 47 \<notin> set s \<and> 0 \<notin> set s"
  shows "Node_Resolve (Some (join_path segs)) = Inr segs \<and>
    Node_Resolve_Max_Size (Some (join_path segs)) = int (length segs)"
proof -
  have "strtok_all (join_path segs) = segs \<and> 0 \<notin> set (join_path segs)"
    using assms
  proof (induction segs rule: join_path.induct)
    case 1
    then show ?case by (simp add: strtok_all.simps)
  next
    case (2 s)
    then show ?case by (simp add: strtok_all_segment)
  next
    case (3 s t ss)
    then show ?case by (simp add: strtok_all_segment)
  qed
  then show ?thesis by (simp add: Node_Resolve_def Node_Resolve_Max_Size_def)
qed

theorem node_resolve_names_witness: "Node_Resolve (Some [102, 111, 47, 98]) = Inr [[102, 111], [98]]"
  using node_resolve_names [of "[[102, 111], [98]]"] by simp

text \<open>
  \<open>Node_Resolve_Links\<close> never returns a link, and the links it found are freed while the
  node still points to them.
\<close>

theorem resolve_links_frees:
  assumes "Node_Resolve_Links node path = Inr (ammount, links)"
  shows "ammount = 0 \<and> length links = length (node_links node) \<and>
    (\<forall>i < length links. links ! i = Some (node_links node ! i) \<or> links ! i = None) \<and>
    (\<forall>name. Node_Resolve (Some path) = Inr [name] \<longrightarrow>
       get_link_by_name (map Some (node_links node)) name 0 = Inr (Some i) \<longrightarrow>
       links = (map Some (node_links node))[i := None])"
proof -
  have "n = m \<and> length ls' = length ls \<and> (\<forall>i < length ls. ls' ! i = ls ! i \<or> ls' ! i = None)"
    if "resolve_names names m ls = Inr (n, ls')" for names m n ls ls'
    using that
  proof (induction names arbitrary: ls)
    case (Cons name names)
    from Cons.prems obtain found where "get_link_by_name ls name 0 = Inr found"
      and r: "(case found of None \<Rightarrow> resolve_names names m ls
        | Some i \<Rightarrow> resolve_names names m (ls[i := None])) = Inr (n, ls')"
      by auto
    show ?case
    proof (cases found)
      case None
      with Cons.IH r show ?thesis by simp
    next
      case (Some i)
      with Cons.IH [of "ls[i := None]"] r have IH: "n = m" "length ls' = length ls"
        "\<And>j. j < length ls \<Longrightarrow> ls' ! j = ls[i := None] ! j \<or> ls' ! j = None"
        by auto
      have "ls' ! j = ls ! j \<or> ls' ! j = None" if "j < length ls" for j
        using IH(3) [OF that] that by (cases "j = i") auto
      with IH(1,2) show ?thesis by blast
    qed
  qed simp
  from this [of _ 0 "map Some (node_links node)" ammount links] show ?thesis
    using assms by (auto simp: Node_Resolve_Links_def Node_Resolve_def)
qed

theorem resolve_links_frees_witness:
  "Node_Resolve_Links sample_node [97] =
    Inr (0, [None, Some \<lparr>link_hash = [4], link_name = Some [], link_t_size = 0\<rparr>])"
proof -
  have n: "Node_Resolve (Some [97]) = Inr [[97]]"
    using strtok_all_segment(2) [of "[97]"] by (simp add: Node_Resolve_def)
  have g: "get_link_by_name (map Some (node_links sample_node)) [97] 0 = Inr (Some 0)"
    by (simp add: sample_node_def)
  have r: "Node_Resolve_Links sample_node [97] = Inr (0, (map Some (node_links sample_node))[0 := None])"
    using n g by (simp add: Node_Resolve_Links_def)
  show ?thesis using resolve_links_frees [OF r, of 0] r by (simp add: sample_node_def)
qed

end
