(* ===== verification/Journal.thy ===== *)
theory Journal
  imports Protobuf Vector
begin

text \<open>
  The messages of the journal protocol: \<open>libipfs/journal/journal_entry.c\<close> and
  \<open>journal_message.c\<close>. The vector of entries is made by \<open>vector_new(1)\<close>, so adding to it is
  appending (theory \<open>Vector\<close>), and it is a list here. A decoder's local \<open>got_something\<close> is
  kept beside the object.

  The sizes are computed in \<open>int\<close>; sums beyond its range, which would take hashes of
  2 GiB, are not considered.
\<close>

section \<open>Entries\<close>

record journal_entry =
  timestamp :: u64
  pin :: byte
  je_hash :: bytes

definition ipfs_journal_entry_new :: journal_entry where
  "ipfs_journal_entry_new = \<lparr>timestamp = 0, pin = 0, je_hash = []\<rparr>"

definition ipfs_journal_entry_encode_size :: "journal_entry \<Rightarrow> int" where
  "ipfs_journal_entry_encode_size e = c_int (int (length (je_hash e))) + 11 + 1 + 11"

definition ipfs_journal_entry_encode :: "journal_entry \<Rightarrow> nat \<Rightarrow> bytes result" where
  "ipfs_journal_entry_encode e max_len =
     (if max_len = 0 then Inl Failure
      else
        chain
          [put_varint 1 (timestamp e) max_len,
           put_bytes 2 (je_hash e) max_len,
           put_varint 3 (ucast (pin e)) max_len] [])"

definition ipfs_journal_entry_field ::
    "bytes \<Rightarrow> int \<Rightarrow> nat \<Rightarrow> journal_entry \<times> bool \<Rightarrow> ((journal_entry \<times> bool) \<times> nat) run" where
  "ipfs_journal_entry_field buf field_no pos s =
     (let rest = drop pos buf; remaining = length buf - pos; e = fst s
      in Some
        (if field_no = 1 then
           bind_res (protobuf_decode_varint rest remaining) (\<lambda>(v, n).
           Inr ((e\<lparr>timestamp := v\<rparr>, True), pos + n))
         else if field_no = 2 then
           bind_res (protobuf_decode_length_delimited rest remaining) (\<lambda>(d, n).
           Inr ((e\<lparr>je_hash := d\<rparr>, True), pos + n))
         else if field_no = 3 then
           bind_res (protobuf_decode_varint rest remaining) (\<lambda>(v, n).
           Inr ((e\<lparr>pin := (if v = 1 then 1 else 0)\<rparr>, True), pos + n))
         else Inr (s, pos)))"

definition ipfs_journal_entry_decode :: "bytes \<Rightarrow> journal_entry run" where
  "ipfs_journal_entry_decode buf =
     bind_run (pb_decode_loop (ipfs_journal_entry_field buf) buf 0 (ipfs_journal_entry_new, False))
       (\<lambda>(e, got_something). Some (if got_something then Inr e else Inl Failure))"

section \<open>Messages\<close>

record journal_message =
  current_epoch :: u64
  start_epoch :: u64
  end_epoch :: u64
  journal_entries :: "journal_entry list"

definition ipfs_journal_message_new :: journal_message where
  "ipfs_journal_message_new =
     \<lparr>current_epoch = 0, start_epoch = 0, end_epoch = 0, journal_entries = []\<rparr>"

definition ipfs_journal_message_encode_size :: "journal_message \<Rightarrow> int" where
  "ipfs_journal_message_encode_size m =
     33 + sum_list (map ipfs_journal_entry_encode_size (journal_entries m))"

definition journal_entry_buffer :: "journal_entry \<Rightarrow> nat" where
  "journal_entry_buffer e = c_size (ipfs_journal_entry_encode_size e)"

definition ipfs_journal_message_encode :: "journal_message \<Rightarrow> nat \<Rightarrow> bytes result" where
  "ipfs_journal_message_encode m max_len =
     (if max_len = 0 then Inl Failure
      else
        chain
          ([put_varint 1 (current_epoch m) max_len,
            put_varint 2 (start_epoch m) max_len,
            put_varint 3 (end_epoch m) max_len] @
           map (\<lambda>e. put_message journal_entry_buffer ipfs_journal_entry_encode 4 e max_len)
             (journal_entries m)) [])"

text \<open>
  The bytes of an entry: a failure of the wire helper is not looked at, and what follows then
  uses a pointer that was never set.
\<close>

definition ipfs_journal_message_field ::
    "bytes \<Rightarrow> int \<Rightarrow> nat \<Rightarrow> journal_message \<times> bool \<Rightarrow> ((journal_message \<times> bool) \<times> nat) run" where
  "ipfs_journal_message_field buf field_no pos s =
     (let rest = drop pos buf; remaining = length buf - pos; m = fst s;
          varint_field = (\<lambda>store.
            Some (bind_res (protobuf_decode_varint rest remaining) (\<lambda>(v, n).
            Inr ((store v, True), pos + n))))
      in
        if field_no = 1 then varint_field (\<lambda>v. m\<lparr>current_epoch := v\<rparr>)
        else if field_no = 2 then varint_field (\<lambda>v. m\<lparr>start_epoch := v\<rparr>)
        else if field_no = 3 then varint_field (\<lambda>v. m\<lparr>end_epoch := v\<rparr>)
        else if field_no = 4 then
          (case protobuf_decode_length_delimited rest remaining of
             Inl e \<Rightarrow> Some (Inl (if e = Failure then Undefined else e))
           | Inr (d, n) \<Rightarrow>
               bind_run (ipfs_journal_entry_decode d) (\<lambda>e.
               Some (Inr ((m\<lparr>journal_entries := journal_entries m @ [e]\<rparr>, True), pos + n))))
        else Some (Inr (s, pos)))"

definition ipfs_journal_message_decode :: "bytes \<Rightarrow> journal_message run" where
  "ipfs_journal_message_decode buf =
     bind_run (pb_decode_loop (ipfs_journal_message_field buf) buf 0 (ipfs_journal_message_new, False))
       (\<lambda>(m, got_something). Some (if got_something then Inr m else Inl Failure))"

section \<open>The wire format\<close>

definition journal_entry_fields :: "journal_entry \<Rightarrow> wire_field list" where
  "journal_entry_fields e =
     [Varint_Field 1 (timestamp e), Bytes_Field 2 (je_hash e), Varint_Field 3 (ucast (pin e))]"

text \<open>
  The size estimate of a message has no room for the tag and length of its entries; that is
  made up for by the estimates of the entries as long as the hashes are below a megabyte.
\<close>

definition journal_entry_wf :: "journal_entry \<Rightarrow> bool" where
  "journal_entry_wf e \<longleftrightarrow> length (je_hash e) < 2 ^ 20"

definition journal_entry_norm :: "journal_entry \<Rightarrow> journal_entry" where
  "journal_entry_norm e = e\<lparr>pin := (if pin e = 1 then 1 else 0)\<rparr>"

fun journal_entry_store :: "wire_field \<Rightarrow> journal_entry \<times> bool \<Rightarrow> journal_entry \<times> bool" where
  "journal_entry_store (Varint_Field k v) s =
     (if k = 1 then ((fst s)\<lparr>timestamp := v\<rparr>, True)
      else if k = 3 then ((fst s)\<lparr>pin := (if v = 1 then 1 else 0)\<rparr>, True) else s)"
| "journal_entry_store (Bytes_Field k d) s = (if k = 2 then ((fst s)\<lparr>je_hash := d\<rparr>, True) else s)"

lemma journal_entry_decodes:
  assumes "length buf < 2 ^ 31" and "f \<in> set (journal_entry_fields e)"
  shows "fnum f < 2 ^ 28 \<and> decodes (ipfs_journal_entry_field buf) buf journal_entry_store f"
  using assms
  by (auto simp: journal_entry_fields_def intro!: decodesI simp: ipfs_journal_entry_field_def Let_def)

lemma journal_entry_encode_wire:
  assumes fits: "length (wire (journal_entry_fields e)) \<le> n" and n: "n < 2 ^ 31"
  shows "ipfs_journal_entry_encode e n = Inr (wire (journal_entry_fields e))"
proof -
  have "0 < length (wire (journal_entry_fields e))" by (simp add: journal_entry_fields_def)
  then have "n \<noteq> 0" using fits by linarith
  then show ?thesis
    unfolding ipfs_journal_entry_encode_def if_not_P [OF \<open>n \<noteq> 0\<close>]
    by (intro chain_writes [OF _ fits], unfold journal_entry_fields_def)
      (intro writes_intros; use n in simp)
qed

lemma entry_buffer: "journal_entry_wf e \<Longrightarrow> journal_entry_buffer e = length (je_hash e) + 23"
  by (simp add: journal_entry_buffer_def ipfs_journal_entry_encode_size_def journal_entry_wf_def c_arith)

lemma entry_wire_length:
  assumes "journal_entry_wf e"
  shows "length (wire (journal_entry_fields e)) \<le> length (je_hash e) + 18"
proof -
  have "length (leb128 (length (je_hash e))) \<le> 3"
    using assms leb128_length_le [of "length (je_hash e)" 2] by (simp add: journal_entry_wf_def)
  moreover have "length (field_bytes (Varint_Field 3 (ucast (pin e)))) \<le> 3"
    using unat_byte_less [of "pin e"] length_varint_field_le [of 3 "ucast (pin e)" 1]
    by (simp add: unat_ucast_byte)
  ultimately show ?thesis
    using length_varint_field [of 1 "timestamp e"]
    by (simp add: journal_entry_fields_def field_bytes_def [of "Bytes_Field 2 (je_hash e)"] leb128_small)
qed

lemma ucast_byte_1: "(ucast (b :: byte) :: u64) = 1 \<longleftrightarrow> b = 1"
  by (simp add: word_unat_eq_iff unat_ucast_byte)

lemma journal_entry_decode_wire:
  assumes n: "length (wire (journal_entry_fields e)) < 2 ^ 31"
  shows "ipfs_journal_entry_decode (wire (journal_entry_fields e)) = Some (Inr (journal_entry_norm e))"
proof -
  have "fold journal_entry_store (journal_entry_fields e) (ipfs_journal_entry_new, False) = (journal_entry_norm e, True)"
    by (simp add: journal_entry_fields_def ipfs_journal_entry_new_def journal_entry_norm_def ucast_byte_1)
  then show ?thesis
    unfolding ipfs_journal_entry_decode_def
    using pb_decode_loop_wire [OF n, of "journal_entry_fields e" _ journal_entry_store 0] journal_entry_decodes [OF n] by simp
qed

interpretation journal_entry_codec: pb_codec journal_entry_fields ipfs_journal_entry_encode journal_entry_buffer
  journal_entry_wf ipfs_journal_entry_decode journal_entry_norm
proof
  fix e
  assume "journal_entry_wf e"
  then show "length (wire (journal_entry_fields e)) \<le> journal_entry_buffer e"
    using entry_wire_length [of e] by (simp add: entry_buffer)
qed (simp_all add: journal_entry_encode_wire journal_entry_decode_wire)

definition journal_message_fields :: "journal_message \<Rightarrow> wire_field list" where
  "journal_message_fields m =
     [Varint_Field 1 (current_epoch m), Varint_Field 2 (start_epoch m), Varint_Field 3 (end_epoch m)] @
     map (\<lambda>e. Bytes_Field 4 (wire (journal_entry_fields e))) (journal_entries m)"

definition journal_message_wf :: "journal_message \<Rightarrow> bool" where
  "journal_message_wf m \<longleftrightarrow> (\<forall>e \<in> set (journal_entries m). journal_entry_wf e)"

definition journal_message_norm :: "journal_message \<Rightarrow> journal_message" where
  "journal_message_norm m = m\<lparr>journal_entries := map journal_entry_norm (journal_entries m)\<rparr>"

fun journal_message_store :: "wire_field \<Rightarrow> journal_message \<times> bool \<Rightarrow> journal_message \<times> bool" where
  "journal_message_store (Varint_Field k v) s =
     (if k = 1 then ((fst s)\<lparr>current_epoch := v\<rparr>, True)
      else if k = 2 then ((fst s)\<lparr>start_epoch := v\<rparr>, True)
      else if k = 3 then ((fst s)\<lparr>end_epoch := v\<rparr>, True) else s)"
| "journal_message_store (Bytes_Field k d) s =
     (if k = 4 then
        (case ipfs_journal_entry_decode d of
           Some (Inr e) \<Rightarrow> ((fst s)\<lparr>journal_entries := journal_entries (fst s) @ [e]\<rparr>, True)
         | _ \<Rightarrow> s)
      else s)"

lemma entry_small: "journal_entry_wf e \<Longrightarrow> journal_entry_buffer e < 2147483648"
  by (simp add: entry_buffer) (simp add: journal_entry_wf_def)

lemma journal_message_decodes:
  assumes n: "length buf < 2 ^ 31" and wf: "journal_message_wf m" and "f \<in> set (journal_message_fields m)"
  shows "fnum f < 2 ^ 28 \<and> decodes (ipfs_journal_message_field buf) buf journal_message_store f"
proof -
  have "decodes (ipfs_journal_message_field buf) buf journal_message_store (Varint_Field k v)"
    if "k \<in> {1, 2, 3}" for k v
    using n that by (auto intro!: decodesI simp: ipfs_journal_message_field_def Let_def)
  moreover have "decodes (ipfs_journal_message_field buf) buf journal_message_store
      (Bytes_Field 4 (wire (journal_entry_fields e)))" if "e \<in> set (journal_entries m)" for e
  proof -
    have "ipfs_journal_entry_decode (wire (journal_entry_fields e)) = Some (Inr (journal_entry_norm e))"
      using wf that by (intro journal_entry_codec.dec_embedded) (auto simp: journal_message_wf_def entry_small)
    then show ?thesis using n
      by (auto intro!: decodesI simp: ipfs_journal_message_field_def Let_def)
  qed
  ultimately show ?thesis using assms(3) by (auto simp: journal_message_fields_def)
qed

lemma journal_message_encode_wire:
  assumes wf: "journal_message_wf m" and fits: "length (wire (journal_message_fields m)) \<le> n" and n: "n < 2 ^ 31"
  shows "ipfs_journal_message_encode m n = Inr (wire (journal_message_fields m))"
proof -
  have "0 < length (wire (journal_message_fields m))" by (simp add: journal_message_fields_def)
  then have "n \<noteq> 0" using fits by linarith
  then show ?thesis
    unfolding ipfs_journal_message_encode_def if_not_P [OF \<open>n \<noteq> 0\<close>]
    by (intro chain_writes [OF _ fits], unfold journal_message_fields_def)
      (intro writes_append writes_Cons writes_Nil writes_put_varint writes_map
        journal_entry_codec.writes_embedded; use n wf in \<open>simp add: journal_message_wf_def entry_small\<close>)
qed

lemma entries_size:
  "\<forall>e \<in> set es. journal_entry_wf e \<Longrightarrow>
   sum_list (map ipfs_journal_entry_encode_size es) =
     int (sum_list (map (\<lambda>e. length (je_hash e) + 23) es))"
  by (induction es) (simp_all add: journal_entry_wf_def ipfs_journal_entry_encode_size_def c_arith)

definition journal_message_buffer :: "journal_message \<Rightarrow> nat" where
  "journal_message_buffer m = c_size (ipfs_journal_message_encode_size m)"

lemma entries_wire_length:
  "\<forall>e \<in> set es. journal_entry_wf e \<Longrightarrow>
   length (wire (map (\<lambda>e. Bytes_Field 4 (wire (journal_entry_fields e))) es)) \<le>
     sum_list (map (\<lambda>e. length (je_hash e) + 23) es)"
proof (induction es)
  case (Cons e es)
  let ?w = "wire (journal_entry_fields e)"
  have "length ?w \<le> length (je_hash e) + 18" "length (je_hash e) < 2 ^ 20"
    using Cons.prems entry_wire_length [of e] by (simp_all add: journal_entry_wf_def)
  then have "length (leb128 (length ?w)) \<le> 4"
    using leb128_length_le [of "length ?w" 3] by simp
  with \<open>length ?w \<le> length (je_hash e) + 18\<close>
  have "length (field_bytes (Bytes_Field 4 ?w)) \<le> length (je_hash e) + 23"
    by (simp add: field_bytes_def leb128_small)
  then show ?case using Cons by simp
qed simp

lemma journal_message_size_enough:
  assumes wf: "journal_message_wf m" and s: "ipfs_journal_message_encode_size m < 2 ^ 31"
  shows "length (wire (journal_message_fields m)) \<le> journal_message_buffer m"
proof -
  let ?n = "sum_list (map (\<lambda>e. length (je_hash e) + 23) (journal_entries m))"
  have "ipfs_journal_message_encode_size m = 33 + int ?n"
    using wf by (simp add: ipfs_journal_message_encode_size_def journal_message_wf_def entries_size)
  then have "journal_message_buffer m = 33 + ?n"
    using s c_size_nat [of "33 + ?n"] by (simp add: journal_message_buffer_def)
  then show ?thesis
    using wf entries_wire_length [of "journal_entries m"] length_varint_field [of 1 "current_epoch m"]
      length_varint_field [of 2 "start_epoch m"] length_varint_field [of 3 "end_epoch m"]
    by (simp add: journal_message_fields_def journal_message_wf_def)
qed

lemma fold_entries:
  assumes "\<forall>e \<in> set es. journal_entry_wf e"
  shows "fold journal_message_store (map (\<lambda>e. Bytes_Field 4 (wire (journal_entry_fields e))) es) (m, True) =
    (m\<lparr>journal_entries := journal_entries m @ map journal_entry_norm es\<rparr>, True)"
  using assms
proof (induction es arbitrary: m)
  case (Cons e es)
  then show ?case using journal_entry_codec.dec_embedded [of e] by (simp add: entry_small)
qed simp

lemma journal_message_decode_wire:
  assumes wf: "journal_message_wf m" and n: "length (wire (journal_message_fields m)) < 2 ^ 31"
  shows "ipfs_journal_message_decode (wire (journal_message_fields m)) = Some (Inr (journal_message_norm m))"
proof -
  have "fold journal_message_store (journal_message_fields m) (ipfs_journal_message_new, False) =
      (journal_message_norm m, True)"
    using wf by (simp add: journal_message_fields_def journal_message_wf_def fold_entries ipfs_journal_message_new_def
        journal_message_norm_def)
  then show ?thesis
    unfolding ipfs_journal_message_decode_def
    using pb_decode_loop_wire [OF n, of "journal_message_fields m" _ journal_message_store 0] journal_message_decodes [OF n wf]
    by simp
qed

interpretation journal_message_codec: pb_codec journal_message_fields ipfs_journal_message_encode
  journal_message_buffer "\<lambda>m. journal_message_wf m \<and> ipfs_journal_message_encode_size m < 2 ^ 31"
  ipfs_journal_message_decode journal_message_norm
  by unfold_locales (simp_all add: journal_message_encode_wire journal_message_size_enough journal_message_decode_wire)

lemma entry_field_advances: "advances (ipfs_journal_entry_field buf)"
  by (auto simp: advances_def ipfs_journal_entry_field_def Let_def bind_res_Inr_iff)

lemma entry_decode_terminates: "ipfs_journal_entry_decode buf \<noteq> None"
  unfolding ipfs_journal_entry_decode_def
  by (intro bind_run_not_None pb_decode_loop_terminates entry_field_advances)
    (simp split: prod.split)

lemma message_field_advances: "advances (ipfs_journal_message_field buf)"
proof -
  have "bind_run (ipfs_journal_entry_decode d) (\<lambda>e. Some (f e)) \<noteq> None"
    for d and f :: "journal_entry \<Rightarrow> ((journal_message \<times> bool) \<times> nat) result"
    by (intro bind_run_not_None entry_decode_terminates) simp
  then show ?thesis
    by (auto simp: advances_def ipfs_journal_message_field_def Let_def bind_res_Inr_iff bind_run_Inr_iff
        split: sum.splits prod.splits if_splits)
qed

lemma message_decode_terminates: "ipfs_journal_message_decode buf \<noteq> None"
  unfolding ipfs_journal_message_decode_def
  by (intro bind_run_not_None pb_decode_loop_terminates message_field_advances)
    (simp split: prod.split)

section \<open>Properties\<close>

text \<open>
  A journal message whose hashes are below a megabyte is encoded into a buffer of the
  estimated size, although the estimate leaves out the headers of the entries, and decoded to
  itself with every pin reduced to the flag it stands for. Decoding returns on every input.
\<close>

theorem journal_round_trip:
  assumes "\<forall>e \<in> set (journal_entries m). length (je_hash e) < 2 ^ 20"
    and "ipfs_journal_message_encode_size m < 2 ^ 31"
  shows "(\<exists>bs. ipfs_journal_message_encode m (nat (ipfs_journal_message_encode_size m)) = Inr bs \<and>
      ipfs_journal_message_decode bs =
        Some (Inr (m\<lparr>journal_entries := map journal_entry_norm (journal_entries m)\<rparr>))) \<and>
    ipfs_journal_message_decode buf \<noteq> None"
proof -
  have wf: "journal_message_wf m" using assms(1) by (simp add: journal_message_wf_def journal_entry_wf_def)
  then have "0 \<le> ipfs_journal_message_encode_size m"
    by (simp add: ipfs_journal_message_encode_size_def journal_message_wf_def entries_size)
  then have b: "journal_message_buffer m = nat (ipfs_journal_message_encode_size m)"
    using assms(2) by (simp add: journal_message_buffer_def c_size_small)
  moreover have "journal_message_buffer m < 2 ^ 31" using b assms(2) by simp
  ultimately show ?thesis
    using journal_message_codec.round_trip [of m] wf assms(2) message_decode_terminates [of buf]
    by (simp add: journal_message_norm_def)
qed

theorem journal_round_trip_witness:
  "\<exists>bs. ipfs_journal_message_encode
      \<lparr>current_epoch = 7, start_epoch = 1, end_epoch = 5,
       journal_entries = [\<lparr>timestamp = 3, pin = 2, je_hash = [1, 2]\<rparr>]\<rparr> 58 = Inr bs \<and>
    ipfs_journal_message_decode bs =
      Some (Inr \<lparr>current_epoch = 7, start_epoch = 1, end_epoch = 5,
        journal_entries = [\<lparr>timestamp = 3, pin = 0, je_hash = [1, 2]\<rparr>]\<rparr>)"
  using journal_round_trip [of "\<lparr>current_epoch = 7, start_epoch = 1, end_epoch = 5,
       journal_entries = [\<lparr>timestamp = 3, pin = 2, je_hash = [1, 2]\<rparr>]\<rparr>" "[]"]
  by (simp add: ipfs_journal_message_encode_size_def ipfs_journal_entry_encode_size_def c_int_def
      journal_entry_norm_def)

end
