(* ===== verification/Bitswap_Message.thy ===== *)
theory Bitswap_Message
  imports Block Vector
begin

text \<open>
  The messages of the block exchange, \<open>libipfs/exchange/bitswap/message.c\<close>: want list
  entries, want lists, messages, and the operations that fill a message from the pending
  requests and blocks of a peer.

  A vector that was made is the list of its items, a null vector is \<open>None\<close>. The want list
  entries that the decoder makes come from \<open>malloc\<close> and are not initialised: a member that
  was never set is \<open>None\<close>.
\<close>

section \<open>Bitswap blocks\<close>

record bitswap_block =
  bb_prefix :: bytes
  bb_bytes :: bytes

definition ipfs_bitswap_block_new :: bitswap_block where
  "ipfs_bitswap_block_new = \<lparr>bb_prefix = [], bb_bytes = []\<rparr>"

definition ipfs_bitswap_message_block_protobuf_size :: "bitswap_block \<Rightarrow> nat" where
  "ipfs_bitswap_message_block_protobuf_size b = 33 + length (bb_prefix b) + length (bb_bytes b)"

definition ipfs_bitswap_message_block_protobuf_encode :: "bitswap_block option \<Rightarrow> nat \<Rightarrow> bytes result" where
  "ipfs_bitswap_message_block_protobuf_encode incoming max_len =
     (case incoming of
        None \<Rightarrow> Inr []
      | Some b \<Rightarrow> chain [put_bytes 1 (bb_prefix b) max_len, put_bytes 2 (bb_bytes b) max_len] [])"

text \<open>The decoder keeps the prefix and the bytes it has set; it does not move \<open>pos\<close> past them.\<close>

definition bitswap_block_field ::
    "bytes \<Rightarrow> int \<Rightarrow> nat \<Rightarrow> bytes option \<times> bytes option \<Rightarrow>
     ((bytes option \<times> bytes option) \<times> nat) run" where
  "bitswap_block_field buf field_no pos s =
     (let rest = drop pos buf; remaining = length buf - pos
      in Some
        (if field_no = 1 then
           bind_res (protobuf_decode_length_delimited rest remaining) (\<lambda>(d, n).
           Inr ((Some d, snd s), pos))
         else if field_no = 2 then
           bind_res (protobuf_decode_length_delimited rest remaining) (\<lambda>(d, n).
           Inr ((fst s, Some d), pos))
         else Inr (s, pos)))"

definition ipfs_bitswap_message_block_protobuf_decode ::
    "bytes \<Rightarrow> (bytes option \<times> bytes option) option run" where
  "ipfs_bitswap_message_block_protobuf_decode buf =
     (if buf = [] then Some (Inr None)
      else
        bind_run (pb_decode_loop (bitswap_block_field buf) buf 0 (None, None)) (\<lambda>s.
        Some (Inr (Some s))))"

section \<open>Want list entries\<close>

record wantlist_entry =
  entry_block :: "bytes option"
  entry_cancel :: "byte option"
  entry_priority :: "u32 option"

definition ipfs_bitswap_wantlist_entry_new :: wantlist_entry where
  "ipfs_bitswap_wantlist_entry_new =
     \<lparr>entry_block = Some [], entry_cancel = Some 0, entry_priority = Some 1\<rparr>"

definition ipfs_bitswap_wantlist_entry_protobuf_encode_size :: "wantlist_entry option \<Rightarrow> nat result" where
  "ipfs_bitswap_wantlist_entry_protobuf_encode_size entry =
     (case entry of
        None \<Rightarrow> Inl Undefined
      | Some e \<Rightarrow>
          (case entry_block e of None \<Rightarrow> Inl Undefined | Some b \<Rightarrow> Inr (33 + length b)))"

definition ipfs_bitswap_wantlist_entry_protobuf_encode ::
    "wantlist_entry option \<Rightarrow> nat \<Rightarrow> bytes result" where
  "ipfs_bitswap_wantlist_entry_protobuf_encode entry max_len =
     (case entry of
        None \<Rightarrow> Inr []
      | Some e \<Rightarrow>
          (case (entry_block e, entry_cancel e, entry_priority e) of
             (Some b, Some c, Some p) \<Rightarrow>
               chain
                 [put_bytes 1 b max_len,
                  put_varint 2 (ucast c) max_len,
                  put_varint 3 (ucast p) max_len] []
           | _ \<Rightarrow> Inl Undefined))"

definition wantlist_entry_field ::
    "bytes \<Rightarrow> int \<Rightarrow> nat \<Rightarrow> wantlist_entry \<Rightarrow> (wantlist_entry \<times> nat) run" where
  "wantlist_entry_field buf field_no pos e =
     (let rest = drop pos buf; remaining = length buf - pos
      in Some
        (if field_no = 1 then
           bind_res (protobuf_decode_length_delimited rest remaining) (\<lambda>(d, n).
           Inr (e\<lparr>entry_block := Some d\<rparr>, pos + n))
         else if field_no = 2 then
           bind_res (varint_decode rest (c_int (int remaining))) (\<lambda>(v, n).
           Inr (e\<lparr>entry_cancel := Some (ucast v)\<rparr>, pos + n))
         else if field_no = 3 then
           bind_res (varint_decode rest (c_int (int remaining))) (\<lambda>(v, n).
           Inr (e\<lparr>entry_priority := Some (ucast v)\<rparr>, pos + n))
         else Inr (e, pos)))"

definition ipfs_bitswap_wantlist_entry_protobuf_decode :: "bytes \<Rightarrow> wantlist_entry option run" where
  "ipfs_bitswap_wantlist_entry_protobuf_decode buf =
     (if buf = [] then Some (Inr None)
      else
        bind_run
          (pb_decode_loop (wantlist_entry_field buf) buf 0
             \<lparr>entry_block = None, entry_cancel = None, entry_priority = None\<rparr>) (\<lambda>e.
        Some (Inr (Some e))))"

section \<open>Want lists\<close>

record bitswap_wantlist =
  entries :: "wantlist_entry option list option"
  full :: byte

definition ipfs_bitswap_wantlist_new :: bitswap_wantlist where
  "ipfs_bitswap_wantlist_new = \<lparr>entries = None, full = 1\<rparr>"

fun sum_sizes :: "nat result list \<Rightarrow> nat result" where
  "sum_sizes [] = Inr 0"
| "sum_sizes (r # rs) = bind_res r (\<lambda>n. bind_res (sum_sizes rs) (\<lambda>m. Inr (n + m)))"

definition ipfs_bitswap_wantlist_protobuf_encode_size :: "bitswap_wantlist option \<Rightarrow> nat result" where
  "ipfs_bitswap_wantlist_protobuf_encode_size wl =
     (case wl of
        None \<Rightarrow> Inr 0
      | Some l \<Rightarrow>
          (case entries l of
             None \<Rightarrow> Inl Undefined
           | Some es \<Rightarrow>
               bind_res (sum_sizes (map ipfs_bitswap_wantlist_entry_protobuf_encode_size es)) (\<lambda>n.
               Inr (n + (11 + 12 + 11)))))"

definition ipfs_bitswap_wantlist_protobuf_encode :: "bitswap_wantlist option \<Rightarrow> nat \<Rightarrow> bytes result" where
  "ipfs_bitswap_wantlist_protobuf_encode wl max_len =
     (case wl of
        None \<Rightarrow> Inr []
      | Some l \<Rightarrow>
          (case entries l of
             None \<Rightarrow> Inl Undefined
           | Some es \<Rightarrow>
               chain
                 (map (\<lambda>e. put_message_heap ipfs_bitswap_wantlist_entry_protobuf_encode_size
                        ipfs_bitswap_wantlist_entry_protobuf_encode 1 e max_len) es @
                  [put_varint 2 (ucast (full l)) max_len]) []))"

definition vector_push :: "'a \<Rightarrow> 'a list option \<Rightarrow> 'a list option" where
  "vector_push x v = (case v of None \<Rightarrow> Some [x] | Some xs \<Rightarrow> Some (xs @ [x]))"

definition bitswap_wantlist_field ::
    "bytes \<Rightarrow> int \<Rightarrow> nat \<Rightarrow> bitswap_wantlist \<Rightarrow> (bitswap_wantlist \<times> nat) run" where
  "bitswap_wantlist_field buf field_no pos l =
     (let rest = drop pos buf; remaining = length buf - pos
      in
        if field_no = 1 then
          bind_run (Some (protobuf_decode_length_delimited rest remaining)) (\<lambda>(d, n).
          bind_run (ipfs_bitswap_wantlist_entry_protobuf_decode d) (\<lambda>e.
          Some (Inr (l\<lparr>entries := vector_push e (entries l)\<rparr>, pos + n))))
        else if field_no = 2 then
          Some (bind_res (varint_decode rest (c_int (int remaining))) (\<lambda>(v, n).
          Inr (l\<lparr>full := ucast v\<rparr>, pos + n)))
        else Some (Inr (l, pos)))"

definition ipfs_bitswap_wantlist_protobuf_decode :: "bytes \<Rightarrow> bitswap_wantlist option run" where
  "ipfs_bitswap_wantlist_protobuf_decode buf =
     (if buf = [] then Some (Inr None)
      else
        bind_run (pb_decode_loop (bitswap_wantlist_field buf) buf 0 ipfs_bitswap_wantlist_new) (\<lambda>l.
        Some (Inr (Some l))))"

section \<open>Messages\<close>

record bitswap_message =
  wantlist :: "bitswap_wantlist option"
  blocks :: "ipfs_block list option"
  payload :: "ipfs_block list option"

definition ipfs_bitswap_message_new :: bitswap_message where
  "ipfs_bitswap_message_new = \<lparr>wantlist = None, blocks = None, payload = None\<rparr>"

definition vector_list :: "'a list option \<Rightarrow> 'a list" where
  "vector_list v = (case v of None \<Rightarrow> [] | Some xs \<Rightarrow> xs)"

definition ipfs_bitswap_message_protobuf_encode_size :: "bitswap_message option \<Rightarrow> nat result" where
  "ipfs_bitswap_message_protobuf_encode_size message =
     (case message of
        None \<Rightarrow> Inr 0
      | Some m \<Rightarrow>
          bind_res (ipfs_bitswap_wantlist_protobuf_encode_size (wantlist m)) (\<lambda>w.
          Inr (sum_list (map (\<lambda>b. 11 + length (block_data b)) (vector_list (blocks m))) +
               sum_list (map (\<lambda>b. 11 + ipfs_blocks_block_protobuf_encode_size b)
                 (vector_list (payload m))) +
               w + (11 + 12 + 11))))"

definition ipfs_bitswap_message_protobuf_encode :: "bitswap_message option \<Rightarrow> nat \<Rightarrow> bytes result" where
  "ipfs_bitswap_message_protobuf_encode message max_len =
     (case message of
        None \<Rightarrow> Inr []
      | Some m \<Rightarrow>
          chain
            (map (\<lambda>b. put_bytes 1 (block_data b) max_len) (vector_list (blocks m)) @
             map (\<lambda>b. put_message_heap (\<lambda>b. Inr (ipfs_blocks_block_protobuf_encode_size b))
                    ipfs_blocks_block_protobuf_encode 2 b max_len) (vector_list (payload m)) @
             (if wantlist m \<noteq> None
              then [put_message_heap ipfs_bitswap_wantlist_protobuf_encode_size
                      ipfs_bitswap_wantlist_protobuf_encode 3 (wantlist m) max_len]
              else [])) [])"

definition bitswap_message_field ::
    "bytes \<Rightarrow> int \<Rightarrow> nat \<Rightarrow> bitswap_message \<Rightarrow> (bitswap_message \<times> nat) run" where
  "bitswap_message_field buf field_no pos m =
     (let rest = drop pos buf; remaining = length buf - pos
      in
        if field_no = 1 then
          bind_run (Some (protobuf_decode_length_delimited rest remaining)) (\<lambda>(d, n).
          Some (Inr (m\<lparr>blocks := vector_push (ipfs_block_new\<lparr>block_data := d\<rparr>) (blocks m)\<rparr>, pos + n)))
        else if field_no = 2 then
          bind_run (Some (protobuf_decode_length_delimited rest remaining)) (\<lambda>(d, n).
          bind_run (ipfs_blocks_block_protobuf_decode d) (\<lambda>b.
          Some (Inr (m\<lparr>payload := vector_push b (payload m)\<rparr>, pos + n))))
        else if field_no = 3 then
          bind_run (Some (protobuf_decode_length_delimited rest remaining)) (\<lambda>(d, n).
          bind_run (ipfs_bitswap_wantlist_protobuf_decode d) (\<lambda>l.
          Some (Inr (m\<lparr>wantlist := l\<rparr>, pos + n))))
        else Some (Inr (m, pos)))"

definition ipfs_bitswap_message_protobuf_decode :: "bytes \<Rightarrow> bitswap_message option run" where
  "ipfs_bitswap_message_protobuf_decode buf =
     (if buf = [] then Some (Inr None)
      else
        bind_run (pb_decode_loop (bitswap_message_field buf) buf 0 ipfs_bitswap_message_new) (\<lambda>m.
        Some (Inr (Some m))))"

section \<open>Requests and blocks\<close>

record cid_entry =
  ce_cid :: "cid option"
  ce_cancel :: bool
  ce_cancel_has_been_sent :: bool
  ce_request_has_been_sent :: bool

text \<open>
  The loop over the CIDs: its result, the entries as it leaves them, and the want list. When a
  CID can not be encoded the loop ends there with 0 and what it has done so far stays.
\<close>

fun add_wantlist_loop ::
    "cid_entry list \<Rightarrow> wantlist_entry option list \<Rightarrow>
     (bool \<times> cid_entry list \<times> wantlist_entry option list) result" where
  "add_wantlist_loop [] es = Inr (True, [], es)"
| "add_wantlist_loop (c # cs) es =
     (if ce_cancel c \<and> ce_cancel_has_been_sent c \<or> \<not> ce_cancel c \<and> ce_request_has_been_sent c then
        bind_res (add_wantlist_loop cs es) (\<lambda>(ok, cs', es'). Inr (ok, c # cs', es'))
      else if \<not> malloc_ok (ipfs_cid_protobuf_encode_size (ce_cid c)) then Inr (False, c # cs, es)
      else
        case ipfs_cid_protobuf_encode (ce_cid c) (ipfs_cid_protobuf_encode_size (ce_cid c)) of
          Inl Failure \<Rightarrow> Inr (False, c # cs, es)
        | Inl e \<Rightarrow> Inl e
        | Inr block \<Rightarrow>
            let e = \<lparr>entry_block = Some block, entry_cancel = Some (of_bool (ce_cancel c)),
                     entry_priority = Some 1\<rparr>;
                c' = (if ce_cancel c then c\<lparr>ce_cancel_has_been_sent := True\<rparr>
                      else c\<lparr>ce_request_has_been_sent := True\<rparr>)
            in bind_res (add_wantlist_loop cs (es @ [Some e])) (\<lambda>(ok, cs', es').
               Inr (ok, c' # cs', es')))"

definition ipfs_bitswap_message_add_wantlist_items ::
    "bitswap_message \<Rightarrow> cid_entry list \<Rightarrow> (bool \<times> bitswap_message \<times> cid_entry list) result" where
  "ipfs_bitswap_message_add_wantlist_items m cids =
     (let l = (case wantlist m of None \<Rightarrow> ipfs_bitswap_wantlist_new | Some l \<Rightarrow> l)
      in bind_res (add_wantlist_loop cids (vector_list (entries l))) (\<lambda>(ok, cids', es).
         Inr (ok, m\<lparr>wantlist := Some (l\<lparr>entries := Some es\<rparr>)\<rparr>, cids')))"

fun ipfs_bitswap_message_cancel_cid ::
    "cid_entry list \<Rightarrow> cid option \<Rightarrow> (bool \<times> cid_entry list) result" where
  "ipfs_bitswap_message_cancel_cid [] incoming_cid = Inr (False, [])"
| "ipfs_bitswap_message_cancel_cid (c # cs) incoming_cid =
     bind_res (ipfs_cid_compare (ce_cid c) incoming_cid) (\<lambda>r.
     if r = 0 then Inr (True, c\<lparr>ce_cancel := True\<rparr> # cs)
     else
       bind_res (ipfs_bitswap_message_cancel_cid cs incoming_cid) (\<lambda>(found, cs').
       Inr (found, c # cs')))"

fun add_blocks_loop ::
    "ipfs_block list \<Rightarrow> ipfs_block list \<Rightarrow> cid_entry list \<Rightarrow>
     (ipfs_block list \<times> cid_entry list) result" where
  "add_blocks_loop [] out cids = Inr (out, cids)"
| "add_blocks_loop (b # bs) out cids =
     bind_res (ipfs_bitswap_message_cancel_cid cids (block_cid b)) (\<lambda>(found, cids').
     add_blocks_loop bs (out @ [b]) cids')"

text \<open>The blocks are taken out of the caller's vector, which ends up empty.\<close>

definition ipfs_bitswap_message_add_blocks ::
    "bitswap_message option \<Rightarrow> ipfs_block list option \<Rightarrow> cid_entry list \<Rightarrow>
     (bitswap_message \<times> ipfs_block list \<times> cid_entry list) result" where
  "ipfs_bitswap_message_add_blocks message bs cids_they_want =
     (case (message, bs) of
        (None, _) \<Rightarrow> Inl Failure
      | (_, None) \<Rightarrow> Inl Failure
      | (Some m, Some bs) \<Rightarrow>
          if bs = [] then Inl Failure
          else
            bind_res (add_blocks_loop bs (vector_list (payload m)) cids_they_want) (\<lambda>(out, cids').
            Inr (m\<lparr>payload := Some out\<rparr>, [], cids')))"

section \<open>The wire format\<close>

text \<open>
  An entry as \<open>entry_new\<close> and the program fill it: every member set. Only these can be sent.
\<close>

definition full_entry :: "bytes \<Rightarrow> byte \<Rightarrow> u32 \<Rightarrow> wantlist_entry option" where
  "full_entry b c p = Some \<lparr>entry_block = Some b, entry_cancel = Some c, entry_priority = Some p\<rparr>"

definition entry_fields :: "wantlist_entry option \<Rightarrow> wire_field list" where
  "entry_fields e =
     (case e of
        None \<Rightarrow> []
      | Some e \<Rightarrow>
          [Bytes_Field 1 (the (entry_block e)), Varint_Field 2 (ucast (the (entry_cancel e))),
           Varint_Field 3 (ucast (the (entry_priority e)))])"

definition entry_wf :: "wantlist_entry option \<Rightarrow> bool" where
  "entry_wf e \<longleftrightarrow> (\<exists>b c p. e = full_entry b c p)"

definition entry_size :: "wantlist_entry option \<Rightarrow> nat" where
  "entry_size e = 33 + length (the (entry_block (the e)))"

fun entry_store :: "wire_field \<Rightarrow> wantlist_entry \<Rightarrow> wantlist_entry" where
  "entry_store (Varint_Field k v) e =
     (if k = 2 then e\<lparr>entry_cancel := Some (ucast v)\<rparr>
      else if k = 3 then e\<lparr>entry_priority := Some (ucast v)\<rparr> else e)"
| "entry_store (Bytes_Field k d) e = (if k = 1 then e\<lparr>entry_block := Some d\<rparr> else e)"

lemma entry_size_eq:
  "entry_wf e \<Longrightarrow> ipfs_bitswap_wantlist_entry_protobuf_encode_size e = Inr (entry_size e)"
  by (auto simp: entry_wf_def full_entry_def entry_size_def
      ipfs_bitswap_wantlist_entry_protobuf_encode_size_def)

lemma entry_decodes:
  assumes n: "length buf < 2 ^ 31" and "f \<in> set (entry_fields e)"
  shows "fnum f < 2 ^ 28 \<and> decodes (wantlist_entry_field buf) buf entry_store f"
proof -
  have "decodes (wantlist_entry_field buf) buf entry_store (Varint_Field k v)" if "k = 2 \<or> k = 3" for k v
    using n that by (auto intro!: decodesI simp: wantlist_entry_field_def Let_def)
  moreover have "decodes (wantlist_entry_field buf) buf entry_store (Bytes_Field 1 d)" for d
    using n by (auto intro!: decodesI simp: wantlist_entry_field_def Let_def)
  ultimately show ?thesis using assms(2) by (cases e) (auto simp: entry_fields_def)
qed

lemma entry_encode_wire:
  assumes wf: "entry_wf e" and fits: "length (wire (entry_fields e)) \<le> n" and n: "n < 2 ^ 31"
  shows "ipfs_bitswap_wantlist_entry_protobuf_encode e n = Inr (wire (entry_fields e))"
proof -
  obtain b c p where e: "e = full_entry b c p" using wf by (auto simp: entry_wf_def)
  have f: "entry_fields e = [Bytes_Field 1 b, Varint_Field 2 (ucast c), Varint_Field 3 (ucast p)]"
    by (simp add: e entry_fields_def full_entry_def)
  have "chain [put_bytes 1 b n, put_varint 2 (ucast c) n, put_varint 3 (ucast p) n] [] =
      Inr (wire (entry_fields e))"
    by (rule chain_writes [OF _ fits], unfold f) (intro writes_intros; use n in simp)
  then show ?thesis by (simp add: e full_entry_def ipfs_bitswap_wantlist_entry_protobuf_encode_def)
qed

lemma entry_decode_wire:
  assumes wf: "entry_wf e" and n: "length (wire (entry_fields e)) < 2 ^ 31"
  shows "ipfs_bitswap_wantlist_entry_protobuf_decode (wire (entry_fields e)) = Some (Inr e)"
proof -
  obtain b c p where e: "e = full_entry b c p" using wf by (auto simp: entry_wf_def)
  let ?s = "\<lparr>entry_block = None, entry_cancel = None, entry_priority = None\<rparr>"
  have "Some (fold entry_store (entry_fields e) ?s) = e"
    by (simp add: e entry_fields_def full_entry_def)
  moreover have "wire (entry_fields e) \<noteq> []" by (simp add: e entry_fields_def full_entry_def)
  ultimately show ?thesis
    using pb_decode_loop_wire [OF n, of "entry_fields e" _ entry_store 0 ?s] entry_decodes [OF n]
    by (simp add: ipfs_bitswap_wantlist_entry_protobuf_decode_def)
qed

interpretation bs_entry_codec: pb_codec entry_fields ipfs_bitswap_wantlist_entry_protobuf_encode
  entry_size entry_wf ipfs_bitswap_wantlist_entry_protobuf_decode "\<lambda>e. e"
proof
  fix e
  assume "entry_wf e" and s: "entry_size e < 2 ^ 31"
  then obtain b c p where e: "e = full_entry b c p" by (auto simp: entry_wf_def)
  have "length (field_bytes (Varint_Field 2 (ucast c))) \<le> 3"
    using length_varint_field_le [of 2 "ucast c" 1] unat_byte_less [of c] by (simp add: unat_ucast_byte)
  then show "length (wire (entry_fields e)) \<le> entry_size e"
    using length_bytes_field [of 1 b] length_varint_field [of 3 "ucast p"] s
    by (simp add: e entry_fields_def full_entry_def entry_size_def)
qed (simp_all add: entry_encode_wire entry_decode_wire)

text \<open>A want list that can be sent: it has a vector of entries, all of them set.\<close>

definition wantlist_fields :: "bitswap_wantlist option \<Rightarrow> wire_field list" where
  "wantlist_fields wl =
     (case wl of
        None \<Rightarrow> []
      | Some l \<Rightarrow>
          map (\<lambda>e. Bytes_Field 1 (wire (entry_fields e))) (vector_list (entries l)) @
          [Varint_Field 2 (ucast (full l))])"

definition wantlist_size :: "bitswap_wantlist option \<Rightarrow> nat" where
  "wantlist_size wl =
     (case wl of
        None \<Rightarrow> 0
      | Some l \<Rightarrow> sum_list (map entry_size (vector_list (entries l))) + (11 + 12 + 11))"

definition wantlist_wf :: "bitswap_wantlist option \<Rightarrow> bool" where
  "wantlist_wf wl \<longleftrightarrow>
     (\<forall>l. wl = Some l \<longrightarrow>
        (\<exists>es. entries l = Some es \<and> (\<forall>e \<in> set es. entry_wf e)) \<and> wantlist_size wl < 2 ^ 31)"

text \<open>An empty vector comes back as a null one.\<close>

definition vector_norm :: "('a \<Rightarrow> 'b) \<Rightarrow> 'a list option \<Rightarrow> 'b list option" where
  "vector_norm f v = (if vector_list v = [] then None else Some (map f (vector_list v)))"

definition wantlist_norm :: "bitswap_wantlist option \<Rightarrow> bitswap_wantlist option" where
  "wantlist_norm wl = map_option (\<lambda>l. l\<lparr>entries := vector_norm (\<lambda>e. e) (entries l)\<rparr>) wl"

fun wantlist_store :: "wire_field \<Rightarrow> bitswap_wantlist \<Rightarrow> bitswap_wantlist" where
  "wantlist_store (Varint_Field k v) l = (if k = 2 then l\<lparr>full := ucast v\<rparr> else l)"
| "wantlist_store (Bytes_Field k d) l =
     (if k = 1 then
        (case ipfs_bitswap_wantlist_entry_protobuf_decode d of
           Some (Inr e) \<Rightarrow> l\<lparr>entries := vector_push e (entries l)\<rparr>
         | _ \<Rightarrow> l)
      else l)"

lemma vector_push_list: "vector_push x v = Some (vector_list v @ [x])"
  by (simp add: vector_push_def vector_list_def split: option.split)

lemma vector_list_Some [simp]: "vector_list (Some xs) = xs"
  by (simp add: vector_list_def)

lemma wantlist_size_eq:
  assumes "wantlist_wf wl"
  shows "ipfs_bitswap_wantlist_protobuf_encode_size wl = Inr (wantlist_size wl)"
proof -
  have "sum_sizes (map ipfs_bitswap_wantlist_entry_protobuf_encode_size es) =
      Inr (sum_list (map entry_size es))" if "\<forall>e \<in> set es. entry_wf e" for es
    using that by (induction es) (simp_all add: entry_size_eq)
  then show ?thesis using assms
    by (auto simp: wantlist_wf_def wantlist_size_def ipfs_bitswap_wantlist_protobuf_encode_size_def
        split: option.split)
qed

lemma wantlist_entry_small:
  assumes "sum_list (map entry_size es) < 2 ^ 31" and "e \<in> set es"
  shows "entry_size e < 2 ^ 31"
proof -
  have "entry_size e \<le> sum_list (map entry_size es)"
    using assms(2) by (intro member_le_sum_list) auto
  then show ?thesis using assms(1) by simp
qed

lemma wantlist_wf_entries:
  assumes "wantlist_wf (Some l)"
  obtains es where "entries l = Some es" and "\<forall>e \<in> set es. entry_wf e \<and> entry_size e < 2 ^ 31"
proof -
  obtain es where es: "entries l = Some es" "\<forall>e \<in> set es. entry_wf e"
    and "sum_list (map entry_size es) < 2 ^ 31"
    using assms by (auto simp: wantlist_wf_def wantlist_size_def)
  from that [OF es(1)] es(2) wantlist_entry_small [OF this(3)] show thesis by blast
qed

lemma writes_wantlist_entry:
  assumes "entry_wf e" and "entry_size e < 2 ^ 31" and "n < 2 ^ 31"
  shows "writes n (put_message_heap ipfs_bitswap_wantlist_entry_protobuf_encode_size
      ipfs_bitswap_wantlist_entry_protobuf_encode 1 e n) [Bytes_Field 1 (wire (entry_fields e))]"
  using assms bs_entry_codec.enc_estimated [of e]
  by (intro writes_put_message_heap) (simp_all add: entry_size_eq malloc_ok_def)

lemma wantlist_encode_wire:
  assumes wf: "wantlist_wf wl" and fits: "length (wire (wantlist_fields wl)) \<le> n" and n: "n < 2 ^ 31"
  shows "ipfs_bitswap_wantlist_protobuf_encode wl n = Inr (wire (wantlist_fields wl))"
proof (cases wl)
  case None
  then show ?thesis
    by (simp add: ipfs_bitswap_wantlist_protobuf_encode_def wantlist_fields_def)
next
  case (Some l)
  obtain es where es: "entries l = Some es" "\<forall>e \<in> set es. entry_wf e"
    and s: "sum_list (map entry_size es) < 2 ^ 31"
    using wf Some by (auto simp: wantlist_wf_def wantlist_size_def)
  have f: "wantlist_fields wl = map (\<lambda>e. Bytes_Field 1 (wire (entry_fields e))) es @
      [Varint_Field 2 (ucast (full l))]"
    by (simp add: Some wantlist_fields_def es)
  have "chain (map (\<lambda>e. put_message_heap ipfs_bitswap_wantlist_entry_protobuf_encode_size
      ipfs_bitswap_wantlist_entry_protobuf_encode 1 e n) es @
      [put_varint 2 (ucast (full l)) n]) [] = Inr (wire (wantlist_fields wl))"
    by (rule chain_writes [OF _ fits], unfold f)
      (intro writes_append writes_map writes_Cons writes_Nil writes_put_varint writes_wantlist_entry;
        use n es wantlist_entry_small [OF s] in simp)
  then show ?thesis by (simp add: Some ipfs_bitswap_wantlist_protobuf_encode_def es)
qed

lemma wantlist_size_enough:
  assumes wf: "wantlist_wf wl"
  shows "length (wire (wantlist_fields wl)) \<le> wantlist_size wl"
proof (cases wl)
  case (Some l)
  obtain es where es: "entries l = Some es" "\<forall>e \<in> set es. entry_wf e"
    and s: "sum_list (map entry_size es) < 2 ^ 31"
    using wf Some by (auto simp: wantlist_wf_def wantlist_size_def)
  have "length (wire (map (\<lambda>e. Bytes_Field 1 (wire (entry_fields e))) es)) \<le>
      sum_list (map entry_size es)"
    using es(2) s
  proof (induction es)
    case (Cons e es)
    then obtain b c p where e: "e = full_entry b c p" by (auto simp: entry_wf_def)
    have b: "length b < 2 ^ 31 - 33" using Cons.prems(2) by (simp add: e entry_size_def full_entry_def)
    have "length (field_bytes (Varint_Field 2 (ucast c))) \<le> 3"
      using length_varint_field_le [of 2 "ucast c" 1] unat_byte_less [of c]
      by (simp add: unat_ucast_byte)
    then have w: "length (wire (entry_fields e)) \<le> length b + 20"
      using length_bytes_field [of 1 b] length_varint_field [of 3 "ucast p"] b
      by (simp add: e entry_fields_def full_entry_def)
    then have "length (field_bytes (Bytes_Field 1 (wire (entry_fields e)))) \<le> entry_size e"
      using length_bytes_field [of 1 "wire (entry_fields e)"] b
      by (simp add: e entry_size_def full_entry_def)
    then show ?case using Cons by simp
  qed simp
  then show ?thesis
    using length_varint_field [of 2 "ucast (full l)"]
    by (simp add: Some wantlist_fields_def wantlist_size_def es)
qed (simp add: wantlist_fields_def)

lemma wantlist_decodes:
  assumes n: "length buf < 2 ^ 31" and wf: "wantlist_wf wl" and "f \<in> set (wantlist_fields wl)"
  shows "fnum f < 2 ^ 28 \<and> decodes (bitswap_wantlist_field buf) buf wantlist_store f"
proof -
  have "decodes (bitswap_wantlist_field buf) buf wantlist_store (Varint_Field 2 v)" for v
    using n by (auto intro!: decodesI simp: bitswap_wantlist_field_def Let_def)
  moreover have "decodes (bitswap_wantlist_field buf) buf wantlist_store
      (Bytes_Field 1 (wire (entry_fields e)))" if "entry_wf e" "entry_size e < 2 ^ 31" for e
    using n bs_entry_codec.dec_embedded [OF that]
    by (auto intro!: decodesI simp: bitswap_wantlist_field_def Let_def)
  moreover obtain l es where "wl = Some l" "entries l = Some es"
    "\<forall>e \<in> set es. entry_wf e \<and> entry_size e < 2 ^ 31"
    using assms(3) wf by (cases wl) (auto simp: wantlist_fields_def elim: wantlist_wf_entries)
  ultimately show ?thesis using assms(3) by (auto simp: wantlist_fields_def)
qed

lemma fold_wantlist_entries:
  assumes "\<forall>e \<in> set es. entry_wf e \<and> entry_size e < 2 ^ 31" and "es \<noteq> []"
  shows "fold wantlist_store (map (\<lambda>e. Bytes_Field 1 (wire (entry_fields e))) es) l =
    l\<lparr>entries := Some (vector_list (entries l) @ es)\<rparr>"
  using assms
proof (induction es arbitrary: l)
  case (Cons e es)
  then show ?case using bs_entry_codec.dec_embedded [of e]
    by (cases es) (simp_all add: vector_push_list)
qed simp

lemma wantlist_decode_wire:
  assumes wf: "wantlist_wf wl" and n: "length (wire (wantlist_fields wl)) < 2 ^ 31"
  shows "ipfs_bitswap_wantlist_protobuf_decode (wire (wantlist_fields wl)) =
    Some (Inr (wantlist_norm wl))"
proof (cases wl)
  case None
  then show ?thesis
    by (simp add: ipfs_bitswap_wantlist_protobuf_decode_def wantlist_fields_def wantlist_norm_def)
next
  case (Some l)
  obtain es where es: "entries l = Some es" "\<forall>e \<in> set es. entry_wf e \<and> entry_size e < 2 ^ 31"
    using wf Some wantlist_wf_entries by metis
  have "fold wantlist_store (wantlist_fields wl) ipfs_bitswap_wantlist_new =
      l\<lparr>entries := vector_norm (\<lambda>e. e) (entries l)\<rparr>"
    using fold_wantlist_entries [of es] es
    by (cases "es = []")
      (simp_all add: Some wantlist_fields_def ipfs_bitswap_wantlist_new_def vector_norm_def
        vector_list_def)
  moreover have "wire (wantlist_fields wl) \<noteq> []"
    by (simp add: Some wantlist_fields_def)
  ultimately show ?thesis
    using pb_decode_loop_wire [OF n, of "wantlist_fields wl" _ wantlist_store 0]
      wantlist_decodes [OF n wf]
    by (simp add: ipfs_bitswap_wantlist_protobuf_decode_def wantlist_norm_def Some)
qed

interpretation wantlist_codec: pb_codec wantlist_fields ipfs_bitswap_wantlist_protobuf_encode
  wantlist_size wantlist_wf ipfs_bitswap_wantlist_protobuf_decode wantlist_norm
  by unfold_locales (simp_all add: wantlist_encode_wire wantlist_size_enough wantlist_decode_wire)

definition message_fields :: "bitswap_message \<Rightarrow> wire_field list" where
  "message_fields m =
     map (\<lambda>b. Bytes_Field 1 (block_data b)) (vector_list (blocks m)) @
     map (\<lambda>b. Bytes_Field 2 (wire (block_fields b))) (vector_list (payload m)) @
     (if wantlist m \<noteq> None then [Bytes_Field 3 (wire (wantlist_fields (wantlist m)))] else [])"

definition message_size :: "bitswap_message \<Rightarrow> nat" where
  "message_size m =
     sum_list (map (\<lambda>b. 11 + length (block_data b)) (vector_list (blocks m))) +
     sum_list (map (\<lambda>b. 11 + ipfs_blocks_block_protobuf_encode_size b) (vector_list (payload m))) +
     wantlist_size (wantlist m) + (11 + 12 + 11)"

text \<open>
  A message that can be sent: it has a block or a want list, and the want list has a vector of
  entries with every member set.
\<close>

definition message_wf :: "bitswap_message \<Rightarrow> bool" where
  "message_wf m \<longleftrightarrow>
     (vector_list (blocks m) \<noteq> [] \<or> vector_list (payload m) \<noteq> [] \<or> wantlist m \<noteq> None) \<and>
     (\<forall>b \<in> set (vector_list (payload m)). cid_opt_wf (block_cid b)) \<and>
     (\<forall>l. wantlist m = Some l \<longrightarrow>
        (\<exists>es. entries l = Some es \<and> (\<forall>e \<in> set es. entry_wf e))) \<and>
     message_size m < 2 ^ 31"

definition message_norm :: "bitswap_message \<Rightarrow> bitswap_message" where
  "message_norm m =
     \<lparr>wantlist = wantlist_norm (wantlist m),
      blocks = vector_norm (\<lambda>b. b\<lparr>block_cid := None\<rparr>) (blocks m),
      payload = vector_norm block_norm (payload m)\<rparr>"

fun message_store :: "wire_field \<Rightarrow> bitswap_message \<Rightarrow> bitswap_message" where
  "message_store (Varint_Field k v) m = m"
| "message_store (Bytes_Field k d) m =
     (if k = 1 then
        m\<lparr>blocks := vector_push (ipfs_block_new\<lparr>block_data := d\<rparr>) (blocks m)\<rparr>
      else if k = 2 then
        (case ipfs_blocks_block_protobuf_decode d of
           Some (Inr b) \<Rightarrow> m\<lparr>payload := vector_push b (payload m)\<rparr>
         | _ \<Rightarrow> m)
      else if k = 3 then
        (case ipfs_bitswap_wantlist_protobuf_decode d of
           Some (Inr l) \<Rightarrow> m\<lparr>wantlist := l\<rparr>
         | _ \<Rightarrow> m)
      else m)"

lemma message_wf_wantlist: "message_wf m \<Longrightarrow> wantlist_wf (wantlist m)"
  by (auto simp: message_wf_def message_size_def wantlist_wf_def)

lemma message_wantlist_small: "message_wf m \<Longrightarrow> wantlist_size (wantlist m) < 2 ^ 31"
  by (auto simp: message_wf_def message_size_def)

lemma message_payload:
  assumes "message_wf m" and "b \<in> set (vector_list (payload m))"
  shows "block_wf b" and "ipfs_blocks_block_protobuf_encode_size b < 2 ^ 31"
proof -
  have "11 + ipfs_blocks_block_protobuf_encode_size b \<le>
      sum_list (map (\<lambda>b. 11 + ipfs_blocks_block_protobuf_encode_size b) (vector_list (payload m)))"
    using assms(2) by (intro member_le_sum_list) auto
  then show "ipfs_blocks_block_protobuf_encode_size b < 2 ^ 31"
    using assms(1) by (auto simp: message_wf_def message_size_def)
  then show "block_wf b" using assms
    by (auto simp: message_wf_def block_wf_def ipfs_blocks_block_protobuf_encode_size_def)
qed

lemma message_encode_wire:
  assumes wf: "message_wf m" and fits: "length (wire (message_fields m)) \<le> n" and n: "n < 2 ^ 31"
  shows "ipfs_bitswap_message_protobuf_encode (Some m) n = Inr (wire (message_fields m))"
proof -
  have p: "writes n (put_message_heap (\<lambda>b. Inr (ipfs_blocks_block_protobuf_encode_size b))
      ipfs_blocks_block_protobuf_encode 2 b n) [Bytes_Field 2 (wire (block_fields b))]"
    if "b \<in> set (vector_list (payload m))" for b
    using message_payload [OF wf that] block_codec.enc_estimated [of b] n
    by (intro writes_put_message_heap) (simp_all add: malloc_ok_def)
  have w: "writes n (put_message_heap ipfs_bitswap_wantlist_protobuf_encode_size
      ipfs_bitswap_wantlist_protobuf_encode 3 (wantlist m) n)
      [Bytes_Field 3 (wire (wantlist_fields (wantlist m)))]"
    using message_wf_wantlist [OF wf] message_wantlist_small [OF wf] n
      wantlist_codec.enc_estimated [of "wantlist m"] wantlist_size_eq [of "wantlist m"]
    by (intro writes_put_message_heap) (simp_all add: malloc_ok_def)
  have opt: "writes n (chain (if P then [f] else [])) (if P then [x] else [])"
    if "writes n f [x]" for P f x
    using that by (auto intro: writes_intros)
  show ?thesis
    unfolding ipfs_bitswap_message_protobuf_encode_def option.case
    by (rule chain_writes [OF _ fits], unfold message_fields_def)
      (intro writes_append writes_map opt w p writes_put_bytes; use n in simp)
qed

lemma message_size_enough:
  assumes wf: "message_wf m"
  shows "length (wire (message_fields m)) \<le> message_size m"
proof -
  let ?bs = "vector_list (blocks m)" and ?ps = "vector_list (payload m)"
  have "length (wire (map (\<lambda>b. Bytes_Field 1 (block_data b)) bs)) \<le>
      sum_list (map (\<lambda>b. 11 + length (block_data b)) bs)"
    if "sum_list (map (\<lambda>b. 11 + length (block_data b)) bs) < 2 ^ 31" for bs
    using that
  proof (induction bs)
    case (Cons b bs)
    then show ?case using length_bytes_field [of 1 "block_data b"] by simp
  qed simp
  moreover have "length (wire (map (\<lambda>b. Bytes_Field 2 (wire (block_fields b))) ps)) \<le>
      sum_list (map (\<lambda>b. 11 + ipfs_blocks_block_protobuf_encode_size b) ps)"
    if "\<forall>b \<in> set ps. block_wf b \<and> ipfs_blocks_block_protobuf_encode_size b < 2 ^ 31" for ps
    using that
  proof (induction ps)
    case (Cons b ps)
    then show ?case
      using block_codec.sz_enough [of b] length_bytes_field [of 2 "wire (block_fields b)"] by simp
  qed simp
  moreover have "length (wire (wantlist_fields (wantlist m))) \<le> wantlist_size (wantlist m)"
    by (rule wantlist_size_enough [OF message_wf_wantlist [OF wf]])
  moreover have "\<forall>b \<in> set ?ps. block_wf b \<and> ipfs_blocks_block_protobuf_encode_size b < 2 ^ 31"
    using message_payload [OF wf] by blast
  moreover have "sum_list (map (\<lambda>b. 11 + length (block_data b)) ?bs) < 2 ^ 31"
    using wf by (simp add: message_wf_def message_size_def)
  ultimately have "length (wire (map (\<lambda>b. Bytes_Field 1 (block_data b)) ?bs)) \<le>
      sum_list (map (\<lambda>b. 11 + length (block_data b)) ?bs)"
    "length (wire (map (\<lambda>b. Bytes_Field 2 (wire (block_fields b))) ?ps)) \<le>
      sum_list (map (\<lambda>b. 11 + ipfs_blocks_block_protobuf_encode_size b) ?ps)"
    "length (wire (wantlist_fields (wantlist m))) \<le> wantlist_size (wantlist m)"
    by blast+
  then show ?thesis
    using message_wantlist_small [OF wf]
      length_bytes_field [of 3 "wire (wantlist_fields (wantlist m))"]
    by (simp add: message_fields_def message_size_def)
qed

lemma message_decodes:
  assumes n: "length buf < 2 ^ 31" and wf: "message_wf m" and "f \<in> set (message_fields m)"
  shows "fnum f < 2 ^ 28 \<and> decodes (bitswap_message_field buf) buf message_store f"
proof -
  have "decodes (bitswap_message_field buf) buf message_store (Bytes_Field 1 d)" for d
    using n by (auto intro!: decodesI simp: bitswap_message_field_def Let_def)
  moreover have "decodes (bitswap_message_field buf) buf message_store
      (Bytes_Field 2 (wire (block_fields b)))" if "b \<in> set (vector_list (payload m))" for b
    using n block_codec.dec_embedded [OF message_payload [OF wf that]]
    by (auto intro!: decodesI simp: bitswap_message_field_def Let_def)
  moreover have "decodes (bitswap_message_field buf) buf message_store
      (Bytes_Field 3 (wire (wantlist_fields (wantlist m))))"
    using n wantlist_codec.dec_embedded [OF message_wf_wantlist [OF wf] message_wantlist_small [OF wf]]
    by (auto intro!: decodesI simp: bitswap_message_field_def Let_def)
  ultimately show ?thesis using assms(3) by (auto simp: message_fields_def split: if_splits)
qed

lemma ipfs_block_new_data: "ipfs_block_new\<lparr>block_data := block_data b\<rparr> = b\<lparr>block_cid := None\<rparr>"
  by (simp add: ipfs_block_new_def)

lemma fold_message_blocks:
  "bs \<noteq> [] \<Longrightarrow> fold message_store (map (\<lambda>b. Bytes_Field 1 (block_data b)) bs) m =
    m\<lparr>blocks := Some (vector_list (blocks m) @ map (\<lambda>b. b\<lparr>block_cid := None\<rparr>) bs)\<rparr>"
proof (induction bs arbitrary: m)
  case (Cons b bs)
  let ?m = "m\<lparr>blocks := Some (vector_list (blocks m) @ [b\<lparr>block_cid := None\<rparr>])\<rparr>"
  have "message_store (Bytes_Field 1 (block_data b)) m = ?m"
    by (simp add: vector_push_list ipfs_block_new_data)
  then show ?case using Cons.IH [of ?m] by (cases "bs = []") (simp_all del: message_store.simps)
qed simp

lemma fold_message_payload:
  assumes "\<forall>b \<in> set ps. block_wf b \<and> ipfs_blocks_block_protobuf_encode_size b < 2 ^ 31" and "ps \<noteq> []"
  shows "fold message_store (map (\<lambda>b. Bytes_Field 2 (wire (block_fields b))) ps) m =
    m\<lparr>payload := Some (vector_list (payload m) @ map block_norm ps)\<rparr>"
  using assms
proof (induction ps arbitrary: m)
  case (Cons b ps)
  then show ?case using block_codec.dec_embedded [of b]
    by (cases ps) (simp_all add: vector_push_list)
qed simp

lemma message_decode_wire:
  assumes wf: "message_wf m" and n: "length (wire (message_fields m)) < 2 ^ 31"
  shows "ipfs_bitswap_message_protobuf_decode (wire (message_fields m)) =
    Some (Inr (Some (message_norm m)))"
proof -
  let ?bs = "vector_list (blocks m)" and ?ps = "vector_list (payload m)"
  have b: "fold message_store (map (\<lambda>b. Bytes_Field 1 (block_data b)) ?bs) x =
      x\<lparr>blocks := vector_norm (\<lambda>b. b\<lparr>block_cid := None\<rparr>) (blocks m)\<rparr>" if "blocks x = None" for x
    using fold_message_blocks [of ?bs x] that
    by (cases "?bs = []") (simp_all add: vector_norm_def vector_list_def [of None])
  have p: "fold message_store (map (\<lambda>b. Bytes_Field 2 (wire (block_fields b))) ?ps) x =
      x\<lparr>payload := vector_norm block_norm (payload m)\<rparr>" if "payload x = None" for x
    using fold_message_payload [of ?ps x] message_payload [OF wf] that
    by (cases "?ps = []") (simp_all add: vector_norm_def vector_list_def [of None])
  have w: "ipfs_bitswap_wantlist_protobuf_decode (wire (wantlist_fields (wantlist m))) =
      Some (Inr (wantlist_norm (wantlist m)))"
    using wantlist_codec.dec_embedded [OF message_wf_wantlist [OF wf] message_wantlist_small [OF wf]] .
  have "fold message_store (message_fields m) ipfs_bitswap_message_new = message_norm m"
  proof -
    let ?n = "ipfs_bitswap_message_new"
    let ?n1 = "?n\<lparr>blocks := vector_norm (\<lambda>b. b\<lparr>block_cid := None\<rparr>) (blocks m)\<rparr>"
    let ?n2 = "?n1\<lparr>payload := vector_norm block_norm (payload m)\<rparr>"
    let ?w = "if wantlist m \<noteq> None then [Bytes_Field 3 (wire (wantlist_fields (wantlist m)))] else []"
    have "fold message_store (message_fields m) ?n = fold message_store ?w ?n2"
      unfolding message_fields_def fold_append comp_apply
      by (subst b, simp add: ipfs_bitswap_message_new_def, subst p,
          simp add: ipfs_bitswap_message_new_def, rule refl)
    also have "\<dots> = message_norm m"
      using w by (simp add: message_norm_def ipfs_bitswap_message_new_def wantlist_norm_def)
    finally show ?thesis .
  qed
  moreover have "wire (message_fields m) \<noteq> []"
    using wf by (cases "?bs"; cases "?ps") (auto simp: message_fields_def message_wf_def)
  ultimately show ?thesis
    using pb_decode_loop_wire [OF n, of "message_fields m" _ message_store 0]
      message_decodes [OF n wf]
    by (simp add: ipfs_bitswap_message_protobuf_decode_def)
qed

lemma message_size_eq:
  "message_wf m \<Longrightarrow> ipfs_bitswap_message_protobuf_encode_size (Some m) = Inr (message_size m)"
  using wantlist_size_eq [OF message_wf_wantlist]
  by (simp add: ipfs_bitswap_message_protobuf_encode_size_def message_size_def)

interpretation message_codec: pb_codec message_fields
  "\<lambda>m. ipfs_bitswap_message_protobuf_encode (Some m)" message_size message_wf
  "\<lambda>bs. map_option (map_sum id the) (ipfs_bitswap_message_protobuf_decode bs)" message_norm
  by unfold_locales (simp_all add: message_encode_wire message_size_enough message_decode_wire)

text \<open>
  C10: a bitswap message with a block or a want list, whose want list entries have every member
  set, is encoded into a buffer of the estimated size and decoded to itself: blocks in the old
  format lose their CIDs, empty vectors come back null.
\<close>

theorem bitswap_message_round_trip:
  assumes "message_wf m"
  shows "\<exists>n bs. ipfs_bitswap_message_protobuf_encode_size (Some m) = Inr n \<and>
    ipfs_bitswap_message_protobuf_encode (Some m) n = Inr bs \<and>
    ipfs_bitswap_message_protobuf_decode bs = Some (Inr (Some (message_norm m)))"
proof -
  have s: "message_size m < 2 ^ 31" using assms by (simp add: message_wf_def)
  then have "length (wire (message_fields m)) < 2 ^ 31"
    using message_size_enough [OF assms] by simp
  then show ?thesis
    using message_codec.enc_estimated [OF assms s] message_decode_wire [OF assms]
      message_size_eq [OF assms] by blast
qed

definition sample_message :: bitswap_message where
  "sample_message =
     \<lparr>wantlist = Some \<lparr>entries = Some [full_entry [1, 2] 0 1, full_entry [3] 1 7], full = 1\<rparr>,
      blocks = None, payload = Some [\<lparr>block_cid = None, block_data = [9]\<rparr>]\<rparr>"

theorem bitswap_message_round_trip_witness:
  "\<exists>n bs. ipfs_bitswap_message_protobuf_encode_size (Some sample_message) = Inr n \<and>
    ipfs_bitswap_message_protobuf_encode (Some sample_message) n = Inr bs \<and>
    ipfs_bitswap_message_protobuf_decode bs = Some (Inr (Some sample_message))"
proof -
  have "message_wf sample_message"
    by (simp add: message_wf_def sample_message_def message_size_def wantlist_size_def
        entry_size_def entry_wf_def ipfs_blocks_block_protobuf_encode_size_def full_entry_def
        ipfs_cid_protobuf_encode_size_def vector_list_def)
  moreover have "message_norm sample_message = sample_message"
    by (simp add: message_norm_def sample_message_def wantlist_norm_def vector_norm_def
        block_norm_def vector_list_def)
  ultimately show ?thesis using bitswap_message_round_trip [of sample_message] by simp
qed

text \<open>What a pass over the CIDs sends, and how it leaves their entries.\<close>

definition pending :: "cid_entry \<Rightarrow> bool" where
  "pending c \<longleftrightarrow>
     (if ce_cancel c then \<not> ce_cancel_has_been_sent c else \<not> ce_request_has_been_sent c)"

definition mark_sent :: "cid_entry \<Rightarrow> cid_entry" where
  "mark_sent c =
     (if ce_cancel c then c\<lparr>ce_cancel_has_been_sent := True\<rparr>
      else c\<lparr>ce_request_has_been_sent := True\<rparr>)"

definition request_of :: "cid_entry \<Rightarrow> wantlist_entry option" where
  "request_of c = full_entry (wire (cid_opt_fields (ce_cid c))) (of_bool (ce_cancel c)) 1"

definition cid_entry_ok :: "cid_entry \<Rightarrow> bool" where
  "cid_entry_ok c \<longleftrightarrow>
     cid_opt_wf (ce_cid c) \<and> ipfs_cid_protobuf_encode_size (ce_cid c) < 2 ^ 31"

lemma mark_sent_not_pending [simp]: "\<not> pending (mark_sent c)"
  by (simp add: pending_def mark_sent_def)

lemma mark_sent_sent: "\<not> pending c \<Longrightarrow> mark_sent c = c"
  by (cases c) (auto simp: pending_def mark_sent_def)

lemma add_wantlist_loop_spec:
  assumes "\<forall>c \<in> set cs. pending c \<longrightarrow> cid_entry_ok c"
  shows "add_wantlist_loop cs es = Inr (True, map mark_sent cs, es @ map request_of (filter pending cs))"
  using assms
proof (induction cs arbitrary: es)
  case (Cons c cs)
  show ?case
  proof (cases "pending c")
    case True
    then have "ipfs_cid_protobuf_encode (ce_cid c) (ipfs_cid_protobuf_encode_size (ce_cid c)) =
        Inr (wire (cid_opt_fields (ce_cid c)))" and "ipfs_cid_protobuf_encode_size (ce_cid c) < 2 ^ 31"
      using Cons.prems cid_codec.enc_estimated [of "ce_cid c"] by (auto simp: cid_entry_ok_def)
    then show ?thesis using True Cons
      by (auto simp: pending_def mark_sent_def request_of_def full_entry_def malloc_ok_def Let_def
          split: if_splits)
  next
    case False
    then have "ce_cancel c \<and> ce_cancel_has_been_sent c \<or> \<not> ce_cancel c \<and> ce_request_has_been_sent c"
      by (auto simp: pending_def split: if_splits)
    then show ?thesis using False Cons by (simp add: mark_sent_sent)
  qed
qed simp

lemma add_wantlist_items_spec:
  assumes "\<forall>c \<in> set cids. pending c \<longrightarrow> cid_entry_ok c"
  shows "\<exists>m' l'. ipfs_bitswap_message_add_wantlist_items m cids = Inr (True, m', map mark_sent cids) \<and>
    m' = m\<lparr>wantlist := Some l'\<rparr> \<and>
    entries l' = Some ((case wantlist m of None \<Rightarrow> [] | Some l \<Rightarrow> vector_list (entries l)) @
      map request_of (filter pending cids)) \<and>
    ipfs_bitswap_message_add_wantlist_items m' (map mark_sent cids) = Inr (True, m', map mark_sent cids)"
proof -
  have f: "filter pending (map mark_sent cids) = []" and m: "map (mark_sent \<circ> mark_sent) cids = map mark_sent cids"
    by (auto simp: filter_empty_conv mark_sent_sent)
  show ?thesis
    using add_wantlist_loop_spec [OF assms] add_wantlist_loop_spec [of "map mark_sent cids"] f m
    by (cases "wantlist m")
      (auto simp: ipfs_bitswap_message_add_wantlist_items_def Let_def ipfs_bitswap_wantlist_new_def
        vector_list_def [of None])
qed

text \<open>
  Adding want list items appends one entry per CID whose request, or cancel, has not been
  sent, in order, and marks those as sent: the entry holds the encoded CID and the cancel flag.
  Adding the same CIDs again adds nothing.
\<close>

theorem add_wantlist_items_sends_once:
  assumes "\<forall>c \<in> set cids. pending c \<longrightarrow> cid_entry_ok c"
  shows "\<exists>m' l'. ipfs_bitswap_message_add_wantlist_items m cids = Inr (True, m', map mark_sent cids) \<and>
    m' = m\<lparr>wantlist := Some l'\<rparr> \<and>
    entries l' = Some ((case wantlist m of None \<Rightarrow> [] | Some l \<Rightarrow> vector_list (entries l)) @
      map request_of (filter pending cids)) \<and>
    ipfs_bitswap_message_add_wantlist_items m' (map mark_sent cids) = Inr (True, m', map mark_sent cids)"
  using assms by (rule add_wantlist_items_spec)

theorem add_wantlist_items_sends_once_witness:
  "\<exists>m'. ipfs_bitswap_message_add_wantlist_items ipfs_bitswap_message_new
      [\<lparr>ce_cid = None, ce_cancel = False, ce_cancel_has_been_sent = False, ce_request_has_been_sent = False\<rparr>,
       \<lparr>ce_cid = None, ce_cancel = False, ce_cancel_has_been_sent = False, ce_request_has_been_sent = True\<rparr>] =
    Inr (True, m',
      [\<lparr>ce_cid = None, ce_cancel = False, ce_cancel_has_been_sent = False, ce_request_has_been_sent = True\<rparr>,
       \<lparr>ce_cid = None, ce_cancel = False, ce_cancel_has_been_sent = False, ce_request_has_been_sent = True\<rparr>])"
  using add_wantlist_items_sends_once [of
      "[\<lparr>ce_cid = None, ce_cancel = False, ce_cancel_has_been_sent = False, ce_request_has_been_sent = False\<rparr>,
       \<lparr>ce_cid = None, ce_cancel = False, ce_cancel_has_been_sent = False, ce_request_has_been_sent = True\<rparr>]"
      ipfs_bitswap_message_new]
  by (auto simp: cid_entry_ok_def ipfs_cid_protobuf_encode_size_def mark_sent_def)

lemma cid_compare_defined:
  assumes "cid_opt_wf a" and "cid_opt_wf b"
    and "\<forall>c d. a = Some c \<longrightarrow> b = Some d \<longrightarrow> \<bar>cid_version d - cid_version c\<bar> < 2 ^ 31 \<and>
      \<bar>cid_codec d - cid_codec c\<bar> < 2 ^ 31"
  shows "\<exists>r. ipfs_cid_compare a b = Inr r"
  using assms
  by (auto simp: ipfs_cid_compare_def int_diff_def c_int_def signed_take_bit_int_eq_self abs_less_iff
      split: option.split)

text \<open>Setting the cancel flag of the first entry for a CID.\<close>

fun cancel_first :: "cid_entry list \<Rightarrow> cid option \<Rightarrow> cid_entry list" where
  "cancel_first [] i = []"
| "cancel_first (c # cs) i =
     (if ipfs_cid_compare (ce_cid c) i = Inr 0 then c\<lparr>ce_cancel := True\<rparr> # cs
      else c # cancel_first cs i)"

lemma cancel_cid_spec:
  assumes "\<forall>c \<in> set cs. \<exists>r. ipfs_cid_compare (ce_cid c) i = Inr r"
  shows "ipfs_bitswap_message_cancel_cid cs i =
    Inr (\<exists>c \<in> set cs. ipfs_cid_compare (ce_cid c) i = Inr 0, cancel_first cs i)"
  using assms by (induction cs) auto

lemma cancel_first_cids: "map ce_cid (cancel_first cs i) = map ce_cid cs"
  by (induction cs) auto

lemma cancel_first_compares:
  assumes "\<forall>c \<in> set cs. \<exists>r. ipfs_cid_compare (ce_cid c) j = Inr r"
  shows "\<forall>c \<in> set (cancel_first cs i). \<exists>r. ipfs_cid_compare (ce_cid c) j = Inr r"
proof -
  have "\<forall>k \<in> set (map ce_cid (cancel_first cs i)). \<exists>r. ipfs_cid_compare k j = Inr r"
    unfolding cancel_first_cids using assms by simp
  then show ?thesis by simp
qed

lemma add_blocks_loop_spec:
  assumes "\<forall>c \<in> set cids. \<forall>b \<in> set bs. \<exists>r. ipfs_cid_compare (ce_cid c) (block_cid b) = Inr r"
  shows "add_blocks_loop bs out cids =
    Inr (out @ bs, fold (\<lambda>b cs. cancel_first cs (block_cid b)) bs cids)"
  using assms
proof (induction bs arbitrary: out cids)
  case (Cons b bs)
  have "\<forall>c \<in> set (cancel_first cids (block_cid b)). \<forall>b \<in> set bs. \<exists>r. ipfs_cid_compare (ce_cid c) (block_cid b) = Inr r"
    using Cons.prems cancel_first_compares [of cids] by (metis list.set_intros(2))
  then show ?case using Cons cancel_cid_spec [of cids "block_cid b"] by simp
qed simp

lemma add_blocks_spec:
  assumes "\<forall>c \<in> set cids. \<forall>b \<in> set bs. \<exists>r. ipfs_cid_compare (ce_cid c) (block_cid b) = Inr r"
  shows "ipfs_bitswap_message_add_blocks (Some m) (Some bs) cids =
    (if bs = [] then Inl Failure
     else Inr (m\<lparr>payload := Some (vector_list (payload m) @ bs)\<rparr>, [],
            fold (\<lambda>b cs. cancel_first cs (block_cid b)) bs cids)) \<and>
    ipfs_bitswap_message_add_blocks None (Some bs) cids = Inl Failure"
  using add_blocks_loop_spec [OF assms] by (simp add: ipfs_bitswap_message_add_blocks_def)

text \<open>
  Adding blocks to a message moves every block of the vector, in order, behind the payload
  and leaves the vector empty; for each block the first entry of its CID is set to be
  cancelled. Without a message, or with no blocks, nothing is done and the call fails.
\<close>

theorem add_blocks_moves_and_cancels:
  assumes "\<forall>c \<in> set cids. \<forall>b \<in> set bs. \<exists>r. ipfs_cid_compare (ce_cid c) (block_cid b) = Inr r"
  shows "ipfs_bitswap_message_add_blocks (Some m) (Some bs) cids =
    (if bs = [] then Inl Failure
     else Inr (m\<lparr>payload := Some (vector_list (payload m) @ bs)\<rparr>, [],
            fold (\<lambda>b cs. cancel_first cs (block_cid b)) bs cids)) \<and>
    ipfs_bitswap_message_add_blocks None (Some bs) cids = Inl Failure"
  using assms by (rule add_blocks_spec)

theorem add_blocks_moves_and_cancels_witness:
  "ipfs_bitswap_message_add_blocks (Some ipfs_bitswap_message_new)
     (Some [\<lparr>block_cid = None, block_data = [1]\<rparr>])
     [\<lparr>ce_cid = None, ce_cancel = False, ce_cancel_has_been_sent = False, ce_request_has_been_sent = True\<rparr>] =
   Inr (\<lparr>wantlist = None, blocks = None, payload = Some [\<lparr>block_cid = None, block_data = [1]\<rparr>]\<rparr>, [],
     [\<lparr>ce_cid = None, ce_cancel = True, ce_cancel_has_been_sent = False, ce_request_has_been_sent = True\<rparr>])"
  using add_blocks_moves_and_cancels [of
      "[\<lparr>ce_cid = None, ce_cancel = False, ce_cancel_has_been_sent = False, ce_request_has_been_sent = True\<rparr>]"
      "[\<lparr>block_cid = None, block_data = [1]\<rparr>]" ipfs_bitswap_message_new]
  by (simp add: ipfs_cid_compare_def ipfs_bitswap_message_new_def vector_list_def)

text \<open>
  A want list with an empty vector of entries is encoded, but the list that comes back has
  no vector, and a message that holds it can not be sized again: the null vector is followed.
  So does a list that was only just made.
\<close>

theorem wantlist_without_entries:
  "ipfs_bitswap_message_protobuf_encode_size
     (Some (m\<lparr>wantlist := Some ipfs_bitswap_wantlist_new\<rparr>)) = Inl Undefined \<and>
   (\<exists>n bs l. ipfs_bitswap_wantlist_protobuf_encode_size (Some \<lparr>entries = Some [], full = f\<rparr>) = Inr n \<and>
     ipfs_bitswap_wantlist_protobuf_encode (Some \<lparr>entries = Some [], full = f\<rparr>) n = Inr bs \<and>
     ipfs_bitswap_wantlist_protobuf_decode bs = Some (Inr (Some l)) \<and>
     ipfs_bitswap_wantlist_protobuf_encode_size (Some l) = Inl Undefined)"
proof -
  let ?l = "Some \<lparr>entries = Some [], full = f\<rparr>"
  have wf: "wantlist_wf ?l" by (simp add: wantlist_wf_def wantlist_size_def)
  have n: "wantlist_norm ?l = Some \<lparr>entries = None, full = f\<rparr>"
    by (simp add: wantlist_norm_def vector_norm_def)
  have s: "wantlist_size ?l < 2 ^ 31" by (simp add: wantlist_size_def)
  show ?thesis
    using wantlist_codec.round_trip [OF wf s] wantlist_size_eq [OF wf] n
    by (auto simp: ipfs_bitswap_message_protobuf_encode_size_def ipfs_bitswap_wantlist_new_def
        ipfs_bitswap_wantlist_protobuf_encode_size_def [of "Some \<lparr>entries = None, full = f\<rparr>"]
        ipfs_bitswap_wantlist_protobuf_encode_size_def [of "Some \<lparr>entries = None, full = 1\<rparr>"])
qed

text \<open>
  The decoder of a bitswap block reads its fields again as the fields that follow: a block
  with an empty prefix and the one byte \<open>0x12\<close> is encoded, and decoding it runs off the end of
  the buffer.
\<close>

theorem bitswap_block_decode_overruns:
  "\<exists>bs. ipfs_bitswap_message_block_protobuf_encode (Some \<lparr>bb_prefix = [], bb_bytes = [0x12]\<rparr>)
       (ipfs_bitswap_message_block_protobuf_size \<lparr>bb_prefix = [], bb_bytes = [0x12]\<rparr>) = Inr bs \<and>
     ipfs_bitswap_message_block_protobuf_decode bs = Some (Inl Undefined)"
proof -
  have e: "ipfs_bitswap_message_block_protobuf_encode (Some \<lparr>bb_prefix = [], bb_bytes = [0x12]\<rparr>)
       (ipfs_bitswap_message_block_protobuf_size \<lparr>bb_prefix = [], bb_bytes = [0x12]\<rparr>) =
       Inr [0x0a, 0, 0x12, 1, 0x12]"
    by (simp add: ipfs_bitswap_message_block_protobuf_encode_def
        ipfs_bitswap_message_block_protobuf_size_def put_bytes_def
        protobuf_encode_length_delimited_def pb_tag_def varint_encode_ok leb128_small c_int_def)
  moreover have "ipfs_bitswap_message_block_protobuf_decode [0x0a, 0, 0x12, 1, 0x12] = Some (Inl Undefined)"
    by (simp add: ipfs_bitswap_message_block_protobuf_decode_def pb_decode_loop.simps
        bitswap_block_field_def protobuf_decode_length_delimited_def varint_eval malloc_ok_def)
  ultimately show ?thesis by blast
qed

end
