(* ===== verification/Multiaddr.thy ===== *)
theory Multiaddr
  imports Ipfs_Prelude
begin

text \<open>
  Multiaddresses, \<open>libp2p/multiaddr/multiaddr.c\<close>: an address as a string and as bytes, kept
  side by side. The conversions between the two forms, \<open>bytes_to_string\<close> and \<open>string_to_bytes\<close>
  of \<open>protoutils.c\<close>, are arguments here (\<open>to_string\<close>, \<open>to_bytes\<close>); \<open>None\<close> is their error. The
  theorems hold for any conversions.
\<close>

section \<open>Searching strings\<close>

text \<open>\<open>strstr\<close>: the index at which the needle first begins.\<close>

fun strstr :: "bytes \<Rightarrow> bytes \<Rightarrow> nat option" where
  "strstr [] needle = (if needle = [] then Some 0 else None)"
| "strstr (c # cs) needle =
     (if take (length needle) (c # cs) = needle then Some 0
      else map_option Suc (strstr cs needle))"

text \<open>\<open>strncmp(s, t, n) == 0\<close>.\<close>

definition strncmp_eq :: "bytes \<Rightarrow> bytes \<Rightarrow> nat \<Rightarrow> bool" where
  "strncmp_eq s t n \<longleftrightarrow> c_string (take n s) = c_string (take n t)"

fun decimal :: "int \<Rightarrow> bytes \<Rightarrow> int" where
  "decimal acc [] = acc"
| "decimal acc (c # cs) =
     (if 48 \<le> unat c \<and> unat c \<le> 57 then decimal (acc * 10 + (uint c - 48)) cs else acc)"

text \<open>\<open>atoi\<close>: white space, a sign, digits; a value beyond \<open>int\<close> has no meaning.\<close>

definition atoi :: "bytes \<Rightarrow> int result" where
  "atoi s =
     (let s' = dropWhile (\<lambda>c. c = 32 \<or> 9 \<le> unat c \<and> unat c \<le> 13) s;
          v = (case s' of
                 [] \<Rightarrow> 0
               | c # cs \<Rightarrow> if c = 45 then - decimal 0 cs else if c = 43 then decimal 0 cs
                           else decimal 0 s')
      in if c_int v = v then Inr v else Inl Undefined)"

section \<open>The code\<close>

record multiaddr =
  ma_string :: "bytes option"
  ma_bytes :: bytes

definition multiaddress_new :: multiaddr where
  "multiaddress_new = \<lparr>ma_string = None, ma_bytes = []\<rparr>"

text \<open>
  \<open>multiaddress_new_from_bytes\<close> on bytes that are not null: the size is an \<open>int\<close>, and a
  negative one asks for more memory than there is.
\<close>

definition multiaddress_new_from_bytes :: "(bytes \<Rightarrow> bytes option) \<Rightarrow> bytes \<Rightarrow> multiaddr option" where
  "multiaddress_new_from_bytes to_string byteaddress =
     (let size = c_int (int (length byteaddress)) in
      if \<not> malloc_ok (c_size size) then None
      else
        let bs = take (nat size) byteaddress in
        (case to_string bs of None \<Rightarrow> None | Some s \<Rightarrow> Some \<lparr>ma_string = Some s, ma_bytes = bs\<rparr>))"

definition multiaddress_new_from_string ::
    "(bytes \<Rightarrow> nat \<Rightarrow> bytes option) \<Rightarrow> bytes \<Rightarrow> multiaddr option" where
  "multiaddress_new_from_string to_bytes straddress =
     (let s = c_string straddress in
      if \<not> malloc_ok (length s + 1) then None
      else map_option (\<lambda>bs. \<lparr>ma_string = Some s, ma_bytes = bs\<rparr>) (to_bytes s (length s)))"

definition first_byte :: "multiaddr \<Rightarrow> byte result" where
  "first_byte a = (case ma_bytes a of [] \<Rightarrow> Inl Undefined | b # bs \<Rightarrow> Inr b)"

definition multiaddress_is_ip :: "multiaddr \<Rightarrow> bool" where
  "multiaddress_is_ip a = (case ma_bytes a of [] \<Rightarrow> False | b # bs \<Rightarrow> b = 4 \<or> b = 41)"

definition multiaddress_is_ip4 :: "multiaddr \<Rightarrow> bool result" where
  "multiaddress_is_ip4 a = bind_res (first_byte a) (\<lambda>b. Inr (b = 4))"

definition multiaddress_is_ip6 :: "multiaddr \<Rightarrow> bool result" where
  "multiaddress_is_ip6 a = bind_res (first_byte a) (\<lambda>b. Inr (b = 41))"

definition AF_INET :: int where "AF_INET = 2"
definition AF_INET6 :: int where "AF_INET6 = 10"

definition multiaddress_get_ip_family :: "multiaddr \<Rightarrow> int result" where
  "multiaddress_get_ip_family a =
     bind_res (first_byte a) (\<lambda>b.
     Inr (if b = 4 then AF_INET else if b = 41 then AF_INET6 else 0))"

definition str_ip4 :: bytes where "str_ip4 = map of_char ''/ip4/''"
definition str_ip6 :: bytes where "str_ip6 = map of_char ''/ip6/''"
definition str_tcp :: bytes where "str_tcp = map of_char ''/tcp/''"
definition str_udp :: bytes where "str_udp = map of_char ''/udp/''"
definition str_ipfs :: bytes where "str_ipfs = map of_char ''/ipfs/''"

text \<open>The string of an address that has one; the code follows a null string.\<close>

definition the_string :: "multiaddr \<Rightarrow> bytes result" where
  "the_string a = (case ma_string a of None \<Rightarrow> Inl Undefined | Some s \<Rightarrow> Inr (c_string s))"

definition multiaddress_get_ip_address :: "multiaddr \<Rightarrow> bytes result" where
  "multiaddress_get_ip_address a =
     bind_res (the_string a) (\<lambda>s.
     if \<not> strncmp_eq s str_ip4 5 \<and> \<not> strncmp_eq s str_ip6 5 then Inl Failure
     else if strstr s str_tcp = None \<and> strstr s str_udp = None then Inl Failure
     else if \<not> malloc_ok (length s) then Inl Failure
     else
       let str = drop 5 s in
       if 47 \<notin> set str then Inl Undefined
       else Inr (takeWhile (\<lambda>c. c \<noteq> 47) str))"

definition multiaddress_get_ip_port :: "multiaddr \<Rightarrow> int result" where
  "multiaddress_get_ip_port a =
     bind_res (the_string a) (\<lambda>s.
     case (case strstr s str_tcp of None \<Rightarrow> strstr s str_udp | Some i \<Rightarrow> Some i) of
       None \<Rightarrow> Inr (- 1)
     | Some i \<Rightarrow> atoi (takeWhile (\<lambda>c. c \<noteq> 47) (drop (i + 5) s)))"

definition multiaddress_get_peer_id :: "multiaddr \<Rightarrow> bytes option result" where
  "multiaddress_get_peer_id a =
     bind_res (the_string a) (\<lambda>s.
     Inr (case strstr s str_ipfs of
            None \<Rightarrow> None
          | Some i \<Rightarrow>
              (let name = takeWhile (\<lambda>c. c \<noteq> 47) (drop (i + 6) s)
               in if name = [] then None else Some name)))"

text \<open>
  A copy of an address with no bytes, or no string, has members that were never set; every
  function that takes an address reads them, so such a copy counts as undefined at once.
\<close>

definition multiaddress_copy :: "multiaddr \<Rightarrow> multiaddr result" where
  "multiaddress_copy a =
     (case ma_string a of
        None \<Rightarrow> Inl Undefined
      | Some s \<Rightarrow>
          if ma_bytes a = [] then Inl Undefined
          else Inr \<lparr>ma_string = Some (c_string s), ma_bytes = ma_bytes a\<rparr>)"

text \<open>
  \<open>multiaddress_encapsulate\<close> on an address with a string. The buffer for a copy of the old
  string is one byte short when the new part does not begin with a slash. \<open>Inr None\<close> is an
  address that was freed.
\<close>

definition multiaddress_encapsulate ::
    "(bytes \<Rightarrow> nat \<Rightarrow> bytes option) \<Rightarrow> multiaddr option \<Rightarrow> bytes option \<Rightarrow> multiaddr option result" where
  "multiaddress_encapsulate to_bytes result str =
     (case (result, str) of
        (Some a, Some str) \<Rightarrow>
          bind_res (the_string a) (\<lambda>old.
          case c_string str of
            [] \<Rightarrow> Inl Undefined
          | c # cs \<Rightarrow>
              if c \<noteq> 47 then Inl Undefined
              else
                let new = old @ cs in
                Inr (map_option (\<lambda>bs. \<lparr>ma_string = Some new, ma_bytes = bs\<rparr>)
                  (to_bytes new (length new + 1))))
      | _ \<Rightarrow> Inl Failure)"

text \<open>
  \<open>multiaddress_decapsulate\<close> turns the slashes into spaces, looks for the argument, cuts there
  and turns the spaces back. It returns 0 or 1 with what the address has become.
\<close>

definition spaced :: "bytes \<Rightarrow> bytes" where
  "spaced s = map (\<lambda>c. if c = 47 then 32 else c) s"

definition slashed :: "bytes \<Rightarrow> bytes" where
  "slashed s = map (\<lambda>c. if c = 32 then 47 else c) s"

definition multiaddress_decapsulate ::
    "(bytes \<Rightarrow> nat \<Rightarrow> bytes option) \<Rightarrow> multiaddr option \<Rightarrow> bytes option \<Rightarrow>
     (int \<times> multiaddr option) result" where
  "multiaddress_decapsulate to_bytes result srci =
     (case (result, srci) of
        (Some a, Some src) \<Rightarrow>
          bind_res (the_string a) (\<lambda>s.
          case strstr (spaced s) (c_string src) of
            None \<Rightarrow> Inr (0, Some (a\<lparr>ma_string := Some (spaced s)\<rparr>))
          | Some pos \<Rightarrow>
              let new = slashed (take pos (spaced s)) in
              (case to_bytes new (length new + 1) of
                 None \<Rightarrow> Inr (0, None)
               | Some bs \<Rightarrow> Inr (1, Some \<lparr>ma_string = Some new, ma_bytes = bs\<rparr>)))
      | _ \<Rightarrow> Inr (0, result))"

text \<open>
  \<open>multiaddress_compare\<close>: the difference of the sizes as an \<open>int\<close>, then the bytes of \<open>b\<close>
  against those of \<open>a\<close>.
\<close>

fun compare_bytes :: "bytes \<Rightarrow> bytes \<Rightarrow> int result" where
  "compare_bytes as [] = Inr 0"
| "compare_bytes [] (b # bs) = Inl Undefined"
| "compare_bytes (a # as) (b # bs) =
     (if uint b - uint a \<noteq> 0 then Inr (uint b - uint a) else compare_bytes as bs)"

definition multiaddress_compare :: "multiaddr option \<Rightarrow> multiaddr option \<Rightarrow> int result" where
  "multiaddress_compare a b =
     (case (a, b) of
        (None, None) \<Rightarrow> Inr 0
      | (None, Some b) \<Rightarrow> Inr (- 1)
      | (Some a, None) \<Rightarrow> Inr 1
      | (Some a, Some b) \<Rightarrow>
          let total = c_int (int (length (ma_bytes b)) - int (length (ma_bytes a))) in
          if total \<noteq> 0 then Inr total else compare_bytes (ma_bytes a) (ma_bytes b))"

fun strcmp :: "bytes \<Rightarrow> bytes \<Rightarrow> int" where
  "strcmp [] [] = 0"
| "strcmp [] (b # bs) = - uint b"
| "strcmp (a # as) [] = uint a"
| "strcmp (a # as) (b # bs) = (if a = b then strcmp as bs else uint a - uint b)"

definition multiaddress_compare_id :: "multiaddr \<Rightarrow> multiaddr \<Rightarrow> int result" where
  "multiaddress_compare_id a b =
     bind_res (multiaddress_get_peer_id a) (\<lambda>a_id.
     bind_res (multiaddress_get_peer_id b) (\<lambda>b_id.
     Inr (case (a_id, b_id) of
            (None, None) \<Rightarrow> 0
          | (None, Some j) \<Rightarrow> - 1
          | (Some i, None) \<Rightarrow> 1
          | (Some i, Some j) \<Rightarrow> strcmp i j)))"

section \<open>Searching and comparing\<close>

lemma strstr_Some:
  "strstr s n = Some i \<Longrightarrow> i + length n \<le> length s \<and> take (length n) (drop i s) = n"
proof (induction s arbitrary: i)
  case (Cons c s)
  show ?case
  proof (cases "take (length n) (c # s) = n")
    case True
    then have "length n \<le> length (c # s)" by (metis length_take min.cobounded1)
    with True Cons.prems show ?thesis by simp
  next
    case False
    then show ?thesis using Cons by auto
  qed
qed (auto split: if_splits)

lemma strstr_subset: "strstr s n = Some i \<Longrightarrow> set n \<subseteq> set s"
  by (metis set_drop_subset set_take_subset strstr_Some subset_trans)

lemma strstr_map:
  assumes "\<And>x y. x \<in> set n \<Longrightarrow> y \<in> set s \<Longrightarrow> f y = x \<longleftrightarrow> y = x" and "\<And>x. x \<in> set n \<Longrightarrow> f x = x"
  shows "strstr (map f s) n = strstr s n"
  using assms
proof (induction s)
  case (Cons c s)
  have e: "take (length n) (map f (c # s)) = n \<longleftrightarrow> take (length n) (c # s) = n" (is "?l \<longleftrightarrow> ?r")
  proof
    assume l: ?l
    show ?r
    proof (rule nth_equalityI)
      show len: "length (take (length n) (c # s)) = length n"
        using arg_cong [OF l, of length] by simp
      fix i
      assume "i < length (take (length n) (c # s))"
      then have i: "i < length n" "i < length (c # s)" using len by auto
      then have "f ((c # s) ! i) = n ! i" using arg_cong [OF l, of "\<lambda>xs. xs ! i"]
        by (simp del: list.map add: nth_map)
      then show "take (length n) (c # s) ! i = n ! i"
        using Cons.prems(1) [of "n ! i" "(c # s) ! i"] i nth_mem [of i n] nth_mem [of i "c # s"] by simp
    qed
  next
    assume r: ?r
    have "take (length n) (map f (c # s)) = map f n" by (metis r take_map)
    also have "\<dots> = n" using Cons.prems(2) by (simp add: map_idI)
    finally show ?l .
  qed
  then show ?case using Cons by simp
qed simp

lemma compare_bytes_eq:
  "length a = length b \<Longrightarrow> \<exists>r. compare_bytes a b = Inr r \<and> (r = 0 \<longleftrightarrow> a = b)"
  by (induction a b rule: compare_bytes.induct) (auto simp: word_uint_eq_iff)

lemma multiaddress_compare_eq:
  assumes "length (ma_bytes a) < 2 ^ 31" and "length (ma_bytes b) < 2 ^ 31"
  shows "\<exists>r. multiaddress_compare (Some a) (Some b) = Inr r \<and> (r = 0 \<longleftrightarrow> ma_bytes a = ma_bytes b)"
proof -
  have "c_int (int (length (ma_bytes b)) - int (length (ma_bytes a))) =
      int (length (ma_bytes b)) - int (length (ma_bytes a))"
    using assms by (simp add: c_int_def signed_take_bit_int_eq_self)
  then show ?thesis
    using compare_bytes_eq [of "ma_bytes a" "ma_bytes b"]
    by (auto simp: multiaddress_compare_def Let_def)
qed

lemma slashed_spaced: "32 \<notin> set s \<Longrightarrow> slashed (spaced s) = s"
  by (induction s) (auto simp: slashed_def spaced_def)

section \<open>Properties\<close>

text \<open>
  Cutting an address at a word without slashes leaves the part of the string before the
  first occurrence of the word. An argument that contains a slash, such as the \<open>/tcp\<close> of the
  function's own description, is never found: the call fails and every slash of the address
  has become a space.
\<close>

theorem multiaddress_decapsulate_cuts:
  assumes "0 \<notin> set s" and "32 \<notin> set s" and "0 \<notin> set src" and "32 \<notin> set src"
  shows "multiaddress_decapsulate to_bytes (Some \<lparr>ma_string = Some s, ma_bytes = bs\<rparr>) (Some src) =
    Inr (case (if 47 \<in> set src then None else strstr s src) of
           None \<Rightarrow> (0, Some \<lparr>ma_string = Some (spaced s), ma_bytes = bs\<rparr>)
         | Some pos \<Rightarrow>
             (case to_bytes (take pos s) (length (take pos s) + 1) of
                None \<Rightarrow> (0, None)
              | Some bs' \<Rightarrow> (1, Some \<lparr>ma_string = Some (take pos s), ma_bytes = bs'\<rparr>)))"
proof -
  have no: "strstr (spaced s) src = None" if "47 \<in> set src"
    using that strstr_subset [of "spaced s" src]
    by (cases "strstr (spaced s) src") (auto simp: spaced_def)
  have yes: "strstr (spaced s) src = strstr s src" if "47 \<notin> set src"
    unfolding spaced_def using that assms by (intro strstr_map) auto
  have "slashed (take pos (spaced s)) = take pos s" for pos
    using slashed_spaced [of "take pos s"] assms(2) set_take_subset [of pos s]
    by (auto simp: spaced_def take_map)
  then show ?thesis using assms no yes
    by (auto simp: multiaddress_decapsulate_def the_string_def Let_def split: option.split)
qed

text \<open>The string \<open>/ip4/1/tcp/2\<close> cut at \<open>tcp\<close> and at \<open>/tcp\<close>.\<close>

theorem multiaddress_decapsulate_cuts_witness:
  "multiaddress_decapsulate (\<lambda>s n. Some []) (Some \<lparr>ma_string = Some [47, 105, 47, 49, 47, 116, 47, 50], ma_bytes = []\<rparr>)
     (Some [116]) = Inr (1, Some \<lparr>ma_string = Some [47, 105, 47, 49, 47], ma_bytes = []\<rparr>)"
  using multiaddress_decapsulate_cuts [of "[47, 105, 47, 49, 47, 116, 47, 50]" "[116]" "\<lambda>s n. Some []" "[]"]
  by simp

text \<open>
  Of an address string whose first \<open>/ipfs/\<close> is followed by a name, the peer id is that
  name up to the next slash.
\<close>

theorem multiaddress_peer_id_after_ipfs:
  assumes "0 \<notin> set (pre @ str_ipfs @ name @ rest)" and "name \<noteq> []" and "47 \<notin> set name"
    and "rest = [] \<or> hd rest = 47"
    and "strstr (pre @ str_ipfs @ name @ rest) str_ipfs = Some (length pre)"
  shows "multiaddress_get_peer_id \<lparr>ma_string = Some (pre @ str_ipfs @ name @ rest), ma_bytes = bs\<rparr> =
    Inr (Some name)"
proof -
  have l: "length str_ipfs = 6" by (simp add: str_ipfs_def)
  have "takeWhile (\<lambda>c. c \<noteq> 47) (name @ rest) = name"
    using assms(3,4) by (cases rest) (auto simp: takeWhile_append takeWhile_eq_all_conv)
  moreover have "drop (length pre + 6) (pre @ str_ipfs @ name @ rest) = name @ rest"
    using l by simp
  ultimately show ?thesis using assms
    by (simp add: multiaddress_get_peer_id_def the_string_def)
qed

theorem multiaddress_peer_id_after_ipfs_witness:
  "multiaddress_get_peer_id \<lparr>ma_string = Some (str_ip4 @ str_ipfs @ [81, 109] @ [47]), ma_bytes = []\<rparr> =
    Inr (Some [81, 109])"
  by (rule multiaddress_peer_id_after_ipfs) (simp_all add: str_ip4_def str_ipfs_def)

end
