(* ===== verification/Peer.thy ===== *)
theory Peer
  imports Protobuf Multiaddr
begin

text \<open>
  Peers, \<open>libp2p/peer/peer.c\<close>: the struct, copying and comparing, its protobuf coding.

  The linked list of addresses is a list; an element with a null item is \<open>None\<close>. The id is the
  bytes that \<open>id\<close> and \<open>id_size\<close> delimit. A session context is opaque but for its default
  stream, which may be null. \<open>to_string\<close> is the conversion of address bytes to strings, as in
  \<open>Multiaddr\<close>.
\<close>

section \<open>The code\<close>

definition CONNECTION_TYPE_NOT_CONNECTED :: u32 where "CONNECTION_TYPE_NOT_CONNECTED = 0"
definition CONNECTION_TYPE_CONNECTED :: u32 where "CONNECTION_TYPE_CONNECTED = 1"

record session_context =
  session_number :: nat
  default_stream :: "nat option"

record libp2p_peer =
  peer_id :: bytes
  addr_list :: "multiaddr option list"
  connection_type :: u32
  session :: "session_context option"
  is_local :: bool

definition libp2p_peer_new :: libp2p_peer where
  "libp2p_peer_new =
     \<lparr>peer_id = [], addr_list = [], connection_type = CONNECTION_TYPE_NOT_CONNECTED,
      session = None, is_local = False\<rparr>"

definition libp2p_peer_new_from_multiaddress :: "multiaddr \<Rightarrow> libp2p_peer result" where
  "libp2p_peer_new_from_multiaddress a =
     bind_res (multiaddress_get_peer_id a) (\<lambda>name.
     bind_res (multiaddress_copy a) (\<lambda>c.
     Inr (libp2p_peer_new\<lparr>peer_id := (case name of None \<Rightarrow> [] | Some i \<Rightarrow> i), addr_list := [Some c]\<rparr>)))"

definition libp2p_peer_handle_connection_error :: "libp2p_peer \<Rightarrow> libp2p_peer" where
  "libp2p_peer_handle_connection_error p =
     p\<lparr>connection_type := CONNECTION_TYPE_NOT_CONNECTED, session := None\<rparr>"

text \<open>
  The first lines of \<open>libp2p_peer_connect\<close>; the rest is the dialer's, an argument that gives
  the result and the peer. The id is printed on the way.
\<close>

definition libp2p_peer_id_to_string :: "libp2p_peer \<Rightarrow> bytes result" where
  "libp2p_peer_id_to_string p =
     (if length (peer_id p) < 100 then Inr (c_string (peer_id p)) else Inl Undefined)"

definition libp2p_peer_connect ::
    "(libp2p_peer \<Rightarrow> nat \<Rightarrow> int \<times> libp2p_peer) \<Rightarrow> libp2p_peer \<Rightarrow> nat \<Rightarrow> (int \<times> libp2p_peer) result" where
  "libp2p_peer_connect dialer_join_swarm p timeout =
     (let p' = (if connection_type p = CONNECTION_TYPE_CONNECTED \<and> session p = None
                then p\<lparr>connection_type := CONNECTION_TYPE_NOT_CONNECTED\<rparr> else p)
      in bind_res (libp2p_peer_id_to_string p') (\<lambda>s. Inr (dialer_join_swarm p' timeout)))"

fun copy_addresses :: "multiaddr option list \<Rightarrow> multiaddr option list result" where
  "copy_addresses [] = Inr []"
| "copy_addresses (None # as) = copy_addresses as"
| "copy_addresses (Some a # as) =
     bind_res (multiaddress_copy a) (\<lambda>c.
     bind_res (copy_addresses as) (\<lambda>cs. Inr (Some c # cs)))"

definition libp2p_peer_copy :: "libp2p_peer \<Rightarrow> libp2p_peer result" where
  "libp2p_peer_copy p =
     (if \<not> malloc_ok (length (peer_id p)) then Inl Failure
      else
        bind_res (copy_addresses (addr_list p)) (\<lambda>cs.
        Inr \<lparr>peer_id = peer_id p, addr_list = cs, connection_type = connection_type p,
             session = session p, is_local = is_local p\<rparr>))"

text \<open>The \<open>int\<close> size is converted to the type of \<open>id_size\<close> for the comparison.\<close>

definition libp2p_peer_matches_id :: "libp2p_peer \<Rightarrow> bytes \<Rightarrow> int \<Rightarrow> bool" where
  "libp2p_peer_matches_id p pid peer_size \<longleftrightarrow>
     c_size peer_size = length (peer_id p) \<and> strncmp_eq (peer_id p) pid (length (peer_id p))"

definition libp2p_peer_is_connected :: "libp2p_peer \<Rightarrow> bool \<times> libp2p_peer" where
  "libp2p_peer_is_connected p =
     (let p' = (if connection_type p = CONNECTION_TYPE_CONNECTED \<and>
                   (case session p of None \<Rightarrow> True | Some s \<Rightarrow> default_stream s = None)
                then p\<lparr>connection_type := CONNECTION_TYPE_NOT_CONNECTED\<rparr> else p)
      in (connection_type p' = CONNECTION_TYPE_CONNECTED, p'))"

definition addresses :: "libp2p_peer \<Rightarrow> multiaddr list" where
  "addresses p = map the (filter (\<lambda>a. a \<noteq> None) (addr_list p))"

text \<open>The sum is an \<open>int\<close>, and wraps.\<close>

definition libp2p_peer_protobuf_encode_size :: "libp2p_peer option \<Rightarrow> nat" where
  "libp2p_peer_protobuf_encode_size p =
     (case p of
        None \<Rightarrow> 0
      | Some p \<Rightarrow>
          c_size (c_int (int (11 + length (peer_id p) + 11 +
            sum_list (map (\<lambda>a. 11 + length (ma_bytes a)) (addresses p))))))"

definition libp2p_peer_protobuf_encode :: "libp2p_peer \<Rightarrow> nat \<Rightarrow> bytes result" where
  "libp2p_peer_protobuf_encode p max_len =
     chain
       ([put_bytes 1 (peer_id p) max_len] @
        map (\<lambda>a. put_bytes 2 (ma_bytes a) max_len) (addresses p) @
        [put_varint 3 (ucast (connection_type p)) max_len]) []"

text \<open>The buffer is not checked against null before it is written.\<close>

definition libp2p_peer_protobuf_encode_with_alloc :: "libp2p_peer \<Rightarrow> bytes result" where
  "libp2p_peer_protobuf_encode_with_alloc p =
     (let n = libp2p_peer_protobuf_encode_size (Some p) in
      if malloc_ok n then libp2p_peer_protobuf_encode p n else Inl Undefined)"

text \<open>
  The varint of the connection type is written over the 32-bit enumeration and the padding
  behind it.
\<close>

definition libp2p_peer_field ::
    "(bytes \<Rightarrow> bytes option) \<Rightarrow> bytes \<Rightarrow> int \<Rightarrow> nat \<Rightarrow> libp2p_peer \<Rightarrow> (libp2p_peer \<times> nat) run" where
  "libp2p_peer_field to_string buf field_no pos p =
     (let rest = drop pos buf; remaining = length buf - pos
      in Some
        (if field_no = 1 then
           bind_res (protobuf_decode_length_delimited rest remaining) (\<lambda>(d, n).
           Inr (p\<lparr>peer_id := d\<rparr>, pos + n))
         else if field_no = 2 then
           bind_res (protobuf_decode_length_delimited rest remaining) (\<lambda>(d, n).
           Inr (p\<lparr>addr_list := addr_list p @ [multiaddress_new_from_bytes to_string d]\<rparr>, pos + n))
         else if field_no = 3 then
           bind_res (protobuf_decode_varint rest remaining) (\<lambda>(v, n).
           Inr (p\<lparr>connection_type := ucast v\<rparr>, pos + n))
         else Inr (p, pos)))"

definition libp2p_peer_protobuf_decode :: "(bytes \<Rightarrow> bytes option) \<Rightarrow> bytes \<Rightarrow> libp2p_peer run" where
  "libp2p_peer_protobuf_decode to_string buf =
     pb_decode_loop (libp2p_peer_field to_string buf) buf 0 libp2p_peer_new"

text \<open>The sizes are subtracted as \<open>size_t\<close> and narrowed; the bytes are signed characters.\<close>

fun compare_ids :: "bytes \<Rightarrow> bytes \<Rightarrow> int result" where
  "compare_ids [] bs = Inr 0"
| "compare_ids (a # as) [] = Inl Undefined"
| "compare_ids (a # as) (b # bs) = (if a \<noteq> b then Inr (sint b - sint a) else compare_ids as bs)"

definition libp2p_peer_compare :: "libp2p_peer option \<Rightarrow> libp2p_peer option \<Rightarrow> int result" where
  "libp2p_peer_compare a b =
     (case (a, b) of
        (None, None) \<Rightarrow> Inr 0
      | (None, Some b) \<Rightarrow> Inr (- 1)
      | (Some a, None) \<Rightarrow> Inr 1
      | (Some a, Some b) \<Rightarrow>
          if length (peer_id a) \<noteq> length (peer_id b)
          then Inr (c_int (int (length (peer_id b)) - int (length (peer_id a))))
          else compare_ids (peer_id a) (peer_id b))"

section \<open>The wire format of a peer\<close>

definition peer_fields :: "libp2p_peer \<Rightarrow> wire_field list" where
  "peer_fields p =
     [Bytes_Field 1 (peer_id p)] @ map (\<lambda>a. Bytes_Field 2 (ma_bytes a)) (addresses p) @
     [Varint_Field 3 (ucast (connection_type p))]"

definition peer_size :: "libp2p_peer \<Rightarrow> nat" where
  "peer_size p =
     11 + length (peer_id p) + 11 + sum_list (map (\<lambda>a. 11 + length (ma_bytes a)) (addresses p))"

definition peer_wf :: "libp2p_peer \<Rightarrow> bool" where
  "peer_wf p \<longleftrightarrow> peer_size p < 2 ^ 31"

text \<open>What comes back: the addresses as their bytes say; no session, not local.\<close>

definition peer_norm :: "(bytes \<Rightarrow> bytes option) \<Rightarrow> libp2p_peer \<Rightarrow> libp2p_peer" where
  "peer_norm to_string p =
     \<lparr>peer_id = peer_id p,
      addr_list = map (\<lambda>a. multiaddress_new_from_bytes to_string (ma_bytes a)) (addresses p),
      connection_type = connection_type p, session = None, is_local = False\<rparr>"

fun peer_store :: "(bytes \<Rightarrow> bytes option) \<Rightarrow> wire_field \<Rightarrow> libp2p_peer \<Rightarrow> libp2p_peer" where
  "peer_store to_string (Varint_Field k v) p = (if k = 3 then p\<lparr>connection_type := ucast v\<rparr> else p)"
| "peer_store to_string (Bytes_Field k d) p =
     (if k = 1 then p\<lparr>peer_id := d\<rparr>
      else if k = 2 then p\<lparr>addr_list := addr_list p @ [multiaddress_new_from_bytes to_string d]\<rparr>
      else p)"

lemma peer_size_eq:
  assumes "peer_wf p"
  shows "libp2p_peer_protobuf_encode_size (Some p) = peer_size p"
proof -
  have "c_int (int (peer_size p)) = int (peer_size p)" and "c_size (int (peer_size p)) = peer_size p"
    using assms by (simp_all add: peer_wf_def c_arith)
  then show ?thesis by (simp only: libp2p_peer_protobuf_encode_size_def option.case peer_size_def)
qed

lemma peer_encode_wire:
  assumes fits: "length (wire (peer_fields p)) \<le> n" and n: "n < 2 ^ 31"
  shows "libp2p_peer_protobuf_encode p n = Inr (wire (peer_fields p))"
  unfolding libp2p_peer_protobuf_encode_def
  by (rule chain_writes [OF _ fits], unfold peer_fields_def)
    (intro writes_append writes_map writes_Cons writes_Nil writes_put_bytes writes_put_varint;
      use n in simp)

lemma peer_size_enough:
  assumes "peer_wf p"
  shows "length (wire (peer_fields p)) \<le> peer_size p"
proof -
  have "length (wire (map (\<lambda>a. Bytes_Field 2 (ma_bytes a)) as)) \<le>
      sum_list (map (\<lambda>a. 11 + length (ma_bytes a)) as)"
    if "sum_list (map (\<lambda>a. 11 + length (ma_bytes a)) as) < 2 ^ 31" for as
    using that
  proof (induction as)
    case (Cons a as)
    then show ?case using length_bytes_field [of 2 "ma_bytes a"] by simp
  qed simp
  from this [of "addresses p"] show ?thesis
    using assms length_bytes_field [of 1 "peer_id p"] length_varint_field [of 3 "ucast (connection_type p)"]
    by (simp add: peer_fields_def peer_size_def peer_wf_def)
qed

lemma fold_peer_addresses:
  "fold (peer_store to_string) (map (\<lambda>a. Bytes_Field 2 (ma_bytes a)) as) p =
    p\<lparr>addr_list := addr_list p @ map (\<lambda>a. multiaddress_new_from_bytes to_string (ma_bytes a)) as\<rparr>"
  by (induction as arbitrary: p) simp_all

lemma peer_decodes:
  assumes n: "length buf < 2 ^ 31" and "f \<in> set (peer_fields p)"
  shows "fnum f < 2 ^ 28 \<and> decodes (libp2p_peer_field to_string buf) buf (peer_store to_string) f"
proof -
  have "decodes (libp2p_peer_field to_string buf) buf (peer_store to_string) (Varint_Field 3 v)" for v
    using n by (auto intro!: decodesI simp: libp2p_peer_field_def Let_def)
  moreover have "decodes (libp2p_peer_field to_string buf) buf (peer_store to_string) (Bytes_Field k d)"
    if "k = 1 \<or> k = 2" for k d
    using n that by (auto intro!: decodesI simp: libp2p_peer_field_def Let_def)
  ultimately show ?thesis using assms(2) by (auto simp: peer_fields_def)
qed

lemma peer_decode_wire:
  assumes n: "length (wire (peer_fields p)) < 2 ^ 31"
  shows "libp2p_peer_protobuf_decode to_string (wire (peer_fields p)) = Some (Inr (peer_norm to_string p))"
proof -
  have "fold (peer_store to_string) (peer_fields p) libp2p_peer_new = peer_norm to_string p"
    by (simp add: peer_fields_def fold_peer_addresses libp2p_peer_new_def peer_norm_def)
  then show ?thesis
    unfolding libp2p_peer_protobuf_decode_def
    using pb_decode_loop_wire [OF n, of "peer_fields p" _ "peer_store to_string" 0] peer_decodes [OF n]
    by simp
qed

interpretation peer_codec: pb_codec peer_fields libp2p_peer_protobuf_encode peer_size peer_wf
  "libp2p_peer_protobuf_decode to_string" "peer_norm to_string" for to_string
  by unfold_locales (simp_all add: peer_encode_wire peer_size_enough peer_decode_wire)

lemma peer_field_advances: "advances (libp2p_peer_field to_string buf)"
  by (auto simp: advances_def libp2p_peer_field_def Let_def bind_res_Inr_iff split: if_splits)

lemma compare_ids_eq:
  "length a = length b \<Longrightarrow> \<exists>r. compare_ids a b = Inr r \<and> (r = 0 \<longleftrightarrow> a = b)"
  by (induction a b rule: compare_ids.induct) (auto dest: signed_word_eqI)

section \<open>Properties\<close>

text \<open>
  A peer whose estimated size is below 2 GiB is encoded into a buffer of that size and
  decoded with its id, its connection type and its addresses in order, each address with the
  string its bytes stand for; the session and the local flag are not sent.
\<close>

theorem peer_round_trip:
  assumes "peer_size p < 2 ^ 31"
    and "\<forall>a \<in> set (addresses p). ma_string a \<noteq> None \<and> to_string (ma_bytes a) = ma_string a"
  shows "\<exists>bs. libp2p_peer_protobuf_encode_with_alloc p = Inr bs \<and>
    libp2p_peer_protobuf_decode to_string bs =
      Some (Inr (p\<lparr>addr_list := map Some (addresses p), session := None, is_local := False\<rparr>))"
proof -
  have wf: "peer_wf p" using assms(1) by (simp add: peer_wf_def)
  have "multiaddress_new_from_bytes to_string (ma_bytes a) = Some a" if a: "a \<in> set (addresses p)" for a
  proof -
    have "11 + length (ma_bytes a) \<le> sum_list (map (\<lambda>a. 11 + length (ma_bytes a)) (addresses p))"
      using a by (intro member_le_sum_list) auto
    then have "length (ma_bytes a) < 2 ^ 31" using assms(1) by (simp add: peer_size_def)
    moreover obtain s where "ma_string a = Some s" "to_string (ma_bytes a) = Some s"
      using assms(2) a by force
    ultimately show ?thesis
      by (simp add: multiaddress_new_from_bytes_def malloc_ok_def Let_def c_arith)
  qed
  then have "peer_norm to_string p = p\<lparr>addr_list := map Some (addresses p), session := None, is_local := False\<rparr>"
    by (simp add: peer_norm_def)
  then show ?thesis
    using peer_codec.round_trip [OF wf assms(1), of to_string] peer_size_eq [OF wf] assms(1)
    by (simp add: libp2p_peer_protobuf_encode_with_alloc_def malloc_ok_def)
qed

definition sample_peer :: libp2p_peer where
  "sample_peer =
     \<lparr>peer_id = [81, 109], addr_list = [Some \<lparr>ma_string = Some [47], ma_bytes = [4, 127]\<rparr>, None],
      connection_type = CONNECTION_TYPE_CONNECTED, session = None, is_local = True\<rparr>"

theorem peer_round_trip_witness:
  "\<exists>bs. libp2p_peer_protobuf_encode_with_alloc sample_peer = Inr bs \<and>
    libp2p_peer_protobuf_decode (\<lambda>bs. Some [47]) bs =
      Some (Inr (sample_peer\<lparr>addr_list := map Some (addresses sample_peer), is_local := False\<rparr>))"
proof -
  have "peer_size sample_peer < 2 ^ 31" and "session sample_peer = None"
    by (simp_all add: sample_peer_def addresses_def peer_size_def)
  moreover have "\<forall>a \<in> set (addresses sample_peer). ma_string a \<noteq> None \<and> Some [47] = ma_string a"
    by (simp add: sample_peer_def addresses_def)
  ultimately show ?thesis
    using peer_round_trip [of sample_peer "\<lambda>bs. Some [47]"] by (simp add: sample_peer_def)
qed

text \<open>
  Comparing two peers gives 0 exactly when their ids are equal; the test of a peer against
  an id only looks at the bytes before the first zero byte, so it also accepts other ids.
\<close>

theorem peer_compare_and_match:
  assumes "length (peer_id p) < 2 ^ 31" and "length (peer_id q) < 2 ^ 31"
  shows "\<exists>r. libp2p_peer_compare (Some p) (Some q) = Inr r \<and> (r = 0 \<longleftrightarrow> peer_id p = peer_id q) \<and>
    (libp2p_peer_matches_id p (peer_id q) (int (length (peer_id q))) \<longleftrightarrow>
       length (peer_id p) = length (peer_id q) \<and> c_string (peer_id p) = c_string (peer_id q))"
proof -
  have "c_int (int (length (peer_id q)) - int (length (peer_id p))) =
      int (length (peer_id q)) - int (length (peer_id p))"
    using assms by (simp add: c_int_def signed_take_bit_int_eq_self)
  moreover have "c_size (int (length (peer_id q))) = length (peer_id q)"
    using assms(2) by (simp add: c_arith)
  ultimately show ?thesis
    using compare_ids_eq [of "peer_id p" "peer_id q"]
    by (auto simp: libp2p_peer_compare_def libp2p_peer_matches_id_def strncmp_eq_def)
qed

theorem peer_compare_and_match_witness:
  "libp2p_peer_matches_id (libp2p_peer_new\<lparr>peer_id := [1, 0, 2]\<rparr>) [1, 0, 3] 3"
  using peer_compare_and_match [of "libp2p_peer_new\<lparr>peer_id := [1, 0, 2]\<rparr>" "libp2p_peer_new\<lparr>peer_id := [1, 0, 3]\<rparr>"]
  by (auto simp: c_string_def)

text \<open>
  Decoding a peer returns on every input.
\<close>

theorem peer_decode_terminates: "libp2p_peer_protobuf_decode to_string buf \<noteq> None"
  unfolding libp2p_peer_protobuf_decode_def
  by (rule pb_decode_loop_terminates [OF peer_field_advances])

end
