(* ===== verification/Kad_Message.thy ===== *)
theory Kad_Message
  imports Dht_Record Peer
begin

text \<open>
  The messages of the Kademlia protocol, \<open>libp2p/record/message.c\<close>: a type, a key, a record,
  the peers that are closer to the key and the peers that provide it.

  The two linked lists are lists of peers. The key and the record are options for the pointers
  that may be null.
\<close>

section \<open>The code\<close>

definition MESSAGE_TYPE_PING :: u32 where "MESSAGE_TYPE_PING = 5"

record kad_message =
  message_type :: u32
  msg_key :: "bytes option"
  msg_record :: "libp2p_record option"
  closer_peers :: "libp2p_peer list"
  provider_peers :: "libp2p_peer list"
  cluster_level_raw :: int

definition libp2p_message_new :: kad_message where
  "libp2p_message_new =
     \<lparr>message_type = MESSAGE_TYPE_PING, msg_key = None, msg_record = None,
      closer_peers = [], provider_peers = [], cluster_level_raw = 0\<rparr>"

definition key_size :: "kad_message \<Rightarrow> nat" where
  "key_size m = (case msg_key m of None \<Rightarrow> 0 | Some k \<Rightarrow> length k)"

definition libp2p_message_protobuf_encode_size :: "kad_message \<Rightarrow> nat" where
  "libp2p_message_protobuf_encode_size m =
     11 + 11 + (key_size m + 11) + (11 + libp2p_record_protobuf_encode_size (msg_record m)) +
     sum_list (map (\<lambda>p. 11 + libp2p_peer_protobuf_encode_size (Some p)) (closer_peers m)) +
     sum_list (map (\<lambda>p. 11 + libp2p_peer_protobuf_encode_size (Some p)) (provider_peers m))"

text \<open>The buffer of the record is not checked against null, those of the peers are.\<close>

definition put_record :: "libp2p_record \<Rightarrow> nat \<Rightarrow> bytes \<Rightarrow> bytes result" where
  "put_record r max_len out =
     (let n = libp2p_record_protobuf_encode_size (Some r) in
      if malloc_ok n then bind_res (libp2p_record_protobuf_encode r n) (\<lambda>w. put_bytes 3 w max_len out)
      else Inl Undefined)"

definition put_peer :: "int \<Rightarrow> libp2p_peer \<Rightarrow> nat \<Rightarrow> bytes \<Rightarrow> bytes result" where
  "put_peer k p max_len =
     put_message_heap (\<lambda>p. Inr (libp2p_peer_protobuf_encode_size (Some p)))
       libp2p_peer_protobuf_encode k p max_len"

definition libp2p_message_protobuf_encode :: "kad_message \<Rightarrow> nat \<Rightarrow> bytes result" where
  "libp2p_message_protobuf_encode m max_len =
     chain
       ([put_varint 1 (ucast (message_type m)) max_len] @
        (case msg_key m of None \<Rightarrow> [] | Some k \<Rightarrow> [put_bytes 2 k max_len]) @
        (case msg_record m of None \<Rightarrow> [] | Some r \<Rightarrow> [put_record r max_len]) @
        map (\<lambda>p. put_peer 8 p max_len) (closer_peers m) @
        map (\<lambda>p. put_peer 9 p max_len) (provider_peers m) @
        [put_varint 10 (word_of_int (cluster_level_raw m)) max_len]) []"

definition libp2p_message_protobuf_allocate_and_encode :: "kad_message \<Rightarrow> bytes result" where
  "libp2p_message_protobuf_allocate_and_encode m =
     (let n = libp2p_message_protobuf_encode_size m in
      if malloc_ok n then libp2p_message_protobuf_encode m n else Inl Failure)"

text \<open>
  The numbers are written over the 32-bit members and their padding. A field number outside
  1 to 10 is an error; 4 to 7 are passed over, without their contents.
\<close>

definition libp2p_message_field ::
    "(bytes \<Rightarrow> bytes option) \<Rightarrow> bytes \<Rightarrow> int \<Rightarrow> nat \<Rightarrow> kad_message \<Rightarrow> (kad_message \<times> nat) run" where
  "libp2p_message_field to_string buf field_no pos m =
     (let rest = drop pos buf; remaining = length buf - pos;
          bytes_field = (\<lambda>f. bind_run (Some (protobuf_decode_length_delimited rest remaining)) f);
          varint_field = (\<lambda>store.
            Some (bind_res (protobuf_decode_varint rest remaining) (\<lambda>(v, n). Inr (store v, pos + n))))
      in
        if field_no < 1 \<or> 10 < field_no then Some (Inl Failure)
        else if field_no = 1 then varint_field (\<lambda>v. m\<lparr>message_type := ucast v\<rparr>)
        else if field_no = 2 then bytes_field (\<lambda>(d, n). Some (Inr (m\<lparr>msg_key := Some d\<rparr>, pos + n)))
        else if field_no = 3 then
          bytes_field (\<lambda>(d, n).
          bind_run (libp2p_record_protobuf_decode d) (\<lambda>r.
          Some (Inr (m\<lparr>msg_record := Some r\<rparr>, pos + n))))
        else if field_no = 8 then
          bytes_field (\<lambda>(d, n).
          bind_run (libp2p_peer_protobuf_decode to_string d) (\<lambda>p.
          Some (Inr (m\<lparr>closer_peers := closer_peers m @ [p]\<rparr>, pos + n))))
        else if field_no = 9 then
          bytes_field (\<lambda>(d, n).
          bind_run (libp2p_peer_protobuf_decode to_string d) (\<lambda>p.
          Some (Inr (m\<lparr>provider_peers := provider_peers m @ [p]\<rparr>, pos + n))))
        else if field_no = 10 then varint_field (\<lambda>v. m\<lparr>cluster_level_raw := c_int (uint v)\<rparr>)
        else Some (Inr (m, pos)))"

definition libp2p_message_protobuf_decode :: "(bytes \<Rightarrow> bytes option) \<Rightarrow> bytes \<Rightarrow> kad_message run" where
  "libp2p_message_protobuf_decode to_string buf =
     pb_decode_loop (libp2p_message_field to_string buf) buf 0 libp2p_message_new"

section \<open>The wire format\<close>

definition kad_fields :: "kad_message \<Rightarrow> wire_field list" where
  "kad_fields m =
     [Varint_Field 1 (ucast (message_type m))] @
     (case msg_key m of None \<Rightarrow> [] | Some k \<Rightarrow> [Bytes_Field 2 k]) @
     (case msg_record m of None \<Rightarrow> [] | Some r \<Rightarrow> [Bytes_Field 3 (wire (record_fields r))]) @
     map (\<lambda>p. Bytes_Field 8 (wire (peer_fields p))) (closer_peers m) @
     map (\<lambda>p. Bytes_Field 9 (wire (peer_fields p))) (provider_peers m) @
     [Varint_Field 10 (word_of_int (cluster_level_raw m))]"

definition kad_size :: "kad_message \<Rightarrow> nat" where
  "kad_size m =
     11 + 11 + (key_size m + 11) + (11 + libp2p_record_protobuf_encode_size (msg_record m)) +
     sum_list (map (\<lambda>p. 11 + peer_size p) (closer_peers m)) +
     sum_list (map (\<lambda>p. 11 + peer_size p) (provider_peers m))"

definition kad_wf :: "kad_message \<Rightarrow> bool" where
  "kad_wf m \<longleftrightarrow>
     (\<forall>r. msg_record m = Some r \<longrightarrow> record_wf r) \<and>
     - (2 ^ 31) \<le> cluster_level_raw m \<and> cluster_level_raw m < 2 ^ 31 \<and> kad_size m < 2 ^ 31"

definition kad_norm :: "(bytes \<Rightarrow> bytes option) \<Rightarrow> kad_message \<Rightarrow> kad_message" where
  "kad_norm to_string m =
     m\<lparr>closer_peers := map (peer_norm to_string) (closer_peers m),
       provider_peers := map (peer_norm to_string) (provider_peers m)\<rparr>"

fun kad_store :: "(bytes \<Rightarrow> bytes option) \<Rightarrow> wire_field \<Rightarrow> kad_message \<Rightarrow> kad_message" where
  "kad_store to_string (Varint_Field k v) m =
     (if k = 1 then m\<lparr>message_type := ucast v\<rparr>
      else if k = 10 then m\<lparr>cluster_level_raw := c_int (uint v)\<rparr> else m)"
| "kad_store to_string (Bytes_Field k d) m =
     (if k = 2 then m\<lparr>msg_key := Some d\<rparr>
      else if k = 3 then
        (case libp2p_record_protobuf_decode d of
           Some (Inr r) \<Rightarrow> m\<lparr>msg_record := Some r\<rparr> | _ \<Rightarrow> m)
      else if k = 8 then
        (case libp2p_peer_protobuf_decode to_string d of
           Some (Inr p) \<Rightarrow> m\<lparr>closer_peers := closer_peers m @ [p]\<rparr> | _ \<Rightarrow> m)
      else if k = 9 then
        (case libp2p_peer_protobuf_decode to_string d of
           Some (Inr p) \<Rightarrow> m\<lparr>provider_peers := provider_peers m @ [p]\<rparr> | _ \<Rightarrow> m)
      else m)"

lemma sum_list_map_member:
  fixes f :: "'a \<Rightarrow> nat"
  shows "x \<in> set xs \<Longrightarrow> f x \<le> sum_list (map f xs)"
  by (intro member_le_sum_list) auto

lemma kad_peer_wf:
  assumes "kad_wf m" and "p \<in> set (closer_peers m) \<union> set (provider_peers m)"
  shows "peer_wf p" and "peer_size p < 2 ^ 31"
proof -
  have "11 + peer_size p \<le> sum_list (map (\<lambda>p. 11 + peer_size p) (closer_peers m)) +
      sum_list (map (\<lambda>p. 11 + peer_size p) (provider_peers m))"
    using assms(2) sum_list_map_member [of p "closer_peers m" "\<lambda>p. 11 + peer_size p"]
      sum_list_map_member [of p "provider_peers m" "\<lambda>p. 11 + peer_size p"] by auto
  then show "peer_size p < 2 ^ 31" using assms(1) by (simp add: kad_wf_def kad_size_def)
  then show "peer_wf p" by (simp add: peer_wf_def)
qed

lemma kad_record:
  assumes "kad_wf m" and "msg_record m = Some r"
  shows "record_wf r" and "libp2p_record_protobuf_encode_size (Some r) < 2 ^ 31"
  using assms by (simp_all add: kad_wf_def kad_size_def)

lemma kad_size_eq:
  assumes "kad_wf m"
  shows "libp2p_message_protobuf_encode_size m = kad_size m"
proof -
  have e: "libp2p_peer_protobuf_encode_size (Some p) = peer_size p"
    if "p \<in> set (closer_peers m) \<or> p \<in> set (provider_peers m)" for p
    using that kad_peer_wf(1) [OF assms] peer_size_eq by blast
  have "map (\<lambda>p. 11 + libp2p_peer_protobuf_encode_size (Some p)) (closer_peers m) =
      map (\<lambda>p. 11 + peer_size p) (closer_peers m)"
    and "map (\<lambda>p. 11 + libp2p_peer_protobuf_encode_size (Some p)) (provider_peers m) =
      map (\<lambda>p. 11 + peer_size p) (provider_peers m)"
    by (simp_all add: e)
  then show ?thesis by (simp only: libp2p_message_protobuf_encode_size_def kad_size_def)
qed

lemma writes_put_peer:
  assumes "peer_wf p" and "peer_size p < 2 ^ 31" and "n < 2 ^ 31" and "k = int j" and "j < 2 ^ 28"
  shows "writes n (put_peer k p n) [Bytes_Field j (wire (peer_fields p))]"
  unfolding put_peer_def using assms peer_codec.enc_estimated [of p] peer_size_eq [of p]
  by (intro writes_put_message_heap) (simp_all add: malloc_ok_def)

lemma writes_put_record:
  assumes "record_wf r" and "libp2p_record_protobuf_encode_size (Some r) < 2 ^ 31" and "n < 2 ^ 31"
  shows "writes n (put_record r n) [Bytes_Field 3 (wire (record_fields r))]"
  using writes_put_bytes [OF assms(3), of 3 3 "wire (record_fields r)"]
    record_codec.enc_estimated [OF assms(1,2)] assms(2)
  by (simp add: writes_def put_record_def malloc_ok_def)

lemma writes_option:
  "(\<And>x. v = Some x \<Longrightarrow> writes n (f x) [g x]) \<Longrightarrow>
   writes n (chain (case v of None \<Rightarrow> [] | Some x \<Rightarrow> [f x])) (case v of None \<Rightarrow> [] | Some x \<Rightarrow> [g x])"
  by (cases v) (simp_all add: writes_Nil writes_Cons)

lemma kad_encode_wire:
  assumes wf: "kad_wf m" and fits: "length (wire (kad_fields m)) \<le> n" and n: "n < 2 ^ 31"
  shows "libp2p_message_protobuf_encode m n = Inr (wire (kad_fields m))"
  unfolding libp2p_message_protobuf_encode_def
  by (rule chain_writes [OF _ fits], unfold kad_fields_def)
    (intro writes_append writes_map writes_option writes_Cons writes_Nil writes_put_varint
      writes_put_bytes writes_put_peer writes_put_record;
     use n kad_peer_wf [OF wf] kad_record [OF wf] in simp)

lemma length_wire_peers:
  assumes "\<forall>p \<in> set ps. peer_wf p \<and> peer_size p < 2 ^ 31" and "k < 16"
  shows "length (wire (map (\<lambda>p. Bytes_Field k (wire (peer_fields p))) ps)) \<le>
    sum_list (map (\<lambda>p. 11 + peer_size p) ps)"
  using assms
proof (induction ps)
  case (Cons p ps)
  then show ?case
    using peer_codec.sz_enough [of p] length_bytes_field [of k "wire (peer_fields p)"] by simp
qed simp

lemma kad_size_enough:
  assumes wf: "kad_wf m"
  shows "length (wire (kad_fields m)) \<le> kad_size m"
proof -
  have "length (wire (case msg_key m of None \<Rightarrow> [] | Some k \<Rightarrow> [Bytes_Field 2 k])) \<le> key_size m + 11"
    using wf length_bytes_field [of 2 "the (msg_key m)"]
    by (cases "msg_key m") (simp_all add: key_size_def kad_wf_def kad_size_def)
  moreover have "length (wire (case msg_record m of None \<Rightarrow> []
      | Some r \<Rightarrow> [Bytes_Field 3 (wire (record_fields r))])) \<le>
      11 + libp2p_record_protobuf_encode_size (msg_record m)"
  proof (cases "msg_record m")
    case (Some r)
    then show ?thesis
      using record_codec.sz_enough [OF kad_record [OF wf Some]] kad_record(2) [OF wf Some]
        length_bytes_field [of 3 "wire (record_fields r)"] by simp
  qed simp
  moreover note length_wire_peers [of "closer_peers m" 8] length_wire_peers [of "provider_peers m" 9]
    length_varint_field [of 1 "ucast (message_type m)"]
    length_varint_field [of 10 "word_of_int (cluster_level_raw m)"]
  ultimately show ?thesis
    using kad_peer_wf [OF wf] by (simp add: kad_fields_def kad_size_def)
qed

lemma kad_decodes:
  assumes n: "length buf < 2 ^ 31" and wf: "kad_wf m" and "f \<in> set (kad_fields m)"
  shows "fnum f < 2 ^ 28 \<and> decodes (libp2p_message_field to_string buf) buf (kad_store to_string) f"
proof -
  let ?d = "decodes (libp2p_message_field to_string buf) buf (kad_store to_string)"
  have "?d (Varint_Field k v)" if "k = 1 \<or> k = 10" for k v
    using n that by (auto intro!: decodesI simp: libp2p_message_field_def Let_def)
  moreover have "?d (Bytes_Field 2 d)" for d
    using n by (auto intro!: decodesI simp: libp2p_message_field_def Let_def)
  moreover have "?d (Bytes_Field 3 (wire (record_fields r)))" if "msg_record m = Some r" for r
    using n record_codec.dec_embedded [OF kad_record [OF wf that]]
    by (auto intro!: decodesI simp: libp2p_message_field_def Let_def)
  moreover have "?d (Bytes_Field k (wire (peer_fields p)))"
    if "k = 8 \<or> k = 9" "p \<in> set (closer_peers m) \<union> set (provider_peers m)" for k p
    using n that(1) peer_codec.dec_embedded [OF kad_peer_wf [OF wf that(2)]]
    by (auto intro!: decodesI simp: libp2p_message_field_def Let_def)
  ultimately show ?thesis using assms(3) by (auto simp: kad_fields_def split: option.splits)
qed

lemma fold_kad_peers:
  assumes "\<forall>p \<in> set ps. peer_wf p \<and> peer_size p < 2 ^ 31"
  shows "fold (kad_store to_string) (map (\<lambda>p. Bytes_Field 8 (wire (peer_fields p))) ps) m =
      m\<lparr>closer_peers := closer_peers m @ map (peer_norm to_string) ps\<rparr>"
    and "fold (kad_store to_string) (map (\<lambda>p. Bytes_Field 9 (wire (peer_fields p))) ps) m =
      m\<lparr>provider_peers := provider_peers m @ map (peer_norm to_string) ps\<rparr>"
  using assms
  by (induction ps arbitrary: m) (simp_all add: peer_codec.dec_embedded)

lemma c_int_uint: "- (2 ^ 31) \<le> k \<Longrightarrow> k < 2 ^ 31 \<Longrightarrow> c_int (uint (word_of_int k :: u64)) = k"
  by (simp add: c_int_def uint_word_of_int_eq signed_take_bit_take_bit signed_take_bit_int_eq_self)

lemma kad_decode_wire:
  assumes wf: "kad_wf m" and n: "length (wire (kad_fields m)) < 2 ^ 31"
  shows "libp2p_message_protobuf_decode to_string (wire (kad_fields m)) = Some (Inr (kad_norm to_string m))"
proof -
  have "fold (kad_store to_string) (kad_fields m) libp2p_message_new = kad_norm to_string m"
    using kad_peer_wf [OF wf] wf record_codec.dec_embedded [OF kad_record [OF wf]]
    by (cases "msg_key m"; cases "msg_record m")
      (simp_all add: kad_fields_def fold_kad_peers libp2p_message_new_def kad_norm_def c_int_uint kad_wf_def)
  then show ?thesis
    unfolding libp2p_message_protobuf_decode_def
    using pb_decode_loop_wire [OF n, of "kad_fields m" _ "kad_store to_string" 0] kad_decodes [OF n wf]
    by simp
qed

interpretation kad_codec: pb_codec kad_fields libp2p_message_protobuf_encode kad_size kad_wf
  "libp2p_message_protobuf_decode to_string" "kad_norm to_string" for to_string
  by unfold_locales (simp_all add: kad_encode_wire kad_size_enough kad_decode_wire)

section \<open>Properties\<close>


definition sample_kad_message :: kad_message where
  "sample_kad_message =
     libp2p_message_new\<lparr>message_type := 2, msg_key := Some [1, 2], cluster_level_raw := - 1,
       provider_peers := [libp2p_peer_new\<lparr>peer_id := [9]\<rparr>]\<rparr>"


text \<open>
  An eleven-byte message from a peer, whose record is the one the record decoder never
  finishes, makes the decoder of Kademlia messages run for ever.
\<close>

theorem kad_message_decode_diverges:
  "libp2p_message_protobuf_decode to_string (0x1A # 9 # looping_record) = None"
proof -
  have l: "looping_record \<noteq> []" "length looping_record = 9"
    by (simp_all add: looping_record_def)
  have "protobuf_decode_field_and_type (0x1A # 9 # looping_record) 11 = Inr (3, 2, 1)"
    by (simp add: varint_eval)
  moreover have "protobuf_decode_length_delimited (9 # looping_record) 10 = Inr (looping_record, 10)"
    using l by (simp add: protobuf_decode_length_delimited_def varint_eval malloc_ok_def)
  moreover have "libp2p_record_protobuf_decode looping_record = None"
    by (rule looping_record_diverges)
  ultimately show ?thesis
    using l unfolding libp2p_message_protobuf_decode_def
    by (subst pb_decode_loop.simps) (simp add: libp2p_message_field_def)
qed

end
