(* ===== verification/Peer_Request_Queue.thy ===== *)
theory Peer_Request_Queue
  imports Bitswap_Message Peer
begin

text \<open>
  The queue of requests to and from peers, \<open>libipfs/exchange/bitswap/peer_request_queue.c\<close>: a
  doubly linked list of entries, each with one request.

  The links matter, so the model keeps the memory: entries and requests live at addresses, the
  indices of two lists that only grow; a freed one is \<open>None\<close>. Following a null pointer, or one
  to freed memory, is \<open>Undefined\<close>. The vectors of a request are lists. The locks have no
  counterpart: each operation is one step.
\<close>

section \<open>The memory\<close>

record peer_request =
  pr_peer :: "libp2p_peer option"
  cids_they_want :: "cid_entry list"
  cids_we_want :: "cid_entry list"
  blocks_we_want_to_send :: "ipfs_block list"

record peer_request_entry =
  prior :: "nat option"
  current :: "nat option"
  next_entry :: "nat option"

record peer_request_queue =
  first_entry :: "nat option"
  last_entry :: "nat option"
  entry_heap :: "peer_request_entry option list"
  request_heap :: "peer_request option list"

definition load :: "'a option list \<Rightarrow> nat option \<Rightarrow> 'a result" where
  "load heap p =
     (case p of
        None \<Rightarrow> Inl Undefined
      | Some a \<Rightarrow>
          if a < length heap then (case heap ! a of None \<Rightarrow> Inl Undefined | Some x \<Rightarrow> Inr x)
          else Inl Undefined)"

definition store_entry :: "nat \<Rightarrow> peer_request_entry \<Rightarrow> peer_request_queue \<Rightarrow> peer_request_queue" where
  "store_entry a e q = q\<lparr>entry_heap := (entry_heap q)[a := Some e]\<rparr>"

definition store_request :: "nat \<Rightarrow> peer_request \<Rightarrow> peer_request_queue \<Rightarrow> peer_request_queue" where
  "store_request a r q = q\<lparr>request_heap := (request_heap q)[a := Some r]\<rparr>"

section \<open>The code\<close>

definition ipfs_bitswap_peer_request_cid_entry_new :: cid_entry where
  "ipfs_bitswap_peer_request_cid_entry_new =
     \<lparr>ce_cid = None, ce_cancel = False, ce_cancel_has_been_sent = False,
      ce_request_has_been_sent = False\<rparr>"

definition ipfs_bitswap_peer_request_new :: peer_request where
  "ipfs_bitswap_peer_request_new =
     \<lparr>pr_peer = None, cids_they_want = [], cids_we_want = [], blocks_we_want_to_send = []\<rparr>"

definition ipfs_bitswap_peer_request_entry_new :: peer_request_entry where
  "ipfs_bitswap_peer_request_entry_new = \<lparr>prior = None, current = None, next_entry = None\<rparr>"

definition ipfs_bitswap_peer_request_queue_new :: peer_request_queue where
  "ipfs_bitswap_peer_request_queue_new =
     \<lparr>first_entry = None, last_entry = None, entry_heap = [], request_heap = []\<rparr>"

text \<open>Freeing an entry frees its request too.\<close>

definition ipfs_bitswap_peer_request_entry_free :: "nat \<Rightarrow> peer_request_queue \<Rightarrow> peer_request_queue result" where
  "ipfs_bitswap_peer_request_entry_free a q =
     bind_res (load (entry_heap q) (Some a)) (\<lambda>e.
     let q' = q\<lparr>entry_heap := (entry_heap q)[a := None]\<rparr>
     in case current e of
          None \<Rightarrow> Inr q'
        | Some r \<Rightarrow>
            bind_res (load (request_heap q) (Some r)) (\<lambda>req.
            Inr (q'\<lparr>request_heap := (request_heap q)[r := None]\<rparr>)))"

text \<open>
  \<open>queue_add\<close> takes the address of a request. The entry that was last does not learn of the
  new one.
\<close>

definition ipfs_bitswap_peer_request_queue_add ::
    "peer_request_queue \<Rightarrow> nat option \<Rightarrow> bool \<times> peer_request_queue" where
  "ipfs_bitswap_peer_request_queue_add q request =
     (case request of
        None \<Rightarrow> (False, q)
      | Some r \<Rightarrow>
          let a = length (entry_heap q);
              e = ipfs_bitswap_peer_request_entry_new\<lparr>current := Some r, prior := last_entry q\<rparr>
          in (True, q\<lparr>entry_heap := entry_heap q @ [Some e], last_entry := Some a,
                      first_entry := (if first_entry q = None then Some a else first_entry q)\<rparr>))"

text \<open>The walk from an entry along \<open>next\<close> to the first request for a peer; it may not end.\<close>

partial_function (option) find_entry_from ::
    "peer_request_queue \<Rightarrow> libp2p_peer option \<Rightarrow> nat option \<Rightarrow> nat option run" where
  "find_entry_from q p cur =
     (case cur of
        None \<Rightarrow> Some (Inr None)
      | Some a \<Rightarrow>
          (case (case load (entry_heap q) (Some a) of
                   Inl f \<Rightarrow> Inl f
                 | Inr e \<Rightarrow>
                     (case load (request_heap q) (current e) of
                        Inl f \<Rightarrow> Inl f
                      | Inr r \<Rightarrow>
                          (case libp2p_peer_compare (pr_peer r) p of
                             Inl f \<Rightarrow> Inl f
                           | Inr c \<Rightarrow> Inr (c, next_entry e)))) of
             Inl f \<Rightarrow> Some (Inl f)
           | Inr (c, nxt) \<Rightarrow>
               if c = 0 then Some (Inr (Some a)) else find_entry_from q p nxt))"

definition ipfs_bitswap_peer_request_queue_find_entry ::
    "peer_request_queue \<Rightarrow> libp2p_peer option \<Rightarrow> nat option run" where
  "ipfs_bitswap_peer_request_queue_find_entry q p =
     (if p = None then Some (Inr None) else find_entry_from q p (first_entry q))"

text \<open>\<open>queue_remove\<close> hooks the prior entry to the next one, but nothing the other way.\<close>

definition ipfs_bitswap_peer_request_queue_remove ::
    "peer_request_queue \<Rightarrow> nat option \<Rightarrow> (bool \<times> peer_request_queue) run" where
  "ipfs_bitswap_peer_request_queue_remove q request =
     (case request of
        None \<Rightarrow> Some (Inr (False, q))
      | Some r \<Rightarrow>
          bind_run (Some (load (request_heap q) (Some r))) (\<lambda>req.
          bind_run (ipfs_bitswap_peer_request_queue_find_entry q (pr_peer req)) (\<lambda>found.
          case found of
            None \<Rightarrow> Some (Inr (False, q))
          | Some a \<Rightarrow>
              Some
                (bind_res (load (entry_heap q) (Some a)) (\<lambda>e.
                 bind_res (load (entry_heap q) (prior e)) (\<lambda>p.
                 let q1 = store_entry (the (prior e)) (p\<lparr>next_entry := next_entry e\<rparr>) q
                 in bind_res (load (entry_heap q1) (Some a)) (\<lambda>e1.
                    let q2 = store_entry a (e1\<lparr>prior := None, next_entry := None\<rparr>) q1
                    in bind_res (ipfs_bitswap_peer_request_entry_free a q2) (\<lambda>q3.
                       Inr (True, q3)))))))))"

definition ipfs_bitswap_peer_request_cids_waiting :: "cid_entry list \<Rightarrow> bool" where
  "ipfs_bitswap_peer_request_cids_waiting cids \<longleftrightarrow> (\<exists>c \<in> set cids. \<not> ce_cancel c)"

definition ipfs_bitswap_peer_request_we_want_cids :: "cid_entry list \<Rightarrow> bool" where
  "ipfs_bitswap_peer_request_we_want_cids cids \<longleftrightarrow>
     (\<exists>c \<in> set cids. (ce_cancel c \<and> \<not> ce_cancel_has_been_sent c) \<or>
                    (\<not> ce_cancel c \<and> \<not> ce_request_has_been_sent c))"

text \<open>
  \<open>something_to_do\<close>: the answer and the request, whose peer loses a bad connection. \<open>peek\<close> is
  the default stream's count of waiting bytes, negative on an error.
\<close>

definition ipfs_bitswap_peer_request_something_to_do ::
    "(session_context \<Rightarrow> int) \<Rightarrow> peer_request \<Rightarrow> (int \<times> peer_request) result" where
  "ipfs_bitswap_peer_request_something_to_do peek r =
     (if blocks_we_want_to_send r \<noteq> [] then Inr (1, r)
      else if cids_we_want r \<noteq> [] then Inr (1, r)
      else if ipfs_bitswap_peer_request_cids_waiting (cids_they_want r) then Inr (1, r)
      else
        case pr_peer r of
          None \<Rightarrow> Inl Undefined
        | Some p \<Rightarrow>
            if connection_type p = CONNECTION_TYPE_CONNECTED then
              (case session p of
                 None \<Rightarrow> Inl Undefined
               | Some s \<Rightarrow>
                   if default_stream s = None then Inl Undefined
                   else if peek s < 0
                   then Inr (0, r\<lparr>pr_peer := Some (libp2p_peer_handle_connection_error p)\<rparr>)
                   else Inr (peek s, r))
            else Inr (0, r))"

text \<open>
  \<open>pop\<close> gives the first request that has something to do and moves its entry to the end. The
  moved entry keeps its own \<open>next\<close>.
\<close>

definition ipfs_bitswap_peer_request_queue_pop ::
    "(session_context \<Rightarrow> int) \<Rightarrow> peer_request_queue \<Rightarrow> (nat option \<times> peer_request_queue) result" where
  "ipfs_bitswap_peer_request_queue_pop peek q =
     (case first_entry q of
        None \<Rightarrow> Inr (None, q)
      | Some a \<Rightarrow>
          bind_res (load (entry_heap q) (Some a)) (\<lambda>e.
          bind_res (load (request_heap q) (current e)) (\<lambda>r.
          bind_res (ipfs_bitswap_peer_request_something_to_do peek r) (\<lambda>(todo, r').
          let q' = store_request (the (current e)) r' q in
          if todo = 0 then Inr (None, q')
          else if next_entry e = None then Inr (current e, q')
          else
            bind_res (load (entry_heap q') (last_entry q')) (\<lambda>l.
            Inr (current e,
              (store_entry (the (last_entry q')) (l\<lparr>next_entry := Some a\<rparr>) q')
                \<lparr>first_entry := next_entry e, last_entry := Some a\<rparr>))))))"

text \<open>
  \<open>ipfs_peer_request_queue_find_peer\<close>: the address of the request for a peer, made and put at
  the end if there is none.
\<close>

definition append_request :: "peer_request_queue \<Rightarrow> libp2p_peer option \<Rightarrow> (nat \<times> peer_request_queue) result" where
  "append_request q p =
     (let a = length (entry_heap q); r = length (request_heap q);
          e = ipfs_bitswap_peer_request_entry_new\<lparr>current := Some r\<rparr>;
          q' = q\<lparr>request_heap := request_heap q @ [Some (ipfs_bitswap_peer_request_new\<lparr>pr_peer := p\<rparr>)]\<rparr>
      in if first_entry q = None
         then Inr (r, q'\<lparr>entry_heap := entry_heap q @ [Some e], first_entry := Some a, last_entry := Some a\<rparr>)
         else
           bind_res (load (entry_heap q) (last_entry q)) (\<lambda>l.
           Inr (r, q'\<lparr>entry_heap :=
               (entry_heap q)[the (last_entry q) := Some (l\<lparr>next_entry := Some a\<rparr>)] @
               [Some (e\<lparr>prior := last_entry q\<rparr>)],
             last_entry := Some a\<rparr>)))"

definition ipfs_peer_request_queue_find_peer ::
    "peer_request_queue \<Rightarrow> libp2p_peer option \<Rightarrow> (nat \<times> peer_request_queue) run" where
  "ipfs_peer_request_queue_find_peer q p =
     bind_run (find_entry_from q p (first_entry q)) (\<lambda>found.
     Some
       (case found of
          Some a \<Rightarrow>
            bind_res (load (entry_heap q) (Some a)) (\<lambda>e.
            case current e of None \<Rightarrow> Inl Undefined | Some r \<Rightarrow> Inr (r, q))
        | None \<Rightarrow> append_request q p))"

text \<open>\<open>fill\<close> adds a block for a peer and returns 0 whatever happens.\<close>

definition ipfs_bitswap_peer_request_queue_fill ::
    "peer_request_queue \<Rightarrow> libp2p_peer option \<Rightarrow> ipfs_block \<Rightarrow> (int \<times> peer_request_queue) run" where
  "ipfs_bitswap_peer_request_queue_fill q who block =
     bind_run (ipfs_peer_request_queue_find_peer q who) (\<lambda>(a, q').
     bind_run (Some (load (request_heap q') (Some a))) (\<lambda>r.
     Some (Inr (0, store_request a
       (r\<lparr>blocks_we_want_to_send := blocks_we_want_to_send r @ [block]\<rparr>) q'))))"

section \<open>Processing a request\<close>

text \<open>\<open>get\<close> is the block store's lookup.\<close>

fun get_blocks_loop ::
    "(cid option \<Rightarrow> ipfs_block option) \<Rightarrow> cid_entry list \<Rightarrow> cid_entry list \<times> ipfs_block list" where
  "get_blocks_loop get [] = ([], [])"
| "get_blocks_loop get (c # cs) =
     (let (cs', bs) = get_blocks_loop get cs
      in if ce_cancel c then (c # cs', bs)
         else case get (ce_cid c) of
                None \<Rightarrow> (c # cs', bs)
              | Some b \<Rightarrow> (c\<lparr>ce_cancel := True\<rparr> # cs', b # bs))"

definition ipfs_bitswap_peer_request_get_blocks_they_want ::
    "(cid option \<Rightarrow> ipfs_block option) \<Rightarrow> peer_request \<Rightarrow> peer_request" where
  "ipfs_bitswap_peer_request_get_blocks_they_want get r =
     (let (cs, bs) = get_blocks_loop get (cids_they_want r)
      in r\<lparr>cids_they_want := cs, blocks_we_want_to_send := blocks_we_want_to_send r @ bs\<rparr>)"

text \<open>
  The message for a peer, from what the request holds; the results of the two functions that
  fill it are not looked at.
\<close>

definition build_message ::
    "(cid option \<Rightarrow> ipfs_block option) \<Rightarrow> peer_request \<Rightarrow> (bitswap_message \<times> peer_request) result" where
  "build_message get r =
     (let r1 = ipfs_bitswap_peer_request_get_blocks_they_want get r;
          m = ipfs_bitswap_message_new
      in bind_res
           (case ipfs_bitswap_message_add_blocks (Some m) (Some (blocks_we_want_to_send r1)) (cids_they_want r1) of
              Inl Failure \<Rightarrow> Inr (m, r1)
            | Inl e \<Rightarrow> Inl e
            | Inr (m', bs, cs) \<Rightarrow> Inr (m', r1\<lparr>blocks_we_want_to_send := bs, cids_they_want := cs\<rparr>))
           (\<lambda>(m', r2).
         bind_res (ipfs_bitswap_message_add_wantlist_items m' (cids_we_want r2)) (\<lambda>(ok, m'', cs).
         Inr (m'', r2\<lparr>cids_we_want := cs\<rparr>))))"

text \<open>
  \<open>connect\<close> and \<open>send\<close> are the network's: whether it worked, and what the peer has become.
  \<open>addr_list\<close> without a first address that is not null makes the peer unreachable.
\<close>

definition ipfs_bitswap_peer_request_process_entry ::
    "(libp2p_peer \<Rightarrow> bool \<times> libp2p_peer) \<Rightarrow> (libp2p_peer \<Rightarrow> bitswap_message \<Rightarrow> bool \<times> libp2p_peer) \<Rightarrow>
     (cid option \<Rightarrow> ipfs_block option) \<Rightarrow> peer_request \<Rightarrow> (bool \<times> peer_request) result" where
  "ipfs_bitswap_peer_request_process_entry connect send get r =
     (case pr_peer r of
        None \<Rightarrow> Inr (False, r)
      | Some p \<Rightarrow>
          if \<not> is_local p \<and> connection_type p \<noteq> CONNECTION_TYPE_CONNECTED \<and>
             (addr_list p = [] \<or> hd (addr_list p) = None)
          then Inr (False, r)
          else
            let connected = is_local p \<or> connection_type p = CONNECTION_TYPE_CONNECTED;
                need = ipfs_bitswap_peer_request_we_want_cids (cids_we_want r) \<or>
                       ipfs_bitswap_peer_request_cids_waiting (cids_they_want r) \<or>
                       blocks_we_want_to_send r \<noteq> []
            in if \<not> need then Inr (False, r)
               else
                 let (connected', p') = (if connected then (True, p) else connect p);
                     r' = r\<lparr>pr_peer := Some p'\<rparr>
                 in if \<not> connected' then Inr (False, r')
                    else
                      bind_res (build_message get r') (\<lambda>(m, r'').
                      let (sent, p'') = send p' m
                      in Inr (sent, r''\<lparr>pr_peer := Some p''\<rparr>)))"

section \<open>Chains of entries\<close>

text \<open>An entry and its request, if both are there, and the id of the peer the request is for.\<close>

definition view :: "peer_request_queue \<Rightarrow> nat \<Rightarrow> (peer_request_entry \<times> peer_request) option" where
  "view q a =
     (case load (entry_heap q) (Some a) of
        Inl f \<Rightarrow> None
      | Inr e \<Rightarrow> (case load (request_heap q) (current e) of Inl f \<Rightarrow> None | Inr r \<Rightarrow> Some (e, r)))"

definition peer_key :: "libp2p_peer option \<Rightarrow> bytes option" where
  "peer_key p = map_option peer_id p"

definition key_at :: "peer_request_queue \<Rightarrow> nat \<Rightarrow> bytes option" where
  "key_at q a = (case view q a of None \<Rightarrow> None | Some (e, r) \<Rightarrow> peer_key (pr_peer r))"

text \<open>
  The entries \<open>as\<close>, doubly linked: the first one is \<open>cur\<close> and follows \<open>before\<close>, the last one is
  \<open>lst\<close> and is followed by \<open>after\<close>.
\<close>

fun linked :: "peer_request_queue \<Rightarrow> nat option \<Rightarrow> nat option \<Rightarrow> nat list \<Rightarrow> nat option \<Rightarrow> nat option \<Rightarrow> bool" where
  "linked q before cur [] lst after \<longleftrightarrow> cur = after \<and> lst = before"
| "linked q before cur (a # as) lst after \<longleftrightarrow>
     cur = Some a \<and>
     (case view q a of
        None \<Rightarrow> False
      | Some (e, r) \<Rightarrow> prior e = before \<and> linked q (Some a) (next_entry e) as lst after)"

definition queue_chain :: "peer_request_queue \<Rightarrow> nat list \<Rightarrow> bool" where
  "queue_chain q as \<longleftrightarrow> linked q None (first_entry q) as (last_entry q) None \<and> distinct as"

text \<open>What can be reached from \<open>cur\<close> along \<open>next\<close> alone.\<close>

fun reaches :: "peer_request_queue \<Rightarrow> nat option \<Rightarrow> nat list \<Rightarrow> nat option \<Rightarrow> bool" where
  "reaches q cur [] after \<longleftrightarrow> cur = after"
| "reaches q cur (a # as) after \<longleftrightarrow>
     cur = Some a \<and>
     (case view q a of None \<Rightarrow> False | Some (e, r) \<Rightarrow> reaches q (next_entry e) as after)"

definition short_key :: "bytes option \<Rightarrow> bool" where
  "short_key k \<longleftrightarrow> (case k of None \<Rightarrow> True | Some i \<Rightarrow> length i < 2 ^ 31)"

lemma load_Inr_iff: "load h p = Inr x \<longleftrightarrow> (\<exists>a. p = Some a \<and> a < length h \<and> h ! a = Some x)"
  by (auto simp: load_def split: option.splits if_splits)

lemma load_append: "load h p = Inr x \<Longrightarrow> load (h @ ys) p = Inr x"
  by (auto simp: load_Inr_iff nth_append)

lemma load_append_same [simp]: "load (h @ [Some x]) (Some (length h)) = Inr x"
  by (simp add: load_Inr_iff nth_append)

lemma load_update:
  "b < length h \<Longrightarrow> load (h[b := Some x]) p = (if p = Some b then Inr x else load h p)"
  by (auto simp: load_def split: option.splits)

lemma load_null [simp]: "load h None = Inl Undefined"
  by (simp add: load_def)

lemma load_freed [simp]: "load (h[a := None]) (Some a) = Inl Undefined"
  by (simp add: load_def)

lemma load_free_other: "p \<noteq> Some a \<Longrightarrow> load (h[a := None]) p = load h p"
  by (cases p) (simp_all add: load_def)

lemma view_Some_iff:
  "view q a = Some (e, r) \<longleftrightarrow>
     load (entry_heap q) (Some a) = Inr e \<and> load (request_heap q) (current e) = Inr r"
  by (auto simp: view_def split: sum.splits)

lemma view_address: "view q a = Some x \<Longrightarrow> a < length (entry_heap q)"
  by (cases x) (auto simp: view_Some_iff load_Inr_iff)

lemma linked_cong:
  assumes "\<And>a. a \<in> set as \<Longrightarrow> view q a = view q' a"
  shows "linked q b c as l n = linked q' b c as l n"
  using assms
proof (induction as arbitrary: b c)
  case (Cons a as)
  then show ?case by (cases "view q a") auto
qed simp

lemma linked_append:
  "linked q b c (as @ bs) l n \<longleftrightarrow> (\<exists>l' n'. linked q b c as l' n' \<and> linked q l' n' bs l n)"
  by (induction as arbitrary: b c) (auto split: option.splits)

lemma linked_reaches: "linked q b c as l n \<Longrightarrow> reaches q c as n"
  by (induction as arbitrary: b c) (auto split: option.splits)

lemma linked_views: "linked q b c as l n \<Longrightarrow> a \<in> set as \<Longrightarrow> view q a \<noteq> None"
  by (induction as arbitrary: b c) (auto split: option.splits)

lemma linked_next:
  assumes "linked q b c as l n" and "a \<in> set as"
  obtains e r where "view q a = Some (e, r)"
    and "(next_entry e = n \<and> l = Some a) \<or> next_entry e \<in> Some ` set as"
  using assms
proof (induction as arbitrary: b c thesis)
  case (Cons x xs)
  then obtain e r where v: "view q x = Some (e, r)" "linked q (Some x) (next_entry e) xs l n"
    by (auto split: option.splits)
  show ?case
  proof (cases "a = x")
    case True
    then show ?thesis using v Cons.prems(1) by (cases xs) auto
  next
    case False
    then show ?thesis using Cons.IH [OF _ v(2)] Cons.prems(1,3) by auto
  qed
qed simp

lemma reaches_cong:
  assumes "\<And>a. a \<in> set as \<Longrightarrow>
    map_option (\<lambda>(e, r). next_entry e) (view q a) = map_option (\<lambda>(e, r). next_entry e) (view q' a)"
  shows "reaches q c as n = reaches q' c as n"
  using assms
proof (induction as arbitrary: c)
  case (Cons a as)
  then have "map_option (\<lambda>(e, r). next_entry e) (view q a) = map_option (\<lambda>(e, r). next_entry e) (view q' a)"
    by simp
  moreover have IH: "reaches q c as n = reaches q' c as n" for c
    using Cons.prems by (intro Cons.IH) simp
  ultimately show ?case
    by (cases "view q a"; cases "view q' a") (simp_all add: IH split: prod.splits)
qed simp

section \<open>Looking for a peer\<close>

lemma compare_keys:
  assumes "short_key (peer_key a)" and "short_key (peer_key b)"
  shows "\<exists>c. libp2p_peer_compare a b = Inr c \<and> (c = 0 \<longleftrightarrow> peer_key a = peer_key b)"
  using assms compare_ids_eq
  by (auto simp: libp2p_peer_compare_def peer_key_def short_key_def c_int_def
      signed_take_bit_int_eq_self split: option.splits)

lemma find_entry_from_reaches:
  assumes "reaches q c as None" and "\<forall>a \<in> set as. short_key (key_at q a)"
    and "short_key (peer_key p)"
  shows "find_entry_from q p c = Some (Inr (find (\<lambda>a. key_at q a = peer_key p) as))"
  using assms
proof (induction as arbitrary: c)
  case Nil
  then show ?case by (simp add: find_entry_from.simps)
next
  case (Cons a as)
  then obtain e r where v: "view q a = Some (e, r)" "reaches q (next_entry e) as None" "c = Some a"
    by (auto split: option.splits)
  then have k: "key_at q a = peer_key (pr_peer r)" by (simp add: key_at_def)
  obtain d where d: "libp2p_peer_compare (pr_peer r) p = Inr d" "d = 0 \<longleftrightarrow> key_at q a = peer_key p"
    using compare_keys [of "pr_peer r" p] Cons.prems k by auto
  have "find_entry_from q p c =
      (if d = 0 then Some (Inr (Some a)) else find_entry_from q p (next_entry e))"
    using v(1,3) d(1) by (subst find_entry_from.simps) (simp add: view_Some_iff)
  moreover have "find_entry_from q p (next_entry e) = Some (Inr (find (\<lambda>a. key_at q a = peer_key p) as))"
    using Cons.IH [OF v(2)] Cons.prems by simp
  ultimately show ?case using d(2) by simp
qed

text \<open>A walk that stays among entries for other peers never ends.\<close>

lemma find_entry_from_cycle:
  assumes S: "\<And>a. a \<in> S \<Longrightarrow> \<exists>e r. view q a = Some (e, r) \<and> next_entry e \<in> Some ` S \<and>
      short_key (peer_key (pr_peer r)) \<and> peer_key (pr_peer r) \<noteq> peer_key p"
    and "short_key (peer_key p)" and "a \<in> S"
  shows "find_entry_from q p (Some a) = None"
proof (rule ccontr)
  assume "find_entry_from q p (Some a) \<noteq> None"
  then obtain res where res: "find_entry_from q p (Some a) = Some res" by blast
  have "\<not> (q = q \<and> p = p \<and> Some a \<in> Some ` S)"
  proof (rule find_entry_from.raw_induct
      [where P = "\<lambda>q' p' c res. \<not> (q' = q \<and> p' = p \<and> c \<in> Some ` S)", OF _ res])
    fix find :: "peer_request_queue \<Rightarrow> libp2p_peer option \<Rightarrow> nat option \<Rightarrow> nat option run"
      and q' p' c res'
    assume IH: "\<And>q' p' c res. find q' p' c = Some res \<Longrightarrow> \<not> (q' = q \<and> p' = p \<and> c \<in> Some ` S)"
      and eq: "(case c of None \<Rightarrow> Some (Inr None)
        | Some a \<Rightarrow>
          (case (case load (entry_heap q') (Some a) of
                   Inl f \<Rightarrow> Inl f
                 | Inr e \<Rightarrow>
                     (case load (request_heap q') (current e) of
                        Inl f \<Rightarrow> Inl f
                      | Inr r \<Rightarrow>
                          (case libp2p_peer_compare (pr_peer r) p' of
                             Inl f \<Rightarrow> Inl f
                           | Inr c \<Rightarrow> Inr (c, next_entry e)))) of
             Inl f \<Rightarrow> Some (Inl f)
           | Inr (c, nxt) \<Rightarrow> if c = 0 then Some (Inr (Some a)) else find q' p' nxt)) = Some res'"
    show "\<not> (q' = q \<and> p' = p \<and> c \<in> Some ` S)"
    proof
      assume same: "q' = q \<and> p' = p \<and> c \<in> Some ` S"
      then obtain b where b: "c = Some b" "b \<in> S" by blast
      from S [OF b(2)] obtain e r where v: "view q b = Some (e, r)" "next_entry e \<in> Some ` S"
        "short_key (peer_key (pr_peer r))" "peer_key (pr_peer r) \<noteq> peer_key p" by blast
      then obtain d where "libp2p_peer_compare (pr_peer r) p = Inr d" "d \<noteq> 0"
        using compare_keys [of "pr_peer r" p] assms(2) by auto
      then have "find q p (next_entry e) = Some res'"
        using eq same b(1) v(1) by (simp add: view_Some_iff)
      then show False using IH v(2) by blast
    qed
  qed
  then show False using assms(3) by simp
qed

section \<open>The queue as a list of peers\<close>

text \<open>
  The queue holds the entries \<open>as\<close>, each for another peer: the contract of the operations that
  keep the links right.
\<close>

definition queue_ok :: "peer_request_queue \<Rightarrow> nat list \<Rightarrow> bool" where
  "queue_ok q as \<longleftrightarrow>
     queue_chain q as \<and> distinct (map (key_at q) as) \<and> (\<forall>a \<in> set as. short_key (key_at q a))"

lemma queue_ok_new: "queue_ok ipfs_bitswap_peer_request_queue_new []"
  by (simp add: queue_ok_def queue_chain_def ipfs_bitswap_peer_request_queue_new_def)

lemma queue_ok_reaches: "queue_ok q as \<Longrightarrow> reaches q (first_entry q) as None"
  by (auto simp: queue_ok_def queue_chain_def intro: linked_reaches)

lemma queue_ok_find:
  assumes "queue_ok q as" and "short_key (peer_key p)"
  shows "find_entry_from q p (first_entry q) = Some (Inr (find (\<lambda>a. key_at q a = peer_key p) as))"
  using assms by (intro find_entry_from_reaches queue_ok_reaches) (simp_all add: queue_ok_def)

lemma view_append:
  assumes "view q a = Some (e, r)" and "request_heap q' = request_heap q @ rs"
    and "load (entry_heap q') (Some a) = Inr e'" and "current e' = current e"
  shows "view q' a = Some (e', r)"
  using assms by (simp add: view_Some_iff load_append)

text \<open>A new entry at the end of a chain.\<close>

lemma linked_snoc_entry:
  assumes chain: "linked q None (first_entry q) (as @ [l]) (last_entry q) None" and "distinct (as @ [l])"
    and v: "view q l = Some (e, r)"
    and hs: "entry_heap q' = (entry_heap q)[l := Some (e\<lparr>next_entry := Some a\<rparr>)] @ [Some new]"
      "request_heap q' = request_heap q @ [Some req]"
    and a: "a = length (entry_heap q)"
    and new: "current new = Some (length (request_heap q))" "prior new = Some l" "next_entry new = None"
  shows "linked q' None (first_entry q) (as @ [l, a]) (Some a) None"
    and "view q' a = Some (new, req)"
    and "b \<in> set as \<Longrightarrow> view q' b = view q b"
    and "view q' l = Some (e\<lparr>next_entry := Some a\<rparr>, r)"
proof -
  have l: "l < length (entry_heap q)" using v by (rule view_address)
  show va: "view q' a = Some (new, req)"
    using hs a new(1) by (auto simp: view_Some_iff load_Inr_iff nth_append)
  have "load (entry_heap q') (Some l) = Inr (e\<lparr>next_entry := Some a\<rparr>)"
    using l by (simp add: hs(1) load_append load_update)
  then show vl: "view q' l = Some (e\<lparr>next_entry := Some a\<rparr>, r)"
    using view_append [OF v hs(2)] by simp
  show vb: "view q' b = view q b" if b: "b \<in> set as" for b
  proof -
    obtain e' r' where b': "view q b = Some (e', r')"
      using linked_views [OF chain, of b] b by auto
    then have "load (entry_heap q') (Some b) = Inr e'"
      using l b assms(2) by (auto simp: hs(1) view_Some_iff load_update intro!: load_append)
    with b' show ?thesis using view_append [OF b' hs(2)] by simp
  qed
  obtain l' n' where seg: "linked q None (first_entry q) as l' n'" "linked q l' n' [l] (last_entry q) None"
    using chain by (auto simp: linked_append)
  have "linked q' None (first_entry q) as l' n'"
    using seg(1) linked_cong [of as q' q] vb by blast
  moreover have "linked q' l' n' [l, a] (Some a) None"
    using seg(2) v vl va new by auto
  ultimately show "linked q' None (first_entry q) (as @ [l, a]) (Some a) None"
    using linked_append [of q' None "first_entry q" as "[l, a]"] by auto
qed

lemma append_request_ok:
  assumes "queue_ok q as" and "peer_key p \<notin> key_at q ` set as" and "short_key (peer_key p)"
  shows "\<exists>q'. append_request q p = Inr (length (request_heap q), q') \<and>
    queue_ok q' (as @ [length (entry_heap q)]) \<and>
    map (key_at q') (as @ [length (entry_heap q)]) = map (key_at q) as @ [peer_key p] \<and>
    request_heap q' = request_heap q @ [Some (ipfs_bitswap_peer_request_new\<lparr>pr_peer := p\<rparr>)]"
proof (cases as rule: rev_exhaust)
  case Nil
  then have "first_entry q = None" using assms(1) by (simp add: queue_ok_def queue_chain_def)
  then show ?thesis
    using Nil assms(3)
    by (auto simp: append_request_def queue_ok_def queue_chain_def ipfs_bitswap_peer_request_entry_new_def
        view_def key_at_def ipfs_bitswap_peer_request_new_def Let_def)
next
  case (snoc bs l)
  let ?a = "length (entry_heap q)"
  have chain: "linked q None (first_entry q) (bs @ [l]) (last_entry q) None" "distinct (bs @ [l])"
    using assms(1) snoc by (auto simp: queue_ok_def queue_chain_def)
  obtain e r where v: "view q l = Some (e, r)" using linked_views [OF chain(1), of l] by auto
  have last: "last_entry q = Some l" using chain(1) by (auto simp: linked_append split: option.splits)
  obtain f where first: "first_entry q = Some f" using chain(1) by (cases bs) (auto split: option.splits)
  let ?new = "\<lparr>prior = Some l, current = Some (length (request_heap q)), next_entry = None\<rparr>"
  let ?req = "ipfs_bitswap_peer_request_new\<lparr>pr_peer := p\<rparr>"
  let ?q = "q\<lparr>request_heap := request_heap q @ [Some ?req],
      entry_heap := (entry_heap q)[l := Some (e\<lparr>next_entry := Some ?a\<rparr>)] @ [Some ?new], last_entry := Some ?a\<rparr>"
  have res: "append_request q p = Inr (length (request_heap q), ?q)"
    using v first last
    by (simp add: append_request_def ipfs_bitswap_peer_request_entry_new_def view_Some_iff Let_def)
  note grown = linked_snoc_entry [OF chain v, of ?q ?a ?new ?req, simplified]
  have keys: "map (key_at ?q) (as @ [?a]) = map (key_at q) as @ [peer_key p]"
    using snoc v grown(2-4) by (simp add: key_at_def ipfs_bitswap_peer_request_new_def)
  have "?a \<notin> set as"
    using view_address [of q ?a] linked_views [OF chain(1), of ?a] snoc by auto
  then have "queue_chain ?q (as @ [?a])" using snoc grown(1) chain(2) by (simp add: queue_chain_def)
  moreover have "distinct (map (key_at ?q) (as @ [?a]))"
    unfolding keys using assms(1,2) by (simp add: queue_ok_def)
  moreover have "\<forall>k \<in> set (map (key_at ?q) (as @ [?a])). short_key k"
    unfolding keys using assms(1,3) by (auto simp: queue_ok_def)
  ultimately show ?thesis using res keys by (auto simp: queue_ok_def)
qed

section \<open>Properties\<close>

lemma find_SomeD: "find P xs = Some x \<Longrightarrow> x \<in> set xs \<and> P x"
  by (auto simp: find_Some_iff)

lemma find_peer_ok:
  assumes ok: "queue_ok q as" and short: "short_key (peer_key p)"
  shows "\<exists>r q' as' a e req. ipfs_peer_request_queue_find_peer q p = Some (Inr (r, q')) \<and> queue_ok q' as' \<and>
    map (key_at q') as' = (if peer_key p \<in> key_at q ` set as then map (key_at q) as
                           else map (key_at q) as @ [peer_key p]) \<and>
    a \<in> set as' \<and> view q' a = Some (e, req) \<and> current e = Some r \<and> peer_key (pr_peer req) = peer_key p"
proof (cases "find (\<lambda>a. key_at q a = peer_key p) as")
  case None
  then have new: "peer_key p \<notin> key_at q ` set as" by (auto simp: find_None_iff)
  let ?a = "length (entry_heap q)"
  obtain q' where q': "append_request q p = Inr (length (request_heap q), q')" "queue_ok q' (as @ [?a])"
    "map (key_at q') (as @ [?a]) = map (key_at q) as @ [peer_key p]"
    "request_heap q' = request_heap q @ [Some (ipfs_bitswap_peer_request_new\<lparr>pr_peer := p\<rparr>)]"
    using append_request_ok [OF ok new short] by blast
  have "linked q' None (first_entry q') (as @ [?a]) (last_entry q') None"
    using q'(2) by (simp add: queue_ok_def queue_chain_def)
  then obtain e req where v: "view q' ?a = Some (e, req)" using linked_views [of q' _ _ _ _ _ ?a] by fastforce
  have "current e = Some (length (request_heap q))"
    using q'(1) v by (auto simp: append_request_def ipfs_bitswap_peer_request_entry_new_def view_Some_iff
        load_Inr_iff nth_append Let_def bind_res_def split: if_splits sum.splits)
  moreover have "peer_key (pr_peer req) = peer_key p" using q'(3) v by (simp add: key_at_def)
  ultimately show ?thesis
    using new q' v queue_ok_find [OF ok short] None
    by (auto simp: ipfs_peer_request_queue_find_peer_def intro!: exI [of _ "as @ [?a]"])
next
  case (Some a)
  then have a: "a \<in> set as" "key_at q a = peer_key p" using find_SomeD [OF Some] by auto
  then obtain e req where v: "view q a = Some (e, req)"
    using ok linked_views unfolding queue_ok_def queue_chain_def by fastforce
  then obtain r where r: "current e = Some r" by (auto simp: view_Some_iff load_Inr_iff)
  have "ipfs_peer_request_queue_find_peer q p = Some (Inr (r, q))"
    using queue_ok_find [OF ok short] Some v r
    by (simp add: ipfs_peer_request_queue_find_peer_def view_Some_iff)
  moreover have "peer_key p \<in> key_at q ` set as" using a by (metis imageI)
  moreover have "peer_key (pr_peer req) = peer_key p" using a(2) v by (simp add: key_at_def)
  ultimately show ?thesis using ok a(1) v r by auto
qed

text \<open>
  C16: asking for the request of a peer keeps the queue a doubly linked list with one entry for
  each peer: the entry of a known peer is found, a new peer gets an entry at the end, and the
  request returned is one for the peer asked for.
\<close>

theorem find_peer_refines:
  assumes "queue_ok q as" and "short_key (peer_key p)"
  shows "\<exists>r q' as' a e req. ipfs_peer_request_queue_find_peer q p = Some (Inr (r, q')) \<and> queue_ok q' as' \<and>
    map (key_at q') as' = (if peer_key p \<in> key_at q ` set as then map (key_at q) as
                           else map (key_at q) as @ [peer_key p]) \<and>
    a \<in> set as' \<and> view q' a = Some (e, req) \<and> current e = Some r \<and> peer_key (pr_peer req) = peer_key p"
  using assms by (rule find_peer_ok)

definition peer_named :: "bytes \<Rightarrow> libp2p_peer" where
  "peer_named i = libp2p_peer_new\<lparr>peer_id := i\<rparr>"

text \<open>A queue with a request for each of the peers 1 to 3, as \<open>find_peer\<close> makes it.\<close>

definition sample_queue :: peer_request_queue where
  "sample_queue =
     \<lparr>first_entry = Some 0, last_entry = Some 2,
      entry_heap =
        [Some \<lparr>prior = None, current = Some 0, next_entry = Some 1\<rparr>,
         Some \<lparr>prior = Some 0, current = Some 1, next_entry = Some 2\<rparr>,
         Some \<lparr>prior = Some 1, current = Some 2, next_entry = None\<rparr>],
      request_heap = map (\<lambda>i. Some (ipfs_bitswap_peer_request_new
        \<lparr>pr_peer := Some (peer_named [i]), cids_we_want := [ipfs_bitswap_peer_request_cid_entry_new]\<rparr>)) [1, 2, 3]\<rparr>"

lemma sample_views:
  "view sample_queue 0 = Some (\<lparr>prior = None, current = Some 0, next_entry = Some 1\<rparr>,
     the (request_heap sample_queue ! 0))"
  "view sample_queue (Suc 0) = Some (\<lparr>prior = Some 0, current = Some 1, next_entry = Some 2\<rparr>,
     the (request_heap sample_queue ! 1))"
  "view sample_queue 2 = Some (\<lparr>prior = Some 1, current = Some 2, next_entry = None\<rparr>,
     the (request_heap sample_queue ! 2))"
  by (simp_all add: sample_queue_def view_def load_def)

lemma sample_keys:
  "key_at sample_queue 0 = Some [1]" "key_at sample_queue (Suc 0) = Some [2]" "key_at sample_queue 2 = Some [3]"
  by (simp_all add: key_at_def sample_views, simp_all add: sample_queue_def peer_key_def peer_named_def)

lemma sample_ok: "queue_ok sample_queue [0, 1, 2]"
proof -
  have "first_entry sample_queue = Some 0" "last_entry sample_queue = Some 2"
    by (simp_all add: sample_queue_def)
  then show ?thesis
    by (simp add: queue_ok_def queue_chain_def sample_views short_key_def sample_keys)
qed

theorem find_peer_refines_witness:
  "\<exists>r q' as'. ipfs_peer_request_queue_find_peer sample_queue (Some (peer_named [9])) = Some (Inr (r, q')) \<and>
    queue_ok q' as' \<and> map (key_at q') as' = [Some [1], Some [2], Some [3], Some [9]]"
proof -
  have "short_key (peer_key (Some (peer_named [9])))" by (simp add: short_key_def peer_key_def peer_named_def)
  from find_peer_refines [OF sample_ok this] obtain r q' as' where
    "ipfs_peer_request_queue_find_peer sample_queue (Some (peer_named [9])) = Some (Inr (r, q'))"
    "queue_ok q' as'" "map (key_at q') as' = [Some [1], Some [2], Some [3], Some [9]]"
    by (simp add: sample_keys peer_key_def peer_named_def) metis
  then show ?thesis by metis
qed

text \<open>
  Adding a request to a queue that is not empty loses it: the call reports success, but
  what can be reached from the first entry is what it was, and looking for the peer of the new
  request finds nothing unless the peer had an entry before.
\<close>

theorem queue_add_loses:
  assumes "queue_ok q as" and "as \<noteq> []" and "short_key (peer_key p)" and "peer_key p \<notin> key_at q ` set as"
  shows "\<exists>q'. ipfs_bitswap_peer_request_queue_add q (Some r) = (True, q') \<and>
    reaches q' (first_entry q') as None \<and> last_entry q' = Some (length (entry_heap q)) \<and>
    ipfs_bitswap_peer_request_queue_find_entry q' p = Some (Inr None)"
proof -
  have chain: "linked q None (first_entry q) as (last_entry q) None"
    using assms(1) by (simp add: queue_ok_def queue_chain_def)
  then obtain f where f: "first_entry q = Some f" using assms(2) by (cases as) auto
  let ?e = "ipfs_bitswap_peer_request_entry_new\<lparr>current := Some r, prior := last_entry q\<rparr>"
  let ?q = "q\<lparr>entry_heap := entry_heap q @ [Some ?e], last_entry := Some (length (entry_heap q))\<rparr>"
  have add: "ipfs_bitswap_peer_request_queue_add q (Some r) = (True, ?q)"
    using f by (simp add: ipfs_bitswap_peer_request_queue_add_def Let_def)
  have same: "view ?q a = view q a" if a: "a \<in> set as" for a
  proof -
    obtain e s where "view q a = Some (e, s)" using linked_views [OF chain a] by auto
    moreover from this have "view ?q a = Some (e, s)" by (simp add: view_Some_iff load_append)
    ultimately show ?thesis by simp
  qed
  then have reach: "reaches ?q (first_entry ?q) as None"
    using reaches_cong [of as ?q q] queue_ok_reaches [OF assms(1)] by simp
  have keys: "key_at ?q a = key_at q a" if "a \<in> set as" for a
    using same [OF that] by (simp add: key_at_def)
  have "find (\<lambda>a. key_at ?q a = peer_key p) as = None"
    using assms(4) keys by (force simp: find_None_iff)
  moreover have "find_entry_from ?q p (first_entry ?q) = Some (Inr (find (\<lambda>a. key_at ?q a = peer_key p) as))"
    using assms(1) by (intro find_entry_from_reaches reach assms(3)) (auto simp: keys queue_ok_def)
  ultimately have "ipfs_bitswap_peer_request_queue_find_entry ?q p = Some (Inr None)"
    by (simp add: ipfs_bitswap_peer_request_queue_find_entry_def)
  then show ?thesis using add reach by auto
qed

theorem queue_add_loses_witness:
  "\<exists>q'. ipfs_bitswap_peer_request_queue_add sample_queue (Some 3) = (True, q') \<and>
    ipfs_bitswap_peer_request_queue_find_entry q' (Some (peer_named [9])) = Some (Inr None)"
proof -
  have "short_key (peer_key (Some (peer_named [9])))" "peer_key (Some (peer_named [9])) \<notin> key_at sample_queue ` set [0, 1, 2]"
    by (simp_all add: short_key_def peer_key_def peer_named_def sample_keys)
  from queue_add_loses [OF sample_ok _ this, of 3] show ?thesis by auto
qed

lemma something_to_do_keeps_peer:
  "ipfs_bitswap_peer_request_something_to_do peek r = Inr (t, r') \<Longrightarrow>
   peer_key (pr_peer r') = peer_key (pr_peer r)"
  by (auto simp: ipfs_bitswap_peer_request_something_to_do_def libp2p_peer_handle_connection_error_def
      peer_key_def split: if_splits option.splits)

text \<open>
  When the first of several peers has something to do, taking its request off the queue
  returns it and moves the entry to the end, but leaves its link to the second one: the queue
  is then a ring, and looking for a peer that has no entry never ends.
\<close>

theorem queue_pop_makes_ring:
  assumes ok: "queue_ok q (a # b # cs)" and v: "view q a = Some (e, r)"
    and todo: "ipfs_bitswap_peer_request_something_to_do peek r = Inr (t, r')" "t \<noteq> 0"
    and p: "short_key (peer_key p)" "peer_key p \<notin> key_at q ` set (a # b # cs)"
  shows "\<exists>q'. ipfs_bitswap_peer_request_queue_pop peek q = Inr (current e, q') \<and>
    first_entry q' = Some b \<and> last_entry q' = Some a \<and>
    ipfs_peer_request_queue_find_peer q' p = None"
proof -
  let ?as = "a # b # cs"
  have chain: "linked q None (first_entry q) ?as (last_entry q) None"
    using ok by (simp add: queue_ok_def queue_chain_def)
  have first: "first_entry q = Some a" "next_entry e = Some b" using chain v by (auto split: option.splits)
  obtain ds l where as: "?as = ds @ [l]" by (cases ?as rule: rev_cases) auto
  have last: "last_entry q = Some l" using chain unfolding as linked_append by (auto split: option.splits)
  obtain el rl where vl: "view q l = Some (el, rl)" using linked_views [OF chain, of l] as by auto
  let ?q = "store_request (the (current e)) r' q"
  let ?q' = "(store_entry l (el\<lparr>next_entry := Some a\<rparr>) ?q)\<lparr>first_entry := Some b, last_entry := Some a\<rparr>"
  have pop: "ipfs_bitswap_peer_request_queue_pop peek q = Inr (current e, ?q')"
    using v vl first last todo
    by (simp add: ipfs_bitswap_peer_request_queue_pop_def view_Some_iff Let_def store_request_def)
  have l_live: "l < length (entry_heap q)" using vl by (rule view_address)
  obtain i where i: "current e = Some i" "i < length (request_heap q)" "request_heap q ! i = Some r"
    using v by (auto simp: view_Some_iff load_Inr_iff)
  have req: "\<exists>s'. load ((request_heap q)[i := Some r']) c = Inr s' \<and> peer_key (pr_peer s') = peer_key (pr_peer s)"
    if "load (request_heap q) c = Inr s" for c s
  proof (cases "c = Some i")
    case True
    then show ?thesis using that i something_to_do_keeps_peer [OF todo(1)] by (simp add: load_Inr_iff)
  next
    case False
    then show ?thesis using that i(2) by (simp add: load_update)
  qed
  have ring: "\<exists>e r. view ?q' x = Some (e, r) \<and> next_entry e \<in> Some ` set ?as \<and>
      short_key (peer_key (pr_peer r)) \<and> peer_key (pr_peer r) \<noteq> peer_key p" if x: "x \<in> set ?as" for x
  proof -
    from linked_next [OF chain x] obtain ex rx where
      vx: "view q x = Some (ex, rx)" "next_entry ex = None \<and> l = x \<or> next_entry ex \<in> Some ` set ?as"
      using last by auto
    then obtain s' where s': "load ((request_heap q)[i := Some r']) (current ex) = Inr s'"
      "peer_key (pr_peer s') = peer_key (pr_peer rx)" using req by (auto simp: view_Some_iff)
    have k: "key_at q x = peer_key (pr_peer rx)" using vx(1) by (simp add: key_at_def)
    have "peer_key (pr_peer rx) \<noteq> peer_key p" using p(2) x k imageI [of x _ "key_at q"] by metis
    moreover have "short_key (peer_key (pr_peer rx))" using ok x k by (metis queue_ok_def)
    note key = this calculation
    let ?ex = "if x = l then el\<lparr>next_entry := Some a\<rparr> else ex"
    have "view ?q' x = Some (?ex, s')"
      using vx(1) vl s'(1) i(1) l_live
      by (auto simp: view_Some_iff store_entry_def store_request_def load_update)
    moreover have "next_entry ?ex \<in> Some ` set ?as" using vx(2) by auto
    ultimately show ?thesis using key s'(2) by auto
  qed
  have "find_entry_from ?q' p (Some b) = None"
    by (rule find_entry_from_cycle [of "set ?as"]) (use ring p(1) in simp_all)
  then show ?thesis using pop by (auto simp: ipfs_peer_request_queue_find_peer_def)
qed

theorem queue_pop_makes_ring_witness:
  "\<exists>q'. ipfs_bitswap_peer_request_queue_pop (\<lambda>s. 0) sample_queue = Inr (Some 0, q') \<and>
    ipfs_peer_request_queue_find_peer q' (Some (peer_named [9])) = None"
proof -
  have "short_key (peer_key (Some (peer_named [9])))"
    "peer_key (Some (peer_named [9])) \<notin> key_at sample_queue ` set [0, Suc 0, 2]"
    by (simp_all add: short_key_def peer_key_def peer_named_def sample_keys)
  moreover have "ipfs_bitswap_peer_request_something_to_do (\<lambda>s. 0) (the (request_heap sample_queue ! 0)) =
      Inr (1, the (request_heap sample_queue ! 0))"
    by (simp add: ipfs_bitswap_peer_request_something_to_do_def sample_queue_def ipfs_bitswap_peer_request_new_def)
  ultimately show ?thesis
    using queue_pop_makes_ring [OF sample_ok [simplified] sample_views(1)] by fastforce
qed

text \<open>
  A queue drops the request of its first entry by following the null link to the entry
  before it.
\<close>

theorem queue_remove_first_faults:
  assumes ok: "queue_ok q (a # as)" and v: "view q a = Some (e, r)" and "pr_peer r \<noteq> None"
  shows "ipfs_bitswap_peer_request_queue_remove q (current e) = Some (Inl Undefined)"
proof -
  have e: "prior e = None" using ok v by (auto simp: queue_ok_def queue_chain_def)
  have k: "key_at q a = peer_key (pr_peer r)" using v by (simp add: key_at_def)
  then have "short_key (peer_key (pr_peer r))" using ok by (auto simp: queue_ok_def)
  then have "find_entry_from q (pr_peer r) (first_entry q) = Some (Inr (Some a))"
    using queue_ok_find [OF ok] k by simp
  moreover obtain i where "current e = Some i" using v by (auto simp: view_Some_iff load_Inr_iff)
  ultimately show ?thesis
    using v e assms(3)
    by (simp add: ipfs_bitswap_peer_request_queue_remove_def view_Some_iff
        ipfs_bitswap_peer_request_queue_find_entry_def)
qed

theorem queue_remove_first_faults_witness:
  "ipfs_bitswap_peer_request_queue_remove sample_queue (Some 0) = Some (Inl Undefined)"
  using queue_remove_first_faults [OF sample_ok sample_views(1)]
  by (simp add: sample_queue_def ipfs_bitswap_peer_request_new_def)

text \<open>The blocks the store has for the CIDs a peer waits for, in order.\<close>

definition found_blocks :: "(cid option \<Rightarrow> ipfs_block option) \<Rightarrow> cid_entry list \<Rightarrow> ipfs_block list" where
  "found_blocks get cs = concat (map (\<lambda>c. if ce_cancel c then [] else
     (case get (ce_cid c) of None \<Rightarrow> [] | Some b \<Rightarrow> [b])) cs)"

definition answer :: "(cid option \<Rightarrow> ipfs_block option) \<Rightarrow> cid_entry \<Rightarrow> cid_entry" where
  "answer get c = (if get (ce_cid c) = None then c else c\<lparr>ce_cancel := True\<rparr>)"

lemma get_blocks_loop_spec: "get_blocks_loop get cs = (map (answer get) cs, found_blocks get cs)"
proof (induction cs)
  case (Cons c cs)
  then show ?case by (cases c) (auto simp: found_blocks_def answer_def split: option.splits)
qed (simp add: found_blocks_def)

lemma we_want_cids_pending:
  "ipfs_bitswap_peer_request_we_want_cids cs \<longleftrightarrow> (\<exists>c \<in> set cs. pending c)"
  by (auto simp: ipfs_bitswap_peer_request_we_want_cids_def pending_def)

lemma build_message_spec:
  assumes "\<forall>c \<in> set (cids_we_want r). pending c \<longrightarrow> cid_entry_ok c"
    and "\<forall>c \<in> set (cids_they_want r). \<forall>b \<in> set (blocks_we_want_to_send r @ found_blocks get (cids_they_want r)).
      \<exists>k. ipfs_cid_compare (ce_cid c) (block_cid b) = Inr k"
  shows "\<exists>m r' l. build_message get r = Inr (m, r') \<and>
    vector_list (payload m) = blocks_we_want_to_send r @ found_blocks get (cids_they_want r) \<and>
    wantlist m = Some l \<and> entries l = Some (map request_of (filter pending (cids_we_want r))) \<and>
    blocks_we_want_to_send r' = [] \<and> cids_we_want r' = map mark_sent (cids_we_want r) \<and>
    pr_peer r' = pr_peer r"
proof -
  let ?bs = "blocks_we_want_to_send r @ found_blocks get (cids_they_want r)"
  let ?cs = "map (answer get) (cids_they_want r)"
  have cmp: "\<forall>c \<in> set ?cs. \<forall>b \<in> set ?bs. \<exists>k. ipfs_cid_compare (ce_cid c) (block_cid b) = Inr k"
    using assms(2) by (auto simp: answer_def)
  have got: "ipfs_bitswap_peer_request_get_blocks_they_want get r =
      r\<lparr>cids_they_want := ?cs, blocks_we_want_to_send := ?bs\<rparr>"
    by (simp add: ipfs_bitswap_peer_request_get_blocks_they_want_def get_blocks_loop_spec)
  show ?thesis
  proof (cases "?bs = []")
    case True
    then show ?thesis
      using add_wantlist_items_spec [OF assms(1), of ipfs_bitswap_message_new] got
        add_blocks_spec [OF cmp, of ipfs_bitswap_message_new]
      by (auto simp: build_message_def Let_def ipfs_bitswap_message_new_def vector_list_def)
  next
    case False
    then show ?thesis
      using add_wantlist_items_spec [OF assms(1), of "ipfs_bitswap_message_new\<lparr>payload := Some ?bs\<rparr>"] got
        add_blocks_spec [OF cmp, of ipfs_bitswap_message_new]
      by (auto simp: build_message_def Let_def ipfs_bitswap_message_new_def vector_list_def)
  qed
qed

text \<open>
  Processing a request for a connected peer of which we still want something builds one
  message: the blocks waiting for the peer and those the store has for it are its payload, the
  requests and cancels not sent yet its want list. The blocks are then gone from the request and
  the entries marked as sent, also when the message could not be sent, so that the same request
  has nothing of ours left to send.
\<close>

theorem process_entry_sends_once:
  assumes "pr_peer r = Some p" and "connection_type p = CONNECTION_TYPE_CONNECTED"
    and "ipfs_bitswap_peer_request_we_want_cids (cids_we_want r)"
    and "\<forall>c \<in> set (cids_we_want r). pending c \<longrightarrow> cid_entry_ok c"
    and "\<forall>c \<in> set (cids_they_want r). \<forall>b \<in> set (blocks_we_want_to_send r @ found_blocks get (cids_they_want r)).
      \<exists>k. ipfs_cid_compare (ce_cid c) (block_cid b) = Inr k"
  shows "\<exists>m l r'. ipfs_bitswap_peer_request_process_entry connect send get r = Inr (fst (send p m), r') \<and>
    vector_list (payload m) = blocks_we_want_to_send r @ found_blocks get (cids_they_want r) \<and>
    wantlist m = Some l \<and> entries l = Some (map request_of (filter pending (cids_we_want r))) \<and>
    blocks_we_want_to_send r' = [] \<and> \<not> ipfs_bitswap_peer_request_we_want_cids (cids_we_want r') \<and>
    pr_peer r' = Some (snd (send p m))"
proof -
  have "r\<lparr>pr_peer := Some p\<rparr> = r" using assms(1) by simp
  then obtain m r' l where "build_message get (r\<lparr>pr_peer := Some p\<rparr>) = Inr (m, r')"
    "vector_list (payload m) = blocks_we_want_to_send r @ found_blocks get (cids_they_want r)"
    "wantlist m = Some l" "entries l = Some (map request_of (filter pending (cids_we_want r)))"
    "blocks_we_want_to_send r' = []" "cids_we_want r' = map mark_sent (cids_we_want r)"
    using build_message_spec [OF assms(4,5)] by auto
  then show ?thesis
    using assms(1-3)
    by (intro exI [of _ m] exI [of _ l] exI [of _ "r'\<lparr>pr_peer := Some (snd (send p m))\<rparr>"])
      (auto simp: ipfs_bitswap_peer_request_process_entry_def we_want_cids_pending Let_def case_prod_unfold)
qed

theorem process_entry_sends_once_witness:
  "\<exists>r'. ipfs_bitswap_peer_request_process_entry (\<lambda>p. (False, p)) (\<lambda>p m. (False, p)) (\<lambda>c. None)
      (ipfs_bitswap_peer_request_new
        \<lparr>pr_peer := Some (libp2p_peer_new\<lparr>connection_type := CONNECTION_TYPE_CONNECTED\<rparr>),
         cids_we_want := [ipfs_bitswap_peer_request_cid_entry_new],
         blocks_we_want_to_send := [\<lparr>block_cid = None, block_data = [1]\<rparr>]\<rparr>) = Inr (False, r') \<and>
    blocks_we_want_to_send r' = [] \<and> \<not> ipfs_bitswap_peer_request_we_want_cids (cids_we_want r')"
  using process_entry_sends_once [of
      "ipfs_bitswap_peer_request_new
        \<lparr>pr_peer := Some (libp2p_peer_new\<lparr>connection_type := CONNECTION_TYPE_CONNECTED\<rparr>),
         cids_we_want := [ipfs_bitswap_peer_request_cid_entry_new],
         blocks_we_want_to_send := [\<lparr>block_cid = None, block_data = [1]\<rparr>]\<rparr>"
      "libp2p_peer_new\<lparr>connection_type := CONNECTION_TYPE_CONNECTED\<rparr>"
      "\<lambda>c. None" "\<lambda>p. (False, p)" "\<lambda>p m. (False, p)"]
  by (auto simp: ipfs_bitswap_peer_request_new_def ipfs_bitswap_peer_request_cid_entry_new_def
      ipfs_bitswap_peer_request_we_want_cids_def cid_entry_ok_def ipfs_cid_protobuf_encode_size_def)

end
