(* ===== verification/Wantlist_Queue.thy ===== *)
theory Wantlist_Queue
  imports Block Peer Vector
begin

text \<open>
  The queue of wanted blocks of the bitswap exchange: \<open>wantlist_queue.c\<close>, \<open>want_manager.c\<close> and
  the want list thread of \<open>engine.c\<close>, in \<open>libipfs/exchange/bitswap\<close>.

  Entries are never taken out of the queue, so a pointer to one is its index. A session is
  local, or remote with the peer that asked.
\<close>

section \<open>Sessions\<close>

datatype wantlist_session_type = WANTLIST_SESSION_TYPE_LOCAL | WANTLIST_SESSION_TYPE_REMOTE

fun session_type_code :: "wantlist_session_type \<Rightarrow> int" where
  "session_type_code WANTLIST_SESSION_TYPE_LOCAL = 0"
| "session_type_code WANTLIST_SESSION_TYPE_REMOTE = 1"

record wantlist_session =
  ws_type :: wantlist_session_type
  ws_context :: "libp2p_peer option"

definition ipfs_bitswap_wantlist_session_new :: wantlist_session where
  "ipfs_bitswap_wantlist_session_new = \<lparr>ws_type = WANTLIST_SESSION_TYPE_LOCAL, ws_context = None\<rparr>"

definition ipfs_bitswap_wantlist_session_compare ::
    "wantlist_session option \<Rightarrow> wantlist_session option \<Rightarrow> int result" where
  "ipfs_bitswap_wantlist_session_compare a b =
     (case (a, b) of
        (None, None) \<Rightarrow> Inr 0
      | (None, Some b) \<Rightarrow> Inr (- 1)
      | (Some a, None) \<Rightarrow> Inr 1
      | (Some a, Some b) \<Rightarrow>
          if ws_type a \<noteq> ws_type b then Inr (session_type_code (ws_type b) - session_type_code (ws_type a))
          else if ws_type a = WANTLIST_SESSION_TYPE_LOCAL then Inr 0
          else libp2p_peer_compare (ws_context a) (ws_context b))"

definition ipfs_bitswap_wantlist_local_request :: "wantlist_session vector \<Rightarrow> bool" where
  "ipfs_bitswap_wantlist_local_request sessions \<longleftrightarrow>
     (\<exists>s \<in> set (vec_items sessions). case s of None \<Rightarrow> False | Some s \<Rightarrow> ws_type s = WANTLIST_SESSION_TYPE_LOCAL)"

section \<open>The queue\<close>

record want_entry =
  we_cid :: "cid option"
  we_priority :: int
  we_sessions :: "wantlist_session vector"
  we_block :: "ipfs_block option"
  asked_network :: bool
  attempts :: int

record wantlist_queue =
  wl_queue :: "want_entry vector option"

definition ipfs_bitswap_wantlist_queue_new :: wantlist_queue where
  "ipfs_bitswap_wantlist_queue_new = \<lparr>wl_queue = None\<rparr>"

definition ipfs_bitswap_wantlist_queue_entry_new :: want_entry where
  "ipfs_bitswap_wantlist_queue_entry_new =
     \<lparr>we_cid = None, we_priority = 0, we_sessions = libp2p_utils_vector_new 1, we_block = None,
      asked_network = False, attempts = 0\<rparr>"

fun find_session :: "wantlist_session option \<Rightarrow> wantlist_session option list \<Rightarrow> nat option result" where
  "find_session s [] = Inr None"
| "find_session s (c # cs) =
     bind_res (ipfs_bitswap_wantlist_session_compare s c) (\<lambda>r.
     if r = 0 then Inr (Some 0)
     else bind_res (find_session s cs) (\<lambda>i. Inr (map_option Suc i)))"

definition ipfs_bitswap_wantlist_queue_entry_decrement ::
    "want_entry \<Rightarrow> wantlist_session option \<Rightarrow> (bool \<times> want_entry) result" where
  "ipfs_bitswap_wantlist_queue_entry_decrement e s =
     bind_res (find_session s (vec_items (we_sessions e))) (\<lambda>i.
     case i of
       None \<Rightarrow> Inr (False, e)
     | Some i \<Rightarrow>
         bind_res (libp2p_utils_vector_delete (we_sessions e) (int i)) (\<lambda>v.
         Inr (True, e\<lparr>we_sessions := v\<rparr>)))"

fun find_want :: "cid \<Rightarrow> want_entry option list \<Rightarrow> nat option result" where
  "find_want c [] = Inr None"
| "find_want c (None # es) = Inr None"
| "find_want c (Some e # es) =
     bind_res (ipfs_cid_compare (Some c) (we_cid e)) (\<lambda>r.
     if r = 0 then Inr (Some 0)
     else bind_res (find_want c es) (\<lambda>i. Inr (map_option Suc i)))"

text \<open>The vector of the queue is followed without a test: a queue nothing was added to has none.\<close>

definition ipfs_bitswap_wantlist_queue_find :: "wantlist_queue \<Rightarrow> cid \<Rightarrow> nat option result" where
  "ipfs_bitswap_wantlist_queue_find wl c =
     (case wl_queue wl of None \<Rightarrow> Inl Undefined | Some v \<Rightarrow> find_want c (vec_items v))"

text \<open>The entry at an index; a null one is followed.\<close>

definition want_entry_at :: "want_entry vector \<Rightarrow> nat \<Rightarrow> want_entry result" where
  "want_entry_at v i = (case libp2p_utils_vector_get v (int i) of None \<Rightarrow> Inl Undefined | Some e \<Rightarrow> Inr e)"

definition put_want_entry :: "want_entry vector \<Rightarrow> nat \<Rightarrow> want_entry \<Rightarrow> want_entry vector" where
  "put_want_entry v i e = v\<lparr>vec_items := (vec_items v)[i := Some e]\<rparr>"

definition new_want_entry :: "cid \<Rightarrow> wantlist_session \<Rightarrow> want_entry vector \<Rightarrow> (want_entry vector \<times> nat) result" where
  "new_want_entry c s v =
     (let e = ipfs_bitswap_wantlist_queue_entry_new
                \<lparr>we_cid := (case ipfs_cid_copy c of Inl f \<Rightarrow> None | Inr d \<Rightarrow> Some d), we_priority := 1\<rparr>
      in bind_res (vector_append (Some s) (we_sessions e)) (\<lambda>ss.
         bind_res (vector_append (Some (e\<lparr>we_sessions := ss\<rparr>)) v) (\<lambda>v'.
         Inr (v', length (vec_items v)))))"

definition ipfs_bitswap_wantlist_queue_add ::
    "wantlist_queue option \<Rightarrow> cid \<Rightarrow> wantlist_session \<Rightarrow> (nat option \<times> wantlist_queue option) result" where
  "ipfs_bitswap_wantlist_queue_add wl c s =
     (case wl of
        None \<Rightarrow> Inr (None, None)
      | Some q \<Rightarrow>
          let v = (case wl_queue q of None \<Rightarrow> libp2p_utils_vector_new 1 | Some v \<Rightarrow> v) in
          bind_res (find_want c (vec_items v)) (\<lambda>found.
          bind_res (case found of Some i \<Rightarrow> Inr (v, i) | None \<Rightarrow> new_want_entry c s v) (\<lambda>(v', i).
          bind_res (want_entry_at v' i) (\<lambda>e.
          bind_res (vector_append (Some s) (we_sessions e)) (\<lambda>ss.
          Inr (Some i, Some (q\<lparr>wl_queue := Some (put_want_entry v' i (e\<lparr>we_sessions := ss\<rparr>))\<rparr>)))))))"

definition ipfs_bitswap_wantlist_queue_remove ::
    "wantlist_queue option \<Rightarrow> cid \<Rightarrow> wantlist_session option \<Rightarrow> (bool \<times> wantlist_queue option) result" where
  "ipfs_bitswap_wantlist_queue_remove wl c s =
     (case wl of
        None \<Rightarrow> Inr (False, None)
      | Some q \<Rightarrow>
          bind_res (ipfs_bitswap_wantlist_queue_find q c) (\<lambda>found.
          case (found, wl_queue q) of
            (Some i, Some v) \<Rightarrow>
              bind_res (want_entry_at v i) (\<lambda>e.
              bind_res (ipfs_bitswap_wantlist_queue_entry_decrement e s) (\<lambda>(r, e').
              Inr (True, Some (q\<lparr>wl_queue := Some (put_want_entry v i e')\<rparr>))))
          | _ \<Rightarrow> Inr (False, wl)))"

text \<open>The first entry that has no block and was not asked for; it stays in the queue.\<close>

fun pop_loop :: "want_entry option list \<Rightarrow> nat option result" where
  "pop_loop [] = Inr None"
| "pop_loop (None # es) = Inl Undefined"
| "pop_loop (Some e # es) =
     (if we_block e = None \<and> \<not> asked_network e then Inr (Some 0)
      else bind_res (pop_loop es) (\<lambda>i. Inr (map_option Suc i)))"

definition ipfs_bitswap_wantlist_queue_pop :: "wantlist_queue option \<Rightarrow> nat option result" where
  "ipfs_bitswap_wantlist_queue_pop wl =
     (case wl of
        None \<Rightarrow> Inr None
      | Some q \<Rightarrow> (case wl_queue q of None \<Rightarrow> Inr None | Some v \<Rightarrow> pop_loop (vec_items v)))"

section \<open>The want manager\<close>

definition ipfs_bitswap_want_manager_add ::
    "wantlist_queue option \<Rightarrow> cid \<Rightarrow> wantlist_session \<Rightarrow> (nat option \<times> wantlist_queue option) result" where
  "ipfs_bitswap_want_manager_add wl c s = ipfs_bitswap_wantlist_queue_add wl c s"

definition want_block :: "wantlist_queue \<Rightarrow> cid \<Rightarrow> ipfs_block option result" where
  "want_block q c =
     bind_res (ipfs_bitswap_wantlist_queue_find q c) (\<lambda>found.
     case (found, wl_queue q) of
       (Some i, Some v) \<Rightarrow> bind_res (want_entry_at v i) (\<lambda>e. Inr (we_block e))
     | _ \<Rightarrow> Inr None)"

definition ipfs_bitswap_want_manager_received :: "wantlist_queue \<Rightarrow> cid \<Rightarrow> bool result" where
  "ipfs_bitswap_want_manager_received q c = bind_res (want_block q c) (\<lambda>b. Inr (b \<noteq> None))"

definition ipfs_bitswap_want_manager_get_block :: "wantlist_queue \<Rightarrow> cid \<Rightarrow> ipfs_block result" where
  "ipfs_bitswap_want_manager_get_block q c =
     bind_res (want_block q c) (\<lambda>b. case b of None \<Rightarrow> Inl Failure | Some b \<Rightarrow> ipfs_block_copy b)"

definition ipfs_bitswap_want_manager_remove ::
    "wantlist_queue option \<Rightarrow> cid \<Rightarrow> (bool \<times> wantlist_queue option) result" where
  "ipfs_bitswap_want_manager_remove wl c =
     ipfs_bitswap_wantlist_queue_remove wl c (Some ipfs_bitswap_wantlist_session_new)"

section \<open>The want list thread\<close>

text \<open>
  An entry that was tried more than ten times has its sessions removed one by one; the bound
  is the current number of sessions, which only shrinks, so \<open>n\<close> rounds with \<open>n\<close> the first
  number are all.
\<close>

fun give_up :: "nat \<Rightarrow> nat \<Rightarrow> nat \<Rightarrow> wantlist_queue \<Rightarrow> wantlist_queue result" where
  "give_up 0 i item q = Inr q"
| "give_up (Suc n) i item q =
     (case wl_queue q of
        None \<Rightarrow> Inl Undefined
      | Some v \<Rightarrow>
          bind_res (want_entry_at v item) (\<lambda>e.
          if vec_total (we_sessions e) \<le> int i then Inr q
          else
            case we_cid e of
              None \<Rightarrow> Inl Undefined
            | Some c \<Rightarrow>
                bind_res (ipfs_bitswap_wantlist_queue_remove (Some q) c
                    (libp2p_utils_vector_get (we_sessions e) (int i))) (\<lambda>(r, q').
                case q' of None \<Rightarrow> Inl Undefined | Some q' \<Rightarrow> give_up n (i + 1) item q')))"

text \<open>
  One round of \<open>ipfs_bitswap_engine_wantlist_processor_start\<close>: the item worked on, if any.
  \<open>process\<close> is the processing of an item, which reaches out to the network.
\<close>

definition wantlist_processor_round ::
    "(nat \<Rightarrow> wantlist_queue \<Rightarrow> wantlist_queue result) \<Rightarrow> wantlist_queue \<Rightarrow>
     (nat option \<times> wantlist_queue) result" where
  "wantlist_processor_round process q =
     bind_res (ipfs_bitswap_wantlist_queue_pop (Some q)) (\<lambda>item.
     case (item, wl_queue q) of
       (Some i, Some v) \<Rightarrow>
         bind_res (want_entry_at v i) (\<lambda>e.
         bind_res (if 10 < attempts e then give_up (length (vec_items (we_sessions e))) 0 i q
                   else process i q) (\<lambda>q'.
         Inr (Some i, q')))
     | _ \<Rightarrow> Inr (None, q))"

fun wantlist_processor ::
    "(nat \<Rightarrow> wantlist_queue \<Rightarrow> wantlist_queue result) \<Rightarrow> nat \<Rightarrow> wantlist_queue \<Rightarrow>
     (nat option list \<times> wantlist_queue) result" where
  "wantlist_processor process 0 q = Inr ([], q)"
| "wantlist_processor process (Suc n) q =
     bind_res (wantlist_processor_round process q) (\<lambda>(item, q').
     bind_res (wantlist_processor process n q') (\<lambda>(items, q'').
     Inr (item # items, q'')))"

section \<open>What a queue wants\<close>

text \<open>
  The invariant: every entry has a CID, no CID is there twice, and there is room for \<open>n\<close> more
  in every vector (they grow by doubling, to at most 2^30 items).
\<close>

definition want_ok :: "nat \<Rightarrow> want_entry \<Rightarrow> bool" where
  "want_ok n e \<longleftrightarrow> (\<exists>c. we_cid e = Some c \<and> cid_ok c) \<and> vector_room (we_sessions e) n"

definition queue_entries :: "wantlist_queue \<Rightarrow> want_entry option list" where
  "queue_entries q = (case wl_queue q of None \<Rightarrow> [] | Some v \<Rightarrow> vec_items v)"

definition queue_wf :: "nat \<Rightarrow> wantlist_queue \<Rightarrow> want_entry list \<Rightarrow> bool" where
  "queue_wf n q es \<longleftrightarrow>
     queue_entries q = map Some es \<and> distinct (map we_cid es) \<and> (\<forall>e \<in> set es. want_ok n e) \<and>
     (\<forall>v. wl_queue q = Some v \<longrightarrow> vector_room v n)"

text \<open>The sessions registered for each CID.\<close>

definition wanted :: "want_entry list \<Rightarrow> cid option \<Rightarrow> wantlist_session option list option" where
  "wanted es = map_of (map (\<lambda>e. (we_cid e, vec_items (we_sessions e))) es)"

lemma find_want_spec:
  assumes "\<forall>e \<in> set es. want_ok n e" and "cid_ok c"
  shows "\<exists>r. find_want c (map Some es) = Inr r \<and>
    (case r of None \<Rightarrow> Some c \<notin> we_cid ` set es | Some i \<Rightarrow> i < length es \<and> we_cid (es ! i) = Some c)"
  using assms(1)
proof (induction es)
  case (Cons e es)
  then obtain d where d: "we_cid e = Some d" "cid_ok d" by (auto simp: want_ok_def)
  then obtain r where r: "ipfs_cid_compare (Some c) (Some d) = Inr r" "r = 0 \<longleftrightarrow> c = d"
    using cid_compare_equal [OF assms(2), of d] by auto
  from Cons obtain r' where "find_want c (map Some es) = Inr r'"
    "case r' of None \<Rightarrow> Some c \<notin> we_cid ` set es | Some i \<Rightarrow> i < length es \<and> we_cid (es ! i) = Some c"
    by auto
  then show ?case using d r by (cases r') auto
qed simp

lemma vector_append_ok:
  assumes "vector_room v (Suc n)"
  shows "\<exists>v'. vector_append x v = Inr v' \<and> vec_items v' = vec_items v @ [x] \<and> vector_room v' n"
  using vec.add_item [OF assms] by blast

lemma vector_get_nth:
  "i < length (vec_items v) \<Longrightarrow> libp2p_utils_vector_get v (int i) = vec_items v ! i"
  by (simp add: libp2p_utils_vector_get_def vec_total_def)

lemma cid_copy_ok: "cid_ok c \<Longrightarrow> ipfs_cid_copy c = Inr c"
  by (cases c) (simp add: ipfs_cid_copy_def cid_ok_def malloc_ok_def)

lemma session_compare_refl [simp]: "ipfs_bitswap_wantlist_session_compare (Some s) (Some s) = Inr 0"
proof -
  have "compare_ids xs xs = Inr 0" for xs by (induction xs) simp_all
  then have "libp2p_peer_compare p p = Inr 0" for p
    by (cases p) (simp_all add: libp2p_peer_compare_def)
  then show ?thesis by (simp add: ipfs_bitswap_wantlist_session_compare_def)
qed

lemma new_want_entry_ok:
  assumes "vector_room v (Suc n)" and "cid_ok c" and m: "m < 2 ^ 30"
  shows "\<exists>v' e. new_want_entry c s v = Inr (v', length (vec_items v)) \<and>
    vec_items v' = vec_items v @ [Some e] \<and> vector_room v' n \<and> we_cid e = Some c \<and>
    vec_items (we_sessions e) = [Some s] \<and> vector_room (we_sessions e) m \<and> we_block e = None"
proof -
  let ?e = "ipfs_bitswap_wantlist_queue_entry_new\<lparr>we_cid := Some c, we_priority := 1\<rparr>"
  have "vector_room (we_sessions ?e) (Suc m)" and i: "vec_items (we_sessions ?e) = []"
    using m by (simp_all add: ipfs_bitswap_wantlist_queue_entry_new_def libp2p_utils_vector_new_def
        vector_room_def vec_total_def)
  then obtain ss where ss: "vector_append (Some s) (we_sessions ?e) = Inr ss"
    "vec_items ss = [Some s]" "vector_room ss m"
    using vector_append_ok [of "we_sessions ?e" m "Some s"] by auto
  moreover obtain v' where "vector_append (Some (?e\<lparr>we_sessions := ss\<rparr>)) v = Inr v'"
    "vec_items v' = vec_items v @ [Some (?e\<lparr>we_sessions := ss\<rparr>)]" "vector_room v' n"
    using vector_append_ok [OF assms(1)] by blast
  ultimately show ?thesis using assms(2)
    by (intro exI [of _ v'] exI [of _ "?e\<lparr>we_sessions := ss\<rparr>"])
      (simp add: new_want_entry_def cid_copy_ok ipfs_bitswap_wantlist_queue_entry_new_def)
qed

text \<open>The end of \<open>add\<close>: the session is appended at the entry that was found or made.\<close>

lemma put_want_entry_ok:
  assumes "vec_items v = map Some es" and "i < length es" and "vector_room (we_sessions (es ! i)) (Suc n)"
  shows "\<exists>e. bind_res (want_entry_at v i) (\<lambda>e.
      bind_res (vector_append (Some s) (we_sessions e)) (\<lambda>ss.
      Inr (Some i, Some (q\<lparr>wl_queue := Some (put_want_entry v i (e\<lparr>we_sessions := ss\<rparr>))\<rparr>)))) =
      Inr (Some i, Some (q\<lparr>wl_queue := Some (put_want_entry v i e)\<rparr>)) \<and>
    vec_items (put_want_entry v i e) = map Some (es[i := e]) \<and> we_cid e = we_cid (es ! i) \<and>
    vec_items (we_sessions e) = vec_items (we_sessions (es ! i)) @ [Some s] \<and>
    vector_room (we_sessions e) n \<and> we_block e = we_block (es ! i) \<and>
    asked_network e = asked_network (es ! i)"
proof -
  obtain ss where ss: "vector_append (Some s) (we_sessions (es ! i)) = Inr ss"
    "vec_items ss = vec_items (we_sessions (es ! i)) @ [Some s]" "vector_room ss n"
    using vector_append_ok [OF assms(3)] by blast
  have "want_entry_at v i = Inr (es ! i)"
    using assms(1,2) by (simp add: want_entry_at_def vector_get_nth)
  then show ?thesis using ss assms
    by (intro exI [of _ "(es ! i)\<lparr>we_sessions := ss\<rparr>"]) (simp add: put_want_entry_def map_update)
qed

lemma put_want_entry_room: "vector_room v n \<Longrightarrow> vector_room (put_want_entry v i e) n"
  by (simp add: put_want_entry_def vector_room_def vec_total_def)

lemma vector_room_le: "vector_room v n \<Longrightarrow> m \<le> n \<Longrightarrow> vector_room v m"
  by (auto simp: vector_room_def)

lemma want_ok_le: "want_ok n e \<Longrightarrow> m \<le> n \<Longrightarrow> want_ok m e"
  using vector_room_le by (auto simp: want_ok_def)

text \<open>Adding, with the entries that result.\<close>

lemma wantlist_add_entries:
  assumes wf: "queue_wf (Suc n) q es" and c: "cid_ok c" and n: "n < 2 ^ 29"
  shows "\<exists>i q' es' e. ipfs_bitswap_wantlist_queue_add (Some q) c s = Inr (Some i, Some q') \<and>
    queue_wf n q' es' \<and> i < length es' \<and> es' ! i = e \<and> we_cid e = Some c \<and>
    vec_items (we_sessions e) =
      (case wanted es (Some c) of None \<Rightarrow> [Some s] | Some ss \<Rightarrow> ss) @ [Some s] \<and>
    wanted es' = (wanted es)(Some c \<mapsto> vec_items (we_sessions e)) \<and>
    (we_block e = None \<or> we_block e \<in> we_block ` set es)"
proof -
  define v where "v = (case wl_queue q of None \<Rightarrow> libp2p_utils_vector_new 1 | Some v \<Rightarrow> v)"
  have items: "vec_items v = map Some es" and room: "vector_room v (Suc n)"
    using wf n by (auto simp: v_def queue_wf_def queue_entries_def libp2p_utils_vector_new_def
        vector_room_def vec_total_def split: option.splits)
  have ok: "\<forall>e \<in> set es. want_ok (Suc n) e" and dist: "distinct (map we_cid es)"
    using wf by (simp_all add: queue_wf_def)
  from find_want_spec [OF ok c] obtain found where found: "find_want c (map Some es) = Inr found"
    "case found of None \<Rightarrow> Some c \<notin> we_cid ` set es | Some i \<Rightarrow> i < length es \<and> we_cid (es ! i) = Some c"
    by blast
  show ?thesis
  proof (cases found)
    case None
    then have new: "Some c \<notin> we_cid ` set es" using found(2) by simp
    then have w: "wanted es (Some c) = None" by (simp add: wanted_def map_of_keyed_None)
    from new_want_entry_ok [OF room c, of "Suc n" s] n obtain v' e where
      e: "new_want_entry c s v = Inr (v', length es)" "vec_items v' = map Some (es @ [e])"
      "vector_room v' n" "we_cid e = Some c" "vec_items (we_sessions e) = [Some s]"
      "vector_room (we_sessions e) (Suc n)" "we_block e = None"
      using items by auto
    from put_want_entry_ok [of v' "es @ [e]" "length es" n s q] e obtain e' where
      e': "bind_res (want_entry_at v' (length es)) (\<lambda>e.
        bind_res (vector_append (Some s) (we_sessions e)) (\<lambda>ss.
        Inr (Some (length es), Some (q\<lparr>wl_queue := Some (put_want_entry v' (length es) (e\<lparr>we_sessions := ss\<rparr>))\<rparr>)))) =
        Inr (Some (length es), Some (q\<lparr>wl_queue := Some (put_want_entry v' (length es) e')\<rparr>))"
      "vec_items (put_want_entry v' (length es) e') = map Some (es @ [e'])" "we_cid e' = Some c"
      "vec_items (we_sessions e') = [Some s, Some s]" "vector_room (we_sessions e') n" "we_block e' = None"
      by auto
    let ?q = "q\<lparr>wl_queue := Some (put_want_entry v' (length es) e')\<rparr>"
    have "queue_wf n ?q (es @ [e'])"
      using e e' ok dist new c want_ok_le [of "Suc n" _ n] put_want_entry_room [OF e(3)]
      by (auto simp: queue_wf_def queue_entries_def want_ok_def)
    moreover have "ipfs_bitswap_wantlist_queue_add (Some q) c s = Inr (Some (length es), Some ?q)"
      using found(1) None e(1) e'(1) items
      by (simp add: ipfs_bitswap_wantlist_queue_add_def flip: v_def)
    moreover have "wanted (es @ [e']) = (wanted es)(Some c \<mapsto> vec_items (we_sessions e'))"
      unfolding wanted_def using map_of_keyed_append [of we_cid e' es] new e'(3) by simp
    ultimately show ?thesis using w e'
      by (intro exI [of _ "length es"] exI [of _ ?q] exI [of _ "es @ [e']"] exI [of _ e']) simp
  next
    case (Some i)
    then have i: "i < length es" "we_cid (es ! i) = Some c" using found(2) by simp_all
    have w: "wanted es (Some c) = Some (vec_items (we_sessions (es ! i)))"
      unfolding wanted_def using map_of_keyed_nth [OF dist i(1)] i(2) by simp
    have "vector_room (we_sessions (es ! i)) (Suc n)" using ok i(1) by (simp add: want_ok_def)
    from put_want_entry_ok [OF items i(1) this, of s q] obtain e' where
      e': "bind_res (want_entry_at v i) (\<lambda>e.
        bind_res (vector_append (Some s) (we_sessions e)) (\<lambda>ss.
        Inr (Some i, Some (q\<lparr>wl_queue := Some (put_want_entry v i (e\<lparr>we_sessions := ss\<rparr>))\<rparr>)))) =
        Inr (Some i, Some (q\<lparr>wl_queue := Some (put_want_entry v i e')\<rparr>))"
      "vec_items (put_want_entry v i e') = map Some (es[i := e'])" "we_cid e' = Some c"
      "vec_items (we_sessions e') = vec_items (we_sessions (es ! i)) @ [Some s]"
      "vector_room (we_sessions e') n" "we_block e' \<in> we_block ` set es"
      using i by auto
    let ?q = "q\<lparr>wl_queue := Some (put_want_entry v i e')\<rparr>"
    have "map we_cid (es[i := e']) = map we_cid es"
      using e'(3) i by (metis list_update_id map_update)
    then have "queue_wf n ?q (es[i := e'])"
      using e' ok dist c want_ok_le [of "Suc n" _ n] put_want_entry_room [OF vector_room_le [OF room]]
        set_update_subset_insert [of es i e']
      by (auto simp: queue_wf_def queue_entries_def want_ok_def)
    moreover have "ipfs_bitswap_wantlist_queue_add (Some q) c s = Inr (Some i, Some ?q)"
      using found(1) Some e'(1) items
      by (simp add: ipfs_bitswap_wantlist_queue_add_def flip: v_def)
    moreover have "wanted (es[i := e']) = (wanted es)(Some c \<mapsto> vec_items (we_sessions e'))"
      unfolding wanted_def using map_of_keyed_update [OF dist i(1), of e'] e'(3) i(2) by simp
    ultimately show ?thesis using w e' i
      by (intro exI [of _ i] exI [of _ ?q] exI [of _ "es[i := e']"] exI [of _ e']) simp
  qed
qed

section \<open>Removing\<close>

lemma session_compare_total: "\<exists>r. ipfs_bitswap_wantlist_session_compare a b = Inr r"
proof -
  have "\<exists>r. libp2p_peer_compare p q = Inr r" for p q
    using compare_ids_eq [of "peer_id (the p)" "peer_id (the q)"]
    by (cases p; cases q) (auto simp: libp2p_peer_compare_def)
  then show ?thesis
    by (auto simp: ipfs_bitswap_wantlist_session_compare_def split: option.split)
qed

lemma find_session_total:
  "\<exists>r. find_session s cs = Inr r \<and> (\<forall>i. r = Some i \<longrightarrow> i < length cs)"
proof (induction cs)
  case (Cons c cs)
  obtain r where "ipfs_bitswap_wantlist_session_compare s c = Inr r"
    using session_compare_total by blast
  with Cons show ?case by auto
qed simp

lemma decrement_total:
  assumes "vector_room (we_sessions e) n"
  shows "\<exists>r ss. ipfs_bitswap_wantlist_queue_entry_decrement e s = Inr (r, e\<lparr>we_sessions := ss\<rparr>) \<and>
    vector_room ss n \<and>
    (find_session s (vec_items (we_sessions e)) = Inr (Some 0) \<longrightarrow>
      vec_items ss = tl (vec_items (we_sessions e)))"
proof -
  obtain found where f: "find_session s (vec_items (we_sessions e)) = Inr found"
    "\<And>i. found = Some i \<Longrightarrow> i < length (vec_items (we_sessions e))"
    using find_session_total by blast
  show ?thesis
  proof (cases found)
    case None
    then show ?thesis using f assms
      by (intro exI [of _ False] exI [of _ "we_sessions e"])
        (simp add: ipfs_bitswap_wantlist_queue_entry_decrement_def)
  next
    case (Some i)
    obtain v' where "libp2p_utils_vector_delete (we_sessions e) (int i) = Inr v'"
      "vec_items v' = tl ((vec_items (we_sessions e))[i := None])" "vector_room v' n"
      using vector_delete_room [OF f(2) [OF Some] assms] by blast
    then show ?thesis using f Some
      by (intro exI [of _ True] exI [of _ v'])
        (cases "vec_items (we_sessions e)",
          simp_all add: ipfs_bitswap_wantlist_queue_entry_decrement_def)
  qed
qed

lemma queue_wf_update:
  assumes "queue_wf n q es" and "wl_queue q = Some v" and "i < length es"
    and "we_cid e = we_cid (es ! i)" and "want_ok n e"
  shows "queue_wf n (q\<lparr>wl_queue := Some (put_want_entry v i e)\<rparr>) (es[i := e])"
proof -
  have "map we_cid (es[i := e]) = map we_cid es"
    using assms(3,4) by (metis list_update_id map_update)
  then show ?thesis
    using assms set_update_subset_insert [of es i e] put_want_entry_room [of v n i e]
    by (auto simp: queue_wf_def queue_entries_def put_want_entry_def map_update)
qed

lemma wantlist_find_entry:
  assumes wf: "queue_wf n q es" and i: "i < length es" and c: "we_cid (es ! i) = Some c"
  shows "\<exists>v. wl_queue q = Some v \<and> want_entry_at v i = Inr (es ! i) \<and>
    ipfs_bitswap_wantlist_queue_find q c = Inr (Some i)"
proof -
  obtain v where v: "wl_queue q = Some v" "vec_items v = map Some es"
    using wf i by (cases "wl_queue q") (auto simp: queue_wf_def queue_entries_def)
  have ok: "\<forall>e \<in> set es. want_ok n e" and dist: "distinct (map we_cid es)"
    using wf by (simp_all add: queue_wf_def)
  have "want_ok n (es ! i)" using ok i by simp
  then have "cid_ok c" using c by (simp add: want_ok_def)
  from find_want_spec [OF ok this] obtain r where r: "find_want c (map Some es) = Inr r"
    "case r of None \<Rightarrow> Some c \<notin> we_cid ` set es | Some i \<Rightarrow> i < length es \<and> we_cid (es ! i) = Some c"
    by blast
  have "r = Some i"
  proof (cases r)
    case None
    then show ?thesis using r(2) nth_mem [OF i] c by (auto simp: image_iff)
  next
    case (Some j)
    then show ?thesis using r(2) i c dist nth_eq_iff_index_eq [OF dist, of i j] by simp
  qed
  then show ?thesis using v r i
    by (auto simp: ipfs_bitswap_wantlist_queue_find_def want_entry_at_def vector_get_nth)
qed

lemma wantlist_remove_entries:
  assumes wf: "queue_wf n q es" and i: "i < length es" and c: "we_cid (es ! i) = Some c"
  shows "\<exists>q' ss. ipfs_bitswap_wantlist_queue_remove (Some q) c s = Inr (True, Some q') \<and>
    queue_wf n q' (es[i := (es ! i)\<lparr>we_sessions := ss\<rparr>]) \<and>
    (find_session s (vec_items (we_sessions (es ! i))) = Inr (Some 0) \<longrightarrow>
      vec_items ss = tl (vec_items (we_sessions (es ! i))))"
proof -
  obtain v where v: "wl_queue q = Some v" "want_entry_at v i = Inr (es ! i)"
    "ipfs_bitswap_wantlist_queue_find q c = Inr (Some i)"
    using wantlist_find_entry [OF assms] by blast
  have ok: "want_ok n (es ! i)" using wf i by (auto simp: queue_wf_def)
  then obtain r ss where d: "ipfs_bitswap_wantlist_queue_entry_decrement (es ! i) s =
      Inr (r, (es ! i)\<lparr>we_sessions := ss\<rparr>)" "vector_room ss n"
    "find_session s (vec_items (we_sessions (es ! i))) = Inr (Some 0) \<longrightarrow>
      vec_items ss = tl (vec_items (we_sessions (es ! i)))"
    using decrement_total [of "es ! i" n s] by (auto simp: want_ok_def)
  have "want_ok n ((es ! i)\<lparr>we_sessions := ss\<rparr>)" using ok d(2) by (auto simp: want_ok_def)
  from queue_wf_update [OF wf v(1) i _ this] d v show ?thesis
    by (intro exI [of _ "q\<lparr>wl_queue := Some (put_want_entry v i ((es ! i)\<lparr>we_sessions := ss\<rparr>))\<rparr>"]
        exI [of _ ss]) (simp add: ipfs_bitswap_wantlist_queue_remove_def)
qed

section \<open>Giving up\<close>

lemma give_up_entries:
  assumes "queue_wf n q es" and "i < length es"
  shows "\<exists>q' ss. give_up k j i q = Inr q' \<and> queue_wf n q' (es[i := (es ! i)\<lparr>we_sessions := ss\<rparr>])"
  using assms
proof (induction k arbitrary: j q es)
  case 0
  then show ?case by (intro exI [of _ q] exI [of _ "we_sessions (es ! i)"]) simp
next
  case (Suc k)
  have "want_ok n (es ! i)" using Suc.prems by (auto simp: queue_wf_def)
  then obtain c where c: "we_cid (es ! i) = Some c" by (auto simp: want_ok_def)
  obtain v where v: "wl_queue q = Some v" "want_entry_at v i = Inr (es ! i)"
    using wantlist_find_entry [OF Suc.prems c] by blast
  show ?case
  proof (cases "vec_total (we_sessions (es ! i)) \<le> int j")
    case True
    then show ?thesis using v Suc.prems
      by (intro exI [of _ q] exI [of _ "we_sessions (es ! i)"]) simp
  next
    case False
    obtain q' ss where q': "ipfs_bitswap_wantlist_queue_remove (Some q) c
        (libp2p_utils_vector_get (we_sessions (es ! i)) (int j)) = Inr (True, Some q')"
      "queue_wf n q' (es[i := (es ! i)\<lparr>we_sessions := ss\<rparr>])"
      using wantlist_remove_entries [OF Suc.prems c] by blast
    from Suc.IH [OF q'(2), of "j + 1"] Suc.prems(2) obtain q'' ss' where
      "give_up k (j + 1) i q' = Inr q''" "queue_wf n q'' (es[i := (es ! i)\<lparr>we_sessions := ss'\<rparr>])"
      by auto
    then show ?thesis using False v c q' by auto
  qed
qed

definition want_pending :: "want_entry \<Rightarrow> bool" where
  "want_pending e \<longleftrightarrow> we_block e = None \<and> \<not> asked_network e"

lemma pop_loop_spec:
  "pop_loop (map Some es) =
    Inr (if \<exists>e \<in> set es. want_pending e
         then Some (length (takeWhile (\<lambda>e. \<not> want_pending e) es)) else None)"
  by (induction es) (auto simp: want_pending_def)

lemma pop_spec:
  assumes "queue_wf n q es"
  shows "ipfs_bitswap_wantlist_queue_pop (Some q) =
    Inr (if \<exists>e \<in> set es. want_pending e
         then Some (length (takeWhile (\<lambda>e. \<not> want_pending e) es)) else None)"
  using assms pop_loop_spec [of es]
  by (cases "wl_queue q") (auto simp: ipfs_bitswap_wantlist_queue_pop_def queue_wf_def queue_entries_def)

lemma pop_first:
  assumes "queue_wf n q es" and "i < length es" and "want_pending (es ! i)"
    and "\<forall>j < i. \<not> want_pending (es ! j)"
  shows "ipfs_bitswap_wantlist_queue_pop (Some q) = Inr (Some i)"
proof -
  have "takeWhile (\<lambda>e. \<not> want_pending e) es = take i es"
    using assms(2-4) by (intro takeWhile_eq_take_P_nth) auto
  then have "length (takeWhile (\<lambda>e. \<not> want_pending e) es) = i" using assms(2) by simp
  then show ?thesis using pop_spec [OF assms(1)] assms(2,3) by auto
qed

section \<open>Properties\<close>

text \<open>
  Adding a CID to the want list registers the session at that CID and changes nothing
  else: a known CID gets it once more, a new one gets an entry, in which the session is
  registered twice. The entry that is returned holds the CID, and the invariant is kept.
\<close>

theorem wantlist_add_refines:
  assumes "queue_wf (Suc n) q es" and "cid_ok c" and "n < 2 ^ 29"
  shows "\<exists>i q' es'. ipfs_bitswap_wantlist_queue_add (Some q) c s = Inr (Some i, Some q') \<and>
    queue_wf n q' es' \<and> i < length es' \<and> we_cid (es' ! i) = Some c \<and>
    wanted es' = (wanted es)(Some c \<mapsto>
      (case wanted es (Some c) of None \<Rightarrow> [Some s] | Some ss \<Rightarrow> ss) @ [Some s])"
  using wantlist_add_entries [OF assms, of s] by metis

theorem wantlist_add_refines_witness:
  "\<exists>i q' es'. ipfs_bitswap_wantlist_queue_add (Some ipfs_bitswap_wantlist_queue_new)
      \<lparr>cid_version = 0, cid_codec = 0x70, cid_hash = [1]\<rparr> ipfs_bitswap_wantlist_session_new =
      Inr (Some i, Some q') \<and> queue_wf 5 q' es'"
  using wantlist_add_refines [of 5 ipfs_bitswap_wantlist_queue_new "[]"
      "\<lparr>cid_version = 0, cid_codec = 0x70, cid_hash = [1]\<rparr>" ipfs_bitswap_wantlist_session_new]
  by (simp add: queue_wf_def queue_entries_def ipfs_bitswap_wantlist_queue_new_def cid_ok_def) blast

text \<open>
  The want list loses count: a session that asks for a new CID and withdraws the request
  is still registered for it.
\<close>

theorem wantlist_remove_keeps_session:
  assumes "queue_wf (Suc n) q es" and "cid_ok c" and "n < 2 ^ 29" and "wanted es (Some c) = None"
  shows "\<exists>i q' q'' es''. ipfs_bitswap_wantlist_queue_add (Some q) c s = Inr (Some i, Some q') \<and>
    ipfs_bitswap_wantlist_queue_remove (Some q') c (Some s) = Inr (True, Some q'') \<and>
    queue_wf n q'' es'' \<and> wanted es'' (Some c) = Some [Some s]"
proof -
  obtain i q' es' where add: "ipfs_bitswap_wantlist_queue_add (Some q) c s = Inr (Some i, Some q')"
    "queue_wf n q' es'" "i < length es'" "we_cid (es' ! i) = Some c"
    "vec_items (we_sessions (es' ! i)) = [Some s, Some s]"
    using wantlist_add_entries [OF assms(1-3), of s] assms(4) by auto
  have "find_session (Some s) (vec_items (we_sessions (es' ! i))) = Inr (Some 0)"
    using add(5) by simp
  then obtain q'' ss where rem: "ipfs_bitswap_wantlist_queue_remove (Some q') c (Some s) = Inr (True, Some q'')"
    "queue_wf n q'' (es'[i := (es' ! i)\<lparr>we_sessions := ss\<rparr>])" "vec_items ss = [Some s]"
    using wantlist_remove_entries [OF add(2-4), of "Some s"] add(5) by auto
  let ?es = "es'[i := (es' ! i)\<lparr>we_sessions := ss\<rparr>]"
  have "distinct (map we_cid ?es)" using rem(2) by (simp add: queue_wf_def)
  from map_of_keyed_nth [OF this, of i "\<lambda>e. vec_items (we_sessions e)"] add(3,4) rem(3)
  have "wanted ?es (Some c) = Some [Some s]" by (simp add: wanted_def)
  with add(1) rem(1,2) show ?thesis by blast
qed

theorem wantlist_remove_keeps_session_witness:
  "\<exists>i q' q''. ipfs_bitswap_wantlist_queue_add (Some ipfs_bitswap_wantlist_queue_new)
      \<lparr>cid_version = 0, cid_codec = 0x70, cid_hash = [1]\<rparr> ipfs_bitswap_wantlist_session_new =
      Inr (Some i, Some q') \<and>
    ipfs_bitswap_wantlist_queue_remove (Some q') \<lparr>cid_version = 0, cid_codec = 0x70, cid_hash = [1]\<rparr>
      (Some ipfs_bitswap_wantlist_session_new) = Inr (True, Some q'')"
  using wantlist_remove_keeps_session [of 5 ipfs_bitswap_wantlist_queue_new "[]"
      "\<lparr>cid_version = 0, cid_codec = 0x70, cid_hash = [1]\<rparr>" ipfs_bitswap_wantlist_session_new]
  by (simp add: queue_wf_def queue_entries_def ipfs_bitswap_wantlist_queue_new_def cid_ok_def wanted_def)
    blast

text \<open>
  An entry that has failed more than ten times blocks the queue: when it is the first one
  without a block that was not asked for, every further round of the want list thread takes
  it again, and no other entry is ever worked on or changed.
\<close>

theorem wantlist_processor_starves:
  assumes "queue_wf n q es" and "i < length es" and "want_pending (es ! i)" and "10 < attempts (es ! i)"
    and "\<forall>j < i. \<not> want_pending (es ! j)"
  shows "\<exists>q' e. wantlist_processor process rounds q = Inr (replicate rounds (Some i), q') \<and>
    queue_wf n q' (es[i := e]) \<and> want_pending e \<and> attempts e = attempts (es ! i)"
  using assms
proof (induction rounds arbitrary: q es)
  case 0
  then show ?case by (intro exI [of _ q] exI [of _ "es ! i"]) simp
next
  case (Suc k)
  have pop: "ipfs_bitswap_wantlist_queue_pop (Some q) = Inr (Some i)"
    using pop_first Suc.prems by blast
  have "want_ok n (es ! i)" using Suc.prems by (auto simp: queue_wf_def)
  then obtain c where "we_cid (es ! i) = Some c" by (auto simp: want_ok_def)
  then obtain v where v: "wl_queue q = Some v" "want_entry_at v i = Inr (es ! i)"
    using wantlist_find_entry Suc.prems(1,2) by blast
  obtain q' ss where q': "give_up (length (vec_items (we_sessions (es ! i)))) 0 i q = Inr q'"
    "queue_wf n q' (es[i := (es ! i)\<lparr>we_sessions := ss\<rparr>])"
    using give_up_entries [OF Suc.prems(1,2)] by blast
  have round: "wantlist_processor_round process q = Inr (Some i, q')"
    using pop v q' Suc.prems(4) by (simp add: wantlist_processor_round_def)
  let ?es = "es[i := (es ! i)\<lparr>we_sessions := ss\<rparr>]"
  have "\<exists>q'' e. wantlist_processor process k q' = Inr (replicate k (Some i), q'') \<and>
      queue_wf n q'' (?es[i := e]) \<and> want_pending e \<and> attempts e = attempts (?es ! i)"
    using Suc.prems q'(2) by (intro Suc.IH) (auto simp: want_pending_def)
  then show ?case using round Suc.prems(2) by auto
qed

definition stuck_queue :: wantlist_queue where
  "stuck_queue =
     \<lparr>wl_queue = Some \<lparr>vec_items =
        [Some \<lparr>we_cid = Some \<lparr>cid_version = 0, cid_codec = 0x70, cid_hash = [1]\<rparr>, we_priority = 1,
           we_sessions = libp2p_utils_vector_new 1, we_block = None, asked_network = False, attempts = 11\<rparr>,
         Some \<lparr>we_cid = Some \<lparr>cid_version = 0, cid_codec = 0x70, cid_hash = [2]\<rparr>, we_priority = 1,
           we_sessions = libp2p_utils_vector_new 1, we_block = None, asked_network = False, attempts = 0\<rparr>],
        vec_capacity = 2\<rparr>\<rparr>"

theorem wantlist_processor_starves_witness:
  "\<exists>q'. wantlist_processor (\<lambda>i q. Inr q) 1000 stuck_queue = Inr (replicate 1000 (Some 0), q')"
proof -
  have "queue_wf 1 stuck_queue (map the (queue_entries stuck_queue))"
    by (simp add: queue_wf_def queue_entries_def stuck_queue_def want_ok_def cid_ok_def
        libp2p_utils_vector_new_def vector_room_def vec_total_def)
  from wantlist_processor_starves [OF this, of 0 "\<lambda>i q. Inr q" 1000] show ?thesis
    by (auto simp: queue_entries_def stuck_queue_def want_pending_def)
qed

text \<open>
  Asking whether a block was received, or withdrawing a request, before anything was added
  to the want list follows a null pointer; taking the next entry of such a list is harmless.
\<close>

theorem wantlist_null_queue:
  "ipfs_bitswap_want_manager_received ipfs_bitswap_wantlist_queue_new c = Inl Undefined \<and>
   ipfs_bitswap_want_manager_remove (Some ipfs_bitswap_wantlist_queue_new) c = Inl Undefined \<and>
   ipfs_bitswap_wantlist_queue_pop (Some ipfs_bitswap_wantlist_queue_new) = Inr None"
  by (simp add: ipfs_bitswap_want_manager_received_def want_block_def
      ipfs_bitswap_wantlist_queue_find_def ipfs_bitswap_wantlist_queue_new_def
      ipfs_bitswap_want_manager_remove_def ipfs_bitswap_wantlist_queue_remove_def
      ipfs_bitswap_wantlist_queue_pop_def)

end
