(* ===== verification/Peerstore.thy ===== *)
theory Peerstore
  imports Peer Vector
begin

text \<open>
  The store of known peers, \<open>libp2p/peer/peerstore.c\<close>, and the store of who provides which
  hash, \<open>libp2p/peer/providerstore.c\<close>.

  A peerstore is the list of its entries' peers from \<open>head_entry\<close> to \<open>last_entry\<close>; a pointer
  into it is an index. Entries are never removed. The provider entries are the items of a
  vector. Printing a peer for the log copies its id into a static array of 100 bytes.
\<close>

section \<open>The peerstore\<close>

type_synonym peerstore = "libp2p_peer list"

fun find_peer :: "peerstore \<Rightarrow> bytes \<Rightarrow> nat option" where
  "find_peer [] pid = None"
| "find_peer (p # ps) pid =
     (if peer_id p = pid then Some 0 else map_option Suc (find_peer ps pid))"

definition libp2p_peerstore_get_peer_entry :: "peerstore \<Rightarrow> bytes \<Rightarrow> nat option" where
  "libp2p_peerstore_get_peer_entry ps pid = (if pid = [] then None else find_peer ps pid)"

definition libp2p_peerstore_get_peer :: "peerstore \<Rightarrow> bytes \<Rightarrow> nat option" where
  "libp2p_peerstore_get_peer ps pid = libp2p_peerstore_get_peer_entry ps pid"

definition libp2p_peerstore_add_peer_entry :: "peerstore \<Rightarrow> libp2p_peer option \<Rightarrow> peerstore result" where
  "libp2p_peerstore_add_peer_entry ps entry =
     (case entry of None \<Rightarrow> Inl Failure | Some p \<Rightarrow> Inr (ps @ [p]))"

fun address_known :: "multiaddr \<Rightarrow> multiaddr option list \<Rightarrow> bool result" where
  "address_known a [] = Inr False"
| "address_known a (b # bs) =
     bind_res (multiaddress_compare (Some a) b) (\<lambda>r.
     if r = 0 then Inr True else address_known a bs)"

fun update_addresses_loop ::
    "multiaddr option list \<Rightarrow> multiaddr option list \<Rightarrow> multiaddr option list result" where
  "update_addresses_loop existing [] = Inr existing"
| "update_addresses_loop existing (None # as) = update_addresses_loop existing as"
| "update_addresses_loop existing (Some a # as) =
     bind_res (address_known a existing) (\<lambda>known.
     if known then update_addresses_loop existing as
     else bind_res (multiaddress_copy a) (\<lambda>c. update_addresses_loop (Some c # existing) as))"

definition libp2p_peerstore_update_addresses :: "libp2p_peer \<Rightarrow> libp2p_peer \<Rightarrow> libp2p_peer result" where
  "libp2p_peerstore_update_addresses existing incoming =
     bind_res (update_addresses_loop (addr_list existing) (addr_list incoming)) (\<lambda>as.
     Inr (existing\<lparr>addr_list := as\<rparr>))"

text \<open>The result and the store; the result 0 of an empty id is returned without an error.\<close>

definition libp2p_peerstore_add_peer :: "peerstore \<Rightarrow> libp2p_peer \<Rightarrow> (bool \<times> peerstore) result" where
  "libp2p_peerstore_add_peer ps p =
     (case libp2p_peerstore_get_peer_entry ps (peer_id p) of
        Some i \<Rightarrow>
          bind_res (libp2p_peerstore_update_addresses (ps ! i) p) (\<lambda>q. Inr (True, ps[i := q]))
      | None \<Rightarrow>
          if peer_id p = [] then Inr (False, ps)
          else
            bind_res (libp2p_peer_id_to_string p) (\<lambda>s.
            case libp2p_peer_copy p of
              Inl Failure \<Rightarrow> Inr (False, ps)
            | Inl e \<Rightarrow> Inl e
            | Inr c \<Rightarrow>
                bind_res (libp2p_peerstore_add_peer_entry ps (Some c)) (\<lambda>ps'. Inr (True, ps'))))"

definition libp2p_peerstore_new :: "libp2p_peer \<Rightarrow> peerstore result" where
  "libp2p_peerstore_new local_peer =
     bind_res (libp2p_peerstore_add_peer [] local_peer) (\<lambda>(ok, ps). Inr ps)"

definition libp2p_peerstore_get_local_peer :: "peerstore option \<Rightarrow> libp2p_peer option" where
  "libp2p_peerstore_get_local_peer ps =
     (case ps of None \<Rightarrow> None | Some [] \<Rightarrow> None | Some (p # ps) \<Rightarrow> Some p)"

text \<open>
  \<open>libp2p_peerstore_get_or_add_peer_by_id\<close> puts the caller's id into a temporary peer, which
  it frees, id included, before it looks the id up again.
\<close>

definition libp2p_peerstore_get_or_add_peer_by_id ::
    "peerstore \<Rightarrow> bytes \<Rightarrow> (nat option \<times> peerstore) result" where
  "libp2p_peerstore_get_or_add_peer_by_id ps pid =
     (if pid = [] then Inr (None, ps)
      else
        case libp2p_peerstore_get_peer_entry ps pid of
          Some i \<Rightarrow> Inr (Some i, ps)
        | None \<Rightarrow>
            bind_res (libp2p_peerstore_add_peer ps (libp2p_peer_new\<lparr>peer_id := pid\<rparr>)) (\<lambda>r.
            Inl Undefined))"

definition libp2p_peerstore_get_or_add_peer ::
    "peerstore \<Rightarrow> libp2p_peer option \<Rightarrow> (nat option \<times> peerstore) result" where
  "libp2p_peerstore_get_or_add_peer ps p =
     (case p of
        None \<Rightarrow> Inr (None, ps)
      | Some p \<Rightarrow>
          (case libp2p_peerstore_get_peer ps (peer_id p) of
             Some i \<Rightarrow> Inr (Some i, ps)
           | None \<Rightarrow>
               bind_res (libp2p_peerstore_add_peer ps p) (\<lambda>(ok, ps').
               if ok then Inr (libp2p_peerstore_get_peer ps' (peer_id p), ps') else Inr (None, ps'))))"

section \<open>The store of providers\<close>

record provider_entry =
  pe_hash :: bytes
  pe_peer_id :: bytes

definition libp2p_providerstore_new :: "provider_entry vector" where
  "libp2p_providerstore_new = libp2p_utils_vector_new 4"

definition libp2p_providerstore_add ::
    "provider_entry vector \<Rightarrow> bytes \<Rightarrow> bytes \<Rightarrow> provider_entry vector result" where
  "libp2p_providerstore_add store hash pid =
     bind_res (libp2p_utils_vector_add store (Some \<lparr>pe_hash = hash, pe_peer_id = pid\<rparr>)) (\<lambda>(v, n).
     Inr v)"

fun find_provider :: "provider_entry option list \<Rightarrow> bytes \<Rightarrow> bytes option" where
  "find_provider [] hash = None"
| "find_provider (e # es) hash =
     (case e of
        Some p \<Rightarrow> if pe_hash p = hash then Some (pe_peer_id p) else find_provider es hash
      | None \<Rightarrow> None)"

text \<open>\<open>datastore_get\<close> is the local data store's lookup: whether it has the hash.\<close>

definition libp2p_providerstore_get ::
    "(bytes \<Rightarrow> bool) \<Rightarrow> libp2p_peer \<Rightarrow> provider_entry vector \<Rightarrow> bytes \<Rightarrow> bytes option" where
  "libp2p_providerstore_get datastore_get local_peer store hash =
     (if datastore_get hash then
        (if malloc_ok (length (peer_id local_peer)) then Some (peer_id local_peer) else None)
      else find_provider (vec_items store) hash)"

section \<open>Looking peers up\<close>

definition peer_lookup :: "peerstore \<Rightarrow> bytes \<Rightarrow> libp2p_peer option" where
  "peer_lookup ps pid = map_option (nth ps) (libp2p_peerstore_get_peer ps pid)"

text \<open>The invariant of a store: no empty id, no id twice.\<close>

definition peerstore_wf :: "peerstore \<Rightarrow> bool" where
  "peerstore_wf ps \<longleftrightarrow> distinct (map peer_id ps) \<and> [] \<notin> peer_id ` set ps"

lemma find_peer_None: "find_peer ps pid = None \<longleftrightarrow> pid \<notin> peer_id ` set ps"
  by (induction ps) auto

lemma find_peer_Some: "find_peer ps pid = Some i \<Longrightarrow> i < length ps \<and> peer_id (ps ! i) = pid"
  by (induction ps arbitrary: i) (auto split: if_splits)

lemma find_peer_append:
  "find_peer (ps @ [p]) pid =
    (case find_peer ps pid of
       Some i \<Rightarrow> Some i
     | None \<Rightarrow> if peer_id p = pid then Some (length ps) else None)"
  by (induction ps) (auto split: option.split)

lemma find_peer_update:
  assumes "peer_id q = peer_id (ps ! i)" and "i < length ps"
  shows "find_peer (ps[i := q]) pid = find_peer ps pid"
  using assms by (induction ps arbitrary: i) (auto split: nat.split)

lemmas get_peer_defs = libp2p_peerstore_get_peer_def libp2p_peerstore_get_peer_entry_def

lemma peer_lookup_append:
  assumes "peerstore_wf ps" and "peer_id p \<notin> peer_id ` set ps" and "peer_id p \<noteq> []"
  shows "peer_lookup (ps @ [p]) = (peer_lookup ps)(peer_id p \<mapsto> p)"
proof
  fix pid
  show "peer_lookup (ps @ [p]) pid = ((peer_lookup ps)(peer_id p \<mapsto> p)) pid"
    using assms find_peer_None [of ps "peer_id p"] find_peer_Some [of ps pid]
    by (auto simp: peer_lookup_def get_peer_defs find_peer_append nth_append split: option.split)
qed

lemma peer_lookup_update:
  assumes "peerstore_wf ps" and "find_peer ps pid = Some i" and "peer_id q = pid" and "pid \<noteq> []"
  shows "peer_lookup (ps[i := q]) = (peer_lookup ps)(pid \<mapsto> q)"
proof
  fix x
  from find_peer_Some [OF assms(2)] have i: "i < length ps" "peer_id (ps ! i) = pid" by simp_all
  have "j = i \<Longrightarrow> x = pid" if "find_peer ps x = Some j" for j
    using find_peer_Some [OF that] i by simp
  moreover have "find_peer (ps[i := q]) x = find_peer ps x"
    using assms(3) i by (intro find_peer_update) simp_all
  ultimately show "peer_lookup (ps[i := q]) x = ((peer_lookup ps)(pid \<mapsto> q)) x"
    using assms(2,4) i(1)
    by (cases "find_peer ps x") (auto simp add: peer_lookup_def get_peer_defs nth_list_update)
qed

lemma peerstore_wf_append:
  "peerstore_wf ps \<Longrightarrow> peer_id p \<notin> peer_id ` set ps \<Longrightarrow> peer_id p \<noteq> [] \<Longrightarrow> peerstore_wf (ps @ [p])"
  by (auto simp: peerstore_wf_def)

lemma map_peer_id_update:
  "peer_id q = peer_id (ps ! i) \<Longrightarrow> map peer_id (ps[i := q]) = map peer_id ps"
  by (metis list_update_id map_update)

section \<open>Merging addresses\<close>

text \<open>An address as the conversions make it: both forms present.\<close>

definition addr_ok :: "multiaddr \<Rightarrow> bool" where
  "addr_ok a \<longleftrightarrow> (\<exists>s. ma_string a = Some s \<and> 0 \<notin> set s) \<and> ma_bytes a \<noteq> [] \<and> length (ma_bytes a) < 2 ^ 31"

definition addrs_ok :: "multiaddr option list \<Rightarrow> bool" where
  "addrs_ok as \<longleftrightarrow> (\<forall>a. Some a \<in> set as \<longrightarrow> addr_ok a)"

definition addr_bytes :: "multiaddr option list \<Rightarrow> bytes set" where
  "addr_bytes as = {ma_bytes a | a. Some a \<in> set as}"

lemma addr_bytes_simps [simp]:
  "addr_bytes [] = {}"
  "addr_bytes (None # as) = addr_bytes as"
  "addr_bytes (Some a # as) = insert (ma_bytes a) (addr_bytes as)"
  by (auto simp: addr_bytes_def)

lemma addrs_ok_simps [simp]:
  "addrs_ok []"
  "addrs_ok (None # as) \<longleftrightarrow> addrs_ok as"
  "addrs_ok (Some a # as) \<longleftrightarrow> addr_ok a \<and> addrs_ok as"
  by (auto simp: addrs_ok_def)

lemma multiaddress_copy_ok: "addr_ok a \<Longrightarrow> multiaddress_copy a = Inr a"
  by (cases a) (auto simp: addr_ok_def multiaddress_copy_def)

lemma copy_addresses_ok: "addrs_ok as \<Longrightarrow> copy_addresses as = Inr (filter (\<lambda>a. a \<noteq> None) as)"
  by (induction as rule: copy_addresses.induct) (simp_all add: multiaddress_copy_ok)

lemma addr_bytes_filter [simp]: "addr_bytes (filter (\<lambda>a. a \<noteq> None) as) = addr_bytes as"
  by (auto simp: addr_bytes_def)

lemma addrs_ok_filter: "addrs_ok as \<Longrightarrow> addrs_ok (filter (\<lambda>a. a \<noteq> None) as)"
  by (simp add: addrs_ok_def)

lemma address_known_ok:
  assumes "addr_ok a" and "addrs_ok bs"
  shows "address_known a bs = Inr (ma_bytes a \<in> addr_bytes bs)"
  using assms(2)
proof (induction bs)
  case (Cons b bs)
  show ?case
  proof (cases b)
    case None
    then show ?thesis using Cons by (simp add: multiaddress_compare_def)
  next
    case (Some c)
    then obtain r where "multiaddress_compare (Some a) (Some c) = Inr r" "r = 0 \<longleftrightarrow> ma_bytes a = ma_bytes c"
      using multiaddress_compare_eq [of a c] assms(1) Cons.prems by (auto simp: addr_ok_def)
    then show ?thesis using Some Cons by auto
  qed
qed simp

lemma update_addresses_ok:
  assumes "addrs_ok existing" and "addrs_ok as"
  shows "\<exists>as'. update_addresses_loop existing as = Inr as' \<and> addrs_ok as' \<and>
    addr_bytes as' = addr_bytes existing \<union> addr_bytes as \<and> (\<exists>new. as' = new @ existing)"
  using assms
proof (induction existing as rule: update_addresses_loop.induct)
  case (3 existing a as)
  show ?case
  proof (cases "ma_bytes a \<in> addr_bytes existing")
    case True
    then have "address_known a existing = Inr True" using 3 address_known_ok [of a existing] by auto
    moreover from "3.IH"(1) [of True] "3.prems" obtain as' new where
      "update_addresses_loop existing as = Inr as'" "addrs_ok as'"
      "addr_bytes as' = addr_bytes existing \<union> addr_bytes as" "as' = new @ existing" by auto
    ultimately show ?thesis using True by (intro exI [of _ as']) auto
  next
    case False
    then have k: "address_known a existing = Inr False" using 3 address_known_ok [of a existing] by auto
    have c: "multiaddress_copy a = Inr a" using 3 by (simp add: multiaddress_copy_ok)
    from "3.IH"(2) [of False a] "3.prems" obtain as' new where
      "update_addresses_loop (Some a # existing) as = Inr as'" "addrs_ok as'"
      "addr_bytes as' = insert (ma_bytes a) (addr_bytes existing) \<union> addr_bytes as"
      "as' = new @ Some a # existing" by auto
    then show ?thesis using k c by (intro exI [of _ as']) auto
  qed
qed auto

text \<open>A peer that can be added: its id can be printed, its addresses are complete.\<close>

definition peer_ok :: "libp2p_peer \<Rightarrow> bool" where
  "peer_ok p \<longleftrightarrow> length (peer_id p) < 100 \<and> addrs_ok (addr_list p)"

lemma peerstore_add_ok:
  assumes "peerstore_wf ps" and "\<forall>q \<in> set ps. peer_ok q" and "peer_ok p" and "peer_id p \<noteq> []"
  shows "\<exists>ps' q. libp2p_peerstore_add_peer ps p = Inr (True, ps') \<and> peerstore_wf ps' \<and>
    (\<forall>q \<in> set ps'. peer_ok q) \<and>
    peer_lookup ps' = (peer_lookup ps)(peer_id p \<mapsto> q) \<and> peer_id q = peer_id p \<and>
    addr_bytes (addr_list q) = addr_bytes (addr_list p) \<union>
      (case peer_lookup ps (peer_id p) of None \<Rightarrow> {} | Some e \<Rightarrow> addr_bytes (addr_list e)) \<and>
    (\<exists>new. map peer_id ps' = map peer_id ps @ new)"
proof (cases "find_peer ps (peer_id p)")
  case None
  let ?c = "p\<lparr>addr_list := filter (\<lambda>a. a \<noteq> None) (addr_list p)\<rparr>"
  have new: "peer_id p \<notin> peer_id ` set ps" using None by (simp add: find_peer_None)
  have "libp2p_peer_copy p = Inr ?c"
    using assms(3) by (cases p) (simp add: libp2p_peer_copy_def malloc_ok_def peer_ok_def copy_addresses_ok)
  then have "libp2p_peerstore_add_peer ps p = Inr (True, ps @ [?c])"
    using None assms(3,4) by (simp add: libp2p_peerstore_add_peer_def get_peer_defs
        libp2p_peer_id_to_string_def peer_ok_def libp2p_peerstore_add_peer_entry_def)
  moreover have "peerstore_wf (ps @ [?c])" and "peer_lookup (ps @ [?c]) = (peer_lookup ps)(peer_id p \<mapsto> ?c)"
    using peerstore_wf_append [of ps ?c] peer_lookup_append [of ps ?c] assms new by simp_all
  moreover have "\<forall>q \<in> set (ps @ [?c]). peer_ok q"
    using assms addrs_ok_filter [of "addr_list p"] by (auto simp: peer_ok_def)
  moreover have "peer_lookup ps (peer_id p) = None"
    using None by (simp add: peer_lookup_def get_peer_defs)
  ultimately show ?thesis by (intro exI [of _ "ps @ [?c]"] exI [of _ ?c]) (simp del: not_None_eq)
next
  case (Some i)
  from find_peer_Some [OF this] have i: "i < length ps" "peer_id (ps ! i) = peer_id p" by simp_all
  have ok: "peer_ok (ps ! i)" using assms(2) i by simp
  then obtain as' where as': "update_addresses_loop (addr_list (ps ! i)) (addr_list p) = Inr as'"
    "addrs_ok as'" "addr_bytes as' = addr_bytes (addr_list (ps ! i)) \<union> addr_bytes (addr_list p)"
    using update_addresses_ok [of "addr_list (ps ! i)" "addr_list p"] assms(3) by (auto simp: peer_ok_def)
  let ?q = "(ps ! i)\<lparr>addr_list := as'\<rparr>"
  have "libp2p_peerstore_add_peer ps p = Inr (True, ps[i := ?q])"
    using Some as'(1) assms(4)
    by (simp add: libp2p_peerstore_add_peer_def get_peer_defs libp2p_peerstore_update_addresses_def)
  moreover have ids: "map peer_id (ps[i := ?q]) = map peer_id ps" by (rule map_peer_id_update) simp
  then have "peerstore_wf (ps[i := ?q])"
    using assms(1) unfolding peerstore_wf_def by (metis image_set)
  moreover have "peer_lookup (ps[i := ?q]) = (peer_lookup ps)(peer_id p \<mapsto> ?q)"
    using i Some assms by (intro peer_lookup_update) simp_all
  moreover have "\<forall>q \<in> set (ps[i := ?q]). peer_ok q"
    using assms(2) ok as'(2) set_update_subset_insert [of ps i ?q] by (auto simp: peer_ok_def)
  moreover have "peer_lookup ps (peer_id p) = Some (ps ! i)"
    using Some assms(4) by (simp add: peer_lookup_def get_peer_defs)
  ultimately show ?thesis using i as'(3) ids
    by (intro exI [of _ "ps[i := ?q]"] exI [of _ ?q]) (simp add: Un_commute)
qed

section \<open>Properties\<close>

text \<open>
  C37: adding a peer with an id updates the store at that id and nowhere else: a new peer goes
  to the end, a known one gets the addresses it lacks. No id is ever there twice, and the
  order of the peers, so the local one in front, is kept.
\<close>

theorem peerstore_add_refines:
  assumes "peerstore_wf ps" and "\<forall>q \<in> set ps. peer_ok q" and "peer_ok p" and "peer_id p \<noteq> []"
  shows "\<exists>ps' q. libp2p_peerstore_add_peer ps p = Inr (True, ps') \<and> peerstore_wf ps' \<and>
    (\<forall>q \<in> set ps'. peer_ok q) \<and>
    peer_lookup ps' = (peer_lookup ps)(peer_id p \<mapsto> q) \<and> peer_id q = peer_id p \<and>
    addr_bytes (addr_list q) = addr_bytes (addr_list p) \<union>
      (case peer_lookup ps (peer_id p) of None \<Rightarrow> {} | Some e \<Rightarrow> addr_bytes (addr_list e)) \<and>
    (\<exists>new. map peer_id ps' = map peer_id ps @ new)"
  by (rule peerstore_add_ok [OF assms])

theorem peerstore_add_refines_witness:
  "\<exists>ps'. libp2p_peerstore_add_peer [libp2p_peer_new\<lparr>peer_id := [1]\<rparr>] (libp2p_peer_new\<lparr>peer_id := [2]\<rparr>) =
     Inr (True, ps') \<and> peerstore_wf ps' \<and> peer_lookup ps' [1] = Some (libp2p_peer_new\<lparr>peer_id := [1]\<rparr>)"
proof -
  have "peerstore_wf [libp2p_peer_new\<lparr>peer_id := [1]\<rparr>]" and
    "\<forall>q \<in> set [libp2p_peer_new\<lparr>peer_id := [1]\<rparr>]. peer_ok q" and
    "peer_ok (libp2p_peer_new\<lparr>peer_id := [2]\<rparr>)"
    by (simp_all add: peerstore_wf_def peer_ok_def libp2p_peer_new_def)
  from peerstore_add_refines [OF this]
  obtain ps' q where "libp2p_peerstore_add_peer [libp2p_peer_new\<lparr>peer_id := [1]\<rparr>]
      (libp2p_peer_new\<lparr>peer_id := [2]\<rparr>) = Inr (True, ps')" "peerstore_wf ps'"
    "peer_lookup ps' = (peer_lookup [libp2p_peer_new\<lparr>peer_id := [1]\<rparr>])([2] \<mapsto> q)"
    by auto
  then show ?thesis
    by (intro exI [of _ ps']) (simp add: peer_lookup_def get_peer_defs)
qed

text \<open>
  \<open>libp2p_peerstore_get_or_add_peer_by_id\<close> finds a known peer, but for an id that is not
  in the store it never returns a peer: it frees the caller's id with its temporary peer and
  reads it again.
\<close>

theorem peerstore_add_by_id_uses_freed:
  assumes "pid \<noteq> []"
  shows "libp2p_peerstore_get_or_add_peer_by_id ps pid =
    (case libp2p_peerstore_get_peer ps pid of
       Some i \<Rightarrow> Inr (Some i, ps)
     | None \<Rightarrow> Inl Undefined)"
proof -
  have "bind_res (libp2p_peerstore_add_peer ps (libp2p_peer_new\<lparr>peer_id := pid\<rparr>)) (\<lambda>r. Inl Undefined) =
      Inl Undefined" if "find_peer ps pid = None"
    using assms that
    by (simp add: libp2p_peerstore_add_peer_def get_peer_defs libp2p_peer_id_to_string_def
        libp2p_peer_copy_def libp2p_peer_new_def libp2p_peerstore_add_peer_entry_def
        bind_res_def split: sum.split fault.split)
  then show ?thesis using assms
    by (auto simp: libp2p_peerstore_get_or_add_peer_by_id_def get_peer_defs split: option.split)
qed

theorem peerstore_add_by_id_uses_freed_witness:
  "libp2p_peerstore_get_or_add_peer_by_id [] [1] = Inl Undefined"
  using peerstore_add_by_id_uses_freed [of "[1]" "[]"] by (simp add: get_peer_defs)

text \<open>
  As long as the vector grows within an \<open>int\<close>, looking a hash up among the providers
  gives the local peer if the data store has the hash, and otherwise the first peer that was
  added for it.
\<close>

theorem providerstore_first_provider:
  assumes "length es \<le> 2 ^ 30" and "length (peer_id me) < 2 ^ 31"
  shows "\<exists>store. chain (map (\<lambda>(h, pid) st. libp2p_providerstore_add st h pid) es) libp2p_providerstore_new = Inr store \<and>
    libp2p_providerstore_get has me store hash =
      (if has hash then Some (peer_id me) else map_of es hash)"
proof -
  let ?e = "\<lambda>(h, pid). Some \<lparr>pe_hash = h, pe_peer_id = pid\<rparr>"
  have "(\<lambda>(h, pid) st. libp2p_providerstore_add st h pid) = (\<lambda>x. vector_append (?e x))"
    by (auto simp: fun_eq_iff libp2p_providerstore_add_def vector_append_def)
  then have m: "map (\<lambda>(h, pid) st. libp2p_providerstore_add st h pid) es = map vector_append (map ?e es)"
    by simp
  have "vector_room (libp2p_providerstore_new) (length (map ?e es))"
    using assms(1) by (simp add: vector_room_def libp2p_providerstore_new_def
        libp2p_utils_vector_new_def vec_total_def)
  from vec.add_all [OF this] obtain store where
    s: "chain (map vector_append (map ?e es)) libp2p_providerstore_new = Inr store"
    "vec_items store = map ?e es"
    by (auto simp: libp2p_providerstore_new_def libp2p_utils_vector_new_def)
  have "find_provider (map ?e es) hash = map_of es hash"
    by (induction es) auto
  then have "libp2p_providerstore_get has me store hash =
      (if has hash then Some (peer_id me) else map_of es hash)"
    using s(2) assms(2) by (simp add: libp2p_providerstore_get_def malloc_ok_def)
  then show ?thesis using s(1) m by metis
qed

theorem providerstore_first_provider_witness:
  "\<exists>store. chain [\<lambda>st. libp2p_providerstore_add st [1] [8], \<lambda>st. libp2p_providerstore_add st [1] [9]]
      libp2p_providerstore_new = Inr store \<and>
    libp2p_providerstore_get (\<lambda>h. False) libp2p_peer_new store [1] = Some [8]"
  using providerstore_first_provider [of "[([1], [8]), ([1], [9])]" libp2p_peer_new "\<lambda>h. False" "[1]"]
  by (simp add: libp2p_peer_new_def)

end
