(* ===== verification/Net_Protocol.thy ===== *)
theory Net_Protocol
  imports Ipfs_Prelude
begin

text \<open>
  The dispatch of incoming messages to the protocols that can handle them,
  \<open>libp2p/net/protocol.c\<close>, with \<open>strnstr\<close> of \<open>libp2p/os/utils.c\<close>, by which the handlers
  recognise their protocol.

  A handler is a pair of functions on a state of the program; what a call writes to the stream
  is part of its result.
\<close>

section \<open>Searching a string\<close>

text \<open>
  The offset of the first occurrence of \<open>needle\<close>, a string, in the first \<open>len\<close> bytes of
  \<open>haystack\<close>. A needle longer than \<open>len\<close> is cut to \<open>len\<close> bytes.
\<close>

definition strnstr :: "bytes \<Rightarrow> bytes \<Rightarrow> nat \<Rightarrow> nat option" where
  "strnstr haystack needle len =
     (let needle_len = min (strlen needle) len
      in if needle_len = 0 then Some 0
         else find (\<lambda>i. take needle_len (drop i haystack) = take needle_len needle)
                [0..<nat (c_int (int (len - needle_len)) + 1)])"

section \<open>Handlers\<close>

record stream_message =
  msg_data :: "bytes option"
  error_number :: int

record 's protocol_handler =
  CanHandle :: "stream_message \<Rightarrow> bool"
  HandleMessage :: "stream_message \<Rightarrow> 's \<Rightarrow> (int \<times> 's) result"

definition protocol_compare :: "stream_message \<Rightarrow> 's protocol_handler list option \<Rightarrow> 's protocol_handler option" where
  "protocol_compare msg handlers =
     (case handlers of None \<Rightarrow> None | Some hs \<Rightarrow> find (\<lambda>h. CanHandle h msg) hs)"

definition libp2p_protocol_get_handler :: "'s protocol_handler list option \<Rightarrow> bytes \<Rightarrow> 's protocol_handler option" where
  "libp2p_protocol_get_handler handlers protocol =
     protocol_compare \<lparr>msg_data = Some (c_string protocol), error_number = 0\<rparr> handlers"

definition libp2p_protocol_is_valid_protocol :: "stream_message \<Rightarrow> 's protocol_handler list option \<Rightarrow> bool" where
  "libp2p_protocol_is_valid_protocol msg handlers \<longleftrightarrow> protocol_compare msg handlers \<noteq> None"

text \<open>The newline is looked for behind the first byte.\<close>

definition appears_to_be_a_protocol :: "stream_message option \<Rightarrow> bool" where
  "appears_to_be_a_protocol msg =
     (case msg of
        None \<Rightarrow> False
      | Some m \<Rightarrow> (case msg_data m of None \<Rightarrow> False | Some d \<Rightarrow> length d \<ge> 2 \<and> 10 \<in> set (tl d)))"

definition na_message :: bytes where "na_message = [110, 97, 10]"

text \<open>The result, the message, what was written back, and the program's state.\<close>

definition libp2p_protocol_marshal ::
    "stream_message \<Rightarrow> 's protocol_handler list option \<Rightarrow> 's \<Rightarrow>
     (int \<times> stream_message \<times> bytes list \<times> 's) result" where
  "libp2p_protocol_marshal msg handlers s =
     (case protocol_compare msg handlers of
        None \<Rightarrow>
          Inr (- 1, msg\<lparr>error_number := 100\<rparr>,
            if appears_to_be_a_protocol (Some msg) then [na_message] else [], s)
      | Some h \<Rightarrow> bind_res (HandleMessage h msg s) (\<lambda>(r, s'). Inr (r, msg, [], s')))"

section \<open>Properties\<close>

lemma strnstr_zero_iff:
  assumes "len < 2 ^ 31" and "strlen needle \<noteq> 0" and "len \<noteq> 0"
  shows "strnstr haystack needle len = Some 0 \<longleftrightarrow>
    take (min (strlen needle) len) haystack = take (min (strlen needle) len) needle"
proof -
  let ?n = "min (strlen needle) len"
  have "c_int (int (len - ?n)) = int (len - ?n)" using assms(1) by (intro c_int_nat_small) linarith
  then have "nat (c_int (int (len - ?n)) + 1) = Suc (len - ?n)" by simp
  then have "strnstr haystack needle len =
      find (\<lambda>i. take ?n (drop i haystack) = take ?n needle) (0 # [1..<Suc (len - ?n)])"
    using assms(2,3) by (simp add: strnstr_def Let_def upt_conv_Cons)
  then show ?thesis by (auto simp: find_Some_iff nth_Cons split: nat.splits)
qed

text \<open>
  An incoming message goes to the first registered handler that can handle it, with that
  handler's answer. If there is none the error number is 100 and the answer -1, and a message
  with a newline behind its first byte is answered with \<open>na\<close>.
\<close>

theorem protocol_marshal_dispatches:
  "(\<forall>h \<in> set hs. \<not> CanHandle h msg) \<Longrightarrow> msg_data msg = Some d \<Longrightarrow>
     libp2p_protocol_marshal msg (Some hs) s =
       Inr (- 1, msg\<lparr>error_number := 100\<rparr>, if \<exists>i. 0 < i \<and> i < length d \<and> d ! i = 10 then [na_message] else [], s)"
  "i < length hs \<Longrightarrow> CanHandle (hs ! i) msg \<Longrightarrow> \<forall>j < i. \<not> CanHandle (hs ! j) msg \<Longrightarrow>
     libp2p_protocol_marshal msg (Some hs) s =
       bind_res (HandleMessage (hs ! i) msg s) (\<lambda>(r, s'). Inr (r, msg, [], s'))"
proof -
  assume no: "\<forall>h \<in> set hs. \<not> CanHandle h msg" and d: "msg_data msg = Some d"
  have "protocol_compare msg (Some hs) = None"
    using no by (auto simp: protocol_compare_def find_None_iff)
  moreover have "(length d \<ge> 2 \<and> 10 \<in> set (tl d)) \<longleftrightarrow> (\<exists>i. 0 < i \<and> i < length d \<and> d ! i = 10)"
    by (cases d) (force simp: in_set_conv_nth nth_Cons gr0_conv_Suc)+
  ultimately show "libp2p_protocol_marshal msg (Some hs) s =
       Inr (- 1, msg\<lparr>error_number := 100\<rparr>, if \<exists>i. 0 < i \<and> i < length d \<and> d ! i = 10 then [na_message] else [], s)"
    using d by (simp add: libp2p_protocol_marshal_def appears_to_be_a_protocol_def)
next
  assume "i < length hs" "CanHandle (hs ! i) msg" "\<forall>j < i. \<not> CanHandle (hs ! j) msg"
  then have "protocol_compare msg (Some hs) = Some (hs ! i)"
    by (auto simp: protocol_compare_def find_Some_iff)
  then show "libp2p_protocol_marshal msg (Some hs) s =
       bind_res (HandleMessage (hs ! i) msg s) (\<lambda>(r, s'). Inr (r, msg, [], s'))"
    by (simp add: libp2p_protocol_marshal_def)
qed

theorem protocol_marshal_dispatches_witness:
  "libp2p_protocol_marshal \<lparr>msg_data = Some [10, 10], error_number = 0\<rparr>
     (Some [\<lparr>CanHandle = \<lambda>m. False, HandleMessage = \<lambda>m s. Inr (1, s)\<rparr>]) (0 :: nat) =
   Inr (- 1, \<lparr>msg_data = Some [10, 10], error_number = 100\<rparr>, [na_message], 0)"
  "libp2p_protocol_marshal \<lparr>msg_data = None, error_number = 0\<rparr>
     (Some [\<lparr>CanHandle = \<lambda>m. False, HandleMessage = \<lambda>m s. Inr (1, s)\<rparr>,
            \<lparr>CanHandle = \<lambda>m. True, HandleMessage = \<lambda>m s. Inr (2, s + 1)\<rparr>]) (0 :: nat) =
   Inr (2, \<lparr>msg_data = None, error_number = 0\<rparr>, [], 1)"
  using protocol_marshal_dispatches(1) [of
      "[\<lparr>CanHandle = \<lambda>m. False, HandleMessage = \<lambda>m s. Inr (1, s)\<rparr>]"
      "\<lparr>msg_data = Some [10, 10], error_number = 0\<rparr>" "[10, 10]" "0 :: nat"]
    protocol_marshal_dispatches(2) [of 1
      "[\<lparr>CanHandle = \<lambda>m. False, HandleMessage = \<lambda>m s. Inr (1, s)\<rparr>,
        \<lparr>CanHandle = \<lambda>m. True, HandleMessage = \<lambda>m s. Inr (2, s + 1)\<rparr>]"
      "\<lparr>msg_data = None, error_number = 0\<rparr>" "0 :: nat"]
  by (auto intro: exI [of _ "1 :: nat"])

end
