(* ===== verification/Bitswap_Network.thy ===== *)
theory Bitswap_Network
  imports Peer_Request_Queue Wantlist_Queue Peerstore Net_Protocol
begin

text \<open>
  What a bitswap node does with the messages it sends and receives,
  \<open>libipfs/exchange/bitswap/network.c\<close>, and the exchange itself, \<open>bitswap.c\<close>.

  The node's state has its want list, the queue of peer requests, the known peers and the block
  store, which is of any type: \<open>put\<close> is the block store's \<open>Put\<close> followed by the entry in the
  data store, \<open>get\<close> its \<open>Get\<close>. The peers of the requests are copies of the known peers.
\<close>

record 'b bitswap_node =
  local_wantlist :: wantlist_queue
  request_queue :: peer_request_queue
  known_peers :: peerstore
  block_store :: 'b

section \<open>Sending\<close>

text \<open>\<open>/ipfs/bitswap/1.1.0\<close> and a newline.\<close>

definition bitswap_header :: bytes where
  "bitswap_header = map of_char ''/ipfs/bitswap/1.1.0'' @ [10]"

text \<open>
  The result, the peer and what was given to the stream's \<open>write\<close>, whose number of bytes written
  is \<open>write\<close>'s value. \<open>dialer\<close> connects a peer.
\<close>

definition ipfs_bitswap_network_send_message ::
    "(libp2p_peer \<Rightarrow> nat \<Rightarrow> int \<times> libp2p_peer) \<Rightarrow> (session_context \<Rightarrow> bytes \<Rightarrow> int) \<Rightarrow>
     libp2p_peer \<Rightarrow> bitswap_message \<Rightarrow> (bool \<times> libp2p_peer \<times> bytes option) result" where
  "ipfs_bitswap_network_send_message dialer write p m =
     bind_res (libp2p_peer_id_to_string p) (\<lambda>name.
     bind_res
       (if connection_type p \<noteq> CONNECTION_TYPE_CONNECTED \<or> session p = None
        then libp2p_peer_connect dialer p 10 else Inr (1, p)) (\<lambda>(r, p').
     if connection_type p' \<noteq> CONNECTION_TYPE_CONNECTED then Inr (False, p', None)
     else
       bind_res (ipfs_bitswap_message_protobuf_encode_size (Some m)) (\<lambda>n.
       if \<not> malloc_ok (n + 20) then Inr (False, p', None)
       else
         case ipfs_bitswap_message_protobuf_encode (Some m) n of
           Inl Failure \<Rightarrow> Inr (False, p', None)
         | Inl e \<Rightarrow> Inl e
         | Inr bs \<Rightarrow>
             (case session p' of
                None \<Rightarrow> Inl Undefined
              | Some s \<Rightarrow>
                  if default_stream s = None then Inl Undefined
                  else Inr (0 < write s (bitswap_header @ bs), p', Some (bitswap_header @ bs))))))"

section \<open>Receiving\<close>

text \<open>
  The loop over the CIDs moves the pointer to the vector instead of the index: only the first
  entry is ever looked at, and behind it the memory after the vector is read as another one.
\<close>

definition ipfs_bitswap_network_adjust_cid_queue ::
    "cid_entry list option \<Rightarrow> cid option \<Rightarrow> bool \<Rightarrow> (bool \<times> cid_entry list option) result" where
  "ipfs_bitswap_network_adjust_cid_queue collection c cancel =
     (case (collection, c) of
        (Some (e # es), Some i) \<Rightarrow>
          bind_res (ipfs_cid_compare (ce_cid e) (Some i)) (\<lambda>r.
          if r = 0 then Inr (True, Some (if cancel then es else e # es)) else Inl Undefined)
      | (Some [], Some i) \<Rightarrow>
          Inr (False, Some (if cancel then []
            else [ipfs_bitswap_peer_request_cid_entry_new\<lparr>ce_cid := Some i, ce_cancel := False\<rparr>]))
      | _ \<Rightarrow> Inr (False, collection))"

text \<open>\<open>HasBlock\<close>: the block is stored and given to the want list entry of its CID.\<close>

definition ipfs_bitswap_has_block ::
    "(ipfs_block \<Rightarrow> 'b \<Rightarrow> 'b) \<Rightarrow> ipfs_block option \<Rightarrow> 'b bitswap_node \<Rightarrow> 'b bitswap_node result" where
  "ipfs_bitswap_has_block put b n =
     (case b of
        None \<Rightarrow> Inl Undefined
      | Some b \<Rightarrow>
          (case block_cid b of
             None \<Rightarrow> Inl Undefined
           | Some c \<Rightarrow>
               let n' = n\<lparr>block_store := put b (block_store n)\<rparr> in
               bind_res (ipfs_bitswap_wantlist_queue_find (local_wantlist n') c) (\<lambda>found.
               case (found, wl_queue (local_wantlist n')) of
                 (Some i, Some v) \<Rightarrow>
                   bind_res (want_entry_at v i) (\<lambda>e.
                   Inr (n'\<lparr>local_wantlist :=
                     (local_wantlist n')\<lparr>wl_queue := Some (put_want_entry v i (e\<lparr>we_block := Some b\<rparr>))\<rparr>\<rparr>))
               | _ \<Rightarrow> Inr n')))"

fun receive_blocks ::
    "(ipfs_block \<Rightarrow> 'b \<Rightarrow> 'b) \<Rightarrow> ipfs_block list \<Rightarrow> 'b bitswap_node \<Rightarrow> 'b bitswap_node result" where
  "receive_blocks put [] n = Inr n"
| "receive_blocks put (b # bs) n =
     bind_res
       (case ipfs_block_copy b of
          Inl Failure \<Rightarrow> ipfs_bitswap_has_block put None n
        | Inl e \<Rightarrow> Inl e
        | Inr c \<Rightarrow> ipfs_bitswap_has_block put (Some c) n) (\<lambda>n'.
     receive_blocks put bs n')"

text \<open>The want list of a message: whether all its CIDs were good, and what the peer wants then.\<close>

fun receive_wants :: "wantlist_entry option list \<Rightarrow> cid_entry list \<Rightarrow> (bool \<times> cid_entry list) run" where
  "receive_wants [] cs = Some (Inr (True, cs))"
| "receive_wants (None # es) cs = Some (Inl Undefined)"
| "receive_wants (Some e # es) cs =
     (case (entry_block e, entry_cancel e) of
        (Some d, Some x) \<Rightarrow>
          (case ipfs_cid_protobuf_decode d of
             None \<Rightarrow> None
           | Some (Inl Failure) \<Rightarrow> Some (Inr (False, cs))
           | Some (Inl f) \<Rightarrow> Some (Inl f)
           | Some (Inr None) \<Rightarrow> Some (Inl Undefined)
           | Some (Inr (Some c)) \<Rightarrow>
               if cid_hash c = [] then Some (Inr (False, cs))
               else
                 bind_run (Some (ipfs_bitswap_network_adjust_cid_queue (Some cs) (Some c) (x \<noteq> 0))) (\<lambda>(r, cs').
                 receive_wants es (vector_list cs')))
      | _ \<Rightarrow> Some (Inl Undefined))"

definition strip_header :: "bytes \<Rightarrow> bytes option" where
  "strip_header bs = (if 10 \<in> set bs then Some (tl (dropWhile (\<lambda>b. b \<noteq> 10) bs)) else None)"

definition receive_wantlist ::
    "bytes option \<Rightarrow> wantlist_entry option list \<Rightarrow> 'b bitswap_node \<Rightarrow> (bool \<times> 'b bitswap_node) run" where
  "receive_wantlist remote es n =
     (if es = [] then Some (Inr (True, n))
      else
        case remote of
          None \<Rightarrow> Some (Inr (False, n))
        | Some i \<Rightarrow>
            bind_run (Some (libp2p_peerstore_get_or_add_peer_by_id (known_peers n) (c_string i))) (\<lambda>(p, ps).
            case p of
              None \<Rightarrow> Some (Inr (False, n\<lparr>known_peers := ps\<rparr>))
            | Some p \<Rightarrow>
                bind_run (ipfs_peer_request_queue_find_peer (request_queue n) (Some (ps ! p))) (\<lambda>(a, q).
                bind_run (Some (load (request_heap q) (Some a))) (\<lambda>r.
                bind_run (receive_wants es (cids_they_want r)) (\<lambda>(ok, cs).
                Some (Inr (ok, n\<lparr>known_peers := ps, request_queue := store_request a (r\<lparr>cids_they_want := cs\<rparr>) q\<rparr>)))))))"

text \<open>
  \<open>remote\<close> is the id of the peer the connection is to, if it is known. Reading continues behind
  the first newline; decoding no bytes is a success that leaves a null message, as it does for a
  CID, and both are followed.
\<close>

definition ipfs_bitswap_network_handle_message ::
    "(ipfs_block \<Rightarrow> 'b \<Rightarrow> 'b) \<Rightarrow> bytes option \<Rightarrow> bytes \<Rightarrow> 'b bitswap_node \<Rightarrow> (bool \<times> 'b bitswap_node) run" where
  "ipfs_bitswap_network_handle_message put remote bs n =
     (case strip_header bs of
        None \<Rightarrow> Some (Inr (False, n))
      | Some d \<Rightarrow>
          (case ipfs_bitswap_message_protobuf_decode d of
             None \<Rightarrow> None
           | Some (Inl Failure) \<Rightarrow> Some (Inr (False, n))
           | Some (Inl e) \<Rightarrow> Some (Inl e)
           | Some (Inr None) \<Rightarrow> Some (Inl Undefined)
           | Some (Inr (Some m)) \<Rightarrow>
               bind_run (Some (receive_blocks put (vector_list (payload m)) n)) (\<lambda>n'.
               receive_wantlist remote
                 (case wantlist m of None \<Rightarrow> [] | Some l \<Rightarrow> vector_list (entries l)) n')))"

section \<open>The protocol handler\<close>

definition ipfs_bitswap_can_handle :: "stream_message option \<Rightarrow> bool" where
  "ipfs_bitswap_can_handle msg =
     (case msg of
        None \<Rightarrow> False
      | Some m \<Rightarrow>
          (case msg_data m of
             None \<Rightarrow> False
           | Some d \<Rightarrow> d \<noteq> [] \<and> strnstr d (map of_char ''/ipfs/bitswap'') (length d) = Some 0))"

definition ipfs_bitswap_shutdown_handler :: int where
  "ipfs_bitswap_shutdown_handler = 1"

text \<open>
  \<open>session\<close> is what \<open>libp2p_net_connection_get_session_context\<close> gives for the stream: none, or the
  remote peer's id if it has one.
\<close>

definition ipfs_bitswap_handle_message ::
    "(ipfs_block \<Rightarrow> 'b \<Rightarrow> 'b) \<Rightarrow> bytes option option \<Rightarrow> stream_message \<Rightarrow> 'b bitswap_node \<Rightarrow>
     (int \<times> 'b bitswap_node) run" where
  "ipfs_bitswap_handle_message put session_context msg n =
     (case session_context of
        None \<Rightarrow> Some (Inr (- 1, n))
      | Some remote \<Rightarrow>
          bind_run (ipfs_bitswap_network_handle_message put remote
            (case msg_data msg of None \<Rightarrow> [] | Some d \<Rightarrow> d) n) (\<lambda>(ok, n').
          Some (Inr (if ok then 1 else - 1, n'))))"

section \<open>The exchange\<close>

text \<open>
  \<open>GetBlock\<close> looks into the want list once a second. \<open>env t\<close> is what the other threads do to it
  in second \<open>t\<close>. \<open>left\<close> is what remains of the 60 seconds.
\<close>

fun wait_for_block ::
    "nat \<Rightarrow> nat \<Rightarrow> (nat \<Rightarrow> wantlist_queue \<Rightarrow> wantlist_queue) \<Rightarrow> nat \<Rightarrow> cid \<Rightarrow> wantlist_queue \<Rightarrow>
     (ipfs_block option \<times> wantlist_queue) result" where
  "wait_for_block 0 t env i c q = Inr (None, q)"
| "wait_for_block (Suc left) t env i c q =
     (case wl_queue q of
        None \<Rightarrow> Inl Undefined
      | Some v \<Rightarrow>
          bind_res (want_entry_at v i) (\<lambda>e.
          case we_block e of
            Some b \<Rightarrow>
              (case ipfs_block_copy b of
                 Inl Undefined \<Rightarrow> Inl Undefined
               | r \<Rightarrow>
                   bind_res (ipfs_bitswap_want_manager_remove (Some q) c) (\<lambda>(x, q').
                   Inr (case r of Inl f \<Rightarrow> None | Inr d \<Rightarrow> Some d, the q')))
          | None \<Rightarrow>
              if left = 0 then
                bind_res (ipfs_bitswap_want_manager_remove (Some q) c) (\<lambda>(x, q').
                Inr (None, the q'))
              else wait_for_block left (t + 1) env i c (env t q)))"

definition ipfs_bitswap_get_block ::
    "('b \<Rightarrow> cid \<Rightarrow> ipfs_block option) \<Rightarrow> (nat \<Rightarrow> wantlist_queue \<Rightarrow> wantlist_queue) \<Rightarrow> cid \<Rightarrow> 'b bitswap_node \<Rightarrow>
     (ipfs_block option \<times> 'b bitswap_node) result" where
  "ipfs_bitswap_get_block get env c n =
     (case get (block_store n) c of
        Some b \<Rightarrow> Inr (Some b, n)
      | None \<Rightarrow>
          bind_res (ipfs_bitswap_want_manager_add (Some (local_wantlist n)) c ipfs_bitswap_wantlist_session_new) (\<lambda>(i, q).
          case (i, q) of
            (Some i, Some q) \<Rightarrow>
              bind_res (wait_for_block 60 0 env i c q) (\<lambda>(b, q').
              Inr (b, n\<lparr>local_wantlist := q'\<rparr>))
          | _ \<Rightarrow> Inr (None, n)))"

text \<open>\<open>GetBlockAsync\<close> reports success without waiting, and keeps a block it finds to itself.\<close>

definition ipfs_bitswap_get_block_async ::
    "('b \<Rightarrow> cid \<Rightarrow> ipfs_block option) \<Rightarrow> cid \<Rightarrow> 'b bitswap_node \<Rightarrow> (bool \<times> 'b bitswap_node) result" where
  "ipfs_bitswap_get_block_async get c n =
     (case get (block_store n) c of
        Some b \<Rightarrow> Inr (True, n)
      | None \<Rightarrow>
          bind_res (ipfs_bitswap_want_manager_add (Some (local_wantlist n)) c ipfs_bitswap_wantlist_session_new) (\<lambda>(i, q).
          Inr (True, n\<lparr>local_wantlist := the q\<rparr>)))"

section \<open>Properties of the network\<close>

lemma strlen_bitswap: "strlen (map of_char ''/ipfs/bitswap'') = 13"
  by (simp add: strlen_def c_string_def)

lemma header_prefix: "take 13 (bitswap_header @ bs) = map of_char ''/ipfs/bitswap''"
  by (simp add: bitswap_header_def)

lemma strip_header_header: "strip_header (bitswap_header @ bs) = Some bs"
  by (simp add: strip_header_def bitswap_header_def)

lemma can_handle_header:
  assumes "length bs < 2 ^ 31 - 20"
  shows "ipfs_bitswap_can_handle (Some \<lparr>msg_data = Some (bitswap_header @ bs), error_number = e\<rparr>)"
proof -
  have n: "length (bitswap_header @ bs) = 20 + length bs" by (simp add: bitswap_header_def)
  then have "min 13 (length (bitswap_header @ bs)) = 13" by simp
  then have "strnstr (bitswap_header @ bs) (map of_char ''/ipfs/bitswap'') (length (bitswap_header @ bs)) = Some 0"
    using strnstr_zero_iff [of "length (bitswap_header @ bs)" "map of_char ''/ipfs/bitswap''" "bitswap_header @ bs"]
      assms n header_prefix [of bs] by (simp only: strlen_bitswap) simp
  then show ?thesis using n by (auto simp: ipfs_bitswap_can_handle_def)
qed


definition linked_peer :: libp2p_peer where
  "linked_peer = libp2p_peer_new\<lparr>peer_id := [1], connection_type := CONNECTION_TYPE_CONNECTED,
     session := Some \<lparr>session_number = 0, default_stream = Some 0\<rparr>\<rparr>"

lemma sample_message_wf: "message_wf sample_message" "message_size sample_message < 2 ^ 31 - 20"
  "message_norm sample_message = sample_message"
  by (simp_all add: message_wf_def sample_message_def message_size_def wantlist_size_def
      entry_size_def entry_wf_def ipfs_blocks_block_protobuf_encode_size_def full_entry_def
      ipfs_cid_protobuf_encode_size_def vector_list_def message_norm_def wantlist_norm_def vector_norm_def
      block_norm_def)


text \<open>
  A message that is nothing but the protocol header is taken for a good one with no content
  and its null message is followed. The same happens in a node that has asked for no block yet
  when a peer sends it one: its want list has no vector.
\<close>

theorem empty_message_faults:
  "ipfs_bitswap_can_handle (Some \<lparr>msg_data = Some bitswap_header, error_number = 0\<rparr>) \<and>
   ipfs_bitswap_network_handle_message put remote bitswap_header n = Some (Inl Undefined) \<and>
   (wl_queue (local_wantlist n) = None \<longrightarrow> ipfs_bitswap_has_block put (Some b) n = Inl Undefined)"
  using can_handle_header [of "[]"] strip_header_header [of "[]"]
  by (auto simp: ipfs_bitswap_network_handle_message_def ipfs_bitswap_message_protobuf_decode_def
      ipfs_bitswap_has_block_def ipfs_bitswap_wantlist_queue_find_def split: option.splits)

theorem empty_message_faults_witness:
  "ipfs_bitswap_has_block (\<lambda>b s. b # s) (Some \<lparr>block_cid = None, block_data = [1]\<rparr>)
     \<lparr>local_wantlist = ipfs_bitswap_wantlist_queue_new, request_queue = ipfs_bitswap_peer_request_queue_new,
      known_peers = [], block_store = []\<rparr> = Inl Undefined"
  using empty_message_faults [of "\<lambda>b s. b # s" None
      "\<lparr>local_wantlist = ipfs_bitswap_wantlist_queue_new, request_queue = ipfs_bitswap_peer_request_queue_new,
        known_peers = [], block_store = []\<rparr>" "\<lparr>block_cid = None, block_data = [1]\<rparr>"]
  by (simp add: ipfs_bitswap_wantlist_queue_new_def)

text \<open>A CID that is sent and read back unchanged, and the want list entry that asks for it.\<close>

definition cid_sent_ok :: "cid \<Rightarrow> bool" where
  "cid_sent_ok c \<longleftrightarrow> cid_ok c \<and> cid_wf c \<and> cid_narrow c = c \<and> cid_hash c \<noteq> [] \<and>
     ipfs_cid_protobuf_encode_size (Some c) < 2 ^ 31"

definition want_of :: "cid \<Rightarrow> bool \<Rightarrow> wantlist_entry option" where
  "want_of c cancel = request_of (ipfs_bitswap_peer_request_cid_entry_new\<lparr>ce_cid := Some c, ce_cancel := cancel\<rparr>)"

definition wanted_cid :: "cid \<Rightarrow> cid_entry" where
  "wanted_cid c = ipfs_bitswap_peer_request_cid_entry_new\<lparr>ce_cid := Some c\<rparr>"

lemma decode_sent_cid:
  assumes "cid_sent_ok c"
  shows "ipfs_cid_protobuf_decode (wire (cid_fields c)) = Some (Inr (Some c))"
proof -
  have "length (wire (cid_opt_fields (Some c))) < 2 ^ 31"
    using assms cid_codec.sz_enough [of "Some c"] by (simp add: cid_sent_ok_def)
  then show ?thesis using assms cid_decode_wire [of c] by (simp add: cid_sent_ok_def cid_opt_fields_def)
qed

lemma receive_want:
  assumes "cid_sent_ok c"
  shows "receive_wants (want_of c x # es) cs =
    bind_run (Some (ipfs_bitswap_network_adjust_cid_queue (Some cs) (Some c) x)) (\<lambda>(r, cs').
    receive_wants es (vector_list cs'))"
  using assms decode_sent_cid [OF assms]
  by (cases x) (simp_all add: want_of_def request_of_def full_entry_def cid_opt_fields_def cid_sent_ok_def)

lemma adjust_cid_queue_first:
  assumes "cid_ok c" and "cid_ok d"
  shows "ipfs_bitswap_network_adjust_cid_queue (Some (wanted_cid c # cs)) (Some d) x =
    (if c = d then Inr (True, Some (if x then cs else wanted_cid c # cs)) else Inl Undefined)"
  using cid_compare_equal [OF assms]
  by (auto simp: ipfs_bitswap_network_adjust_cid_queue_def wanted_cid_def)

lemma adjust_cid_queue_empty:
  "ipfs_bitswap_network_adjust_cid_queue (Some []) (Some c) x =
    Inr (False, Some (if x then [] else [wanted_cid c]))"
  by (simp add: ipfs_bitswap_network_adjust_cid_queue_def wanted_cid_def ipfs_bitswap_peer_request_cid_entry_new_def)

text \<open>
  What a peer wants is kept right only while it wants one block: the first request is
  put into the empty list, repeated without effect and taken out when it is cancelled, but a
  request, or a cancellation, for another CID than the first in the list is compared with what
  lies behind the vector in memory.
\<close>

theorem second_want_overruns:
  assumes "cid_sent_ok c" and "cid_sent_ok d" and "c \<noteq> d"
  shows "receive_wants [want_of c False, want_of c False] [] = Some (Inr (True, [wanted_cid c])) \<and>
    receive_wants [want_of c False, want_of c True] [] = Some (Inr (True, [])) \<and>
    receive_wants [want_of c False, want_of d x] [] = Some (Inl Undefined)"
  using assms
  by (simp add: receive_want adjust_cid_queue_empty vector_list_def) (simp add: cid_sent_ok_def adjust_cid_queue_first)

theorem second_want_overruns_witness:
  "receive_wants [want_of \<lparr>cid_version = 0, cid_codec = 0x70, cid_hash = [1]\<rparr> False,
     want_of \<lparr>cid_version = 0, cid_codec = 0x70, cid_hash = [2]\<rparr> False] [] = Some (Inl Undefined)"
proof -
  have "cid_sent_ok \<lparr>cid_version = 0, cid_codec = 0x70, cid_hash = [h]\<rparr>" for h
    by (simp add: cid_sent_ok_def cid_ok_def cid_wf_def cid_narrow_def c_char_def ipfs_cid_protobuf_encode_size_def)
  then show ?thesis using second_want_overruns by simp
qed

section \<open>Properties of the exchange\<close>

text \<open>The want list as the other threads have left it at the \<open>k\<close>-th look.\<close>

fun want_list_at :: "(nat \<Rightarrow> wantlist_queue \<Rightarrow> wantlist_queue) \<Rightarrow> nat \<Rightarrow> wantlist_queue \<Rightarrow> nat \<Rightarrow> wantlist_queue" where
  "want_list_at env t q 0 = q"
| "want_list_at env t q (Suc k) = want_list_at env (t + 1) (env t q) k"

definition block_at :: "nat \<Rightarrow> wantlist_queue \<Rightarrow> ipfs_block option" where
  "block_at i q =
     (case wl_queue q of
        None \<Rightarrow> None
      | Some v \<Rightarrow> (case want_entry_at v i of Inl f \<Rightarrow> None | Inr e \<Rightarrow> we_block e))"

text \<open>
  The other threads keep the want list in order and the entry at \<open>i\<close> the one for the CID, and
  put only blocks there that can be copied.
\<close>

definition keeps_want :: "nat \<Rightarrow> cid \<Rightarrow> (nat \<Rightarrow> wantlist_queue \<Rightarrow> wantlist_queue) \<Rightarrow> bool" where
  "keeps_want i c env \<longleftrightarrow>
     (\<forall>t q es. queue_wf 0 q es \<longrightarrow> i < length es \<longrightarrow> we_cid (es ! i) = Some c \<longrightarrow>
        (\<forall>b. we_block (es ! i) = Some b \<longrightarrow> ipfs_block_copy b = Inr b) \<longrightarrow>
        (\<exists>es'. queue_wf 0 (env t q) es' \<and> i < length es' \<and> we_cid (es' ! i) = Some c \<and>
          (\<forall>b. we_block (es' ! i) = Some b \<longrightarrow> ipfs_block_copy b = Inr b)))"

lemma find_map_Suc: "find P (map Suc xs) = map_option Suc (find (\<lambda>k. P (Suc k)) xs)"
  by (induction xs) auto

lemma wait_for_block_spec:
  assumes "keeps_want i c env" and "queue_wf 0 q es" and "i < length es" and "we_cid (es ! i) = Some c"
    and "\<forall>b. we_block (es ! i) = Some b \<longrightarrow> ipfs_block_copy b = Inr b"
  shows "\<exists>q'. wait_for_block left t env i c q =
    Inr (case find (\<lambda>k. block_at i (want_list_at env t q k) \<noteq> None) [0..<left] of
           None \<Rightarrow> None | Some k \<Rightarrow> block_at i (want_list_at env t q k), q')"
  using assms(2-)
proof (induction left arbitrary: t q es)
  case (Suc left)
  obtain v where v: "wl_queue q = Some v" "want_entry_at v i = Inr (es ! i)"
    using wantlist_find_entry [OF Suc.prems(1-3)] by blast
  have block: "block_at i q = we_block (es ! i)" using v by (simp add: block_at_def)
  obtain q1 where remove: "ipfs_bitswap_want_manager_remove (Some q) c = Inr (True, Some q1)"
    using wantlist_remove_entries [OF Suc.prems(1-3)]
    by (auto simp: ipfs_bitswap_want_manager_remove_def)
  have upt: "[0..<Suc left] = 0 # map Suc [0..<left]" by (simp add: upt_conv_Cons map_Suc_upt)
  show ?case
  proof (cases "we_block (es ! i)")
    case (Some b)
    then show ?thesis using v block remove Suc.prems(4) upt by simp
  next
    case None
    have later: "find (\<lambda>k. block_at i (want_list_at env t q k) \<noteq> None) [0..<Suc left] =
        map_option Suc (find (\<lambda>k. block_at i (want_list_at env (t + 1) (env t q) k) \<noteq> None) [0..<left])"
      using None block unfolding upt by (simp add: find_map_Suc)
    show ?thesis
    proof (cases "left = 0")
      case True
      then show ?thesis using v None block remove by simp
    next
      case False
      obtain es' where "queue_wf 0 (env t q) es'" "i < length es'" "we_cid (es' ! i) = Some c"
        "\<forall>b. we_block (es' ! i) = Some b \<longrightarrow> ipfs_block_copy b = Inr b"
        using assms(1) Suc.prems unfolding keeps_want_def by meson
      from Suc.IH [OF this, of "t + 1"] show ?thesis
        unfolding later using v None False by (auto split: option.splits)
    qed
  qed
qed simp

text \<open>
  C17: asking for a block the node does not have returns in every case: the block is the one
  found at the first of sixty looks, a second apart, at which the want list entry of the CID has
  one; if there is none, no block is returned.
\<close>

theorem get_block_waits:
  assumes "get (block_store n) c = None" and "queue_wf (Suc k) (local_wantlist n) es" and "cid_ok c" and "k < 2 ^ 29"
    and "\<forall>e \<in> set es. \<forall>b. we_block e = Some b \<longrightarrow> ipfs_block_copy b = Inr b"
    and "\<forall>i. keeps_want i c env"
  shows "\<exists>i q n'. ipfs_bitswap_want_manager_add (Some (local_wantlist n)) c ipfs_bitswap_wantlist_session_new =
      Inr (Some i, Some q) \<and>
    ipfs_bitswap_get_block get env c n =
      Inr (case find (\<lambda>t. block_at i (want_list_at env 0 q t) \<noteq> None) [0..<60] of
             None \<Rightarrow> None | Some t \<Rightarrow> block_at i (want_list_at env 0 q t), n')"
proof -
  obtain i q es' where q: "ipfs_bitswap_want_manager_add (Some (local_wantlist n)) c ipfs_bitswap_wantlist_session_new =
      Inr (Some i, Some q)" "queue_wf k q es'" "i < length es'" "we_cid (es' ! i) = Some c"
    "we_block (es' ! i) = None \<or> we_block (es' ! i) \<in> we_block ` set es"
    using wantlist_add_entries [OF assms(2-4), of ipfs_bitswap_wantlist_session_new]
    by (auto simp: ipfs_bitswap_want_manager_add_def)
  have wf: "queue_wf 0 q es'"
    using q(2) vector_room_le [of _ k 0] want_ok_le [of k _ 0] by (auto simp: queue_wf_def)
  have "\<forall>b. we_block (es' ! i) = Some b \<longrightarrow> ipfs_block_copy b = Inr b"
    using q(5) assms(5) by auto
  then obtain q' where "wait_for_block 60 0 env i c q =
      Inr (case find (\<lambda>t. block_at i (want_list_at env 0 q t) \<noteq> None) [0..<60] of
             None \<Rightarrow> None | Some t \<Rightarrow> block_at i (want_list_at env 0 q t), q')"
    using wait_for_block_spec [OF _ wf q(3,4), of env] assms(6) by blast
  then have "ipfs_bitswap_get_block get env c n =
      Inr (case find (\<lambda>t. block_at i (want_list_at env 0 q t) \<noteq> None) [0..<60] of
             None \<Rightarrow> None | Some t \<Rightarrow> block_at i (want_list_at env 0 q t), n\<lparr>local_wantlist := q'\<rparr>)"
    using assms(1) q(1) by (simp add: ipfs_bitswap_get_block_def)
  then show ?thesis using q(1) by blast
qed

theorem get_block_waits_witness:
  "\<exists>r n'. ipfs_bitswap_get_block (\<lambda>s c. None) (\<lambda>t q. q) \<lparr>cid_version = 0, cid_codec = 0x70, cid_hash = [1]\<rparr>
     \<lparr>local_wantlist = ipfs_bitswap_wantlist_queue_new, request_queue = ipfs_bitswap_peer_request_queue_new,
      known_peers = [], block_store = ()\<rparr> = Inr (r, n')"
proof -
  have "\<forall>i. keeps_want i c (\<lambda>t q. q)" for c
    unfolding keeps_want_def by blast
  moreover have "queue_wf 5 ipfs_bitswap_wantlist_queue_new []"
    by (simp add: queue_wf_def queue_entries_def ipfs_bitswap_wantlist_queue_new_def)
  moreover have "cid_ok \<lparr>cid_version = 0, cid_codec = 0x70, cid_hash = [1]\<rparr>" by (simp add: cid_ok_def)
  ultimately show ?thesis
    using get_block_waits [of "\<lambda>s c. None" "\<lparr>local_wantlist = ipfs_bitswap_wantlist_queue_new,
        request_queue = ipfs_bitswap_peer_request_queue_new, known_peers = [], block_store = ()\<rparr>"
        "\<lparr>cid_version = 0, cid_codec = 0x70, cid_hash = [1]\<rparr>" 4 "[]" "\<lambda>t q. q"] by auto
qed

end
