(* ===== verification/Bitswap_Engine.thy ===== *)
theory Bitswap_Engine
  imports Bitswap_Network
begin

text \<open>
  The two threads of the bitswap engine, \<open>libipfs/exchange/bitswap/engine.c\<close>, over the queues:
  the processing of a wanted block of \<open>wantlist_queue.c\<close>, which asks the providers of a CID, and
  the thread that goes round the known peers, reads what they sent and sends what they are to
  get. The loop of the want list thread is in \<open>Wantlist_Queue\<close>.

  The network is a set of arguments: \<open>find_providers\<close> is the router, \<open>try_lock\<close>, \<open>peek\<close> and \<open>read\<close>
  a session's stream, \<open>marshal\<close> the dispatch of a message to its protocol, \<open>connect\<close> and \<open>send\<close>
  those of \<open>Peer_Request_Queue\<close>.
\<close>

section \<open>Processing a wanted block\<close>

definition ipfs_bitswap_wantlist_get_block_locally ::
    "(cid option \<Rightarrow> ipfs_block option) \<Rightarrow> cid option \<Rightarrow> ipfs_block option" where
  "ipfs_bitswap_wantlist_get_block_locally get c = get c"

text \<open>Every provider's request gets an entry for the CID and is processed at once.\<close>

fun ask_providers ::
    "(peer_request \<Rightarrow> (bool \<times> peer_request) result) \<Rightarrow> cid \<Rightarrow> libp2p_peer list \<Rightarrow>
     peer_request_queue \<Rightarrow> peer_request_queue run" where
  "ask_providers process c [] q = Some (Inr q)"
| "ask_providers process c (p # ps) q =
     bind_run (ipfs_peer_request_queue_find_peer q (Some p)) (\<lambda>(a, q1).
     bind_run (Some (load (request_heap q1) (Some a))) (\<lambda>r.
     let e = ipfs_bitswap_peer_request_cid_entry_new
               \<lparr>ce_cid := (case ipfs_cid_copy c of Inl f \<Rightarrow> None | Inr d \<Rightarrow> Some d)\<rparr>
     in bind_run (Some (process (r\<lparr>cids_we_want := cids_we_want r @ [e]\<rparr>))) (\<lambda>(done, r').
        ask_providers process c ps (store_request a r' q1))))"

definition ipfs_bitswap_wantlist_get_block_remote ::
    "(bytes \<Rightarrow> libp2p_peer list option) \<Rightarrow> (peer_request \<Rightarrow> (bool \<times> peer_request) result) \<Rightarrow>
     cid \<Rightarrow> peer_request_queue \<Rightarrow> (bool \<times> peer_request_queue) run" where
  "ipfs_bitswap_wantlist_get_block_remote find_providers process c q =
     (case find_providers (cid_hash c) of
        None \<Rightarrow> Some (Inr (False, q))
      | Some ps \<Rightarrow> bind_run (ask_providers process c ps q) (\<lambda>q'. Some (Inr (True, q'))))"

text \<open>The block goes to the request of every remote session.\<close>

fun fill_sessions ::
    "wantlist_session option list \<Rightarrow> ipfs_block \<Rightarrow> peer_request_queue \<Rightarrow> peer_request_queue run" where
  "fill_sessions [] b q = Some (Inr q)"
| "fill_sessions (None # ss) b q = Some (Inl Undefined)"
| "fill_sessions (Some s # ss) b q =
     (if ws_type s = WANTLIST_SESSION_TYPE_LOCAL then fill_sessions ss b q
      else
        bind_run (ipfs_bitswap_peer_request_queue_fill q (ws_context s) b) (\<lambda>(r, q').
        fill_sessions ss b q'))"

text \<open>The result is 0 on every path.\<close>

definition ipfs_bitswap_wantlist_process_entry ::
    "(cid option \<Rightarrow> ipfs_block option) \<Rightarrow> (bytes \<Rightarrow> libp2p_peer list option) \<Rightarrow>
     (peer_request \<Rightarrow> (bool \<times> peer_request) result) \<Rightarrow> want_entry \<Rightarrow> peer_request_queue \<Rightarrow>
     (int \<times> want_entry \<times> peer_request_queue) run" where
  "ipfs_bitswap_wantlist_process_entry get find_providers process e q =
     (let local = ipfs_bitswap_wantlist_local_request (we_sessions e);
          found = ipfs_bitswap_wantlist_get_block_locally get (we_cid e);
          have = found \<noteq> None;
          e1 = (if have then e\<lparr>we_block := found\<rparr> else e)
      in if \<not> local \<and> \<not> have then Some (Inr (0, e1, q))
         else
           bind_run
             (if local \<and> \<not> have then
                (case we_cid e1 of
                   None \<Rightarrow> Some (Inl Undefined)
                 | Some c \<Rightarrow> ipfs_bitswap_wantlist_get_block_remote find_providers process c q)
              else Some (Inr (True, q))) (\<lambda>(asked, q1).
           if \<not> asked then Some (Inr (0, e1\<lparr>attempts := attempts e1 + 1\<rparr>, q1))
           else
             let e2 = (if local \<and> \<not> have then e1\<lparr>asked_network := True\<rparr> else e1)
             in case we_block e2 of
                  None \<Rightarrow> Some (Inr (0, e2, q1))
                | Some b \<Rightarrow>
                    bind_run (fill_sessions (vec_items (we_sessions e2)) b q1) (\<lambda>q2.
                    Some (Inr (0, e2, q2)))))"

section \<open>The peer request thread\<close>

text \<open>
  The peer the thread is at, if the store had one when the thread started, whether it did
  something since it was at the first peer, the known peers and their requests.
\<close>

record peer_request_processor =
  current_peer :: "nat option"
  did_some_processing :: bool
  all_peers :: peerstore
  all_requests :: peer_request_queue

text \<open>Unlocking goes through the peer's session, which a connection error has removed.\<close>

definition unlock_stream :: "libp2p_peer \<Rightarrow> unit result" where
  "unlock_stream p =
     (case session p of
        None \<Rightarrow> Inl Undefined
      | Some c \<Rightarrow> if default_stream c = None then Inl Undefined else Inr ())"

definition connection_failed :: "nat \<Rightarrow> peerstore \<Rightarrow> peerstore" where
  "connection_failed i ps = ps[i := libp2p_peer_handle_connection_error (ps ! i)]"

definition poll_peer ::
    "(session_context \<Rightarrow> bool) \<Rightarrow> (session_context \<Rightarrow> int) \<Rightarrow> (session_context \<Rightarrow> stream_message option) \<Rightarrow>
     (stream_message \<Rightarrow> peerstore \<times> peer_request_queue \<Rightarrow> (int \<times> peerstore \<times> peer_request_queue) run) \<Rightarrow>
     nat \<Rightarrow> peer_request_processor \<Rightarrow> peer_request_processor run" where
  "poll_peer try_lock peek read marshal i s =
     (let p = all_peers s ! i;
          finish = (\<lambda>s'. bind_run (Some (unlock_stream (all_peers s' ! i))) (\<lambda>u. Some (Inr s')))
      in if connection_type p \<noteq> CONNECTION_TYPE_CONNECTED then Some (Inr s)
         else
           case session p of
             None \<Rightarrow> Some (Inr (s\<lparr>all_peers := (all_peers s)[i := p\<lparr>connection_type := CONNECTION_TYPE_NOT_CONNECTED\<rparr>]\<rparr>))
           | Some c \<Rightarrow>
               if default_stream c = None
               then Some (Inr (s\<lparr>all_peers := (all_peers s)[i := p\<lparr>connection_type := CONNECTION_TYPE_NOT_CONNECTED\<rparr>]\<rparr>))
               else if \<not> try_lock c then Some (Inr s)
               else if peek c < 0 then finish (s\<lparr>all_peers := connection_failed i (all_peers s)\<rparr>)
               else if peek c = 0 then finish s
               else
                 bind_run (Some (libp2p_peer_id_to_string p)) (\<lambda>name.
                 case read c of
                   None \<Rightarrow> finish (s\<lparr>all_peers := connection_failed i (all_peers s)\<rparr>)
                 | Some m \<Rightarrow>
                     bind_run (marshal m (all_peers s, all_requests s)) (\<lambda>(r, ps, q).
                     let s' = s\<lparr>all_peers := ps, all_requests := q, did_some_processing := True\<rparr>
                     in finish (if r = - 1 then s'\<lparr>all_peers := connection_failed i ps\<rparr> else s'))))"

definition serve_peer ::
    "(peer_request \<Rightarrow> (bool \<times> peer_request) result) \<Rightarrow> nat \<Rightarrow> peer_request_processor \<Rightarrow>
     peer_request_processor run" where
  "serve_peer process i s =
     bind_run (ipfs_bitswap_peer_request_queue_find_entry (all_requests s) (Some (all_peers s ! i))) (\<lambda>found.
     case found of
       None \<Rightarrow> Some (Inr s)
     | Some a \<Rightarrow>
         bind_run (Some (load (entry_heap (all_requests s)) (Some a))) (\<lambda>e.
         case current e of
           None \<Rightarrow> Some (Inr s)
         | Some k \<Rightarrow>
             bind_run (Some (load (request_heap (all_requests s)) (Some k))) (\<lambda>r.
             bind_run (Some (process r)) (\<lambda>(did, r').
             Some (Inr (s\<lparr>all_requests := store_request k r' (all_requests s),
                          did_some_processing := did_some_processing s \<or> did\<rparr>))))))"

definition next_peer :: "nat \<Rightarrow> peer_request_processor \<Rightarrow> peer_request_processor" where
  "next_peer i s =
     (if Suc i < length (all_peers s) then s\<lparr>current_peer := Some (Suc i)\<rparr>
      else s\<lparr>current_peer := (if all_peers s = [] then None else Some 0), did_some_processing := False\<rparr>)"

text \<open>One round of the thread; with no current peer it only sleeps.\<close>

definition peer_request_processor_round ::
    "(session_context \<Rightarrow> bool) \<Rightarrow> (session_context \<Rightarrow> int) \<Rightarrow> (session_context \<Rightarrow> stream_message option) \<Rightarrow>
     (stream_message \<Rightarrow> peerstore \<times> peer_request_queue \<Rightarrow> (int \<times> peerstore \<times> peer_request_queue) run) \<Rightarrow>
     (peer_request \<Rightarrow> (bool \<times> peer_request) result) \<Rightarrow> peer_request_processor \<Rightarrow> peer_request_processor run" where
  "peer_request_processor_round try_lock peek read marshal process s =
     (case current_peer s of
        None \<Rightarrow> Some (Inr s)
      | Some i \<Rightarrow>
          if i < length (all_peers s) then
            bind_run (poll_peer try_lock peek read marshal i s) (\<lambda>s1.
            bind_run (serve_peer process i s1) (\<lambda>s2. Some (Inr (next_peer i s2))))
          else Some (Inl Undefined))"

section \<open>The queue the program builds\<close>

text \<open>Changing a request, but not whose it is, keeps the queue.\<close>

lemma view_store_request:
  assumes "load (request_heap q) (Some k) = Inr r"
  shows "view (store_request k r' q) a =
    (case view q a of None \<Rightarrow> None | Some (e, x) \<Rightarrow> Some (e, if current e = Some k then r' else x))"
proof -
  have k: "k < length (request_heap q)" using assms by (auto simp: load_Inr_iff)
  show ?thesis
    using assms k by (auto simp: view_def store_request_def load_update split: sum.splits)
qed

lemma key_store_request:
  assumes "load (request_heap q) (Some k) = Inr r" and "peer_key (pr_peer r') = peer_key (pr_peer r)"
  shows "key_at (store_request k r' q) a = key_at q a"
  using assms(2) view_store_request [OF assms(1), of r' a] assms(1)
  by (auto simp: key_at_def view_Some_iff split: option.splits)

lemma linked_store_request:
  assumes "load (request_heap q) (Some k) = Inr r"
  shows "linked (store_request k r' q) b c as l n = linked q b c as l n"
  using view_store_request [OF assms, of r']
  by (induction as arbitrary: b c) (auto split: option.splits)

lemma queue_ok_store:
  assumes "queue_ok q as" and "load (request_heap q) (Some k) = Inr r"
    and "peer_key (pr_peer r') = peer_key (pr_peer r)"
  shows "queue_ok (store_request k r' q) as" and "map (key_at (store_request k r' q)) as = map (key_at q) as"
proof -
  have key: "key_at (store_request k r' q) = key_at q"
    using key_store_request [OF assms(2,3)] by blast
  have "first_entry (store_request k r' q) = first_entry q" "last_entry (store_request k r' q) = last_entry q"
    by (simp_all add: store_request_def)
  then show "queue_ok (store_request k r' q) as"
    using assms(1) linked_store_request [OF assms(2), of r'] key
    by (simp add: queue_ok_def queue_chain_def)
  show "map (key_at (store_request k r' q)) as = map (key_at q) as" by (simp add: key)
qed

text \<open>The processing of a request leaves it with its peer.\<close>

definition keeps_peer :: "(peer_request \<Rightarrow> (bool \<times> peer_request) result) \<Rightarrow> bool" where
  "keeps_peer process \<longleftrightarrow>
     (\<forall>r b r'. process r = Inr (b, r') \<longrightarrow> peer_key (pr_peer r') = peer_key (pr_peer r))"

lemma build_message_peer: "build_message get r = Inr (m, r') \<Longrightarrow> pr_peer r' = pr_peer r"
  by (auto simp: build_message_def ipfs_bitswap_peer_request_get_blocks_they_want_def Let_def
      bind_res_Inr_iff case_prod_unfold split: sum.splits fault.splits)

lemma process_entry_keeps_peer:
  assumes "\<And>p. peer_id (snd (connect p)) = peer_id p" and "\<And>p m. peer_id (snd (send p m)) = peer_id p"
  shows "keeps_peer (ipfs_bitswap_peer_request_process_entry connect send get)"
  unfolding keeps_peer_def
proof (intro allI impI)
  fix r b r'
  assume p: "ipfs_bitswap_peer_request_process_entry connect send get r = Inr (b, r')"
  show "peer_key (pr_peer r') = peer_key (pr_peer r)"
    using p assms build_message_peer [of get]
    by (fastforce simp: ipfs_bitswap_peer_request_process_entry_def peer_key_def Let_def bind_res_Inr_iff
        case_prod_unfold split: option.splits if_splits)
qed

lemma find_peer_request:
  assumes "queue_ok q as" and "short_key (peer_key p)"
  shows "\<exists>r q' as' req. ipfs_peer_request_queue_find_peer q p = Some (Inr (r, q')) \<and>
    queue_ok q' as' \<and> load (request_heap q') (Some r) = Inr req \<and>
    peer_key (pr_peer req) = peer_key p \<and>
    set (map (key_at q') as') = insert (peer_key p) (set (map (key_at q) as))"
proof -
  obtain r q' as' a e req where f: "ipfs_peer_request_queue_find_peer q p = Some (Inr (r, q'))" "queue_ok q' as'"
    "map (key_at q') as' = (if peer_key p \<in> key_at q ` set as then map (key_at q) as
                           else map (key_at q) as @ [peer_key p])"
    "view q' a = Some (e, req)" "current e = Some r" "peer_key (pr_peer req) = peer_key p"
    using find_peer_ok [OF assms] by blast
  have "set (map (key_at q') as') = insert (peer_key p) (set (map (key_at q) as))"
    unfolding f(3) by auto
  moreover have "load (request_heap q') (Some r) = Inr req" using f(4,5) by (simp add: view_Some_iff)
  ultimately show ?thesis using f(1,2,6) by metis
qed

lemma ask_providers_ok:
  assumes "queue_ok q as" and "\<forall>p \<in> set ps. short_key (peer_key (Some p))" and "keeps_peer process"
    and "ask_providers process c ps q = Some (Inr q')"
  shows "\<exists>as'. queue_ok q' as' \<and>
    set (map (key_at q') as') = set (map (key_at q) as) \<union> (peer_key \<circ> Some) ` set ps"
  using assms(1,2,4)
proof (induction ps arbitrary: q as)
  case (Cons p ps)
  from Cons.prems(2) have "short_key (peer_key (Some p))" by simp
  from find_peer_request [OF Cons.prems(1) this] obtain a q1 as1 req where
    f: "ipfs_peer_request_queue_find_peer q (Some p) = Some (Inr (a, q1))" "queue_ok q1 as1"
    "load (request_heap q1) (Some a) = Inr req" "peer_key (pr_peer req) = peer_key (Some p)"
    "set (map (key_at q1) as1) = insert (peer_key (Some p)) (set (map (key_at q) as))" by blast
  from Cons.prems(3) f(1,3) obtain cs b r' where
    r': "process (req\<lparr>cids_we_want := cs\<rparr>) = Inr (b, r')"
    "ask_providers process c ps (store_request a r' q1) = Some (Inr q')"
    by (auto simp: bind_run_Inr_iff Let_def)
  have "peer_key (pr_peer r') = peer_key (pr_peer req)"
    using assms(3) r'(1) unfolding keeps_peer_def by fastforce
  from queue_ok_store [OF f(2,3) this] have
    s: "queue_ok (store_request a r' q1) as1" "map (key_at (store_request a r' q1)) as1 = map (key_at q1) as1"
    by simp_all
  from Cons.IH [OF s(1) _ r'(2)] Cons.prems(2) obtain as' where
    "queue_ok q' as'" "set (map (key_at q') as') = set (map (key_at (store_request a r' q1)) as1) \<union> (peer_key \<circ> Some) ` set ps"
    by auto
  then show ?case unfolding s(2) f(5) by (intro exI [of _ as']) auto
qed auto

text \<open>
  The calls that change the queue: looking for a peer's request, giving it a block, asking
  providers, processing a request, and noting what a peer wants. Nothing in the program calls
  \<open>queue_add\<close>, \<open>queue_remove\<close> or \<open>queue_pop\<close>.
\<close>

inductive queue_step ::
    "(peer_request \<Rightarrow> (bool \<times> peer_request) result) \<Rightarrow> peer_request_queue \<Rightarrow> peer_request_queue \<Rightarrow> bool"
  for process where
  found: "short_key (peer_key p) \<Longrightarrow> ipfs_peer_request_queue_find_peer q p = Some (Inr (r, q')) \<Longrightarrow>
    queue_step process q q'"
| filled: "short_key (peer_key p) \<Longrightarrow> ipfs_bitswap_peer_request_queue_fill q p b = Some (Inr (x, q')) \<Longrightarrow>
    queue_step process q q'"
| asked: "\<forall>p \<in> set ps. short_key (peer_key (Some p)) \<Longrightarrow> ask_providers process c ps q = Some (Inr q') \<Longrightarrow>
    queue_step process q q'"
| processed: "load (request_heap q) (Some k) = Inr r \<Longrightarrow> process r = Inr (d, r') \<Longrightarrow>
    queue_step process q (store_request k r' q)"
| noted: "load (request_heap q) (Some k) = Inr r \<Longrightarrow>
    queue_step process q (store_request k (r\<lparr>cids_they_want := cs\<rparr>) q)"

inductive queue_reachable ::
    "(peer_request \<Rightarrow> (bool \<times> peer_request) result) \<Rightarrow> peer_request_queue \<Rightarrow> bool"
  for process where
  start: "queue_reachable process ipfs_bitswap_peer_request_queue_new"
| step: "queue_reachable process q \<Longrightarrow> queue_step process q q' \<Longrightarrow> queue_reachable process q'"

lemma fill_ok:
  assumes "queue_ok q as" and "short_key (peer_key p)"
  shows "\<exists>q' as'. ipfs_bitswap_peer_request_queue_fill q p b = Some (Inr (0, q')) \<and> queue_ok q' as'"
proof -
  from find_peer_request [OF assms] obtain r q1 as1 req where
    f: "ipfs_peer_request_queue_find_peer q p = Some (Inr (r, q1))" "queue_ok q1 as1"
    "load (request_heap q1) (Some r) = Inr req" by blast
  let ?req = "req\<lparr>blocks_we_want_to_send := blocks_we_want_to_send req @ [b]\<rparr>"
  have "queue_ok (store_request r ?req q1) as1" using queue_ok_store(1) [OF f(2,3)] by simp
  moreover have "ipfs_bitswap_peer_request_queue_fill q p b = Some (Inr (0, store_request r ?req q1))"
    using f(1,3) by (simp add: ipfs_bitswap_peer_request_queue_fill_def)
  ultimately show ?thesis by blast
qed

lemma queue_step_ok:
  assumes "queue_step process q q'" and "keeps_peer process" and "queue_ok q as"
  shows "\<exists>as'. queue_ok q' as'"
  using assms
proof cases
  case (found p r)
  then show ?thesis using find_peer_request [OF assms(3), of p] by fastforce
next
  case (filled p b x)
  then show ?thesis using fill_ok [OF assms(3), of p b] by fastforce
next
  case (asked ps c)
  then show ?thesis using ask_providers_ok [OF assms(3) _ assms(2)] by blast
next
  case (processed k r d r')
  then have "peer_key (pr_peer r') = peer_key (pr_peer r)" using assms(2) by (auto simp: keeps_peer_def)
  then show ?thesis using processed queue_ok_store(1) [OF assms(3)] by blast
next
  case (noted k r cs)
  then show ?thesis using queue_ok_store(1) [OF assms(3), of k r "r\<lparr>cids_they_want := cs\<rparr>"] by auto
qed

lemma queue_reachable_ok: "queue_reachable process q \<Longrightarrow> keeps_peer process \<Longrightarrow> \<exists>as. queue_ok q as"
proof (induction rule: queue_reachable.induct)
  case start
  then show ?case using queue_ok_new by blast
next
  case (step q q')
  then show ?case using queue_step_ok by blast
qed

section \<open>Properties\<close>



lemma ask_providers_total:
  assumes "queue_ok q as" and "\<forall>p \<in> set ps. short_key (peer_key (Some p))" and "keeps_peer process"
    and "\<forall>r. \<exists>x. process r = Inr x"
  shows "\<exists>q'. ask_providers process c ps q = Some (Inr q')"
  using assms(1,2)
proof (induction ps arbitrary: q as)
  case (Cons p ps)
  from Cons.prems(2) have "short_key (peer_key (Some p))" by simp
  from find_peer_request [OF Cons.prems(1) this] obtain a q1 as1 req where
    f: "ipfs_peer_request_queue_find_peer q (Some p) = Some (Inr (a, q1))" "queue_ok q1 as1"
    "load (request_heap q1) (Some a) = Inr req" by blast
  let ?e = "ipfs_bitswap_peer_request_cid_entry_new
      \<lparr>ce_cid := (case ipfs_cid_copy c of Inl f \<Rightarrow> None | Inr d \<Rightarrow> Some d)\<rparr>"
  obtain b r' where r': "process (req\<lparr>cids_we_want := cids_we_want req @ [?e]\<rparr>) = Inr (b, r')"
    using assms(4) by (metis surj_pair)
  have "peer_key (pr_peer r') = peer_key (pr_peer req)"
    using assms(3) r' unfolding keeps_peer_def by fastforce
  from Cons.IH [OF queue_ok_store(1) [OF f(2,3) this]] Cons.prems(2) show ?case
    using f(1,3) r' by (auto simp: Let_def)
qed simp


definition local_want :: want_entry where
  "local_want = ipfs_bitswap_wantlist_queue_entry_new
     \<lparr>we_cid := Some \<lparr>cid_version = 0, cid_codec = 0x70, cid_hash = [1]\<rparr>,
      we_sessions := \<lparr>vec_items = [Some ipfs_bitswap_wantlist_session_new], vec_capacity = 1\<rparr>\<rparr>"


text \<open>
  A connection that fails takes the engine down: when \<open>peek\<close> reports an error, the peer's
  session is removed and then used to unlock the stream.
\<close>

theorem engine_connection_error_faults:
  assumes "current_peer s = Some i" and "i < length (all_peers s)"
    and "connection_type (all_peers s ! i) = CONNECTION_TYPE_CONNECTED"
    and "session (all_peers s ! i) = Some c" and "default_stream c \<noteq> None" and "try_lock c" and "peek c < 0"
  shows "peer_request_processor_round try_lock peek read marshal process s = Some (Inl Undefined)"
  using assms
  by (auto simp: peer_request_processor_round_def poll_peer_def connection_failed_def unlock_stream_def
      libp2p_peer_handle_connection_error_def Let_def)

theorem engine_connection_error_faults_witness:
  "peer_request_processor_round (\<lambda>c. True) (\<lambda>c. - 1) (\<lambda>c. None) (\<lambda>m s. None) (\<lambda>r. Inr (True, r))
     \<lparr>current_peer = Some 0, did_some_processing = False, all_peers = [linked_peer],
      all_requests = ipfs_bitswap_peer_request_queue_new\<rparr> = Some (Inl Undefined)"
  using engine_connection_error_faults [of
      "\<lparr>current_peer = Some 0, did_some_processing = False, all_peers = [linked_peer],
        all_requests = ipfs_bitswap_peer_request_queue_new\<rparr>" 0
      "\<lparr>session_number = 0, default_stream = Some 0\<rparr>" "\<lambda>c. True" "\<lambda>c. - 1"]
  by (simp add: linked_peer_def)

text \<open>
  The thread among the others, which may add peers: a step is a round at a peer, a round without
  one, or an addition.
\<close>

inductive engine_step ::
    "(peer_request_processor \<Rightarrow> peer_request_processor run) \<Rightarrow> peer_request_processor \<Rightarrow> nat list \<Rightarrow>
     peer_request_processor \<Rightarrow> bool"
  for round where
  visit: "current_peer s = Some i \<Longrightarrow> round s = Some (Inr s') \<Longrightarrow> engine_step round s [i] s'"
| idle: "current_peer s = None \<Longrightarrow> round s = Some (Inr s') \<Longrightarrow> engine_step round s [] s'"
| joined: "engine_step round s [] (s\<lparr>all_peers := all_peers s @ ps\<rparr>)"

inductive engine_run ::
    "(peer_request_processor \<Rightarrow> peer_request_processor run) \<Rightarrow> peer_request_processor \<Rightarrow> nat list \<Rightarrow>
     peer_request_processor \<Rightarrow> bool"
  for round where
  none: "engine_run round s [] s"
| more: "engine_run round s is s' \<Longrightarrow> engine_step round s' js s'' \<Longrightarrow> engine_run round s (is @ js) s''"

text \<open>Handling a message may add peers, never remove them.\<close>

definition keeps_peers ::
    "(stream_message \<Rightarrow> peerstore \<times> peer_request_queue \<Rightarrow> (int \<times> peerstore \<times> peer_request_queue) run) \<Rightarrow> bool" where
  "keeps_peers marshal \<longleftrightarrow>
     (\<forall>m s r ps q. marshal m s = Some (Inr (r, ps, q)) \<longrightarrow> length (fst s) \<le> length ps)"

lemma poll_peer_keeps:
  assumes "poll_peer try_lock peek read marshal i s = Some (Inr s')" and "keeps_peers marshal"
  shows "length (all_peers s) \<le> length (all_peers s')"
  using assms
  by (auto simp: poll_peer_def Let_def bind_run_Inr_iff connection_failed_def keeps_peers_def
      split: if_splits option.splits) (fastforce+)?

lemma serve_peer_keeps:
  assumes "serve_peer process i s = Some (Inr s')"
  shows "all_peers s' = all_peers s"
  using assms
  by (auto simp: serve_peer_def bind_run_Inr_iff split: option.splits)

lemma round_moves_on:
  assumes "peer_request_processor_round try_lock peek read marshal process s = Some (Inr s')"
    and "keeps_peers marshal" and "current_peer s = Some i"
  shows "i < length (all_peers s) \<and> length (all_peers s) \<le> length (all_peers s') \<and>
    current_peer s' = Some (if Suc i < length (all_peers s') then Suc i else 0)"
proof -
  obtain s1 s2 where s: "i < length (all_peers s)" "poll_peer try_lock peek read marshal i s = Some (Inr s1)"
    "serve_peer process i s1 = Some (Inr s2)" "s' = next_peer i s2"
    using assms(1,3) by (auto simp: peer_request_processor_round_def bind_run_Inr_iff split: if_splits)
  then show ?thesis
    using poll_peer_keeps [OF s(2) assms(2)] serve_peer_keeps [OF s(3)]
    by (auto simp: next_peer_def)
qed

text \<open>The peers visited in a run that goes from the peer \<open>i\<close> to the end of the store at most.\<close>

lemma engine_run_visits:
  assumes "engine_run (peer_request_processor_round try_lock peek read marshal process) s is s'"
    and "keeps_peers marshal" and "current_peer s = Some 0" and "length is \<le> length (all_peers s)"
  shows "is = [0..<length is] \<and> length (all_peers s) \<le> length (all_peers s') \<and>
    (current_peer s' = Some (length is) \<or> length is = length (all_peers s) \<and> current_peer s' = Some 0)"
  using assms
proof (induction rule: engine_run.induct)
  case (none s)
  then show ?case by simp
next
  case (more s "is" s' js s'')
  from more.hyps(2) show ?case
  proof cases
    case (visit i)
    with more have IH: "is = [0..<length is]" "length (all_peers s) \<le> length (all_peers s')"
      "current_peer s' = Some (length is)" by auto
    then have "i = length is" using visit by simp
    then show ?thesis using IH visit more.prems round_moves_on [OF visit(3) more.prems(1) visit(2)]
      by (auto simp: upt_conv_Cons)
  next
    case idle
    with more show ?thesis by auto
  next
    case (joined ps)
    with more show ?thesis by auto
  qed
qed

text \<open>
  C15: the thread is fair: from the first peer on, as long as its rounds end without a fault, it
  visits every peer of the store in order, however other threads add peers in between and
  messages bring new ones, and then goes on to the first new peer or back to the first one.
\<close>

theorem engine_visits_every_peer:
  assumes "engine_run (peer_request_processor_round try_lock peek read marshal process) s visits s'"
    and "keeps_peers marshal" and "current_peer s = Some 0" and "length visits = length (all_peers s)"
  shows "visits = [0..<length (all_peers s)] \<and>
    (current_peer s' = Some (length (all_peers s)) \<or> current_peer s' = Some 0)"
  using engine_run_visits [OF assms(1-3)] assms(4) by (metis order_refl)

definition two_peers :: peer_request_processor where
  "two_peers = \<lparr>current_peer = Some 0, did_some_processing = False, all_peers = [peer_named [7], peer_named [8]],
     all_requests = ipfs_bitswap_peer_request_queue_new\<rparr>"

theorem engine_visits_every_peer_witness:
  "\<exists>visits s'. engine_run (peer_request_processor_round (\<lambda>c. True) (\<lambda>c. 0) (\<lambda>c. None) (\<lambda>m s. None)
      (\<lambda>r. Inr (True, r))) two_peers visits s' \<and> visits = [0, 1] \<and>
    (current_peer s' = Some 2 \<or> current_peer s' = Some 0)"
proof -
  let ?round = "peer_request_processor_round (\<lambda>c. True) (\<lambda>c. 0) (\<lambda>c. None) (\<lambda>m s. None) (\<lambda>r. Inr (True, r))"
  have idle: "poll_peer (\<lambda>c. True) (\<lambda>c. 0) (\<lambda>c. None) (\<lambda>m s. None) i s = Some (Inr s)"
    if "connection_type (all_peers s ! i) = CONNECTION_TYPE_NOT_CONNECTED" for i s
    using that by (simp add: poll_peer_def CONNECTION_TYPE_NOT_CONNECTED_def CONNECTION_TYPE_CONNECTED_def Let_def)
  have r1: "?round two_peers = Some (Inr (two_peers\<lparr>current_peer := Some 1\<rparr>))"
    "?round (two_peers\<lparr>current_peer := Some 1\<rparr>) = Some (Inr two_peers)"
    by (simp_all add: peer_request_processor_round_def idle two_peers_def peer_named_def libp2p_peer_new_def
        serve_peer_def next_peer_def ipfs_bitswap_peer_request_queue_find_entry_def find_entry_from.simps
        ipfs_bitswap_peer_request_queue_new_def)
  have "engine_step ?round two_peers [0] (two_peers\<lparr>current_peer := Some 1\<rparr>)"
    "engine_step ?round (two_peers\<lparr>current_peer := Some 1\<rparr>) [1] two_peers"
    by (rule engine_step.visit, use r1 in \<open>simp_all add: two_peers_def\<close>)+
  from engine_run.more [OF engine_run.more [OF engine_run.none this(1)] this(2)]
  have run: "engine_run ?round two_peers [0, 1] two_peers" by simp
  then show ?thesis
    using engine_visits_every_peer [OF run] by (force simp: keeps_peers_def two_peers_def)
qed

end
