(* ===== verification/Yamux_Frame.thy ===== *)
theory Yamux_Frame
  imports Ipfs_Prelude
begin

text \<open>
  The frames of the yamux multiplexer, \<open>libp2p/yamux/frame.c\<close> and \<open>frame.h\<close>: twelve bytes in
  the order of the packed struct. The functions of the C library that change the byte order are
  those of a little-endian machine, where they reverse the bytes; what is in memory, and so what
  is sent, has the least significant byte of a number first.
\<close>

section \<open>Byte order\<close>

type_synonym u16 = "16 word"

definition word_byte :: "'a :: len word \<Rightarrow> nat \<Rightarrow> byte" where
  "word_byte w k = ucast (drop_bit (8 * k) w)"

definition u16_bytes :: "u16 \<Rightarrow> bytes" where
  "u16_bytes w = [word_byte w 0, word_byte w 1]"

definition u32_memory :: "u32 \<Rightarrow> bytes" where
  "u32_memory w = [word_byte w 0, word_byte w 1, word_byte w 2, word_byte w 3]"

definition u16_of :: "byte \<Rightarrow> byte \<Rightarrow> u16" where
  "u16_of a b = ucast a OR push_bit 8 (ucast b)"

definition u32_of :: "byte \<Rightarrow> byte \<Rightarrow> byte \<Rightarrow> byte \<Rightarrow> u32" where
  "u32_of a b c d = ucast a OR push_bit 8 (ucast b) OR push_bit 16 (ucast c) OR push_bit 24 (ucast d)"

definition htons :: "u16 \<Rightarrow> u16" where
  "htons w = u16_of (word_byte w 1) (word_byte w 0)"

definition htonl :: "u32 \<Rightarrow> u32" where
  "htonl w = u32_of (word_byte w 3) (word_byte w 2) (word_byte w 1) (word_byte w 0)"

lemma byte_bit_less: "bit (a :: byte) n \<Longrightarrow> n < 8"
  using bit_imp_le_length [of a n] by simp

lemma u16_of_bytes: "u16_of (word_byte w 0) (word_byte w (Suc 0)) = w"
  by (rule bit_word_eqI) (auto simp: u16_of_def word_byte_def bit_simps)

lemma u32_of_bytes: "u32_of (word_byte w 0) (word_byte w (Suc 0)) (word_byte w 2) (word_byte w 3) = w"
proof (rule bit_word_eqI)
  fix n :: nat
  assume "n < LENGTH(32)"
  then consider "n < 8" | "8 \<le> n \<and> n < 16" | "16 \<le> n \<and> n < 24" | "24 \<le> n \<and> n < 32" by fastforce
  then show "bit (u32_of (word_byte w 0) (word_byte w (Suc 0)) (word_byte w 2) (word_byte w 3)) n = bit w n"
    by cases (auto simp: u32_of_def word_byte_def bit_simps)
qed

lemma u16_of_byte: "word_byte (u16_of a b) 0 = a" "word_byte (u16_of a b) (Suc 0) = b"
  by (rule bit_word_eqI; auto simp: u16_of_def word_byte_def bit_simps dest: byte_bit_less)+

lemma u32_of_byte: "word_byte (u32_of a b c d) 0 = a" "word_byte (u32_of a b c d) (Suc 0) = b"
  "word_byte (u32_of a b c d) 2 = c" "word_byte (u32_of a b c d) 3 = d"
  by (rule bit_word_eqI; auto simp: u32_of_def word_byte_def bit_simps dest: byte_bit_less)+

lemma htons_twice [simp]: "htons (htons w) = w"
  by (simp add: htons_def u16_of_byte u16_of_bytes)

lemma htonl_twice [simp]: "htonl (htonl w) = w"
  by (simp add: htonl_def u32_of_byte u32_of_bytes)

section \<open>Frames\<close>

definition YAMUX_VERSION :: byte where "YAMUX_VERSION = 0"

definition yamux_frame_data :: byte where "yamux_frame_data = 0"
definition yamux_frame_window_update :: byte where "yamux_frame_window_update = 1"
definition yamux_frame_ping :: byte where "yamux_frame_ping = 2"
definition yamux_frame_go_away :: byte where "yamux_frame_go_away = 3"

definition yamux_frame_syn :: u16 where "yamux_frame_syn = 1"
definition yamux_frame_ack :: u16 where "yamux_frame_ack = 2"
definition yamux_frame_fin :: u16 where "yamux_frame_fin = 4"
definition yamux_frame_rst :: u16 where "yamux_frame_rst = 8"

lemmas yamux_codes = yamux_frame_data_def yamux_frame_window_update_def yamux_frame_ping_def
  yamux_frame_go_away_def yamux_frame_syn_def yamux_frame_ack_def yamux_frame_fin_def
  yamux_frame_rst_def YAMUX_VERSION_def

record yamux_frame =
  version :: byte
  frame_type :: byte
  flags :: u16
  streamid :: u32
  frame_length :: u32

definition encode_frame :: "yamux_frame \<Rightarrow> yamux_frame" where
  "encode_frame f =
     f\<lparr>flags := htons (flags f), streamid := htonl (streamid f), frame_length := htonl (frame_length f)\<rparr>"

definition decode_frame :: "yamux_frame \<Rightarrow> yamux_frame" where
  "decode_frame f =
     f\<lparr>flags := htons (flags f), streamid := htonl (streamid f), frame_length := htonl (frame_length f)\<rparr>"

text \<open>The packed struct as its twelve bytes, and back.\<close>

definition frame_memory :: "yamux_frame \<Rightarrow> bytes" where
  "frame_memory f =
     [version f, frame_type f] @ u16_bytes (flags f) @ u32_memory (streamid f) @ u32_memory (frame_length f)"

definition frame_of_memory :: "bytes \<Rightarrow> yamux_frame" where
  "frame_of_memory b =
     \<lparr>version = b ! 0, frame_type = b ! 1, flags = u16_of (b ! 2) (b ! 3),
      streamid = u32_of (b ! 4) (b ! 5) (b ! 6) (b ! 7),
      frame_length = u32_of (b ! 8) (b ! 9) (b ! 10) (b ! 11)\<rparr>"

lemma length_frame_memory [simp]: "length (frame_memory f) = 12"
  by (simp add: frame_memory_def u16_bytes_def u32_memory_def)

lemma frame_of_memory_memory: "frame_of_memory (frame_memory f @ bs) = f"
  by (cases f) (simp add: frame_of_memory_def frame_memory_def u16_bytes_def u32_memory_def
      u16_of_bytes u32_of_bytes)

lemma frame_memory_of_memory: "length b = 12 \<Longrightarrow> frame_memory (frame_of_memory b) = b"
  by (auto simp: frame_of_memory_def frame_memory_def u16_bytes_def u32_memory_def u16_of_byte
      u32_of_byte
      u32_of_byte(3) [unfolded numeral_2_eq_2] u32_of_byte(4) [unfolded numeral_3_eq_3] numeral_eq_Suc length_Suc_conv)

lemma decode_encode_frame [simp]: "decode_frame (encode_frame f) = f"
  by (cases f) (simp add: decode_frame_def encode_frame_def)

section \<open>Properties\<close>

text \<open>
  A frame that is encoded before it is sent is the frame the other end decodes from its
  first twelve bytes, whatever follows; on the wire the numbers have their most significant byte
  first. Every sequence of twelve bytes is a frame.
\<close>

theorem frame_round_trip:
  "decode_frame (frame_of_memory (frame_memory (encode_frame f) @ bs)) = f \<and>
   frame_memory (encode_frame f) =
     [version f, frame_type f] @ rev (u16_bytes (flags f)) @ rev (u32_memory (streamid f)) @
     rev (u32_memory (frame_length f)) \<and>
   (length b = 12 \<longrightarrow> frame_memory (encode_frame (decode_frame (frame_of_memory b))) = b)"
proof -
  have "encode_frame (decode_frame g) = g" for g
    by (cases g) (simp add: decode_frame_def encode_frame_def)
  then show ?thesis
    by (simp add: frame_of_memory_memory frame_memory_of_memory)
      (simp add: encode_frame_def frame_memory_def u16_bytes_def u32_memory_def htons_def htonl_def
        u16_of_byte u32_of_byte)
qed

theorem frame_round_trip_witness:
  "frame_memory (encode_frame (decode_frame (frame_of_memory [0, 1, 0, 2, 0, 0, 0, 5, 0, 4, 0, 0]))) =
    [0, 1, 0, 2, 0, 0, 0, 5, 0, 4, 0, 0]"
  using frame_round_trip [of undefined "[]" "[0, 1, 0, 2, 0, 0, 0, 5, 0, 4, 0, 0]"] by simp

end
