(* ===== verification/Threadsafe_Buffer.thy ===== *)
theory Threadsafe_Buffer
  imports Ipfs_Prelude
begin

text \<open>
  The buffer between the thread that reads the network and the protocols,
  \<open>libp2p/utils/threadsafe_buffer.c\<close>. A buffer is the list of its bytes; every operation holds
  the lock from beginning to end and is one step. The locale states the contract of a queue of
  bytes that the users of the buffer rely on.
\<close>

section \<open>Queues of bytes\<close>

datatype buffer_op = Put bytes | Get nat

text \<open>What a sequence of operations gives out, and the queue after it.\<close>

fun run_ops :: "('q \<Rightarrow> bytes \<Rightarrow> 'q) \<Rightarrow> ('q \<Rightarrow> nat \<Rightarrow> bytes \<times> 'q) \<Rightarrow> buffer_op list \<Rightarrow> 'q \<Rightarrow> bytes \<times> 'q" where
  "run_ops put get [] q = ([], q)"
| "run_ops put get (Put bs # ops) q = run_ops put get ops (put q bs)"
| "run_ops put get (Get n # ops) q =
     (let (got, q') = get q n; (rest, q'') = run_ops put get ops q' in (got @ rest, q''))"

fun put_bytes_of :: "buffer_op list \<Rightarrow> bytes" where
  "put_bytes_of [] = []"
| "put_bytes_of (Put bs # ops) = bs @ put_bytes_of ops"
| "put_bytes_of (Get n # ops) = put_bytes_of ops"

locale byte_queue =
  fixes put :: "'q \<Rightarrow> bytes \<Rightarrow> 'q"
    and get :: "'q \<Rightarrow> nat \<Rightarrow> bytes \<times> 'q"
    and content :: "'q \<Rightarrow> bytes"
  assumes put_content: "length (content q) + length bs < 2 ^ 63 \<Longrightarrow> content (put q bs) = content q @ bs"
    and get_bytes: "fst (get q n) = take n (content q)"
    and get_content: "content (snd (get q n)) = drop n (content q)"
begin

lemma first_in_first_out:
  assumes "length (content q) + length (put_bytes_of ops) < 2 ^ 63"
  shows "fst (run_ops put get ops q) @ content (snd (run_ops put get ops q)) = content q @ put_bytes_of ops"
  using assms
proof (induction ops arbitrary: q)
  case (Cons op ops)
  show ?case
  proof (cases op)
    case (Put bs)
    then have "content (put q bs) = content q @ bs" using Cons.prems by (intro put_content) simp
    then show ?thesis using Put Cons.prems Cons.IH [of "put q bs"] by simp
  next
    case (Get n)
    have "length (content (snd (get q n))) + length (put_bytes_of ops) < 2 ^ 63"
      using Cons.prems Get by (simp add: get_content)
    from Cons.IH [OF this] show ?thesis
      using Get get_bytes [of q n] append_take_drop_id [of n "content q"]
      by (simp add: case_prod_unfold get_content Let_def)
  qed
qed simp

end

section \<open>The buffer\<close>

definition threadsafe_buffer_context_new :: bytes where
  "threadsafe_buffer_context_new = []"

text \<open>The context may be null.\<close>

definition threadsafe_buffer_peek :: "bytes option \<Rightarrow> nat \<Rightarrow> bytes" where
  "threadsafe_buffer_peek context results_size =
     (case context of None \<Rightarrow> [] | Some b \<Rightarrow> take results_size b)"

definition threadsafe_buffer_read :: "bytes option \<Rightarrow> nat \<Rightarrow> bytes \<times> bytes option" where
  "threadsafe_buffer_read context results_size =
     (case context of
        None \<Rightarrow> ([], None)
      | Some b \<Rightarrow>
          let bytes_read = (if results_size < length b then results_size else length b)
          in (take bytes_read b, Some (drop bytes_read b)))"

definition threadsafe_buffer_write :: "bytes option \<Rightarrow> bytes \<Rightarrow> nat \<times> bytes option" where
  "threadsafe_buffer_write context bs =
     (case context of
        None \<Rightarrow> (0, None)
      | Some b \<Rightarrow>
          if bs = [] then (0, Some b)
          else if malloc_ok (length b + length bs) then (length bs, Some (b @ bs))
          else (0, Some b))"

text \<open>The two operations on a buffer that is there.\<close>

definition buffer_put :: "bytes \<Rightarrow> bytes \<Rightarrow> bytes" where
  "buffer_put b bs = the (snd (threadsafe_buffer_write (Some b) bs))"

definition buffer_get :: "bytes \<Rightarrow> nat \<Rightarrow> bytes \<times> bytes" where
  "buffer_get b n = map_prod id the (threadsafe_buffer_read (Some b) n)"

lemma buffer_put_eq: "length b + length bs < 2 ^ 63 \<Longrightarrow> buffer_put b bs = b @ bs"
  by (simp add: buffer_put_def threadsafe_buffer_write_def malloc_ok_def)

lemma buffer_get_eq: "buffer_get b n = (take n b, drop n b)"
  by (simp add: buffer_get_def threadsafe_buffer_read_def Let_def)

interpretation buffer: byte_queue buffer_put buffer_get id
  by unfold_locales (simp_all add: buffer_put_eq buffer_get_eq)

section \<open>Properties\<close>



end
