(* ===== verification/Yamux.thy ===== *)
theory Yamux
  imports Yamux_Frame Threadsafe_Buffer Varint
begin

text \<open>
  The yamux multiplexer, \<open>libp2p/yamux/session.c\<close>, \<open>stream.c\<close> and \<open>yamux.c\<close>: many streams over
  one connection.

  One record holds the context of a connection and its session. A channel context lives at an
  address, its index among the channels ever made; the streams of the session are in slots, whose
  pointer is \<open>None\<close> once it is freed. What is written to the connection below is appended to
  \<open>sent\<close>; \<open>ok\<close> says of each message whether that write succeeded. The call-back functions of a
  session other than \<open>new_stream_fn\<close>, which does nothing, are never set in the program.
\<close>

section \<open>State\<close>

datatype yamux_stream_state = yamux_stream_inited | yamux_stream_syn_sent | yamux_stream_syn_recv |
  yamux_stream_est | yamux_stream_closing | yamux_stream_closed

record yamux_channel =
  ch_number :: u32
  ch_window_size :: int
  ch_state :: yamux_stream_state
  ch_closed :: bool
  ch_buffer :: bytes
  ch_child :: bool

text \<open>The channel of a stream is the one its \<open>Stream\<close> leads to, through its parents.\<close>

record yamux_stream =
  ys_id :: u32
  ys_state :: yamux_stream_state
  ys_window_size :: u32
  ys_channel :: nat

record yamux_session_stream =
  slot_stream :: "yamux_stream option"
  slot_alive :: bool

record yamux =
  am_server :: bool
  yamux_state :: yamux_stream_state
  nextid :: u32
  session_closed :: bool
  num_streams :: u64
  slots :: "yamux_session_stream list"
  channels :: "yamux_channel list"
  sent :: "bytes list"
  buffered_message :: "bytes option"
  buffered_message_pos :: int

definition EPROTO :: int where "EPROTO = 71"
definition EINVAL :: int where "EINVAL = 22"

definition YAMUX_DEFAULT_WINDOW :: u32 where "YAMUX_DEFAULT_WINDOW = 0x40000"

definition accept_backlog :: nat where "accept_backlog = 256"

text \<open>The context that \<open>libp2p_yamux_stream_new\<close> makes, before it sends the protocol's name.\<close>

definition libp2p_yamux_context_new :: "bool \<Rightarrow> yamux" where
  "libp2p_yamux_context_new server =
     \<lparr>am_server = server, yamux_state = yamux_stream_inited, nextid = (if server then 2 else 1),
      session_closed = False, num_streams = 0, slots = [], channels = [], sent = [],
      buffered_message = None, buffered_message_pos = - 1\<rparr>"

definition write_below :: "(bytes \<Rightarrow> bool) \<Rightarrow> bytes \<Rightarrow> yamux \<Rightarrow> bool \<times> yamux" where
  "write_below ok m y = (ok m, y\<lparr>sent := sent y @ [m]\<rparr>)"

definition put_channel :: "nat \<Rightarrow> yamux_channel \<Rightarrow> yamux \<Rightarrow> yamux" where
  "put_channel c ch y = y\<lparr>channels := (channels y)[c := ch]\<rparr>"

definition put_stream :: "nat \<Rightarrow> yamux_stream \<Rightarrow> yamux \<Rightarrow> yamux" where
  "put_stream i s y = y\<lparr>slots := (slots y)[i := ((slots y) ! i)\<lparr>slot_stream := Some s\<rparr>]\<rparr>"

section \<open>Sending frames\<close>

definition yamux_write_frame :: "(bytes \<Rightarrow> bool) \<Rightarrow> yamux_frame \<Rightarrow> yamux \<Rightarrow> int \<times> yamux" where
  "yamux_write_frame ok f y =
     (let (r, y') = write_below ok (frame_memory (encode_frame f)) y in (if r then 12 else 0, y'))"

definition yamux_stream_init :: "(bytes \<Rightarrow> bool) \<Rightarrow> nat \<Rightarrow> yamux \<Rightarrow> int \<times> yamux" where
  "yamux_stream_init ok c y =
     (let ch = channels y ! c in
      if ch_state ch \<noteq> yamux_stream_inited \<or> ch_closed ch then (- EINVAL, y)
      else
        yamux_write_frame ok
          \<lparr>version = YAMUX_VERSION, frame_type = yamux_frame_window_update, flags = yamux_frame_syn,
           streamid = ch_number ch, frame_length = 0\<rparr>
          (put_channel c (ch\<lparr>ch_state := yamux_stream_syn_sent\<rparr>) y))"

text \<open>Closing a channel, a connection, or with a null context nothing.\<close>

datatype yamux_context = Null_Context | Channel_Context nat | Yamux_Context | Other_Context

definition yamux_stream_close :: "(bytes \<Rightarrow> bool) \<Rightarrow> yamux_context \<Rightarrow> yamux \<Rightarrow> int \<times> yamux" where
  "yamux_stream_close ok context y =
     (case context of
        Channel_Context c \<Rightarrow>
          let ch = channels y ! c in
          if ch_state ch \<noteq> yamux_stream_est \<or> ch_closed ch then (- EINVAL, y)
          else
            yamux_write_frame ok
              \<lparr>version = YAMUX_VERSION, frame_type = yamux_frame_window_update, flags = yamux_frame_fin,
               streamid = ch_number ch, frame_length = 0\<rparr>
              (put_channel c (ch\<lparr>ch_state := yamux_stream_closing\<rparr>) y)
      | Yamux_Context \<Rightarrow>
          yamux_write_frame ok
            \<lparr>version = YAMUX_VERSION, frame_type = yamux_frame_window_update, flags = yamux_frame_fin,
             streamid = 0, frame_length = 0\<rparr> y
      | _ \<Rightarrow> (0, y))"

definition yamux_stream_reset :: "(bytes \<Rightarrow> bool) \<Rightarrow> nat \<Rightarrow> yamux \<Rightarrow> int \<times> yamux" where
  "yamux_stream_reset ok c y =
     (let ch = channels y ! c in
      if ch_closed ch then (- EINVAL, y)
      else
        yamux_write_frame ok
          \<lparr>version = YAMUX_VERSION, frame_type = yamux_frame_window_update, flags = yamux_frame_rst,
           streamid = ch_number ch, frame_length = 0\<rparr>
          (put_channel c (ch\<lparr>ch_state := yamux_stream_closed\<rparr>) y))"

text \<open>The flags that go with the next frame: the first ones of either side open the stream.\<close>

fun next_flags :: "yamux_stream_state \<Rightarrow> u16 \<times> yamux_stream_state" where
  "next_flags yamux_stream_inited = (yamux_frame_syn, yamux_stream_syn_sent)"
| "next_flags yamux_stream_syn_recv = (yamux_frame_ack, yamux_stream_est)"
| "next_flags s = (0, s)"

definition get_flags :: "yamux_context \<Rightarrow> yamux \<Rightarrow> u16 \<times> yamux" where
  "get_flags context y =
     (case context of
        Channel_Context c \<Rightarrow>
          let (f, s) = next_flags (ch_state (channels y ! c))
          in (f, put_channel c ((channels y ! c)\<lparr>ch_state := s\<rparr>) y)
      | Yamux_Context \<Rightarrow> let (f, s) = next_flags (yamux_state y) in (f, y\<lparr>yamux_state := s\<rparr>)
      | _ \<Rightarrow> (0, y))"

definition yamux_stream_window_update :: "(bytes \<Rightarrow> bool) \<Rightarrow> nat \<Rightarrow> u32 \<Rightarrow> yamux \<Rightarrow> int \<times> yamux" where
  "yamux_stream_window_update ok c delta y =
     (let ch = channels y ! c in
      if ch_state ch = yamux_stream_closed \<or> ch_state ch = yamux_stream_closing \<or> ch_closed ch
      then (- EINVAL, y)
      else
        let (fl, y') = get_flags (Channel_Context c) y
        in yamux_write_frame ok
             \<lparr>version = YAMUX_VERSION, frame_type = yamux_frame_window_update, flags = fl,
              streamid = ch_number ch, frame_length = delta\<rparr> y')"

text \<open>
  \<open>yamux_stream_write\<close> cuts the data into frames of the channel's window size, read once. The
  result is the number of bytes; the loop may not end.
\<close>

partial_function (option) yamux_stream_write_loop ::
    "(bytes \<Rightarrow> bool) \<Rightarrow> nat \<Rightarrow> u32 \<Rightarrow> nat \<Rightarrow> bytes \<Rightarrow> yamux \<Rightarrow> (nat \<times> yamux) option" where
  "yamux_stream_write_loop ok c ws size0 data y =
     (if data = [] then Some (size0, y)
      else
        let adv = min (length data) (unat ws);
            (fl, y1) = get_flags (Channel_Context c) y;
            f = \<lparr>version = YAMUX_VERSION, frame_type = yamux_frame_data, flags = fl,
                 streamid = ch_number (channels y ! c), frame_length = of_nat adv\<rparr>;
            (r, y2) = write_below ok (frame_memory (encode_frame f) @ take adv data) y1
        in if r then yamux_stream_write_loop ok c ws size0 (drop adv data) y2 else Some (adv, y2))"

definition yamux_stream_write :: "(bytes \<Rightarrow> bool) \<Rightarrow> nat \<Rightarrow> bytes \<Rightarrow> yamux \<Rightarrow> (int \<times> yamux) option" where
  "yamux_stream_write ok c data y =
     (if data = [] then Some (- EINVAL, y)
      else
        map_option (\<lambda>(n, y'). (int n, y'))
          (yamux_stream_write_loop ok c (word_of_int (ch_window_size (channels y ! c))) (length data) data y))"

section \<open>Streams\<close>

fun first_dead :: "yamux_session_stream list \<Rightarrow> nat option" where
  "first_dead [] = None"
| "first_dead (s # ss) = (if slot_alive s then map_option Suc (first_dead ss) else Some 0)"

definition new_channel :: "u32 \<Rightarrow> yamux_channel" where
  "new_channel i =
     \<lparr>ch_number = i, ch_window_size = 0, ch_state = yamux_stream_inited, ch_closed = False,
      ch_buffer = threadsafe_buffer_context_new, ch_child = False\<rparr>"

text \<open>
  \<open>yamux_channel_new\<close>: the address of the new channel, if there was room. The stream of a dead
  slot, which was freed when it died, is written to.
\<close>

definition yamux_channel_new :: "u32 \<Rightarrow> yamux \<Rightarrow> (nat option \<times> yamux) result" where
  "yamux_channel_new i0 y0 =
     (let i = (if i0 = 0 then nextid y0 else i0);
          y = (if i0 = 0 then y0\<lparr>nextid := nextid y0 + 2\<rparr> else y0);
          c = length (channels y);
          s = \<lparr>ys_id = i, ys_state = yamux_stream_inited, ys_window_size = YAMUX_DEFAULT_WINDOW, ys_channel = c\<rparr>;
          reuse = (if num_streams y \<noteq> of_nat (length (slots y)) then first_dead (slots y) else None)
      in case reuse of
           Some k \<Rightarrow>
             (case slot_stream (slots y ! k) of
                None \<Rightarrow> Inl Undefined
              | Some old \<Rightarrow>
                  Inr (Some c, y\<lparr>slots := (slots y)[k := \<lparr>slot_stream = Some s, slot_alive = True\<rparr>],
                                 channels := channels y @ [new_channel i]\<rparr>))
         | None \<Rightarrow>
             if length (slots y) = accept_backlog then Inr (None, y)
             else
               Inr (Some c, y\<lparr>slots := slots y @ [\<lparr>slot_stream = Some s, slot_alive = True\<rparr>],
                              channels := channels y @ [new_channel i]\<rparr>))"

text \<open>Freeing the stream in a slot; the first living slot with its number is the one that dies.\<close>

fun slot_of_id :: "u32 \<Rightarrow> yamux_session_stream list \<Rightarrow> nat option result" where
  "slot_of_id i [] = Inr None"
| "slot_of_id i (s # ss) =
     (if slot_alive s then
        (case slot_stream s of
           None \<Rightarrow> Inl Undefined
         | Some x \<Rightarrow> if ys_id x = i then Inr (Some 0) else bind_res (slot_of_id i ss) (\<lambda>k. Inr (map_option Suc k)))
      else bind_res (slot_of_id i ss) (\<lambda>k. Inr (map_option Suc k)))"

definition yamux_stream_free :: "nat \<Rightarrow> yamux \<Rightarrow> yamux result" where
  "yamux_stream_free k y =
     (case slot_stream (slots y ! k) of
        None \<Rightarrow> Inl Undefined
      | Some s \<Rightarrow>
          bind_res (slot_of_id (ys_id s) (slots y)) (\<lambda>found.
          let freed = (slots y)[k := (slots y ! k)\<lparr>slot_stream := None\<rparr>]
          in case found of
               None \<Rightarrow> Inr (y\<lparr>slots := freed\<rparr>)
             | Some j \<Rightarrow>
                 let dead = freed[j := (freed ! j)\<lparr>slot_alive := False\<rparr>]
                 in Inr (y\<lparr>slots := (if j = length (slots y) - 1 then butlast dead else dead),
                           num_streams := num_streams y - 1\<rparr>)))"

section \<open>Receiving frames\<close>

text \<open>The frame of a ping is sent without being encoded.\<close>

definition yamux_session_ping :: "(bytes \<Rightarrow> bool) \<Rightarrow> u32 \<Rightarrow> bool \<Rightarrow> yamux \<Rightarrow> int \<times> yamux" where
  "yamux_session_ping ok value pong y =
     (if session_closed y then (- EINVAL, y)
      else
        let (r, y') = write_below ok
              (frame_memory \<lparr>version = YAMUX_VERSION, frame_type = yamux_frame_ping,
                 flags = (if pong then yamux_frame_ack else yamux_frame_syn),
                 streamid = 0, frame_length = value\<rparr>) y
        in (if r then 12 else 0, y'))"

definition yamux_pull_message_from_frame :: "bytes \<Rightarrow> bytes option" where
  "yamux_pull_message_from_frame incoming =
     (if length incoming \<le> 12 then None
      else if malloc_ok (length incoming - 12) then Some (drop 12 incoming) else None)"

text \<open>
  The channel context of a stream, from the contexts of the stream and its parents: when the
  first one is a channel's the result is null, and the walk only ends at the top otherwise.
\<close>

fun libp2p_yamux_get_parent_channel_context :: "yamux_context list \<Rightarrow> yamux_context result" where
  "libp2p_yamux_get_parent_channel_context [] = Inr Null_Context"
| "libp2p_yamux_get_parent_channel_context (Null_Context # cs) = Inl Undefined"
| "libp2p_yamux_get_parent_channel_context (Channel_Context c # cs) = Inr Null_Context"
| "libp2p_yamux_get_parent_channel_context (c # cs) = libp2p_yamux_get_parent_channel_context cs"

text \<open>The living slot, not closed, whose stream has a number.\<close>

fun find_slot :: "u32 \<Rightarrow> yamux_session_stream list \<Rightarrow> nat option result" where
  "find_slot i [] = Inr None"
| "find_slot i (s # ss) =
     (if slot_alive s then
        (case slot_stream s of
           None \<Rightarrow> Inl Undefined
         | Some x \<Rightarrow>
             if ys_state x \<noteq> yamux_stream_closed \<and> ys_id x = i then Inr (Some 0)
             else bind_res (find_slot i ss) (\<lambda>k. Inr (map_option Suc k)))
      else bind_res (find_slot i ss) (\<lambda>k. Inr (map_option Suc k)))"

text \<open>
  \<open>yamux_stream_process\<close>: first the window, then the data. The data goes into the channel's
  buffer; while no protocol has taken the channel over, the whole buffer is handed to \<open>marshal\<close>
  once it is \<open>valid\<close>. The stream of a frame that opens a channel has no \<open>Stream\<close> to follow.
\<close>

definition stream_window :: "yamux_frame \<Rightarrow> u32 \<Rightarrow> u32" where
  "stream_window f w = (if frame_type f = yamux_frame_window_update then w + frame_length f else w)"

definition yamux_stream_process ::
    "(bytes \<Rightarrow> bool) \<Rightarrow> (nat \<Rightarrow> bytes \<Rightarrow> yamux \<Rightarrow> yamux) \<Rightarrow> nat option \<Rightarrow> yamux_frame \<Rightarrow> bytes \<Rightarrow> yamux \<Rightarrow>
     (int \<times> yamux) result" where
  "yamux_stream_process valid marshal channel f incoming y =
     (if frame_type f \<noteq> yamux_frame_window_update \<and> frame_type f \<noteq> yamux_frame_data then Inr (- EPROTO, y)
      else if frame_type f = yamux_frame_data \<and> length incoming \<noteq> unat (frame_length f) then Inr (- 1, y)
      else if incoming = [] then Inr (0, y)
      else
        case channel of
          None \<Rightarrow> Inl Undefined
        | Some c \<Rightarrow>
            let ch = channels y ! c;
                ch1 = ch\<lparr>ch_buffer := buffer_put (ch_buffer ch) incoming\<rparr>
            in Inr (int (length incoming),
                 if ch_child ch then put_channel c ch1 y
                 else if valid (ch_buffer ch1)
                 then marshal c (ch_buffer ch1) (put_channel c (ch1\<lparr>ch_buffer := []\<rparr>) y)
                 else put_channel c ch1 y))"

text \<open>
  A frame for a stream that is there; the FIN of the other side is answered by closing the
  context that \<open>get_parent_channel_context\<close> gives.
\<close>

definition stream_contexts :: "yamux_stream \<Rightarrow> yamux \<Rightarrow> yamux_context list" where
  "stream_contexts s y =
     (if ch_child (channels y ! ys_channel s) then [Other_Context, Channel_Context (ys_channel s)]
      else [Channel_Context (ys_channel s)])"

definition frame_for_stream ::
    "(bytes \<Rightarrow> bool) \<Rightarrow> (bytes \<Rightarrow> bool) \<Rightarrow> (nat \<Rightarrow> bytes \<Rightarrow> yamux \<Rightarrow> yamux) \<Rightarrow> nat \<Rightarrow> yamux_stream \<Rightarrow>
     yamux_frame \<Rightarrow> bytes \<Rightarrow> yamux \<Rightarrow> (int \<times> yamux) result" where
  "frame_for_stream ok valid marshal i s f rest y =
     (let go = (\<lambda>s' y'.
            bind_res (yamux_stream_process valid marshal (Some (ys_channel s')) f rest
              (put_stream i (s'\<lparr>ys_window_size := stream_window f (ys_window_size s')\<rparr>) y')) (\<lambda>(re, y'').
            Inr (if re < 0 then re else c_int (re + int (length rest + 12)), y'')))
      in if flags f AND yamux_frame_rst \<noteq> 0 then go (s\<lparr>ys_state := yamux_stream_closed\<rparr>) y
         else if flags f AND yamux_frame_fin \<noteq> 0 then
           bind_res
             (if ys_state s \<noteq> yamux_stream_closing
              then bind_res (libp2p_yamux_get_parent_channel_context (stream_contexts s y)) (\<lambda>c.
                Inr (snd (yamux_stream_close ok c y)))
              else Inr y) (\<lambda>y'.
           go (s\<lparr>ys_state := yamux_stream_closed\<rparr>) y')
         else if flags f AND yamux_frame_ack \<noteq> 0 then
           (if ys_state s \<noteq> yamux_stream_syn_sent then Inr (- EPROTO, y)
            else go (s\<lparr>ys_state := yamux_stream_est\<rparr>) y)
         else if flags f \<noteq> 0 then Inr (- EPROTO, y)
         else go s y)"

text \<open>
  A frame for a number no stream has: with SYN it opens a channel, if the number is of the
  other side's kind. The slot of that number is read, though slots go by position.
  \<open>negotiate\<close> is the start of multistream on the new channel.
\<close>

definition frame_for_new_stream ::
    "(bytes \<Rightarrow> bool) \<Rightarrow> (bytes \<Rightarrow> bool) \<Rightarrow> (nat \<Rightarrow> bytes \<Rightarrow> yamux \<Rightarrow> yamux) \<Rightarrow> (nat \<Rightarrow> yamux \<Rightarrow> yamux) \<Rightarrow>
     yamux_frame \<Rightarrow> bytes \<Rightarrow> yamux \<Rightarrow> (int \<times> yamux) result" where
  "frame_for_new_stream ok valid marshal negotiate f rest y =
     (if flags f AND yamux_frame_syn = 0 then Inr (- EPROTO, y)
      else if (even (unat (streamid f)) \<and> \<not> am_server y) \<or> (odd (unat (streamid f)) \<and> am_server y) then
        bind_res (yamux_channel_new (streamid f) y) (\<lambda>(channel, y1).
        case channel of
          None \<Rightarrow> Inr (- EPROTO, y1)
        | Some c \<Rightarrow>
            if accept_backlog \<le> unat (streamid f) then Inl Undefined
            else
              bind_res (yamux_stream_process valid marshal None f rest y1) (\<lambda>(re, y2).
              let y3 = put_channel c ((channels y2 ! c)\<lparr>ch_state := yamux_stream_syn_recv\<rparr>) y2;
                  y4 = (if frame_type f = yamux_frame_window_update
                        then snd (yamux_stream_window_update ok c (stream_window f 0) y3) else y3)
              in Inr (0, negotiate c y4)))
      else Inr (0, y))"

text \<open>The result, the connection, and the message behind the frame where it is returned.\<close>

definition yamux_decode ::
    "(bytes \<Rightarrow> bool) \<Rightarrow> (bytes \<Rightarrow> bool) \<Rightarrow> (nat \<Rightarrow> bytes \<Rightarrow> yamux \<Rightarrow> yamux) \<Rightarrow> (nat \<Rightarrow> yamux \<Rightarrow> yamux) \<Rightarrow>
     bytes \<Rightarrow> yamux \<Rightarrow> (int \<times> yamux \<times> bytes option) result" where
  "yamux_decode ok valid marshal negotiate incoming y =
     (if length incoming < 12 then Inr (0, y, None)
      else
        let f = decode_frame (frame_of_memory incoming); rest = drop 12 incoming
        in if version f \<noteq> YAMUX_VERSION then Inr (0, y, None)
           else if streamid f = 0 then
             (if frame_type f = yamux_frame_ping then
                (if flags f AND yamux_frame_syn \<noteq> 0
                 then Inr (0, snd (yamux_session_ping ok (frame_length f) True y), None)
                 else Inr (- EPROTO, y, None))
              else if frame_type f = yamux_frame_go_away then Inr (0, y\<lparr>session_closed := True\<rparr>, None)
              else Inr (- EPROTO, y, None))
           else
             bind_res (find_slot (streamid f) (slots y)) (\<lambda>found.
             case found of
               Some i \<Rightarrow>
                 (case slot_stream (slots y ! i) of
                    None \<Rightarrow> Inl Undefined
                  | Some s \<Rightarrow>
                      bind_res (frame_for_stream ok valid marshal i s f rest y) (\<lambda>(r, y').
                      Inr (r, y', None)))
             | None \<Rightarrow>
                 bind_res (frame_for_new_stream ok valid marshal negotiate f rest y) (\<lambda>(r, y').
                 Inr (r, y',
                   if flags f AND yamux_frame_syn \<noteq> 0 then yamux_pull_message_from_frame incoming else None))))"


section \<open>Reading and writing through yamux\<close>

definition yamux_protocol :: bytes where
  "yamux_protocol = [47, 121, 97, 109, 117, 120, 47, 49, 46, 48, 46, 48, 10]"

text \<open>\<open>strncmp\<close> of a string with an array, as a test for equality; it must not leave the array.\<close>

fun starts_with :: "bytes \<Rightarrow> bytes \<Rightarrow> bool result" where
  "starts_with [] d = Inr True"
| "starts_with (p # ps) [] = Inl Undefined"
| "starts_with (p # ps) (b # d) = (if p = b then starts_with ps d else Inr False)"

definition yamux_can_handle :: "bytes option \<Rightarrow> bool result" where
  "yamux_can_handle msg =
     (case msg of
        None \<Rightarrow> Inr False
      | Some d \<Rightarrow>
          if d = [] then Inr False
          else
            bind_res
              (if d ! 0 \<noteq> yamux_protocol ! 0 then
                 if length d < 2 then Inl Undefined
                 else if d ! 1 \<noteq> yamux_protocol ! 1
                 then bind_res (varint_decode d (c_int (int (length d)))) (\<lambda>(v, n). Inr n)
                 else Inr 0
               else Inr 0) (\<lambda>num_bytes.
            if length yamux_protocol - num_bytes \<le> length d
            then starts_with yamux_protocol (drop num_bytes d)
            else Inr False))"

definition libp2p_yamux_get_next_id :: "yamux \<Rightarrow> u32 \<times> yamux" where
  "libp2p_yamux_get_next_id y =
     (let n = nextid y;
          next_id = (if (am_server y \<and> odd (unat n)) \<or> (\<not> am_server y \<and> even (unat n)) then n + 1 else n)
      in (next_id, y\<lparr>nextid := next_id + 1\<rparr>))"

text \<open>The frame in front of the message is not encoded yet, and flags and number are zero.\<close>

definition libp2p_yamux_prepare_to_send :: "bytes \<Rightarrow> (yamux_frame \<times> bytes) option" where
  "libp2p_yamux_prepare_to_send incoming =
     (if malloc_ok (12 + length incoming)
      then Some (\<lparr>version = YAMUX_VERSION, frame_type = yamux_frame_data, flags = 0, streamid = 0,
                   frame_length = of_nat (length incoming)\<rparr>, incoming)
      else None)"

definition libp2p_yamux_write ::
    "(bytes \<Rightarrow> bool) \<Rightarrow> yamux_context \<Rightarrow> bytes \<Rightarrow> yamux \<Rightarrow> (bool \<times> yamux) result" where
  "libp2p_yamux_write ok context message y =
     (if context = Null_Context \<or> context = Other_Context then Inr (False, y)
      else if yamux_state y \<noteq> yamux_stream_est then Inr (write_below ok message y)
      else
        case libp2p_yamux_prepare_to_send message of
          None \<Rightarrow> Inl Undefined
        | Some (f, bs) \<Rightarrow>
            let (fl, y1) = get_flags context y;
                (i, y2) = (case context of
                             Channel_Context c \<Rightarrow> (ch_number (channels y1 ! c), y1)
                           | _ \<Rightarrow> libp2p_yamux_get_next_id y1)
            in Inr (write_below ok (frame_memory (encode_frame (f\<lparr>flags := fl, streamid := i\<rparr>)) @ bs) y2))"

text \<open>
  Closing the session: the stream the session writes to is the one of yamux itself, so that the
  go-away frame, which is not encoded, is the data of another frame.
\<close>

definition yamux_session_close :: "(bytes \<Rightarrow> bool) \<Rightarrow> u32 \<Rightarrow> yamux \<Rightarrow> (int \<times> yamux) result" where
  "yamux_session_close ok err y =
     (if session_closed y then Inr (0, y)
      else
        bind_res
          (libp2p_yamux_write ok Yamux_Context
            (frame_memory \<lparr>version = YAMUX_VERSION, frame_type = yamux_frame_go_away, flags = 0,
               streamid = 0, frame_length = err\<rparr>)
            (y\<lparr>session_closed := True\<rparr>)) (\<lambda>(r, y').
        Inr (if r then 12 else 0, y')))"

definition yamux_session_free :: "(bytes \<Rightarrow> bool) \<Rightarrow> yamux \<Rightarrow> yamux result" where
  "yamux_session_free ok y =
     bind_res (yamux_session_close ok 0 y) (\<lambda>(r, y').
     chain
       (map (\<lambda>i z. if i < length (slots z) \<and> slot_alive (slots z ! i) then yamux_stream_free i z else Inr z)
         [0..<length (slots y')]) y')"

text \<open>The frames that end a channel or the connection; these are encoded.\<close>

definition libp2p_yamux_send_go_away :: "(bytes \<Rightarrow> bool) \<Rightarrow> yamux_context \<Rightarrow> yamux \<Rightarrow> bool \<times> yamux" where
  "libp2p_yamux_send_go_away ok context y =
     (if context = Null_Context \<or> context = Other_Context then (False, y)
      else
        (True, snd (write_below ok
           (frame_memory (encode_frame
             \<lparr>version = 0, frame_type = yamux_frame_go_away, flags = yamux_frame_fin,
              streamid = (case context of Channel_Context c \<Rightarrow> ch_number (channels y ! c) | _ \<Rightarrow> 0),
              frame_length = 0\<rparr>)) y)))"

definition libp2p_yamux_channel_send_FIN :: "(bytes \<Rightarrow> bool) \<Rightarrow> nat \<Rightarrow> yamux \<Rightarrow> bool \<times> yamux" where
  "libp2p_yamux_channel_send_FIN ok c y =
     (True, snd (write_below ok
        (frame_memory (encode_frame
          \<lparr>version = 0, frame_type = yamux_frame_window_update, flags = yamux_frame_fin,
           streamid = ch_number (channels y ! c), frame_length = 0\<rparr>)) y))"

definition yamux_more_to_read :: "bytes \<Rightarrow> int" where
  "yamux_more_to_read incoming =
     (if length incoming < 12 then 0
      else
        let f = decode_frame (frame_of_memory incoming)
        in if frame_type f = yamux_frame_data
           then c_int (int (unat (frame_length f)) - int (length incoming - 12)) else 0)"

definition libp2p_yamux_channel_read :: "nat \<Rightarrow> yamux \<Rightarrow> bytes option \<times> yamux" where
  "libp2p_yamux_channel_read c y =
     (let ch = channels y ! c; size = length (ch_buffer ch) in
      if size = 0 \<or> \<not> malloc_ok size then (None, y)
      else let (bs, rest) = buffer_get (ch_buffer ch) size in (Some bs, put_channel c (ch\<lparr>ch_buffer := rest\<rparr>) y))"

text \<open>What comes into the channel's buffer in each second of waiting is \<open>arrives\<close>.\<close>

fun wait_for_bytes :: "(nat \<Rightarrow> bytes) \<Rightarrow> int \<Rightarrow> nat \<Rightarrow> bytes \<Rightarrow> bytes" where
  "wait_for_bytes arrives buffer_size 0 b = b"
| "wait_for_bytes arrives buffer_size (Suc t) b =
     (if int (length b) < buffer_size
      then wait_for_bytes (\<lambda>n. arrives (Suc n)) buffer_size t (buffer_put b (arrives 0)) else b)"

definition libp2p_yamux_channel_read_raw :: "(nat \<Rightarrow> bytes) \<Rightarrow> nat \<Rightarrow> nat \<Rightarrow> nat \<Rightarrow> yamux \<Rightarrow> bytes \<times> yamux" where
  "libp2p_yamux_channel_read_raw arrives c buffer_size timeout y =
     (let ch = channels y ! c;
          b = wait_for_bytes arrives (int buffer_size) timeout (ch_buffer ch);
          (bs, rest) = buffer_get b buffer_size
      in (bs, put_channel c (ch\<lparr>ch_buffer := rest\<rparr>) y))"

text \<open>
  \<open>libp2p_yamux_read\<close> on the connection: \<open>lower\<close> is the message the protocol below gives, and
  \<open>lower_raw n\<close> the next \<open>n\<close> bytes of it, where they come in time. The result says whether the
  call succeeded; the message is what the caller's pointer holds afterwards, \<open>message\<close> before: a frame
  that is dealt with leaves it as it was.
\<close>

fun strstr :: "bytes \<Rightarrow> bytes \<Rightarrow> bool result" where
  "strstr [] needle = Inl Undefined"
| "strstr (b # d) needle =
     (if needle = take (length needle) (b # d) then Inr True
      else if b = 0 then Inr False else strstr d needle)"

definition libp2p_yamux_read ::
    "(bytes \<Rightarrow> bool) \<Rightarrow> (bytes \<Rightarrow> bool) \<Rightarrow> (nat \<Rightarrow> bytes \<Rightarrow> yamux \<Rightarrow> yamux) \<Rightarrow> (nat \<Rightarrow> yamux \<Rightarrow> yamux) \<Rightarrow>
     bytes option \<Rightarrow> (int \<Rightarrow> bytes option) \<Rightarrow> yamux_context \<Rightarrow> bytes option \<Rightarrow> yamux \<Rightarrow>
     (bool \<times> yamux \<times> bytes option) result" where
  "libp2p_yamux_read ok valid marshal negotiate lower lower_raw context message y =
     (case context of
        Null_Context \<Rightarrow> Inr (False, y, message)
      | Other_Context \<Rightarrow> Inr (False, y, message)
      | Channel_Context c \<Rightarrow>
          let (m, y') = libp2p_yamux_channel_read c y in Inr (m \<noteq> None, y', m)
      | Yamux_Context \<Rightarrow>
          (if yamux_state y \<noteq> yamux_stream_est then
             case lower of
               None \<Rightarrow> Inr (False, y, None)
             | Some m \<Rightarrow>
                 bind_res (strstr m (butlast yamux_protocol)) (\<lambda>found.
                 Inr (if found then (False, y\<lparr>yamux_state := yamux_stream_est\<rparr>, None) else (True, y, Some m)))
           else
             case lower of
               None \<Rightarrow> Inr (False, y, message)
             | Some incoming \<Rightarrow>
                 let more = yamux_more_to_read incoming;
                     whole = (if 0 < more then map_option (\<lambda>bs. incoming @ bs) (lower_raw more) else Some incoming)
                 in case whole of
                      None \<Rightarrow> Inr (False, y, message)
                    | Some m \<Rightarrow>
                        bind_res (yamux_decode ok valid marshal negotiate m y) (\<lambda>(r, y', out).
                        let left = (if out = None then message else out)
                        in Inr (if r < 0 then (False, y', left)
                                else if left = Some [] then (False, y', None) else (True, y', left)))))"

text \<open>
  \<open>libp2p_yamux_read_raw\<close> on the connection keeps what does not fit the caller's buffer. \<open>fetch\<close> is
  the call of \<open>libp2p_yamux_read\<close> for the message the context keeps; it may leave none. A result of \<open>None\<close> is \<open>-1\<close>.
\<close>

definition libp2p_yamux_read_raw ::
    "(yamux \<Rightarrow> (bool \<times> yamux \<times> bytes option) result) \<Rightarrow> nat \<Rightarrow> yamux \<Rightarrow> (bytes option \<times> yamux) result" where
  "libp2p_yamux_read_raw fetch buffer_size y0 =
     bind_res
       (if buffered_message_pos y0 = - 1 \<or> buffered_message y0 = None
        then bind_res (fetch y0) (\<lambda>(r, y, m).
          Inr (r, y\<lparr>buffered_message := m,
                    buffered_message_pos := (if r then 0 else buffered_message_pos y)\<rparr>))
        else Inr (True, y0)) (\<lambda>(r, y).
     if \<not> r then Inr (None, y)
     else
       case buffered_message y of
         None \<Rightarrow> Inl Undefined
       | Some d \<Rightarrow>
           let pos = nat (buffered_message_pos y);
               max_to_read = min buffer_size (length d - pos);
               result = take max_to_read (drop pos d)
           in if pos + max_to_read = length d
              then Inr (Some result, y\<lparr>buffered_message := None, buffered_message_pos := - 1\<rparr>)
              else Inr (Some result, y\<lparr>buffered_message_pos := int max_to_read\<rparr>))"

end
