(* ===== verification/Yamux_Session.thy ===== *)
theory Yamux_Session
  imports Yamux
begin

text \<open>
  What holds of a yamux connection however it is used: the reachable states of a session, the
  invariant of its streams and channels, and what becomes of the frames one end sends when the
  other decodes them.
\<close>

section \<open>Frames that were sent\<close>

lemma decode_sent [simp]:
  "decode_frame (frame_of_memory (frame_memory (encode_frame f) @ bs)) = f"
  "drop 12 (frame_memory f' @ bs) = bs"
  by (simp_all add: frame_of_memory_memory)

lemma write_below_simps [simp]:
  "fst (write_below ok m y) = ok m"
  "snd (write_below ok m y) = y\<lparr>sent := sent y @ [m]\<rparr>"
  by (simp_all add: write_below_def)

lemma yamux_write_frame_eq:
  "yamux_write_frame ok f y =
    (if ok (frame_memory (encode_frame f)) then 12 else 0, y\<lparr>sent := sent y @ [frame_memory (encode_frame f)]\<rparr>)"
  by (simp add: yamux_write_frame_def write_below_def)

lemma put_channel_slots [simp]: "slots (put_channel c ch y) = slots y"
  by (simp add: put_channel_def)

lemma put_channel_channels [simp]: "channels (put_channel c ch y) = (channels y)[c := ch]"
  by (simp add: put_channel_def)

lemma put_stream_simps [simp]:
  "slots (put_stream i s y) = (slots y)[i := ((slots y) ! i)\<lparr>slot_stream := Some s\<rparr>]"
  "channels (put_stream i s y) = channels y"
  by (simp_all add: put_stream_def)

section \<open>The reachable states\<close>

text \<open>
  A session is used by opening channels, writing and reading through them, and by the frames that
  come in; \<open>established\<close> is the other side's protocol name.
\<close>

inductive yamux_step ::
    "(bytes \<Rightarrow> bool) \<Rightarrow> (bytes \<Rightarrow> bool) \<Rightarrow> (nat \<Rightarrow> bytes \<Rightarrow> yamux \<Rightarrow> yamux) \<Rightarrow> (nat \<Rightarrow> yamux \<Rightarrow> yamux) \<Rightarrow>
     yamux \<Rightarrow> yamux \<Rightarrow> bool"
  for ok valid marshal negotiate
where
  established: "yamux_step ok valid marshal negotiate y (y\<lparr>yamux_state := yamux_stream_est\<rparr>)"
| opened: "yamux_channel_new i y = Inr (r, y') \<Longrightarrow> yamux_step ok valid marshal negotiate y y'"
| inited: "yamux_stream_init ok c y = (r, y') \<Longrightarrow> yamux_step ok valid marshal negotiate y y'"
| closed: "yamux_stream_close ok cx y = (r, y') \<Longrightarrow> yamux_step ok valid marshal negotiate y y'"
| reset: "yamux_stream_reset ok c y = (r, y') \<Longrightarrow> yamux_step ok valid marshal negotiate y y'"
| updated: "yamux_stream_window_update ok c delta y = (r, y') \<Longrightarrow> yamux_step ok valid marshal negotiate y y'"
| written: "libp2p_yamux_write ok cx m y = Inr (r, y') \<Longrightarrow> yamux_step ok valid marshal negotiate y y'"
| decoded: "yamux_decode ok valid marshal negotiate m y = Inr (r, y', out) \<Longrightarrow>
    yamux_step ok valid marshal negotiate y y'"
| channel_read: "libp2p_yamux_channel_read c y = (r, y') \<Longrightarrow> yamux_step ok valid marshal negotiate y y'"
| finished: "libp2p_yamux_channel_send_FIN ok c y = (r, y') \<Longrightarrow> yamux_step ok valid marshal negotiate y y'"
| going: "libp2p_yamux_send_go_away ok cx y = (r, y') \<Longrightarrow> yamux_step ok valid marshal negotiate y y'"
| pinged: "yamux_session_ping ok v pong y = (r, y') \<Longrightarrow> yamux_step ok valid marshal negotiate y y'"
| ended: "yamux_session_close ok err y = Inr (r, y') \<Longrightarrow> yamux_step ok valid marshal negotiate y y'"

definition yamux_reachable ::
    "(bytes \<Rightarrow> bool) \<Rightarrow> (bytes \<Rightarrow> bool) \<Rightarrow> (nat \<Rightarrow> bytes \<Rightarrow> yamux \<Rightarrow> yamux) \<Rightarrow> (nat \<Rightarrow> yamux \<Rightarrow> yamux) \<Rightarrow>
     yamux \<Rightarrow> bool" where
  "yamux_reachable ok valid marshal negotiate y \<longleftrightarrow>
     (\<exists>server. (yamux_step ok valid marshal negotiate)\<^sup>*\<^sup>* (libp2p_yamux_context_new server) y)"

text \<open>
  The invariant. A stream of the session is only ever \<open>inited\<close> or \<open>closed\<close>: the state that goes
  through the opening of a stream is the one of its channel. The window of a channel stays empty.
\<close>

definition stream_ok :: "nat \<Rightarrow> yamux_session_stream \<Rightarrow> bool" where
  "stream_ok n sl \<longleftrightarrow> slot_alive sl \<and>
     (\<exists>s. slot_stream sl = Some s \<and> ys_state s \<in> {yamux_stream_inited, yamux_stream_closed} \<and> ys_channel s < n)"

definition session_inv :: "yamux \<Rightarrow> bool" where
  "session_inv y \<longleftrightarrow> length (slots y) \<le> accept_backlog \<and> list_all (stream_ok (length (channels y))) (slots y) \<and>
     list_all (\<lambda>ch. ch_window_size ch = 0) (channels y)"

text \<open>The protocols above write and upgrade, but leave the streams of the session alone.\<close>

definition leaves_streams :: "(yamux \<Rightarrow> yamux) \<Rightarrow> bool" where
  "leaves_streams f \<longleftrightarrow>
     (\<forall>y. slots (f y) = slots y \<and> map ch_window_size (channels (f y)) = map ch_window_size (channels y))"

lemma session_inv_cong:
  assumes "slots y' = slots y" and "map ch_window_size (channels y') = map ch_window_size (channels y)"
  shows "session_inv y' \<longleftrightarrow> session_inv y"
proof -
  have "length (channels y') = length (channels y)" using assms(2) by (metis length_map)
  moreover have "list_all (\<lambda>ch. ch_window_size ch = 0) (channels y') \<longleftrightarrow>
      list_all (\<lambda>ch. ch_window_size ch = 0) (channels y)"
    using arg_cong [OF assms(2), of "list_all (\<lambda>w. w = 0)"] by (simp add: list.pred_map comp_def)
  ultimately show ?thesis using assms(1) by (simp add: session_inv_def)
qed

lemma session_inv_leaves: "leaves_streams f \<Longrightarrow> session_inv (f y) \<longleftrightarrow> session_inv y"
  by (intro session_inv_cong) (simp_all add: leaves_streams_def)

lemma same_windows:
  "ch_window_size ch = ch_window_size (cs ! c) \<Longrightarrow> map ch_window_size (cs[c := ch]) = map ch_window_size cs"
  by (metis list_update_id map_update)

lemma get_flags_leaves: "leaves_streams (\<lambda>y. snd (get_flags cx y))"
  by (auto simp: leaves_streams_def get_flags_def case_prod_unfold Let_def same_windows split: yamux_context.splits)

lemma leaves_streams_steps:
  "leaves_streams (\<lambda>y. snd (yamux_stream_init ok c y))"
  "leaves_streams (\<lambda>y. snd (yamux_stream_close ok cx y))"
  "leaves_streams (\<lambda>y. snd (yamux_stream_reset ok c y))"
  "leaves_streams (\<lambda>y. snd (yamux_stream_window_update ok c delta y))"
  "leaves_streams (\<lambda>y. snd (libp2p_yamux_channel_read c y))"
  "leaves_streams (\<lambda>y. snd (yamux_session_ping ok v pong y))"
  "leaves_streams (\<lambda>y. snd (libp2p_yamux_channel_send_FIN ok c y))"
  "leaves_streams (\<lambda>y. snd (libp2p_yamux_send_go_away ok cx y))"
  "leaves_streams (\<lambda>y. y\<lparr>yamux_state := st\<rparr>)"
  "leaves_streams (\<lambda>y. y\<lparr>session_closed := b\<rparr>)"
  using get_flags_leaves
  by (auto simp: leaves_streams_def yamux_stream_init_def yamux_stream_close_def yamux_stream_reset_def
      yamux_stream_window_update_def libp2p_yamux_channel_read_def yamux_session_ping_def
      libp2p_yamux_channel_send_FIN_def libp2p_yamux_send_go_away_def yamux_write_frame_eq same_windows case_prod_unfold Let_def write_below_def
      split: yamux_context.splits)

lemma write_leaves:
  assumes "libp2p_yamux_write ok cx m y = Inr (r, y')"
  shows "slots y' = slots y \<and> map ch_window_size (channels y') = map ch_window_size (channels y)"
  using assms get_flags_leaves [of cx]
  by (auto simp: libp2p_yamux_write_def leaves_streams_def case_prod_unfold Let_def write_below_def
      libp2p_yamux_get_next_id_def split: if_splits option.splits yamux_context.splits)

lemma session_close_leaves:
  assumes "yamux_session_close ok err y = Inr (r, y')"
  shows "slots y' = slots y \<and> map ch_window_size (channels y') = map ch_window_size (channels y)"
  using assms by (auto simp: yamux_session_close_def bind_res_Inr_iff dest!: write_leaves split: if_splits)

section \<open>The invariant\<close>

lemma first_dead_alive: "list_all (stream_ok n) ss \<Longrightarrow> first_dead ss = None"
  by (induction ss) (auto simp: stream_ok_def)

lemma stream_ok_mono: "stream_ok n sl \<Longrightarrow> n \<le> m \<Longrightarrow> stream_ok m sl"
  by (auto simp: stream_ok_def)

lemma session_inv_new: "session_inv (libp2p_yamux_context_new server)"
  by (simp add: session_inv_def libp2p_yamux_context_new_def)

text \<open>Opening a channel while every slot is alive.\<close>

lemma yamux_channel_new_eq:
  assumes "session_inv y"
  shows "yamux_channel_new i0 y =
    (let i = (if i0 = 0 then nextid y else i0); y1 = (if i0 = 0 then y\<lparr>nextid := nextid y + 2\<rparr> else y) in
     if length (slots y) = accept_backlog then Inr (None, y1)
     else Inr (Some (length (channels y)),
       y1\<lparr>slots := slots y @ [\<lparr>slot_stream = Some \<lparr>ys_id = i, ys_state = yamux_stream_inited,
             ys_window_size = YAMUX_DEFAULT_WINDOW, ys_channel = length (channels y)\<rparr>, slot_alive = True\<rparr>],
          channels := channels y @ [new_channel i]\<rparr>))"
  using assms first_dead_alive [of "length (channels y)" "slots y"]
  by (auto simp: yamux_channel_new_def session_inv_def Let_def)

lemma session_inv_channel_new:
  assumes "session_inv y" and "yamux_channel_new i0 y = Inr (r, y')"
  shows "session_inv y'"
  using assms
  by (auto simp: yamux_channel_new_eq Let_def session_inv_def accept_backlog_def new_channel_def
      list_all_iff stream_ok_def split: if_splits) force+

lemma find_slot_inv:
  assumes "list_all (stream_ok n) ss"
  shows "\<exists>r. find_slot i ss = Inr r \<and>
    (\<forall>k. r = Some k \<longrightarrow> k < length ss \<and> stream_ok n (ss ! k) \<and>
      (\<forall>s. slot_stream (ss ! k) = Some s \<longrightarrow> ys_id s = i \<and> ys_state s = yamux_stream_inited))"
  using assms
proof (induction ss)
  case (Cons sl ss)
  then obtain r s where "find_slot i ss = Inr r" and "slot_stream sl = Some s" and "slot_alive sl"
    and "ys_state s \<in> {yamux_stream_inited, yamux_stream_closed}"
    and "\<forall>k. r = Some k \<longrightarrow> k < length ss \<and> stream_ok n (ss ! k) \<and>
      (\<forall>s. slot_stream (ss ! k) = Some s \<longrightarrow> ys_id s = i \<and> ys_state s = yamux_stream_inited)"
    by (auto simp: stream_ok_def [of n sl])
  then show ?case using Cons.prems by (cases r) auto
qed simp

lemma session_inv_put_stream:
  assumes "session_inv y" and "ys_state s \<in> {yamux_stream_inited, yamux_stream_closed}"
    and "ys_channel s < length (channels y)"
  shows "session_inv (put_stream i s y)"
proof (cases "i < length (slots y)")
  case True
  then have "slot_alive (slots y ! i)" using assms(1) by (auto simp: session_inv_def list_all_length stream_ok_def)
  then show ?thesis using assms True
    by (auto simp: session_inv_def list_all_length nth_list_update stream_ok_def)
qed (use assms in \<open>simp add: session_inv_def list_update_beyond\<close>)

lemma session_inv_process:
  assumes "yamux_stream_process valid marshal ch f bs y = Inr (r, y')" and "session_inv y"
    and "\<And>c bs. leaves_streams (marshal c bs)"
  shows "session_inv y'"
proof -
  have "session_inv (put_channel c ((channels y ! c)\<lparr>ch_buffer := b\<rparr>) y)" for c b
    using assms(2) by (subst session_inv_cong [of _ y]) (simp_all add: same_windows)
  then show ?thesis using assms
    by (auto simp: yamux_stream_process_def Let_def session_inv_leaves split: if_splits option.splits)
qed


lemma parent_channel_context [simp]:
  "libp2p_yamux_get_parent_channel_context (stream_contexts s y) = Inr Null_Context"
  by (simp add: stream_contexts_def)

lemma yamux_stream_close_null [simp]: "yamux_stream_close ok Null_Context y = (0, y)"
  by (simp add: yamux_stream_close_def)

lemma session_inv_frame_for_stream:
  assumes run: "frame_for_stream ok valid marshal i s f rest y = Inr (r, y')" and inv: "session_inv y"
    and s: "ys_state s = yamux_stream_inited" "ys_channel s < length (channels y)"
    and marshal: "\<And>c bs. leaves_streams (marshal c bs)"
  shows "session_inv y'"
proof -
  have go: "session_inv y'"
    if run': "bind_res (yamux_stream_process valid marshal (Some (ys_channel s')) f rest (put_stream i s' y))
          (\<lambda>(re, z). Inr (g re, z)) = Inr (r, y')"
      and "ys_state s' = yamux_stream_inited \<or> ys_state s' = yamux_stream_closed" and "ys_channel s' = ys_channel s"
    for s' g
  proof -
    have "session_inv (put_stream i s' y)" using that inv s(2) by (intro session_inv_put_stream) auto
    moreover obtain re where
      "yamux_stream_process valid marshal (Some (ys_channel s')) f rest (put_stream i s' y) = Inr (re, y')"
      using run' by (auto simp: bind_res_Inr_iff)
    ultimately show ?thesis using session_inv_process marshal by blast
  qed
  show ?thesis
  proof (cases "y' = y")
    case False
    show ?thesis
      by (rule go [where s' = "s\<lparr>ys_state :=
            (if flags f AND (yamux_frame_rst OR yamux_frame_fin) \<noteq> 0 then yamux_stream_closed else yamux_stream_inited),
            ys_window_size := stream_window f (ys_window_size s)\<rparr>"
            and g = "\<lambda>re. if re < 0 then re else c_int (re + int (length rest + 12))"])
        (use run False s(1) in \<open>cases s; auto simp: frame_for_stream_def Let_def bit.conj_disj_distrib or_eq_0_iff split: if_splits\<close>)+
  qed (use inv in simp)
qed

lemma session_inv_frame_for_new_stream:
  assumes run: "frame_for_new_stream ok valid marshal negotiate f rest y = Inr (r, y')" and inv: "session_inv y"
    and marshal: "\<And>c bs. leaves_streams (marshal c bs)" and negotiate: "\<And>c. leaves_streams (negotiate c)"
  shows "session_inv y'"
proof -
  consider "y' = y" | r1 where "yamux_channel_new (streamid f) y = Inr (r1, y')"
    | c y1 re y2 where "yamux_channel_new (streamid f) y = Inr (Some c, y1)"
      and "yamux_stream_process valid marshal None f rest y1 = Inr (re, y2)"
      and "y' = negotiate c
            (let y3 = put_channel c ((channels y2 ! c)\<lparr>ch_state := yamux_stream_syn_recv\<rparr>) y2
             in if frame_type f = yamux_frame_window_update
                then snd (yamux_stream_window_update ok c (stream_window f 0) y3) else y3)"
    using run by (fastforce simp: frame_for_new_stream_def bind_res_Inr_iff Let_def split: if_splits option.splits)
  then show ?thesis
  proof cases
    case 3
    then have inv2: "session_inv y2" using inv marshal by (blast intro: session_inv_channel_new session_inv_process)
    have "session_inv (put_channel c ((channels y2 ! c)\<lparr>ch_state := yamux_stream_syn_recv\<rparr>) y2)"
      using inv2 by (subst session_inv_cong [of _ y2]) (simp_all add: same_windows)
    then show ?thesis
      using session_inv_leaves [OF leaves_streams_steps(4)]
      by (simp add: 3(3) session_inv_leaves [OF negotiate] Let_def)
  qed (use inv session_inv_channel_new in blast)+
qed

lemma session_inv_decode:
  assumes "yamux_decode ok valid marshal negotiate m y = Inr (r, y', out)" and "session_inv y"
    and "\<And>c bs. leaves_streams (marshal c bs)" and "\<And>c. leaves_streams (negotiate c)"
  shows "session_inv y'"
proof -
  let ?f = "decode_frame (frame_of_memory m)"
  obtain k where k: "find_slot (streamid ?f) (slots y) = Inr k"
    and some: "\<And>i. k = Some i \<Longrightarrow> \<exists>s. slot_stream (slots y ! i) = Some s \<and> ys_state s = yamux_stream_inited \<and>
      ys_channel s < length (channels y)"
    using find_slot_inv [of "length (channels y)" "slots y" "streamid ?f"] assms(2)
    by (fastforce simp: session_inv_def stream_ok_def)
  consider "y' = y" | "y' = snd (yamux_session_ping ok (frame_length ?f) True y)" | "y' = y\<lparr>session_closed := True\<rparr>"
    | i s where "k = Some i" and "slot_stream (slots y ! i) = Some s"
      and "frame_for_stream ok valid marshal i s ?f (drop 12 m) y = Inr (r, y')"
    | "frame_for_new_stream ok valid marshal negotiate ?f (drop 12 m) y = Inr (r, y')"
    using assms(1) k
    by (auto simp: yamux_decode_def Let_def bind_res_Inr_iff split: if_splits option.splits)
  then show ?thesis
  proof cases
    case 4
    then show ?thesis using some [OF 4(1)] assms(2,3) session_inv_frame_for_stream by fastforce
  qed (use assms(2-) session_inv_frame_for_new_stream session_inv_leaves [OF leaves_streams_steps(6)]
      session_inv_leaves [OF leaves_streams_steps(10)] in blast)+
qed

lemma session_inv_step:
  assumes "yamux_step ok valid marshal negotiate y y'" and "session_inv y"
    and "\<And>c bs. leaves_streams (marshal c bs)" and "\<And>c. leaves_streams (negotiate c)"
  shows "session_inv y'"
  using assms
proof (cases rule: yamux_step.cases)
  case (written cx m r)
  then show ?thesis using assms(2) write_leaves session_inv_cong by metis
next
  case (decoded m r out)
  then show ?thesis using session_inv_decode assms by blast
next
  case (ended err r)
  then show ?thesis using assms(2) session_close_leaves session_inv_cong by metis
qed (use assms(2) session_inv_channel_new leaves_streams_steps session_inv_leaves snd_conv in metis)+

lemma session_inv_reachable:
  assumes "yamux_reachable ok valid marshal negotiate y"
    and "\<And>c bs. leaves_streams (marshal c bs)" and "\<And>c. leaves_streams (negotiate c)"
  shows "session_inv y"
proof -
  obtain server where "(yamux_step ok valid marshal negotiate)\<^sup>*\<^sup>* (libp2p_yamux_context_new server) y"
    using assms(1) by (auto simp: yamux_reachable_def)
  then show ?thesis
    by (induction rule: rtranclp_induct) (auto intro: session_inv_new session_inv_step assms(2,3))
qed

section \<open>Frames that are refused\<close>

text \<open>Any frame for a stream, as the other end decodes it.\<close>

lemma decode_frame_for_stream:
  assumes "version f = YAMUX_VERSION" and "streamid f \<noteq> 0"
  shows "yamux_decode ok valid marshal negotiate (frame_memory (encode_frame f) @ bs) y =
    bind_res (find_slot (streamid f) (slots y)) (\<lambda>found.
      case found of
        Some i \<Rightarrow>
          (case slot_stream (slots y ! i) of
             None \<Rightarrow> Inl Undefined
           | Some s \<Rightarrow> bind_res (frame_for_stream ok valid marshal i s f bs y) (\<lambda>(r, y'). Inr (r, y', None)))
      | None \<Rightarrow>
          bind_res (frame_for_new_stream ok valid marshal negotiate f bs y) (\<lambda>(r, y').
            Inr (r, y', if flags f AND yamux_frame_syn \<noteq> 0
              then yamux_pull_message_from_frame (frame_memory (encode_frame f) @ bs) else None)))"
  using assms by (simp add: yamux_decode_def Let_def)

lemma acknowledgement_refused:
  assumes "session_inv y" and "version f = YAMUX_VERSION" and "streamid f \<noteq> 0" and "flags f = yamux_frame_ack"
  shows "yamux_decode ok valid marshal negotiate (frame_memory (encode_frame f) @ bs) y = Inr (- EPROTO, y, None)"
proof -
  obtain k where k: "find_slot (streamid f) (slots y) = Inr k"
    and some: "\<And>i. k = Some i \<Longrightarrow> \<exists>s. slot_stream (slots y ! i) = Some s \<and> ys_state s = yamux_stream_inited"
    using find_slot_inv [of "length (channels y)" "slots y" "streamid f"] assms(1)
    by (fastforce simp: session_inv_def stream_ok_def)
  have "frame_for_new_stream ok valid marshal negotiate f bs y = Inr (- EPROTO, y)"
    using assms(4) by (simp add: frame_for_new_stream_def yamux_codes)
  moreover have "frame_for_stream ok valid marshal i s f bs y = Inr (- EPROTO, y)"
    if "ys_state s = yamux_stream_inited" for i s
    using that assms(4) by (simp add: frame_for_stream_def yamux_codes)
  ultimately show ?thesis using k some assms(4)
    by (cases k) (auto simp: decode_frame_for_stream [OF assms(2,3)] yamux_codes)
qed

lemma ping_memory:
  assumes "\<not> session_closed a" and "yamux_session_ping ok v pong a = (r, a')"
  shows "\<exists>f. last (sent a') = frame_memory (encode_frame f) \<and> version f = YAMUX_VERSION \<and> streamid f = 0 \<and>
    frame_type f = yamux_frame_ping \<and> flags f AND yamux_frame_syn = 0"
proof -
  let ?fl = "if pong then yamux_frame_ack else yamux_frame_syn"
  let ?f = "\<lparr>version = YAMUX_VERSION, frame_type = yamux_frame_ping, flags = htons ?fl, streamid = 0,
    frame_length = htonl v\<rparr>"
  have "htonl 0 = 0" and "htons ?fl AND yamux_frame_syn = 0"
    by (simp_all add: htonl_def htons_def u32_of_def u16_of_def word_byte_def yamux_codes)
  then show ?thesis using assms
    by (intro exI [of _ ?f]) (auto simp: yamux_session_ping_def write_below_def encode_frame_def)
qed

section \<open>Writing\<close>

text \<open>Data cut into pieces of at most \<open>n\<close> bytes.\<close>

fun pieces :: "nat \<Rightarrow> bytes \<Rightarrow> bytes list" where
  "pieces n data = (if n = 0 \<or> data = [] then [] else take n data # pieces n (drop n data))"

declare pieces.simps [simp del]

text \<open>A message that was sent is a data frame for stream \<open>i\<close> with its length.\<close>

definition data_frame_for :: "u32 \<Rightarrow> bytes \<Rightarrow> bool" where
  "data_frame_for i m \<longleftrightarrow>
     (let f = decode_frame (frame_of_memory m) in
      version f = YAMUX_VERSION \<and> frame_type f = yamux_frame_data \<and> streamid f = i \<and>
      12 \<le> length m \<and> unat (frame_length f) = length m - 12)"

lemma data_frame_for_sent:
  "length bs < 2 ^ 32 \<Longrightarrow> data_frame_for i (frame_memory (encode_frame
     \<lparr>version = YAMUX_VERSION, frame_type = yamux_frame_data, flags = fl, streamid = i,
      frame_length = of_nat (length bs)\<rparr>) @ bs)"
  by (simp add: data_frame_for_def Let_def unat_of_nat)

lemma update_keeps:
  "ch_number ch = ch_number (cs ! x) \<Longrightarrow> ch_number (cs[x := ch] ! c) = ch_number (cs ! c)"
  "ch_buffer ch = ch_buffer (cs ! x) \<Longrightarrow> ch_buffer (cs[x := ch] ! c) = ch_buffer (cs ! c)"
  by (cases "x = c"; cases "c < length cs"; simp add: list_update_beyond)+

lemma get_flags_simps [simp]:
  "slots (snd (get_flags cx y)) = slots y" "sent (snd (get_flags cx y)) = sent y"
  "length (channels (snd (get_flags cx y))) = length (channels y)"
  "ch_number (channels (snd (get_flags cx y)) ! c) = ch_number (channels y ! c)"
  "ch_buffer (channels (snd (get_flags cx y)) ! c) = ch_buffer (channels y ! c)"
  by (auto simp: get_flags_def case_prod_unfold Let_def update_keeps put_channel_def split: yamux_context.splits)

lemma stream_write_loop_pieces:
  assumes "unat ws \<noteq> 0" and "length data < 2 ^ 32"
  shows "\<exists>y' ms. yamux_stream_write_loop (\<lambda>_. True) c ws n data y = Some (n, y') \<and> sent y' = sent y @ ms \<and>
    map (drop 12) ms = pieces (unat ws) data \<and> list_all (data_frame_for (ch_number (channels y ! c))) ms"
  using assms(2)
proof (induction "length data" arbitrary: data y rule: less_induct)
  case less
  show ?case
  proof (cases "data = []")
    case True
    then show ?thesis by (subst yamux_stream_write_loop.simps) (simp add: pieces.simps)
  next
    case False
    let ?adv = "min (length data) (unat ws)"
    obtain fl y1 where fl: "get_flags (Channel_Context c) y = (fl, y1)" by fastforce
    let ?m = "frame_memory (encode_frame \<lparr>version = YAMUX_VERSION, frame_type = yamux_frame_data, flags = fl,
      streamid = ch_number (channels y ! c), frame_length = of_nat ?adv\<rparr>) @ take ?adv data"
    have y1: "sent y1 = sent y" "ch_number (channels y1 ! c) = ch_number (channels y ! c)"
      using get_flags_simps [of "Channel_Context c" y] unfolding fl by auto
    have "length (drop ?adv data) < length data" using False assms(1) by (cases data) auto
    moreover have "length (drop ?adv data) < 2 ^ 32" using less.prems by simp
    ultimately obtain y' ms
      where IH: "yamux_stream_write_loop (\<lambda>_. True) c ws n (drop ?adv data) (y1\<lparr>sent := sent y1 @ [?m]\<rparr>) = Some (n, y')"
        "sent y' = sent y @ ?m # ms" "map (drop 12) ms = pieces (unat ws) (drop ?adv data)"
        "list_all (data_frame_for (ch_number (channels y ! c))) ms"
      using less.hyps [of "drop ?adv data" "y1\<lparr>sent := sent y1 @ [?m]\<rparr>"] y1 by auto
    have "yamux_stream_write_loop (\<lambda>_. True) c ws n data y = Some (n, y')"
      using False IH(1) fl by (subst yamux_stream_write_loop.simps) (simp add: Let_def write_below_def)
    moreover have "pieces (unat ws) data = take ?adv data # pieces (unat ws) (drop ?adv data)"
      using False assms(1) by (subst pieces.simps) (cases "length data \<le> unat ws"; simp add: min_def)
    moreover have "data_frame_for (ch_number (channels y ! c)) ?m"
    proof -
      have len: "length (take ?adv data) = ?adv" by simp
      have "?adv < 2 ^ 32" using less.prems by simp
      then show ?thesis by (rule data_frame_for_sent [of "take ?adv data", unfolded len])
    qed
    ultimately show ?thesis using IH(2-) by (intro exI [of _ y'] exI [of _ "?m # ms"]) simp
  qed
qed

text \<open>With an empty window the loop sends frames without data for ever.\<close>

lemma stream_write_loop_diverges:
  assumes "data \<noteq> []"
  shows "yamux_stream_write_loop (\<lambda>_. True) c 0 n data y = None"
proof (rule ccontr)
  assume "yamux_stream_write_loop (\<lambda>_. True) c 0 n data y \<noteq> None"
  then obtain r where "yamux_stream_write_loop (\<lambda>_. True) c 0 n data y = Some r" by auto
  then have "\<not> (data \<noteq> [] \<and> (\<lambda>_ :: bytes. True) = (\<lambda>_. True) \<and> (0 :: u32) = 0)"
    by (rule yamux_stream_write_loop.raw_induct [where P = "\<lambda>ok c ws n data y r. \<not> (data \<noteq> [] \<and> ok = (\<lambda>_. True) \<and> ws = 0)", rotated])
      (fastforce simp: Let_def case_prod_unfold split: if_splits)
  then show False using assms by simp
qed

section \<open>A channel over two sessions\<close>

text \<open>The messages one end writes on a channel, each decoded by the other end as it comes.\<close>

fun transfer ::
    "(bytes \<Rightarrow> bool) \<Rightarrow> (bytes \<Rightarrow> bool) \<Rightarrow> (nat \<Rightarrow> bytes \<Rightarrow> yamux \<Rightarrow> yamux) \<Rightarrow> (nat \<Rightarrow> yamux \<Rightarrow> yamux) \<Rightarrow> nat \<Rightarrow>
     bytes list \<Rightarrow> yamux \<Rightarrow> yamux \<Rightarrow> (yamux \<times> yamux) result" where
  "transfer ok valid marshal negotiate c [] a b = Inr (a, b)"
| "transfer ok valid marshal negotiate c (m # ms) a b =
     bind_res (libp2p_yamux_write ok (Channel_Context c) m a) (\<lambda>(r, a').
     bind_res (yamux_decode ok valid marshal negotiate (last (sent a')) b) (\<lambda>(r', b', out).
     transfer ok valid marshal negotiate c ms a' b'))"

text \<open>A written message as it is sent.\<close>

definition data_frame :: "u16 \<Rightarrow> u32 \<Rightarrow> bytes \<Rightarrow> yamux_frame" where
  "data_frame fl i m =
     \<lparr>version = YAMUX_VERSION, frame_type = yamux_frame_data, flags = fl, streamid = i, frame_length = of_nat (length m)\<rparr>"

lemma write_on_channel:
  assumes "yamux_state a = yamux_stream_est" and "length m < 2 ^ 32"
    and "get_flags (Channel_Context c) a = (fl, a1)"
  shows "libp2p_yamux_write ok (Channel_Context c) m a =
    (let s = frame_memory (encode_frame (data_frame fl (ch_number (channels a ! c)) m)) @ m
     in Inr (ok s, a1\<lparr>sent := sent a @ [s]\<rparr>))"
  using assms get_flags_simps(2,4) [of "Channel_Context c" a]
  by (simp add: libp2p_yamux_write_def libp2p_yamux_prepare_to_send_def malloc_ok_def Let_def write_below_def
      data_frame_def)

text \<open>A channel both ends have: the receiver's slot, its stream, and the protocol that reads it.\<close>

definition channel_open :: "nat \<Rightarrow> nat \<Rightarrow> yamux_stream \<Rightarrow> yamux \<Rightarrow> yamux \<Rightarrow> bool" where
  "channel_open c i s a b \<longleftrightarrow>
     yamux_state a = yamux_stream_est \<and> c < length (channels a) \<and> ch_state (channels a ! c) = yamux_stream_est \<and>
     ch_number (channels a ! c) \<noteq> 0 \<and> find_slot (ch_number (channels a ! c)) (slots b) = Inr (Some i) \<and>
     i < length (slots b) \<and> slot_stream (slots b ! i) = Some s \<and> ys_channel s < length (channels b) \<and>
     ch_child (channels b ! ys_channel s)"

lemma transfer_step:
  assumes "channel_open c i s a b" and "length m < 2 ^ 32"
    and "length (ch_buffer (channels b ! ys_channel s)) + length m < 2 ^ 63"
  shows "\<exists>a' b'. transfer ok valid marshal negotiate c (m # ms) a b = transfer ok valid marshal negotiate c ms a' b' \<and>
    channel_open c i s a' b' \<and>
    ch_buffer (channels b' ! ys_channel s) = ch_buffer (channels b ! ys_channel s) @ m"
proof -
  let ?n = "ch_number (channels a ! c)" and ?ch = "channels b ! ys_channel s"
  let ?m = "frame_memory (encode_frame (data_frame 0 ?n m)) @ m"
  let ?a = "a\<lparr>sent := sent a @ [?m]\<rparr>"
  let ?b = "if m = [] then b else put_channel (ys_channel s) (?ch\<lparr>ch_buffer := ch_buffer ?ch @ m\<rparr>) b"
  have slot: "put_stream i s b = b"
    using assms(1) by (cases "slots b ! i") (simp add: channel_open_def put_stream_def list_update_same_conv)
  have flags: "get_flags (Channel_Context c) a = (0, a)"
    using assms(1) by (simp add: channel_open_def get_flags_def put_channel_def list_update_same_conv)
  have wrote: "libp2p_yamux_write ok (Channel_Context c) m a = Inr (ok ?m, ?a)"
    using write_on_channel [OF _ assms(2) flags] assms(1) by (simp add: channel_open_def Let_def)
  have "frame_for_stream ok valid marshal i s (data_frame 0 ?n m) m b =
      Inr (c_int (int (length m) + int (length m + 12)), ?b)"
    using assms slot by (simp add: frame_for_stream_def Let_def stream_window_def yamux_stream_process_def data_frame_def
        yamux_codes channel_open_def buffer_put_eq unat_of_nat)
  then have "yamux_decode ok valid marshal negotiate ?m b =
      Inr (c_int (int (length m) + int (length m + 12)), ?b, None)"
    using assms(1)
    by (subst decode_frame_for_stream) (simp_all add: channel_open_def data_frame_def)
  then show ?thesis using wrote assms(1)
    by (intro exI [of _ ?a] exI [of _ ?b]) (auto simp: channel_open_def)
qed

lemma transfer_all:
  assumes "channel_open c i s a b" and "\<forall>m\<in>set ms. length m < 2 ^ 32"
    and "length (ch_buffer (channels b ! ys_channel s)) + length (concat ms) < 2 ^ 63"
  shows "\<exists>a' b'. transfer ok valid marshal negotiate c ms a b = Inr (a', b') \<and> channel_open c i s a' b' \<and>
    ch_buffer (channels b' ! ys_channel s) = ch_buffer (channels b ! ys_channel s) @ concat ms"
  using assms
proof (induction ms arbitrary: a b)
  case (Cons m ms)
  have "\<exists>a' b'. transfer ok valid marshal negotiate c (m # ms) a b = transfer ok valid marshal negotiate c ms a' b' \<and>
    channel_open c i s a' b' \<and> ch_buffer (channels b' ! ys_channel s) = ch_buffer (channels b ! ys_channel s) @ m"
    using Cons.prems by (intro transfer_step) auto
  then obtain a' b' where 1: "transfer ok valid marshal negotiate c (m # ms) a b = transfer ok valid marshal negotiate c ms a' b'"
    "channel_open c i s a' b'" "ch_buffer (channels b' ! ys_channel s) = ch_buffer (channels b ! ys_channel s) @ m"
    by blast
  moreover have "length (ch_buffer (channels b' ! ys_channel s)) + length (concat ms) < 2 ^ 63"
    using Cons.prems(3) 1(3) by simp
  ultimately show ?case using Cons.IH [of a' b'] Cons.prems(2) by auto
qed simp

text \<open>A new channel, and the first message on it.\<close>

lemma first_write:
  assumes "session_inv a" and "yamux_state a = yamux_stream_est" and "nextid a \<noteq> 0" and "length m < 2 ^ 32"
    and "yamux_channel_new 0 a = Inr (Some c, a1)"
    and "libp2p_yamux_write ok (Channel_Context c) m a1 = Inr (r, a2)"
  shows "last (sent a2) = frame_memory (encode_frame (data_frame yamux_frame_syn (nextid a) m)) @ m"
proof -
  have 1: "yamux_state a1 = yamux_stream_est" "c < length (channels a1)" "channels a1 ! c = new_channel (nextid a)"
    using assms(1-3,5) by (auto simp: yamux_channel_new_eq Let_def split: if_splits)
  obtain a1' where "get_flags (Channel_Context c) a1 = (yamux_frame_syn, a1')"
    using 1 by (auto simp: get_flags_def new_channel_def)
  from write_on_channel [OF 1(1) assms(4) this] show ?thesis
    using assms(6) 1(3) by (auto simp: Let_def new_channel_def)
qed

section \<open>Reading in pieces\<close>

fun read_raw_times :: "(yamux \<Rightarrow> (bool \<times> yamux \<times> bytes option) result) \<Rightarrow> nat \<Rightarrow> nat \<Rightarrow> yamux \<Rightarrow> bytes option list result" where
  "read_raw_times fetch k 0 y = Inr []"
| "read_raw_times fetch k (Suc n) y =
     bind_res (libp2p_yamux_read_raw fetch k y) (\<lambda>(r, y').
     bind_res (read_raw_times fetch k n y') (\<lambda>rs. Inr (r # rs)))"

lemma read_raw_again:
  assumes "buffered_message y = Some d" and "buffered_message_pos y = int k" and "2 * k < length d"
  shows "read_raw_times fetch k n y = Inr (replicate n (Some (take k (drop k d))))"
proof (induction n)
  case (Suc n)
  have "libp2p_yamux_read_raw fetch k y = Inr (Some (take k (drop k d)), y)"
    using assms by (simp add: libp2p_yamux_read_raw_def Let_def min_def)
  then show ?case using Suc by simp
qed simp

section \<open>Small sessions\<close>

text \<open>A fresh connection; one channel opened on it; and the same with a first message written.\<close>

definition session_of :: "bool \<Rightarrow> yamux" where
  "session_of server = (libp2p_yamux_context_new server)\<lparr>yamux_state := yamux_stream_est\<rparr>"

definition opened_session :: yamux where
  "opened_session = snd (projr (yamux_channel_new 0 (session_of False)))"

definition written_session :: "bytes \<Rightarrow> yamux" where
  "written_session m = snd (projr (libp2p_yamux_write (\<lambda>_. True) (Channel_Context 0) m opened_session))"

text \<open>The channel with a state, a window and a protocol that reads it.\<close>

definition channel_session :: "yamux_stream_state \<Rightarrow> int \<Rightarrow> bool \<Rightarrow> yamux" where
  "channel_session st w child =
     opened_session\<lparr>channels := [(new_channel 1)\<lparr>ch_state := st, ch_window_size := w, ch_child := child\<rparr>]\<rparr>"

lemma session_inv_session_of: "session_inv (session_of server)"
  by (simp add: session_of_def session_inv_leaves [OF leaves_streams_steps(9)] session_inv_new)

lemma opened_session_eq:
  "yamux_channel_new 0 (session_of False) = Inr (Some 0, opened_session)"
  "opened_session = (session_of False)\<lparr>nextid := 3, slots := [\<lparr>slot_stream = Some \<lparr>ys_id = 1,
     ys_state = yamux_stream_inited, ys_window_size = YAMUX_DEFAULT_WINDOW, ys_channel = 0\<rparr>, slot_alive = True\<rparr>],
     channels := [new_channel 1]\<rparr>"
  unfolding opened_session_def
  by (simp_all add: session_of_def libp2p_yamux_context_new_def yamux_channel_new_def accept_backlog_def)

lemma written_session_eq:
  "libp2p_yamux_write (\<lambda>_. True) (Channel_Context 0) [7] opened_session = Inr (True, written_session [7])"
  by (simp add: written_session_def opened_session_eq(2) session_of_def libp2p_yamux_write_def
      libp2p_yamux_prepare_to_send_def malloc_ok_def Let_def case_prod_unfold write_below_def)

lemma reachable_sessions:
  "yamux_reachable ok valid marshal negotiate (session_of server)"
  "yamux_reachable ok valid marshal negotiate opened_session"
proof -
  have "yamux_step ok valid marshal negotiate (libp2p_yamux_context_new server) (session_of server)" for server
    unfolding session_of_def by (rule established)
  then have star: "(yamux_step ok valid marshal negotiate)\<^sup>*\<^sup>* (libp2p_yamux_context_new server) (session_of server)" for server
    by blast
  have "yamux_step ok valid marshal negotiate (session_of False) opened_session"
    using opened_session_eq(1) by (rule opened)
  with star [of False] star show "yamux_reachable ok valid marshal negotiate (session_of server)"
    and "yamux_reachable ok valid marshal negotiate opened_session"
    unfolding yamux_reachable_def by (blast, meson rtranclp.rtrancl_into_rtrancl)
qed

lemma leaves_streams_id: "leaves_streams (\<lambda>y. y)"
  by (simp add: leaves_streams_def)

section \<open>Properties\<close>

text \<open>
  C13: in every state a connection can reach, whatever frames come in, all streams of the session
  are alive, at most 256, each \<open>inited\<close> or \<open>closed\<close> and with a channel, and every channel's window
  is zero. So no stream is ever waiting for an acknowledgement: every ACK frame, also the one that
  answers this side's own SYN, is refused with \<open>EPROTO\<close> and changes nothing.
\<close>

theorem yamux_acknowledgements_refused:
  assumes "yamux_reachable ok valid marshal negotiate y"
    and "\<And>c bs. leaves_streams (marshal c bs)" and "\<And>c. leaves_streams (negotiate c)"
  shows "session_inv y \<and>
    (\<forall>f bs. version f = YAMUX_VERSION \<and> streamid f \<noteq> 0 \<and> flags f = yamux_frame_ack \<longrightarrow>
      yamux_decode ok valid marshal negotiate (frame_memory (encode_frame f) @ bs) y = Inr (- EPROTO, y, None))"
  using session_inv_reachable [OF assms] acknowledgement_refused by blast

theorem yamux_acknowledgements_refused_witness:
  "yamux_decode (\<lambda>_. True) (\<lambda>_. False) (\<lambda>_ _ y. y) (\<lambda>_ y. y)
    (frame_memory (encode_frame \<lparr>version = 0, frame_type = 1, flags = 2, streamid = 1, frame_length = 0\<rparr>)) opened_session =
    Inr (- EPROTO, opened_session, None)"
  using yamux_acknowledgements_refused [OF reachable_sessions(2) leaves_streams_id leaves_streams_id,
      of "\<lambda>_. True" "\<lambda>_. False", THEN conjunct2, rule_format,
      of "\<lparr>version = 0, frame_type = 1, flags = 2, streamid = 1, frame_length = 0\<rparr>" "[]"]
  by (simp add: yamux_codes)

text \<open>
  Pings never arrive: the frame of a ping or of the answer to one goes out without being
  encoded, so the other end, which decodes it, refuses it with \<open>EPROTO\<close>.
\<close>

theorem yamux_ping_is_refused:
  assumes "\<not> session_closed a" and "yamux_session_ping ok v pong a = (r, a')"
  shows "yamux_decode ok' valid marshal negotiate (last (sent a')) b = Inr (- EPROTO, b, None)"
proof -
  obtain f where "last (sent a') = frame_memory (encode_frame f) @ []" and "version f = YAMUX_VERSION"
    and "streamid f = 0" and "frame_type f = yamux_frame_ping" and "flags f AND yamux_frame_syn = 0"
    using ping_memory [OF assms] by auto
  then show ?thesis by (simp only: yamux_decode_def decode_sent Let_def) simp
qed


theorem yamux_ping_is_refused_witness:
  "yamux_decode (\<lambda>_. True) (\<lambda>_. False) (\<lambda>_ _ y. y) (\<lambda>_ y. y)
    (last (sent (snd (yamux_session_ping (\<lambda>_. True) 5 False (session_of True))))) (session_of True) =
    Inr (- EPROTO, session_of True, None)"
  by (rule yamux_ping_is_refused [of "session_of True" _ _ _ "fst (yamux_session_ping (\<lambda>_. True) 5 False (session_of True))"])
    (simp_all add: session_of_def libp2p_yamux_context_new_def)

text \<open>
  \<open>yamux_stream_write\<close> with a window returns: it sends the data in pieces of at most that many
  bytes, each behind a data frame with the channel's number and its own length, and gives back the
  length of the data. Without a window it sends frames with no data for ever; and no code opens a
  window, so in every state a connection can reach it does not return.
\<close>

theorem yamux_stream_write_needs_window:
  fixes c :: nat and y :: yamux
  assumes "data \<noteq> []" and "length data < 2 ^ 32"
  defines "ws \<equiv> (word_of_int (ch_window_size (channels y ! c)) :: u32)" and "n \<equiv> ch_number (channels y ! c)"
  shows "(ws \<noteq> 0 \<longrightarrow>
      (\<exists>y' ms. yamux_stream_write (\<lambda>_. True) c data y = Some (int (length data), y') \<and> sent y' = sent y @ ms \<and>
        map (drop 12) ms = pieces (unat ws) data \<and> list_all (data_frame_for n) ms)) \<and>
    (ws = 0 \<longrightarrow> yamux_stream_write (\<lambda>_. True) c data y = None) \<and>
    (yamux_reachable ok valid marshal negotiate y \<and> (\<forall>c bs. leaves_streams (marshal c bs)) \<and>
      (\<forall>c. leaves_streams (negotiate c)) \<and> c < length (channels y) \<longrightarrow> ws = 0)"
proof (intro conjI impI)
  assume "ws \<noteq> 0"
  then have "unat ws \<noteq> 0" by (simp add: unat_eq_0)
  from stream_write_loop_pieces [OF this assms(2), of c "length data" y]
  show "\<exists>y' ms. yamux_stream_write (\<lambda>_. True) c data y = Some (int (length data), y') \<and> sent y' = sent y @ ms \<and>
      map (drop 12) ms = pieces (unat ws) data \<and> list_all (data_frame_for n) ms"
    using assms(1) by (auto simp: yamux_stream_write_def ws_def n_def)
next
  assume "ws = 0"
  then show "yamux_stream_write (\<lambda>_. True) c data y = None"
    using assms(1) stream_write_loop_diverges by (simp add: yamux_stream_write_def ws_def)
next
  assume "yamux_reachable ok valid marshal negotiate y \<and> (\<forall>c bs. leaves_streams (marshal c bs)) \<and>
      (\<forall>c. leaves_streams (negotiate c)) \<and> c < length (channels y)"
  then show "ws = 0" using session_inv_reachable [of ok valid marshal negotiate y]
    by (auto simp: session_inv_def list_all_length ws_def)
qed

theorem yamux_stream_write_needs_window_witness:
  "(\<exists>y' ms. yamux_stream_write (\<lambda>_. True) 0 [1, 2, 3, 4, 5] (channel_session yamux_stream_est 3 False) = Some (5, y') \<and>
      map (drop 12) ms = [[1, 2, 3], [4, 5]] \<and> list_all (data_frame_for 1) ms) \<and>
   yamux_stream_write (\<lambda>_. True) 0 [1] opened_session = None"
proof
  let ?y = "channel_session yamux_stream_est 3 False"
  have ws: "word_of_int (ch_window_size (channels ?y ! 0)) = (3 :: u32)" "ch_number (channels ?y ! 0) = 1"
    by (simp_all add: channel_session_def new_channel_def)
  have "pieces 3 [1, 2, 3, 4, 5] = [[1, 2, 3], [4, 5]]" by (simp add: pieces.simps)
  then show "\<exists>y' ms. yamux_stream_write (\<lambda>_. True) 0 [1, 2, 3, 4, 5] ?y = Some (5, y') \<and>
      map (drop 12) ms = [[1, 2, 3], [4, 5]] \<and> list_all (data_frame_for 1) ms"
    using yamux_stream_write_needs_window [of "[1, 2, 3, 4, 5]" ?y 0, THEN conjunct1, unfolded ws] by fastforce
  show "yamux_stream_write (\<lambda>_. True) 0 [1] opened_session = None"
    using yamux_stream_write_needs_window [of "[1]" opened_session 0 "\<lambda>_. True" "\<lambda>_. False" "\<lambda>_ _ y. y" "\<lambda>_ y. y"]
      reachable_sessions(2) leaves_streams_id
    by (simp add: opened_session_eq(2))
qed

text \<open>
  C12: on a channel both ends have, what one end writes arrives: after any messages have been
  written and decoded in turn, the receiver's channel read gives all bytes in order, behind those
  that were waiting, and leaves the buffer empty.
\<close>

theorem yamux_data_arrives:
  assumes "channel_open c i s a b" and "\<forall>m\<in>set ms. length m < 2 ^ 32"
    and "length (ch_buffer (channels b ! ys_channel s)) + length (concat ms) < 2 ^ 63"
    and "ch_buffer (channels b ! ys_channel s) @ concat ms \<noteq> []"
  shows "\<exists>a' b'. transfer ok valid marshal negotiate c ms a b = Inr (a', b') \<and> channel_open c i s a' b' \<and>
    fst (libp2p_yamux_channel_read (ys_channel s) b') = Some (ch_buffer (channels b ! ys_channel s) @ concat ms) \<and>
    ch_buffer (channels (snd (libp2p_yamux_channel_read (ys_channel s) b')) ! ys_channel s) = []"
proof -
  obtain a' b' where 1: "transfer ok valid marshal negotiate c ms a b = Inr (a', b')" "channel_open c i s a' b'"
    and 2: "ch_buffer (channels b' ! ys_channel s) = ch_buffer (channels b ! ys_channel s) @ concat ms"
    using transfer_all [OF assms(1-3)] by blast
  have "length (ch_buffer (channels b' ! ys_channel s)) \<noteq> 0" and "malloc_ok (length (ch_buffer (channels b' ! ys_channel s)))"
    using assms(3,4) 2 by (simp_all add: malloc_ok_def)
  then show ?thesis using 1 2
    by (intro exI [of _ a'] exI [of _ b'])
      (simp add: libp2p_yamux_channel_read_def Let_def buffer_get_eq channel_open_def)
qed

theorem yamux_data_arrives_witness:
  "\<exists>a' b'. transfer (\<lambda>_. True) (\<lambda>_. False) (\<lambda>_ _ y. y) (\<lambda>_ y. y) 0 [[1, 2], [3]]
      (channel_session yamux_stream_est 0 False) (channel_session yamux_stream_est 0 True) = Inr (a', b') \<and>
    fst (libp2p_yamux_channel_read 0 b') = Some [1, 2, 3]"
  using yamux_data_arrives [of 0 0 "\<lparr>ys_id = 1, ys_state = yamux_stream_inited, ys_window_size = YAMUX_DEFAULT_WINDOW, ys_channel = 0\<rparr>"
      "channel_session yamux_stream_est 0 False" "channel_session yamux_stream_est 0 True" "[[1, 2], [3]]"
      "\<lambda>_. True" "\<lambda>_. False" "\<lambda>_ _ y. y" "\<lambda>_ y. y"]
  by (auto simp: channel_open_def channel_session_def opened_session_eq(2) new_channel_def session_of_def
      threadsafe_buffer_context_new_def)



text \<open>
  With a server at the other end the first message on a new channel would be fatal: the frame
  carries SYN and data, and the stream that is made for it has no \<open>Stream\<close> to find the channel
  by, so the data is written through a null pointer.
\<close>

theorem yamux_opening_with_data_faults:
  assumes "session_inv a" and "yamux_state a = yamux_stream_est" and "odd (unat (nextid a))"
    and "length m < 2 ^ 32" and "m \<noteq> []"
    and "yamux_channel_new 0 a = Inr (Some c, a1)"
    and "libp2p_yamux_write ok' (Channel_Context c) m a1 = Inr (r, a2)"
    and "session_inv b" and "am_server b" and "length (slots b) < accept_backlog"
    and "find_slot (nextid a) (slots b) = Inr None"
  shows "yamux_decode ok valid marshal negotiate (last (sent a2)) b = Inl Undefined"
proof -
  have id: "nextid a \<noteq> 0" using assms(3) by auto
  have "yamux_stream_process valid marshal None (data_frame yamux_frame_syn (nextid a) m) m z = Inl Undefined" for z
    using assms(4,5) by (simp add: yamux_stream_process_def data_frame_def yamux_codes unat_of_nat)
  then have "frame_for_new_stream ok valid marshal negotiate (data_frame yamux_frame_syn (nextid a) m) m b = Inl Undefined"
    using assms(3,8,9,10) id
    by (simp add: frame_for_new_stream_def yamux_channel_new_eq Let_def data_frame_def yamux_codes)
  moreover have "last (sent a2) = frame_memory (encode_frame (data_frame yamux_frame_syn (nextid a) m)) @ m"
    using first_write assms(1,2,4,6,7) id by blast
  ultimately show ?thesis using id assms(11)
    by (simp add: decode_frame_for_stream data_frame_def)
qed

theorem yamux_opening_with_data_faults_witness:
  "yamux_decode (\<lambda>_. True) (\<lambda>_. False) (\<lambda>_ _ y. y) (\<lambda>_ y. y) (last (sent (written_session [7])))
    (session_of True) = Inl Undefined"
  by (rule yamux_opening_with_data_faults [OF session_inv_session_of _ _ _ _ opened_session_eq(1) written_session_eq
        session_inv_session_of])
    (simp_all add: session_of_def libp2p_yamux_context_new_def accept_backlog_def)

text \<open>
  A message that is read through a buffer smaller than half of it is never read to the end:
  after the first piece, every further call gives the second piece again.
\<close>

theorem yamux_read_raw_repeats:
  assumes "buffered_message y = Some d" and "buffered_message_pos y = 0" and "2 * k < length d"
  shows "read_raw_times fetch k (Suc n) y = Inr (Some (take k d) # replicate n (Some (take k (drop k d))))"
proof -
  let ?y = "y\<lparr>buffered_message_pos := int k\<rparr>"
  have "libp2p_yamux_read_raw fetch k y = Inr (Some (take k d), ?y)"
    using assms by (simp add: libp2p_yamux_read_raw_def Let_def min_def)
  then show ?thesis using read_raw_again [of ?y d k fetch n] assms by simp
qed

theorem yamux_read_raw_repeats_witness:
  "read_raw_times (\<lambda>y. Inr (False, y, None)) 2 4
      ((session_of False)\<lparr>buffered_message := Some [1, 2, 3, 4, 5, 6], buffered_message_pos := 0\<rparr>) =
    Inr [Some [1, 2], Some [3, 4], Some [3, 4], Some [3, 4]]"
  using yamux_read_raw_repeats [of "(session_of False)\<lparr>buffered_message := Some [1, 2, 3, 4, 5, 6], buffered_message_pos := 0\<rparr>"
      "[1, 2, 3, 4, 5, 6]" 2 "\<lambda>y. Inr (False, y, None)" 3]
  by (simp add: eval_nat_numeral)

end
