(* ===== verification/Base32.thy ===== *)
theory Base32
  imports Ipfs_Prelude
begin

text \<open>
  Base 32, \<open>libp2p/crypto/encoding/base32.c\<close>, and the keys of the datastore made with it,
  \<open>libipfs/datastore/ds_helper.c\<close>.

  Characters and the values of digits are bytes: the code computes in \<open>int\<close> and keeps the low
  five (encoder) or eight (decoder) bits. The decoder is the one without a context, as it is
  called here: a newline is no character of the alphabet.
\<close>

section \<open>The encoder\<close>

definition b32str :: bytes where
  "b32str = map of_char ''ABCDEFGHIJKLMNOPQRSTUVWXYZ234567''"

definition b32_digit :: "byte \<Rightarrow> byte" where
  "b32_digit w = b32str ! unat (w AND 0x1F)"

definition pad :: byte where "pad = of_char (CHR ''='')"

text \<open>The eight characters for the next one to five bytes.\<close>

fun b32_group :: "bytes \<Rightarrow> bytes" where
  "b32_group [] = []"
| "b32_group [a] = [b32_digit (drop_bit 3 a), b32_digit (push_bit 2 a), pad, pad, pad, pad, pad, pad]"
| "b32_group [a, b] =
     [b32_digit (drop_bit 3 a), b32_digit (push_bit 2 a + drop_bit 6 b), b32_digit (drop_bit 1 b),
      b32_digit (push_bit 4 b), pad, pad, pad, pad]"
| "b32_group [a, b, c] =
     [b32_digit (drop_bit 3 a), b32_digit (push_bit 2 a + drop_bit 6 b), b32_digit (drop_bit 1 b),
      b32_digit (push_bit 4 b + drop_bit 4 c), b32_digit (push_bit 1 c), pad, pad, pad]"
| "b32_group [a, b, c, d] =
     [b32_digit (drop_bit 3 a), b32_digit (push_bit 2 a + drop_bit 6 b), b32_digit (drop_bit 1 b),
      b32_digit (push_bit 4 b + drop_bit 4 c), b32_digit (push_bit 1 c + drop_bit 7 d),
      b32_digit (drop_bit 2 d), b32_digit (push_bit 3 d), pad]"
| "b32_group (a # b # c # d # e # rest) =
     [b32_digit (drop_bit 3 a), b32_digit (push_bit 2 a + drop_bit 6 b), b32_digit (drop_bit 1 b),
      b32_digit (push_bit 4 b + drop_bit 4 c), b32_digit (push_bit 1 c + drop_bit 7 d),
      b32_digit (drop_bit 2 d), b32_digit (push_bit 3 d + drop_bit 5 e), b32_digit e]"

text \<open>What is written into a buffer of \<open>outlen\<close> bytes, before the zero that ends it if there is room.\<close>

function base32_encode :: "bytes \<Rightarrow> nat \<Rightarrow> bytes" where
  "base32_encode inp outlen =
     (if inp = [] \<or> outlen = 0 then []
      else take outlen (b32_group inp) @ base32_encode (drop 5 inp) (outlen - 8))"
  by pat_completeness auto
termination by (relation "measure (\<lambda>(inp, outlen). length inp)") auto

declare base32_encode.simps [simp del]

definition libp2p_crypto_encoding_base32_encode :: "bytes \<Rightarrow> nat \<Rightarrow> bytes result" where
  "libp2p_crypto_encoding_base32_encode incoming results_length =
     (if results_length = 0 then Inl Undefined else Inr (base32_encode incoming results_length))"

definition libp2p_crypto_encoding_base32_encode_size :: "nat \<Rightarrow> nat" where
  "libp2p_crypto_encoding_base32_encode_size incoming_length =
     unat (((of_nat incoming_length - 5 :: u64) div 5) * 8 + 1)"

section \<open>The decoder\<close>

definition b32 :: "byte \<Rightarrow> byte option" where
  "b32 c =
     (let i = length (takeWhile (\<lambda>d. d \<noteq> c) b32str) in if i < 32 then Some (of_nat i) else None)"

definition isbase32 :: "byte \<Rightarrow> bool" where
  "isbase32 c \<longleftrightarrow> b32 c \<noteq> None"

definition digit :: "byte \<Rightarrow> byte" where
  "digit c = the (b32 c)"

text \<open>
  Eight characters, into a buffer with \<open>outleft\<close> bytes left: whether they are valid, and what was
  written up to the first one that is not. Every byte is written only if there is room.
\<close>

definition decode_8 :: "bytes \<Rightarrow> nat \<Rightarrow> bool \<times> bytes" where
  "decode_8 s outleft =
     (if length s < 8 \<or> \<not> isbase32 (s ! 0) \<or> \<not> isbase32 (s ! 1) then (False, [])
      else
        let o1 = [push_bit 3 (digit (s ! 0)) OR drop_bit 2 (digit (s ! 1))];
            (ok, out) =
              (if s ! 2 = pad then
                 (s ! 3 = pad \<and> s ! 4 = pad \<and> s ! 5 = pad \<and> s ! 6 = pad \<and> s ! 7 = pad, o1)
               else if \<not> isbase32 (s ! 2) \<or> \<not> isbase32 (s ! 3) then (False, o1)
               else
                 let o2 = o1 @ [push_bit 6 (digit (s ! 1)) OR push_bit 1 (digit (s ! 2)) OR drop_bit 4 (digit (s ! 3))]
                 in if s ! 4 = pad then (s ! 5 = pad \<and> s ! 6 = pad \<and> s ! 7 = pad, o2)
                    else if \<not> isbase32 (s ! 4) then (False, o2)
                    else
                      let o3 = o2 @ [push_bit 4 (digit (s ! 3)) OR drop_bit 1 (digit (s ! 4))]
                      in if s ! 5 = pad then (s ! 6 = pad \<and> s ! 7 = pad, o3)
                         else if \<not> isbase32 (s ! 5) \<or> \<not> isbase32 (s ! 6) then (False, o3)
                         else
                           let o4 = o3 @ [push_bit 7 (digit (s ! 4)) OR push_bit 2 (digit (s ! 5)) OR drop_bit 3 (digit (s ! 6))]
                           in if s ! 7 = pad then (True, o4)
                              else if \<not> isbase32 (s ! 7) then (False, o4)
                              else (True, o4 @ [push_bit 5 (digit (s ! 6)) OR digit (s ! 7)]))
        in (ok, take outleft out))"

text \<open>The loop; a group that fails is decoded once more from the start, and fails again.\<close>

function base32_decode_ctx :: "bytes \<Rightarrow> nat \<Rightarrow> bool \<times> bytes" where
  "base32_decode_ctx s outleft =
     (let (ok, out) = decode_8 s outleft in
      if ok then
        (let (r, rest) = base32_decode_ctx (drop 8 s) (outleft - length out) in (r, out @ rest))
      else (s = [], out))"
  by pat_completeness auto
termination
  by (relation "measure (\<lambda>(s, outleft). length s)") (auto simp: decode_8_def split: if_splits)

declare base32_decode_ctx.simps [simp del]

definition libp2p_crypto_encoding_base32_decode :: "bytes \<Rightarrow> nat \<Rightarrow> bytes result" where
  "libp2p_crypto_encoding_base32_decode incoming results_length =
     (let (ok, out) = base32_decode_ctx incoming results_length in if ok then Inr out else Inl Failure)"

definition libp2p_crypto_encoding_base32_decode_size :: "nat \<Rightarrow> nat" where
  "libp2p_crypto_encoding_base32_decode_size incoming_length = 5 * (incoming_length div 8) + 5"

section \<open>Keys of the datastore\<close>

definition ipfs_datastore_helper_ds_key_from_binary :: "bytes \<Rightarrow> nat \<Rightarrow> bytes result" where
  "ipfs_datastore_helper_ds_key_from_binary binary_array max_results_length =
     (if max_results_length < libp2p_crypto_encoding_base32_encode_size (length binary_array) then Inl Failure
      else libp2p_crypto_encoding_base32_encode binary_array max_results_length)"

definition ipfs_datastore_helper_binary_from_ds_key :: "bytes \<Rightarrow> nat \<Rightarrow> bytes result" where
  "ipfs_datastore_helper_binary_from_ds_key ds_key max_binary_array_length =
     (if max_binary_array_length < libp2p_crypto_encoding_base32_decode_size (length ds_key) then Inl Failure
      else libp2p_crypto_encoding_base32_decode ds_key max_binary_array_length)"

section \<open>Digits\<close>

lemma b32_b32str: "i < 32 \<Longrightarrow> b32 (b32str ! i) = Some (of_nat i)"
proof -
  have "list_all (\<lambda>i. b32 (b32str ! i) = Some (of_nat i)) [0..<32]"
    by code_simp
  then show "i < 32 \<Longrightarrow> b32 (b32str ! i) = Some (of_nat i)" by (simp add: list_all_iff)
qed

lemma five_bits: "unat (w AND 0x1F :: byte) < 32"
proof -
  have "w AND 0x1F \<le> (0x1F :: byte)" by (rule word_and_le1)
  then show ?thesis by (simp add: word_le_nat_alt)
qed

lemma b32_digit_eq: "b32 (b32_digit w) = Some (w AND 0x1F)"
  using b32_b32str [OF five_bits [of w]] by (simp add: b32_digit_def)

lemma digits [simp]: "isbase32 (b32_digit w)" "digit (b32_digit w) = w AND 0x1F" "b32_digit w \<noteq> pad"
proof -
  have "b32 pad = None" by code_simp
  then show "isbase32 (b32_digit w)" "digit (b32_digit w) = w AND 0x1F" "b32_digit w \<noteq> pad"
    using b32_digit_eq [of w] by (auto simp: isbase32_def digit_def)
qed

lemma byte_less_8: "bit (w :: byte) n \<Longrightarrow> n < 8"
  using bit_imp_le_length [of w n] by simp

lemma bit_31 [simp]: "bit (0x1F :: byte) n \<longleftrightarrow> n < 5"
proof -
  have "(0x1F :: byte) = mask 5" by (simp add: mask_eq_exp_minus_1)
  then show ?thesis by (simp only: bit_mask_iff) auto
qed

lemma plus_or:
  "push_bit 2 a + drop_bit 6 b = push_bit 2 a OR drop_bit 6 (b :: byte)"
  "push_bit 4 a + drop_bit 4 b = push_bit 4 a OR drop_bit 4 (b :: byte)"
  "push_bit 1 a + drop_bit 7 b = push_bit 1 a OR drop_bit 7 (b :: byte)"
  "push_bit 3 a + drop_bit 5 b = push_bit 3 a OR drop_bit 5 (b :: byte)"
  by (rule disjunctive_add; auto simp: bit_simps simp del: push_bit_Suc drop_bit_Suc dest: byte_less_8)+

lemma byte_eqI:
  assumes "list_all (\<lambda>n. bit a n = bit b n) [0, 1, 2, 3, 4, 5, 6, 7]"
  shows "a = (b :: byte)"
proof (rule bit_word_eqI)
  fix n :: nat
  assume "n < LENGTH(8)"
  then have "n \<in> {0, 1, 2, 3, 4, 5, 6, 7}" by auto
  then show "bit a n = bit b n" using assms by auto
qed

lemma group_bits:
  "push_bit 3 (drop_bit 3 a AND 0x1F) OR drop_bit 2 ((push_bit 2 a OR drop_bit 6 b) AND 0x1F) = (a :: byte)"
  "push_bit 3 (drop_bit 3 a AND 0x1F) OR drop_bit 2 (push_bit 2 a AND 0x1F) = (a :: byte)"
  "push_bit 6 ((push_bit 2 a OR drop_bit 6 b) AND 0x1F) OR push_bit 1 (drop_bit 1 b AND 0x1F) OR
     drop_bit 4 ((push_bit 4 b OR drop_bit 4 c) AND 0x1F) = (b :: byte)"
  "push_bit 6 ((push_bit 2 a OR drop_bit 6 b) AND 0x1F) OR push_bit 1 (drop_bit 1 b AND 0x1F) OR
     drop_bit 4 (push_bit 4 b AND 0x1F) = (b :: byte)"
  "push_bit 4 ((push_bit 4 b OR drop_bit 4 c) AND 0x1F) OR drop_bit 1 ((push_bit 1 c OR drop_bit 7 d) AND 0x1F) = (c :: byte)"
  "push_bit 4 ((push_bit 4 b OR drop_bit 4 c) AND 0x1F) OR drop_bit 1 (push_bit 1 c AND 0x1F) = (c :: byte)"
  "push_bit 7 ((push_bit 1 c OR drop_bit 7 d) AND 0x1F) OR push_bit 2 (drop_bit 2 d AND 0x1F) OR
     drop_bit 3 ((push_bit 3 d OR drop_bit 5 e) AND 0x1F) = (d :: byte)"
  "push_bit 7 ((push_bit 1 c OR drop_bit 7 d) AND 0x1F) OR push_bit 2 (drop_bit 2 d AND 0x1F) OR
     drop_bit 3 (push_bit 3 d AND 0x1F) = (d :: byte)"
  "push_bit 5 ((push_bit 3 d OR drop_bit 5 e) AND 0x1F) OR (e AND 0x1F) = (e :: byte)"
  by (rule byte_eqI; auto simp: bit_simps numeral_2_eq_2 numeral_3_eq_3 eval_nat_numeral
      simp del: push_bit_Suc drop_bit_Suc)+


section \<open>Encoding and decoding a group\<close>

lemma length_b32_group: "s \<noteq> [] \<Longrightarrow> length (b32_group s) = 8"
  by (induction s rule: b32_group.induct) auto

lemma decode_8_group:
  assumes "s \<noteq> []"
  shows "decode_8 (b32_group s @ rest) n = (True, take n (take 5 s))"
  using assms
  by (induction s rule: b32_group.induct)
    (simp_all add: decode_8_def plus_or plus_or [unfolded One_nat_def] group_bits group_bits [unfolded One_nat_def]
      Let_def take_Cons'
      del: push_bit_Suc drop_bit_Suc push_bit_and drop_bit_and push_bit_or drop_bit_or)

lemma base32_encode_nil [simp]: "base32_encode [] n = []"
  by (simp add: base32_encode.simps)

lemma base32_round:
  assumes "8 * ((length s + 4) div 5) \<le> m" and "length s \<le> n"
  shows "base32_decode_ctx (base32_encode s m) n = (True, s) \<and>
    length (base32_encode s m) = 8 * ((length s + 4) div 5)"
  using assms
proof (induction "length s" arbitrary: s m n rule: less_induct)
  case less
  show ?case
  proof (cases "s = []")
    case True
    then show ?thesis by (subst base32_decode_ctx.simps) (simp add: decode_8_def)
  next
    case False
    let ?t = "drop 5 s"
    have div: "(length s + 4) div 5 = Suc ((length ?t + 4) div 5)"
    proof -
      have "0 < k \<Longrightarrow> (k + 4) div 5 = Suc ((k - 5 + 4) div 5)" for k :: nat
      proof (cases "k \<le> 5")
        case True
        assume "0 < k"
        with True have "k \<in> {1, 2, 3, 4, 5}" by auto
        then show ?thesis by auto
      next
        case False
        then obtain j where "k = 5 + j" by (metis le_add_diff_inverse nat_le_linear)
        then show ?thesis by simp
      qed
      then show ?thesis using False by simp
    qed
    then have m: "8 \<le> m" "8 * ((length ?t + 4) div 5) \<le> m - 8" using less.prems(1) by auto
    have enc: "base32_encode s m = b32_group s @ base32_encode ?t (m - 8)"
      using False m(1) length_b32_group [OF False] by (subst base32_encode.simps) simp
    have "length ?t < length s" and "length ?t \<le> n - length (take n (take 5 s))"
      using False less.prems(2) by (auto simp: min_def)
    then have "base32_decode_ctx (base32_encode ?t (m - 8)) (n - length (take n (take 5 s))) = (True, ?t) \<and>
        length (base32_encode ?t (m - 8)) = 8 * ((length ?t + 4) div 5)"
      using less.hyps [of ?t] m(2) by blast
    moreover have "take n (take 5 s) @ ?t = s"
      using less.prems(2) by (cases "n \<le> 5") (auto simp: take_all)
    ultimately show ?thesis
      using enc div decode_8_group [OF False, of "base32_encode ?t (m - 8)" n] length_b32_group [OF False]
      by (subst base32_decode_ctx.simps) simp
  qed
qed


section \<open>Keys that are cut short\<close>

lemma b32_group_take: "b32_group (take 5 s) = b32_group s"
  by (induction s rule: b32_group.induct) auto

lemma b32_group_hd: "s \<noteq> [] \<Longrightarrow> take 1 (b32_group s) = [b32_digit (drop_bit 3 (hd s))]"
  by (induction s rule: b32_group.induct) auto

lemma base32_encode_group:
  assumes "s \<noteq> []" and "8 \<le> n"
  shows "base32_encode s n = b32_group s @ base32_encode (drop 5 s) (n - 8)"
  using assms length_b32_group [OF assms(1)] by (subst base32_encode.simps) simp

lemma base32_encode_cut:
  assumes "5 * k < length s"
  shows "base32_encode s (8 * k + 1) =
    base32_encode (take (5 * k) s) (8 * k) @ [b32_digit (drop_bit 3 (s ! (5 * k)))]"
  using assms
proof (induction k arbitrary: s)
  case 0
  then show ?case
    by (subst base32_encode.simps) (use b32_group_hd [of s] in \<open>auto simp: base32_encode.simps [of _ 0] hd_conv_nth\<close>)
next
  case (Suc k)
  let ?t = "drop 5 s"
  have "base32_encode s (8 * Suc k + 1) = b32_group s @ base32_encode ?t (8 * k + 1)"
    using Suc.prems by (subst base32_encode_group) auto
  also have "base32_encode ?t (8 * k + 1) =
      base32_encode (take (5 * k) ?t) (8 * k) @ [b32_digit (drop_bit 3 (?t ! (5 * k)))]"
    using Suc.prems by (intro Suc.IH) simp
  also have "b32_group s @ base32_encode (take (5 * k) ?t) (8 * k) = base32_encode (take (5 * Suc k) s) (8 * Suc k)"
  proof -
    have "b32_group (take (5 * Suc k) s) = b32_group s"
      using b32_group_take [of "take (5 * Suc k) s"] b32_group_take [of s] by (simp add: min_def)
    moreover have "drop 5 (take (5 * Suc k) s) = take (5 * k) ?t" by (simp add: drop_take)
    moreover have "take (5 * Suc k) s \<noteq> []" using Suc.prems by (cases s) auto
    ultimately show ?thesis using base32_encode_group [of "take (5 * Suc k) s" "8 * Suc k"] by simp
  qed
  ultimately show ?case using Suc.prems by (simp add: add.commute)
qed

lemma hash_key_size: "libp2p_crypto_encoding_base32_encode_size 32 = 41"
  by (simp add: libp2p_crypto_encoding_base32_encode_size_def)

lemma hash_key:
  assumes "length h = 32"
  shows "ipfs_datastore_helper_ds_key_from_binary h (libp2p_crypto_encoding_base32_encode_size (length h)) =
    Inr (base32_encode (take 25 h) 40 @ [b32_digit (drop_bit 3 (h ! 25))])"
  using base32_encode_cut [of 5 h] assms
  by (simp add: ipfs_datastore_helper_ds_key_from_binary_def libp2p_crypto_encoding_base32_encode_def hash_key_size)

section \<open>Properties\<close>

text \<open>
  Every array of bytes that is encoded into a buffer with room for all of it is decoded to
  itself with a buffer of the decoder's size estimate.
\<close>

theorem base32_round_trip:
  assumes "8 * ((length s + 4) div 5) \<le> m" and "m \<noteq> 0"
  shows "\<exists>t. libp2p_crypto_encoding_base32_encode s m = Inr t \<and>
    libp2p_crypto_encoding_base32_decode t (libp2p_crypto_encoding_base32_decode_size (length t)) = Inr s"
proof -
  have "length (base32_encode s m) = 8 * ((length s + 4) div 5)"
    using base32_round [OF assms(1), of "length s"] by simp
  then have "length s \<le> libp2p_crypto_encoding_base32_decode_size (length (base32_encode s m))"
    unfolding libp2p_crypto_encoding_base32_decode_size_def by linarith
  then have "base32_decode_ctx (base32_encode s m)
      (libp2p_crypto_encoding_base32_decode_size (length (base32_encode s m))) = (True, s)"
    using base32_round [OF assms(1)] by blast
  then show ?thesis
    using assms(2) by (simp add: libp2p_crypto_encoding_base32_encode_def libp2p_crypto_encoding_base32_decode_def)
qed

theorem base32_round_trip_witness:
  "\<exists>t. libp2p_crypto_encoding_base32_encode [1, 2, 3, 250, 99, 7] 16 = Inr t \<and>
    libp2p_crypto_encoding_base32_decode t (libp2p_crypto_encoding_base32_decode_size (length t)) = Inr [1, 2, 3, 250, 99, 7]"
  by (rule base32_round_trip) simp_all

text \<open>
  The size estimate of the encoder is too small. The key under which the block store keeps
  the block with a 32-byte hash has 41 characters instead of 56: hashes that agree in their first
  205 bits share one, and it does not decode.
\<close>

theorem datastore_key_cut_short:
  assumes "length h = 32" and "length h' = 32" and "take 25 h = take 25 h'"
    and "drop_bit 3 (h ! 25) = drop_bit 3 (h' ! 25)"
  shows "\<exists>key. length key = 41 \<and>
    ipfs_datastore_helper_ds_key_from_binary h (libp2p_crypto_encoding_base32_encode_size 32) = Inr key \<and>
    ipfs_datastore_helper_ds_key_from_binary h' (libp2p_crypto_encoding_base32_encode_size 32) = Inr key \<and>
    ipfs_datastore_helper_binary_from_ds_key key n = Inl Failure"
proof -
  let ?k = "base32_encode (take 25 h) 40" and ?d = "b32_digit (drop_bit 3 (h ! 25))"
  have len: "length ?k = 40"
    using base32_round [of "take 25 h" 40 25] assms(1) by simp
  have key: "ipfs_datastore_helper_ds_key_from_binary h (libp2p_crypto_encoding_base32_encode_size 32) = Inr (?k @ [?d])"
    "ipfs_datastore_helper_ds_key_from_binary h' (libp2p_crypto_encoding_base32_encode_size 32) = Inr (?k @ [?d])"
    using hash_key [OF assms(1)] hash_key [OF assms(2)] assms by simp_all
  have "\<not> fst (base32_decode_ctx t k)" if "length t mod 8 \<noteq> 0" for t k
    using that
  proof (induction t k rule: base32_decode_ctx.induct)
    case (1 t k)
    obtain ok out where d: "decode_8 t k = (ok, out)" by fastforce
    show ?case
    proof (cases ok)
      case True
      then have "8 \<le> length t" using d by (auto simp: decode_8_def split: if_splits)
      then have "length (drop 8 t) mod 8 \<noteq> 0" using "1.prems" by (simp add: le_mod_geq)
      then show ?thesis
        using "1.IH" [OF refl d [symmetric] True] d True
        by (subst base32_decode_ctx.simps) (simp add: case_prod_unfold)
    next
      case False
      then show ?thesis using "1.prems" d by (subst base32_decode_ctx.simps) auto
    qed
  qed
  then have "\<not> fst (base32_decode_ctx (?k @ [?d]) n)" using len by simp
  then have "ipfs_datastore_helper_binary_from_ds_key (?k @ [?d]) n = Inl Failure"
    by (simp add: ipfs_datastore_helper_binary_from_ds_key_def libp2p_crypto_encoding_base32_decode_def case_prod_unfold)
  then show ?thesis using key len by (intro exI [of _ "?k @ [?d]"]) simp
qed

theorem datastore_key_cut_short_witness:
  "\<exists>key. ipfs_datastore_helper_ds_key_from_binary (replicate 32 7) (libp2p_crypto_encoding_base32_encode_size 32) = Inr key \<and>
    ipfs_datastore_helper_ds_key_from_binary (replicate 25 7 @ replicate 7 6) (libp2p_crypto_encoding_base32_encode_size 32) = Inr key"
  using datastore_key_cut_short [of "replicate 32 7" "replicate 25 7 @ replicate 7 6"]
  by (auto simp: nth_append)

end
