(* ===== verification/Blockstore.thy ===== *)
theory Blockstore
  imports Base32 Node Block
begin

text \<open>
  The block store, \<open>libipfs/blocks/blockstore.c\<close>: one file per block under the repository's path,
  named by the base 32 key of the hash; with the functions of \<open>datastore/ds_helper.c\<close> and
  \<open>repo/fsrepo/fs_repo.c\<close> that put a block into it and into the database.

  The files of the repository are a map from paths to contents; a file can always be written. The
  database is a \<open>struct Datastore\<close>: its two function pointers are parameters with its context as
  their state. The value written with a pointer that stays null when a key can not be made is left
  out: the first use of the null pointer is undefined.
\<close>

section \<open>The repository\<close>

record datastore_record =
  ds_key :: bytes
  ds_value :: bytes
  ds_timestamp :: u64

record 'd datastore =
  datastore_put :: "datastore_record \<Rightarrow> 'd \<Rightarrow> bool \<times> 'd"
  datastore_get :: "bytes \<Rightarrow> 'd \<Rightarrow> datastore_record option"

record 'd fs_repo =
  repo_path :: bytes
  repo_files :: "bytes \<Rightarrow> bytes option"
  repo_datastore :: "'d datastore"
  datastore_context :: 'd

text \<open>The call that can fail in an expected way, and what is done then.\<close>

definition or_else :: "'a result \<Rightarrow> 'b result \<Rightarrow> ('a \<Rightarrow> 'b result) \<Rightarrow> 'b result" where
  "or_else m failed f = (case m of Inr x \<Rightarrow> f x | Inl e \<Rightarrow> if e = Failure then failed else Inl e)"

lemma or_else_simps [simp]:
  "or_else (Inr x) failed f = f x"
  "or_else (Inl Failure) failed f = failed"
  "or_else (Inl Undefined) failed f = Inl Undefined"
  by (simp_all add: or_else_def)

section \<open>Paths\<close>

definition os_utils_filepath_join :: "bytes \<Rightarrow> bytes \<Rightarrow> nat \<Rightarrow> bytes result" where
  "os_utils_filepath_join root0 extension0 max_len =
     (let root = c_string root0; extension = c_string extension0 in
      if max_len < length root + length extension + 1 then Inl Failure
      else if root = [] then Inl Undefined
      else
        Inr (root @ (if last root \<noteq> 47 \<and> (extension = [] \<or> hd extension \<noteq> 47) then [47] else []) @ extension))"

definition blockstore_dir :: bytes where
  "blockstore_dir = map of_char ''blockstore''"

definition ipfs_blockstore_path_get :: "bytes \<Rightarrow> bytes \<Rightarrow> bytes result" where
  "ipfs_blockstore_path_get path filename =
     bind_res (os_utils_filepath_join path blockstore_dir (strlen path + 12)) (\<lambda>filepath.
     os_utils_filepath_join filepath filename (strlen filepath + strlen filename + 2))"

definition ipfs_blockstore_hash_to_base32 :: "bytes \<Rightarrow> bytes result" where
  "ipfs_blockstore_hash_to_base32 hash =
     (let key_length = libp2p_crypto_encoding_base32_encode_size (length hash) in
      if \<not> malloc_ok (key_length + 1) then Inl Failure
      else ipfs_datastore_helper_ds_key_from_binary hash key_length)"

definition ipfs_blockstore_cid_to_base32 :: "cid \<Rightarrow> bytes result" where
  "ipfs_blockstore_cid_to_base32 c = ipfs_blockstore_hash_to_base32 (cid_hash c)"

text \<open>The file of a hash, for the functions that do not look whether there is a key.\<close>

definition file_of_hash :: "'d fs_repo \<Rightarrow> bytes \<Rightarrow> bytes result" where
  "file_of_hash repo hash =
     or_else (ipfs_blockstore_hash_to_base32 hash) (Inl Undefined) (\<lambda>key.
     ipfs_blockstore_path_get (repo_path repo) key)"

section \<open>The block store\<close>

text \<open>A message under a key: whether it was written, the bytes written, and the repository.\<close>

definition put_file ::
    "bytes result \<Rightarrow> bytes result \<Rightarrow> 'd fs_repo \<Rightarrow> (bool \<times> nat option \<times> 'd fs_repo) result" where
  "put_file key0 protobuf0 repo =
     or_else key0 (Inr (False, None, repo)) (\<lambda>key.
     or_else protobuf0 (Inr (False, None, repo)) (\<lambda>protobuf.
     or_else (ipfs_blockstore_path_get (repo_path repo) key) (Inr (False, None, repo)) (\<lambda>filename.
     Inr (True, Some (length protobuf),
       repo\<lparr>repo_files := (repo_files repo)(filename \<mapsto> protobuf)\<rparr>))))"

definition ipfs_blockstore_put :: "ipfs_block \<Rightarrow> 'd fs_repo \<Rightarrow> (bool \<times> nat option \<times> 'd fs_repo) result" where
  "ipfs_blockstore_put block repo =
     (case block_cid block of
        None \<Rightarrow> Inl Undefined
      | Some c \<Rightarrow>
          put_file (ipfs_blockstore_cid_to_base32 c)
            (ipfs_blocks_block_protobuf_encode block (ipfs_blocks_block_protobuf_encode_size block)) repo)"

definition ipfs_blockstore_put_unixfs :: "unixfs \<Rightarrow> 'd fs_repo \<Rightarrow> (bool \<times> nat option \<times> 'd fs_repo) result" where
  "ipfs_blockstore_put_unixfs unix_fs repo =
     put_file (ipfs_blockstore_hash_to_base32 (ufs_hash unix_fs))
       (ipfs_unixfs_protobuf_encode (Some unix_fs) (ipfs_unixfs_protobuf_encode_size unix_fs)) repo"

definition ipfs_blockstore_put_node :: "hashtable_node \<Rightarrow> 'd fs_repo \<Rightarrow> (bool \<times> nat option \<times> 'd fs_repo) result" where
  "ipfs_blockstore_put_node node repo =
     put_file (ipfs_blockstore_hash_to_base32 (node_hash node))
       (ipfs_hashtable_node_protobuf_encode node (ipfs_hashtable_node_protobuf_encode_size node)) repo"

definition ipfs_blockstore_get :: "cid \<Rightarrow> 'd fs_repo \<Rightarrow> ipfs_block run" where
  "ipfs_blockstore_get c repo =
     bind_run (Some (file_of_hash repo (cid_hash c))) (\<lambda>filename.
     case repo_files repo filename of
       None \<Rightarrow> Some (Inl Failure)
     | Some buffer \<Rightarrow>
         bind_run (ipfs_blocks_block_protobuf_decode buffer) (\<lambda>block.
         bind_run (Some (ipfs_cid_copy c)) (\<lambda>c'. Some (Inr (block\<lparr>block_cid := Some c'\<rparr>)))))"

text \<open>These two read from the file without looking whether it was opened.\<close>

definition ipfs_blockstore_get_unixfs :: "bytes \<Rightarrow> 'd fs_repo \<Rightarrow> unixfs run" where
  "ipfs_blockstore_get_unixfs hash repo =
     bind_run (Some (file_of_hash repo hash)) (\<lambda>filename.
     case repo_files repo filename of
       None \<Rightarrow> Some (Inl Undefined)
     | Some buffer \<Rightarrow> ipfs_unixfs_protobuf_decode buffer)"

text \<open>A block that does not decode is freed before it was made.\<close>

definition ipfs_blockstore_get_node :: "bytes \<Rightarrow> 'd fs_repo \<Rightarrow> hashtable_node run" where
  "ipfs_blockstore_get_node hash repo =
     bind_run (Some (file_of_hash repo hash)) (\<lambda>filename.
     case repo_files repo filename of
       None \<Rightarrow> Some (Inl Undefined)
     | Some buffer \<Rightarrow>
         (case ipfs_blocks_block_protobuf_decode buffer of
            Some (Inl Failure) \<Rightarrow> Some (Inl Undefined)
          | decoded \<Rightarrow> bind_run decoded (\<lambda>block. ipfs_hashtable_node_protobuf_decode (block_data block))))"

section \<open>The block store and the database\<close>

definition ipfs_datastore_helper_add_block_to_datastore :: "ipfs_block \<Rightarrow> 'd fs_repo \<Rightarrow> (bool \<times> 'd fs_repo) result" where
  "ipfs_datastore_helper_add_block_to_datastore block repo =
     (case block_cid block of
        None \<Rightarrow> Inl Undefined
      | Some c \<Rightarrow>
          if \<not> malloc_ok (length (cid_hash c)) then Inr (False, repo)
          else
            or_else (ipfs_datastore_helper_ds_key_from_binary (cid_hash c) 100) (Inr (False, repo)) (\<lambda>fs_key.
            let (r, context) = datastore_put (repo_datastore repo)
                  \<lparr>ds_key = cid_hash c, ds_value = fs_key, ds_timestamp = 0\<rparr> (datastore_context repo)
            in Inr (r, repo\<lparr>datastore_context := context\<rparr>)))"

definition ipfs_repo_fsrepo_block_write :: "ipfs_block \<Rightarrow> 'd fs_repo \<Rightarrow> (bool \<times> nat option \<times> 'd fs_repo) result" where
  "ipfs_repo_fsrepo_block_write block repo =
     bind_res (ipfs_blockstore_put block repo) (\<lambda>(r, written, repo1).
     if \<not> r then Inr (False, written, repo1)
     else
       bind_res (ipfs_datastore_helper_add_block_to_datastore block repo1) (\<lambda>(r', repo2).
       Inr (r', written, repo2)))"

definition ipfs_repo_fsrepo_block_read :: "bytes \<Rightarrow> 'd fs_repo \<Rightarrow> ipfs_block run" where
  "ipfs_repo_fsrepo_block_read hash repo =
     (if datastore_get (repo_datastore repo) hash (datastore_context repo) = None then Some (Inl Failure)
      else
        bind_run (Some (ipfs_cid_new 0 hash CID_DAG_PROTOBUF)) (\<lambda>c. ipfs_blockstore_get c repo))"

definition ipfs_repo_fsrepo_node_read :: "bytes \<Rightarrow> 'd fs_repo \<Rightarrow> hashtable_node run" where
  "ipfs_repo_fsrepo_node_read hash repo =
     (if datastore_get (repo_datastore repo) hash (datastore_context repo) = None then Some (Inl Failure)
      else ipfs_blockstore_get_node hash repo)"

definition ipfs_repo_fsrepo_unixfs_read :: "bytes \<Rightarrow> 'd fs_repo \<Rightarrow> unixfs run" where
  "ipfs_repo_fsrepo_unixfs_read hash repo =
     (if datastore_get (repo_datastore repo) hash (datastore_context repo) = None then Some (Inl Failure)
      else ipfs_blockstore_get_unixfs hash repo)"

definition ipfs_repo_fsrepo_node_get :: "bytes \<Rightarrow> 'd fs_repo \<Rightarrow> bytes run" where
  "ipfs_repo_fsrepo_node_get hash repo =
     bind_run (ipfs_repo_fsrepo_node_read hash repo) (\<lambda>node.
     Some (ipfs_hashtable_node_protobuf_encode node (ipfs_hashtable_node_protobuf_encode_size node)))"

section \<open>What a store keeps\<close>

text \<open>
  What the code relies on of the database: in the states it gets into (\<open>good\<close>) the record of a block can be put, and
  its key is found from then on.
\<close>

definition block_record :: "datastore_record \<Rightarrow> bool" where
  "block_record r \<longleftrightarrow> ds_timestamp r = 0 \<and> length (ds_key r) = 32 \<and> length (ds_value r) = 56"

definition datastore_keeps :: "('d \<Rightarrow> bool) \<Rightarrow> 'd datastore \<Rightarrow> bool" where
  "datastore_keeps good ds \<longleftrightarrow>
     (\<forall>r d. block_record r \<and> good d \<longrightarrow> fst (datastore_put ds r d) \<and> good (snd (datastore_put ds r d)) \<and>
        (\<forall>k. (datastore_get ds k (snd (datastore_put ds r d)) \<noteq> None) =
             (k = ds_key r \<or> datastore_get ds k d \<noteq> None)))"

text \<open>The repository has a path, and is where the blocks are.\<close>

definition repo_ok :: "'d fs_repo \<Rightarrow> bool" where
  "repo_ok repo \<longleftrightarrow> c_string (repo_path repo) \<noteq> [] \<and>
     (\<exists>good. good (datastore_context repo) \<and> datastore_keeps good (repo_datastore repo))"

definition same_store :: "'d fs_repo \<Rightarrow> 'd fs_repo \<Rightarrow> bool" where
  "same_store repo repo' \<longleftrightarrow> repo_path repo' = repo_path repo \<and> repo_datastore repo' = repo_datastore repo"

definition hash_key_of :: "bytes \<Rightarrow> bytes" where
  "hash_key_of h = base32_encode (take 25 h) 40 @ [b32_digit (drop_bit 3 (h ! 25))]"

lemma base32_chars: "0 \<notin> set (base32_encode s n) \<and> 47 \<notin> set (base32_encode s n)"
proof (induction s n rule: base32_encode.induct)
  case (1 inp outlen)
  have "0 \<notin> set b32str \<and> 47 \<notin> set b32str \<and> length b32str = 32" by code_simp
  then have "b32_digit w \<noteq> 0 \<and> b32_digit w \<noteq> 47" for w
    using five_bits [of w] unfolding b32_digit_def by (metis nth_mem)
  moreover have "pad \<noteq> 0 \<and> pad \<noteq> 47" by code_simp
  ultimately have "0 \<notin> set (b32_group inp) \<and> 47 \<notin> set (b32_group inp)"
    by (induction inp rule: b32_group.induct) (auto simp: eq_commute [of 0] eq_commute [of 47])
  then show ?case using 1 by (subst (1 2) base32_encode.simps) (auto dest: in_set_takeD)
qed

lemma hash_to_base32:
  assumes "length h = 32"
  shows "ipfs_blockstore_hash_to_base32 h = Inr (hash_key_of h)"
  using hash_key [OF assms] assms
  by (simp add: ipfs_blockstore_hash_to_base32_def hash_key_size malloc_ok_def hash_key_of_def)

lemma hash_key_chars:
  assumes "length h = 32"
  shows "c_string (hash_key_of h) = hash_key_of h" and "hash_key_of h \<noteq> []" and "hd (hash_key_of h) \<noteq> 47"
proof -
  have e: "hash_key_of h = base32_encode h 41"
    using base32_encode_cut [of 5 h] assms by (simp add: hash_key_of_def)
  have "hash_key_of h \<noteq> []" by (simp add: hash_key_of_def)
  moreover have "0 \<notin> set (hash_key_of h)" "47 \<notin> set (hash_key_of h)"
    using base32_chars [of h 41] by (simp_all add: e)
  ultimately show "c_string (hash_key_of h) = hash_key_of h" "hash_key_of h \<noteq> []" "hd (hash_key_of h) \<noteq> 47"
    by (simp_all, metis hd_in_set)
qed

text \<open>The path of the file of a key.\<close>

definition store_path :: "bytes \<Rightarrow> bytes \<Rightarrow> bytes" where
  "store_path path key =
     c_string path @ (if last (c_string path) \<noteq> 47 then [47] else []) @ blockstore_dir @ [47] @ key"

lemma store_path_inj [simp]: "store_path path key = store_path path key' \<longleftrightarrow> key = key'"
  by (simp add: store_path_def)

lemma path_get:
  assumes "c_string path \<noteq> []" and "c_string key = key" and "hd key \<noteq> 47"
  shows "ipfs_blockstore_path_get path key = Inr (store_path path key)"
proof -
  have b: "c_string blockstore_dir = blockstore_dir" "0 \<notin> set blockstore_dir" "last blockstore_dir \<noteq> 47"
    "hd blockstore_dir \<noteq> 47" "length blockstore_dir = 10" "blockstore_dir \<noteq> []"
    by code_simp+
  let ?r = "c_string path @ (if last (c_string path) \<noteq> 47 then [47] else []) @ blockstore_dir"
  have r: "c_string ?r = ?r" "last ?r \<noteq> 47" "?r \<noteq> []"
    using b by (simp, simp, simp)
  have "os_utils_filepath_join path blockstore_dir (strlen path + 12) = Inr ?r"
    using assms(1) b by (simp add: os_utils_filepath_join_def strlen_def)
  moreover have "os_utils_filepath_join ?r key (strlen ?r + strlen key + 2) = Inr (?r @ [47] @ key)"
    using assms(2,3) r unfolding os_utils_filepath_join_def Let_def strlen_def assms(2) r(1) by auto
  ultimately show ?thesis
    by (simp add: ipfs_blockstore_path_get_def store_path_def)
qed

lemma file_of_hash_eq:
  assumes "repo_ok repo" and "length h = 32"
  shows "file_of_hash repo h = Inr (store_path (repo_path repo) (hash_key_of h))"
  using assms hash_key_chars [OF assms(2)]
  by (simp add: file_of_hash_def hash_to_base32 path_get repo_ok_def)

section \<open>Writing and reading blocks\<close>

lemma put_context:
  assumes "repo_ok repo" and "block_record r" and "datastore_put (repo_datastore repo) r (datastore_context repo) = (q, d)"
  shows "q" and "repo_ok (repo\<lparr>datastore_context := d\<rparr>)" and "datastore_get (repo_datastore repo) k d \<noteq> None \<longleftrightarrow>
    k = ds_key r \<or> datastore_get (repo_datastore repo) k (datastore_context repo) \<noteq> None"
proof -
  obtain good where g: "good (datastore_context repo)" "datastore_keeps good (repo_datastore repo)" "c_string (repo_path repo) \<noteq> []"
    using assms(1) by (auto simp: repo_ok_def)
  then have "q \<and> good d \<and> (\<forall>k. (datastore_get (repo_datastore repo) k d \<noteq> None) =
      (k = ds_key r \<or> datastore_get (repo_datastore repo) k (datastore_context repo) \<noteq> None))"
    using assms(2,3) unfolding datastore_keeps_def by (metis fst_conv snd_conv)
  then show "q" and "repo_ok (repo\<lparr>datastore_context := d\<rparr>)" and "datastore_get (repo_datastore repo) k d \<noteq> None \<longleftrightarrow>
      k = ds_key r \<or> datastore_get (repo_datastore repo) k (datastore_context repo) \<noteq> None"
    using g by (auto simp: repo_ok_def)
qed

lemma block_write:
  assumes "repo_ok repo" and "block_cid b = Some c" and "length (cid_hash c) = 32"
    and "block_wf b" and "ipfs_blocks_block_protobuf_encode_size b < 2 ^ 31"
  shows "\<exists>d. ipfs_repo_fsrepo_block_write b repo =
      Inr (True, Some (length (wire (block_fields b))),
        repo\<lparr>repo_files := (repo_files repo)(store_path (repo_path repo) (hash_key_of (cid_hash c)) \<mapsto> wire (block_fields b)),
             datastore_context := d\<rparr>) \<and>
    (\<forall>files. repo_ok (repo\<lparr>repo_files := files, datastore_context := d\<rparr>)) \<and>
    (\<forall>k. datastore_get (repo_datastore repo) k d \<noteq> None \<longleftrightarrow>
       k = cid_hash c \<or> datastore_get (repo_datastore repo) k (datastore_context repo) \<noteq> None)"
proof -
  let ?h = "cid_hash c"
  have put: "ipfs_blockstore_put b repo = Inr (True, Some (length (wire (block_fields b))),
      repo\<lparr>repo_files := (repo_files repo)(store_path (repo_path repo) (hash_key_of ?h) \<mapsto> wire (block_fields b))\<rparr>)"
    using assms(1-3) block_codec.enc_estimated [OF assms(4,5)] hash_key_chars [OF assms(3)]
    by (simp add: ipfs_blockstore_put_def put_file_def ipfs_blockstore_cid_to_base32_def hash_to_base32 path_get repo_ok_def)
  have key: "ipfs_datastore_helper_ds_key_from_binary ?h 100 = Inr (base32_encode ?h 100)"
    using assms(3) by (simp add: ipfs_datastore_helper_ds_key_from_binary_def hash_key_size
        libp2p_crypto_encoding_base32_encode_def)
  let ?r = "\<lparr>ds_key = ?h, ds_value = base32_encode ?h 100, ds_timestamp = 0\<rparr>"
  obtain q d where d: "datastore_put (repo_datastore repo) ?r (datastore_context repo) = (q, d)" by fastforce
  have r: "block_record ?r"
    using assms(3) base32_round [of ?h 100 32] by (simp add: block_record_def)
  have "repo_ok (repo\<lparr>repo_files := files, datastore_context := d\<rparr>)" for files
    using put_context(2) [OF assms(1) r d] by (simp add: repo_ok_def)
  then show ?thesis
    using put key d put_context [OF assms(1) r d] assms(2,3)
    by (intro exI [of _ d])
      (simp add: ipfs_repo_fsrepo_block_write_def ipfs_datastore_helper_add_block_to_datastore_def malloc_ok_def)
qed

end
