(* ===== verification/Merkledag.thy ===== *)
theory Merkledag
  imports Blockstore
begin

text \<open>
  The Merkle DAG over the block store, \<open>libipfs/merkledag/merkledag.c\<close>: nodes are stored as
  blocks, and found again, under the SHA-256 hash of their encoding. SHA-256 is the crypto
  library's function, a parameter.
\<close>

section \<open>The code\<close>

definition ipfs_merkledag_convert_node_to_block :: "hashtable_node \<Rightarrow> ipfs_block result" where
  "ipfs_merkledag_convert_node_to_block node =
     bind_res (ipfs_cid_new 1 (node_hash node) CID_DAG_PROTOBUF) (\<lambda>c.
     let data_length = ipfs_hashtable_node_protobuf_encode_size node in
     if \<not> malloc_ok data_length then Inl Failure
     else
       bind_res (ipfs_hashtable_node_protobuf_encode node data_length) (\<lambda>d.
       Inr (ipfs_block_new\<lparr>block_cid := Some c, block_data := d\<rparr>)))"

definition ipfs_merkledag_convert_block_to_node :: "ipfs_block \<Rightarrow> hashtable_node run" where
  "ipfs_merkledag_convert_block_to_node block = ipfs_hashtable_node_protobuf_decode (block_data block)"

text \<open>
  Whether the node was added; the node, which has a hash from then on; what was written, if
  anything was; and the repository. If the encoding for the hash fails its length is never set.
\<close>

definition ipfs_merkledag_add ::
    "(bytes \<Rightarrow> bytes) \<Rightarrow> hashtable_node \<Rightarrow> 'd fs_repo \<Rightarrow>
     (bool \<times> hashtable_node \<times> nat option \<times> 'd fs_repo) result" where
  "ipfs_merkledag_add sha256 node repo =
     bind_res
       (if node_hash node = [] then
          or_else (ipfs_hashtable_node_protobuf_encode node (ipfs_hashtable_node_protobuf_encode_size node))
            (Inl Undefined) (\<lambda>protobuf. Inr (node\<lparr>node_hash := sha256 protobuf\<rparr>))
        else Inr node) (\<lambda>hashed.
     or_else (ipfs_merkledag_convert_node_to_block hashed) (Inr (False, hashed, None, repo)) (\<lambda>block.
     bind_res (ipfs_repo_fsrepo_block_write block repo) (\<lambda>(r, written, repo').
     Inr (r, hashed, written, repo'))))"

definition ipfs_merkledag_get :: "bytes \<Rightarrow> 'd fs_repo \<Rightarrow> hashtable_node run" where
  "ipfs_merkledag_get hash repo =
     (if datastore_get (repo_datastore repo) hash (datastore_context repo) = None then Some (Inl Failure)
      else
        bind_run (ipfs_repo_fsrepo_node_read hash repo) (\<lambda>node.
        Some (Inr (ipfs_hashtable_node_set_hash node hash))))"

definition ipfs_merkledag_get_by_multihash :: "bytes \<Rightarrow> 'd fs_repo \<Rightarrow> hashtable_node run" where
  "ipfs_merkledag_get_by_multihash multihash repo =
     bind_run (Some (mh_multihash_digest multihash (length multihash))) (\<lambda>(err, digest).
     if err < 0 then Some (Inl Failure)
     else
       case digest of
         None \<Rightarrow> Some (Inl Undefined)
       | Some (hash, hash_size) \<Rightarrow> ipfs_merkledag_get (take hash_size hash) repo)"

section \<open>Stored encodings\<close>

text \<open>The block a node's encoding is stored in, and that the repository has it.\<close>

definition block_of :: "(bytes \<Rightarrow> bytes) \<Rightarrow> bytes \<Rightarrow> ipfs_block" where
  "block_of sha256 e =
     \<lparr>block_cid = Some \<lparr>cid_version = 1, cid_codec = CID_DAG_PROTOBUF, cid_hash = sha256 e\<rparr>, block_data = e\<rparr>"

definition stores :: "(bytes \<Rightarrow> bytes) \<Rightarrow> 'd fs_repo \<Rightarrow> bytes \<Rightarrow> bool" where
  "stores sha256 repo e \<longleftrightarrow>
     repo_files repo (store_path (repo_path repo) (hash_key_of (sha256 e))) = Some (wire (block_fields (block_of sha256 e))) \<and>
     datastore_get (repo_datastore repo) (sha256 e) (datastore_context repo) \<noteq> None"

text \<open>No two encodings of a set have the same file.\<close>

definition no_collision :: "(bytes \<Rightarrow> bytes) \<Rightarrow> bytes set \<Rightarrow> bool" where
  "no_collision sha256 es \<longleftrightarrow> inj_on (\<lambda>e. hash_key_of (sha256 e)) es"

lemma no_collision_subset: "no_collision sha256 es \<Longrightarrow> fs \<subseteq> es \<Longrightarrow> no_collision sha256 fs"
  unfolding no_collision_def by (rule inj_on_subset)

lemma block_of_wf:
  assumes "sha_ok sha256" and "length e < 2 ^ 30"
  shows "block_wf (block_of sha256 e)" and "ipfs_blocks_block_protobuf_encode_size (block_of sha256 e) < 2 ^ 31"
    and "block_norm (block_of sha256 e) = block_of sha256 e"
  using assms
  by (simp_all add: sha_ok_def block_of_def block_wf_def cid_wf_def ipfs_cid_protobuf_encode_size_def
      ipfs_blocks_block_protobuf_encode_size_def block_norm_def cid_narrow_def c_char_def CID_DAG_PROTOBUF_def)

lemma block_of_decodes:
  assumes "sha_ok sha256" and "length e < 2 ^ 30"
  shows "ipfs_blocks_block_protobuf_decode (wire (block_fields (block_of sha256 e))) = Some (Inr (block_of sha256 e))"
  using block_codec.dec_embedded [OF block_of_wf(1,2) [OF assms]] block_of_wf(3) [OF assms] by simp

lemma merkledag_add:
  assumes "repo_ok repo" and "sha_ok sha256" and "node_hash node = []" and "node_wf node"
    and "ipfs_hashtable_node_protobuf_encode_size node < 2 ^ 30"
  defines "e \<equiv> wire (node_fields node)"
  shows "\<exists>repo'. ipfs_merkledag_add sha256 node repo =
      Inr (True, node\<lparr>node_hash := sha256 e\<rparr>, Some (length (wire (block_fields (block_of sha256 e)))), repo') \<and>
    same_store repo repo' \<and> repo_ok repo' \<and> stores sha256 repo' e \<and>
    (\<forall>e'. stores sha256 repo e' \<and> no_collision sha256 {e, e'} \<longrightarrow> stores sha256 repo' e')"
proof -
  let ?n = "node\<lparr>node_hash := sha256 e\<rparr>" and ?b = "block_of sha256 e"
  have sz: "ipfs_hashtable_node_protobuf_encode_size ?n = ipfs_hashtable_node_protobuf_encode_size node"
    by (simp add: ipfs_hashtable_node_protobuf_encode_size_def)
  have enc: "ipfs_hashtable_node_protobuf_encode ?n = ipfs_hashtable_node_protobuf_encode node"
    by (rule ext) (simp add: ipfs_hashtable_node_protobuf_encode_def)
  have "ipfs_hashtable_node_protobuf_encode node (ipfs_hashtable_node_protobuf_encode_size node) = Inr e"
    using node_codec.enc_estimated [of node] assms(4,5) by (simp add: e_def)
  note e = this
  have le: "length e < 2 ^ 30"
    using node_codec.sz_enough [of node] assms(4,5) by (simp add: e_def)
  have block: "ipfs_merkledag_convert_node_to_block ?n = Inr ?b"
    using e sz enc assms(2,5)
    by (simp add: ipfs_merkledag_convert_node_to_block_def ipfs_cid_new_def malloc_ok_def sha_ok_def block_of_def
        ipfs_block_new_def c_char_def CID_DAG_PROTOBUF_def)
  have "length (cid_hash \<lparr>cid_version = 1, cid_codec = CID_DAG_PROTOBUF, cid_hash = sha256 e\<rparr>) = 32"
    using assms(2) by (simp add: sha_ok_def)
  from block_write [OF assms(1) _ this block_of_wf(1,2) [OF assms(2) le]]
  obtain d where write': "ipfs_repo_fsrepo_block_write ?b repo = Inr (True, Some (length (wire (block_fields ?b))),
      repo\<lparr>repo_files := (repo_files repo)(store_path (repo_path repo) (hash_key_of (sha256 e)) \<mapsto> wire (block_fields ?b)),
           datastore_context := d\<rparr>)"
    and ok: "repo_ok (repo\<lparr>repo_files := (repo_files repo)(store_path (repo_path repo) (hash_key_of (sha256 e)) \<mapsto> wire (block_fields ?b)),
           datastore_context := d\<rparr>)"
    and d: "\<And>k. datastore_get (repo_datastore repo) k d \<noteq> None \<longleftrightarrow>
       k = sha256 e \<or> datastore_get (repo_datastore repo) k (datastore_context repo) \<noteq> None"
    by (auto simp: block_of_def)
  let ?repo = "repo\<lparr>repo_files := (repo_files repo)(store_path (repo_path repo) (hash_key_of (sha256 e)) \<mapsto> wire (block_fields ?b)),
           datastore_context := d\<rparr>"
  have "ipfs_merkledag_add sha256 node repo = Inr (True, ?n, Some (length (wire (block_fields ?b))), ?repo)"
    using e block write' assms(3) by (simp add: ipfs_merkledag_add_def)
  moreover have "same_store repo ?repo" and "repo_ok ?repo"
    using ok by (simp_all add: same_store_def)
  moreover have "stores sha256 ?repo e" using d by (simp add: stores_def)
  moreover have "stores sha256 ?repo e'" if "stores sha256 repo e'" and "no_collision sha256 {e, e'}" for e'
    using that d by (auto simp: stores_def no_collision_def)
  ultimately show ?thesis by blast
qed

lemma merkledag_get:
  assumes "repo_ok repo" and "sha_ok sha256" and "stores sha256 repo (wire (node_fields node))" and "node_wf node"
    and "ipfs_hashtable_node_protobuf_encode_size node < 2 ^ 30"
  defines "h \<equiv> sha256 (wire (node_fields node))"
  shows "ipfs_merkledag_get h repo = Some (Inr ((node_norm node)\<lparr>node_hash := h\<rparr>))"
proof -
  have le: "length (wire (node_fields node)) < 2 ^ 30"
    using node_codec.sz_enough [of node] assms(4,5) by simp
  have h: "length h = 32" using assms(2) by (simp add: sha_ok_def h_def)
  then have "h \<noteq> []" by auto
  have "ipfs_hashtable_node_protobuf_decode (wire (node_fields node)) = Some (Inr (node_norm node))"
    using node_codec.dec_embedded assms(4,5) by simp
  then have "ipfs_repo_fsrepo_node_read h repo = Some (Inr (node_norm node))"
    using assms(3) block_of_decodes [OF assms(2) le] file_of_hash_eq [OF assms(1) h]
    by (simp add: ipfs_repo_fsrepo_node_read_def ipfs_blockstore_get_node_def stores_def h_def block_of_def)
  then show ?thesis
    using assms(3) \<open>h \<noteq> []\<close>
    by (simp add: ipfs_merkledag_get_def stores_def h_def ipfs_hashtable_node_set_hash_def Let_def)
qed

lemma sha256_multihash:
  assumes "length h = 32"
  shows "mh_multihash_digest (18 # 32 # h) 34 = Inr (0, Some (h, 32))"
proof -
  have "check_multihash (18 # 32 # h) 34 = Inr 0"
    using assms by (simp add: check_multihash_ok mh_code_ok_def)
  then show ?thesis
    using assms by (simp add: mh_multihash_digest_def mh_multihash_length_def c_size_def)
qed

section \<open>Properties\<close>

text \<open>
  C14: a node that is added to the store has the SHA-256 hash of its encoding from then on, and is
  found again under it, and under the multihash of it; what the store has of other encodings
  stays there. The sizes kept in the links are those of a C int.
\<close>

theorem added_node_is_found:
  assumes "repo_ok repo" and "sha_ok sha256" and "node_hash node = []" and "node_wf node"
    and "ipfs_hashtable_node_protobuf_encode_size node < 2 ^ 30"
  shows "\<exists>added written repo'.
    ipfs_merkledag_add sha256 node repo = Inr (True, added, written, repo') \<and>
    added = node\<lparr>node_hash := sha256 (wire (node_fields node))\<rparr> \<and>
    ipfs_merkledag_get (node_hash added) repo' =
      Some (Inr ((node_norm node)\<lparr>node_hash := node_hash added\<rparr>)) \<and>
    ipfs_merkledag_get_by_multihash (18 # 32 # node_hash added) repo' = ipfs_merkledag_get (node_hash added) repo' \<and>
    (\<forall>e. stores sha256 repo e \<and> no_collision sha256 {wire (node_fields node), e} \<longrightarrow> stores sha256 repo' e)"
proof -
  let ?e = "wire (node_fields node)"
  obtain repo' where repo': "ipfs_merkledag_add sha256 node repo =
      Inr (True, node\<lparr>node_hash := sha256 ?e\<rparr>, Some (length (wire (block_fields (block_of sha256 ?e)))), repo')"
    "repo_ok repo'" "stores sha256 repo' ?e"
    "\<forall>e. stores sha256 repo e \<and> no_collision sha256 {?e, e} \<longrightarrow> stores sha256 repo' e"
    using merkledag_add [OF assms] by blast
  have "length (sha256 ?e) = 32" using assms(2) by (simp add: sha_ok_def)
  then have "ipfs_merkledag_get_by_multihash (18 # 32 # sha256 ?e) repo' = ipfs_merkledag_get (sha256 ?e) repo'"
    by (simp add: ipfs_merkledag_get_by_multihash_def sha256_multihash)
  then show ?thesis
    using repo' merkledag_get [OF repo'(2) assms(2) repo'(3) assms(4,5)] by auto
qed

text \<open>A database that keeps every record under its key; a hash.\<close>

definition map_datastore :: "(bytes \<Rightarrow> datastore_record option) datastore" where
  "map_datastore = \<lparr>datastore_put = (\<lambda>r d. (True, d(ds_key r \<mapsto> r))), datastore_get = (\<lambda>k d. d k)\<rparr>"

definition map_repo :: "(bytes \<Rightarrow> datastore_record option) fs_repo" where
  "map_repo =
     \<lparr>repo_path = [47], repo_files = (\<lambda>_. None), repo_datastore = map_datastore, datastore_context = (\<lambda>_. None)\<rparr>"

definition cut_hash :: "bytes \<Rightarrow> bytes" where
  "cut_hash m = take 32 (m @ replicate 32 0)"

lemma map_repo: "repo_ok map_repo"
  by (auto simp: repo_ok_def map_repo_def map_datastore_def datastore_keeps_def intro: exI [of _ "\<lambda>_. True"])

lemma cut_hash: "sha_ok cut_hash"
  by (simp add: sha_ok_def cut_hash_def min_def)

theorem added_node_is_found_witness:
  "\<exists>added written repo'.
    ipfs_merkledag_add cut_hash (ipfs_hashtable_node_new\<lparr>node_data := [8, 1]\<rparr>) map_repo = Inr (True, added, written, repo') \<and>
    ipfs_merkledag_get (node_hash added) repo' = Some (Inr added)"
  using added_node_is_found [OF map_repo cut_hash, of "ipfs_hashtable_node_new\<lparr>node_data := [8, 1]\<rparr>"]
  by (auto simp: ipfs_hashtable_node_new_def node_wf_def node_norm_def ipfs_hashtable_node_protobuf_encode_size_def)

end
