(* ===== verification/Importer.thy ===== *)
theory Importer
  imports Merkledag
begin

text \<open>
  Files into the Merkle DAG and out of it again: \<open>libipfs/importer/importer.c\<close> and
  \<open>exporter.c\<close>, with the look-up of a value on a node that is offline,
  \<open>ipfs_routing_generic_get_value\<close> of \<open>libipfs/routing/offline.c\<close>.

  A file is read from the front of the list of its bytes; a directory of the file system is a
  tree. The hashes that are announced to the network are collected in a list. Printing to the
  console is left out; what the exporter writes is its result.
\<close>

section \<open>Importing\<close>

definition MAX_DATA_SIZE :: nat where "MAX_DATA_SIZE = 262144"

text \<open>
  The parent's data is a unixfs object that keeps the sizes of the chunks. Neither the result of
  the decoder nor that of the encoder is looked at: the object, or the encoding's buffer, would
  be used as it is.
\<close>

definition ipfs_importer_add_filesize_to_data_section :: "hashtable_node \<Rightarrow> nat \<Rightarrow> hashtable_node run" where
  "ipfs_importer_add_filesize_to_data_section node bytes_read =
     bind_run
       (if node_data node = [] then Some (Inr (ipfs_unixfs_new\<lparr>data_type := UNIXFS_FILE\<rparr>))
        else
          case ipfs_unixfs_protobuf_decode (node_data node) of
            Some (Inl Failure) \<Rightarrow> Some (Inl Undefined)
          | decoded \<Rightarrow> decoded) (\<lambda>data_section.
     let u = ipfs_unixfs_add_blocksize (of_nat bytes_read) data_section;
         u' = u\<lparr>file_size := file_size u + of_nat bytes_read\<rparr>
     in Some
          (or_else (ipfs_unixfs_protobuf_encode (Some u') (ipfs_unixfs_protobuf_encode_size u')) (Inl Undefined)
            (\<lambda>protobuf. or_else (ipfs_hashtable_node_set_data node protobuf) (Inr node) Inr)))"

text \<open>The state of an import: the parent node, what was written, the repository.\<close>

record 'd import_state =
  parent_node :: hashtable_node
  total_size :: nat
  written :: nat
  import_repo :: "'d fs_repo"

text \<open>
  A new node with the chunk's object, and a link to it in the parent. The result says whether all
  went well; \<open>written\<close> is the caller's variable for the size of the node.
\<close>

definition import_as_link ::
    "(bytes \<Rightarrow> bytes) \<Rightarrow> bytes \<Rightarrow> nat \<Rightarrow> 'd import_state \<Rightarrow> (bool \<times> nat \<times> 'd import_state) run" where
  "import_as_link sha256 protobuf bytes_read s =
     (case ipfs_hashtable_node_new_from_data (Some protobuf) of
        Inl e \<Rightarrow> Some (if e = Failure then Inr (False, 0, s) else Inl e)
      | Inr new_node \<Rightarrow>
          bind_run (Some (ipfs_merkledag_add sha256 new_node (import_repo s))) (\<lambda>(r, added, w, repo).
          let s1 = s\<lparr>import_repo := repo\<rparr>; size_of_node = (case w of None \<Rightarrow> 0 | Some n \<Rightarrow> n) in
          if \<not> r then Some (Inr (False, size_of_node, s1))
          else
            case ipfs_node_link_create None (node_hash added) of
              Inl e \<Rightarrow> Some (if e = Failure then Inr (False, size_of_node, s1) else Inl e)
            | Inr link \<Rightarrow>
                bind_run
                  (ipfs_importer_add_filesize_to_data_section
                    (ipfs_hashtable_node_add_link (parent_node s) (link\<lparr>link_t_size := of_nat size_of_node\<rparr>))
                    bytes_read) (\<lambda>parent.
                Some (Inr (True, size_of_node,
                  s1\<lparr>parent_node := parent, total_size := total_size s + size_of_node\<rparr>)))))"

text \<open>
  One chunk of at most \<open>MAX_DATA_SIZE\<close> bytes from the front of the file; the result is the number
  of bytes read, or 0 where something failed.
\<close>

definition ipfs_import_chunk ::
    "(bytes \<Rightarrow> bytes) \<Rightarrow> bytes \<Rightarrow> 'd import_state \<Rightarrow> (nat \<times> 'd import_state) run" where
  "ipfs_import_chunk sha256 file s =
     (let buffer = take MAX_DATA_SIZE file; bytes_read = length buffer;
          new_unixfs = ipfs_unixfs_new\<lparr>data_type := UNIXFS_FILE, file_size := of_nat bytes_read\<rparr>
      in case ipfs_unixfs_add_data sha256 buffer new_unixfs of
           Inl e \<Rightarrow> Some (if e = Failure then Inr (0, s) else Inl e)
         | Inr u \<Rightarrow>
             (case ipfs_unixfs_protobuf_encode (Some u) (ipfs_unixfs_protobuf_encode_size u) of
                Inl e \<Rightarrow> Some (if e = Failure then Inr (0, s\<lparr>written := 0\<rparr>) else Inl e)
              | Inr protobuf \<Rightarrow>
                  let s0 = s\<lparr>written := length protobuf\<rparr> in
                  if bytes_read = MAX_DATA_SIZE then
                    bind_run (import_as_link sha256 protobuf bytes_read s0) (\<lambda>(r, size_of_node, s1).
                    Some (Inr (if r then (bytes_read, s1\<lparr>written := size_of_node\<rparr>) else (0, s1))))
                  else
                    bind_run
                      (if node_links (parent_node s) = [] then
                         Some (Inr (True, 0, s0\<lparr>parent_node :=
                           (case ipfs_hashtable_node_set_data (parent_node s) protobuf of
                              Inl e \<Rightarrow> parent_node s | Inr n \<Rightarrow> n)\<rparr>))
                       else import_as_link sha256 protobuf bytes_read s0) (\<lambda>(r, size_of_node, s1).
                    if \<not> r then Some (Inr (0, s1))
                    else
                      bind_run (Some (ipfs_merkledag_add sha256 (parent_node s1) (import_repo s1))) (\<lambda>(r', parent, w, repo).
                      Some (Inr (bytes_read,
                        s1\<lparr>parent_node := parent, import_repo := repo,
                           written := (case w of None \<Rightarrow> written s1 | Some n \<Rightarrow> n) + size_of_node\<rparr>))))))"

lemma import_chunk_reads:
  "ipfs_import_chunk sha256 file s = Some (Inr (n, s')) \<Longrightarrow> n = 0 \<or> n = length (take MAX_DATA_SIZE file)"
  unfolding ipfs_import_chunk_def Let_def
  by (auto simp: bind_run_Inr_iff split: sum.splits if_splits prod.splits)

text \<open>
  The loop over the chunks of a file, while they are full. \<open>written\<close> of the chunk is added up in
  \<open>bytes_written\<close>.
\<close>

function import_file_loop ::
    "(bytes \<Rightarrow> bytes) \<Rightarrow> bytes \<Rightarrow> nat \<Rightarrow> 'd import_state \<Rightarrow> (nat \<times> 'd import_state) run" where
  "import_file_loop sha256 file bytes_written s =
     (case ipfs_import_chunk sha256 file (s\<lparr>written := 0\<rparr>) of
        None \<Rightarrow> None
      | Some (Inl e) \<Rightarrow> Some (Inl e)
      | Some (Inr (bytes_read, s')) \<Rightarrow>
          if bytes_read = MAX_DATA_SIZE
          then import_file_loop sha256 (drop MAX_DATA_SIZE file) (bytes_written + written s') s'
          else Some (Inr (bytes_written + written s', s')))"
  by pat_completeness auto

termination
proof (relation "measure (\<lambda>(sha256, file, bytes_written, s). length file)")
  fix sha256 :: "bytes \<Rightarrow> bytes" and fl bytes_written and s :: "'d import_state" and r x n s'
  assume "ipfs_import_chunk sha256 fl (s\<lparr>written := 0\<rparr>) = Some r" and "r = Inr x" and "(n, s') = x"
    and "n = MAX_DATA_SIZE"
  then have "MAX_DATA_SIZE = length (take MAX_DATA_SIZE fl)"
    using import_chunk_reads [of sha256 fl "s\<lparr>written := 0\<rparr>" n s'] by (auto simp: MAX_DATA_SIZE_def)
  then have "0 < length fl" by (auto simp: MAX_DATA_SIZE_def)
  then show "((sha256, drop MAX_DATA_SIZE fl, bytes_written + written s', s'), sha256, fl, bytes_written, s)
      \<in> measure (\<lambda>(sha256, file, bytes_written, s). length file)"
    by (simp add: MAX_DATA_SIZE_def)
qed simp

declare import_file_loop.simps [simp del]

text \<open>A file or a directory of the operating system.\<close>

datatype os_file = Regular_File bytes | Os_Directory "(bytes \<times> os_file) list"

text \<open>The root and its links are announced.\<close>

definition announce :: "hashtable_node \<Rightarrow> bytes list" where
  "announce node = node_hash node # map link_hash (node_links node)"

text \<open>
  \<open>ipfs_import_file\<close>: the node, the value of \<open>bytes_written\<close>, the repository and what was
  announced. A directory writes the size of its own node to another variable of that name.
\<close>

fun ipfs_import_file ::
    "(bytes \<Rightarrow> bytes) \<Rightarrow> bool \<Rightarrow> os_file \<Rightarrow> nat \<Rightarrow> 'd fs_repo \<Rightarrow>
     (hashtable_node \<times> nat \<times> 'd fs_repo \<times> bytes list) run"
  and import_entries ::
    "(bytes \<Rightarrow> bytes) \<Rightarrow> bool \<Rightarrow> (bytes \<times> os_file) list \<Rightarrow> hashtable_node \<Rightarrow> nat \<Rightarrow> 'd fs_repo \<Rightarrow>
     (hashtable_node \<times> nat \<times> 'd fs_repo \<times> bytes list) run" where
  "ipfs_import_file sha256 recursive (Regular_File content) bytes_written repo =
     bind_run
       (import_file_loop sha256 content bytes_written
         \<lparr>parent_node = ipfs_hashtable_node_new, total_size = 0, written = 0, import_repo = repo\<rparr>)
       (\<lambda>(bytes_written', s). Some (Inr (parent_node s, bytes_written', import_repo s, announce (parent_node s))))"
| "ipfs_import_file sha256 recursive (Os_Directory entries) bytes_written repo =
     bind_run (Some ipfs_hashtable_node_create_directory) (\<lambda>parent.
     bind_run
       (if recursive then import_entries sha256 recursive entries parent bytes_written repo
        else Some (Inr (parent, bytes_written, repo, []))) (\<lambda>(parent', bytes_written', repo', announced).
     bind_run (Some (ipfs_merkledag_add sha256 parent' repo')) (\<lambda>(r, added, w, repo'').
     Some (Inr (added, bytes_written', repo'', announced @ announce added)))))"
| "import_entries sha256 recursive [] parent bytes_written repo = Some (Inr (parent, bytes_written, repo, []))"
| "import_entries sha256 recursive ((name, f) # entries) parent bytes_written repo =
     bind_run (ipfs_import_file sha256 recursive f 0 repo) (\<lambda>(file_node, bytes_written', repo', announced).
     bind_run (Some (or_else (ipfs_node_link_create (Some name) (node_hash file_node)) (Inl Undefined) Inr)) (\<lambda>link.
     bind_run
       (import_entries sha256 recursive entries
         (ipfs_hashtable_node_add_link parent (link\<lparr>link_t_size := of_nat bytes_written'\<rparr>)) bytes_written' repo')
       (\<lambda>(parent', bytes_written'', repo'', announced').
     Some (Inr (parent', bytes_written'', repo'', announced @ announced')))))"

section \<open>Exporting\<close>

text \<open>The value of a hash on this node, when no API is there to ask.\<close>

definition ipfs_routing_generic_get_value :: "'d fs_repo \<Rightarrow> bytes \<Rightarrow> bytes run" where
  "ipfs_routing_generic_get_value repo key =
     bind_run (ipfs_merkledag_get key repo) (\<lambda>node.
     let protobuf_size = c_size (c_int (int (ipfs_hashtable_node_protobuf_encode_size node))) in
     if \<not> malloc_ok protobuf_size then Some (Inl Failure)
     else Some (ipfs_hashtable_node_protobuf_encode node protobuf_size))"

definition ipfs_exporter_get_node :: "(bytes \<Rightarrow> bytes run) \<Rightarrow> bytes \<Rightarrow> hashtable_node run" where
  "ipfs_exporter_get_node get_value hash =
     bind_run (get_value hash) (\<lambda>buffer.
     bind_run (ipfs_hashtable_node_protobuf_decode buffer) (\<lambda>node.
     if malloc_ok (length hash) then Some (Inr (node\<lparr>node_hash := hash\<rparr>)) else Some (Inl Failure)))"

text \<open>
  What is written to the file, and whether the call succeeded. The unixfs decoder's result is not
  looked at here, so the object of a failed one is indeterminate.
\<close>

definition node_content :: "hashtable_node \<Rightarrow> bytes run" where
  "node_content node =
     (case ipfs_unixfs_protobuf_decode (node_data node) of
        Some (Inl Failure) \<Rightarrow> Some (Inl Undefined)
      | decoded \<Rightarrow> bind_run decoded (\<lambda>unix_fs. Some (Inr (ufs_bytes unix_fs))))"

fun export_links :: "(bytes \<Rightarrow> bytes run) \<Rightarrow> node_link list \<Rightarrow> bytes \<Rightarrow> (bool \<times> bytes) run" where
  "export_links get_value [] out = Some (Inr (True, out))"
| "export_links get_value (l # ls) out =
     (case ipfs_exporter_get_node get_value (link_hash l) of
        None \<Rightarrow> None
      | Some (Inl e) \<Rightarrow> if e = Failure then Some (Inr (False, out)) else Some (Inl e)
      | Some (Inr link_node) \<Rightarrow>
          bind_run (node_content link_node) (\<lambda>bs. export_links get_value ls (out @ bs)))"

definition ipfs_exporter_to_filestream :: "(bytes \<Rightarrow> bytes run) \<Rightarrow> bytes \<Rightarrow> (bool \<times> bytes) run" where
  "ipfs_exporter_to_filestream get_value hash =
     (case ipfs_cid_decode_hash_from_base58 hash (strlen hash) of
        Inl e \<Rightarrow> if e = Failure then Some (Inr (False, [])) else Some (Inl e)
      | Inr c \<Rightarrow>
          (case ipfs_exporter_get_node get_value (cid_hash c) of
             None \<Rightarrow> None
           | Some (Inl e) \<Rightarrow> if e = Failure then Some (Inr (False, [])) else Some (Inl e)
           | Some (Inr read_node) \<Rightarrow>
               if node_links read_node = []
               then bind_run (node_content read_node) (\<lambda>bs. Some (Inr (True, bs)))
               else export_links get_value (node_links read_node) []))"

text \<open>
  \<open>ipfs_exporter_cat_node\<close> writes the content of the node and then of its links, depth first,
  whether or not a child could be written to the end. The walk ends only if the links do:
  \<open>cat_links\<close> has no bound.
\<close>

partial_function (option) cat_links ::
    "(bytes \<Rightarrow> bytes run) \<Rightarrow> node_link list \<Rightarrow> (bool \<times> bytes) run" where
  "cat_links get_value links =
     (case links of
        [] \<Rightarrow> Some (Inr (True, []))
      | l # ls \<Rightarrow>
          (case ipfs_exporter_get_node get_value (link_hash l) of
             None \<Rightarrow> None
           | Some (Inl e) \<Rightarrow> if e = Failure then Some (Inr (False, [])) else Some (Inl e)
           | Some (Inr child) \<Rightarrow>
               (case ipfs_unixfs_protobuf_decode (node_data child) of
                  None \<Rightarrow> None
                | Some (Inl e) \<Rightarrow>
                    if e = Failure then cat_links get_value ls else Some (Inl e)
                | Some (Inr u) \<Rightarrow>
                    Option.bind (cat_links get_value (node_links child)) (\<lambda>r.
                    case r of
                      Inl e \<Rightarrow> Some (Inl e)
                    | Inr (ok, out) \<Rightarrow>
                        Option.bind (cat_links get_value ls) (\<lambda>r'.
                        case r' of
                          Inl e \<Rightarrow> Some (Inl e)
                        | Inr (ok', out') \<Rightarrow> Some (Inr (ok', ufs_bytes u @ out @ out')))))))"

definition ipfs_exporter_cat_node :: "(bytes \<Rightarrow> bytes run) \<Rightarrow> hashtable_node \<Rightarrow> (bool \<times> bytes) run" where
  "ipfs_exporter_cat_node get_value node =
     (case ipfs_unixfs_protobuf_decode (node_data node) of
        None \<Rightarrow> None
      | Some (Inl e) \<Rightarrow> if e = Failure then Some (Inr (False, [])) else Some (Inl e)
      | Some (Inr u) \<Rightarrow>
          bind_run (cat_links get_value (node_links node)) (\<lambda>(ok, out). Some (Inr (ok, ufs_bytes u @ out))))"

definition ipfs_exporter_object_cat_to_file :: "(bytes \<Rightarrow> bytes run) \<Rightarrow> bytes \<Rightarrow> (bool \<times> bytes) run" where
  "ipfs_exporter_object_cat_to_file get_value hash =
     (case ipfs_exporter_get_node get_value hash of
        None \<Rightarrow> None
      | Some (Inl e) \<Rightarrow> if e = Failure then Some (Inr (False, [])) else Some (Inl e)
      | Some (Inr read_node) \<Rightarrow> ipfs_exporter_cat_node get_value read_node)"


section \<open>What an imported file becomes\<close>

text \<open>The file in chunks, the last of which is not full and may be empty.\<close>

function chunks :: "bytes \<Rightarrow> bytes list" where
  "chunks c = (if length c < MAX_DATA_SIZE then [c] else take MAX_DATA_SIZE c # chunks (drop MAX_DATA_SIZE c))"
  by pat_completeness auto
termination
proof (relation "measure length")
  fix c :: bytes
  assume "\<not> length c < MAX_DATA_SIZE"
  moreover have "0 < MAX_DATA_SIZE" by (simp add: MAX_DATA_SIZE_def)
  ultimately show "(drop MAX_DATA_SIZE c, c) \<in> measure length" by simp
qed simp

declare chunks.simps [simp del]

lemma concat_chunks [simp]: "concat (chunks c) = c"
  by (induction c rule: chunks.induct) (subst chunks.simps, auto)

lemma chunks_length: "d \<in> set (chunks c) \<Longrightarrow> length d \<le> MAX_DATA_SIZE"
proof (induction c rule: chunks.induct)
  case (1 c)
  then show ?case by (subst (asm) (2) chunks.simps) (auto split: if_splits)
qed

lemma length_chunks: "length (chunks c) * MAX_DATA_SIZE \<le> length c + MAX_DATA_SIZE"
proof (induction c rule: chunks.induct)
  case (1 c)
  then show ?case by (subst chunks.simps) auto
qed

text \<open>The object of a chunk, its node, and the link to it.\<close>

definition chunk_object :: "bytes \<Rightarrow> unixfs" where
  "chunk_object d =
     \<lparr>data_type = UNIXFS_FILE, ufs_bytes = d, file_size = of_nat (length d), block_sizes = [], ufs_hash = []\<rparr>"

definition leaf_node :: "bytes \<Rightarrow> hashtable_node" where
  "leaf_node d = ipfs_hashtable_node_new\<lparr>node_data := wire (unixfs_fields (chunk_object d))\<rparr>"

definition leaf :: "bytes \<Rightarrow> bytes" where
  "leaf d = wire (node_fields (leaf_node d))"

definition chunk_link :: "(bytes \<Rightarrow> bytes) \<Rightarrow> bytes \<Rightarrow> node_link" where
  "chunk_link sha256 d =
     \<lparr>link_hash = sha256 (leaf d), link_name = None,
      link_t_size = of_nat (length (wire (block_fields (block_of sha256 (leaf d)))))\<rparr>"

text \<open>The node over some chunks, and the node of a file.\<close>

definition root_object :: "bytes list \<Rightarrow> unixfs" where
  "root_object ds =
     \<lparr>data_type = UNIXFS_FILE, ufs_bytes = [], file_size = of_nat (length (concat ds)),
      block_sizes = map (\<lambda>d. of_nat (length d)) ds, ufs_hash = []\<rparr>"

definition root_node :: "(bytes \<Rightarrow> bytes) \<Rightarrow> bytes list \<Rightarrow> hashtable_node" where
  "root_node sha256 ds =
     ipfs_hashtable_node_new\<lparr>node_data := (if ds = [] then [] else wire (unixfs_fields (root_object ds))),
       node_links := map (chunk_link sha256) ds\<rparr>"

definition file_node :: "(bytes \<Rightarrow> bytes) \<Rightarrow> bytes \<Rightarrow> hashtable_node" where
  "file_node sha256 c = (if length c < MAX_DATA_SIZE then leaf_node c else root_node sha256 (chunks c))"

lemma wire_unixfs_ne [simp]: "wire (unixfs_fields u) \<noteq> []"
  by (simp add: unixfs_fields_def)

lemma file_object:
  assumes "data_type u = UNIXFS_FILE" and "ufs_hash u = []" and "ipfs_unixfs_protobuf_encode_size u < 2 ^ 31"
  shows "ipfs_unixfs_protobuf_encode (Some u) (ipfs_unixfs_protobuf_encode_size u) = Inr (wire (unixfs_fields u))"
    and "ipfs_unixfs_protobuf_decode (wire (unixfs_fields u)) = Some (Inr u)"
    and "length (wire (unixfs_fields u)) \<le> ipfs_unixfs_protobuf_encode_size u"
proof -
  have "unixfs_wf u" using assms(1) by (simp add: unixfs_wf_def UNIXFS_FILE_def UNIXFS_SYMLINK_def)
  moreover have "unixfs_norm u = u" using assms(2) by (simp add: unixfs_norm_def)
  ultimately show "ipfs_unixfs_protobuf_encode (Some u) (ipfs_unixfs_protobuf_encode_size u) = Inr (wire (unixfs_fields u))"
    and "ipfs_unixfs_protobuf_decode (wire (unixfs_fields u)) = Some (Inr u)"
    and "length (wire (unixfs_fields u)) \<le> ipfs_unixfs_protobuf_encode_size u"
    using assms(3) unixfs_codec.enc_estimated [of u] unixfs_codec.dec_embedded [of u] unixfs_codec.sz_enough [of u]
    by auto
qed

lemma chunk_object_size:
  "length d \<le> MAX_DATA_SIZE \<Longrightarrow> ipfs_unixfs_protobuf_encode_size (chunk_object d) \<le> 262168"
  by (simp add: ipfs_unixfs_protobuf_encode_size_def chunk_object_def MAX_DATA_SIZE_def)

lemma root_object_size: "ipfs_unixfs_protobuf_encode_size (root_object ds) = 24 + 11 * length ds"
  by (simp add: ipfs_unixfs_protobuf_encode_size_def root_object_def)

lemma object_types [simp]:
  "data_type (chunk_object d) = UNIXFS_FILE" "ufs_hash (chunk_object d) = []" "ufs_bytes (chunk_object d) = d"
  "data_type (root_object ds) = UNIXFS_FILE" "ufs_hash (root_object ds) = []" "ufs_bytes (root_object ds) = []"
  by (simp_all add: chunk_object_def root_object_def)

lemmas chunk_codec = file_object [of "chunk_object d" for d, simplified]
lemmas root_codec = file_object [of "root_object ds" for ds, simplified]

lemma leaf_node_wf:
  assumes "length d \<le> MAX_DATA_SIZE"
  shows "node_wf (leaf_node d)" and "ipfs_hashtable_node_protobuf_encode_size (leaf_node d) < 2 ^ 30"
    and "node_norm (leaf_node d) = leaf_node d" and "node_hash (leaf_node d) = []"
proof -
  have "length (wire (unixfs_fields (chunk_object d))) \<le> 262168"
    using chunk_codec(3) [of d] chunk_object_size [OF assms] by simp
  then show "ipfs_hashtable_node_protobuf_encode_size (leaf_node d) < 2 ^ 30"
    by (simp add: ipfs_hashtable_node_protobuf_encode_size_def leaf_node_def ipfs_hashtable_node_new_def)
qed (simp_all add: leaf_node_def node_wf_def ipfs_hashtable_node_new_def node_norm_def)

lemma chunk_link_wf:
  assumes "sha_ok sha256"
  shows "link_wf (chunk_link sha256 d)" and "link_encoder_size (chunk_link sha256 d) \<le> 100"
    and "link_norm (chunk_link sha256 d) = chunk_link sha256 d"
  using assms
  by (auto simp: sha_ok_def chunk_link_def link_wf_def link_encoder_size_def ipfs_node_link_protobuf_encode_size_def
      link_norm_def name_bytes_def) (metis list.size(3) zero_neq_numeral)

lemma root_node_wf:
  assumes "sha_ok sha256" and "ds \<noteq> []" and "length ds < 2 ^ 22"
  shows "node_wf (root_node sha256 ds)" and "ipfs_hashtable_node_protobuf_encode_size (root_node sha256 ds) < 2 ^ 30"
    and "node_norm (root_node sha256 ds) = root_node sha256 ds" and "node_hash (root_node sha256 ds) = []"
proof -
  have l: "link_encoder_size (chunk_link sha256 d) \<le> 100" for d by (rule chunk_link_wf(2) [OF assms(1)])
  then have "sum_list (map (\<lambda>d. 11 + link_encoder_size (chunk_link sha256 d)) ds) \<le> length ds * 111"
    by (induction ds) (auto intro: add_mono)
  moreover have "length (wire (unixfs_fields (root_object ds))) \<le> 24 + 11 * length ds"
    using root_codec(3) [of ds] root_object_size [of ds] assms(3) by simp
  ultimately show "ipfs_hashtable_node_protobuf_encode_size (root_node sha256 ds) < 2 ^ 30"
    using assms(3)
    by (simp add: ipfs_hashtable_node_protobuf_encode_size_def root_node_def ipfs_hashtable_node_new_def comp_def)
  show "node_wf (root_node sha256 ds)"
    using assms(2) l chunk_link_wf(1) [OF assms(1)]
    by (auto simp: node_wf_def root_node_def intro: le_less_trans [OF l])
  show "node_norm (root_node sha256 ds) = root_node sha256 ds"
    by (simp add: node_norm_def root_node_def ipfs_hashtable_node_new_def chunk_link_wf(3) [OF assms(1)] comp_def)
qed (simp add: root_node_def ipfs_hashtable_node_new_def)


section \<open>Importing chunk by chunk\<close>

lemma root_object_snoc:
  assumes "u = (if ds = [] then ipfs_unixfs_new\<lparr>data_type := UNIXFS_FILE\<rparr> else root_object ds)"
  shows "(ipfs_unixfs_add_blocksize (of_nat (length d)) u)
      \<lparr>file_size := file_size (ipfs_unixfs_add_blocksize (of_nat (length d)) u) + of_nat (length d)\<rparr> = root_object (ds @ [d])"
  using assms
  by (cases "ds = []") (simp_all add: root_object_def ipfs_unixfs_new_def ipfs_unixfs_add_blocksize_def)

lemma add_filesize:
  assumes "length ds + 1 < 2 ^ 22" and "node_data node = node_data (root_node sha256 ds)"
  shows "ipfs_importer_add_filesize_to_data_section node (length d) =
    Some (Inr (node\<lparr>node_data := wire (unixfs_fields (root_object (ds @ [d])))\<rparr>))"
proof -
  let ?u = "if ds = [] then ipfs_unixfs_new\<lparr>data_type := UNIXFS_FILE\<rparr> else root_object ds"
  have "ipfs_unixfs_protobuf_decode (wire (unixfs_fields (root_object ds))) = Some (Inr (root_object ds))"
    using assms(1) root_object_size [of ds] by (intro root_codec(2)) simp
  then have decoded: "(if node_data node = [] then Some (Inr (ipfs_unixfs_new\<lparr>data_type := UNIXFS_FILE\<rparr>))
      else case ipfs_unixfs_protobuf_decode (node_data node) of
        Some (Inl Failure) \<Rightarrow> Some (Inl Undefined) | decoded \<Rightarrow> decoded) = Some (Inr ?u)"
    using assms(2) by (simp add: root_node_def ipfs_hashtable_node_new_def)
  have size: "ipfs_unixfs_protobuf_encode_size (root_object (ds @ [d])) < 2147483648"
    using assms(1) root_object_size [of "ds @ [d]"] by simp
  have "malloc_ok (length (wire (unixfs_fields (root_object (ds @ [d])))))"
    using root_codec(3) [of "ds @ [d]"] size by (simp add: malloc_ok_def)
  then show ?thesis
    using root_object_snoc [of ?u ds d] root_codec(1) [OF size] decoded
    unfolding ipfs_importer_add_filesize_to_data_section_def
    by (simp only: bind_run_simps Let_def or_else_simps ipfs_hashtable_node_set_data_def if_True)
qed

lemma import_as_link_chunk:
  assumes "repo_ok (import_repo s)" and "sha_ok sha256" and "parent_node s = root_node sha256 ds"
    and "length d \<le> MAX_DATA_SIZE" and "length ds + 1 < 2 ^ 22"
  shows "\<exists>size s'. import_as_link sha256 (wire (unixfs_fields (chunk_object d))) (length d) s = Some (Inr (True, size, s')) \<and>
    parent_node s' = root_node sha256 (ds @ [d]) \<and> same_store (import_repo s) (import_repo s') \<and>
    repo_ok (import_repo s') \<and> stores sha256 (import_repo s') (leaf d) \<and>
    (\<forall>e. stores sha256 (import_repo s) e \<and> no_collision sha256 {leaf d, e} \<longrightarrow> stores sha256 (import_repo s') e)"
proof -
  have "malloc_ok (length (wire (unixfs_fields (chunk_object d))))"
    using chunk_codec(3) [of d] chunk_object_size [OF assms(4)] by (simp add: malloc_ok_def)
  then have new: "ipfs_hashtable_node_new_from_data (Some (wire (unixfs_fields (chunk_object d)))) = Inr (leaf_node d)"
    by (simp add: ipfs_hashtable_node_new_from_data_def ipfs_hashtable_node_set_data_def leaf_node_def)
  obtain repo' where
    add: "ipfs_merkledag_add sha256 (leaf_node d) (import_repo s) =
      Inr (True, (leaf_node d)\<lparr>node_hash := sha256 (leaf d)\<rparr>,
        Some (length (wire (block_fields (block_of sha256 (leaf d))))), repo')"
    and repo': "same_store (import_repo s) repo'" "repo_ok repo'" "stores sha256 repo' (leaf d)"
      "\<forall>e. stores sha256 (import_repo s) e \<and> no_collision sha256 {leaf d, e} \<longrightarrow> stores sha256 repo' e"
    using merkledag_add [OF assms(1,2) leaf_node_wf(4,1,2) [OF assms(4)]] unfolding leaf_def by blast
  have "length (sha256 (leaf d)) = 32" using assms(2) by (simp add: sha_ok_def)
  then have link: "ipfs_node_link_create None (sha256 (leaf d)) =
      Inr \<lparr>link_hash = sha256 (leaf d), link_name = None, link_t_size = 0\<rparr>"
    by (simp add: ipfs_node_link_create_def malloc_ok_def ipfs_node_link_new_def Let_def)
  let ?p = "ipfs_hashtable_node_add_link (parent_node s) (chunk_link sha256 d)"
  have "ipfs_importer_add_filesize_to_data_section ?p (length d) =
      Some (Inr (?p\<lparr>node_data := wire (unixfs_fields (root_object (ds @ [d])))\<rparr>))"
    using assms(3,5) by (intro add_filesize) (simp_all add: ipfs_hashtable_node_add_link_def)
  moreover have "?p\<lparr>node_data := wire (unixfs_fields (root_object (ds @ [d])))\<rparr> = root_node sha256 (ds @ [d])"
    using assms(3) by (simp add: ipfs_hashtable_node_add_link_def root_node_def ipfs_hashtable_node_new_def)
  ultimately show ?thesis
    using new add link repo'
    by (auto simp: import_as_link_def Let_def chunk_link_def)
qed


lemma encode_without_hash:
  "ipfs_unixfs_protobuf_encode (Some (u\<lparr>ufs_hash := h\<rparr>)) = ipfs_unixfs_protobuf_encode (Some u) \<and>
   ipfs_unixfs_protobuf_encode_size (u\<lparr>ufs_hash := h\<rparr>) = ipfs_unixfs_protobuf_encode_size u"
proof
  show "ipfs_unixfs_protobuf_encode (Some (u\<lparr>ufs_hash := h\<rparr>)) = ipfs_unixfs_protobuf_encode (Some u)"
    by (rule ext, cases u) (simp only: ipfs_unixfs_protobuf_encode_def option.case unixfs.simps unixfs.select_convs
        unixfs.update_convs)
qed (simp add: ipfs_unixfs_protobuf_encode_size_def)

lemma chunk_encoded:
  fixes c :: bytes
  defines "d \<equiv> take MAX_DATA_SIZE c"
  shows "\<exists>u. ipfs_unixfs_add_data sha256 d (ipfs_unixfs_new\<lparr>data_type := UNIXFS_FILE, file_size := of_nat (length d)\<rparr>) = Inr u \<and>
    ipfs_unixfs_protobuf_encode (Some u) (ipfs_unixfs_protobuf_encode_size u) = Inr (wire (unixfs_fields (chunk_object d)))"
proof -
  let ?u = "(chunk_object d)\<lparr>ufs_hash := sha256 d\<rparr>"
  have d: "length d \<le> MAX_DATA_SIZE" by (simp add: d_def)
  then have "malloc_ok (length d)" by (simp add: malloc_ok_def MAX_DATA_SIZE_def)
  then have "ipfs_unixfs_add_data sha256 d (ipfs_unixfs_new\<lparr>data_type := UNIXFS_FILE, file_size := of_nat (length d)\<rparr>) = Inr ?u"
    by (simp add: ipfs_unixfs_add_data_def chunk_object_def ipfs_unixfs_new_def)
  moreover have "ipfs_unixfs_protobuf_encode (Some ?u) = ipfs_unixfs_protobuf_encode (Some (chunk_object d))"
    "ipfs_unixfs_protobuf_encode_size ?u = ipfs_unixfs_protobuf_encode_size (chunk_object d)"
    using encode_without_hash [where u = "chunk_object d" and h = "sha256 d"] by blast+
  ultimately show ?thesis
    using chunk_codec(1) [of d] chunk_object_size [OF d] by (intro exI [of _ ?u]) simp
qed

text \<open>A full chunk becomes a link.\<close>

lemma import_full_chunk:
  assumes "MAX_DATA_SIZE \<le> length c" and "repo_ok (import_repo s)" and "sha_ok sha256"
    and "parent_node s = root_node sha256 ds" and "length ds + 1 < 2 ^ 22"
  shows "\<exists>s'. ipfs_import_chunk sha256 c s = Some (Inr (MAX_DATA_SIZE, s')) \<and>
    parent_node s' = root_node sha256 (ds @ [take MAX_DATA_SIZE c]) \<and> repo_ok (import_repo s') \<and>
    stores sha256 (import_repo s') (leaf (take MAX_DATA_SIZE c)) \<and>
    (\<forall>e. stores sha256 (import_repo s) e \<and> no_collision sha256 {leaf (take MAX_DATA_SIZE c), e} \<longrightarrow>
      stores sha256 (import_repo s') e)"
proof -
  let ?d = "take MAX_DATA_SIZE c"
  let ?s = "s\<lparr>written := length (wire (unixfs_fields (chunk_object ?d)))\<rparr>"
  have len: "length ?d = MAX_DATA_SIZE" using assms(1) by simp
  obtain u where u: "ipfs_unixfs_add_data sha256 ?d
      (ipfs_unixfs_new\<lparr>data_type := UNIXFS_FILE, file_size := of_nat (length ?d)\<rparr>) = Inr u"
    "ipfs_unixfs_protobuf_encode (Some u) (ipfs_unixfs_protobuf_encode_size u) = Inr (wire (unixfs_fields (chunk_object ?d)))"
    using chunk_encoded by blast
  obtain size s' where "import_as_link sha256 (wire (unixfs_fields (chunk_object ?d))) (length ?d) ?s = Some (Inr (True, size, s'))"
    and s': "parent_node s' = root_node sha256 (ds @ [?d])" "repo_ok (import_repo s')"
      "stores sha256 (import_repo s') (leaf ?d)"
      "\<forall>e. stores sha256 (import_repo s) e \<and> no_collision sha256 {leaf ?d, e} \<longrightarrow> stores sha256 (import_repo s') e"
    using import_as_link_chunk [of ?s sha256 ds ?d] assms by auto
  then have "ipfs_import_chunk sha256 c s = Some (Inr (MAX_DATA_SIZE, s'\<lparr>written := size\<rparr>))"
    using u len unfolding ipfs_import_chunk_def Let_def by (simp only: sum.case bind_run_simps case_prod_conv if_True len)
  then show ?thesis using s' by (intro exI [of _ "s'\<lparr>written := size\<rparr>"]) simp
qed

text \<open>The last chunk becomes the file's node, or a last link; then the node is stored.\<close>

definition final_node :: "(bytes \<Rightarrow> bytes) \<Rightarrow> bytes list \<Rightarrow> bytes \<Rightarrow> hashtable_node" where
  "final_node sha256 ds c =
     (if ds = [] \<and> length c < MAX_DATA_SIZE then leaf_node c else root_node sha256 (ds @ chunks c))"

lemma chunks_ne [simp]: "chunks c \<noteq> []"
  by (subst chunks.simps) simp

lemma final_node_wf:
  assumes "sha_ok sha256" and "length ds + length (chunks c) < 2 ^ 22"
  shows "node_wf (final_node sha256 ds c)" and "ipfs_hashtable_node_protobuf_encode_size (final_node sha256 ds c) < 2 ^ 30"
    and "node_norm (final_node sha256 ds c) = final_node sha256 ds c" and "node_hash (final_node sha256 ds c) = []"
  using leaf_node_wf [of c] root_node_wf [OF assms(1), of "ds @ chunks c"] assms(2)
  by (auto simp: final_node_def)

lemma import_last_chunk:
  assumes "length c < MAX_DATA_SIZE" and "repo_ok (import_repo s)" and "sha_ok sha256"
    and "parent_node s = root_node sha256 ds" and "length ds + 1 < 2 ^ 22"
  defines "fin \<equiv> final_node sha256 ds c"
  assumes "no_collision sha256 (insert (wire (node_fields fin)) (leaf ` set (ds @ [c])))"
    and "\<forall>d\<in>set ds. stores sha256 (import_repo s) (leaf d)"
  shows "\<exists>s'. ipfs_import_chunk sha256 c s = Some (Inr (length c, s')) \<and>
    parent_node s' = fin\<lparr>node_hash := sha256 (wire (node_fields fin))\<rparr> \<and> repo_ok (import_repo s') \<and>
    stores sha256 (import_repo s') (wire (node_fields fin)) \<and>
    (\<forall>d\<in>set (ds @ [c]). stores sha256 (import_repo s') (leaf d))"
proof -
  let ?p = "wire (unixfs_fields (chunk_object c))" and ?e = "wire (node_fields fin)"
  let ?s = "s\<lparr>written := length ?p\<rparr>"
  have d: "take MAX_DATA_SIZE c = c" "length c \<noteq> MAX_DATA_SIZE" and ch: "chunks c = [c]"
    using assms(1) by (simp_all add: chunks.simps [of c])
  obtain u where u: "ipfs_unixfs_add_data sha256 c
      (ipfs_unixfs_new\<lparr>data_type := UNIXFS_FILE, file_size := of_nat (length c)\<rparr>) = Inr u"
    "ipfs_unixfs_protobuf_encode (Some u) (ipfs_unixfs_protobuf_encode_size u) = Inr ?p"
    using chunk_encoded [of sha256 c] d(1) by auto
  have wf: "node_wf fin" "ipfs_hashtable_node_protobuf_encode_size fin < 2 ^ 30" "node_hash fin = []"
    using final_node_wf [OF assms(3), of ds c] assms(5) ch by (simp_all add: fin_def)
  have coll: "no_collision sha256 {?e, leaf x}" "no_collision sha256 {leaf c, leaf x}"
    if "x \<in> set (ds @ [c])" for x
    using that by (auto intro!: no_collision_subset [OF assms(7)])
  obtain size s1 where
    1: "(if node_links (parent_node s) = [] then
           Some (Inr (True, 0, ?s\<lparr>parent_node :=
             (case ipfs_hashtable_node_set_data (parent_node s) ?p of Inl e \<Rightarrow> parent_node s | Inr n \<Rightarrow> n)\<rparr>))
         else import_as_link sha256 ?p (length c) ?s) = Some (Inr (True, size, s1))"
    and s1: "parent_node s1 = fin" "repo_ok (import_repo s1)"
      "\<forall>d\<in>set (if ds = [] then [] else ds @ [c]). stores sha256 (import_repo s1) (leaf d)"
  proof (cases "ds = []")
    case True
    have "malloc_ok (length ?p)"
      using chunk_codec(3) [of c] chunk_object_size [of c] assms(1) by (simp add: malloc_ok_def)
    then have "ipfs_hashtable_node_set_data (parent_node s) ?p = Inr fin"
      using True assms(1,4)
      by (simp add: ipfs_hashtable_node_set_data_def fin_def final_node_def leaf_node_def root_node_def ipfs_hashtable_node_new_def)
    then show ?thesis
      using True assms(2,4) that [of 0 "?s\<lparr>parent_node := fin\<rparr>"] by (simp add: root_node_def)
  next
    case False
    then have "fin = root_node sha256 (ds @ [c])" by (simp add: fin_def final_node_def ch)
    moreover obtain size s1 where "import_as_link sha256 ?p (length c) ?s = Some (Inr (True, size, s1))"
      "parent_node s1 = root_node sha256 (ds @ [c])" "repo_ok (import_repo s1)" "stores sha256 (import_repo s1) (leaf c)"
      "\<forall>e. stores sha256 (import_repo s) e \<and> no_collision sha256 {leaf c, e} \<longrightarrow> stores sha256 (import_repo s1) e"
      using import_as_link_chunk [of ?s sha256 ds c] assms(1-5) by auto
    ultimately show ?thesis
      using False assms(4,8) that [of size s1] coll(2) by (simp add: root_node_def)
  qed
  obtain repo' where
    add: "ipfs_merkledag_add sha256 (parent_node s1) (import_repo s1) =
      Inr (True, fin\<lparr>node_hash := sha256 ?e\<rparr>, Some (length (wire (block_fields (block_of sha256 ?e)))), repo')"
    and repo': "repo_ok repo'" "stores sha256 repo' ?e"
      "\<forall>e. stores sha256 (import_repo s1) e \<and> no_collision sha256 {?e, e} \<longrightarrow> stores sha256 repo' e"
    using merkledag_add [OF s1(2) assms(3) wf(3,1,2)] s1(1) by auto
  have all: "\<forall>d\<in>set (ds @ [c]). stores sha256 repo' (leaf d)"
  proof (cases "ds = []")
    case True
    then have "?e = leaf c" using assms(1) by (simp add: fin_def final_node_def leaf_def)
    then show ?thesis using True repo'(2) by simp
  next
    case False
    then show ?thesis using s1(3) repo'(3) coll(1) by simp
  qed
  let ?s' = "s1\<lparr>parent_node := fin\<lparr>node_hash := sha256 ?e\<rparr>, import_repo := repo',
    written := length (wire (block_fields (block_of sha256 ?e))) + size\<rparr>"
  have "ipfs_import_chunk sha256 c s = Some (Inr (length c, ?s'))"
    unfolding ipfs_import_chunk_def Let_def
    by (simp only: u d 1 add sum.case bind_run_simps case_prod_conv if_False option.case not_True_eq_False simp_thms)
  then show ?thesis using repo' all by (intro exI [of _ ?s']) simp
qed


lemma import_loop:
  assumes "repo_ok (import_repo s)" and "sha_ok sha256" and "parent_node s = root_node sha256 ds"
    and "length ds + length (chunks c) < 2 ^ 22"
    and "no_collision sha256 (insert (wire (node_fields (final_node sha256 ds c))) (leaf ` set (ds @ chunks c)))"
    and "\<forall>d\<in>set ds. stores sha256 (import_repo s) (leaf d)"
  shows "\<exists>w s'. import_file_loop sha256 c w0 s = Some (Inr (w, s')) \<and>
    parent_node s' = (final_node sha256 ds c)\<lparr>node_hash := sha256 (wire (node_fields (final_node sha256 ds c)))\<rparr> \<and>
    repo_ok (import_repo s') \<and> stores sha256 (import_repo s') (wire (node_fields (final_node sha256 ds c))) \<and>
    (\<forall>d\<in>set (ds @ chunks c). stores sha256 (import_repo s') (leaf d))"
  using assms
proof (induction c arbitrary: ds w0 s rule: chunks.induct)
  case (1 c)
  let ?s = "s\<lparr>written := 0\<rparr>"
  show ?case
  proof (cases "length c < MAX_DATA_SIZE")
    case True
    then have ch: "chunks c = [c]" by (simp add: chunks.simps [of c])
    obtain s' where "ipfs_import_chunk sha256 c ?s = Some (Inr (length c, s'))"
      and s': "parent_node s' = (final_node sha256 ds c)\<lparr>node_hash := sha256 (wire (node_fields (final_node sha256 ds c)))\<rparr>"
        "repo_ok (import_repo s')" "stores sha256 (import_repo s') (wire (node_fields (final_node sha256 ds c)))"
        "\<forall>d\<in>set (ds @ [c]). stores sha256 (import_repo s') (leaf d)"
      using import_last_chunk [OF True, of ?s sha256 ds] "1.prems" ch by auto
    then show ?thesis using True ch by (subst import_file_loop.simps) auto
  next
    case False
    let ?d = "take MAX_DATA_SIZE c" and ?rest = "drop MAX_DATA_SIZE c"
    have ch: "chunks c = ?d # chunks ?rest" using False by (simp add: chunks.simps [of c])
    have fin: "final_node sha256 ds c = final_node sha256 (ds @ [?d]) ?rest"
      using False by (simp add: final_node_def ch)
    have "length ds + 1 < 2 ^ 22" using "1.prems"(4) ch by simp
    then obtain s1 where step: "ipfs_import_chunk sha256 c ?s = Some (Inr (MAX_DATA_SIZE, s1))"
      and s1: "parent_node s1 = root_node sha256 (ds @ [?d])" "repo_ok (import_repo s1)"
        "stores sha256 (import_repo s1) (leaf ?d)"
        "\<forall>e. stores sha256 (import_repo s) e \<and> no_collision sha256 {leaf ?d, e} \<longrightarrow> stores sha256 (import_repo s1) e"
      using import_full_chunk [of c ?s sha256 ds] False "1.prems"(1-3) by (auto simp: not_less)
    have "\<forall>d\<in>set (ds @ [?d]). stores sha256 (import_repo s1) (leaf d)"
      using s1(3,4) "1.prems"(6) by (auto intro!: no_collision_subset [OF "1.prems"(5)] simp: ch)
    moreover have "no_collision sha256 (insert (wire (node_fields (final_node sha256 (ds @ [?d]) ?rest)))
        (leaf ` set ((ds @ [?d]) @ chunks ?rest)))"
      using "1.prems"(5) by (simp add: ch fin)
    ultimately obtain w s' where
      "import_file_loop sha256 ?rest (w0 + written s1) s1 = Some (Inr (w, s'))"
      and s': "parent_node s' = (final_node sha256 ds c)\<lparr>node_hash := sha256 (wire (node_fields (final_node sha256 ds c)))\<rparr>"
        "repo_ok (import_repo s')" "stores sha256 (import_repo s') (wire (node_fields (final_node sha256 ds c)))"
        "\<forall>d\<in>set (ds @ chunks c). stores sha256 (import_repo s') (leaf d)"
      using "1.IH" [OF False, of s1 "ds @ [?d]" "w0 + written s1"] s1(1,2) "1.prems"(2,4)
      unfolding fin by (auto simp: ch)
    then show ?thesis using step by (subst import_file_loop.simps) auto
  qed
qed


section \<open>Exporting what is stored\<close>

lemma get_stored_node:
  assumes "repo_ok repo" and "sha_ok sha256" and "stores sha256 repo (wire (node_fields node))"
    and "node_wf node" and "ipfs_hashtable_node_protobuf_encode_size node < 2 ^ 30" and "node_norm node = node"
  shows "ipfs_exporter_get_node (ipfs_routing_generic_get_value repo) (sha256 (wire (node_fields node))) =
    Some (Inr (node\<lparr>node_hash := sha256 (wire (node_fields node))\<rparr>))"
proof -
  let ?h = "sha256 (wire (node_fields node))" and ?size = "ipfs_hashtable_node_protobuf_encode_size node"
  have "ipfs_merkledag_get ?h repo = Some (Inr (node\<lparr>node_hash := ?h\<rparr>))"
    using merkledag_get [OF assms(1-5)] assms(6) by simp
  moreover have "ipfs_hashtable_node_protobuf_encode_size (node\<lparr>node_hash := ?h\<rparr>) = ?size"
    by (simp add: ipfs_hashtable_node_protobuf_encode_size_def)
  moreover have "ipfs_hashtable_node_protobuf_encode (node\<lparr>node_hash := ?h\<rparr>) = ipfs_hashtable_node_protobuf_encode node"
    by (rule ext) (simp add: ipfs_hashtable_node_protobuf_encode_def)
  moreover have "c_size (c_int (int ?size)) = ?size" and "malloc_ok ?size"
    using assms(5) by (simp_all add: c_arith malloc_ok_def)
  moreover have "ipfs_hashtable_node_protobuf_encode node ?size = Inr (wire (node_fields node))"
    using node_codec.enc_estimated assms(4,5) by simp
  moreover have "ipfs_hashtable_node_protobuf_decode (wire (node_fields node)) = Some (Inr node)"
    using node_codec.dec_embedded assms(4-6) by simp
  ultimately show ?thesis
    using assms(2) by (simp add: ipfs_exporter_get_node_def ipfs_routing_generic_get_value_def sha_ok_def malloc_ok_def Let_def)
qed

lemma get_leaf:
  assumes "repo_ok repo" and "sha_ok sha256" and "stores sha256 repo (leaf d)" and "length d \<le> MAX_DATA_SIZE"
  shows "ipfs_exporter_get_node (ipfs_routing_generic_get_value repo) (sha256 (leaf d)) =
    Some (Inr ((leaf_node d)\<lparr>node_hash := sha256 (leaf d)\<rparr>))"
  using get_stored_node [OF assms(1,2) assms(3) [unfolded leaf_def] leaf_node_wf(1-3) [OF assms(4)]]
  by (simp add: leaf_def)

lemma leaf_decodes:
  assumes "length d \<le> MAX_DATA_SIZE"
  shows "ipfs_unixfs_protobuf_decode (node_data (leaf_node d)) = Some (Inr (chunk_object d))"
  using chunk_codec(2) [of d] chunk_object_size [OF assms] by (simp add: leaf_node_def)

lemma leaf_no_links [simp]: "node_links (leaf_node d) = []"
  by (simp add: leaf_node_def ipfs_hashtable_node_new_def)

lemma chunk_link_hash [simp]: "link_hash (chunk_link sha256 d) = sha256 (leaf d)"
  by (simp add: chunk_link_def)

lemma cat_chunk_links:
  assumes "repo_ok repo" and "sha_ok sha256"
    and "\<forall>d\<in>set ds. stores sha256 repo (leaf d) \<and> length d \<le> MAX_DATA_SIZE"
  shows "cat_links (ipfs_routing_generic_get_value repo) (map (chunk_link sha256) ds) = Some (Inr (True, concat ds))"
  using assms(3)
proof (induction ds)
  case Nil
  then show ?case by (simp add: cat_links.simps)
next
  case (Cons d ds)
  have "cat_links (ipfs_routing_generic_get_value repo) [] = Some (Inr (True, []))"
    by (simp add: cat_links.simps)
  then show ?case
    using Cons get_leaf [OF assms(1,2), of d] leaf_decodes [of d]
    by (subst cat_links.simps) simp
qed

lemma export_chunk_links:
  assumes "repo_ok repo" and "sha_ok sha256"
    and "\<forall>d\<in>set ds. stores sha256 repo (leaf d) \<and> length d \<le> MAX_DATA_SIZE"
  shows "export_links (ipfs_routing_generic_get_value repo) (map (chunk_link sha256) ds) out =
    Some (Inr (True, out @ concat ds))"
  using assms(3)
proof (induction ds arbitrary: out)
  case (Cons d ds)
  then show ?case
    using get_leaf [OF assms(1,2), of d] leaf_decodes [of d]
    by (simp add: node_content_def)
qed simp

section \<open>Properties\<close>

text \<open>
  C2: a file that is imported can be exported again, byte for byte, whatever its length: cut into
  chunks, each stored as a block, joined under a node that is stored as well, and looked up on
  the same node by the hash of that node, with \<open>cat\<close> or into a file by the base 58 form of the
  hash. The file's node and the chunks are announced. This needs a database that keeps its keys,
  and that no two blocks of the file get the same key.
\<close>

theorem import_then_export:
  assumes "repo_ok repo" and "sha_ok sha256" and "length content < 2 ^ 39"
    and "no_collision sha256
      (insert (wire (node_fields (file_node sha256 content))) (leaf ` set (chunks content)))"
  shows "\<exists>node bytes_written repo' announced.
    ipfs_import_file sha256 recursive (Regular_File content) 0 repo = Some (Inr (node, bytes_written, repo', announced)) \<and>
    node_hash node = sha256 (wire (node_fields (file_node sha256 content))) \<and>
    announced = node_hash node # (if length content < MAX_DATA_SIZE then [] else map (\<lambda>d. sha256 (leaf d)) (chunks content)) \<and>
    ipfs_exporter_object_cat_to_file (ipfs_routing_generic_get_value repo') (node_hash node) = Some (Inr (True, content)) \<and>
    (\<forall>b58 c. ipfs_cid_decode_hash_from_base58 b58 (strlen b58) = Inr c \<and> cid_hash c = node_hash node \<longrightarrow>
      ipfs_exporter_to_filestream (ipfs_routing_generic_get_value repo') b58 = Some (Inr (True, content)))"
proof -
  let ?n = "file_node sha256 content" and ?v = "ipfs_routing_generic_get_value"
  have fin: "final_node sha256 [] content = ?n" by (simp add: final_node_def file_node_def)
  have count: "length (chunks content) < 2 ^ 22"
    using length_chunks [of content] assms(3) by (simp add: MAX_DATA_SIZE_def)
  let ?s = "\<lparr>parent_node = ipfs_hashtable_node_new, total_size = 0, written = 0, import_repo = repo\<rparr>"
  have "parent_node ?s = root_node sha256 []" by (simp add: root_node_def ipfs_hashtable_node_new_def)
  then obtain w s' where loop: "import_file_loop sha256 content 0 ?s = Some (Inr (w, s'))"
    and node: "parent_node s' = ?n\<lparr>node_hash := sha256 (wire (node_fields ?n))\<rparr>"
    and repo': "repo_ok (import_repo s')" "stores sha256 (import_repo s') (wire (node_fields ?n))"
      "\<forall>d\<in>set (chunks content). stores sha256 (import_repo s') (leaf d)"
    using import_loop [of ?s sha256 "[]" content 0] assms count by (auto simp: fin)
  let ?r = "import_repo s'" and ?h = "sha256 (wire (node_fields ?n))"
  have import: "ipfs_import_file sha256 recursive (Regular_File content) 0 repo =
      Some (Inr (parent_node s', w, ?r, announce (parent_node s')))"
    using loop by simp
  have get: "ipfs_exporter_get_node (?v ?r) ?h = Some (Inr (?n\<lparr>node_hash := ?h\<rparr>))"
    using get_stored_node [OF repo'(1) assms(2) repo'(2)] final_node_wf [OF assms(2), of "[]" content] count
    by (simp add: fin)
  have links: "\<forall>d\<in>set (chunks content). stores sha256 ?r (leaf d) \<and> length d \<le> MAX_DATA_SIZE"
    using repo'(3) chunks_length by blast
  have cat: "ipfs_exporter_cat_node (?v ?r) (?n\<lparr>node_hash := ?h\<rparr>) = Some (Inr (True, content))"
    and export: "(if node_links ?n = [] then bind_run (node_content (?n\<lparr>node_hash := ?h\<rparr>)) (\<lambda>bs. Some (Inr (True, bs)))
      else export_links (?v ?r) (node_links ?n) []) = Some (Inr (True, content))"
  proof -
    have root: "ipfs_unixfs_protobuf_decode (wire (unixfs_fields (root_object (chunks content)))) =
        Some (Inr (root_object (chunks content)))"
      using root_codec(2) root_object_size count by simp
    show "ipfs_exporter_cat_node (?v ?r) (?n\<lparr>node_hash := ?h\<rparr>) = Some (Inr (True, content))"
      using cat_chunk_links [OF repo'(1) assms(2) links] root leaf_decodes [of content]
      by (cases "length content < MAX_DATA_SIZE")
        (simp_all add: ipfs_exporter_cat_node_def file_node_def root_node_def cat_links.simps [of _ "[]"])
    show "(if node_links ?n = [] then bind_run (node_content (?n\<lparr>node_hash := ?h\<rparr>)) (\<lambda>bs. Some (Inr (True, bs)))
      else export_links (?v ?r) (node_links ?n) []) = Some (Inr (True, content))"
      using export_chunk_links [OF repo'(1) assms(2) links] leaf_decodes [of content]
      by (cases "length content < MAX_DATA_SIZE")
        (simp_all add: node_content_def file_node_def root_node_def)
  qed
  have "announce (parent_node s') =
      ?h # (if length content < MAX_DATA_SIZE then [] else map (\<lambda>d. sha256 (leaf d)) (chunks content))"
    by (simp add: node announce_def file_node_def root_node_def chunk_link_def comp_def)
  moreover have "ipfs_exporter_object_cat_to_file (?v ?r) ?h = Some (Inr (True, content))"
    using get cat by (simp add: ipfs_exporter_object_cat_to_file_def)
  moreover have "ipfs_exporter_to_filestream (?v ?r) b58 = Some (Inr (True, content))"
    if "ipfs_cid_decode_hash_from_base58 b58 (strlen b58) = Inr c" and "cid_hash c = ?h" for b58 c
    using get export that
    by (cases "node_links ?n = []") (simp_all add: ipfs_exporter_to_filestream_def)
  ultimately show ?thesis using import node by fastforce
qed

theorem import_then_export_witness:
  "\<exists>node bytes_written repo' announced.
    ipfs_import_file cut_hash False (Regular_File [1, 2, 3]) 0 map_repo =
      Some (Inr (node, bytes_written, repo', announced)) \<and>
    ipfs_exporter_object_cat_to_file (ipfs_routing_generic_get_value repo') (node_hash node) = Some (Inr (True, [1, 2, 3]))"
proof -
  have "chunks [1, 2, 3] = [[1, 2, 3]]"
    by (subst chunks.simps) (simp add: MAX_DATA_SIZE_def)
  then have "no_collision cut_hash
      (insert (wire (node_fields (file_node cut_hash [1, 2, 3]))) (leaf ` set (chunks [1, 2, 3])))"
    by (simp add: no_collision_def file_node_def leaf_def MAX_DATA_SIZE_def)
  from import_then_export [OF map_repo cut_hash _ this, of False] show ?thesis by auto
qed

end
