(* ===== verification/Dht_Protocol.thy ===== *)
theory Dht_Protocol
  imports Kad_Message Peerstore Net_Protocol Base58 Blockstore
begin

text \<open>
  The Kademlia protocol as a node answers and speaks it, \<open>libp2p/routing/dht_protocol.c\<close>.

  The context of the handler is the store of peers, the store of providers, the database and the
  file store behind their function pointers, and the local peer that the store of providers was
  made with. The store of providers has the same database. What comes in on a stream and whether
  a write succeeds are arguments, what is written is part of the result. The time-outs of the
  reads have no counterpart.
\<close>

section \<open>The context and the results\<close>

definition MESSAGE_TYPE_PUT_VALUE :: u32 where "MESSAGE_TYPE_PUT_VALUE = 0"
definition MESSAGE_TYPE_GET_VALUE :: u32 where "MESSAGE_TYPE_GET_VALUE = 1"
definition MESSAGE_TYPE_ADD_PROVIDER :: u32 where "MESSAGE_TYPE_ADD_PROVIDER = 2"
definition MESSAGE_TYPE_GET_PROVIDERS :: u32 where "MESSAGE_TYPE_GET_PROVIDERS = 3"
definition MESSAGE_TYPE_FIND_NODE :: u32 where "MESSAGE_TYPE_FIND_NODE = 4"

lemmas message_types =
  MESSAGE_TYPE_PUT_VALUE_def MESSAGE_TYPE_GET_VALUE_def MESSAGE_TYPE_ADD_PROVIDER_def
  MESSAGE_TYPE_GET_PROVIDERS_def MESSAGE_TYPE_FIND_NODE_def MESSAGE_TYPE_PING_def

record 'd dht_context =
  peer_store :: peerstore
  provider_store :: "provider_entry vector"
  local_peer :: libp2p_peer
  dht_datastore :: "'d datastore"
  dht_datastore_context :: 'd
  filestore_node_get :: "bytes \<Rightarrow> bytes run"

text \<open>The caller's result buffer: never set, set, or pointing to memory that was freed.\<close>

datatype out_buffer = No_Buffer | Buffer bytes | Freed

definition key_of :: "kad_message \<Rightarrow> bytes" where
  "key_of m = (case msg_key m of None \<Rightarrow> [] | Some k \<Rightarrow> k)"

definition in_datastore :: "'d dht_context \<Rightarrow> bytes \<Rightarrow> bool" where
  "in_datastore ctx k \<longleftrightarrow> datastore_get (dht_datastore ctx) k (dht_datastore_context ctx) \<noteq> None"

section \<open>The handlers\<close>

definition kad_protocol :: bytes where "kad_protocol = map of_char ''/ipfs/kad/1.0.0'' @ [10]"

definition libp2p_routing_dht_can_handle :: "stream_message option \<Rightarrow> bool" where
  "libp2p_routing_dht_can_handle msg =
     (case msg of
        None \<Rightarrow> False
      | Some m \<Rightarrow>
          (case msg_data m of
             None \<Rightarrow> False
           | Some d \<Rightarrow> 8 \<le> length d \<and> strnstr d (map of_char ''/ipfs/kad'') (length d) = Some 0))"

text \<open>
  The buffer of a message that cannot be encoded is freed, and the caller keeps its address. A
  failed \<open>malloc\<close> is not noticed before the encoder writes to it.
\<close>

definition libp2p_routing_dht_protobuf_message :: "kad_message \<Rightarrow> (bool \<times> out_buffer) result" where
  "libp2p_routing_dht_protobuf_message m =
     (let n = libp2p_message_protobuf_encode_size m in
      if \<not> malloc_ok n then Inl Undefined
      else or_else (libp2p_message_protobuf_encode m n) (Inr (False, Freed)) (\<lambda>bs. Inr (True, Buffer bs)))"

definition libp2p_routing_dht_handle_ping :: "kad_message \<Rightarrow> (bool \<times> out_buffer) result" where
  "libp2p_routing_dht_handle_ping m = libp2p_routing_dht_protobuf_message m"

text \<open>
  A copy of a peer for the message; a null one would be followed by the encoder. For a key that
  nobody provides, the key is encoded for the log all the same, and so is the id of a provider.
\<close>

definition copy_for_message :: "libp2p_peer \<Rightarrow> libp2p_peer result" where
  "copy_for_message p = or_else (libp2p_peer_copy p) (Inl Undefined) Inr"

definition find_providers :: "'d dht_context \<Rightarrow> bytes \<Rightarrow> libp2p_peer list result" where
  "find_providers ctx key =
     (if in_datastore ctx key then
        (case libp2p_peerstore_get_local_peer (Some (peer_store ctx)) of
           None \<Rightarrow> Inl Undefined
         | Some p \<Rightarrow> bind_res (copy_for_message p) (\<lambda>c. Inr [c]))
      else
        (case libp2p_providerstore_get (in_datastore ctx) (local_peer ctx) (provider_store ctx) key of
           Some pid \<Rightarrow>
             (case libp2p_peerstore_get_peer (peer_store ctx) pid of
                None \<Rightarrow> Inr []
              | Some i \<Rightarrow>
                  bind_res (libp2p_peer_id_to_string (peer_store ctx ! i)) (\<lambda>s.
                  bind_res (copy_for_message (peer_store ctx ! i)) (\<lambda>c. Inr [c])))
         | None \<Rightarrow> bind_res (libp2p_crypto_encoding_base58_encode key 100) (\<lambda>r. Inr [])))"

definition libp2p_routing_dht_handle_get_providers ::
    "kad_message \<Rightarrow> 'd dht_context \<Rightarrow> (bool \<times> out_buffer) result" where
  "libp2p_routing_dht_handle_get_providers message ctx =
     bind_res (find_providers ctx (key_of message)) (\<lambda>ps.
     if ps = [] then Inr (True, No_Buffer)
     else libp2p_routing_dht_protobuf_message (message\<lparr>provider_peers := ps\<rparr>))"

fun libp2p_routing_dht_find_peer_ip_multiaddress :: "multiaddr option list \<Rightarrow> multiaddr option result" where
  "libp2p_routing_dht_find_peer_ip_multiaddress [] = Inr None"
| "libp2p_routing_dht_find_peer_ip_multiaddress (None # as) = Inl Undefined"
| "libp2p_routing_dht_find_peer_ip_multiaddress (Some a # as) =
     (if multiaddress_is_ip a then Inr (Some a)
      else libp2p_routing_dht_find_peer_ip_multiaddress as)"

text \<open>
  \<open>watching\<close> says whether the logger watches the class \<open>dht_protocol\<close>: then the first peer is
  followed before it is looked at. The buffer of a failed encoding would be freed twice.
\<close>

definition libp2p_routing_dht_handle_add_provider ::
    "bool \<Rightarrow> kad_message \<Rightarrow> 'd dht_context \<Rightarrow> (bool \<times> out_buffer \<times> 'd dht_context) result" where
  "libp2p_routing_dht_handle_add_provider watching message ctx =
     (case provider_peers message of
        [] \<Rightarrow> if watching then Inl Undefined else Inr (False, No_Buffer, ctx)
      | p # ps \<Rightarrow>
          bind_res (if watching then libp2p_peer_id_to_string p else Inr []) (\<lambda>s.
          bind_res (libp2p_routing_dht_find_peer_ip_multiaddress (addr_list p)) (\<lambda>ma.
          if ma = None then Inr (False, No_Buffer, ctx)
          else
            bind_res (libp2p_peerstore_add_peer (peer_store ctx) p) (\<lambda>(ok, peers).
            let ctx1 = ctx\<lparr>peer_store := peers\<rparr> in
            if \<not> ok then Inr (False, No_Buffer, ctx1)
            else
              bind_res (libp2p_providerstore_add (provider_store ctx) (key_of message) (peer_id p)) (\<lambda>providers.
              bind_res (libp2p_routing_dht_protobuf_message message) (\<lambda>(done, out).
              if done then Inr (True, out, ctx1\<lparr>provider_store := providers\<rparr>) else Inl Undefined))))))"

definition libp2p_routing_dht_handle_get_value ::
    "kad_message \<Rightarrow> 'd dht_context \<Rightarrow> (bool \<times> out_buffer) run" where
  "libp2p_routing_dht_handle_get_value message ctx =
     (case filestore_node_get ctx (key_of message) of
        None \<Rightarrow> None
      | Some (Inl e) \<Rightarrow>
          if e = Failure
          then Some (bind_res (libp2p_crypto_encoding_base58_encode (key_of message) 100) (\<lambda>r. Inr (False, No_Buffer)))
          else Some (Inl e)
      | Some (Inr data) \<Rightarrow>
          if \<not> malloc_ok (length data) \<or> \<not> malloc_ok (length (key_of message)) then Some (Inl Undefined)
          else
            Some (libp2p_routing_dht_protobuf_message
              (message\<lparr>msg_record := Some (libp2p_record_new\<lparr>rec_key := Some (key_of message), rec_value := data\<rparr>)\<rparr>)))"

definition libp2p_routing_dht_handle_put_value ::
    "kad_message \<Rightarrow> 'd dht_context \<Rightarrow> (bool \<times> 'd dht_context)" where
  "libp2p_routing_dht_handle_put_value message ctx =
     (case msg_record message of
        None \<Rightarrow> (False, ctx)
      | Some r \<Rightarrow>
          if \<not> malloc_ok (length (rec_key_bytes r)) \<or> \<not> malloc_ok (length (rec_value r)) then (False, ctx)
          else
            let (ok, d) = datastore_put (dht_datastore ctx)
              \<lparr>ds_key = rec_key_bytes r, ds_value = rec_value r, ds_timestamp = 0\<rparr> (dht_datastore_context ctx)
            in (ok, ctx\<lparr>dht_datastore_context := d\<rparr>))"

definition libp2p_routing_dht_handle_find_node ::
    "kad_message \<Rightarrow> 'd dht_context \<Rightarrow> (bool \<times> out_buffer) result" where
  "libp2p_routing_dht_handle_find_node message ctx =
     (case libp2p_peerstore_get_peer (peer_store ctx) (key_of message) of
        None \<Rightarrow> Inr (False, No_Buffer)
      | Some i \<Rightarrow>
          bind_res (copy_for_message (peer_store ctx ! i)) (\<lambda>c.
          libp2p_routing_dht_protobuf_message (message\<lparr>provider_peers := [c]\<rparr>)))"

text \<open>The choice of the handler by the type of the message: the buffer and the context.\<close>

definition dispatch :: "bool \<Rightarrow> kad_message \<Rightarrow> 'd dht_context \<Rightarrow> (out_buffer \<times> 'd dht_context) run" where
  "dispatch watching m ctx =
     (let t = message_type m; answer = (\<lambda>r. Some (bind_res r (\<lambda>(ok, out). Inr (out, ctx)))) in
      if t = MESSAGE_TYPE_PUT_VALUE then Some (Inr (No_Buffer, snd (libp2p_routing_dht_handle_put_value m ctx)))
      else if t = MESSAGE_TYPE_GET_VALUE then
        bind_run (libp2p_routing_dht_handle_get_value m ctx) (\<lambda>r. answer (Inr r))
      else if t = MESSAGE_TYPE_ADD_PROVIDER then
        Some (bind_res (libp2p_routing_dht_handle_add_provider watching m ctx) (\<lambda>(ok, out, ctx'). Inr (out, ctx')))
      else if t = MESSAGE_TYPE_GET_PROVIDERS then answer (libp2p_routing_dht_handle_get_providers m ctx)
      else if t = MESSAGE_TYPE_FIND_NODE then answer (libp2p_routing_dht_handle_find_node m ctx)
      else if t = MESSAGE_TYPE_PING then answer (libp2p_routing_dht_handle_ping m)
      else Some (Inr (No_Buffer, ctx)))"

text \<open>\<open>incoming\<close> is what the stream gives to be read; a buffer that was freed would be written.\<close>

definition libp2p_routing_dht_handle_message ::
    "(bytes \<Rightarrow> bytes option) \<Rightarrow> bool \<Rightarrow> (bytes \<Rightarrow> bool) \<Rightarrow> bytes option \<Rightarrow> 'd dht_context \<Rightarrow>
     (bool \<times> 'd dht_context \<times> bytes list) run" where
  "libp2p_routing_dht_handle_message to_string watching write_ok incoming ctx =
     (case incoming of
        None \<Rightarrow> Some (Inr (False, ctx, []))
      | Some bs \<Rightarrow>
          (case libp2p_message_protobuf_decode to_string bs of
             None \<Rightarrow> None
           | Some (Inl e) \<Rightarrow> if e = Failure then Some (Inr (False, ctx, [])) else Some (Inl e)
           | Some (Inr m) \<Rightarrow>
               bind_run (dispatch watching m ctx) (\<lambda>(out, ctx').
               case out of
                 No_Buffer \<Rightarrow> Some (Inr (True, ctx', []))
               | Freed \<Rightarrow> Some (Inl Undefined)
               | Buffer b \<Rightarrow> Some (Inr (write_ok b, ctx', [b])))))"

definition libp2p_routing_dht_handshake :: "(bytes \<Rightarrow> bool) \<Rightarrow> bool \<times> bytes list" where
  "libp2p_routing_dht_handshake write_ok = (write_ok kad_protocol, [kad_protocol])"

definition libp2p_routing_dht_handle_msg ::
    "(bytes \<Rightarrow> bytes option) \<Rightarrow> bool \<Rightarrow> (bytes \<Rightarrow> bool) \<Rightarrow> bytes option \<Rightarrow> 'd dht_context \<Rightarrow>
     (int \<times> 'd dht_context \<times> bytes list) run" where
  "libp2p_routing_dht_handle_msg to_string watching write_ok incoming ctx =
     (let (ok, hello) = libp2p_routing_dht_handshake write_ok in
      if \<not> ok then Some (Inr (- 1, ctx, hello))
      else
        bind_run (libp2p_routing_dht_handle_message to_string watching write_ok incoming ctx) (\<lambda>(r, ctx', sent).
        Some (Inr (if r then 1 else - 1, ctx', hello @ sent))))"

section \<open>Speaking the protocol\<close>

text \<open>\<open>reply\<close> is what the other side answers to the name of the protocol, if it can be read.\<close>

definition libp2p_routing_dht_upgrade_stream :: "(bytes \<Rightarrow> bool) \<Rightarrow> bytes option \<Rightarrow> bool" where
  "libp2p_routing_dht_upgrade_stream write_ok reply =
     (write_ok kad_protocol \<and>
      (case reply of
         None \<Rightarrow> False
       | Some d \<Rightarrow> length d = length kad_protocol \<and> strncmp_eq d kad_protocol (length d)))"

text \<open>The result of the encoder is not looked at: after a failure the buffer is sent as it is.\<close>

definition libp2p_routing_dht_send_message ::
    "(bytes \<Rightarrow> bool) \<Rightarrow> bytes option \<Rightarrow> kad_message \<Rightarrow> (bool \<times> bytes list) result" where
  "libp2p_routing_dht_send_message write_ok reply message =
     (let n = libp2p_message_protobuf_encode_size message in
      if \<not> malloc_ok n then Inl Undefined
      else
        or_else (libp2p_message_protobuf_encode message n) (Inl Undefined) (\<lambda>protobuf.
        if \<not> libp2p_routing_dht_upgrade_stream write_ok reply then Inr (False, [kad_protocol])
        else Inr (write_ok protobuf, [kad_protocol, protobuf])))"

text \<open>
  The return value tests the address of the result and so is always 1; the message, if there is
  one. A read that fails leaves a null message, which is freed.
\<close>

definition libp2p_routing_dht_receive_message ::
    "(bytes \<Rightarrow> bytes option) \<Rightarrow> bytes option \<Rightarrow> (bool \<times> kad_message option) run" where
  "libp2p_routing_dht_receive_message to_string incoming =
     (case incoming of
        None \<Rightarrow> Some (Inr (True, None))
      | Some bs \<Rightarrow>
          (case libp2p_message_protobuf_decode to_string bs of
             None \<Rightarrow> None
           | Some (Inl e) \<Rightarrow> if e = Failure then Some (Inr (True, None)) else Some (Inl e)
           | Some (Inr m) \<Rightarrow> Some (Inr (True, Some m))))"

text \<open>
  The message goes to the first peers of the store that are not local and can be connected to.
  \<open>connect\<close> gives the result of connecting and the peer, \<open>send\<close> says whether sending to the
  session of a peer succeeds. The store and the positions of the peers it was sent to.
\<close>

fun send_nearest_loop ::
    "(libp2p_peer \<Rightarrow> (int \<times> libp2p_peer) result) \<Rightarrow> (libp2p_peer \<Rightarrow> bool result) \<Rightarrow> int \<Rightarrow> int \<Rightarrow> peerstore \<Rightarrow>
     (int \<times> peerstore) result" where
  "send_nearest_loop connect send numToSend numSent [] = Inr (numSent, [])"
| "send_nearest_loop connect send numToSend numSent (p # ps) =
     (if is_local p then
        bind_res (send_nearest_loop connect send numToSend numSent ps) (\<lambda>(n, ps'). Inr (n, p # ps'))
      else
        bind_res (connect p) (\<lambda>(r, p').
        bind_res (if r \<noteq> 0 then bind_res (send p') (\<lambda>ok. Inr (if ok then numSent + 1 else numSent)) else Inr numSent) (\<lambda>n.
        if numToSend \<le> n then Inr (n, p' # ps)
        else bind_res (send_nearest_loop connect send numToSend n ps) (\<lambda>(n', ps'). Inr (n', p' # ps')))))"

definition libp2p_routing_dht_send_message_nearest_x ::
    "(libp2p_peer \<Rightarrow> nat \<Rightarrow> int \<times> libp2p_peer) \<Rightarrow> (libp2p_peer \<Rightarrow> bool result) \<Rightarrow> int \<Rightarrow> peerstore \<Rightarrow>
     (bool \<times> peerstore) result" where
  "libp2p_routing_dht_send_message_nearest_x dialer_join_swarm send numToSend ps =
     bind_res (send_nearest_loop (\<lambda>p. libp2p_peer_connect dialer_join_swarm p 5) send numToSend 0 ps) (\<lambda>(n, ps').
     Inr (0 < n, ps'))"

end
