(* ===== verification/Dht_Session.thy ===== *)
theory Dht_Session
  imports Dht_Protocol
begin

text \<open>
  What holds of a node that answers Kademlia messages: the invariant of its two stores over every
  run of messages, and what a peer that asks is told. \<open>conversion_ok\<close> is what the code relies
  on of the conversion of addresses: bytes that have a string are not empty, and the string is one.
\<close>

section \<open>What comes in\<close>

definition conversion_ok :: "(bytes \<Rightarrow> bytes option) \<Rightarrow> bool" where
  "conversion_ok to_string \<longleftrightarrow> (\<forall>bs s. to_string bs = Some s \<longrightarrow> bs \<noteq> [] \<and> 0 \<notin> set s)"

lemma new_address_ok:
  assumes "conversion_ok to_string" and "multiaddress_new_from_bytes to_string bs = Some a"
  shows "addr_ok a"
proof -
  let ?n = "nat (c_int (int (length bs)))"
  obtain s where "to_string (take ?n bs) = Some s" and a: "a = \<lparr>ma_string = Some s, ma_bytes = take ?n bs\<rparr>"
    using assms(2) by (auto simp: multiaddress_new_from_bytes_def Let_def split: if_splits option.splits)
  then have "take ?n bs \<noteq> []" and "0 \<notin> set s" using assms(1) by (simp_all only: conversion_ok_def) blast+
  moreover have "nat x < 2 ^ 31" if "x < 2 ^ 31" for x :: int using that by simp
  then have "?n < 2 ^ 31" using c_int_range [of "int (length bs)"] by blast
  ultimately show ?thesis by (simp add: a addr_ok_def min.strict_coboundedI2)
qed

lemma addrs_ok_snoc: "addrs_ok (as @ [x]) \<longleftrightarrow> addrs_ok as \<and> (\<forall>a. x = Some a \<longrightarrow> addr_ok a)"
  by (auto simp: addrs_ok_def)

lemma decoded_peer_addrs:
  assumes "conversion_ok to_string" and "libp2p_peer_protobuf_decode to_string bs = Some (Inr p)"
  shows "addrs_ok (addr_list p)"
  using assms(2) unfolding libp2p_peer_protobuf_decode_def
proof (rule pb_decode_loop_invariant)
  fix k pos q q' pos'
  assume "addrs_ok (addr_list q)" and "libp2p_peer_field to_string bs k pos q = Some (Inr (q', pos'))"
  then show "addrs_ok (addr_list q')"
    using new_address_ok [OF assms(1)]
    by (auto simp: libp2p_peer_field_def Let_def bind_res_Inr_iff addrs_ok_snoc split: if_splits)
qed (simp add: libp2p_peer_new_def)

lemma decoded_message_addrs:
  assumes "conversion_ok to_string" and "libp2p_message_protobuf_decode to_string bs = Some (Inr m)"
  shows "\<forall>p\<in>set (provider_peers m). addrs_ok (addr_list p)"
  using assms(2) unfolding libp2p_message_protobuf_decode_def
proof (rule pb_decode_loop_invariant)
  fix k pos q q' pos'
  assume "\<forall>p\<in>set (provider_peers q). addrs_ok (addr_list p)"
    and "libp2p_message_field to_string bs k pos q = Some (Inr (q', pos'))"
  then show "\<forall>p\<in>set (provider_peers q'). addrs_ok (addr_list p)"
    using decoded_peer_addrs [OF assms(1)]
    by (auto simp: libp2p_message_field_def Let_def bind_res_Inr_iff bind_run_Inr_iff split: if_splits)
qed (simp add: libp2p_message_new_def)

section \<open>The invariant of the stores\<close>

text \<open>
  The peers are all different, with ids and addresses that can be copied, and every provider is
  one of them.
\<close>

definition dht_inv :: "'d dht_context \<Rightarrow> bool" where
  "dht_inv ctx \<longleftrightarrow>
     peerstore_wf (peer_store ctx) \<and> (\<forall>q\<in>set (peer_store ctx). peer_ok q) \<and>
     (\<forall>e\<in>set (vec_items (provider_store ctx)). \<exists>p q. e = Some p \<and> peer_lookup (peer_store ctx) (pe_peer_id p) = Some q)"

text \<open>A store that grows keeps its peers and their addresses.\<close>

definition peers_grow :: "peerstore \<Rightarrow> peerstore \<Rightarrow> bool" where
  "peers_grow ps ps' \<longleftrightarrow>
     (\<forall>i q. peer_lookup ps i = Some q \<longrightarrow>
        (\<exists>q'. peer_lookup ps' i = Some q' \<and> addr_bytes (addr_list q) \<subseteq> addr_bytes (addr_list q')))"

lemma peers_grow_refl [simp]: "peers_grow ps ps"
  by (simp add: peers_grow_def)

lemma peers_grow_trans: "peers_grow ps qs \<Longrightarrow> peers_grow qs rs \<Longrightarrow> peers_grow ps rs"
  unfolding peers_grow_def by (meson subset_trans)

lemma add_peer_inv:
  assumes "libp2p_peerstore_add_peer ps p = Inr (ok, ps')" and "peerstore_wf ps" and "\<forall>q\<in>set ps. peer_ok q"
    and "addrs_ok (addr_list p)"
  shows "peerstore_wf ps' \<and> (\<forall>q\<in>set ps'. peer_ok q) \<and> peers_grow ps ps' \<and>
    (ok \<longrightarrow> (\<exists>q. peer_lookup ps' (peer_id p) = Some q \<and> addr_bytes (addr_list p) \<subseteq> addr_bytes (addr_list q)))"
proof (cases "peer_id p = []")
  case True
  then show ?thesis using assms by (simp add: libp2p_peerstore_add_peer_def get_peer_defs)
next
  case False
  have "length (peer_id p) < 100"
  proof (cases "find_peer ps (peer_id p)")
    case None
    then show ?thesis using assms(1) False
      by (auto simp: libp2p_peerstore_add_peer_def get_peer_defs libp2p_peer_id_to_string_def split: if_splits)
  next
    case (Some i)
    then have "ps ! i \<in> set ps" and "peer_id (ps ! i) = peer_id p" using find_peer_Some [OF Some] by auto
    then show ?thesis using assms(3) by (metis peer_ok_def)
  qed
  then have "peer_ok p" using assms(4) by (simp add: peer_ok_def)
  from peerstore_add_ok [OF assms(2,3) this False] obtain q where
    q: "ok" "peerstore_wf ps'" "\<forall>q\<in>set ps'. peer_ok q" "peer_lookup ps' = (peer_lookup ps)(peer_id p \<mapsto> q)"
    "addr_bytes (addr_list q) = addr_bytes (addr_list p) \<union>
      (case peer_lookup ps (peer_id p) of None \<Rightarrow> {} | Some e \<Rightarrow> addr_bytes (addr_list e))"
    using assms(1) by auto
  then have "peers_grow ps ps'" by (auto simp: peers_grow_def)
  then show ?thesis using q by auto
qed

lemma providerstore_add_items:
  "libp2p_providerstore_add store k pid = Inr store' \<Longrightarrow>
    vec_items store' = vec_items store @ [Some \<lparr>pe_hash = k, pe_peer_id = pid\<rparr>]"
  by (auto simp: libp2p_providerstore_add_def libp2p_utils_vector_add_def libp2p_utils_vector_resize_def
      bind_res_Inr_iff Let_def split: if_splits)

lemma find_provider_append:
  "(\<And>e. e \<in> set es \<Longrightarrow> e \<noteq> None) \<Longrightarrow>
    find_provider (es @ [Some p]) k =
      (case find_provider es k of None \<Rightarrow> if pe_hash p = k then Some (pe_peer_id p) else None | Some pid \<Rightarrow> Some pid)"
  by (induction es) (auto split: option.splits)

lemma find_provider_member:
  "find_provider es k = Some pid \<Longrightarrow> \<exists>p. Some p \<in> set es \<and> pe_peer_id p = pid"
  by (induction es) (auto split: option.splits if_splits)

text \<open>What one context has, the other has: the peers, and the provider of a key.\<close>

definition dht_keeps :: "'d dht_context \<Rightarrow> 'd dht_context \<Rightarrow> bool" where
  "dht_keeps ctx ctx' \<longleftrightarrow>
     peers_grow (peer_store ctx) (peer_store ctx') \<and>
     (\<forall>k pid. find_provider (vec_items (provider_store ctx)) k = Some pid \<longrightarrow>
        find_provider (vec_items (provider_store ctx')) k = Some pid) \<and>
     filestore_node_get ctx' = filestore_node_get ctx"

lemma dht_keeps_refl [simp]: "dht_keeps ctx ctx"
  by (simp add: dht_keeps_def)

lemma dht_keeps_trans: "dht_keeps a b \<Longrightarrow> dht_keeps b c \<Longrightarrow> dht_keeps a c"
  unfolding dht_keeps_def using peers_grow_trans by auto

lemma put_value_keeps:
  "dht_keeps ctx (snd (libp2p_routing_dht_handle_put_value m ctx))"
  "dht_inv ctx \<Longrightarrow> dht_inv (snd (libp2p_routing_dht_handle_put_value m ctx))"
  by (simp_all add: libp2p_routing_dht_handle_put_value_def dht_keeps_def dht_inv_def split: option.split prod.split)

lemma add_provider_keeps:
  assumes "libp2p_routing_dht_handle_add_provider watching m ctx = Inr (ok, out, ctx')" and "dht_inv ctx"
    and "\<forall>p\<in>set (provider_peers m). addrs_ok (addr_list p)"
  shows "dht_keeps ctx ctx' \<and> dht_inv ctx' \<and>
    (out \<noteq> No_Buffer \<longrightarrow>
      (\<exists>p ps q. provider_peers m = p # ps \<and> peer_lookup (peer_store ctx') (peer_id p) = Some q \<and>
        addr_bytes (addr_list p) \<subseteq> addr_bytes (addr_list q) \<and>
        find_provider (vec_items (provider_store ctx')) (key_of m) =
          (case find_provider (vec_items (provider_store ctx)) (key_of m) of None \<Rightarrow> Some (peer_id p) | Some pid \<Rightarrow> Some pid)))"
proof (cases "provider_peers m")
  case Nil
  then show ?thesis using assms(1,2) by (auto simp: libp2p_routing_dht_handle_add_provider_def split: if_splits)
next
  case (Cons p ps)
  obtain ma where ma: "libp2p_routing_dht_find_peer_ip_multiaddress (addr_list p) = Inr ma"
    using assms(1) Cons by (auto simp: libp2p_routing_dht_handle_add_provider_def bind_res_Inr_iff)
  show ?thesis
  proof (cases ma)
    case None
    then show ?thesis using assms(1,2) Cons ma
      by (auto simp: libp2p_routing_dht_handle_add_provider_def bind_res_Inr_iff)
  next
    case (Some a)
    obtain added peers where add: "libp2p_peerstore_add_peer (peer_store ctx) p = Inr (added, peers)"
      using assms(1) Cons ma Some
      by (auto simp: libp2p_routing_dht_handle_add_provider_def bind_res_Inr_iff)
    have inv: "peerstore_wf peers \<and> (\<forall>q\<in>set peers. peer_ok q) \<and>
        peers_grow (peer_store ctx) peers \<and>
        (added \<longrightarrow> (\<exists>q. peer_lookup peers (peer_id p) = Some q \<and> addr_bytes (addr_list p) \<subseteq> addr_bytes (addr_list q)))"
      using add_peer_inv [OF add] assms(2,3) Cons by (auto simp: dht_inv_def)
    show ?thesis
    proof (cases added)
      case False
      then have "out = No_Buffer" and "ctx' = ctx\<lparr>peer_store := peers\<rparr>"
        using assms(1) Cons ma Some add
        by (auto simp: libp2p_routing_dht_handle_add_provider_def bind_res_Inr_iff Let_def)
      moreover have "dht_inv (ctx\<lparr>peer_store := peers\<rparr>)"
        using inv assms(2) unfolding dht_inv_def peers_grow_def by simp meson
      ultimately show ?thesis using inv by (simp add: dht_keeps_def)
    next
      case True
      then obtain store where store: "libp2p_providerstore_add (provider_store ctx) (key_of m) (peer_id p) = Inr store"
        and ctx': "ctx' = ctx\<lparr>peer_store := peers, provider_store := store\<rparr>"
        using assms(1) Cons ma Some add
        by (auto simp: libp2p_routing_dht_handle_add_provider_def bind_res_Inr_iff Let_def split: if_splits)
      note items = providerstore_add_items [OF store]
      have "\<And>e. e \<in> set (vec_items (provider_store ctx)) \<Longrightarrow> e \<noteq> None"
        using assms(2) by (auto simp: dht_inv_def)
      from find_provider_append [of "vec_items (provider_store ctx)" "\<lparr>pe_hash = key_of m, pe_peer_id = peer_id p\<rparr>", OF this]
      have found: "find_provider (vec_items store) k =
          (case find_provider (vec_items (provider_store ctx)) k of
             None \<Rightarrow> if key_of m = k then Some (peer_id p) else None | Some pid \<Rightarrow> Some pid)" for k
        by (simp add: items split: option.split)
      have "dht_keeps ctx ctx'" using inv by (simp add: dht_keeps_def ctx' found)
      moreover have "\<forall>e\<in>set (vec_items store). \<exists>r q. e = Some r \<and> peer_lookup peers (pe_peer_id r) = Some q"
        using inv True assms(2) unfolding items dht_inv_def peers_grow_def by simp meson
      then have "dht_inv ctx'" using inv by (simp add: dht_inv_def ctx')
      ultimately show ?thesis using Cons found [of "key_of m"] inv True by (auto simp: ctx')
    qed
  qed
qed

lemma dispatch_keeps:
  assumes "dispatch watching m ctx = Some (Inr (out, ctx'))" and "dht_inv ctx"
    and "\<forall>p\<in>set (provider_peers m). addrs_ok (addr_list p)"
  shows "dht_keeps ctx ctx' \<and> dht_inv ctx'"
  using assms add_provider_keeps [OF _ assms(2,3), of watching _ out ctx'] put_value_keeps [of ctx m]
  by (auto simp: dispatch_def Let_def bind_res_Inr_iff bind_run_Inr_iff split: if_splits)

lemma handle_message_keeps:
  assumes "libp2p_routing_dht_handle_message to_string watching write_ok incoming ctx = Some (Inr (r, ctx', out))"
    and "conversion_ok to_string" and "dht_inv ctx"
  shows "dht_keeps ctx ctx' \<and> dht_inv ctx'"
proof -
  consider "ctx' = ctx"
    | bs m where "incoming = Some bs" "libp2p_message_protobuf_decode to_string bs = Some (Inr m)"
    using assms(1)
    by (auto simp: libp2p_routing_dht_handle_message_def split: option.splits sum.splits if_splits)
  then show ?thesis
  proof cases
    case (2 bs m)
    then obtain b c where d: "dispatch watching m ctx = Some (Inr (b, c))"
      using assms(1) by (auto simp: libp2p_routing_dht_handle_message_def bind_run_Inr_iff)
    then have "ctx' = c"
      using 2 assms(1) by (cases b) (auto simp: libp2p_routing_dht_handle_message_def)
    then show ?thesis
      using dispatch_keeps [OF d assms(3)] decoded_message_addrs [OF assms(2) 2(2)] by simp
  qed (use assms(3) in simp)
qed

text \<open>A node starts with itself as the only peer; it is reached by messages of any kind.\<close>

inductive dht_reaches ::
    "(bytes \<Rightarrow> bytes option) \<Rightarrow> bool \<Rightarrow> 'd dht_context \<Rightarrow> 'd dht_context \<Rightarrow> bool"
  for to_string watching ctx where
  start: "dht_reaches to_string watching ctx ctx"
| message: "dht_reaches to_string watching ctx ctx' \<Longrightarrow>
    libp2p_routing_dht_handle_message to_string watching write_ok incoming ctx' = Some (Inr (r, ctx'', out)) \<Longrightarrow>
    dht_reaches to_string watching ctx ctx''"

lemma dht_reaches_keeps:
  assumes "dht_reaches to_string watching ctx ctx'" and "conversion_ok to_string" and "dht_inv ctx"
  shows "dht_keeps ctx ctx' \<and> dht_inv ctx'"
  using assms(1)
proof induction
  case (message ctx' write_ok incoming r ctx'' out)
  then show ?case using handle_message_keeps [OF message.hyps(2) assms(2)] dht_keeps_trans by blast
qed (use assms(3) in simp)

section \<open>Answers\<close>

lemma copy_ok:
  "peer_ok q \<Longrightarrow> copy_for_message q = Inr (q\<lparr>addr_list := filter (\<lambda>a. a \<noteq> None) (addr_list q)\<rparr>)"
  by (cases q) (simp add: copy_for_message_def libp2p_peer_copy_def malloc_ok_def peer_ok_def copy_addresses_ok)

lemma protobuf_message_ok:
  assumes "kad_wf m"
  shows "libp2p_routing_dht_protobuf_message m = Inr (True, Buffer (wire (kad_fields m)))"
proof -
  have "kad_size m < 2 ^ 31" using assms by (simp add: kad_wf_def)
  then show ?thesis
    using kad_codec.enc_estimated [OF assms] kad_size_eq [OF assms]
    by (simp add: libp2p_routing_dht_protobuf_message_def malloc_ok_def)
qed

lemma lookup_peer:
  assumes "peerstore_wf ps" and "peer_lookup ps i = Some q"
  shows "\<exists>n. libp2p_peerstore_get_peer ps i = Some n \<and> ps ! n = q \<and> q \<in> set ps \<and> peer_id q = i"
  using assms find_peer_Some [of ps i]
  by (fastforce simp: peer_lookup_def get_peer_defs split: if_splits)

lemma find_providers_known:
  assumes "dht_inv ctx" and "\<not> in_datastore ctx k"
    and "find_provider (vec_items (provider_store ctx)) k = Some i" and "peer_lookup (peer_store ctx) i = Some q"
  shows "find_providers ctx k = Inr [q\<lparr>addr_list := filter (\<lambda>a. a \<noteq> None) (addr_list q)\<rparr>]"
proof -
  obtain n where n: "libp2p_peerstore_get_peer (peer_store ctx) i = Some n" "peer_store ctx ! n = q" "peer_ok q"
    using lookup_peer [OF _ assms(4)] assms(1) unfolding dht_inv_def by blast
  then have "libp2p_peer_id_to_string q = Inr (c_string (peer_id q))"
    by (simp add: libp2p_peer_id_to_string_def peer_ok_def)
  then show ?thesis
    using assms(2,3) n copy_ok [of q] by (simp add: find_providers_def libp2p_providerstore_get_def)
qed

lemma accepted_provider:
  assumes "libp2p_routing_dht_handle_message to_string watching write_ok (Some a) ctx = Some (Inr (r, ctx', [echo]))"
    and "conversion_ok to_string" and "dht_inv ctx"
    and "libp2p_message_protobuf_decode to_string a = Some (Inr m)" and "message_type m = MESSAGE_TYPE_ADD_PROVIDER"
    and "find_provider (vec_items (provider_store ctx)) (key_of m) = None"
  shows "\<exists>p ps q. provider_peers m = p # ps \<and> peer_lookup (peer_store ctx') (peer_id p) = Some q \<and>
    addr_bytes (addr_list p) \<subseteq> addr_bytes (addr_list q) \<and>
    find_provider (vec_items (provider_store ctx')) (key_of m) = Some (peer_id p)"
proof -
  obtain out c where d: "dispatch watching m ctx = Some (Inr (out, c))"
    using assms(1,4) by (auto simp: libp2p_routing_dht_handle_message_def bind_run_Inr_iff)
  then have "ctx' = c" and "out \<noteq> No_Buffer"
    using assms(1,4) by (cases out; simp add: libp2p_routing_dht_handle_message_def)+
  moreover obtain ok where "libp2p_routing_dht_handle_add_provider watching m ctx = Inr (ok, out, c)"
    using d assms(5) by (auto simp: dispatch_def message_types bind_res_Inr_iff)
  ultimately show ?thesis
    using add_provider_keeps [of watching m ctx ok out c] assms(3,6) decoded_message_addrs [OF assms(2,4)] by auto
qed

section \<open>Properties\<close>



text \<open>A node that was just started, an announcement and a question.\<close>

definition some_string :: "bytes \<Rightarrow> bytes option" where
  "some_string bs = (if bs = [] then None else Some [47])"

definition fresh_node :: "(bytes \<Rightarrow> datastore_record option) dht_context" where
  "fresh_node =
     \<lparr>peer_store = [libp2p_peer_new\<lparr>peer_id := [1]\<rparr>], provider_store = libp2p_providerstore_new,
      local_peer = libp2p_peer_new\<lparr>peer_id := [1]\<rparr>,
      dht_datastore = \<lparr>datastore_put = (\<lambda>r d. (True, d(ds_key r \<mapsto> r))), datastore_get = (\<lambda>k d. d k)\<rparr>,
      dht_datastore_context = (\<lambda>_. None), filestore_node_get = (\<lambda>k. Some (Inl Failure))\<rparr>"

definition provider_peer :: libp2p_peer where
  "provider_peer = libp2p_peer_new\<lparr>peer_id := [2], addr_list := [Some \<lparr>ma_string = Some [47], ma_bytes = [4, 1]\<rparr>]\<rparr>"

definition announcement :: kad_message where
  "announcement = libp2p_message_new\<lparr>message_type := MESSAGE_TYPE_ADD_PROVIDER, msg_key := Some [7], provider_peers := [provider_peer]\<rparr>"

definition question :: kad_message where
  "question = libp2p_message_new\<lparr>message_type := MESSAGE_TYPE_GET_PROVIDERS, msg_key := Some [7]\<rparr>"

lemma some_string: "conversion_ok some_string"
  by (auto simp: conversion_ok_def some_string_def split: if_splits)

lemma sample_messages:
  "kad_wf announcement" "kad_wf question"
  "kad_norm some_string announcement = announcement" "kad_norm some_string question = question"
  by (simp_all add: kad_wf_def announcement_def question_def provider_peer_def libp2p_message_new_def kad_size_def
      key_size_def peer_size_def addresses_def libp2p_peer_new_def libp2p_record_protobuf_encode_size_def
      kad_norm_def peer_norm_def some_string_def multiaddress_new_from_bytes_def c_int_small malloc_ok_def c_size_def)

lemma sample_decodes:
  "libp2p_message_protobuf_decode some_string (wire (kad_fields announcement)) = Some (Inr announcement)"
  "libp2p_message_protobuf_decode some_string (wire (kad_fields question)) = Some (Inr question)"
  using kad_codec.dec_embedded [OF sample_messages(1)] kad_codec.dec_embedded [OF sample_messages(2)] sample_messages
  by (simp_all add: kad_wf_def)

lemma fresh_node: "dht_inv fresh_node"
  by (simp add: dht_inv_def fresh_node_def peerstore_wf_def peer_ok_def libp2p_providerstore_new_def
      libp2p_utils_vector_new_def libp2p_peer_new_def)

lemma fresh_node_accepts:
  "\<exists>store. libp2p_routing_dht_handle_message some_string False (\<lambda>_. True) (Some (wire (kad_fields announcement))) fresh_node =
      Some (Inr (True, fresh_node\<lparr>peer_store := peer_store fresh_node @ [provider_peer], provider_store := store\<rparr>,
        [wire (kad_fields announcement)]))"
proof -
  have "\<exists>store. libp2p_routing_dht_handle_add_provider False announcement fresh_node =
      Inr (True, Buffer (wire (kad_fields announcement)),
        fresh_node\<lparr>peer_store := peer_store fresh_node @ [provider_peer], provider_store := store\<rparr>)"
    using protobuf_message_ok [OF sample_messages(1)]
    by (simp add: libp2p_routing_dht_handle_add_provider_def announcement_def provider_peer_def libp2p_peer_new_def
        fresh_node_def multiaddress_is_ip_def libp2p_peerstore_add_peer_def get_peer_defs libp2p_peer_id_to_string_def
        libp2p_peer_copy_def malloc_ok_def multiaddress_copy_def libp2p_peerstore_add_peer_entry_def
        libp2p_providerstore_add_def libp2p_providerstore_new_def libp2p_utils_vector_new_def
        libp2p_utils_vector_add_def vec_total_def Let_def)
  then show ?thesis
    using sample_decodes(1)
    by (auto simp: libp2p_routing_dht_handle_message_def dispatch_def announcement_def message_types)
qed



text \<open>
  One message from any peer crashes a node: a question for the providers of a key that
  begins with a zero byte and that the node does not know, because the key is encoded in base 58
  for the log, and the encoder writes its leading ones over the pointer it was given.
\<close>

theorem dht_zero_key_faults:
  assumes "libp2p_message_protobuf_decode to_string b = Some (Inr n)" and "message_type n = MESSAGE_TYPE_GET_PROVIDERS"
    and "key_of n = 0 # k" and "length k < 70" and "\<not> in_datastore ctx (key_of n)"
    and "find_provider (vec_items (provider_store ctx)) (key_of n) = None"
  shows "libp2p_routing_dht_handle_message to_string watching write_ok (Some b) ctx = Some (Inl Undefined)"
proof -
  let ?z = "length (takeWhile (\<lambda>b. b = 0) (0 # k))"
  let ?size = "(length (0 # k) - ?z) * 138 mod 2 ^ 64 div 100 + 1"
  have z: "?z \<le> length (0 # k)" by (rule length_takeWhile_le)
  then have "?z + ?size < 100" using assms(4)
    by (simp del: takeWhile.simps)
  then have "\<nexists>m. libp2p_crypto_encoding_base58_encode (0 # k) 100 = Inr (0, m, [])"
    by (auto simp: libp2p_crypto_encoding_base58_encode_def Let_def bind_res_Inr_iff split: if_splits)
  then have "libp2p_crypto_encoding_base58_encode (0 # k) 100 = Inl Undefined"
    using base58_encode_leading_zero [of "0 # k" 100] by simp
  then have "find_providers ctx (key_of n) = Inl Undefined"
    using assms(3,5,6) by (simp add: find_providers_def libp2p_providerstore_get_def)
  then show ?thesis
    using assms(1,2)
    by (simp add: libp2p_routing_dht_handle_message_def dispatch_def message_types libp2p_routing_dht_handle_get_providers_def)
qed

theorem dht_zero_key_faults_witness:
  "libp2p_routing_dht_handle_message some_string False (\<lambda>_. True)
    (Some (wire (kad_fields (question\<lparr>msg_key := Some [0]\<rparr>)))) fresh_node = Some (Inl Undefined)"
proof -
  have "kad_wf (question\<lparr>msg_key := Some [0]\<rparr>)"
    by (simp add: kad_wf_def question_def libp2p_message_new_def kad_size_def key_size_def
        libp2p_record_protobuf_encode_size_def)
  from kad_codec.dec_embedded [OF this, of some_string]
  have "libp2p_message_protobuf_decode some_string (wire (kad_fields (question\<lparr>msg_key := Some [0]\<rparr>))) =
      Some (Inr (question\<lparr>msg_key := Some [0]\<rparr>))"
    by (simp add: question_def libp2p_message_new_def kad_size_def key_size_def kad_norm_def
        libp2p_record_protobuf_encode_size_def)
  from dht_zero_key_faults [OF this, of "[]" fresh_node] show ?thesis
    by (simp add: question_def key_of_def in_datastore_def fresh_node_def libp2p_providerstore_new_def
        libp2p_utils_vector_new_def)
qed

text \<open>
  A message for the nearest peers goes to the first peers of the store, apart from the node
  itself, that can be connected to and written to: to as many as were asked for, or to all.
\<close>

theorem dht_send_nearest:
  assumes "0 < x" and "\<forall>p\<in>set ps. libp2p_peer_connect dialer_join_swarm p 5 = Inr (c p)" and "\<And>p. send p = Inr (s p)"
  defines "reached \<equiv> \<lambda>p. \<not> is_local p \<and> fst (c p) \<noteq> 0 \<and> s (snd (c p))"
  shows "\<exists>n ps'. send_nearest_loop (\<lambda>p. libp2p_peer_connect dialer_join_swarm p 5) send x 0 ps = Inr (n, ps') \<and>
    n = min x (int (length (filter reached ps))) \<and>
    libp2p_routing_dht_send_message_nearest_x dialer_join_swarm send x ps = Inr (\<exists>p\<in>set ps. reached p, ps')"
proof -
  have "\<exists>ps'. send_nearest_loop (\<lambda>p. libp2p_peer_connect dialer_join_swarm p 5) send x m ps =
      Inr (min x (m + int (length (filter reached ps))), ps')" if "m < x" for m
    using that assms(2)
  proof (induction ps arbitrary: m)
    case (Cons p ps)
    let ?n = "if fst (c p) \<noteq> 0 \<and> s (snd (c p)) then m + 1 else m"
    show ?case
    proof (cases "is_local p \<or> ?n < x")
      case True
      with Cons.IH [of ?n] Cons.IH [of m] Cons.prems assms(3) [of "snd (c p)"] show ?thesis
        by (cases "c p") (auto simp: reached_def add_ac)
    next
      case False
      with Cons.prems assms(3) [of "snd (c p)"] show ?thesis
        by (cases "c p") (auto simp: reached_def split: if_splits)
    qed
  qed simp
  from this [of 0] assms(1) obtain ps' where
    "send_nearest_loop (\<lambda>p. libp2p_peer_connect dialer_join_swarm p 5) send x 0 ps =
      Inr (min x (int (length (filter reached ps))), ps')" by auto
  moreover have "0 < min x (int (length (filter reached ps))) \<longleftrightarrow> (\<exists>p\<in>set ps. reached p)"
    using assms(1) by (induction ps) auto
  ultimately show ?thesis
    by (simp add: libp2p_routing_dht_send_message_nearest_x_def)
qed

theorem dht_send_nearest_witness:
  "\<exists>ps'. libp2p_routing_dht_send_message_nearest_x (\<lambda>p t. (1, p)) (\<lambda>p. Inr True) 1
    [libp2p_peer_new\<lparr>is_local := True\<rparr>, libp2p_peer_new] = Inr (True, ps')"
proof -
  have "\<forall>p\<in>set [libp2p_peer_new\<lparr>is_local := True\<rparr>, libp2p_peer_new].
      libp2p_peer_connect (\<lambda>p t. (1, p)) p 5 = Inr (1, p)"
    by (simp add: libp2p_peer_connect_def libp2p_peer_new_def CONNECTION_TYPE_NOT_CONNECTED_def
        CONNECTION_TYPE_CONNECTED_def libp2p_peer_id_to_string_def)
  from dht_send_nearest [OF _ this, of 1 "\<lambda>p. Inr True" "\<lambda>p. True"]
  show ?thesis by (fastforce simp: libp2p_peer_new_def)
qed

end
