(* ===== verification/Resolver.thy ===== *)
theory Resolver
  imports Merkledag Peerstore
begin

text \<open>
  From a path to a node, \<open>libipfs/importer/resolver.c\<close>. A path is a string; a pointer into it is
  the rest of the string from there. \<open>pid\<close> is the id of the local peer, \<open>identity->peer->id\<close>.
  Paths are shorter than 2 GiB, so that their positions are \<open>int\<close>s.
\<close>

section \<open>Parts of a path\<close>

abbreviation slash :: byte where "slash \<equiv> 47"

text \<open>
  The next part goes from the first character that is no slash to the slash behind it. Without a
  slash behind, the part is the whole path, with the slashes in front.
\<close>

definition ipfs_resolver_next_path :: "bytes \<Rightarrow> bytes option" where
  "ipfs_resolver_next_path path0 =
     (let path = c_string path0; from = dropWhile (\<lambda>b. b = slash) path in
      case from of
        [] \<Rightarrow> None
      | c # cs \<Rightarrow>
          let part = (if slash \<in> set cs then c # takeWhile (\<lambda>b. b \<noteq> slash) cs else path)
          in if malloc_ok (length part + 1) then Some part else None)"

text \<open>
  The slashes, \<open>ipfs\<close> or \<open>ipns\<close> in front, and the local id with one character behind it are
  skipped; \<open>first\<close> says that nothing but slashes was met so far. The loop has no other bound: an
  id at the end of the path leads behind the end.
\<close>

function remove_prefix :: "bytes \<Rightarrow> bool \<Rightarrow> bytes \<Rightarrow> bytes result" where
  "remove_prefix pid first rest =
     (if rest \<noteq> [] \<and> hd rest = slash then remove_prefix pid first (tl rest)
      else if first \<and> (take 4 rest = map of_char ''ipfs'' \<or> take 4 rest = map of_char ''ipns'') then
        remove_prefix pid False (drop 4 rest)
      else if strncmp_eq rest pid (length pid) then
        (if length rest < length pid + 1 then Inl Undefined
         else remove_prefix pid False (drop (length pid + 1) rest))
      else Inr rest)"
  by pat_completeness auto
termination
proof (relation "measure (\<lambda>(pid, first, rest). length rest)")
  fix pid and first :: bool and rest :: bytes
  assume "first \<and> (take 4 rest = map of_char ''ipfs'' \<or> take 4 rest = map of_char ''ipns'')"
  then have "rest \<noteq> []" by auto
  then show "((pid, False, drop 4 rest), pid, first, rest) \<in> measure (\<lambda>(pid, first, rest). length rest)"
    by simp
qed (auto simp: neq_Nil_conv)

declare remove_prefix.simps [simp del]

definition ipfs_resolver_remove_path_prefix :: "bytes \<Rightarrow> bytes \<Rightarrow> bytes result" where
  "ipfs_resolver_remove_path_prefix path pid = remove_prefix pid True (c_string path)"

definition ipfs_resolver_is_remote :: "bytes \<Rightarrow> bytes \<Rightarrow> bool" where
  "ipfs_resolver_is_remote path pid =
     (let rest = dropWhile (\<lambda>b. b = slash) (c_string path) in
      (take 5 rest = map of_char ''ipfs/'' \<or> take 5 rest = map of_char ''ipns/'') \<and>
      take 2 (drop 5 rest) = map of_char ''Qm'' \<and> \<not> strncmp_eq (drop 5 rest) pid (length pid))"

section \<open>Nodes\<close>

text \<open>
  A path on another node is never resolved: the peer is connected to, but
  \<open>libp2p_conn_dialer_get_stream\<close> of \<open>conn/dialer.c\<close> gives no stream. The result, if there is one,
  and the peers.
\<close>

definition libp2p_conn_dialer_get_stream :: "libp2p_peer \<Rightarrow> nat option" where
  "libp2p_conn_dialer_get_stream p = None"

definition ipfs_resolver_remote_get ::
    "(libp2p_peer \<Rightarrow> nat \<Rightarrow> int \<times> libp2p_peer) \<Rightarrow> bytes \<Rightarrow> bytes \<Rightarrow> peerstore \<Rightarrow>
     (hashtable_node option \<times> peerstore) result" where
  "ipfs_resolver_remote_get dialer_join_swarm pid path peers =
     bind_res (ipfs_resolver_remove_path_prefix path pid) (\<lambda>temp.
     let i = takeWhile (\<lambda>b. b \<noteq> slash) temp; key_on = drop (length i + 1) temp;
         key = takeWhile (\<lambda>b. b \<noteq> slash) key_on
     in if slash \<notin> set temp \<or> 254 < length i then Inr (None, peers)
        else if slash \<notin> set key_on \<or> 254 < length key then Inr (None, peers)
        else
          case libp2p_peerstore_get_peer peers i of
            None \<Rightarrow> Inr (None, peers)
          | Some n \<Rightarrow>
              bind_res (libp2p_peer_connect dialer_join_swarm (peers ! n) 10) (\<lambda>(r, p).
              if r = 0 \<or> libp2p_conn_dialer_get_stream p = None then Inr (None, peers[n := p])
              else Inl Undefined))"

text \<open>The first link with the name; the name of a link may be null.\<close>

fun find_link :: "bytes \<Rightarrow> node_link list \<Rightarrow> node_link option result" where
  "find_link part [] = Inr None"
| "find_link part (l # ls) =
     (case link_name l of
        None \<Rightarrow> Inl Undefined
      | Some n \<Rightarrow> if c_string n = c_string part then Inr (Some l) else find_link part ls)"

lemma next_path_length:
  assumes "ipfs_resolver_next_path path = Some part"
  shows "0 < length part" and "length part \<le> strlen path" and "strlen part = length part"
proof -
  let ?p = "c_string path"
  obtain c cs where rest: "dropWhile (\<lambda>b. b = slash) ?p = c # cs"
    and part: "part = (if slash \<in> set cs then c # takeWhile (\<lambda>b. b \<noteq> slash) cs else ?p)"
    using assms by (auto simp: ipfs_resolver_next_path_def Let_def split: list.splits if_splits)
  have sub: "set (c # cs) \<subseteq> set ?p" and len: "length (c # cs) \<le> length ?p"
    unfolding rest [symmetric] by (auto dest: set_dropWhileD intro: length_dropWhile_le)
  moreover have "length (takeWhile (\<lambda>b. b \<noteq> slash) cs) \<le> length cs" by (rule length_takeWhile_le)
  ultimately show "0 < length part" and "length part \<le> strlen path"
    by (auto simp: part strlen_def)
  have "0 \<notin> set ?p" by (rule c_string_no_zero)
  then have "0 \<notin> set part"
    using sub by (auto simp: part dest: set_takeWhileD)
  then show "strlen part = length part" by (simp add: strlen_def)
qed

lemma next_path_shrinks:
  assumes "ipfs_resolver_next_path path = Some part"
    and "ipfs_resolver_next_path (drop (strlen part) (c_string path)) = Some part'"
  shows "strlen part' < strlen path"
proof -
  have "strlen (drop (strlen part) (c_string path)) \<le> strlen path - strlen part"
    unfolding strlen_def by (metis length_drop strlen_def strlen_le)
  then show ?thesis using next_path_length [OF assms(1)] next_path_length [OF assms(2)] by linarith
qed

text \<open>
  \<open>ipfs_resolver_get\<close> below a node: the rest of the path goes on with the next part alone. If there
  is none the pointer to it was never set.
\<close>

function resolve_below :: "'d fs_repo \<Rightarrow> bytes \<Rightarrow> hashtable_node \<Rightarrow> hashtable_node option run" where
  "resolve_below repo path from =
     (case ipfs_resolver_next_path path of
        None \<Rightarrow> Some (Inr None)
      | Some part \<Rightarrow>
          bind_run (ipfs_hashtable_node_is_directory from) (\<lambda>dir.
          if \<not> dir then Some (Inr None)
          else
            bind_run (Some (find_link part (node_links from))) (\<lambda>found.
            case found of
              None \<Rightarrow> Some (Inr None)
            | Some l \<Rightarrow>
                (case ipfs_merkledag_get (link_hash l) repo of
                   None \<Rightarrow> None
                 | Some (Inl e) \<Rightarrow> if e = Failure then Some (Inr None) else Some (Inl e)
                 | Some (Inr node) \<Rightarrow>
                     if strlen part = strlen path then Some (Inr (Some node))
                     else
                       (case ipfs_resolver_next_path (drop (strlen part) (c_string path)) of
                          None \<Rightarrow> Some (Inl Undefined)
                        | Some part' \<Rightarrow> resolve_below repo part' node)))))"
  by pat_completeness auto

termination
  by (relation "measure (\<lambda>(repo, path, from). strlen path)") (auto dest: next_path_shrinks)

declare resolve_below.simps [simp del]

definition ipfs_resolver_get ::
    "(libp2p_peer \<Rightarrow> nat \<Rightarrow> int \<times> libp2p_peer) \<Rightarrow> bytes \<Rightarrow> 'd fs_repo \<Rightarrow> peerstore \<Rightarrow> bytes \<Rightarrow>
     hashtable_node option \<Rightarrow> (hashtable_node option \<times> peerstore) run" where
  "ipfs_resolver_get dialer_join_swarm pid repo peers path from =
     (case from of
        Some n \<Rightarrow> bind_run (resolve_below repo path n) (\<lambda>r. Some (Inr (r, peers)))
      | None \<Rightarrow>
          if ipfs_resolver_is_remote path pid then Some (ipfs_resolver_remote_get dialer_join_swarm pid path peers)
          else
            bind_run (Some (ipfs_resolver_remove_path_prefix path pid)) (\<lambda>path'.
            case ipfs_resolver_next_path path' of
              None \<Rightarrow> Some (Inr (None, peers))
            | Some part \<Rightarrow>
                if take 2 part \<noteq> map of_char ''Qm'' then Some (Inr (None, peers))
                else
                  case libp2p_crypto_encoding_base58_decode part (libp2p_crypto_encoding_base58_decode_size (strlen part)) of
                    Inl e \<Rightarrow> Some (if e = Failure then Inr (None, peers) else Inl e)
                  | Inr (hash, hash_length) \<Rightarrow>
                      if length hash < hash_length then Some (Inl Undefined)
                      else
                        (case ipfs_merkledag_get_by_multihash (take hash_length hash) repo of
                           None \<Rightarrow> None
                         | Some (Inl e) \<Rightarrow> if e = Failure then Some (Inr (None, peers)) else Some (Inl e)
                         | Some (Inr node) \<Rightarrow>
                             if strlen part = strlen path' then Some (Inr (Some node, peers))
                             else
                               bind_run (resolve_below repo (drop (strlen part + 1) path') node) (\<lambda>r.
                               Some (Inr (r, peers))))))"

text \<open>
  \<open>ipfs_resolver_find_peer\<close> asks the router, an argument, for what is behind the prefix. The list
  of the node's own addresses that is made before is not used.
\<close>

definition ipfs_resolver_find_peer ::
    "(bytes \<Rightarrow> libp2p_peer option) \<Rightarrow> bytes \<Rightarrow> bytes \<Rightarrow> libp2p_peer option result" where
  "ipfs_resolver_find_peer routing_find_peer pid path =
     bind_res (ipfs_resolver_remove_path_prefix path pid) (\<lambda>address. Inr (routing_find_peer address))"

section \<open>Names in paths\<close>

definition plain_name :: "bytes \<Rightarrow> bool" where
  "plain_name n \<longleftrightarrow> n \<noteq> [] \<and> 0 \<notin> set n \<and> slash \<notin> set n \<and> length n < 2 ^ 62"

lemma next_path_plain:
  assumes "plain_name n"
  shows "ipfs_resolver_next_path n = Some n"
    and "0 \<notin> set rest \<Longrightarrow> ipfs_resolver_next_path (n @ slash # rest) = Some n"
    and "ipfs_resolver_next_path (slash # n) = Some (slash # n)"
    and "0 \<notin> set rest \<Longrightarrow> ipfs_resolver_next_path (slash # n @ slash # rest) = Some n"
proof -
  obtain c cs where n: "n = c # cs" "c \<noteq> slash" "slash \<notin> set cs" using assms by (cases n) (auto simp: plain_name_def)
  have z: "0 \<notin> set n" "malloc_ok (length n + 1)" "malloc_ok (length n + 2)"
    using assms by (simp_all add: plain_name_def malloc_ok_def)
  have t: "takeWhile (\<lambda>b. b \<noteq> slash) (cs @ slash # rest) = cs"
    using n(3) by (simp add: takeWhile_append)
  show "ipfs_resolver_next_path n = Some n" and "ipfs_resolver_next_path (slash # n) = Some (slash # n)"
    using n z by (simp_all add: ipfs_resolver_next_path_def)
  show "ipfs_resolver_next_path (n @ slash # rest) = Some n"
    and "ipfs_resolver_next_path (slash # n @ slash # rest) = Some n" if "0 \<notin> set rest"
    using n z t that by (simp_all add: ipfs_resolver_next_path_def)
qed

lemma strlen_plain: "plain_name n \<Longrightarrow> strlen n = length n"
  by (simp add: plain_name_def strlen_def)

text \<open>A directory, an entry of it and the rest of the path.\<close>

lemma resolve_below_entry:
  assumes "plain_name n" and "0 \<notin> set rest" and "ipfs_hashtable_node_is_directory from = Some (Inr True)"
    and "find_link n (node_links from) = Inr (Some l)" and "ipfs_merkledag_get (link_hash l) repo = Some (Inr node)"
  shows "resolve_below repo n from = Some (Inr (Some node))"
    and "resolve_below repo (n @ slash # rest) from =
      (case ipfs_resolver_next_path (slash # rest) of None \<Rightarrow> Some (Inl Undefined) | Some part \<Rightarrow> resolve_below repo part node)"
proof -
  note next_parts = next_path_plain [OF assms(1)]
  have c: "c_string (n @ slash # rest) = n @ slash # rest"
    using assms(1,2) by (simp add: plain_name_def)
  have len: "strlen n = length n" "strlen (n @ slash # rest) = length n + Suc (length rest)"
    using strlen_plain [OF assms(1)] c by (simp_all add: strlen_def)
  show "resolve_below repo n from = Some (Inr (Some node))"
    by (simp add: resolve_below.simps [of repo n "from"] next_parts(1) assms(3-5))
  show "resolve_below repo (n @ slash # rest) from =
      (case ipfs_resolver_next_path (slash # rest) of None \<Rightarrow> Some (Inl Undefined) | Some part \<Rightarrow> resolve_below repo part node)"
    by (simp add: resolve_below.simps [of repo "n @ slash # rest" "from"] next_parts(2) assms(2-5) len c)
qed

lemma find_link_none:
  "\<forall>l\<in>set ls. \<exists>n. link_name l = Some n \<and> slash \<notin> set n \<Longrightarrow> plain_name m \<Longrightarrow> find_link (slash # m) ls = Inr None"
proof (induction ls)
  case (Cons l ls)
  then obtain n where "link_name l = Some n" "slash \<notin> set n" by auto
  moreover have "c_string n \<noteq> slash # m" using calculation(2) by (metis c_string_def list.set_intros(1) set_takeWhileD)
  ultimately show ?case using Cons by (simp add: plain_name_def)
qed simp

lemma resolve_below_slash:
  assumes "plain_name m" and "ipfs_hashtable_node_is_directory node = Some (Inr d)"
    and "\<forall>l\<in>set (node_links node). \<exists>n. link_name l = Some n \<and> slash \<notin> set n"
  shows "resolve_below repo (slash # m) node = Some (Inr None)"
  using assms find_link_none [OF assms(3,1)] next_path_plain(3) [OF assms(1)]
  by (subst resolve_below.simps) simp

section \<open>The root of a path\<close>

definition hash_name :: "bytes \<Rightarrow> bytes" where
  "hash_name h = map b58_digit (base58_digits (bytes_value (0x12 # 0x20 # h)))"

lemma hash_name:
  assumes "length h = 32"
  shows "plain_name (hash_name h)" and "length (hash_name h) = 46" and "take 2 (hash_name h) = [81, 109]"
    and "libp2p_crypto_encoding_base58_decode (hash_name h)
      (libp2p_crypto_encoding_base58_decode_size (strlen (hash_name h))) = Inr (0x12 # 0x20 # h, 34)"
    and "libp2p_crypto_encoding_base58_encode_size 34 \<le> n \<Longrightarrow> ipfs_cid_hash_to_base58 h n = Inr (hash_name h @ [0])"
proof -
  note d = sha256_multihash_digits [OF assms]
  have "list_all (\<lambda>b. b \<noteq> 0 \<and> b \<noteq> slash) b58digits_ordered" by (simp add: b58digits_ordered_def)
  then have "\<forall>x\<in>set (hash_name h). x \<noteq> 0 \<and> x \<noteq> slash"
    using base58_digits_less b58_tables(3) by (auto simp: hash_name_def b58_digit_def list_all_length)
  moreover show l: "length (hash_name h) = 46" using d(1) by (simp add: hash_name_def)
  ultimately show p: "plain_name (hash_name h)" by (auto simp: plain_name_def)
  show "take 2 (hash_name h) = [81, 109]" using d(2) by (simp add: hash_name_def take_map b58_digit_Qm)
  have "libp2p_crypto_encoding_base58_decode_size 46 = 34" using base58_decode_size_eq [of 33 46] by simp
  then show "libp2p_crypto_encoding_base58_decode (hash_name h)
      (libp2p_crypto_encoding_base58_decode_size (strlen (hash_name h))) = Inr (0x12 # 0x20 # h, 34)"
    using base58_decode_encoded [of "0x12 # 0x20 # h"] assms strlen_plain [OF p] l by (simp add: hash_name_def)
  show "libp2p_crypto_encoding_base58_encode_size 34 \<le> n \<Longrightarrow> ipfs_cid_hash_to_base58 h n = Inr (hash_name h @ [0])"
    using hash_to_base58_eq [OF assms] by (simp add: hash_name_def)
qed

lemma resolver_get_root:
  assumes "length h = 32" and "ipfs_merkledag_get h repo = Some (Inr dir)" and "0 \<notin> set rest"
    and "length pid \<le> 46" and "\<not> strncmp_eq (hash_name h) pid (length pid)"
  shows "ipfs_resolver_get dialer_join_swarm pid repo peers (hash_name h) None = Some (Inr (Some dir, peers))"
    and "ipfs_resolver_get dialer_join_swarm pid repo peers (hash_name h @ slash # rest) None =
      bind_run (resolve_below repo rest dir) (\<lambda>r. Some (Inr (r, peers)))"
proof -
  note n = hash_name [OF assms(1)]
  have "0 \<notin> set (hash_name h)" using n(1) by (simp add: plain_name_def)
  then have c: "c_string (hash_name h @ t) = hash_name h @ t" if "0 \<notin> set t" for t
    using that by simp
  have pre: "ipfs_resolver_remove_path_prefix (hash_name h @ t) pid = Inr (hash_name h @ t)"
    and remote: "\<not> ipfs_resolver_is_remote (hash_name h @ t) pid" if "0 \<notin> set t" for t
  proof -
    obtain cs where cs: "hash_name h = 81 # 109 # cs"
      using n(2,3) by (cases "hash_name h"; cases "tl (hash_name h)") auto
    have "\<not> strncmp_eq (hash_name h @ t) pid (length pid)"
      using assms(4,5) n(2) by (simp add: strncmp_eq_def)
    then show "ipfs_resolver_remove_path_prefix (hash_name h @ t) pid = Inr (hash_name h @ t)"
      using c [OF that] by (simp add: ipfs_resolver_remove_path_prefix_def remove_prefix.simps cs)
    show "\<not> ipfs_resolver_is_remote (hash_name h @ t) pid"
      using c [OF that] by (simp add: ipfs_resolver_is_remote_def cs Let_def)
  qed
  have get: "ipfs_merkledag_get_by_multihash (take 34 (0x12 # 0x20 # h)) repo = Some (Inr dir)"
    using sha256_multihash [OF assms(1)] assms(1,2) by (simp add: ipfs_merkledag_get_by_multihash_def)
  have Qm: "take 2 (hash_name h) = map of_char ''Qm''" using n(3) by simp
  show "ipfs_resolver_get dialer_join_swarm pid repo peers (hash_name h) None = Some (Inr (Some dir, peers))"
    using pre [of "[]"] remote [of "[]"] next_path_plain(1) [OF n(1)] Qm n(4) get assms(1)
    by (simp add: ipfs_resolver_get_def del: take_Suc_Cons)
  show "ipfs_resolver_get dialer_join_swarm pid repo peers (hash_name h @ slash # rest) None =
      bind_run (resolve_below repo rest dir) (\<lambda>r. Some (Inr (r, peers)))"
    using pre [of "slash # rest"] remote [of "slash # rest"] next_path_plain(2) [OF n(1) assms(3)] Qm n(4) get assms(1,3)
      strlen_plain [OF n(1)] c [of "slash # rest"]
    by (simp add: ipfs_resolver_get_def strlen_def [of "hash_name h @ slash # rest"] del: take_Suc_Cons)
qed

section \<open>Properties\<close>


text \<open>A directory with one entry, an empty directory.\<close>

definition empty_dir :: hashtable_node where
  "empty_dir = ipfs_hashtable_node_new\<lparr>node_data := [8, 1]\<rparr>"

definition name_hash :: "bytes \<Rightarrow> bytes" where
  "name_hash m = replicate 32 (if m = wire (node_fields empty_dir) then 7 else 9)"

definition outer_dir :: hashtable_node where
  "outer_dir = empty_dir\<lparr>node_links := [\<lparr>link_hash = replicate 32 7, link_name = Some [97], link_t_size = 0\<rparr>]\<rparr>"

lemma name_hash: "sha_ok name_hash"
  by (simp add: sha_ok_def name_hash_def)

lemma sample_link: "ipfs_node_link_protobuf_encode_size (Some \<lparr>link_hash = replicate 32 7, link_name = Some [97], link_t_size = 0\<rparr>) < 100"
  by (simp add: ipfs_node_link_protobuf_encode_size_def name_bytes_def)

lemma sample_dirs:
  "node_wf empty_dir" "node_norm empty_dir = empty_dir" "ipfs_hashtable_node_protobuf_encode_size empty_dir < 2 ^ 30"
  "node_wf outer_dir" "node_norm outer_dir = outer_dir" "ipfs_hashtable_node_protobuf_encode_size outer_dir < 2 ^ 30"
  "node_hash empty_dir = []" "node_hash outer_dir = []"
  using sample_link
  by (simp_all add: empty_dir_def outer_dir_def ipfs_hashtable_node_new_def node_wf_def node_norm_def link_wf_def link_norm_def
      link_encoder_size_def name_bytes_def ipfs_hashtable_node_protobuf_encode_size_def)

lemma sample_hashes:
  "name_hash (wire (node_fields empty_dir)) = replicate 32 7" "name_hash (wire (node_fields outer_dir)) = replicate 32 9"
proof -
  have "wire (node_fields outer_dir) \<noteq> wire (node_fields empty_dir)"
  proof
    assume eq: "wire (node_fields outer_dir) = wire (node_fields empty_dir)"
    have "ipfs_hashtable_node_protobuf_decode (wire (node_fields outer_dir)) = Some (Inr (node_norm outer_dir))"
      "ipfs_hashtable_node_protobuf_decode (wire (node_fields empty_dir)) = Some (Inr (node_norm empty_dir))"
      using node_codec.dec_embedded [of outer_dir] node_codec.dec_embedded [of empty_dir] sample_dirs(1,3,4,6) by simp_all
    then have "node_norm outer_dir = node_norm empty_dir" unfolding eq by simp
    then show False unfolding sample_dirs(2,5) by (simp add: outer_dir_def empty_dir_def ipfs_hashtable_node_new_def)
  qed
  then show "name_hash (wire (node_fields empty_dir)) = replicate 32 7" "name_hash (wire (node_fields outer_dir)) = replicate 32 9"
    unfolding name_hash_def by (simp_all only: if_True if_False refl)
qed

lemma hash_key_inj:
  assumes "hash_key_of h = hash_key_of h'" and "length h = 32" and "length h' = 32"
  shows "take 25 h = take 25 h'"
proof -
  have eq: "base32_encode (take 25 h) 40 = base32_encode (take 25 h') 40"
    using assms(1) unfolding hash_key_of_def by (simp only: append1_eq_conv)
  have "base32_decode_ctx (base32_encode (take 25 h) 40) 25 = (True, take 25 h)"
    "base32_decode_ctx (base32_encode (take 25 h') 40) 25 = (True, take 25 h')"
    using base32_round [of "take 25 h" 40 25] base32_round [of "take 25 h'" 40 25] assms(2,3) by simp_all
  then show ?thesis unfolding eq by (metis snd_conv)
qed

lemma sample_repo:
  "\<exists>repo :: (bytes \<Rightarrow> datastore_record option) fs_repo. repo_ok repo \<and> stores name_hash repo (wire (node_fields empty_dir)) \<and> stores name_hash repo (wire (node_fields outer_dir))"
proof -
  have "take 25 (replicate 32 7) \<noteq> take 25 (replicate 32 (9::byte))" by simp
  then have distinct: "hash_key_of (replicate 32 9) \<noteq> hash_key_of (replicate 32 7)"
    using hash_key_inj [of "replicate 32 9" "replicate 32 7"] by (metis length_replicate)
  obtain r :: "(bytes \<Rightarrow> datastore_record option) fs_repo" where r: "repo_ok r" "stores name_hash r (wire (node_fields empty_dir))"
    using merkledag_add [OF map_repo name_hash sample_dirs(7,1,3)] by blast
  obtain r' :: "(bytes \<Rightarrow> datastore_record option) fs_repo" where r': "repo_ok r'" "stores name_hash r' (wire (node_fields outer_dir))"
    "no_collision name_hash {wire (node_fields outer_dir), wire (node_fields empty_dir)} \<longrightarrow>
      stores name_hash r' (wire (node_fields empty_dir))"
    using merkledag_add [OF r(1) name_hash sample_dirs(8,4,6)]
    by (elim exE conjE) (rule that, assumption, assumption, simp add: r(2))
  have "no_collision name_hash {wire (node_fields outer_dir), wire (node_fields empty_dir)}"
    using distinct distinct [symmetric] sample_hashes unfolding no_collision_def inj_on_def by (metis insertE singletonD)
  then show ?thesis using r' by blast
qed

lemma sample_is_directory: "ipfs_hashtable_node_is_directory empty_dir = Some (Inr True)"
proof -
  let ?dir = "ipfs_unixfs_new\<lparr>data_type := UNIXFS_DIRECTORY\<rparr>"
  have "unixfs_wf ?dir"
    by (simp add: unixfs_wf_def UNIXFS_SYMLINK_def UNIXFS_DIRECTORY_def)
  from unixfs_codec.dec_embedded [OF this] have "ipfs_unixfs_protobuf_decode [8, 1] = Some (Inr ?dir)"
    by (simp add: ipfs_unixfs_protobuf_encode_size_def ipfs_unixfs_new_def unixfs_norm_def
        unixfs_fields_def field_bytes_def leb128_small UNIXFS_DIRECTORY_def)
  then show ?thesis by (simp add: ipfs_hashtable_node_is_directory_def empty_dir_def)
qed

lemma same_data_is_directory:
  "node_data n = node_data empty_dir \<Longrightarrow> ipfs_hashtable_node_is_directory n = Some (Inr True)"
  using sample_is_directory by (simp only: ipfs_hashtable_node_is_directory_def)


end
