(* ===== verification/Secio_Message.thy ===== *)
theory Secio_Message
  imports Crypto_Key
begin

text \<open>
  The two messages of the secure channel's handshake, \<open>libp2p/secio/propose.c\<close> and
  \<open>libp2p/secio/exchange.c\<close>. Signing is a parameter.
\<close>

section \<open>Proposals\<close>

record propose =
  p_rand :: bytes
  p_public_key :: bytes
  p_exchanges :: bytes
  p_ciphers :: bytes
  p_hashes :: bytes

definition libp2p_secio_propose_new :: propose where
  "libp2p_secio_propose_new = \<lparr>p_rand = [], p_public_key = [], p_exchanges = [], p_ciphers = [], p_hashes = []\<rparr>"

text \<open>The new value of the property; the old one is freed first.\<close>

definition libp2p_secio_propose_set_property :: "bytes \<Rightarrow> bytes result" where
  "libp2p_secio_propose_set_property from_bytes =
     (if malloc_ok (length from_bytes) then Inr from_bytes else Inl Failure)"

definition libp2p_secio_propose_protobuf_encode_size :: "propose \<Rightarrow> nat" where
  "libp2p_secio_propose_protobuf_encode_size p =
     (11 + length (p_rand p)) + (11 + length (p_public_key p)) + (11 + length (p_ciphers p)) +
     (11 + length (p_exchanges p)) + (11 + length (p_hashes p))"

definition libp2p_secio_propose_protobuf_encode :: "propose \<Rightarrow> nat \<Rightarrow> bytes result" where
  "libp2p_secio_propose_protobuf_encode p max_len =
     chain
       [put_bytes 1 (p_rand p) max_len,
        put_bytes 2 (p_public_key p) max_len,
        put_bytes 3 (p_exchanges p) max_len,
        put_bytes 4 (p_ciphers p) max_len,
        put_bytes 5 (p_hashes p) max_len] []"

text \<open>The \<open>switch\<close> of the decoder; the second component is \<open>got_something\<close>.\<close>

definition propose_field ::
    "bytes \<Rightarrow> int \<Rightarrow> nat \<Rightarrow> propose \<times> bool \<Rightarrow> ((propose \<times> bool) \<times> nat) run" where
  "propose_field buf field_no pos s =
     (let p = fst s;
          store = (\<lambda>f. Some (bind_res (protobuf_decode_length_delimited (drop pos buf) (length buf - pos))
            (\<lambda>(d, n). Inr ((f d, True), pos + n))))
      in if field_no = 1 then store (\<lambda>d. p\<lparr>p_rand := d\<rparr>)
         else if field_no = 2 then store (\<lambda>d. p\<lparr>p_public_key := d\<rparr>)
         else if field_no = 3 then store (\<lambda>d. p\<lparr>p_exchanges := d\<rparr>)
         else if field_no = 4 then store (\<lambda>d. p\<lparr>p_ciphers := d\<rparr>)
         else if field_no = 5 then store (\<lambda>d. p\<lparr>p_hashes := d\<rparr>)
         else Some (Inr (s, pos)))"

definition libp2p_secio_propose_protobuf_decode :: "bytes \<Rightarrow> propose run" where
  "libp2p_secio_propose_protobuf_decode buf =
     bind_run (pb_decode_loop (propose_field buf) buf 0 (libp2p_secio_propose_new, False)) (\<lambda>(p, got_something).
     if got_something then Some (Inr p) else Some (Inl Failure))"

text \<open>
  \<open>public_key_der\<close> is the public half of the RSA key, the three lists are C strings. The results
  of the allocations, but one, are not looked at.
\<close>

definition libp2p_secio_propose_build :: "bytes \<Rightarrow> bytes \<Rightarrow> bytes \<Rightarrow> bytes \<Rightarrow> bytes \<Rightarrow> propose result" where
  "libp2p_secio_propose_build nonce public_key_der supportedExchanges supportedCiphers supportedHashes =
     (let k = \<lparr>key_type = KEYTYPE_RSA, key_data = public_key_der\<rparr> in
      if length nonce < 16 \<or> \<not> malloc_ok (length public_key_der) \<or> \<not> malloc_ok (strlen supportedExchanges + 1) \<or>
         \<not> malloc_ok (strlen supportedCiphers + 1) \<or> \<not> malloc_ok (strlen supportedHashes + 1) then Inl Undefined
      else if \<not> malloc_ok (libp2p_crypto_public_key_protobuf_encode_size k) then Inl Failure
      else
        bind_res (libp2p_crypto_public_key_protobuf_encode k (libp2p_crypto_public_key_protobuf_encode_size k)) (\<lambda>key.
        Inr \<lparr>p_rand = take 16 nonce, p_public_key = key, p_exchanges = c_string supportedExchanges,
             p_ciphers = c_string supportedCiphers, p_hashes = c_string supportedHashes\<rparr>))"

section \<open>Exchanges\<close>

record secio_exchange =
  ex_epubkey :: bytes
  ex_signature :: bytes

definition libp2p_secio_exchange_new :: secio_exchange where
  "libp2p_secio_exchange_new = \<lparr>ex_epubkey = [], ex_signature = []\<rparr>"

definition libp2p_secio_exchange_protobuf_encode_size :: "secio_exchange \<Rightarrow> nat" where
  "libp2p_secio_exchange_protobuf_encode_size x = (11 + length (ex_epubkey x)) + (11 + length (ex_signature x))"

definition libp2p_secio_exchange_protobuf_encode :: "secio_exchange \<Rightarrow> nat \<Rightarrow> bytes result" where
  "libp2p_secio_exchange_protobuf_encode x max_len =
     chain [put_bytes 1 (ex_epubkey x) max_len, put_bytes 2 (ex_signature x) max_len] []"

definition exchange_field ::
    "bytes \<Rightarrow> int \<Rightarrow> nat \<Rightarrow> secio_exchange \<Rightarrow> (secio_exchange \<times> nat) run" where
  "exchange_field buf field_no pos x =
     (let store = (\<lambda>f. Some (bind_res (protobuf_decode_length_delimited (drop pos buf) (length buf - pos))
            (\<lambda>(d, n). Inr (f d, pos + n))))
      in if field_no = 1 then store (\<lambda>d. x\<lparr>ex_epubkey := d\<rparr>)
         else if field_no = 2 then store (\<lambda>d. x\<lparr>ex_signature := d\<rparr>)
         else Some (Inr (x, pos)))"

definition libp2p_secio_exchange_protobuf_decode :: "bytes \<Rightarrow> secio_exchange run" where
  "libp2p_secio_exchange_protobuf_decode buf =
     pb_decode_loop (exchange_field buf) buf 0 libp2p_secio_exchange_new"

text \<open>
  The public half of the ephemeral key is written without its first byte, its length. The result
  of signing is not looked at: without a signature the fields stay as they were.
\<close>

definition libp2p_secio_exchange_build ::
    "(crypto_key \<Rightarrow> bytes \<Rightarrow> bytes option) \<Rightarrow> bytes \<Rightarrow> bytes \<Rightarrow> bytes \<Rightarrow> secio_exchange result" where
  "libp2p_secio_exchange_build secio_sign ephemeral_bytes private_der bytes_to_be_signed =
     (if ephemeral_bytes = [] then Inl Undefined
      else if \<not> malloc_ok (length ephemeral_bytes - 1) then Inl Failure
      else
        Inr \<lparr>ex_epubkey = tl ephemeral_bytes,
             ex_signature =
               (case secio_sign \<lparr>key_type = KEYTYPE_RSA, key_data = private_der\<rparr> bytes_to_be_signed of
                  None \<Rightarrow> [] | Some s \<Rightarrow> s)\<rparr>)"

section \<open>The wire format\<close>

definition propose_fields :: "propose \<Rightarrow> wire_field list" where
  "propose_fields p =
     [Bytes_Field 1 (p_rand p), Bytes_Field 2 (p_public_key p), Bytes_Field 3 (p_exchanges p),
      Bytes_Field 4 (p_ciphers p), Bytes_Field 5 (p_hashes p)]"

fun propose_store :: "wire_field \<Rightarrow> propose \<times> bool \<Rightarrow> propose \<times> bool" where
  "propose_store (Varint_Field n v) s = s"
| "propose_store (Bytes_Field n d) (p, got) =
     (if n = 1 then (p\<lparr>p_rand := d\<rparr>, True) else if n = 2 then (p\<lparr>p_public_key := d\<rparr>, True)
      else if n = 3 then (p\<lparr>p_exchanges := d\<rparr>, True) else if n = 4 then (p\<lparr>p_ciphers := d\<rparr>, True)
      else if n = 5 then (p\<lparr>p_hashes := d\<rparr>, True) else (p, got))"

lemma propose_decodes:
  assumes "length buf < 2 ^ 31" and "f \<in> set (propose_fields p)"
  shows "fnum f < 2 ^ 28 \<and> decodes (propose_field buf) buf propose_store f"
  using assms
  by (auto simp: propose_fields_def intro!: decodesI simp: propose_field_def Let_def)

interpretation propose_codec: pb_codec propose_fields libp2p_secio_propose_protobuf_encode
  libp2p_secio_propose_protobuf_encode_size "\<lambda>p. True" libp2p_secio_propose_protobuf_decode "\<lambda>p. p"
proof
  fix p n
  assume fits: "length (wire (propose_fields p)) \<le> n" and n: "n < 2 ^ 31"
  show "libp2p_secio_propose_protobuf_encode p n = Inr (wire (propose_fields p))"
    unfolding libp2p_secio_propose_protobuf_encode_def
    by (rule chain_writes [OF _ fits], unfold propose_fields_def) (intro writes_intros; use n in simp)
next
  fix p
  assume "libp2p_secio_propose_protobuf_encode_size p < 2 ^ 31"
  then show "length (wire (propose_fields p)) \<le> libp2p_secio_propose_protobuf_encode_size p"
    using length_bytes_field [of 1 "p_rand p"] length_bytes_field [of 2 "p_public_key p"]
      length_bytes_field [of 3 "p_exchanges p"] length_bytes_field [of 4 "p_ciphers p"] length_bytes_field [of 5 "p_hashes p"]
    by (simp add: propose_fields_def libp2p_secio_propose_protobuf_encode_size_def)
next
  fix p
  assume n: "length (wire (propose_fields p)) < 2 ^ 31"
  have "fold propose_store (propose_fields p) (libp2p_secio_propose_new, False) = (p, True)"
    by (simp add: propose_fields_def libp2p_secio_propose_new_def)
  then show "libp2p_secio_propose_protobuf_decode (wire (propose_fields p)) = Some (Inr p)"
    unfolding libp2p_secio_propose_protobuf_decode_def
    using pb_decode_loop_wire [OF n, of "propose_fields p" _ propose_store 0] propose_decodes [OF n] by simp
qed

definition exchange_fields :: "secio_exchange \<Rightarrow> wire_field list" where
  "exchange_fields x = [Bytes_Field 1 (ex_epubkey x), Bytes_Field 2 (ex_signature x)]"

fun exchange_store :: "wire_field \<Rightarrow> secio_exchange \<Rightarrow> secio_exchange" where
  "exchange_store (Varint_Field n v) x = x"
| "exchange_store (Bytes_Field n d) x =
     (if n = 1 then x\<lparr>ex_epubkey := d\<rparr> else if n = 2 then x\<lparr>ex_signature := d\<rparr> else x)"

lemma exchange_decodes:
  assumes "length buf < 2 ^ 31" and "f \<in> set (exchange_fields x)"
  shows "fnum f < 2 ^ 28 \<and> decodes (exchange_field buf) buf exchange_store f"
  using assms
  by (auto simp: exchange_fields_def intro!: decodesI simp: exchange_field_def Let_def)

interpretation exchange_codec: pb_codec exchange_fields libp2p_secio_exchange_protobuf_encode
  libp2p_secio_exchange_protobuf_encode_size "\<lambda>x. True" libp2p_secio_exchange_protobuf_decode "\<lambda>x. x"
proof
  fix x n
  assume fits: "length (wire (exchange_fields x)) \<le> n" and n: "n < 2 ^ 31"
  show "libp2p_secio_exchange_protobuf_encode x n = Inr (wire (exchange_fields x))"
    unfolding libp2p_secio_exchange_protobuf_encode_def
    by (rule chain_writes [OF _ fits], unfold exchange_fields_def) (intro writes_intros; use n in simp)
next
  fix x
  assume "libp2p_secio_exchange_protobuf_encode_size x < 2 ^ 31"
  then show "length (wire (exchange_fields x)) \<le> libp2p_secio_exchange_protobuf_encode_size x"
    using length_bytes_field [of 1 "ex_epubkey x"] length_bytes_field [of 2 "ex_signature x"]
    by (simp add: exchange_fields_def libp2p_secio_exchange_protobuf_encode_size_def)
next
  fix x
  assume n: "length (wire (exchange_fields x)) < 2 ^ 31"
  have "fold exchange_store (exchange_fields x) libp2p_secio_exchange_new = x"
    by (simp add: exchange_fields_def libp2p_secio_exchange_new_def)
  then show "libp2p_secio_exchange_protobuf_decode (wire (exchange_fields x)) = Some (Inr x)"
    unfolding libp2p_secio_exchange_protobuf_decode_def
    using pb_decode_loop_wire [OF n, of "exchange_fields x" _ exchange_store 0] exchange_decodes [OF n] by simp
qed

end
