(* ===== verification/Secio_Crypto.thy ===== *)
theory Secio_Crypto
  imports Secio_Message
begin

text \<open>
  What the two ends of a secure channel compute, \<open>libp2p/secio/secio.c\<close>: who comes first, which
  algorithms are chosen, the keys that are stretched from the shared secret, and the encryption
  of messages. SHA-256 and the AES block cipher are parameters; the HMAC of \<open>mbedtls/md.c\<close> and the
  counter mode of \<open>mbedtls/aes.c\<close> are modelled over them.
\<close>

section \<open>Order and choice\<close>

fun libp2p_secio_bytes_compare :: "bytes \<Rightarrow> bytes \<Rightarrow> nat \<Rightarrow> int result" where
  "libp2p_secio_bytes_compare a b 0 = Inr 0"
| "libp2p_secio_bytes_compare (x # a) (y # b) (Suc n) =
     (if x < y then Inr (- 1) else if y < x then Inr 1 else libp2p_secio_bytes_compare a b n)"
| "libp2p_secio_bytes_compare a b (Suc n) = Inl Undefined"

definition libp2p_secio_hash :: "(bytes \<Rightarrow> bytes) \<Rightarrow> bytes \<Rightarrow> bytes \<Rightarrow> bytes" where
  "libp2p_secio_hash sha256 key nonce = sha256 (key @ nonce)"

definition libp2p_secio_determine_order :: "(bytes \<Rightarrow> bytes) \<Rightarrow> propose \<Rightarrow> propose \<Rightarrow> int result" where
  "libp2p_secio_determine_order sha256 remote local =
     libp2p_secio_bytes_compare
       (libp2p_secio_hash sha256 (p_public_key remote) (p_rand local))
       (libp2p_secio_hash sha256 (p_public_key local) (p_rand remote)) 32"

text \<open>\<open>strtok\<close> with a comma: the runs of other characters, empty ones left out.\<close>

fun split_commas :: "bytes \<Rightarrow> bytes list" where
  "split_commas [] = [[]]"
| "split_commas (c # cs) =
     (if c = 44 then [] # split_commas cs
      else case split_commas cs of [] \<Rightarrow> [[c]] | t # ts \<Rightarrow> (c # t) # ts)"

definition libp2p_secio_split_list :: "bytes \<Rightarrow> bytes list" where
  "libp2p_secio_split_list list = filter (\<lambda>t. t \<noteq> []) (split_commas (c_string list))"

text \<open>The first of the leading list that is in the other one.\<close>

fun first_match :: "bytes list \<Rightarrow> bytes list \<Rightarrow> bytes option" where
  "first_match [] follower = None"
| "first_match (l # lead) follower = (if l \<in> set follower then Some l else first_match lead follower)"

definition libp2p_secio_select_best :: "int \<Rightarrow> bytes \<Rightarrow> bytes \<Rightarrow> bytes result" where
  "libp2p_secio_select_best order local_list remote_list =
     (let local = libp2p_secio_split_list local_list; remote = libp2p_secio_split_list remote_list in
      if order = 0 then (case local of [] \<Rightarrow> Inl Undefined | l # ls \<Rightarrow> Inr l)
      else
        case (if 0 < order then first_match local remote else first_match remote local) of
          None \<Rightarrow> Inl Failure
        | Some x \<Rightarrow> Inr x)"

section \<open>Keys\<close>

text \<open>HMAC with the block size of SHA-256, 64 bytes.\<close>

definition hmac_pad :: "(bytes \<Rightarrow> bytes) \<Rightarrow> byte \<Rightarrow> bytes \<Rightarrow> bytes" where
  "hmac_pad sha256 p key =
     (let k = (if 64 < length key then sha256 key else key)
      in map2 (XOR) (k @ replicate (64 - length k) 0) (replicate 64 p))"

definition mbedtls_md_hmac :: "(bytes \<Rightarrow> bytes) \<Rightarrow> bytes \<Rightarrow> bytes \<Rightarrow> bytes" where
  "mbedtls_md_hmac sha256 key input =
     sha256 (hmac_pad sha256 0x5C key @ sha256 (hmac_pad sha256 0x36 key @ input))"

text \<open>
  The members \<open>iv\<close>, \<open>cipher_key\<close> and \<open>mac_key\<close> with their memory; \<open>mac_size\<close> is changed
  without it.
\<close>

record stretched_key =
  k_iv :: bytes
  k_cipher_key :: bytes
  k_mac_key :: bytes
  k_mac_size :: nat

text \<open>The loop that fills the result: \<open>n\<close> bytes are left to fill.\<close>

function stretch_fill :: "(bytes \<Rightarrow> bytes) \<Rightarrow> bytes \<Rightarrow> bytes \<Rightarrow> nat \<Rightarrow> bytes" where
  "stretch_fill hmac seed a_hash n =
     (if n = 0 then []
      else take (min 32 n) (hmac (a_hash @ seed)) @ stretch_fill hmac seed (hmac a_hash) (n - min 32 n))"
  by pat_completeness auto
termination by (relation "measure (\<lambda>(hmac, seed, a, n). n)") auto

declare stretch_fill.simps [simp del]

definition key_seed :: bytes where "key_seed = map of_char ''key expansion''"

definition cipher_sizes :: "bytes \<Rightarrow> (nat \<times> nat) option" where
  "cipher_sizes cipherType =
     (if cipherType = map of_char ''AES-128'' then Some (16, 16)
      else if cipherType = map of_char ''AES-256'' then Some (16, 32)
      else if cipherType = map of_char ''Blowfish'' then Some (8, 32)
      else None)"

text \<open>The type of the hash is not looked at. \<open>result_size\<close> is much more than what is used of it.\<close>

definition libp2p_secio_stretch_keys ::
    "(bytes \<Rightarrow> bytes) \<Rightarrow> bytes \<Rightarrow> bytes \<Rightarrow> (stretched_key \<times> stretched_key) result" where
  "libp2p_secio_stretch_keys sha256 cipherType secret =
     (case cipher_sizes cipherType of
        None \<Rightarrow> Inl Failure
      | Some (iv_size, cipher_size) \<Rightarrow>
          let hmac_size = 20;
              hmac = mbedtls_md_hmac sha256 secret;
              result = stretch_fill hmac key_seed (hmac key_seed) (2 * (iv_size + cipher_size * hmac_size));
              cut = (\<lambda>temp. \<lparr>k_iv = take iv_size temp, k_cipher_key = take cipher_size (drop iv_size temp),
                k_mac_key = take hmac_size (drop (iv_size + cipher_size) temp), k_mac_size = hmac_size\<rparr>)
          in Inr (cut result, cut (drop (iv_size + cipher_size + hmac_size) result)))"

text \<open>
  Called for both keys with the names that were chosen; the first test on the cipher is the other way
  round, so that AES-128 alone is refused. The caller does not look at the result.
\<close>

definition libp2p_secio_make_mac_and_cipher :: "bytes \<Rightarrow> bytes \<Rightarrow> stretched_key \<Rightarrow> bool \<times> stretched_key" where
  "libp2p_secio_make_mac_and_cipher chosen_hash chosen_cipher k =
     (if chosen_hash \<notin> {map of_char ''SHA1'', map of_char ''SHA512'', map of_char ''SHA256''} then (False, k)
      else
        (chosen_cipher \<noteq> map of_char ''AES-128'',
         if chosen_hash = map of_char ''SHA1'' then k\<lparr>k_mac_size := 40\<rparr>
         else if chosen_hash = map of_char ''SHA512'' then k\<lparr>k_mac_size := 64\<rparr>
         else k))"

section \<open>Encryption\<close>

text \<open>The counter is incremented from its last byte on; \<open>inc_low\<close> sees it from there.\<close>

fun inc_low :: "bytes \<Rightarrow> bytes" where
  "inc_low [] = []"
| "inc_low (b # bs) = (if b + 1 \<noteq> 0 then (b + 1) # bs else 0 # inc_low bs)"

record ctr_state =
  nc_off :: nat
  nonce_counter :: bytes
  stream_block :: bytes

fun mbedtls_aes_crypt_ctr :: "(bytes \<Rightarrow> bytes) \<Rightarrow> bytes \<Rightarrow> ctr_state \<Rightarrow> (bytes \<times> ctr_state) result" where
  "mbedtls_aes_crypt_ctr ecb [] s = Inr ([], s)"
| "mbedtls_aes_crypt_ctr ecb (c # input) s =
     (if nc_off s = 0 \<and> length (nonce_counter s) < 16 then Inl Undefined
      else
        let s1 = (if nc_off s = 0
              then s\<lparr>stream_block := ecb (take 16 (nonce_counter s)),
                nonce_counter := rev (inc_low (rev (take 16 (nonce_counter s)))) @ drop 16 (nonce_counter s)\<rparr>
              else s)
        in bind_res (mbedtls_aes_crypt_ctr ecb input (s1\<lparr>nc_off := (nc_off s + 1) mod 16\<rparr>)) (\<lambda>(output, s').
           Inr ((c XOR stream_block s1 ! nc_off s) # output, s')))"

text \<open>The members of \<open>SessionContext\<close> that the secure channel uses.\<close>

record secio_session =
  chosen_curve :: bytes
  chosen_cipher :: bytes
  chosen_hash :: bytes
  local_nonce :: bytes
  remote_nonce :: bytes
  remote_peer_id :: bytes
  shared_key :: bytes
  aes_encode_nonce_offset :: nat
  aes_encode_stream_block :: bytes
  aes_decode_nonce_offset :: nat
  aes_decode_stream_block :: bytes
  local_stretched_key :: "stretched_key option"
  remote_stretched_key :: "stretched_key option"

definition libp2p_secio_initialize_crypto :: "secio_session \<Rightarrow> secio_session" where
  "libp2p_secio_initialize_crypto s =
     s\<lparr>aes_decode_nonce_offset := 0, aes_encode_nonce_offset := 0,
       aes_decode_stream_block := replicate 16 0, aes_encode_stream_block := replicate 16 0\<rparr>"

definition aes_key_ok :: "bytes \<Rightarrow> bool" where
  "aes_key_ok key \<longleftrightarrow> length key \<in> {16, 24, 32}"

text \<open>The MAC of a key; all \<open>mac_size\<close> bytes of it are read.\<close>

definition mac_of :: "(bytes \<Rightarrow> bytes) \<Rightarrow> stretched_key \<Rightarrow> bytes \<Rightarrow> bytes result" where
  "mac_of sha256 k data =
     (if length (k_mac_key k) < k_mac_size k then Inl Undefined
      else Inr (mbedtls_md_hmac sha256 (take (k_mac_size k) (k_mac_key k)) data))"

text \<open>The nonce counter is the \<open>iv\<close> of the key, which moves on with it.\<close>

definition libp2p_secio_encrypt ::
    "(bytes \<Rightarrow> bytes) \<Rightarrow> (bytes \<Rightarrow> bytes \<Rightarrow> bytes) \<Rightarrow> secio_session \<Rightarrow> bytes \<Rightarrow> (bytes \<times> secio_session) result" where
  "libp2p_secio_encrypt sha256 aes s incoming =
     (case local_stretched_key s of
        None \<Rightarrow> Inl Undefined
      | Some k \<Rightarrow>
          if \<not> aes_key_ok (k_cipher_key k) then Inl Failure
          else if \<not> malloc_ok (length incoming + 32) then Inl Undefined
          else
            bind_res (mbedtls_aes_crypt_ctr (aes (k_cipher_key k)) incoming
                \<lparr>nc_off = aes_encode_nonce_offset s, nonce_counter = k_iv k, stream_block = aes_encode_stream_block s\<rparr>)
              (\<lambda>(buffer, c).
            bind_res (mac_of sha256 k buffer) (\<lambda>mac.
            Inr (buffer @ mac,
              s\<lparr>aes_encode_nonce_offset := nc_off c, aes_encode_stream_block := stream_block c,
                local_stretched_key := Some (k\<lparr>k_iv := nonce_counter c\<rparr>)\<rparr>))))"

text \<open>
  The number of bytes and the message for the caller. A message shorter than a MAC makes the size of the
  data wrap around; one with a wrong MAC is handed on as it is.
\<close>

definition libp2p_secio_decrypt ::
    "(bytes \<Rightarrow> bytes) \<Rightarrow> (bytes \<Rightarrow> bytes \<Rightarrow> bytes) \<Rightarrow> secio_session \<Rightarrow> bytes \<Rightarrow> (int \<times> bytes option \<times> secio_session) result" where
  "libp2p_secio_decrypt sha256 aes s incoming =
     (case remote_stretched_key s of
        None \<Rightarrow> Inl Undefined
      | Some k \<Rightarrow>
          if length incoming < 32 then Inl Undefined
          else
            let data = take (length incoming - 32) incoming in
            bind_res (mac_of sha256 k data) (\<lambda>generated_mac.
            if drop (length incoming - 32) incoming \<noteq> generated_mac then
              (if malloc_ok (length incoming) then Inr (0, Some incoming, s) else Inl Undefined)
            else if \<not> aes_key_ok (k_cipher_key k) then Inr (0, None, s)
            else if \<not> malloc_ok (length data) then Inl Undefined
            else
              bind_res (mbedtls_aes_crypt_ctr (aes (k_cipher_key k)) data
                  \<lparr>nc_off = aes_decode_nonce_offset s, nonce_counter = k_iv k, stream_block = aes_decode_stream_block s\<rparr>)
                (\<lambda>(buffer, c).
              Inr (c_int (int (length buffer)), Some buffer,
                s\<lparr>aes_decode_nonce_offset := nc_off c, aes_decode_stream_block := stream_block c,
                  remote_stretched_key := Some (k\<lparr>k_iv := nonce_counter c\<rparr>)\<rparr>))))"

section \<open>Choice\<close>

lemma bytes_compare_swap:
  assumes "length a = n" and "length b = n"
  shows "\<exists>r. libp2p_secio_bytes_compare a b n = Inr r \<and> libp2p_secio_bytes_compare b a n = Inr (- r) \<and>
    r \<in> {- 1, 0, 1} \<and> (r = 0 \<longleftrightarrow> a = b)"
  using assms
proof (induction a b n rule: libp2p_secio_bytes_compare.induct)
  case (2 x a y b n)
  show ?case
  proof (cases x y rule: linorder_cases)
    case equal
    then show ?thesis using 2 by simp
  qed (use 2 in auto)
qed auto

lemma first_match_find: "first_match lead follower = List.find (\<lambda>l. l \<in> set follower) lead"
  by (induction lead) auto

lemma first_match_None: "first_match lead follower = None \<longleftrightarrow> set lead \<inter> set follower = {}"
  by (induction lead) auto

lemma select_best_swap:
  "order \<noteq> 0 \<Longrightarrow> libp2p_secio_select_best (- order) remote_list local_list = libp2p_secio_select_best order local_list remote_list"
  by (auto simp: libp2p_secio_select_best_def Let_def)

section \<open>Stretched keys\<close>

text \<open>
  The reference: the expansion function of TLS 1.0, with the hash function it is used with. The blocks are
  \<open>hmac (A i @ seed)\<close>, where \<open>A 0\<close> is the seed and \<open>A (i + 1)\<close> the hash of \<open>A i\<close>.
\<close>

definition p_hash :: "(bytes \<Rightarrow> bytes) \<Rightarrow> bytes \<Rightarrow> nat \<Rightarrow> bytes" where
  "p_hash hmac seed blocks = concat (map (\<lambda>i. hmac ((hmac ^^ Suc i) seed @ seed)) [0..<blocks])"

lemma length_hmac: "sha_ok sha256 \<Longrightarrow> length (mbedtls_md_hmac sha256 key input) = 32"
  by (simp add: mbedtls_md_hmac_def sha_ok_def)

lemma stretch_fill_blocks:
  assumes "\<And>m. length (hmac m) = 32"
  shows "stretch_fill hmac seed a n =
    take n (concat (map (\<lambda>i. hmac ((hmac ^^ i) a @ seed)) [0..<(n + 31) div 32]))"
proof (induction n arbitrary: a rule: less_induct)
  case (less n)
  show ?case
  proof (cases "n = 0")
    case True
    then show ?thesis by (simp add: stretch_fill.simps)
  next
    case False
    let ?f = "\<lambda>a i. hmac ((hmac ^^ i) a @ seed)" and ?k = "(n - min 32 n + 31) div 32"
    have k: "(n + 31) div 32 = Suc ?k" using False by (cases "32 \<le> n") auto
    have "[0..<Suc m] = 0 # map Suc [0..<m]" for m by (simp add: map_Suc_upt upt_conv_Cons del: upt_Suc)
    then have "concat (map (?f a) [0..<(n + 31) div 32]) = hmac (a @ seed) @ concat (map (?f (hmac a)) [0..<?k])"
      unfolding k by (simp add: comp_def funpow_swap1)
    moreover have "stretch_fill hmac seed (hmac a) (n - min 32 n) =
        take (n - min 32 n) (concat (map (?f (hmac a)) [0..<?k]))"
      using less [of "n - min 32 n" "hmac a"] False by simp
    ultimately show ?thesis
      using False assms [of "a @ seed"] by (subst stretch_fill.simps) (simp add: min_def)
  qed
qed

lemma length_stretch_fill:
  assumes "\<And>m. length (hmac m) = 32"
  shows "length (stretch_fill hmac seed a n) = n"
proof (induction n arbitrary: a rule: less_induct)
  case (less n)
  then show ?case
    using assms [of "a @ seed"] by (cases "n = 0") (subst stretch_fill.simps, simp add: min_def)+
qed

text \<open>The keys, for every cipher: consecutive pieces of the expansion, of the sizes of the cipher.\<close>

definition stretched :: "bytes \<Rightarrow> nat \<Rightarrow> nat \<Rightarrow> stretched_key" where
  "stretched stream iv cipher =
     \<lparr>k_iv = take iv stream, k_cipher_key = take cipher (drop iv stream),
      k_mac_key = take 20 (drop (iv + cipher) stream), k_mac_size = 20\<rparr>"

lemma stretch_keys_eq:
  fixes secret :: bytes
  assumes "sha_ok sha256" and "cipher_sizes cipherType = Some (iv, cipher)"
  defines "stream \<equiv> stretch_fill (mbedtls_md_hmac sha256 secret) key_seed (mbedtls_md_hmac sha256 secret key_seed)
    (2 * (iv + cipher * 20))"
  shows "libp2p_secio_stretch_keys sha256 cipherType secret =
      Inr (stretched stream iv cipher, stretched (drop (iv + cipher + 20) stream) iv cipher)"
    and "length stream = 2 * (iv + cipher * 20)" and "2 * (iv + cipher + 20) \<le> length stream"
proof -
  show l: "length stream = 2 * (iv + cipher * 20)"
    unfolding stream_def by (rule length_stretch_fill [OF length_hmac [OF assms(1)]])
  show "libp2p_secio_stretch_keys sha256 cipherType secret =
      Inr (stretched stream iv cipher, stretched (drop (iv + cipher + 20) stream) iv cipher)"
    by (simp add: libp2p_secio_stretch_keys_def assms(2) stream_def stretched_def Let_def)
  show "2 * (iv + cipher + 20) \<le> length stream"
    unfolding l using assms(2) by (auto simp: cipher_sizes_def split: if_splits)
qed

lemma stretched_sizes:
  assumes "iv + cipher + 20 \<le> length stream"
  shows "length (k_iv (stretched stream iv cipher)) = iv" and "length (k_cipher_key (stretched stream iv cipher)) = cipher"
    and "length (k_mac_key (stretched stream iv cipher)) = 20" and "k_mac_size (stretched stream iv cipher) = 20"
  using assms by (simp_all add: stretched_def)

lemma stretched_pieces:
  "k_iv (stretched stream iv cipher) @ k_cipher_key (stretched stream iv cipher) @ k_mac_key (stretched stream iv cipher) =
    take (iv + cipher + 20) stream"
  by (simp add: stretched_def take_add)

section \<open>The channel\<close>

lemma length_inc_low [simp]: "length (inc_low bs) = length bs"
  by (induction bs) auto

text \<open>Counter mode on blocks of 16 bytes never fails, and undoes itself from the same state on.\<close>

definition ctr_ok :: "ctr_state \<Rightarrow> bool" where
  "ctr_ok c \<longleftrightarrow> 16 \<le> length (nonce_counter c)"

lemma ctr_total:
  assumes "ctr_ok c"
  shows "\<exists>out c'. mbedtls_aes_crypt_ctr ecb input c = Inr (out, c') \<and> length out = length input \<and> ctr_ok c' \<and>
    mbedtls_aes_crypt_ctr ecb out c = Inr (input, c')"
  using assms
proof (induction input arbitrary: c)
  case (Cons x input)
  let ?s = "if nc_off c = 0
      then c\<lparr>stream_block := ecb (take 16 (nonce_counter c)),
        nonce_counter := rev (inc_low (rev (take 16 (nonce_counter c)))) @ drop 16 (nonce_counter c)\<rparr>
      else c"
  have "ctr_ok (?s\<lparr>nc_off := (nc_off c + 1) mod 16\<rparr>)"
    using Cons.prems by (simp add: ctr_ok_def)
  from Cons.IH [OF this] obtain out c' where
    "mbedtls_aes_crypt_ctr ecb input (?s\<lparr>nc_off := (nc_off c + 1) mod 16\<rparr>) = Inr (out, c')" "length out = length input" "ctr_ok c'"
    "mbedtls_aes_crypt_ctr ecb out (?s\<lparr>nc_off := (nc_off c + 1) mod 16\<rparr>) = Inr (input, c')" by blast
  then show ?case using Cons.prems
    by (intro exI [of _ "(x XOR stream_block ?s ! nc_off c) # out"] exI [of _ c'])
      (simp add: Let_def ctr_ok_def xor.assoc)
qed simp

text \<open>
  The two ends of a channel: what one of them encrypts with is what the other decrypts with.
\<close>

definition in_step :: "secio_session \<Rightarrow> secio_session \<Rightarrow> bool" where
  "in_step a b \<longleftrightarrow>
     local_stretched_key a = remote_stretched_key b \<and>
     aes_encode_nonce_offset a = aes_decode_nonce_offset b \<and> aes_encode_stream_block a = aes_decode_stream_block b"

definition sending_ok :: "secio_session \<Rightarrow> bool" where
  "sending_ok s \<longleftrightarrow>
     (\<exists>k. local_stretched_key s = Some k \<and> aes_key_ok (k_cipher_key k) \<and> 16 \<le> length (k_iv k) \<and>
        k_mac_size k \<le> length (k_mac_key k))"

lemma encrypt_decrypt:
  assumes "sha_ok sha256" and "in_step a b" and "sending_ok a" and "length data < 2 ^ 31"
  shows "\<exists>frame a' b'. libp2p_secio_encrypt sha256 aes a data = Inr (frame, a') \<and> length frame = length data + 32 \<and>
    libp2p_secio_decrypt sha256 aes b frame = Inr (int (length data), Some data, b') \<and>
    in_step a' b' \<and> sending_ok a' \<and>
    remote_stretched_key a' = remote_stretched_key a \<and> aes_decode_nonce_offset a' = aes_decode_nonce_offset a \<and>
    aes_decode_stream_block a' = aes_decode_stream_block a \<and>
    local_stretched_key b' = local_stretched_key b \<and> aes_encode_nonce_offset b' = aes_encode_nonce_offset b \<and>
    aes_encode_stream_block b' = aes_encode_stream_block b"
proof -
  obtain k where k: "local_stretched_key a = Some k" "aes_key_ok (k_cipher_key k)" "16 \<le> length (k_iv k)"
    "k_mac_size k \<le> length (k_mac_key k)" using assms(3) by (auto simp: sending_ok_def)
  let ?c = "\<lparr>nc_off = aes_encode_nonce_offset a, nonce_counter = k_iv k, stream_block = aes_encode_stream_block a\<rparr>"
  have "ctr_ok ?c" using k(3) by (simp add: ctr_ok_def)
  from ctr_total [OF this] obtain out c' where
    out: "mbedtls_aes_crypt_ctr (aes (k_cipher_key k)) data ?c = Inr (out, c')" "length out = length data" "ctr_ok c'"
    "mbedtls_aes_crypt_ctr (aes (k_cipher_key k)) out ?c = Inr (data, c')" by blast
  let ?mac = "mbedtls_md_hmac sha256 (take (k_mac_size k) (k_mac_key k)) out"
  have mac: "mac_of sha256 k out = Inr ?mac" "length ?mac = 32"
    using k(4) length_hmac [OF assms(1)] by (simp_all add: mac_of_def)
  have b: "remote_stretched_key b = Some k" "aes_decode_nonce_offset b = aes_encode_nonce_offset a"
    "aes_decode_stream_block b = aes_encode_stream_block a" using assms(2) k(1) by (simp_all add: in_step_def)
  let ?a = "a\<lparr>aes_encode_nonce_offset := nc_off c', aes_encode_stream_block := stream_block c',
      local_stretched_key := Some (k\<lparr>k_iv := nonce_counter c'\<rparr>)\<rparr>"
  let ?b = "b\<lparr>aes_decode_nonce_offset := nc_off c', aes_decode_stream_block := stream_block c',
      remote_stretched_key := Some (k\<lparr>k_iv := nonce_counter c'\<rparr>)\<rparr>"
  have "libp2p_secio_encrypt sha256 aes a data = Inr (out @ ?mac, ?a)"
    using k out(1) mac(1) assms(4) by (simp add: libp2p_secio_encrypt_def malloc_ok_def)
  moreover have "libp2p_secio_decrypt sha256 aes b (out @ ?mac) = Inr (int (length data), Some data, ?b)"
    using b k(2) out(2,4) mac assms(4) by (simp add: libp2p_secio_decrypt_def malloc_ok_def c_arith)
  moreover have "in_step ?a ?b" by (simp add: in_step_def)
  moreover have "sending_ok ?a" using k out(3) by (simp add: sending_ok_def ctr_ok_def)
  ultimately show ?thesis using out(2) mac(2)
    by (intro exI [of _ "out @ ?mac"] exI [of _ ?a] exI [of _ ?b]) simp
qed

section \<open>Properties\<close>

text \<open>
  C21: both ends of a handshake choose the same. The order one end computes from the two proposals is the
  negative of the order the other end computes, and unless the hashes agree they come to the same curve,
  cipher and hash: the first one of the leading list that the other list has too, and if there is none
  both fail. When the order is zero each end takes the first of its own list.
\<close>

theorem secio_choice_agrees:
  assumes "sha_ok sha256"
  shows "\<exists>order. libp2p_secio_determine_order sha256 theirs ours = Inr order \<and>
    libp2p_secio_determine_order sha256 ours theirs = Inr (- order) \<and>
    (order \<noteq> 0 \<longrightarrow>
      libp2p_secio_select_best order ourlist theirlist = libp2p_secio_select_best (- order) theirlist ourlist \<and>
      (let lead = libp2p_secio_split_list (if 0 < order then ourlist else theirlist);
           follower = libp2p_secio_split_list (if 0 < order then theirlist else ourlist)
       in libp2p_secio_select_best order ourlist theirlist =
         (case List.find (\<lambda>x. x \<in> set follower) lead of None \<Rightarrow> Inl Failure | Some x \<Rightarrow> Inr x))) \<and>
    (order = 0 \<longrightarrow> libp2p_secio_split_list ourlist = x # xs \<longrightarrow> libp2p_secio_select_best order ourlist theirlist = Inr x)"
proof -
  let ?a = "libp2p_secio_hash sha256 (p_public_key theirs) (p_rand ours)"
  let ?b = "libp2p_secio_hash sha256 (p_public_key ours) (p_rand theirs)"
  have "length ?a = 32" "length ?b = 32" using assms by (simp_all add: libp2p_secio_hash_def sha_ok_def)
  then obtain r where "libp2p_secio_bytes_compare ?a ?b 32 = Inr r" "libp2p_secio_bytes_compare ?b ?a 32 = Inr (- r)"
    using bytes_compare_swap [of ?a 32 ?b] by blast
  moreover have "r \<noteq> 0 \<Longrightarrow> libp2p_secio_select_best r ourlist theirlist = libp2p_secio_select_best (- r) theirlist ourlist"
    using select_best_swap [of r theirlist ourlist] by simp
  ultimately show ?thesis
    by (intro exI [of _ r])
      (simp add: libp2p_secio_determine_order_def libp2p_secio_select_best_def Let_def first_match_find)
qed

text \<open>A hash for the examples.\<close>

definition pad_hash :: "bytes \<Rightarrow> bytes" where
  "pad_hash m = take 32 (m @ replicate 32 0)"

lemma pad_hash: "sha_ok pad_hash"
  by (simp add: sha_ok_def pad_hash_def min_def)

theorem secio_choice_agrees_witness:
  "libp2p_secio_determine_order pad_hash (libp2p_secio_propose_new\<lparr>p_public_key := [2]\<rparr>) (libp2p_secio_propose_new\<lparr>p_public_key := [7]\<rparr>) =
      Inr (- 1) \<and>
    libp2p_secio_select_best (- 1) [65, 44, 66] [66, 44, 65, 44, 67] = libp2p_secio_select_best 1 [66, 44, 65, 44, 67] [65, 44, 66] \<and>
    libp2p_secio_select_best 1 [66, 44, 65, 44, 67] [65, 44, 66] = Inr [66]"
proof -
  let ?theirs = "libp2p_secio_propose_new\<lparr>p_public_key := [2]\<rparr>" and ?ours = "libp2p_secio_propose_new\<lparr>p_public_key := [7]\<rparr>"
  have "libp2p_secio_determine_order pad_hash ?theirs ?ours = Inr (- 1)" by code_simp
  moreover have "libp2p_secio_select_best 1 [66, 44, 65, 44, 67] [65, 44, 66] = Inr [66]" by code_simp
  ultimately show ?thesis
    using secio_choice_agrees [OF pad_hash, of ?theirs ?ours "[65, 44, 66]" "[66, 44, 65, 44, 67]"] by auto
qed

text \<open>
  The keys that are stretched from a secret are those of the expansion function of TLS 1.0: its output,
  cut one after the other into the initial vector, the cipher key and the MAC key of the first key and of the second,
  16, 16 or 32 and 20 bytes long (8 for the vector of Blowfish). Another cipher is refused. As the second
  half of what was filled is never used, the generous size does no harm.
\<close>

theorem secio_stretch_keys_expand:
  assumes "sha_ok sha256"
  shows "case cipher_sizes cipherType of
      None \<Rightarrow> libp2p_secio_stretch_keys sha256 cipherType secret = Inl Failure
    | Some (iv, cipher) \<Rightarrow>
        \<exists>k1 k2. libp2p_secio_stretch_keys sha256 cipherType secret = Inr (k1, k2) \<and>
          k_iv k1 @ k_cipher_key k1 @ k_mac_key k1 @ k_iv k2 @ k_cipher_key k2 @ k_mac_key k2 =
            take (2 * (iv + cipher + 20)) (p_hash (mbedtls_md_hmac sha256 secret) key_seed 5) \<and>
          (\<forall>k\<in>{k1, k2}. length (k_iv k) = iv \<and> length (k_cipher_key k) = cipher \<and>
             length (k_mac_key k) = 20 \<and> k_mac_size k = 20)"
proof (cases "cipher_sizes cipherType")
  case None
  then show ?thesis by (simp add: libp2p_secio_stretch_keys_def)
next
  case (Some p)
  then obtain iv cipher where sizes: "cipher_sizes cipherType = Some (iv, cipher)" "p = (iv, cipher)" by (cases p) auto
  let ?hmac = "mbedtls_md_hmac sha256 secret"
  let ?n = "2 * (iv + cipher * 20)"
  define stream where "stream = stretch_fill ?hmac key_seed (?hmac key_seed) ?n"
  note eq = stretch_keys_eq [OF assms sizes(1), of secret, folded stream_def]
  let ?k1 = "stretched stream iv cipher" and ?k2 = "stretched (drop (iv + cipher + 20) stream) iv cipher"
  let ?f = "\<lambda>i. ?hmac ((?hmac ^^ i) (?hmac key_seed) @ key_seed)"
  let ?m = "(?n + 31) div 32"
  have c: "cipher \<in> {16, 32}" "iv \<in> {8, 16}" using sizes(1) by (auto simp: cipher_sizes_def split: if_splits)
  define blocks where "blocks m = concat (map ?f [0..<m])" for m
  have len: "length (blocks m) = 32 * m" for m
    unfolding blocks_def by (induction m) (simp_all add: length_hmac [OF assms])
  have "blocks (m + k) = blocks m @ concat (map ?f [m..<m + k])" for m k
    using upt_add_eq_append [of 0 m k] by (simp add: blocks_def)
  then have take_any: "take l (blocks (m + k)) = take l (blocks m)" if "l \<le> 32 * m" for l m k
    using len [of m] that by simp
  have "stream = take ?n (blocks ?m)"
    unfolding stream_def blocks_def by (rule stretch_fill_blocks [OF length_hmac [OF assms]])
  then have "take (2 * (iv + cipher + 20)) stream = take (2 * (iv + cipher + 20)) (blocks ?m)"
    using eq(3) unfolding eq(2) by (simp only: take_take min_absorb1)
  also have "\<dots> = take (2 * (iv + cipher + 20)) (blocks 5)"
  proof -
    have "?m = 5 + (?m - 5)" "2 * (iv + cipher + 20) \<le> 32 * 5" using c by auto
    then show ?thesis using take_any [of "2 * (iv + cipher + 20)" 5 "?m - 5"] by (simp only:)
  qed
  also have "blocks 5 = p_hash ?hmac key_seed 5"
    unfolding blocks_def p_hash_def by (simp only: funpow_Suc_right comp_def)
  finally have "take (2 * (iv + cipher + 20)) stream = take (2 * (iv + cipher + 20)) (p_hash ?hmac key_seed 5)" .
  moreover have "k_iv ?k1 @ k_cipher_key ?k1 @ k_mac_key ?k1 @ k_iv ?k2 @ k_cipher_key ?k2 @ k_mac_key ?k2 =
      take (2 * (iv + cipher + 20)) stream"
    using stretched_pieces [of stream iv cipher] stretched_pieces [of "drop (iv + cipher + 20) stream" iv cipher]
      take_add [of "iv + cipher + 20" "iv + cipher + 20" stream]
    by (simp only: append_assoc [symmetric] mult_2)
  moreover have "\<forall>k\<in>{?k1, ?k2}. length (k_iv k) = iv \<and> length (k_cipher_key k) = cipher \<and>
      length (k_mac_key k) = 20 \<and> k_mac_size k = 20"
    using eq(3) stretched_sizes [of iv cipher stream] stretched_sizes [of iv cipher "drop (iv + cipher + 20) stream"] by simp
  ultimately show ?thesis unfolding Some sizes(2) using eq(1) by auto
qed

theorem secio_stretch_keys_expand_witness:
  "\<exists>k1 k2. libp2p_secio_stretch_keys pad_hash (map of_char ''AES-128'') [1, 2, 3] = Inr (k1, k2) \<and>
    length (k_cipher_key k2) = 16 \<and> length (k_mac_key k1) = 20"
  using secio_stretch_keys_expand [OF pad_hash, of "map of_char ''AES-128''" "[1, 2, 3]"]
  by (auto simp: cipher_sizes_def)

end
