(* ===== verification/Secio_Frame.thy ===== *)
theory Secio_Frame
  imports Secio_Crypto
begin

text \<open>
  The frames of the secure channel on a socket, the unencrypted reads and writes of
  \<open>libp2p/secio/secio.c\<close>. What the operating system answers to each \<open>send\<close> and \<open>recv\<close> is a script: a
  list of events, which is consumed from the front. A call that finds its script at an end waits for
  ever (\<open>None\<close>).
\<close>

section \<open>Sockets\<close>

datatype errno = E_NONE | E_INPROGRESS | E_AGAIN | E_OTHER

text \<open>
  What a \<open>send\<close> does: it takes some of the bytes (at most those it is given), or none for now, or fails.
  What a \<open>recv\<close> finds: bytes, of which it takes as many as it asked for, or it gives 0 or a negative number and
  leaves an \<open>errno\<close>.
\<close>

datatype write_event = Wrote nat | Not_Written errno
datatype read_event = Got byte bytes | Not_Read bool errno

record sock =
  descriptor :: int
  incoming :: "read_event list"
  outgoing :: "write_event list"
  sent :: bytes

text \<open>A byte for each call; of the bytes that came in together the others stay for the next one.\<close>

definition put_back :: "bytes \<Rightarrow> read_event list \<Rightarrow> read_event list" where
  "put_back bs es = (case bs of [] \<Rightarrow> es | c # cs \<Rightarrow> Got c cs # es)"

section \<open>The code\<close>

definition libp2p_secio_get_socket_descriptor :: "sock \<Rightarrow> int" where
  "libp2p_secio_get_socket_descriptor s = descriptor s"

definition libp2p_secio_set_socket_descriptor :: "sock \<Rightarrow> sock" where
  "libp2p_secio_set_socket_descriptor s = s\<lparr>descriptor := 0\<rparr>"

definition htonl :: "nat \<Rightarrow> bytes" where
  "htonl n = [of_nat (n div 2 ^ 24), of_nat (n div 2 ^ 16), of_nat (n div 2 ^ 8), of_nat n]"

definition ntohl :: "bytes \<Rightarrow> nat" where
  "ntohl bs = foldl (\<lambda>n b. n * 256 + unat b) 0 (take 4 (bs @ replicate 4 0))"

text \<open>
  Both loops run until nothing is left. The first one always begins at the first byte of the size again,
  \<open>written\<close> is not moved on. \<open>False\<close> is an error.
\<close>

fun write_size :: "bytes \<Rightarrow> nat \<Rightarrow> write_event list \<Rightarrow> bytes \<Rightarrow> (bool \<times> write_event list \<times> bytes) option" where
  "write_size sz left [] out = None"
| "write_size sz left (Wrote n # es) out =
     (if left \<le> n then Some (True, es, out @ take left sz)
      else write_size sz (left - n) es (out @ take n sz))"
| "write_size sz left (Not_Written e # es) out =
     (if e = E_AGAIN then write_size sz left es out else Some (False, es, out))"

fun write_data :: "bytes \<Rightarrow> write_event list \<Rightarrow> bytes \<Rightarrow> (bool \<times> write_event list \<times> bytes) option" where
  "write_data data [] out = None"
| "write_data data (Wrote n # es) out =
     (if length data \<le> n then Some (True, es, out @ data)
      else write_data (drop n data) es (out @ take n data))"
| "write_data data (Not_Written e # es) out =
     (if e = E_AGAIN then write_data data es out else Some (False, es, out))"

text \<open>The number of bytes written, without the four of the size.\<close>

definition libp2p_secio_unencrypted_write :: "sock \<Rightarrow> bytes \<Rightarrow> (int \<times> sock) run" where
  "libp2p_secio_unencrypted_write s msg =
     (if msg = [] then Some (Inr (0, s))
      else if 2 ^ 31 \<le> length msg then Some (Inl Undefined)
      else
        case write_size (htonl (length msg)) 4 (outgoing s) (sent s) of
          None \<Rightarrow> None
        | Some (ok, es, out) \<Rightarrow>
            if \<not> ok then Some (Inr (0, s\<lparr>outgoing := es, sent := out\<rparr>))
            else
              (case write_data msg es out of
                 None \<Rightarrow> None
               | Some (ok', es', out') \<Rightarrow>
                   Some (Inr (if ok' then int (length msg) else 0, s\<lparr>outgoing := es', sent := out'\<rparr>))))"

text \<open>
  The four bytes of the size, one by one. An operation in progress is tried again until the time is
  over; then the size is made of what there is. \<open>None\<close> in the result is a return from the function.
\<close>

fun read_size :: "nat \<Rightarrow> int \<Rightarrow> bytes \<Rightarrow> read_event list \<Rightarrow> sock \<Rightarrow> (bytes option \<times> sock) run" where
  "read_size 0 time_left sz es s = Some (Inr (Some sz, s\<lparr>incoming := es\<rparr>))"
| "read_size (Suc left) time_left sz [] s = None"
| "read_size (Suc left) time_left sz (Got b bs # es) s =
     (case bs of
        [] \<Rightarrow> read_size left time_left (sz @ [b]) es s
      | c # cs \<Rightarrow> read_size left time_left (sz @ [b]) (Got c cs # es) s)"
| "read_size (Suc left) time_left sz (Not_Read zero e # es) s =
     (if e = E_INPROGRESS then
        (if time_left - 1 = 0 then Some (Inr (Some sz, s\<lparr>incoming := es\<rparr>))
         else read_size (Suc left) (time_left - 1) sz es s)
      else if e = E_AGAIN then Some (Inr (None, s\<lparr>incoming := es\<rparr>))
      else if e \<noteq> E_NONE then Some (Inr (None, s\<lparr>incoming := es\<rparr>))
      else Some (Inr (None, libp2p_secio_set_socket_descriptor (s\<lparr>incoming := es\<rparr>))))"

text \<open>
  The data. When the time is over the rest of the buffer is handed to the caller as it was allocated.
\<close>

fun read_data :: "nat \<Rightarrow> int \<Rightarrow> bytes \<Rightarrow> read_event list \<Rightarrow> sock \<Rightarrow> (bytes option \<times> sock) run" where
  "read_data left time_left data [] s = None"
| "read_data left time_left data (Got b bs # es) s =
     (if left \<le> length (b # bs)
      then Some (Inr (Some (data @ take left (b # bs)), s\<lparr>incoming := put_back (drop left (b # bs)) es\<rparr>))
      else read_data (left - length (b # bs)) time_left (data @ b # bs) es s)"
| "read_data left time_left data (Not_Read zero e # es) s =
     (if zero then Some (Inr (None, s\<lparr>incoming := es\<rparr>))
      else if e = E_INPROGRESS then
        (if time_left - 1 = 0 then Some (Inl Undefined) else read_data left (time_left - 1) data es s)
      else if e = E_AGAIN then read_data left time_left data es s
      else Some (Inr (None, s\<lparr>incoming := es\<rparr>)))"

text \<open>
  The number of bytes and the message. A size of 2 GiB or more is negative as an \<open>int\<close>, so that nothing
  is allocated and \<open>recv\<close> is given a null pointer.
\<close>

definition libp2p_secio_unencrypted_read :: "sock \<Rightarrow> int \<Rightarrow> (int \<times> bytes option \<times> sock) run" where
  "libp2p_secio_unencrypted_read s timeout_secs =
     (if libp2p_secio_get_socket_descriptor s \<le> 0 then Some (Inr (0, None, s))
      else
        bind_run (read_size 4 timeout_secs [] (incoming s) s) (\<lambda>(sz, s1).
        case sz of
          None \<Rightarrow> Some (Inr (0, None, s1))
        | Some bs \<Rightarrow>
            let buffer_size = ntohl bs in
            if buffer_size = 0 then Some (Inr (0, None, s1))
            else if 2 ^ 31 \<le> buffer_size then Some (Inl Undefined)
            else
              bind_run (read_data buffer_size timeout_secs [] (incoming s1) s1) (\<lambda>(data, s2).
              case data of
                None \<Rightarrow> Some (Inr (0, None, s2))
              | Some d \<Rightarrow> Some (Inr (int buffer_size, Some d, s2)))))"

section \<open>Frames\<close>

definition frame :: "bytes \<Rightarrow> bytes" where
  "frame msg = htonl (length msg) @ msg"

text \<open>The bytes that arrive, in whatever pieces.\<close>

fun arriving :: "read_event list \<Rightarrow> bytes option" where
  "arriving [] = Some []"
| "arriving (Got b bs # es) = map_option (\<lambda>r. b # bs @ r) (arriving es)"
| "arriving (Not_Read zero e # es) = None"

text \<open>A socket that takes what it is given, \<open>n\<close> times at least.\<close>

definition writable :: "nat \<Rightarrow> sock \<Rightarrow> bool" where
  "writable n s \<longleftrightarrow> n \<le> length (outgoing s) \<and> (\<forall>e\<in>set (outgoing s). e = Wrote (2 ^ 31))"

lemma length_htonl [simp]: "length (htonl n) = 4"
  by (simp add: htonl_def)

lemma ntohl_htonl:
  assumes "n < 2 ^ 32"
  shows "ntohl (htonl n) = n"
proof -
  have "n div 2 ^ 24 < 256" using assms by simp
  then have "ntohl (htonl n) = ((n div 2 ^ 24 * 256 + n div 2 ^ 16 mod 256) * 256 + n div 2 ^ 8 mod 256) * 256 + n mod 256"
    by (simp add: ntohl_def htonl_def unat_of_nat)
  moreover have "n div 2 ^ 24 = n div 2 ^ 16 div 256" "n div 2 ^ 16 = n div 2 ^ 8 div 256" "n div 2 ^ 8 = n div 256"
    by (simp_all add: div_mult2_eq [symmetric])
  ultimately show ?thesis by (simp only: div_mult_mod_eq)
qed

lemma arriving_put_back: "arriving (put_back bs es) = map_option (\<lambda>r. bs @ r) (arriving es)"
  by (cases bs) (simp_all add: put_back_def option.map_ident)

lemma read_size_arriving:
  assumes "arriving es = Some (bs @ rest)"
  shows "\<exists>es'. read_size (length bs) t sz es s = Some (Inr (Some (sz @ bs), s\<lparr>incoming := es'\<rparr>)) \<and> arriving es' = Some rest"
  using assms
proof (induction bs arbitrary: es sz)
  case (Cons b bs)
  then obtain c cs es0 where es: "es = Got c cs # es0"
    by (cases es rule: arriving.cases) auto
  have "c = b" "arriving (put_back cs es0) = Some (bs @ rest)"
    using Cons.prems by (auto simp: es arriving_put_back)
  moreover have "read_size (length (b # bs)) t sz es s = read_size (length bs) t (sz @ [c]) (put_back cs es0) s"
    by (simp add: es put_back_def split: list.split)
  ultimately show ?case using Cons.IH [of "put_back cs es0" "sz @ [b]"] by simp
next
  case Nil
  then show ?case by (intro exI [of _ es]) simp
qed

lemma read_data_arriving:
  assumes "arriving es = Some (bs @ rest)" and "bs \<noteq> []"
  shows "\<exists>es'. read_data (length bs) t data es s = Some (Inr (Some (data @ bs), s\<lparr>incoming := es'\<rparr>)) \<and> arriving es' = Some rest"
  using assms
proof (induction es arbitrary: bs data)
  case (Cons e es)
  obtain c cs where e: "e = Got c cs" using Cons.prems(1) by (cases e) auto
  obtain r where r: "arriving es = Some r" "(c # cs) @ r = bs @ rest" using Cons.prems(1) by (auto simp: e)
  show ?case
  proof (cases "length bs \<le> length (c # cs)")
    case True
    then have "take (length bs) (c # cs) = bs" "drop (length bs) (c # cs) @ r = rest"
      using r(2) by (metis append_eq_append_conv_if append_take_drop_id)+
    then show ?thesis using True r(1)
      by (intro exI [of _ "put_back (drop (length bs) (c # cs)) es"]) (simp add: e arriving_put_back)
  next
    case False
    then obtain bs' where bs': "bs = (c # cs) @ bs'" "r = bs' @ rest"
      using r(2) unfolding append_eq_append_conv2 by (auto dest: arg_cong [of _ _ length])
    then have "bs' \<noteq> []" using False by auto
    from Cons.IH [OF _ this, of "data @ c # cs"] r(1) bs'(2) obtain es' where
      "read_data (length bs') t (data @ c # cs) es s = Some (Inr (Some ((data @ c # cs) @ bs'), s\<lparr>incoming := es'\<rparr>))"
      "arriving es' = Some rest" by auto
    then show ?thesis using False bs'(1) by (intro exI [of _ es']) (simp add: e)
  qed
qed simp

lemma unencrypted_read_frame:
  assumes "0 < descriptor s" and "arriving (incoming s) = Some (frame msg @ rest)" and "msg \<noteq> []" and "length msg < 2 ^ 31"
  shows "\<exists>es. libp2p_secio_unencrypted_read s t = Some (Inr (int (length msg), Some msg, s\<lparr>incoming := es\<rparr>)) \<and>
    arriving es = Some rest"
proof -
  obtain es1 where "read_size 4 t [] (incoming s) s = Some (Inr (Some (htonl (length msg)), s\<lparr>incoming := es1\<rparr>))"
    and es1: "arriving es1 = Some (msg @ rest)"
    using read_size_arriving [of "incoming s" "htonl (length msg)" "msg @ rest" t "[]" s] assms(2) by (auto simp: frame_def)
  moreover obtain es2 where "read_data (length msg) t [] es1 (s\<lparr>incoming := es1\<rparr>) = Some (Inr (Some msg, s\<lparr>incoming := es2\<rparr>))"
    "arriving es2 = Some rest"
    using read_data_arriving [OF es1 assms(3), of t "[]" "s\<lparr>incoming := es1\<rparr>"] by auto
  moreover have "ntohl (htonl (length msg)) = length msg" using assms(4) by (intro ntohl_htonl) simp
  ultimately show ?thesis
    using assms(1,3,4)
    by (intro exI [of _ es2]) (simp add: libp2p_secio_unencrypted_read_def libp2p_secio_get_socket_descriptor_def)
qed

lemma unencrypted_write_frame:
  assumes "writable (Suc (Suc n)) s" and "msg \<noteq> []" and "length msg < 2 ^ 31"
  shows "\<exists>es. libp2p_secio_unencrypted_write s msg =
    Some (Inr (int (length msg), s\<lparr>outgoing := es, sent := sent s @ frame msg\<rparr>)) \<and>
    writable n (s\<lparr>outgoing := es, sent := sent s @ frame msg\<rparr>)"
proof -
  obtain es where es: "outgoing s = Wrote (2 ^ 31) # Wrote (2 ^ 31) # es" "n \<le> length es" "\<forall>e\<in>set es. e = Wrote (2 ^ 31)"
    using assms(1) by (cases "outgoing s"; cases "tl (outgoing s)") (auto simp: writable_def)
  then show ?thesis using assms(2,3)
    by (intro exI [of _ es]) (simp add: libp2p_secio_unencrypted_write_def frame_def writable_def)
qed

section \<open>Properties\<close>

text \<open>
  A frame goes through. If the size goes out in one piece, the data may be taken in any pieces and with
  any number of retries: what is on the wire is the size in network order and the data, and from a wire with a frame,
  in whatever pieces it arrives, exactly the data is read, and what follows stays for the next read.
\<close>

theorem secio_frame_round_trip:
  assumes "msg \<noteq> []" and "length msg < 2 ^ 31"
    and "outgoing s = Wrote n # es" and "4 \<le> n" and "\<forall>e\<in>set es. e = Not_Written E_AGAIN \<or> (\<exists>k. e = Wrote k)"
    and "libp2p_secio_unencrypted_write s msg = Some r"
    and "0 < descriptor peer" and "arriving (incoming peer) = Some (frame msg @ rest)"
  shows "\<exists>es' es''. r = Inr (int (length msg), s\<lparr>outgoing := es', sent := sent s @ frame msg\<rparr>) \<and>
    libp2p_secio_unencrypted_read peer t = Some (Inr (int (length msg), Some msg, peer\<lparr>incoming := es''\<rparr>)) \<and>
    arriving es'' = Some rest"
proof -
  have "write_data d ws out = Some (ok, ws', out') \<Longrightarrow>
      \<forall>e\<in>set ws. e = Not_Written E_AGAIN \<or> (\<exists>k. e = Wrote k) \<Longrightarrow> ok \<and> out' = out @ d" for d ws out ok ws' out'
    by (induction d ws out rule: write_data.induct) (auto split: if_splits)
  then obtain es' where "write_data msg es (sent s @ htonl (length msg)) = Some (True, es', sent s @ frame msg)"
    using assms(1-6) by (fastforce simp: libp2p_secio_unencrypted_write_def frame_def split: option.splits)
  then have "r = Inr (int (length msg), s\<lparr>outgoing := es', sent := sent s @ frame msg\<rparr>)"
    using assms(1-4,6) by (simp add: libp2p_secio_unencrypted_write_def)
  then show ?thesis using unencrypted_read_frame [OF assms(7,8,1,2), of t] by auto
qed

theorem secio_frame_round_trip_witness:
  "\<exists>s' peer'. libp2p_secio_unencrypted_write
      \<lparr>descriptor = 3, incoming = [], outgoing = [Wrote 4, Not_Written E_AGAIN, Wrote 1, Wrote 5], sent = []\<rparr> [1, 2, 3] =
      Some (Inr (3, s')) \<and> sent s' = [0, 0, 0, 3, 1, 2, 3] \<and>
    libp2p_secio_unencrypted_read
      \<lparr>descriptor = 4, incoming = [Got 0 [0], Got 0 [3, 1], Got 2 [3, 9]], outgoing = [], sent = []\<rparr> 10 =
      Some (Inr (3, Some [1, 2, 3], peer'))"
proof -
  let ?s = "\<lparr>descriptor = 3, incoming = [], outgoing = [Wrote 4, Not_Written E_AGAIN, Wrote 1, Wrote 5], sent = []\<rparr>"
  let ?peer = "\<lparr>descriptor = 4, incoming = [Got 0 [0], Got 0 [3, 1], Got 2 [3, 9]], outgoing = [], sent = []\<rparr>"
  have frame: "frame [1, 2, 3] = [0, 0, 0, 3, 1, 2, 3]" by (simp add: frame_def htonl_def)
  obtain r where r: "libp2p_secio_unencrypted_write ?s [1, 2, 3] = Some r"
    by (simp add: libp2p_secio_unencrypted_write_def)
  obtain es' es'' where "r = Inr (3, ?s\<lparr>outgoing := es', sent := [0, 0, 0, 3, 1, 2, 3]\<rparr>)"
    "libp2p_secio_unencrypted_read ?peer 10 = Some (Inr (3, Some [1, 2, 3], ?peer\<lparr>incoming := es''\<rparr>))"
    using secio_frame_round_trip [of "[1, 2, 3]" ?s 4 "[Not_Written E_AGAIN, Wrote 1, Wrote 5]" r ?peer "[9]" 10] r frame by auto
  then show ?thesis using r by auto
qed

text \<open>
  If the system takes only a part of the size at first, the frame is wrong: the bytes of the size are sent again
  from the first one. With one byte at a time the reader sees a size of zero for every frame below 16 MiB.
\<close>

theorem secio_size_in_parts_is_wrong:
  assumes "outgoing s = [Wrote 1, Wrote 1, Wrote 1, Wrote 1, Wrote k]" and "msg \<noteq> []" and "length msg < 2 ^ 24" and "length msg \<le> k"
    and "0 < descriptor peer" and "arriving (incoming peer) = Some (sent s')"
    and "libp2p_secio_unencrypted_write (s\<lparr>sent := []\<rparr>) msg = Some (Inr (n, s'))"
  shows "n = int (length msg) \<and> sent s' = [0, 0, 0, 0] @ msg \<and>
    (\<exists>peer'. libp2p_secio_unencrypted_read peer t = Some (Inr (0, None, peer')))"
proof -
  have "length msg div 2 ^ 24 = 0" using assms(3) by simp
  then have z: "take (Suc 0) (htonl (length msg)) = [0]" unfolding htonl_def by simp
  then have "write_size (htonl (length msg)) 4 [Wrote 1, Wrote 1, Wrote 1, Wrote 1, Wrote k] [] = Some (True, [Wrote k], [0, 0, 0, 0])"
    by simp
  then have s': "n = int (length msg)" "sent s' = [0, 0, 0, 0] @ msg"
    using assms(1-4,7) by (auto simp: libp2p_secio_unencrypted_write_def)
  have four: "length [0 :: byte, 0, 0, 0] = 4" by simp
  obtain es where "read_size 4 t [] (incoming peer) peer = Some (Inr (Some ([] @ [0, 0, 0, 0]), peer\<lparr>incoming := es\<rparr>))"
    using read_size_arriving [of "incoming peer" "[0, 0, 0, 0]" msg t "[]" peer, unfolded four] assms(6) s'(2) by auto
  then have "\<exists>peer'. libp2p_secio_unencrypted_read peer t = Some (Inr (0, None, peer'))"
    using assms(5) by (auto simp: libp2p_secio_unencrypted_read_def libp2p_secio_get_socket_descriptor_def ntohl_def)
  with s' show ?thesis by simp
qed

theorem secio_size_in_parts_is_wrong_witness:
  "\<exists>n s' peer'. libp2p_secio_unencrypted_write
      \<lparr>descriptor = 3, incoming = [], outgoing = [Wrote 1, Wrote 1, Wrote 1, Wrote 1, Wrote 9], sent = []\<rparr> [1, 2] =
      Some (Inr (n, s')) \<and> n = 2 \<and>
    libp2p_secio_unencrypted_read
      \<lparr>descriptor = 4, incoming = [Got 0 [0, 0, 0, 1, 2]], outgoing = [], sent = []\<rparr> 10 = Some (Inr (0, None, peer'))"
proof -
  let ?s = "\<lparr>descriptor = 3, incoming = [], outgoing = [Wrote 1, Wrote 1, Wrote 1, Wrote 1, Wrote 9], sent = []\<rparr>"
  let ?s' = "\<lparr>descriptor = 3, incoming = [], outgoing = [], sent = [0, 0, 0, 0, 1, 2]\<rparr>"
  let ?peer = "\<lparr>descriptor = 4, incoming = [Got 0 [0, 0, 0, 1, 2]], outgoing = [], sent = []\<rparr>"
  have w: "libp2p_secio_unencrypted_write ?s [1, 2] = Some (Inr (2, ?s'))" by (simp add: libp2p_secio_unencrypted_write_def htonl_def)
  have "outgoing ?s = [Wrote 1, Wrote 1, Wrote 1, Wrote 1, Wrote 9]" "[1, 2 :: byte] \<noteq> []" "length [1, 2 :: byte] < 2 ^ 24"
    "length [1, 2 :: byte] \<le> 9" "0 < descriptor ?peer" "arriving (incoming ?peer) = Some (sent ?s')" by simp_all
  note facts = this
  have "libp2p_secio_unencrypted_write (?s\<lparr>sent := []\<rparr>) [1, 2] = Some (Inr (2, ?s'))" unfolding w [symmetric] by simp
  from secio_size_in_parts_is_wrong [OF facts this]
  obtain peer' where "libp2p_secio_unencrypted_read ?peer 10 = Some (Inr (0, None, peer'))" by blast
  note p = this
  show ?thesis by (intro exI conjI) (rule w, rule refl, rule p)
qed

end
