(* ===== verification/Secio.thy ===== *)
theory Secio
  imports Secio_Frame Peer_Id Peerstore Net_Protocol
begin

text \<open>
  The secure channel of \<open>libp2p/secio/secio.c\<close>: the handshake, and reading and writing afterwards. The
  random numbers, RSA and the elliptic curves are parameters.
\<close>

section \<open>The protocol\<close>

definition secio_protocol :: bytes where
  "secio_protocol = map of_char ''/secio/1.0.0'' @ [10]"

definition libp2p_secio_can_handle :: "stream_message option \<Rightarrow> bool" where
  "libp2p_secio_can_handle msg =
     (case msg of
        None \<Rightarrow> False
      | Some m \<Rightarrow>
          (case msg_data m of
             None \<Rightarrow> False
           | Some d \<Rightarrow>
               12 \<le> length d \<and>
               (strnstr d (map of_char ''/secio/1.0.0'') (length d) = Some 0 \<or>
                strnstr d (map of_char ''/secio/1.0.0'') (length d) = Some 1 \<and> hd d = 13)))"

text \<open>\<open>write_ok\<close> is the answer of the stream to a write, \<open>reply\<close> what a read gives.\<close>

definition libp2p_secio_send_protocol :: "(bytes \<Rightarrow> bool) \<Rightarrow> bool \<times> bytes list" where
  "libp2p_secio_send_protocol write_ok = (write_ok secio_protocol, [secio_protocol])"

definition libp2p_secio_receive_protocol :: "bytes option \<Rightarrow> bool" where
  "libp2p_secio_receive_protocol reply =
     (case reply of None \<Rightarrow> False | Some d \<Rightarrow> strncmp_eq secio_protocol d 13)"

section \<open>Reading and writing\<close>

datatype secio_status = secio_status_unknown | secio_status_initialized | secio_status_syn | secio_status_ack

text \<open>
  \<open>SecioContext\<close>, with the session and the socket below the stream. \<open>buffered\<close> is \<open>buffered_message\<close> with
  \<open>buffered_message_pos\<close>, which is \<open>-1\<close> when there is none.
\<close>

record secio_context =
  sc_session :: secio_session
  sc_status :: secio_status
  sc_sock :: sock
  sc_peers :: peerstore
  sc_buffered :: "(bytes \<times> nat) option"

text \<open>
  What the channel takes from the libraries. \<open>ephemeral_keypair\<close> makes the private key of the curve with its
  public half in the form of TLS, the length before the bytes; \<open>ephemeral_secret\<close> the shared secret.
\<close>

record 'k secio_crypto =
  sha256_of :: "bytes \<Rightarrow> bytes"
  aes_block :: "bytes \<Rightarrow> bytes \<Rightarrow> bytes"
  rsa_sign :: "bytes \<Rightarrow> bytes \<Rightarrow> bytes option"
  rsa_verify :: "bytes \<Rightarrow> bytes \<Rightarrow> bytes \<Rightarrow> bool"
  ephemeral_keypair :: "bytes \<Rightarrow> ('k \<times> bytes) option"
  ephemeral_secret :: "'k \<Rightarrow> bytes \<Rightarrow> bytes option"

text \<open>Until the handshake is through the calls go to the parent stream, an argument.\<close>

definition libp2p_secio_encrypted_write ::
    "'k secio_crypto \<Rightarrow> (sock \<Rightarrow> bytes \<Rightarrow> (int \<times> sock) run) \<Rightarrow> secio_context \<Rightarrow> bytes \<Rightarrow> (int \<times> secio_context) run" where
  "libp2p_secio_encrypted_write c parent_write ctx msg =
     (if sc_status ctx \<noteq> secio_status_ack then
        bind_run (parent_write (sc_sock ctx) msg) (\<lambda>(r, s). Some (Inr (r, ctx\<lparr>sc_sock := s\<rparr>)))
      else
        case libp2p_secio_encrypt (sha256_of c) (aes_block c) (sc_session ctx) msg of
          Inl e \<Rightarrow> Some (if e = Failure then Inr (0, ctx) else Inl e)
        | Inr (out, sess) \<Rightarrow>
            bind_run (libp2p_secio_unencrypted_write (sc_sock ctx) out) (\<lambda>(r, s).
            Some (Inr (r, ctx\<lparr>sc_session := sess, sc_sock := s\<rparr>))))"

definition libp2p_secio_encrypted_read ::
    "'k secio_crypto \<Rightarrow> (sock \<Rightarrow> (int \<times> bytes option \<times> sock) run) \<Rightarrow> secio_context \<Rightarrow>
     (int \<times> bytes option \<times> secio_context) run" where
  "libp2p_secio_encrypted_read c parent_read ctx =
     (if sc_status ctx \<noteq> secio_status_ack then
        bind_run (parent_read (sc_sock ctx)) (\<lambda>(r, m, s). Some (Inr (r, m, ctx\<lparr>sc_sock := s\<rparr>)))
      else
        bind_run (libp2p_secio_unencrypted_read (sc_sock ctx) 10) (\<lambda>(r, m, s).
        let ctx1 = ctx\<lparr>sc_sock := s\<rparr> in
        if r = 0 then Some (Inr (0, None, ctx1))
        else
          case m of
            None \<Rightarrow> Some (Inl Undefined)
          | Some msg \<Rightarrow>
              Some (bind_res (libp2p_secio_decrypt (sha256_of c) (aes_block c) (sc_session ctx) msg) (\<lambda>(n, out, sess).
              Inr (n, out, ctx1\<lparr>sc_session := sess\<rparr>)))))"

text \<open>
  A read into a buffer of the caller. As many bytes as the whole message or the buffer has are copied from the
  position on, and unless that was the end the position becomes their number.
\<close>

definition libp2p_secio_read_raw ::
    "'k secio_crypto \<Rightarrow> (sock \<Rightarrow> (int \<times> bytes option \<times> sock) run) \<Rightarrow> secio_context \<Rightarrow> nat \<Rightarrow>
     (int \<times> bytes \<times> secio_context) run" where
  "libp2p_secio_read_raw c parent_read ctx buffer_size =
     (let copy = (\<lambda>(data, pos) ctx1.
        let max_to_read = min buffer_size (length data) in
        if length data < pos + max_to_read then Some (Inl Undefined)
        else
          Some (Inr (int max_to_read, take max_to_read (drop pos data),
            ctx1\<lparr>sc_buffered := if pos + max_to_read = length data then None else Some (data, max_to_read)\<rparr>)))
      in case sc_buffered ctx of
           Some b \<Rightarrow> copy b ctx
         | None \<Rightarrow>
             bind_run (libp2p_secio_encrypted_read c parent_read ctx) (\<lambda>(r, m, ctx1).
             if r = 0 then Some (Inr (- 1, [], ctx1))
             else case m of None \<Rightarrow> Some (Inl Undefined) | Some data \<Rightarrow> copy (data, 0) ctx1))"

section \<open>The peer at the other end\<close>

fun print_nat :: "nat \<Rightarrow> bytes" where
  "print_nat n = (if n < 10 then [] else print_nat (n div 10)) @ [of_nat (48 + n mod 10)]"

declare print_nat.simps [simp del]

definition print_int :: "int \<Rightarrow> bytes" where
  "print_int i = (if i < 0 then 45 # print_nat (nat (- i)) else print_nat (nat i))"

text \<open>
  The peer that is found or made: one of the store, one that only the function knows (a copy of it is stored), or
  null. \<open>host\<close>, \<open>port\<close> and \<open>me\<close> are those of the session; \<open>to_bytes\<close> converts an address. The string is
  printed into 100 bytes.
\<close>

datatype remote_peer = Stored nat | Fresh | Missing

definition libp2p_secio_get_peer_or_add ::
    "(bytes \<Rightarrow> nat \<Rightarrow> bytes option) \<Rightarrow> session_context \<Rightarrow> bytes option \<Rightarrow> int \<Rightarrow> bytes \<Rightarrow> peerstore \<Rightarrow>
     (remote_peer \<times> peerstore) result" where
  "libp2p_secio_get_peer_or_add to_bytes me host port id_string peers =
     (case libp2p_peerstore_get_peer peers (c_string id_string) of
        Some n \<Rightarrow>
          Inr (Stored n, peers[n := (peers ! n)\<lparr>session := Some me, connection_type := CONNECTION_TYPE_CONNECTED\<rparr>])
      | None \<Rightarrow>
          let p = libp2p_peer_new\<lparr>peer_id := c_string id_string, session := Some me\<rparr> in
          case host of
            None \<Rightarrow> Inl Undefined
          | Some h \<Rightarrow>
              bind_res (libp2p_peer_id_to_string p) (\<lambda>ids.
              let url = map of_char ''/ip4/'' @ c_string h @ map of_char ''/tcp/'' @ print_int port @ map of_char ''/ipfs/'' @ ids
              in if 100 \<le> length url then Inl Undefined
                 else
                   case multiaddress_new_from_string to_bytes url of
                     None \<Rightarrow> Inr (Missing, peers)
                   | Some ma \<Rightarrow>
                       bind_res (libp2p_peerstore_add_peer peers (p\<lparr>addr_list := [Some ma]\<rparr>)) (\<lambda>(ok, peers').
                       Inr (Fresh, peers'))))"

section \<open>The handshake\<close>

text \<open>
  A step of the handshake goes on with a value, or leaves by the label \<open>exit\<close> (\<open>None\<close>).
\<close>

definition step_bind ::
    "('a option \<times> secio_context) run \<Rightarrow> ('a \<Rightarrow> secio_context \<Rightarrow> ('b option \<times> secio_context) run) \<Rightarrow>
     ('b option \<times> secio_context) run" where
  "step_bind m f =
     bind_run m (\<lambda>(r, ctx). case r of None \<Rightarrow> Some (Inr (None, ctx)) | Some x \<Rightarrow> f x ctx)"

definition step_res :: "'a result \<Rightarrow> secio_context \<Rightarrow> ('a option \<times> secio_context) run" where
  "step_res r ctx =
     (case r of
        Inl e \<Rightarrow> Some (if e = Failure then Inr (None, ctx) else Inl e)
      | Inr x \<Rightarrow> Some (Inr (Some x, ctx)))"

definition SupportedExchanges :: bytes where "SupportedExchanges = map of_char ''P-256,P-384,P-521''"
definition SupportedCiphers :: bytes where "SupportedCiphers = map of_char ''AES-256,AES-128,Blowfish''"
definition SupportedHashes :: bytes where "SupportedHashes = map of_char ''SHA256,SHA512''"

text \<open>A message is written, and the handshake left unless all of it went out.\<close>

definition send_all :: "bytes \<Rightarrow> secio_context \<Rightarrow> (unit option \<times> secio_context) run" where
  "send_all msg ctx =
     bind_run (libp2p_secio_unencrypted_write (sc_sock ctx) msg) (\<lambda>(n, s).
     Some (Inr (if n = int (length msg) then Some () else None, ctx\<lparr>sc_sock := s\<rparr>)))"

text \<open>The proposal goes out: it and its bytes. A proposal that could not be made is followed.\<close>

definition handshake_propose ::
    "bytes \<Rightarrow> bytes \<Rightarrow> secio_context \<Rightarrow> ((propose \<times> bytes) option \<times> secio_context) run" where
  "handshake_propose nonce public_der ctx =
     (let ctx1 = ctx\<lparr>sc_session := (sc_session ctx)\<lparr>local_nonce := take 16 nonce\<rparr>\<rparr> in
      case libp2p_secio_propose_build nonce public_der SupportedExchanges SupportedCiphers SupportedHashes of
        Inl e \<Rightarrow> Some (Inl (if e = Failure then Undefined else e))
      | Inr propose_out \<Rightarrow>
          step_bind (step_res (libp2p_secio_propose_protobuf_encode propose_out
            (libp2p_secio_propose_protobuf_encode_size propose_out)) ctx1) (\<lambda>bytes ctx2.
          step_bind (send_all bytes ctx2) (\<lambda>u ctx3. Some (Inr (Some (propose_out, bytes), ctx3)))))"

text \<open>
  The other proposal comes in: it and its bytes. One that cannot be decoded is freed by the decoder and
  again at the label \<open>exit\<close>.
\<close>

definition handshake_receive_propose :: "secio_context \<Rightarrow> ((propose \<times> bytes) option \<times> secio_context) run" where
  "handshake_receive_propose ctx =
     bind_run (libp2p_secio_unencrypted_read (sc_sock ctx) 10) (\<lambda>(n, msg, s).
     let ctx1 = ctx\<lparr>sc_sock := s\<rparr> in
     if n = 0 then Some (Inr (None, ctx1))
     else
       case msg of
         None \<Rightarrow> Some (Inl Undefined)
       | Some bytes \<Rightarrow>
           (case libp2p_secio_propose_protobuf_decode bytes of
              None \<Rightarrow> None
            | Some (Inl e) \<Rightarrow> Some (Inl (if e = Failure then Undefined else e))
            | Some (Inr propose_in) \<Rightarrow>
                if length (p_rand propose_in) \<noteq> 16 then Some (Inr (None, ctx1))
                else
                  Some (Inr (Some (propose_in, bytes),
                    ctx1\<lparr>sc_session := (sc_session ctx1)\<lparr>remote_nonce := p_rand propose_in\<rparr>\<rparr>))))"

text \<open>
  Who is at the other end, and what is spoken: the public key, the peer, the order and the ephemeral key. The
  result of making the id is not looked at; without one a null pointer is followed. A key that cannot be decoded is freed twice.
\<close>

definition handshake_negotiate ::
    "'k secio_crypto \<Rightarrow> (bytes \<Rightarrow> nat \<Rightarrow> bytes option) \<Rightarrow> session_context \<Rightarrow> bytes option \<Rightarrow> int \<Rightarrow>
     propose \<Rightarrow> propose \<Rightarrow> secio_context \<Rightarrow> ((crypto_key \<times> remote_peer \<times> int \<times> 'k \<times> bytes) option \<times> secio_context) run" where
  "handshake_negotiate c to_bytes me host port propose_in propose_out ctx =
     (case libp2p_crypto_public_key_protobuf_decode (p_public_key propose_in) of
        None \<Rightarrow> None
      | Some (Inl e) \<Rightarrow> Some (Inl (if e = Failure then Undefined else e))
      | Some (Inr public_key) \<Rightarrow>
          (case libp2p_crypto_public_key_to_peer_id (sha256_of c) public_key of
             Inl e \<Rightarrow> Some (Inl (if e = Failure then Undefined else e))
           | Inr id_string \<Rightarrow>
               let ctx1 = ctx\<lparr>sc_session := (sc_session ctx)\<lparr>remote_peer_id := c_string id_string\<rparr>\<rparr> in
               bind_run (Some (libp2p_secio_get_peer_or_add to_bytes me host port id_string (sc_peers ctx1))) (\<lambda>(remote, peers).
               bind_run (Some (libp2p_secio_determine_order (sha256_of c) propose_in propose_out)) (\<lambda>order.
               step_bind (step_res (libp2p_secio_select_best order (p_exchanges propose_out) (p_exchanges propose_in))
                 (ctx1\<lparr>sc_peers := peers\<rparr>)) (\<lambda>curve ctx2.
               step_bind (step_res (libp2p_secio_select_best order (p_ciphers propose_out) (p_ciphers propose_in))
                 (ctx2\<lparr>sc_session := (sc_session ctx2)\<lparr>chosen_curve := curve\<rparr>\<rparr>)) (\<lambda>cipher ctx3.
               step_bind (step_res (libp2p_secio_select_best order (p_hashes propose_out) (p_hashes propose_in))
                 (ctx3\<lparr>sc_session := (sc_session ctx3)\<lparr>chosen_cipher := cipher\<rparr>\<rparr>)) (\<lambda>hash ctx4.
               let ctx5 = ctx4\<lparr>sc_session := (sc_session ctx4)\<lparr>chosen_hash := hash\<rparr>\<rparr> in
               case ephemeral_keypair c curve of
                 None \<Rightarrow> Some (Inr (None, ctx5))
               | Some (private, bytes) \<Rightarrow> Some (Inr (Some (public_key, remote, order, private, bytes), ctx5)))))))))"

text \<open>
  The signed public halves of the ephemeral keys are exchanged: the other one, with its length in front.
  An exchange that cannot be decoded is used after it was freed. On an empty read the peer loses its
  connection; a null peer is followed there. The result of encoding is not looked at: the estimated size is always enough.
\<close>

definition handshake_exchange ::
    "'k secio_crypto \<Rightarrow> bytes \<Rightarrow> bytes \<Rightarrow> bytes \<Rightarrow> crypto_key \<Rightarrow> remote_peer \<Rightarrow> bytes \<Rightarrow> secio_context \<Rightarrow>
     (bytes option \<times> secio_context) run" where
  "handshake_exchange c private_der propose_out_bytes propose_in_bytes public_key remote ephemeral_bytes ctx =
     step_bind (step_res (libp2p_secio_exchange_build (\<lambda>k. rsa_sign c (key_data k)) ephemeral_bytes private_der
         (propose_out_bytes @ propose_in_bytes @ tl ephemeral_bytes)) ctx) (\<lambda>exchange_out ctx1.
     step_bind (step_res (libp2p_secio_exchange_protobuf_encode exchange_out
         (libp2p_secio_exchange_protobuf_encode_size exchange_out)) ctx1) (\<lambda>protobuf ctx2.
     step_bind (send_all protobuf ctx2) (\<lambda>u ctx3.
     bind_run (libp2p_secio_unencrypted_read (sc_sock ctx3) 10) (\<lambda>(n, msg, s).
     let ctx4 = ctx3\<lparr>sc_sock := s\<rparr> in
     if n = 0 then
       (case remote of
          Missing \<Rightarrow> Some (Inl Undefined)
        | Fresh \<Rightarrow> Some (Inr (None, ctx4))
        | Stored i \<Rightarrow>
            Some (Inr (None, ctx4\<lparr>sc_peers := (sc_peers ctx4)[i := libp2p_peer_handle_connection_error (sc_peers ctx4 ! i)]\<rparr>)))
     else
       case msg of
         None \<Rightarrow> Some (Inl Undefined)
       | Some bytes \<Rightarrow>
           (case libp2p_secio_exchange_protobuf_decode bytes of
              None \<Rightarrow> None
            | Some (Inl e) \<Rightarrow> Some (Inl (if e = Failure then Undefined else e))
            | Some (Inr exchange_in) \<Rightarrow>
                if key_type public_key = KEYTYPE_RSA \<and>
                   rsa_verify c (key_data public_key) (propose_in_bytes @ propose_out_bytes @ ex_epubkey exchange_in)
                     (ex_signature exchange_in)
                then Some (Inr (Some (of_nat (length (ex_epubkey exchange_in)) # ex_epubkey exchange_in), ctx4))
                else Some (Inr (None, ctx4)))))))"

text \<open>The keys are made from the shared secret, and given to the two directions by the order.\<close>

definition handshake_keys ::
    "'k secio_crypto \<Rightarrow> int \<Rightarrow> 'k \<Rightarrow> bytes \<Rightarrow> secio_context \<Rightarrow> (unit option \<times> secio_context) run" where
  "handshake_keys c order private remote_ephemeral_public_key ctx =
     (case ephemeral_secret c private remote_ephemeral_public_key of
        None \<Rightarrow> Some (Inr (None, ctx))
      | Some secret \<Rightarrow>
          let s = (sc_session ctx)\<lparr>shared_key := secret\<rparr> in
          step_bind (step_res (libp2p_secio_stretch_keys (sha256_of c) (chosen_cipher s) secret)
            (ctx\<lparr>sc_session := s\<rparr>)) (\<lambda>(k1, k2) ctx1.
          let (l, r) = (if 0 < order then (k1, k2) else (k2, k1));
              prepare = (\<lambda>k. snd (libp2p_secio_make_mac_and_cipher (chosen_hash s) (chosen_cipher s) k))
          in if chosen_hash s \<notin> {map of_char ''SHA1'', map of_char ''SHA512'', map of_char ''SHA256''}
             then Some (Inr (None,
               ctx1\<lparr>sc_session := s\<lparr>local_stretched_key := Some l, remote_stretched_key := Some r\<rparr>\<rparr>))
             else
               Some (Inr (Some (),
                 ctx1\<lparr>sc_session := libp2p_secio_initialize_crypto
                     (s\<lparr>local_stretched_key := Some (prepare l), remote_stretched_key := Some (prepare r)\<rparr>),
                   sc_status := secio_status_ack\<rparr>))))"

text \<open>Each end sends the nonce of the other one through the channel.\<close>

definition handshake_verify ::
    "'k secio_crypto \<Rightarrow> (sock \<Rightarrow> bytes \<Rightarrow> (int \<times> sock) run) \<Rightarrow> (sock \<Rightarrow> (int \<times> bytes option \<times> sock) run) \<Rightarrow>
     secio_context \<Rightarrow> (unit option \<times> secio_context) run" where
  "handshake_verify c parent_write parent_read ctx =
     bind_run (libp2p_secio_encrypted_write c parent_write ctx (remote_nonce (sc_session ctx))) (\<lambda>(n, ctx1).
     if n \<le> 0 then Some (Inr (None, ctx1))
     else
       bind_run (libp2p_secio_encrypted_read c parent_read ctx1) (\<lambda>(m, msg, ctx2).
       case msg of
         None \<Rightarrow> Some (Inr (None, ctx2))
       | Some bytes \<Rightarrow>
           if m \<le> 0 \<or> length bytes \<noteq> 16 then Some (Inr (None, ctx2))
           else
             bind_run (Some (libp2p_secio_bytes_compare bytes (local_nonce (sc_session ctx2)) 16)) (\<lambda>r.
             Some (Inr (if r = 0 then Some () else None, ctx2)))))"

definition libp2p_secio_handshake ::
    "'k secio_crypto \<Rightarrow> (sock \<Rightarrow> bytes \<Rightarrow> (int \<times> sock) run) \<Rightarrow> (sock \<Rightarrow> (int \<times> bytes option \<times> sock) run) \<Rightarrow>
     (bytes \<Rightarrow> nat \<Rightarrow> bytes option) \<Rightarrow> session_context \<Rightarrow> bytes option \<Rightarrow> int \<Rightarrow> bytes \<Rightarrow> bytes \<Rightarrow> bytes \<Rightarrow>
     secio_context \<Rightarrow> (bool \<times> secio_context) run" where
  "libp2p_secio_handshake c parent_write parent_read to_bytes me host port nonce public_der private_der ctx =
     bind_run
       (step_bind (handshake_propose nonce public_der ctx) (\<lambda>(propose_out, out_bytes) ctx1.
        step_bind (handshake_receive_propose ctx1) (\<lambda>(propose_in, in_bytes) ctx2.
        step_bind (handshake_negotiate c to_bytes me host port propose_in propose_out ctx2)
          (\<lambda>(public_key, remote, order, private, ephemeral_bytes) ctx3.
        step_bind (handshake_exchange c private_der out_bytes in_bytes public_key remote ephemeral_bytes ctx3) (\<lambda>key ctx4.
        step_bind (handshake_keys c order private key ctx4) (\<lambda>u ctx5.
        handshake_verify c parent_write parent_read ctx5))))))
     (\<lambda>(r, ctx'). Some (Inr (r \<noteq> None, ctx')))"

text \<open>A negotiation that comes in: zero when the handshake succeeded.\<close>

definition libp2p_secio_handle_message :: "(secio_context \<Rightarrow> (bool \<times> secio_context) run) \<Rightarrow> secio_context \<Rightarrow> (int \<times> secio_context) run" where
  "libp2p_secio_handle_message handshake ctx =
     bind_run (handshake ctx) (\<lambda>(ok, ctx'). Some (Inr (if ok then 0 else - 1, ctx')))"

end
