(* ===== verification/Secio_Session.thy ===== *)
theory Secio_Session
  imports Secio
begin

text \<open>
  What two nodes agree on when each runs the handshake of \<open>Secio\<close> with the other, and what a node does with
  something else at the other end.
\<close>

section \<open>The steps of the handshake\<close>

lemma step_bind_simps [simp]:
  "step_bind None f = None"
  "step_bind (Some (Inl e)) f = Some (Inl e)"
  "step_bind (Some (Inr (None, ctx))) f = Some (Inr (None, ctx))"
  "step_bind (Some (Inr (Some x, ctx))) f = f x ctx"
  by (simp_all add: step_bind_def)

lemma step_res_simps [simp]:
  "step_res (Inr x) ctx = Some (Inr (Some x, ctx))"
  "step_res (Inl Failure) ctx = Some (Inr (None, ctx))"
  by (simp_all add: step_res_def)

definition curve_name :: bytes where "curve_name = map of_char ''P-256''"
definition cipher_name :: bytes where "cipher_name = map of_char ''AES-256''"
definition hash_name_chosen :: bytes where "hash_name_chosen = map of_char ''SHA256''"

lemma first_match_self: "xs \<noteq> [] \<Longrightarrow> first_match xs xs = Some (hd xs)"
  by (cases xs) auto

lemma select_best_self:
  assumes "libp2p_secio_split_list l = x # xs"
  shows "libp2p_secio_select_best order l l = Inr x"
  by (simp add: libp2p_secio_select_best_def assms Let_def)

lemma supported_choices:
  "libp2p_secio_select_best order SupportedExchanges SupportedExchanges = Inr curve_name"
  "libp2p_secio_select_best order SupportedCiphers SupportedCiphers = Inr cipher_name"
  "libp2p_secio_select_best order SupportedHashes SupportedHashes = Inr hash_name_chosen"
proof -
  have "libp2p_secio_split_list SupportedExchanges = curve_name # map (map of_char) [''P-384'', ''P-521'']"
    "libp2p_secio_split_list SupportedCiphers = cipher_name # map (map of_char) [''AES-128'', ''Blowfish'']"
    "libp2p_secio_split_list SupportedHashes = hash_name_chosen # [map of_char ''SHA512'']" by code_simp+
  then show "libp2p_secio_select_best order SupportedExchanges SupportedExchanges = Inr curve_name"
    "libp2p_secio_select_best order SupportedCiphers SupportedCiphers = Inr cipher_name"
    "libp2p_secio_select_best order SupportedHashes SupportedHashes = Inr hash_name_chosen"
    by (simp_all add: select_best_self)
qed

lemma supported_strings:
  "c_string SupportedExchanges = SupportedExchanges" "c_string SupportedCiphers = SupportedCiphers"
  "c_string SupportedHashes = SupportedHashes" "length SupportedExchanges = 17" "length SupportedCiphers = 24"
  "length SupportedHashes = 13"
  by code_simp+

section \<open>Parties\<close>

text \<open>
  What a node brings: its nonce, its RSA key, and the ephemeral key it draws for the curve, whose public half has its
  length in front.
\<close>

record 'k party =
  pt_nonce :: bytes
  pt_public :: bytes
  pt_private :: bytes
  pt_key :: 'k
  pt_point :: bytes

definition public_key_of :: "'k party \<Rightarrow> crypto_key" where
  "public_key_of p = \<lparr>key_type = KEYTYPE_RSA, key_data = pt_public p\<rparr>"

definition proposal :: "'k party \<Rightarrow> propose" where
  "proposal p =
     \<lparr>p_rand = pt_nonce p, p_public_key = wire (key_fields (public_key_of p)), p_exchanges = SupportedExchanges,
      p_ciphers = SupportedCiphers, p_hashes = SupportedHashes\<rparr>"

definition proposal_bytes :: "'k party \<Rightarrow> bytes" where
  "proposal_bytes p = wire (propose_fields (proposal p))"

definition signed_by :: "'k secio_crypto \<Rightarrow> 'k party \<Rightarrow> 'k party \<Rightarrow> bytes" where
  "signed_by c p q =
     (case rsa_sign c (pt_private p) (proposal_bytes p @ proposal_bytes q @ tl (pt_point p)) of None \<Rightarrow> [] | Some s \<Rightarrow> s)"

definition exchange_bytes :: "'k secio_crypto \<Rightarrow> 'k party \<Rightarrow> 'k party \<Rightarrow> bytes" where
  "exchange_bytes c p q = wire (exchange_fields \<lparr>ex_epubkey = tl (pt_point p), ex_signature = signed_by c p q\<rparr>)"

text \<open>
  What is taken of the libraries: signatures are verified by the public key, and both ends compute the same secret.
\<close>

definition party_ok :: "'k secio_crypto \<Rightarrow> 'k party \<Rightarrow> bool" where
  "party_ok c p \<longleftrightarrow>
     length (pt_nonce p) = 16 \<and> length (pt_public p) < 2 ^ 20 \<and> length (pt_point p) < 2 ^ 20 \<and>
     pt_point p = of_nat (length (pt_point p) - 1) # tl (pt_point p) \<and>
     (\<forall>m. \<exists>s. rsa_sign c (pt_private p) m = Some s \<and> rsa_verify c (pt_public p) m s \<and> length s < 2 ^ 20)"

definition secret_ok :: "'k secio_crypto \<Rightarrow> 'k party \<Rightarrow> 'k party \<Rightarrow> bytes \<Rightarrow> bool" where
  "secret_ok c p q secret \<longleftrightarrow>
     ephemeral_secret c (pt_key p) (pt_point q) = Some secret \<and> ephemeral_secret c (pt_key q) (pt_point p) = Some secret"

lemma public_key_bytes:
  assumes "length (pt_public p) < 2 ^ 20"
  shows "libp2p_crypto_public_key_protobuf_encode (public_key_of p) (libp2p_crypto_public_key_protobuf_encode_size (public_key_of p)) =
      Inr (wire (key_fields (public_key_of p)))"
    and "libp2p_crypto_public_key_protobuf_decode (wire (key_fields (public_key_of p))) = Some (Inr (public_key_of p))"
    and "length (wire (key_fields (public_key_of p))) < 2 ^ 21"
proof -
  have s: "libp2p_crypto_public_key_protobuf_encode_size (public_key_of p) < 2 ^ 21"
    using assms by (simp add: libp2p_crypto_public_key_protobuf_encode_size_def public_key_of_def)
  then have s': "libp2p_crypto_public_key_protobuf_encode_size (public_key_of p) < 2 ^ 31" by simp
  show "libp2p_crypto_public_key_protobuf_encode (public_key_of p) (libp2p_crypto_public_key_protobuf_encode_size (public_key_of p)) =
      Inr (wire (key_fields (public_key_of p)))"
    using public_key_codec.enc_estimated [OF _ s'] by simp
  show "libp2p_crypto_public_key_protobuf_decode (wire (key_fields (public_key_of p))) = Some (Inr (public_key_of p))"
    using public_key_codec.dec_embedded [OF _ s'] by simp
  show "length (wire (key_fields (public_key_of p))) < 2 ^ 21"
    using public_key_codec.sz_enough [OF _ s'] s by simp
qed

lemma proposal_bytes:
  assumes "party_ok c p"
  shows "libp2p_secio_propose_build (pt_nonce p) (pt_public p) SupportedExchanges SupportedCiphers SupportedHashes = Inr (proposal p)"
    and "libp2p_secio_propose_protobuf_encode (proposal p) (libp2p_secio_propose_protobuf_encode_size (proposal p)) = Inr (proposal_bytes p)"
    and "libp2p_secio_propose_protobuf_decode (proposal_bytes p) = Some (Inr (proposal p))"
    and "proposal_bytes p \<noteq> []" and "length (proposal_bytes p) < 2 ^ 31"
proof -
  have p: "length (pt_nonce p) = 16" "length (pt_public p) < 2 ^ 20" using assms by (simp_all add: party_ok_def)
  note key = public_key_bytes [OF p(2)]
  show "libp2p_secio_propose_build (pt_nonce p) (pt_public p) SupportedExchanges SupportedCiphers SupportedHashes = Inr (proposal p)"
    using p key(1) supported_strings
    by (simp add: libp2p_secio_propose_build_def proposal_def malloc_ok_def strlen_def public_key_of_def
        libp2p_crypto_public_key_protobuf_encode_size_def)
  have s: "libp2p_secio_propose_protobuf_encode_size (proposal p) < 2 ^ 31"
    using p(1) key(3) supported_strings by (simp add: libp2p_secio_propose_protobuf_encode_size_def proposal_def)
  show "libp2p_secio_propose_protobuf_encode (proposal p) (libp2p_secio_propose_protobuf_encode_size (proposal p)) = Inr (proposal_bytes p)"
    and "libp2p_secio_propose_protobuf_decode (proposal_bytes p) = Some (Inr (proposal p))"
    and "length (proposal_bytes p) < 2 ^ 31"
    using propose_codec.enc_estimated [OF _ s] propose_codec.dec_embedded [OF _ s] propose_codec.sz_enough [OF _ s] s
    by (simp_all add: proposal_bytes_def)
  show "proposal_bytes p \<noteq> []" by (simp add: proposal_bytes_def propose_fields_def)
qed

lemma party_point: "party_ok c p \<Longrightarrow> of_nat (length (pt_point p) - Suc 0) # tl (pt_point p) = pt_point p"
  by (simp add: party_ok_def)

lemma exchange_bytes:
  fixes q :: "'k party"
  assumes "party_ok c p"
  defines "x \<equiv> \<lparr>ex_epubkey = tl (pt_point p), ex_signature = signed_by c p q\<rparr>"
  shows "libp2p_secio_exchange_build (\<lambda>k. rsa_sign c (key_data k)) (pt_point p) (pt_private p)
      (proposal_bytes p @ proposal_bytes q @ tl (pt_point p)) = Inr x"
    and "libp2p_secio_exchange_protobuf_encode x (libp2p_secio_exchange_protobuf_encode_size x) = Inr (exchange_bytes c p q)"
    and "libp2p_secio_exchange_protobuf_decode (exchange_bytes c p q) = Some (Inr x)"
    and "exchange_bytes c p q \<noteq> []" and "length (exchange_bytes c p q) < 2 ^ 31"
    and "rsa_verify c (pt_public p) (proposal_bytes p @ proposal_bytes q @ tl (pt_point p)) (signed_by c p q)"
proof -
  have point: "length (pt_point p) < 2 ^ 20" "pt_point p \<noteq> []"
    using assms(1) by (auto simp: party_ok_def)
  obtain s where s: "rsa_sign c (pt_private p) (proposal_bytes p @ proposal_bytes q @ tl (pt_point p)) = Some s"
    "rsa_verify c (pt_public p) (proposal_bytes p @ proposal_bytes q @ tl (pt_point p)) s" "length s < 2 ^ 20"
    using assms(1) by (auto simp: party_ok_def)
  then have signed: "signed_by c p q = s" by (simp add: signed_by_def)
  show "rsa_verify c (pt_public p) (proposal_bytes p @ proposal_bytes q @ tl (pt_point p)) (signed_by c p q)"
    using s(2) signed by simp
  show "libp2p_secio_exchange_build (\<lambda>k. rsa_sign c (key_data k)) (pt_point p) (pt_private p)
      (proposal_bytes p @ proposal_bytes q @ tl (pt_point p)) = Inr x"
    using point s(1) signed by (simp add: libp2p_secio_exchange_build_def x_def malloc_ok_def)
  have e: "libp2p_secio_exchange_protobuf_encode_size x < 2 ^ 31"
    using point(1) s(3) signed by (simp add: libp2p_secio_exchange_protobuf_encode_size_def x_def)
  show "libp2p_secio_exchange_protobuf_encode x (libp2p_secio_exchange_protobuf_encode_size x) = Inr (exchange_bytes c p q)"
    and "libp2p_secio_exchange_protobuf_decode (exchange_bytes c p q) = Some (Inr x)" and "length (exchange_bytes c p q) < 2 ^ 31"
    using exchange_codec.enc_estimated [OF _ e] exchange_codec.dec_embedded [OF _ e] exchange_codec.sz_enough [OF _ e] e
    by (simp_all add: exchange_bytes_def x_def)
  show "exchange_bytes c p q \<noteq> []" by (simp add: exchange_bytes_def exchange_fields_def)
qed

section \<open>One end\<close>

text \<open>The socket of an end that can write \<open>n\<close> more frames and to which \<open>bs\<close> is coming.\<close>

definition wired :: "nat \<Rightarrow> bytes \<Rightarrow> sock \<Rightarrow> bool" where
  "wired n bs s \<longleftrightarrow> writable (2 * n) s \<and> 0 < descriptor s \<and> arriving (incoming s) = Some bs"

lemma wired_write:
  assumes "wired (Suc n) bs s" and "msg \<noteq> []" and "length msg < 2 ^ 31"
  shows "\<exists>s'. libp2p_secio_unencrypted_write s msg = Some (Inr (int (length msg), s')) \<and> wired n bs s' \<and>
    sent s' = sent s @ frame msg"
proof -
  have "writable (Suc (Suc (2 * n))) s" using assms(1) by (simp add: wired_def)
  from unencrypted_write_frame [OF this assms(2,3)] obtain es where
    "libp2p_secio_unencrypted_write s msg = Some (Inr (int (length msg), s\<lparr>outgoing := es, sent := sent s @ frame msg\<rparr>))"
    "writable (2 * n) (s\<lparr>outgoing := es, sent := sent s @ frame msg\<rparr>)" by blast
  then show ?thesis using assms(1)
    by (intro exI [of _ "s\<lparr>outgoing := es, sent := sent s @ frame msg\<rparr>"]) (simp add: wired_def)
qed

lemma wired_read:
  assumes "wired n (frame msg @ rest) s" and "msg \<noteq> []" and "length msg < 2 ^ 31"
  shows "\<exists>s'. libp2p_secio_unencrypted_read s t = Some (Inr (int (length msg), Some msg, s')) \<and> wired n rest s' \<and> sent s' = sent s"
proof -
  have "0 < descriptor s" "arriving (incoming s) = Some (frame msg @ rest)" using assms(1) by (simp_all add: wired_def)
  from unencrypted_read_frame [OF this assms(2,3), of t] obtain es where
    "libp2p_secio_unencrypted_read s t = Some (Inr (int (length msg), Some msg, s\<lparr>incoming := es\<rparr>))" "arriving es = Some rest" by blast
  then show ?thesis using assms(1)
    by (intro exI [of _ "s\<lparr>incoming := es\<rparr>"]) (simp add: wired_def writable_def)
qed

lemma send_all_wired:
  assumes "wired (Suc n) bs (sc_sock ctx)" and "msg \<noteq> []" and "length msg < 2 ^ 31"
  shows "\<exists>s'. send_all msg ctx = Some (Inr (Some (), ctx\<lparr>sc_sock := s'\<rparr>)) \<and> wired n bs s' \<and>
    sent s' = sent (sc_sock ctx) @ frame msg"
  using wired_write [OF assms] by (auto simp: send_all_def)

lemma handshake_propose_ok:
  assumes "party_ok c p" and "wired (Suc n) bs (sc_sock ctx)"
  shows "\<exists>s'. handshake_propose (pt_nonce p) (pt_public p) ctx =
      Some (Inr (Some (proposal p, proposal_bytes p),
        ctx\<lparr>sc_session := (sc_session ctx)\<lparr>local_nonce := pt_nonce p\<rparr>, sc_sock := s'\<rparr>)) \<and>
    wired n bs s' \<and> sent s' = sent (sc_sock ctx) @ frame (proposal_bytes p)"
proof -
  note b = proposal_bytes [OF assms(1)]
  have t: "take 16 (pt_nonce p) = pt_nonce p" using assms(1) by (simp add: party_ok_def)
  let ?ctx = "ctx\<lparr>sc_session := (sc_session ctx)\<lparr>local_nonce := pt_nonce p\<rparr>\<rparr>"
  have "wired (Suc n) bs (sc_sock ?ctx)" using assms(2) by simp
  from send_all_wired [OF this b(4,5)] show ?thesis
    using b(1,2) t by (auto simp: handshake_propose_def)
qed

lemma handshake_receive_propose_ok:
  assumes "party_ok c q" and "wired n (frame (proposal_bytes q) @ rest) (sc_sock ctx)"
  shows "\<exists>s'. handshake_receive_propose ctx =
      Some (Inr (Some (proposal q, proposal_bytes q),
        ctx\<lparr>sc_sock := s', sc_session := (sc_session ctx)\<lparr>remote_nonce := pt_nonce q\<rparr>\<rparr>)) \<and>
    wired n rest s' \<and> sent s' = sent (sc_sock ctx)"
proof -
  note b = proposal_bytes [OF assms(1)]
  have "p_rand (proposal q) = pt_nonce q" "length (pt_nonce q) = 16"
    using assms(1) by (simp_all add: party_ok_def proposal_def)
  then show ?thesis using wired_read [OF assms(2) b(4,5), of 10] b(3,4)
    by (auto simp: handshake_receive_propose_def)
qed

lemma handshake_exchange_ok:
  assumes "party_ok c p" and "party_ok c q" and "wired (Suc n) (frame (exchange_bytes c q p) @ rest) (sc_sock ctx)"
  shows "\<exists>s'. handshake_exchange (c\<lparr>ephemeral_keypair := g\<rparr>) (pt_private p) (proposal_bytes p) (proposal_bytes q)
      (public_key_of q) remote (pt_point p) ctx = Some (Inr (Some (pt_point q), ctx\<lparr>sc_sock := s'\<rparr>)) \<and>
    wired n rest s' \<and> sent s' = sent (sc_sock ctx) @ frame (exchange_bytes c p q)"
proof -
  note out = exchange_bytes [OF assms(1), of q] and inc = exchange_bytes [OF assms(2), of p]
  obtain s1 where s1: "send_all (exchange_bytes c p q) ctx = Some (Inr (Some (), ctx\<lparr>sc_sock := s1\<rparr>))"
    "wired n (frame (exchange_bytes c q p) @ rest) s1" "sent s1 = sent (sc_sock ctx) @ frame (exchange_bytes c p q)"
    using send_all_wired [OF assms(3) out(4,5)] by blast
  obtain s2 where s2: "libp2p_secio_unencrypted_read s1 10 =
      Some (Inr (int (length (exchange_bytes c q p)), Some (exchange_bytes c q p), s2))" "wired n rest s2" "sent s2 = sent s1"
    using wired_read [OF s1(2) inc(4,5), of 10] by blast
  have "exchange_bytes c q p \<noteq> []" by (rule inc(4))
  then show ?thesis
    using s1 s2 out(1,2) inc(3,6) party_point [OF assms(2)]
    by (intro exI [of _ s2]) (simp add: handshake_exchange_def public_key_of_def)
qed

definition negotiated :: "'k party \<Rightarrow> 'k party \<Rightarrow> bytes \<Rightarrow> secio_session \<Rightarrow> secio_session" where
  "negotiated p q id_string s =
     s\<lparr>local_nonce := pt_nonce p, remote_nonce := pt_nonce q, remote_peer_id := c_string id_string,
       chosen_curve := curve_name, chosen_cipher := cipher_name, chosen_hash := hash_name_chosen\<rparr>"

lemma handshake_negotiate_ok:
  assumes "party_ok c p" and "party_ok c q"
    and "libp2p_crypto_public_key_to_peer_id (sha256_of c) (public_key_of q) = Inr id_string"
    and "libp2p_secio_get_peer_or_add to_bytes me host port id_string (sc_peers ctx) = Inr (remote, peers)"
    and "libp2p_secio_determine_order (sha256_of c) (proposal q) (proposal p) = Inr order"
    and "g curve_name = Some (pt_key p, pt_point p)"
    and "local_nonce (sc_session ctx) = pt_nonce p" and "remote_nonce (sc_session ctx) = pt_nonce q"
  shows "handshake_negotiate (c\<lparr>ephemeral_keypair := g\<rparr>) to_bytes me host port (proposal q) (proposal p) ctx =
    Some (Inr (Some (public_key_of q, remote, order, pt_key p, pt_point p),
      ctx\<lparr>sc_session := negotiated p q id_string (sc_session ctx), sc_peers := peers\<rparr>))"
proof -
  have key: "libp2p_crypto_public_key_protobuf_decode (p_public_key (proposal q)) = Some (Inr (public_key_of q))"
    using public_key_bytes(2) [of q] assms(2) by (simp add: proposal_def party_ok_def)
  have lists: "p_exchanges (proposal r) = SupportedExchanges" "p_ciphers (proposal r) = SupportedCiphers"
    "p_hashes (proposal r) = SupportedHashes" for r :: "'a party" by (simp_all add: proposal_def)
  show ?thesis
    using key assms(3-8) supported_choices
    by (simp add: handshake_negotiate_def lists negotiated_def)
qed

text \<open>The session of an end when its keys are set.\<close>

definition key_pair :: "'k secio_crypto \<Rightarrow> bytes \<Rightarrow> stretched_key \<times> stretched_key" where
  "key_pair c secret = (case libp2p_secio_stretch_keys (sha256_of c) cipher_name secret of Inr ks \<Rightarrow> ks)"

definition secured :: "'k secio_crypto \<Rightarrow> bytes \<Rightarrow> int \<Rightarrow> secio_session \<Rightarrow> secio_session" where
  "secured c secret order s =
     (let (k1, k2) = key_pair c secret in
      libp2p_secio_initialize_crypto (s\<lparr>shared_key := secret,
        local_stretched_key := Some (if 0 < order then k1 else k2),
        remote_stretched_key := Some (if 0 < order then k2 else k1)\<rparr>))"

lemma cipher_name_sizes: "cipher_sizes cipher_name = Some (16, 32)"
  by (simp add: cipher_sizes_def cipher_name_def)

lemma key_pair:
  assumes "sha_ok (sha256_of c)"
  shows "\<exists>k1 k2. key_pair c secret = (k1, k2) \<and> libp2p_secio_stretch_keys (sha256_of c) cipher_name secret = Inr (k1, k2) \<and>
    (\<forall>k\<in>{k1, k2}. length (k_iv k) = 16 \<and> length (k_cipher_key k) = 32 \<and> length (k_mac_key k) = 20 \<and> k_mac_size k = 20)"
proof -
  note eq = stretch_keys_eq [OF assms cipher_name_sizes, of secret]
  define stream where "stream = stretch_fill (mbedtls_md_hmac (sha256_of c) secret) key_seed
    (mbedtls_md_hmac (sha256_of c) secret key_seed) (2 * (16 + 32 * 20))"
  have "length stream = 1312" unfolding stream_def eq(2) by simp
  then show ?thesis
    using eq(1) [folded stream_def] stretched_sizes [of 16 32 stream] stretched_sizes [of 16 32 "drop (16 + 32 + 20) stream"]
    by (simp add: key_pair_def)
qed

lemma handshake_keys_ok:
  assumes "sha_ok (sha256_of c)" and "ephemeral_secret c private point = Some secret"
    and "chosen_cipher (sc_session ctx) = cipher_name" and "chosen_hash (sc_session ctx) = hash_name_chosen"
  shows "handshake_keys (c\<lparr>ephemeral_keypair := g\<rparr>) order private point ctx =
    Some (Inr (Some (), ctx\<lparr>sc_session := secured c secret order (sc_session ctx), sc_status := secio_status_ack\<rparr>))"
proof -
  obtain k1 k2 where k: "key_pair c secret = (k1, k2)" "libp2p_secio_stretch_keys (sha256_of c) cipher_name secret = Inr (k1, k2)"
    using key_pair [OF assms(1), of secret] by blast
  have "hash_name_chosen = map of_char ''SHA256''" "cipher_name \<noteq> map of_char ''AES-128''" by code_simp+
  moreover have "snd (libp2p_secio_make_mac_and_cipher (map of_char ''SHA256'') cipher_name k) = k" for k
    by (simp add: libp2p_secio_make_mac_and_cipher_def)
  ultimately show ?thesis
    using k assms(2-4) by (cases "0 < order") (simp_all add: handshake_keys_def secured_def Let_def)
qed

lemma handshake_verify_ok:
  assumes "sc_status ctx = secio_status_ack" and "wired (Suc n) (frame reply @ rest) (sc_sock ctx)"
    and "libp2p_secio_encrypt (sha256_of c) (aes_block c) (sc_session ctx) (remote_nonce (sc_session ctx)) = Inr (enc, s1)"
    and "enc \<noteq> []" and "length enc < 2 ^ 31"
    and "libp2p_secio_decrypt (sha256_of c) (aes_block c) s1 reply = Inr (16, Some (local_nonce s2), s2)"
    and "reply \<noteq> []" and "length reply < 2 ^ 31" and "length (local_nonce s2) = 16"
  shows "\<exists>s'. handshake_verify (c\<lparr>ephemeral_keypair := g\<rparr>) parent_write parent_read ctx =
      Some (Inr (Some (), ctx\<lparr>sc_session := s2, sc_sock := s'\<rparr>)) \<and>
    wired n rest s' \<and> sent s' = sent (sc_sock ctx) @ frame enc"
proof -
  obtain w where w: "libp2p_secio_unencrypted_write (sc_sock ctx) enc = Some (Inr (int (length enc), w))"
    "wired n (frame reply @ rest) w" "sent w = sent (sc_sock ctx) @ frame enc"
    using wired_write [OF assms(2,4,5)] by blast
  obtain r where r: "libp2p_secio_unencrypted_read w 10 = Some (Inr (int (length reply), Some reply, r))" "wired n rest r" "sent r = sent w"
    using wired_read [OF w(2) assms(7,8), of 10] by blast
  have same: "libp2p_secio_bytes_compare (local_nonce s2) (local_nonce s2) 16 = Inr 0"
    using bytes_compare_swap [OF assms(9,9)] by auto
  have "handshake_verify (c\<lparr>ephemeral_keypair := g\<rparr>) parent_write parent_read ctx =
      Some (Inr (Some (), ctx\<lparr>sc_session := s2, sc_sock := r\<rparr>))"
    using assms(1,3,4,6,7,9) w(1) r(1) same
    by (simp add: handshake_verify_def libp2p_secio_encrypted_write_def libp2p_secio_encrypted_read_def)
  then show ?thesis using r w by auto
qed

text \<open>The whole handshake of one end: \<open>s0\<close> is its session before, \<open>tail\<close> what comes for the check of the channel.\<close>

lemma handshake_one_end:
  assumes ok: "party_ok c p" "party_ok c q" "sha_ok (sha256_of c)"
    and net: "wired 3 (frame (proposal_bytes q) @ frame (exchange_bytes c q p) @ frame reply @ rest) (sc_sock ctx)"
    and peer: "libp2p_crypto_public_key_to_peer_id (sha256_of c) (public_key_of q) = Inr id_string"
      "libp2p_secio_get_peer_or_add to_bytes me host port id_string (sc_peers ctx) = Inr (remote, peers)"
    and order: "libp2p_secio_determine_order (sha256_of c) (proposal q) (proposal p) = Inr order"
    and keys: "g curve_name = Some (pt_key p, pt_point p)" "ephemeral_secret c (pt_key p) (pt_point q) = Some secret"
  defines "s \<equiv> secured c secret order (negotiated p q id_string (sc_session ctx))"
  assumes enc: "libp2p_secio_encrypt (sha256_of c) (aes_block c) s (pt_nonce q) = Inr (enc, s1)" "length enc = 48"
    and dec: "libp2p_secio_decrypt (sha256_of c) (aes_block c) s1 reply = Inr (16, Some (pt_nonce p), s2)" "length reply = 48"
      "local_nonce s2 = pt_nonce p"
  shows "\<exists>ctx'. libp2p_secio_handshake (c\<lparr>ephemeral_keypair := g\<rparr>) parent_write parent_read to_bytes me host port
      (pt_nonce p) (pt_public p) (pt_private p) ctx = Some (Inr (True, ctx')) \<and>
    sc_session ctx' = s2 \<and> sc_status ctx' = secio_status_ack \<and> sc_peers ctx' = peers \<and> sc_buffered ctx' = sc_buffered ctx \<and>
    wired 0 rest (sc_sock ctx') \<and>
    sent (sc_sock ctx') = sent (sc_sock ctx) @ frame (proposal_bytes p) @ frame (exchange_bytes c p q) @ frame enc"
proof -
  have three: "wired (Suc (Suc (Suc 0))) (frame (proposal_bytes q) @ frame (exchange_bytes c q p) @ frame reply @ rest) (sc_sock ctx)"
    using net by (simp add: numeral_3_eq_3)
  obtain w1 where w1: "handshake_propose (pt_nonce p) (pt_public p) ctx = Some (Inr (Some (proposal p, proposal_bytes p),
        ctx\<lparr>sc_session := (sc_session ctx)\<lparr>local_nonce := pt_nonce p\<rparr>, sc_sock := w1\<rparr>))"
    "wired (Suc (Suc 0)) (frame (proposal_bytes q) @ frame (exchange_bytes c q p) @ frame reply @ rest) w1"
    "sent w1 = sent (sc_sock ctx) @ frame (proposal_bytes p)"
    using handshake_propose_ok [OF ok(1) three] by blast
  let ?ctx1 = "ctx\<lparr>sc_session := (sc_session ctx)\<lparr>local_nonce := pt_nonce p\<rparr>, sc_sock := w1\<rparr>"
  have "wired (Suc (Suc 0)) (frame (proposal_bytes q) @ frame (exchange_bytes c q p) @ frame reply @ rest) (sc_sock ?ctx1)"
    using w1(2) by simp
  from handshake_receive_propose_ok [OF ok(2) this] obtain w2 where w2: "handshake_receive_propose ?ctx1 =
      Some (Inr (Some (proposal q, proposal_bytes q),
        ?ctx1\<lparr>sc_sock := w2, sc_session := (sc_session ?ctx1)\<lparr>remote_nonce := pt_nonce q\<rparr>\<rparr>))"
    "wired (Suc (Suc 0)) (frame (exchange_bytes c q p) @ frame reply @ rest) w2" "sent w2 = sent w1" by auto
  let ?ctx2 = "?ctx1\<lparr>sc_sock := w2, sc_session := (sc_session ?ctx1)\<lparr>remote_nonce := pt_nonce q\<rparr>\<rparr>"
  let ?ctx3 = "?ctx2\<lparr>sc_session := negotiated p q id_string (sc_session ?ctx2), sc_peers := peers\<rparr>"
  have neg: "handshake_negotiate (c\<lparr>ephemeral_keypair := g\<rparr>) to_bytes me host port (proposal q) (proposal p) ?ctx2 =
      Some (Inr (Some (public_key_of q, remote, order, pt_key p, pt_point p), ?ctx3))"
    by (rule handshake_negotiate_ok [where g = g, OF ok(1,2) peer(1) _ order keys(1)]) (use peer(2) in simp_all)
  have "wired (Suc (Suc 0)) (frame (exchange_bytes c q p) @ frame reply @ rest) (sc_sock ?ctx3)" using w2(2) by simp
  from handshake_exchange_ok [OF ok(1,2) this, of g remote] obtain w4 where
    w4: "handshake_exchange (c\<lparr>ephemeral_keypair := g\<rparr>) (pt_private p) (proposal_bytes p) (proposal_bytes q)
      (public_key_of q) remote (pt_point p) ?ctx3 = Some (Inr (Some (pt_point q), ?ctx3\<lparr>sc_sock := w4\<rparr>))"
    "wired (Suc 0) (frame reply @ rest) w4" "sent w4 = sent w2 @ frame (exchange_bytes c p q)" by auto
  let ?ctx4 = "?ctx3\<lparr>sc_sock := w4\<rparr>"
  have neg_eq: "sc_session ?ctx4 = negotiated p q id_string (sc_session ctx)" by (simp add: negotiated_def)
  let ?ctx5 = "?ctx4\<lparr>sc_session := s, sc_status := secio_status_ack\<rparr>"
  have k: "handshake_keys (c\<lparr>ephemeral_keypair := g\<rparr>) order (pt_key p) (pt_point q) ?ctx4 = Some (Inr (Some (), ?ctx5))"
    using handshake_keys_ok [OF ok(3) keys(2), of ?ctx4 g order] unfolding neg_eq s_def by (simp add: negotiated_def)
  have remote: "remote_nonce s = pt_nonce q"
    by (simp add: s_def secured_def negotiated_def libp2p_secio_initialize_crypto_def split: prod.split)
  have n: "length (pt_nonce p) = 16" "enc \<noteq> []" "reply \<noteq> []" using ok(1) enc(2) dec(2) by (auto simp: party_ok_def)
  obtain w6 where w6: "handshake_verify (c\<lparr>ephemeral_keypair := g\<rparr>) parent_write parent_read ?ctx5 =
      Some (Inr (Some (), ?ctx5\<lparr>sc_session := s2, sc_sock := w6\<rparr>))"
    "wired 0 rest w6" "sent w6 = sent w4 @ frame enc"
    using handshake_verify_ok [of ?ctx5 0 reply rest c enc s1 s2 g parent_write parent_read] w4(2) enc dec n
    by (auto simp: remote)
  have "libp2p_secio_handshake (c\<lparr>ephemeral_keypair := g\<rparr>) parent_write parent_read to_bytes me host port
      (pt_nonce p) (pt_public p) (pt_private p) ctx = Some (Inr (True, ?ctx5\<lparr>sc_session := s2, sc_sock := w6\<rparr>))"
    unfolding libp2p_secio_handshake_def
    by (simp only: w1(1) step_bind_simps case_prod_conv w2(1) neg w4(1) k w6(1) bind_run_simps option.distinct(2) not_False_eq_True)
  then show ?thesis using w1(3) w2(3) w4(3) w6(2,3) by simp
qed

section \<open>Both ends\<close>

lemma secured_in_step:
  assumes "order \<noteq> 0"
  shows "in_step (secured c secret order s) (secured c secret (- order) t)"
  using assms by (auto simp: in_step_def secured_def libp2p_secio_initialize_crypto_def split: prod.split)

lemma secured_sending:
  assumes "sha_ok (sha256_of c)"
  shows "sending_ok (secured c secret order s)"
  using key_pair [OF assms, of secret]
  by (auto simp: sending_ok_def secured_def libp2p_secio_initialize_crypto_def aes_key_ok_def)

lemma encrypt_keeps:
  assumes "libp2p_secio_encrypt sha256 aes s data = Inr (out, s')"
  shows "local_nonce s' = local_nonce s" and "remote_peer_id s' = remote_peer_id s" and "chosen_cipher s' = chosen_cipher s"
  using assms by (auto simp: libp2p_secio_encrypt_def bind_res_Inr_iff split: option.splits if_splits)

lemma decrypt_keeps:
  assumes "libp2p_secio_decrypt sha256 aes s data = Inr (n, out, s')"
  shows "local_nonce s' = local_nonce s" and "remote_peer_id s' = remote_peer_id s" and "chosen_cipher s' = chosen_cipher s"
  using assms by (auto simp: libp2p_secio_decrypt_def Let_def bind_res_Inr_iff split: option.splits if_splits)

text \<open>
  The check of the channel from both sides: each end encrypts the nonce of the other one, and decrypts its own.
\<close>

lemma channel_check:
  assumes "sha_ok sha256" and "in_step a b" and "in_step b a" and "sending_ok a" and "sending_ok b"
    and "length m = 16" and "length n = 16"
  shows "\<exists>f g a1 b1 a2 b2. libp2p_secio_encrypt sha256 aes a m = Inr (f, a1) \<and> libp2p_secio_encrypt sha256 aes b n = Inr (g, b1) \<and>
    length f = 48 \<and> length g = 48 \<and>
    libp2p_secio_decrypt sha256 aes a1 g = Inr (16, Some n, a2) \<and> libp2p_secio_decrypt sha256 aes b1 f = Inr (16, Some m, b2) \<and>
    in_step a2 b2 \<and> in_step b2 a2 \<and> sending_ok a2 \<and> sending_ok b2"
proof -
  obtain f a1 where f: "libp2p_secio_encrypt sha256 aes a m = Inr (f, a1)" "length f = 48"
    "remote_stretched_key a1 = remote_stretched_key a" "aes_decode_nonce_offset a1 = aes_decode_nonce_offset a"
    "aes_decode_stream_block a1 = aes_decode_stream_block a" "sending_ok a1"
    using encrypt_decrypt [OF assms(1,2,4), of m aes] assms(6) by auto
  obtain g b1 where g: "libp2p_secio_encrypt sha256 aes b n = Inr (g, b1)" "length g = 48"
    "remote_stretched_key b1 = remote_stretched_key b" "aes_decode_nonce_offset b1 = aes_decode_nonce_offset b"
    "aes_decode_stream_block b1 = aes_decode_stream_block b" "sending_ok b1"
    using encrypt_decrypt [OF assms(1,3,5), of n aes] assms(7) by auto
  have "in_step b a1" "in_step a b1" using assms(2,3) f(3-5) g(3-5) by (simp_all add: in_step_def)
  note s = this
  obtain a2 where a2: "libp2p_secio_decrypt sha256 aes a1 g = Inr (16, Some n, a2)" "in_step b1 a2"
    "local_stretched_key a2 = local_stretched_key a1" "aes_encode_nonce_offset a2 = aes_encode_nonce_offset a1"
    "aes_encode_stream_block a2 = aes_encode_stream_block a1"
    using encrypt_decrypt [OF assms(1) s(1) assms(5), of n aes] assms(7) g(1) by auto
  obtain b2 where b2: "libp2p_secio_decrypt sha256 aes b1 f = Inr (16, Some m, b2)" "in_step a1 b2"
    "local_stretched_key b2 = local_stretched_key b1" "aes_encode_nonce_offset b2 = aes_encode_nonce_offset b1"
    "aes_encode_stream_block b2 = aes_encode_stream_block b1"
    using encrypt_decrypt [OF assms(1) s(2) assms(4), of m aes] assms(6) f(1) by auto
  have "in_step a2 b2" "in_step b2 a2" "sending_ok a2" "sending_ok b2"
    using a2(2-5) b2(2-5) f(6) g(6) by (simp_all add: in_step_def sending_ok_def)
  then show ?thesis using f(1,2) g(1,2) a2(1) b2(1) by blast
qed

text \<open>The hypotheses that concern one end: who is at the other one, and the keys it draws.\<close>

definition end_ok ::
    "'k secio_crypto \<Rightarrow> (bytes \<Rightarrow> nat \<Rightarrow> bytes option) \<Rightarrow> session_context \<Rightarrow> bytes option \<Rightarrow> int \<Rightarrow> 'k party \<Rightarrow> 'k party \<Rightarrow>
     (bytes \<Rightarrow> ('k \<times> bytes) option) \<Rightarrow> bytes \<Rightarrow> peerstore \<Rightarrow> bool" where
  "end_ok c to_bytes me host port p q g id_string peers \<longleftrightarrow>
     libp2p_crypto_public_key_to_peer_id (sha256_of c) (public_key_of q) = Inr id_string \<and>
     (\<exists>remote peers'. libp2p_secio_get_peer_or_add to_bytes me host port id_string peers = Inr (remote, peers')) \<and>
     g curve_name = Some (pt_key p, pt_point p)"

text \<open>
  C4: the handshake. Two nodes whose keys are in order, and whose hashes differ, come through the handshake with each other,
  however the frames are cut on the way: each end is sent exactly the three frames the other one writes. In the end each
  knows the id of the key of the other, both have chosen AES-256, and the channel is in step in both directions: what one end
  encrypts from then on, the other decrypts.
\<close>

theorem secio_handshake_agrees:
  assumes "party_ok c p" and "party_ok c q" and "sha_ok (sha256_of c)" and "secret_ok c p q secret"
    and "end_ok c to_bytes me host port p q gp idq (sc_peers a)" and "end_ok c to_bytes' me' host' port' q p gq idp (sc_peers b)"
    and "libp2p_secio_determine_order (sha256_of c) (proposal q) (proposal p) \<noteq> Inr 0"
  shows "\<exists>cp cq sa sb. in_step sa sb \<and> in_step sb sa \<and> sending_ok sa \<and> sending_ok sb \<and>
    remote_peer_id sa = c_string idq \<and> remote_peer_id sb = c_string idp \<and>
    chosen_cipher sa = cipher_name \<and> chosen_cipher sb = cipher_name \<and>
    (\<forall>xs. wired 3 (frame (proposal_bytes q) @ frame (exchange_bytes c q p) @ frame cq @ ra) xs \<longrightarrow>
      (\<exists>a'. libp2p_secio_handshake (c\<lparr>ephemeral_keypair := gp\<rparr>) parent_write parent_read to_bytes me host port
          (pt_nonce p) (pt_public p) (pt_private p) (a\<lparr>sc_sock := xs\<rparr>) = Some (Inr (True, a')) \<and>
        sc_session a' = sa \<and> sc_status a' = secio_status_ack \<and> wired 0 ra (sc_sock a') \<and>
        sent (sc_sock a') = sent xs @ frame (proposal_bytes p) @ frame (exchange_bytes c p q) @ frame cp)) \<and>
    (\<forall>ys. wired 3 (frame (proposal_bytes p) @ frame (exchange_bytes c p q) @ frame cp @ rb) ys \<longrightarrow>
      (\<exists>b'. libp2p_secio_handshake (c\<lparr>ephemeral_keypair := gq\<rparr>) parent_write parent_read to_bytes' me' host' port'
          (pt_nonce q) (pt_public q) (pt_private q) (b\<lparr>sc_sock := ys\<rparr>) = Some (Inr (True, b')) \<and>
        sc_session b' = sb \<and> sc_status b' = secio_status_ack \<and> wired 0 rb (sc_sock b') \<and>
        sent (sc_sock b') = sent ys @ frame (proposal_bytes q) @ frame (exchange_bytes c q p) @ frame cq))"
proof -
  have len: "length (libp2p_secio_hash (sha256_of c) k n) = 32" for k n
    using assms(3) by (simp add: libp2p_secio_hash_def sha_ok_def)
  obtain order where order: "libp2p_secio_determine_order (sha256_of c) (proposal q) (proposal p) = Inr order"
    "libp2p_secio_determine_order (sha256_of c) (proposal p) (proposal q) = Inr (- order)"
    using bytes_compare_swap [OF len len] unfolding libp2p_secio_determine_order_def by blast
  then have "order \<noteq> 0" using assms(7) by auto
  let ?sp = "secured c secret order (negotiated p q idq (sc_session a))"
  let ?sq = "secured c secret (- order) (negotiated q p idp (sc_session b))"
  have step: "in_step ?sp ?sq" "in_step ?sq ?sp"
    using secured_in_step [of order c secret] secured_in_step [of "- order" c secret] \<open>order \<noteq> 0\<close> by simp_all
  have n: "length (pt_nonce q) = 16" "length (pt_nonce p) = 16" using assms(1,2) by (simp_all add: party_ok_def)
  obtain f g s1 t1 s2 t2 where check:
    "libp2p_secio_encrypt (sha256_of c) (aes_block c) ?sp (pt_nonce q) = Inr (f, s1)" "length f = 48"
    "libp2p_secio_encrypt (sha256_of c) (aes_block c) ?sq (pt_nonce p) = Inr (g, t1)" "length g = 48"
    "libp2p_secio_decrypt (sha256_of c) (aes_block c) s1 g = Inr (16, Some (pt_nonce p), s2)"
    "libp2p_secio_decrypt (sha256_of c) (aes_block c) t1 f = Inr (16, Some (pt_nonce q), t2)"
    "in_step s2 t2" "in_step t2 s2" "sending_ok s2" "sending_ok t2"
    using channel_check [OF assms(3) step secured_sending [OF assms(3)] secured_sending [OF assms(3)] n, of "aes_block c"] by blast
  have keeps: "local_nonce (secured c secret o' (negotiated x y i s)) = pt_nonce x"
    "remote_peer_id (secured c secret o' (negotiated x y i s)) = c_string i"
    "chosen_cipher (secured c secret o' (negotiated x y i s)) = cipher_name" for o' i s and x y :: "'a party"
    by (simp_all add: secured_def negotiated_def libp2p_secio_initialize_crypto_def split: prod.split)
  have s2: "local_nonce s2 = pt_nonce p" "remote_peer_id s2 = c_string idq" "chosen_cipher s2 = cipher_name"
    and t2: "local_nonce t2 = pt_nonce q" "remote_peer_id t2 = c_string idp" "chosen_cipher t2 = cipher_name"
    using decrypt_keeps [OF check(5)] encrypt_keeps [OF check(1)] decrypt_keeps [OF check(6)] encrypt_keeps [OF check(3)]
    by (simp_all add: keeps)
  have secrets: "ephemeral_secret c (pt_key p) (pt_point q) = Some secret" "ephemeral_secret c (pt_key q) (pt_point p) = Some secret"
    using assms(4) by (simp_all add: secret_ok_def)
  obtain ra' pa' where ea: "libp2p_crypto_public_key_to_peer_id (sha256_of c) (public_key_of q) = Inr idq"
    "libp2p_secio_get_peer_or_add to_bytes me host port idq (sc_peers a) = Inr (ra', pa')" "gp curve_name = Some (pt_key p, pt_point p)"
    using assms(5) by (auto simp: end_ok_def)
  obtain rb' pb' where eb: "libp2p_crypto_public_key_to_peer_id (sha256_of c) (public_key_of p) = Inr idp"
    "libp2p_secio_get_peer_or_add to_bytes' me' host' port' idp (sc_peers b) = Inr (rb', pb')" "gq curve_name = Some (pt_key q, pt_point q)"
    using assms(6) by (auto simp: end_ok_def)
  have one: "\<exists>a'. libp2p_secio_handshake (c\<lparr>ephemeral_keypair := gp\<rparr>) parent_write parent_read to_bytes me host port
          (pt_nonce p) (pt_public p) (pt_private p) (a\<lparr>sc_sock := xs\<rparr>) = Some (Inr (True, a')) \<and>
        sc_session a' = s2 \<and> sc_status a' = secio_status_ack \<and> wired 0 ra (sc_sock a') \<and>
        sent (sc_sock a') = sent xs @ frame (proposal_bytes p) @ frame (exchange_bytes c p q) @ frame f"
    if "wired 3 (frame (proposal_bytes q) @ frame (exchange_bytes c q p) @ frame g @ ra) xs" for xs
  proof -
    have "wired 3 (frame (proposal_bytes q) @ frame (exchange_bytes c q p) @ frame g @ ra) (sc_sock (a\<lparr>sc_sock := xs\<rparr>))"
      and peer: "libp2p_secio_get_peer_or_add to_bytes me host port idq (sc_peers (a\<lparr>sc_sock := xs\<rparr>)) = Inr (ra', pa')"
      using that ea(2) by simp_all
    from handshake_one_end [where g = gp, OF assms(1-3) this(1) ea(1) peer order(1) ea(3) secrets(1) _ check(2,5,4) s2(1)]
    show ?thesis using check(1) by fastforce
  qed
  have two: "\<exists>b'. libp2p_secio_handshake (c\<lparr>ephemeral_keypair := gq\<rparr>) parent_write parent_read to_bytes' me' host' port'
          (pt_nonce q) (pt_public q) (pt_private q) (b\<lparr>sc_sock := ys\<rparr>) = Some (Inr (True, b')) \<and>
        sc_session b' = t2 \<and> sc_status b' = secio_status_ack \<and> wired 0 rb (sc_sock b') \<and>
        sent (sc_sock b') = sent ys @ frame (proposal_bytes q) @ frame (exchange_bytes c q p) @ frame g"
    if "wired 3 (frame (proposal_bytes p) @ frame (exchange_bytes c p q) @ frame f @ rb) ys" for ys
  proof -
    have "wired 3 (frame (proposal_bytes p) @ frame (exchange_bytes c p q) @ frame f @ rb) (sc_sock (b\<lparr>sc_sock := ys\<rparr>))"
      and peer: "libp2p_secio_get_peer_or_add to_bytes' me' host' port' idp (sc_peers (b\<lparr>sc_sock := ys\<rparr>)) = Inr (rb', pb')"
      using that eb(2) by simp_all
    from handshake_one_end [where g = gq, OF assms(2,1,3) this(1) eb(1) peer order(2) eb(3) secrets(2) _ check(4,6,2) t2(1)]
    show ?thesis using check(3) by fastforce
  qed
  show ?thesis
    by (rule exI [of _ f], rule exI [of _ g], rule exI [of _ s2], rule exI [of _ t2])
      (use check(7-10) s2(2,3) t2(2,3) one two in blast)
qed

text \<open>Two nodes for the examples, with keys that do nothing.\<close>

definition toy_hash :: "bytes \<Rightarrow> bytes" where
  "toy_hash m = replicate 32 (1 + (if 4 < length m then m ! 4 else 0))"

definition toy_crypto :: "unit secio_crypto" where
  "toy_crypto =
     \<lparr>sha256_of = toy_hash, aes_block = (\<lambda>k b. b), rsa_sign = (\<lambda>k m. Some []), rsa_verify = (\<lambda>k m s. True),
      ephemeral_keypair = (\<lambda>_. None), ephemeral_secret = (\<lambda>k p. Some [7])\<rparr>"

definition toy_party :: "byte \<Rightarrow> unit party" where
  "toy_party b = \<lparr>pt_nonce = replicate 16 b, pt_public = [b], pt_private = [], pt_key = (), pt_point = [1, b]\<rparr>"

definition toy_id :: "byte \<Rightarrow> bytes" where
  "toy_id b = map b58_digit (base58_digits (bytes_value (0x12 # 0x20 # replicate 32 (1 + b)))) @ [0, 0]"

definition toy_context :: "byte \<Rightarrow> read_event list \<Rightarrow> secio_context" where
  "toy_context b es =
     \<lparr>sc_session =
        \<lparr>chosen_curve = [], chosen_cipher = [], chosen_hash = [], local_nonce = [], remote_nonce = [], remote_peer_id = [],
         shared_key = [], aes_encode_nonce_offset = 0, aes_encode_stream_block = [], aes_decode_nonce_offset = 0,
         aes_decode_stream_block = [], local_stretched_key = None, remote_stretched_key = None\<rparr>,
      sc_status = secio_status_initialized,
      sc_sock = \<lparr>descriptor = 3, incoming = es, outgoing = replicate 6 (Wrote (2 ^ 31)), sent = []\<rparr>,
      sc_peers = [libp2p_peer_new\<lparr>peer_id := c_string (toy_id b)\<rparr>], sc_buffered = None\<rparr>"

lemma toy_hash: "sha_ok toy_hash"
  by (simp add: sha_ok_def toy_hash_def)

lemma toy_party: "party_ok toy_crypto (toy_party b)" "secret_ok toy_crypto (toy_party b) (toy_party d) [7]"
  by (simp_all add: party_ok_def secret_ok_def toy_party_def toy_crypto_def)

lemma toy_key_bytes: "wire (key_fields (public_key_of (toy_party b))) = [8, 0, 18, 1, b]"
  by (simp add: key_fields_def public_key_of_def toy_party_def KEYTYPE_RSA_def field_bytes_def leb128_small)

lemma toy_order:
  assumes "1 + d < 1 + b"
  shows "libp2p_secio_determine_order toy_hash (proposal (toy_party b)) (proposal (toy_party d)) = Inr 1"
    and "libp2p_secio_determine_order toy_hash (proposal (toy_party d)) (proposal (toy_party b)) = Inr (- 1)"
proof -
  show "libp2p_secio_determine_order toy_hash (proposal (toy_party b)) (proposal (toy_party d)) = Inr 1"
    and "libp2p_secio_determine_order toy_hash (proposal (toy_party d)) (proposal (toy_party b)) = Inr (- 1)"
    using toy_key_bytes assms
    by (simp_all add: libp2p_secio_determine_order_def libp2p_secio_hash_def proposal_def toy_hash_def numeral_eq_Suc)
qed

lemma toy_end:
  assumes "1 + b \<noteq> 0"
  shows "end_ok toy_crypto to_bytes me host port p (toy_party b) (\<lambda>_. Some (pt_key p, pt_point p)) (toy_id b) (sc_peers (toy_context b es))"
proof -
  let ?ds = "map b58_digit (base58_digits (bytes_value (0x12 # 0x20 # replicate 32 (1 + b))))"
  have len: "length ?ds = 46" using sha256_multihash_digits(1) [of "replicate 32 (1 + b)"] by simp
  have id: "libp2p_crypto_public_key_to_peer_id (sha256_of toy_crypto) (public_key_of (toy_party b)) = Inr (toy_id b)"
    using assms PrettyID_no_zero [of "replicate 32 (1 + b)"] public_key_bytes(1) [of "toy_party b"] toy_key_bytes [of b] len
    by (simp add: libp2p_crypto_public_key_to_peer_id_def toy_crypto_def toy_hash_def toy_id_def toy_party_def malloc_ok_def)
  have "list_all (\<lambda>b. b \<noteq> 0) b58digits_ordered" by (simp add: b58digits_ordered_def)
  then have "0 \<notin> set ?ds"
    using base58_digits_less b58_tables(3) by (auto simp: b58_digit_def list_all_length)
  then have "c_string (toy_id b) = ?ds" by (simp add: toy_id_def c_string_terminated [of ?ds "[0]", simplified])
  then have "c_string (toy_id b) \<noteq> []" using len by (metis list.size(3) zero_neq_numeral)
  then have "libp2p_peerstore_get_peer (sc_peers (toy_context b es)) (c_string (toy_id b)) = Some 0"
    by (simp add: toy_context_def get_peer_defs)
  then show ?thesis using id by (simp add: end_ok_def libp2p_secio_get_peer_or_add_def)
qed

theorem secio_handshake_agrees_witness:
  "\<exists>sa sb es a'. in_step sa sb \<and> remote_peer_id sa = c_string (toy_id 2) \<and> chosen_cipher sb = cipher_name \<and>
    libp2p_secio_handshake (toy_crypto\<lparr>ephemeral_keypair := \<lambda>_. Some ((), [1, 1])\<rparr>) (\<lambda>s m. None) (\<lambda>s. None)
        (\<lambda>a n. None) \<lparr>session_number = 1, default_stream = None\<rparr> None 4001 (replicate 16 1) [1] [] (toy_context 2 es) = Some (Inr (True, a')) \<and>
    sc_session a' = sa"
proof -
  let ?p = "toy_party 1" and ?q = "toy_party 2" and ?me = "\<lparr>session_number = 1, default_stream = None\<rparr>"
  let ?no = "\<lambda>(a :: bytes) (n :: nat). None :: bytes option"
  have order: "libp2p_secio_determine_order (sha256_of toy_crypto) (proposal ?q) (proposal ?p) \<noteq> Inr 0"
    using toy_order(1) [of 1 2] by (simp add: toy_crypto_def)
  have sha: "sha_ok (sha256_of toy_crypto)" using toy_hash by (simp add: toy_crypto_def)
  have ends: "end_ok toy_crypto ?no ?me None 4001 ?p ?q (\<lambda>_. Some (pt_key ?p, pt_point ?p)) (toy_id 2) (sc_peers (toy_context 2 []))"
    "end_ok toy_crypto ?no ?me None 4001 ?q ?p (\<lambda>_. Some (pt_key ?q, pt_point ?q)) (toy_id 1) (sc_peers (toy_context 1 []))"
    by (rule toy_end, simp)+
  obtain cq sa sb where r: "in_step sa sb" "remote_peer_id sa = c_string (toy_id 2)" "chosen_cipher sb = cipher_name"
    and h: "\<forall>xs. wired 3 (frame (proposal_bytes ?q) @ frame (exchange_bytes toy_crypto ?q ?p) @ frame cq @ []) xs \<longrightarrow>
      (\<exists>a'. libp2p_secio_handshake (toy_crypto\<lparr>ephemeral_keypair := \<lambda>_. Some (pt_key ?p, pt_point ?p)\<rparr>) (\<lambda>s m. None) (\<lambda>s. None) ?no ?me None 4001
          (pt_nonce ?p) (pt_public ?p) (pt_private ?p) (toy_context 2 []\<lparr>sc_sock := xs\<rparr>) = Some (Inr (True, a')) \<and> sc_session a' = sa)"
    using secio_handshake_agrees [OF toy_party(1) toy_party(1) sha toy_party(2) ends order, of "[]" "\<lambda>s m. None" "\<lambda>s. None" "[]"] by blast
  obtain b bs where bs: "frame (proposal_bytes ?q) @ frame (exchange_bytes toy_crypto ?q ?p) @ frame cq @ [] = b # bs"
    by (cases "frame (proposal_bytes ?q)") (simp_all add: frame_def htonl_def)
  have "wired 3 (b # bs) (sc_sock (toy_context 2 [Got b bs]))"
    by (simp add: wired_def writable_def toy_context_def)
  with h bs obtain a' where "libp2p_secio_handshake (toy_crypto\<lparr>ephemeral_keypair := \<lambda>_. Some (pt_key ?p, pt_point ?p)\<rparr>)
      (\<lambda>s m. None) (\<lambda>s. None) ?no ?me None 4001 (pt_nonce ?p) (pt_public ?p) (pt_private ?p)
      (toy_context 2 []\<lparr>sc_sock := sc_sock (toy_context 2 [Got b bs])\<rparr>) = Some (Inr (True, a'))" "sc_session a' = sa" by metis
  moreover have "toy_context 2 []\<lparr>sc_sock := sc_sock (toy_context 2 [Got b bs])\<rparr> = toy_context 2 [Got b bs]"
    by (simp add: toy_context_def)
  moreover have "pt_key ?p = ()" "pt_point ?p = [1, 1]" "pt_nonce ?p = replicate 16 1" "pt_public ?p = [1]" "pt_private ?p = []"
    by (simp_all add: toy_party_def)
  ultimately have "libp2p_secio_handshake (toy_crypto\<lparr>ephemeral_keypair := \<lambda>_. Some ((), [1, 1])\<rparr>) (\<lambda>s m. None) (\<lambda>s. None)
        ?no ?me None 4001 (replicate 16 1) [1] [] (toy_context 2 [Got b bs]) = Some (Inr (True, a'))" by simp
  then show ?thesis using r \<open>sc_session a' = sa\<close> by blast
qed

end
