(* ===== verification/Secio_Channel.thy ===== *)
theory Secio_Channel
  imports Secio_Session
begin

text \<open>
  The secure channel after the handshake: the messages of one end come out at the other in their order, and
  what a node does with frames that the other end did not make.
\<close>

section \<open>Messages in order\<close>

text \<open>A client that writes messages one after the other, and one that reads some.\<close>

fun write_each ::
    "'k secio_crypto \<Rightarrow> (sock \<Rightarrow> bytes \<Rightarrow> (int \<times> sock) run) \<Rightarrow> secio_context \<Rightarrow> bytes list \<Rightarrow> secio_context run" where
  "write_each c parent_write ctx [] = Some (Inr ctx)"
| "write_each c parent_write ctx (m # ms) =
     bind_run (libp2p_secio_encrypted_write c parent_write ctx m) (\<lambda>(n, ctx'). write_each c parent_write ctx' ms)"

fun read_each ::
    "'k secio_crypto \<Rightarrow> (sock \<Rightarrow> (int \<times> bytes option \<times> sock) run) \<Rightarrow> secio_context \<Rightarrow> nat \<Rightarrow>
     ((int \<times> bytes option) list \<times> secio_context) run" where
  "read_each c parent_read ctx 0 = Some (Inr ([], ctx))"
| "read_each c parent_read ctx (Suc n) =
     bind_run (libp2p_secio_encrypted_read c parent_read ctx) (\<lambda>(r, m, ctx').
     bind_run (read_each c parent_read ctx' n) (\<lambda>(rs, ctx''). Some (Inr ((r, m) # rs, ctx''))))"

text \<open>One message: what goes out on the wire, and what the other end makes of it.\<close>

lemma encrypted_write_read:
  fixes parent_write :: "sock \<Rightarrow> bytes \<Rightarrow> (int \<times> sock) run" and parent_read :: "sock \<Rightarrow> (int \<times> bytes option \<times> sock) run"
  assumes "sha_ok (sha256_of c)" and "in_step (sc_session a) sb" and "sending_ok (sc_session a)"
    and "sc_status a = secio_status_ack" and "length m < 2 ^ 31 - 32" and "writable (Suc (Suc n)) (sc_sock a)"
  shows "\<exists>f a' sb'. libp2p_secio_encrypted_write c parent_write a m = Some (Inr (int (length m) + 32, a')) \<and>
    sc_status a' = secio_status_ack \<and> writable n (sc_sock a') \<and> sent (sc_sock a') = sent (sc_sock a) @ frame f \<and>
    in_step (sc_session a') sb' \<and> sending_ok (sc_session a') \<and>
    (\<forall>b rest. sc_status b = secio_status_ack \<and> sc_session b = sb \<and> 0 < descriptor (sc_sock b) \<and>
      arriving (incoming (sc_sock b)) = Some (frame f @ rest) \<longrightarrow>
      (\<exists>ys. libp2p_secio_encrypted_read c parent_read b =
          Some (Inr (int (length m), Some m, b\<lparr>sc_session := sb', sc_sock := ys\<rparr>)) \<and>
        descriptor ys = descriptor (sc_sock b) \<and> arriving (incoming ys) = Some rest))"
proof -
  have "length m < 2 ^ 31" using assms(5) by simp
  from encrypt_decrypt [OF assms(1-3) this, of "aes_block c"] obtain f sa' sb' where
    f: "libp2p_secio_encrypt (sha256_of c) (aes_block c) (sc_session a) m = Inr (f, sa')" "length f = length m + 32"
      "libp2p_secio_decrypt (sha256_of c) (aes_block c) sb f = Inr (int (length m), Some m, sb')" "in_step sa' sb'" "sending_ok sa'"
    by blast
  have "f \<noteq> []" "length f < 2 ^ 31" using f(2) assms(5) by auto
  note ok = this
  from unencrypted_write_frame [OF assms(6) ok] obtain es where
    w: "libp2p_secio_unencrypted_write (sc_sock a) f =
        Some (Inr (int (length f), (sc_sock a)\<lparr>outgoing := es, sent := sent (sc_sock a) @ frame f\<rparr>))"
      "writable n ((sc_sock a)\<lparr>outgoing := es, sent := sent (sc_sock a) @ frame f\<rparr>)" by blast
  let ?a = "a\<lparr>sc_session := sa', sc_sock := (sc_sock a)\<lparr>outgoing := es, sent := sent (sc_sock a) @ frame f\<rparr>\<rparr>"
  have "libp2p_secio_encrypted_write c parent_write a m = Some (Inr (int (length m) + 32, ?a))"
    using assms(4) f(1,2) w(1) by (simp add: libp2p_secio_encrypted_write_def)
  moreover have "\<exists>ys. libp2p_secio_encrypted_read c parent_read b =
        Some (Inr (int (length m), Some m, b\<lparr>sc_session := sb', sc_sock := ys\<rparr>)) \<and>
      descriptor ys = descriptor (sc_sock b) \<and> arriving (incoming ys) = Some rest"
    if b: "sc_status b = secio_status_ack" "sc_session b = sb" "0 < descriptor (sc_sock b)"
      "arriving (incoming (sc_sock b)) = Some (frame f @ rest)" for b rest
  proof -
    from unencrypted_read_frame [OF b(3,4) ok, of 10] obtain xs where
      "libp2p_secio_unencrypted_read (sc_sock b) 10 = Some (Inr (int (length f), Some f, (sc_sock b)\<lparr>incoming := xs\<rparr>))"
      "arriving xs = Some rest" by blast
    then show ?thesis using b ok(1) f(3)
      by (intro exI [of _ "(sc_sock b)\<lparr>incoming := xs\<rparr>"])
        (simp add: libp2p_secio_encrypted_read_def Let_def)
  qed
  ultimately show ?thesis using w(2) f(4,5) assms(4)
    by (intro exI [of _ f] exI [of _ ?a] exI [of _ sb']) simp
qed

text \<open>
  C5: the channel delivers. Messages that one end of a channel in step writes are read by the other end one by one, whole and
  in their order, from however many pieces the bytes come in, and the channel is in step afterwards; what follows on the wire
  stays for the next read. An empty message is delivered too, as a read of length 0.
\<close>

theorem secio_channel_delivers:
  assumes "sha_ok (sha256_of c)" and "in_step (sc_session a) (sc_session b)" and "sending_ok (sc_session a)"
    and "sc_status a = secio_status_ack" and "sc_status b = secio_status_ack"
    and "\<forall>m\<in>set ms. length m < 2 ^ 31 - 32" and "writable (2 * length ms) (sc_sock a)"
  shows "\<exists>bs a'. write_each c parent_write a ms = Some (Inr a') \<and> sent (sc_sock a') = sent (sc_sock a) @ bs \<and>
    (\<forall>xs rest. 0 < descriptor xs \<and> arriving (incoming xs) = Some (bs @ rest) \<longrightarrow>
      (\<exists>b'. read_each c parent_read (b\<lparr>sc_sock := xs\<rparr>) (length ms) = Some (Inr (map (\<lambda>m. (int (length m), Some m)) ms, b')) \<and>
        in_step (sc_session a') (sc_session b') \<and> arriving (incoming (sc_sock b')) = Some rest))"
  using assms(2-7)
proof (induction ms arbitrary: a b)
  case Nil
  then show ?case by simp
next
  case (Cons m ms)
  have "writable (Suc (Suc (2 * length ms))) (sc_sock a)" "length m < 2 ^ 31 - 32" using Cons.prems(5,6) by simp_all
  from encrypted_write_read [OF assms(1) Cons.prems(1-3) this(2,1), of parent_write parent_read]
  obtain f a1 sb1 where w: "libp2p_secio_encrypted_write c parent_write a m = Some (Inr (int (length m) + 32, a1))"
    "sc_status a1 = secio_status_ack" "writable (2 * length ms) (sc_sock a1)" "sent (sc_sock a1) = sent (sc_sock a) @ frame f"
    "in_step (sc_session a1) sb1" "sending_ok (sc_session a1)"
    and r: "\<And>b' rest. sc_status b' = secio_status_ack \<and> sc_session b' = sc_session b \<and> 0 < descriptor (sc_sock b') \<and>
      arriving (incoming (sc_sock b')) = Some (frame f @ rest) \<Longrightarrow>
      \<exists>ys. libp2p_secio_encrypted_read c parent_read b' =
          Some (Inr (int (length m), Some m, b'\<lparr>sc_session := sb1, sc_sock := ys\<rparr>)) \<and>
        descriptor ys = descriptor (sc_sock b') \<and> arriving (incoming ys) = Some rest" by blast
  have "in_step (sc_session a1) (sc_session (b\<lparr>sc_session := sb1\<rparr>))" "sc_status (b\<lparr>sc_session := sb1\<rparr>) = secio_status_ack"
    "\<forall>m\<in>set ms. length m < 2 ^ 31 - 32" using w(5) Cons.prems(4,5) by simp_all
  from Cons.IH [OF this(1) w(6,2) this(2,3) w(3)] obtain bs a2 where
    i: "write_each c parent_write a1 ms = Some (Inr a2)" "sent (sc_sock a2) = sent (sc_sock a1) @ bs"
      "\<And>xs rest. 0 < descriptor xs \<and> arriving (incoming xs) = Some (bs @ rest) \<Longrightarrow>
        \<exists>b'. read_each c parent_read (b\<lparr>sc_session := sb1, sc_sock := xs\<rparr>) (length ms) =
            Some (Inr (map (\<lambda>m. (int (length m), Some m)) ms, b')) \<and>
          in_step (sc_session a2) (sc_session b') \<and> arriving (incoming (sc_sock b')) = Some rest" by auto
  have "\<exists>b'. read_each c parent_read (b\<lparr>sc_sock := xs\<rparr>) (length (m # ms)) =
        Some (Inr (map (\<lambda>m. (int (length m), Some m)) (m # ms), b')) \<and>
      in_step (sc_session a2) (sc_session b') \<and> arriving (incoming (sc_sock b')) = Some rest"
    if "0 < descriptor xs" "arriving (incoming xs) = Some ((frame f @ bs) @ rest)" for xs rest
  proof -
    from r [of "b\<lparr>sc_sock := xs\<rparr>" "bs @ rest"] that Cons.prems(4) obtain ys where
      "libp2p_secio_encrypted_read c parent_read (b\<lparr>sc_sock := xs\<rparr>) =
        Some (Inr (int (length m), Some m, b\<lparr>sc_session := sb1, sc_sock := ys\<rparr>))"
      "descriptor ys = descriptor xs" "arriving (incoming ys) = Some (bs @ rest)" by auto
    moreover from this i(3) [of ys rest] that(1) obtain b' where
      "read_each c parent_read (b\<lparr>sc_session := sb1, sc_sock := ys\<rparr>) (length ms) =
        Some (Inr (map (\<lambda>m. (int (length m), Some m)) ms, b'))"
      "in_step (sc_session a2) (sc_session b')" "arriving (incoming (sc_sock b')) = Some rest" by auto
    ultimately show ?thesis by (intro exI [of _ b']) simp
  qed
  then show ?case using w(1,4) i(1,2)
    by (intro exI [of _ "frame f @ bs"] exI [of _ a2]) simp
qed

text \<open>The sessions of the example: one with a key of 32 bytes, one that reads with it.\<close>

definition toy_stretched :: stretched_key where
  "toy_stretched = \<lparr>k_iv = replicate 16 0, k_cipher_key = replicate 32 1, k_mac_key = replicate 20 2, k_mac_size = 20\<rparr>"

definition toy_end_of :: "stretched_key option \<Rightarrow> stretched_key option \<Rightarrow> write_event list \<Rightarrow> secio_context" where
  "toy_end_of l r ws =
     (toy_context 1 [])\<lparr>sc_session := (sc_session (toy_context 1 []))\<lparr>local_stretched_key := l, remote_stretched_key := r\<rparr>,
       sc_status := secio_status_ack, sc_sock := \<lparr>descriptor = 3, incoming = [], outgoing = ws, sent = []\<rparr>\<rparr>"

theorem secio_channel_delivers_witness:
  "\<exists>a' es b'. write_each toy_crypto (\<lambda>s m. None) (toy_end_of (Some toy_stretched) None (replicate 4 (Wrote (2 ^ 31)))) [[1, 2, 3], [4]] =
      Some (Inr a') \<and>
    read_each toy_crypto (\<lambda>s. None) (toy_end_of None (Some toy_stretched) []\<lparr>sc_sock := \<lparr>descriptor = 4, incoming = es, outgoing = [], sent = []\<rparr>\<rparr>) 2 =
      Some (Inr ([(3, Some [1, 2, 3]), (1, Some [4])], b'))"
proof -
  let ?a = "toy_end_of (Some toy_stretched) None (replicate 4 (Wrote (2 ^ 31)))" and ?b = "toy_end_of None (Some toy_stretched) []"
  have sha: "sha_ok (sha256_of toy_crypto)" using toy_hash by (simp add: toy_crypto_def)
  have "in_step (sc_session ?a) (sc_session ?b)" "sending_ok (sc_session ?a)" "sc_status ?a = secio_status_ack"
    "sc_status ?b = secio_status_ack" "\<forall>m\<in>set [[1, 2, 3], [4 :: byte]]. length m < 2 ^ 31 - 32"
    "writable (2 * length [[1, 2, 3], [4 :: byte]]) (sc_sock ?a)"
    by (simp_all add: toy_end_of_def toy_context_def in_step_def sending_ok_def toy_stretched_def aes_key_ok_def writable_def)
  note ok = this
  have two: "length [[1, 2, 3], [4 :: byte]] = 2"
    "map (\<lambda>m. (int (length m), Some m)) [[1, 2, 3], [4 :: byte]] = [(3, Some [1, 2, 3]), (1, Some [4])]" by simp_all
  from secio_channel_delivers [OF sha ok, of "\<lambda>s m. None" "\<lambda>s. None", unfolded two] obtain bs a' where
    w: "write_each toy_crypto (\<lambda>s m. None) ?a [[1, 2, 3], [4]] = Some (Inr a')"
    and r: "\<And>xs rest. 0 < descriptor xs \<and> arriving (incoming xs) = Some (bs @ rest) \<Longrightarrow>
      \<exists>b'. read_each toy_crypto (\<lambda>s. None) (?b\<lparr>sc_sock := xs\<rparr>) 2 = Some (Inr ([(3, Some [1, 2, 3]), (1, Some [4])], b'))"
    by blast
  obtain es where "arriving es = Some (bs @ [])"
  proof (cases bs)
    case Nil
    then show ?thesis using that [of "[]"] by simp
  next
    case (Cons d ds)
    then show ?thesis using that [of "[Got d ds]"] by simp
  qed
  with r [of "\<lparr>descriptor = 4, incoming = es, outgoing = [], sent = []\<rparr>" "[]"] w show ?thesis by auto
qed

section \<open>Frames of others\<close>

text \<open>
  What a node does with a frame that the other end did not make. If it has less than the 32 bytes of a MAC, the process
  runs off its memory. If its MAC is another one, nothing is decrypted and the keys stay where they are, and the read reports
  0 bytes, though it hands out the frame itself as the message; a read into a buffer reports -1.
\<close>

theorem secio_damaged_frame:
  assumes "sc_status b = secio_status_ack" and "remote_stretched_key (sc_session b) = Some k"
    and "k_mac_size k \<le> length (k_mac_key k)" and "sc_buffered b = None" and "0 < descriptor (sc_sock b)"
    and "arriving (incoming (sc_sock b)) = Some (frame f @ rest)" and "f \<noteq> []" and "length f < 2 ^ 31"
    and "32 \<le> length f \<longrightarrow>
      drop (length f - 32) f \<noteq> mbedtls_md_hmac (sha256_of c) (take (k_mac_size k) (k_mac_key k)) (take (length f - 32) f)"
  shows "if length f < 32
    then libp2p_secio_encrypted_read c parent_read b = Some (Inl Undefined)
    else \<exists>ys. arriving (incoming ys) = Some rest \<and>
      libp2p_secio_encrypted_read c parent_read b = Some (Inr (0, Some f, b\<lparr>sc_sock := ys\<rparr>)) \<and>
      libp2p_secio_read_raw c parent_read b n = Some (Inr (- 1, [], b\<lparr>sc_sock := ys\<rparr>))"
proof -
  from unencrypted_read_frame [OF assms(5-8), of 10] obtain xs where
    r: "libp2p_secio_unencrypted_read (sc_sock b) 10 = Some (Inr (int (length f), Some f, (sc_sock b)\<lparr>incoming := xs\<rparr>))"
      "arriving xs = Some rest" by blast
  show ?thesis
  proof (cases "length f < 32")
    case True
    then have "libp2p_secio_decrypt (sha256_of c) (aes_block c) (sc_session b) f = Inl Undefined"
      using assms(2) by (simp add: libp2p_secio_decrypt_def)
    then show ?thesis using True r(1) assms(1,7) by (simp add: libp2p_secio_encrypted_read_def Let_def)
  next
    case False
    then have "libp2p_secio_decrypt (sha256_of c) (aes_block c) (sc_session b) f = Inr (0, Some f, sc_session b)"
      using assms(2,3,8,9) by (simp add: libp2p_secio_decrypt_def mac_of_def Let_def malloc_ok_def)
    then have e: "libp2p_secio_encrypted_read c parent_read b = Some (Inr (0, Some f, b\<lparr>sc_sock := (sc_sock b)\<lparr>incoming := xs\<rparr>\<rparr>))"
      using r(1) assms(1,7) by (simp add: libp2p_secio_encrypted_read_def Let_def)
    then show ?thesis using False r(2) assms(4)
      by (simp only: if_False) (intro exI [of _ "(sc_sock b)\<lparr>incoming := xs\<rparr>"], simp add: libp2p_secio_read_raw_def)
  qed
qed

theorem secio_damaged_frame_witness:
  "libp2p_secio_encrypted_read toy_crypto (\<lambda>s. None)
      (toy_end_of None (Some toy_stretched) []\<lparr>sc_sock := \<lparr>descriptor = 4, incoming = [Got 0 [0, 0, 1, 5]], outgoing = [], sent = []\<rparr>\<rparr>) =
      Some (Inl Undefined) \<and>
    (\<exists>s. libp2p_secio_read_raw toy_crypto (\<lambda>s. None)
      (toy_end_of None (Some toy_stretched) []\<lparr>sc_sock :=
         \<lparr>descriptor = 4, incoming = [Got 0 ([0, 0, 33] @ replicate 33 5)], outgoing = [], sent = []\<rparr>\<rparr>) 100 = Some (Inr (- 1, [], s)))"
proof -
  let ?b = "\<lambda>d. toy_end_of None (Some toy_stretched) []\<lparr>sc_sock := \<lparr>descriptor = 4, incoming = [Got 0 d], outgoing = [], sent = []\<rparr>\<rparr>"
  have b: "sc_status (?b d) = secio_status_ack" "remote_stretched_key (sc_session (?b d)) = Some toy_stretched"
    "k_mac_size toy_stretched \<le> length (k_mac_key toy_stretched)" "sc_buffered (?b d) = None" "0 < descriptor (sc_sock (?b d))"
    for d by (simp_all add: toy_end_of_def toy_context_def toy_stretched_def)
  have short: "arriving (incoming (sc_sock (?b [0, 0, 1, 5]))) = Some (frame [5] @ [])" by (simp add: frame_def htonl_def)
  have long: "arriving (incoming (sc_sock (?b ([0, 0, 33] @ replicate 33 5)))) = Some (frame (replicate 33 5) @ [])"
    by (simp add: frame_def htonl_def)
  have mac: "32 \<le> length (replicate 33 (5 :: byte)) \<longrightarrow> drop (length (replicate 33 (5 :: byte)) - 32) (replicate 33 5) \<noteq>
      mbedtls_md_hmac (sha256_of toy_crypto) (take (k_mac_size toy_stretched) (k_mac_key toy_stretched))
        (take (length (replicate 33 (5 :: byte)) - 32) (replicate 33 5))"
    by code_simp
  have one: "32 \<le> length [5 :: byte] \<longrightarrow> drop (length [5 :: byte] - 32) [5] \<noteq>
      mbedtls_md_hmac (sha256_of toy_crypto) (take (k_mac_size toy_stretched) (k_mac_key toy_stretched)) (take (length [5 :: byte] - 32) [5])"
    by simp
  note secio_damaged_frame [OF b short _ _ one, of "\<lambda>s. None" 100] secio_damaged_frame [OF b long _ _ mac, of "\<lambda>s. None" 100]
  then show ?thesis by auto
qed

text \<open>
  C20: whoever connects can stop the node with the first message: when it is not a proposal, it is freed once by the decoder
  and once by the handshake.
\<close>

theorem secio_first_message_crashes:
  assumes "party_ok c p" and "wired 2 (frame msg @ rest) (sc_sock ctx)" and "msg \<noteq> []" and "length msg < 2 ^ 31"
    and "libp2p_secio_propose_protobuf_decode msg = Some (Inl Failure)"
  shows "libp2p_secio_handshake c parent_write parent_read to_bytes me host port (pt_nonce p) (pt_public p) (pt_private p) ctx =
    Some (Inl Undefined)"
proof -
  have "wired (Suc 1) (frame msg @ rest) (sc_sock ctx)" using assms(2) by (simp add: numeral_2_eq_2)
  from handshake_propose_ok [OF assms(1) this] obtain s1 where
    p: "handshake_propose (pt_nonce p) (pt_public p) ctx = Some (Inr (Some (proposal p, proposal_bytes p),
        ctx\<lparr>sc_session := (sc_session ctx)\<lparr>local_nonce := pt_nonce p\<rparr>, sc_sock := s1\<rparr>))"
      "wired 1 (frame msg @ rest) s1" by blast
  from wired_read [OF p(2) assms(3,4), of 10] obtain s2 where
    "libp2p_secio_unencrypted_read s1 10 = Some (Inr (int (length msg), Some msg, s2))" by blast
  then have "handshake_receive_propose (ctx\<lparr>sc_session := (sc_session ctx)\<lparr>local_nonce := pt_nonce p\<rparr>, sc_sock := s1\<rparr>) =
      Some (Inl Undefined)"
    using assms(3,5) by (simp add: handshake_receive_propose_def)
  then show ?thesis by (simp add: libp2p_secio_handshake_def p(1))
qed

theorem secio_first_message_crashes_witness:
  "libp2p_secio_handshake toy_crypto (\<lambda>s m. None) (\<lambda>s. None) (\<lambda>a n. None) \<lparr>session_number = 1, default_stream = None\<rparr> None 4001
      (replicate 16 1) [1] [] (toy_context 1 [Got 0 [0, 0, 1, 56]]) = Some (Inl Undefined)"
proof -
  have d: "libp2p_secio_propose_protobuf_decode [56] = Some (Inl Failure)"
  proof -
    have "protobuf_decode_field_and_type [56] 1 = Inr (7, 0, 1)" by code_simp
    then show ?thesis unfolding libp2p_secio_propose_protobuf_decode_def
      by (subst pb_decode_loop.simps) (simp add: propose_field_def pb_decode_loop_end)
  qed
  have w: "wired 2 (frame [56] @ []) (sc_sock (toy_context 1 [Got 0 [0, 0, 1, 56]]))"
    by (simp add: wired_def writable_def toy_context_def frame_def htonl_def)
  have "pt_nonce (toy_party 1) = replicate 16 1" "pt_public (toy_party 1) = [1]" "pt_private (toy_party 1) = []"
    by (simp_all add: toy_party_def)
  then show ?thesis using secio_first_message_crashes [OF toy_party(1) [of 1] w _ _ d] by simp
qed

end
