(* ===== verification/Lmdb.thy ===== *)
theory Lmdb
  imports Varint "HOL-Library.List_Lexorder" "HOL-Library.Product_Lexorder"
begin

text \<open>
  What the program uses of the database \<open>liblmdb\<close>: its documented interface, over tables as lists of rows. Both
  tables of the program are opened with \<open>MDB_DUPSORT\<close>: a key can have several values, rows are
  sorted by key and then by value, and no row is there twice. How the library keeps them in pages is
  not modelled; \<open>env_error\<close> stands for what can go wrong in writing them (a full map, for one).
\<close>

section \<open>Tables\<close>

type_synonym row = "bytes \<times> bytes"
type_synonym mdb_table = "row list"

text \<open>The sign of the comparison; \<open>memcmp\<close> may give any number of that sign.\<close>

fun mdb_cmp_memn :: "bytes \<Rightarrow> bytes \<Rightarrow> int" where
  "mdb_cmp_memn [] [] = 0"
| "mdb_cmp_memn [] (y # ys) = - 1"
| "mdb_cmp_memn (x # xs) [] = 1"
| "mdb_cmp_memn (x # xs) (y # ys) = (if x < y then - 1 else if y < x then 1 else mdb_cmp_memn xs ys)"

definition row_before :: "row \<Rightarrow> row \<Rightarrow> bool" where
  "row_before r s \<longleftrightarrow>
     mdb_cmp_memn (fst r) (fst s) < 0 \<or> mdb_cmp_memn (fst r) (fst s) = 0 \<and> mdb_cmp_memn (snd r) (snd s) < 0"

fun mdb_insert :: "row \<Rightarrow> mdb_table \<Rightarrow> mdb_table" where
  "mdb_insert r [] = [r]"
| "mdb_insert r (s # t) =
     (if r = s then s # t else if row_before r s then r # s # t else s # mdb_insert r t)"

definition MDB_KEYEXIST :: int where "MDB_KEYEXIST = - 30799"
definition MDB_BAD_VALSIZE :: int where "MDB_BAD_VALSIZE = - 30781"

text \<open>
  What surrounds a call: whether a transaction can be begun, the error a write of a row meets (0: none),
  the time of each call in seconds, and the bytes that are found where an array of a function
  was that has returned.
\<close>

record lmdb_env =
  env_begin :: bool
  env_error :: "row \<Rightarrow> int"
  env_clock :: "nat \<Rightarrow> u64"
  env_stale :: "bytes \<Rightarrow> bytes"

definition mdb_put :: "lmdb_env \<Rightarrow> mdb_table \<Rightarrow> bytes \<Rightarrow> bytes \<Rightarrow> bool \<Rightarrow> int \<times> mdb_table" where
  "mdb_put env t key data nodupdata =
     (if key = [] \<or> 511 < length key \<or> 511 < length data then (MDB_BAD_VALSIZE, t)
      else if nodupdata \<and> (key, data) \<in> set t then (MDB_KEYEXIST, t)
      else if env_error env (key, data) \<noteq> 0 then (env_error env (key, data), t)
      else (0, mdb_insert (key, data) t))"

text \<open>The first value of the key.\<close>

definition mdb_get :: "mdb_table \<Rightarrow> bytes \<Rightarrow> bytes option" where
  "mdb_get t key = (if key = [] then None else map_option snd (List.find (\<lambda>r. fst r = key) t))"

section \<open>Cursors\<close>

datatype cursor_op = CURSOR_FIRST | CURSOR_NEXT | CURSOR_LAST | CURSOR_PREVIOUS

text \<open>The row the cursor comes to; \<open>None\<close> is \<open>MDB_NOTFOUND\<close>, and leaves the cursor where it is.\<close>

definition mdb_cursor_get :: "mdb_table \<Rightarrow> nat option \<Rightarrow> cursor_op \<Rightarrow> nat option" where
  "mdb_cursor_get t at op =
     (let first = (if t = [] then None else Some 0);
          last = (if t = [] then None else Some (length t - 1))
      in case op of
           CURSOR_FIRST \<Rightarrow> first
         | CURSOR_LAST \<Rightarrow> last
         | CURSOR_NEXT \<Rightarrow>
             (case at of None \<Rightarrow> first | Some i \<Rightarrow> if i + 1 < length t then Some (i + 1) else None)
         | CURSOR_PREVIOUS \<Rightarrow>
             (case at of None \<Rightarrow> last | Some i \<Rightarrow> if i = 0 then None else Some (i - 1)))"

text \<open>
  \<open>repo/fsrepo/lmdb_cursor.c\<close>: a cursor with its transaction. The environment and the table are
  those of the node. The inner option is the position, of which there is none at first.
\<close>

record lmdb_trans_cursor =
  tc_transaction :: bool
  tc_cursor :: "nat option option"

definition lmdb_trans_cursor_new :: lmdb_trans_cursor where
  "lmdb_trans_cursor_new = \<lparr>tc_transaction = False, tc_cursor = None\<rparr>"

section \<open>The order of the rows\<close>

lemma mdb_cmp_memn_less: "mdb_cmp_memn xs ys < 0 \<longleftrightarrow> xs < ys"
  by (induction xs ys rule: mdb_cmp_memn.induct) auto

lemma mdb_cmp_memn_equal: "mdb_cmp_memn xs ys = 0 \<longleftrightarrow> xs = ys"
  by (induction xs ys rule: mdb_cmp_memn.induct) auto

lemma row_before_less: "row_before r s \<longleftrightarrow> r < s"
  by (cases r; cases s) (auto simp: row_before_def mdb_cmp_memn_less mdb_cmp_memn_equal)

definition table_ok :: "mdb_table \<Rightarrow> bool" where
  "table_ok t \<longleftrightarrow> sorted_wrt (<) t"

lemma table_ok_Nil [simp]: "table_ok []"
  by (simp add: table_ok_def)

lemma table_ok_Cons: "table_ok (r # t) \<longleftrightarrow> (\<forall>s\<in>set t. r < s) \<and> table_ok t"
  by (simp add: table_ok_def)

lemma set_mdb_insert [simp]: "set (mdb_insert r t) = insert r (set t)"
  by (induction t) auto

lemma table_ok_insert: "table_ok t \<Longrightarrow> table_ok (mdb_insert r t)"
proof (induction t)
  case (Cons s t)
  then show ?case
    by (auto simp: table_ok_Cons row_before_less)
qed (simp add: table_ok_Cons)

lemma mdb_insert_present: "table_ok t \<Longrightarrow> r \<in> set t \<Longrightarrow> mdb_insert r t = t"
  by (induction t) (auto simp: table_ok_Cons row_before_less dest: order.strict_implies_not_eq less_not_sym)

text \<open>In a table that is in order the value that is found is the smallest one of its key.\<close>

lemma find_least:
  assumes "table_ok t" and "(k, v) \<in> set t" and "\<And>w. (k, w) \<in> set t \<Longrightarrow> v \<le> w"
  shows "List.find (\<lambda>r. fst r = k) t = Some (k, v)"
  using assms
proof (induction t)
  case (Cons s t)
  show ?case
  proof (cases "fst s = k")
    case True
    then obtain w where s: "s = (k, w)" by (cases s) auto
    then have "v \<le> w" using Cons.prems(3) by simp
    moreover have "(k, v) = s \<or> s < (k, v)" using Cons.prems(1,2) by (auto simp: table_ok_Cons)
    ultimately have "w = v" using s by auto
    then show ?thesis using s by simp
  next
    case False
    then show ?thesis using Cons by (auto simp: table_ok_Cons)
  qed
qed simp

lemma mdb_get_least:
  assumes "table_ok t" and "k \<noteq> []" and "(k, v) \<in> set t" and "\<And>w. (k, w) \<in> set t \<Longrightarrow> v \<le> w"
  shows "mdb_get t k = Some v"
  using find_least [OF assms(1,3,4)] assms(2) by (simp add: mdb_get_def)

lemma mdb_get_in: "mdb_get t k = Some v \<Longrightarrow> (k, v) \<in> set t \<and> k \<noteq> []"
  by (auto simp: mdb_get_def find_Some_iff split: if_splits) (metis fst_conv nth_mem)

lemma mdb_get_None: "mdb_get t k = None \<longleftrightarrow> k = [] \<or> (\<forall>v. (k, v) \<notin> set t)"
  by (force simp: mdb_get_def find_None_iff)

lemma mdb_get_le:
  assumes "table_ok t" and "mdb_get t k = Some v" and "(k, w) \<in> set t"
  shows "v \<le> w"
  using assms
proof (induction t)
  case (Cons s t)
  then show ?case
    by (cases s) (auto simp: mdb_get_def table_ok_Cons split: if_splits dest: order.strict_implies_order)
qed simp

lemma mdb_get_insert_other:
  assumes "k \<noteq> fst r"
  shows "mdb_get (mdb_insert r t) k = mdb_get t k"
  using assms by (induction t) (auto simp: mdb_get_def)

lemma mdb_get_insert:
  assumes "table_ok t" and "k \<noteq> []"
  shows "mdb_get (mdb_insert (k, v) t) k = Some (case mdb_get t k of None \<Rightarrow> v | Some w \<Rightarrow> min v w)"
proof (cases "mdb_get t k")
  case None
  then show ?thesis
    using assms mdb_get_None [of t k] by (auto intro: mdb_get_least table_ok_insert)
next
  case (Some w)
  have "(k, min v w) \<in> set (mdb_insert (k, v) t)" using mdb_get_in [OF Some] by (simp add: min_def)
  moreover have "min v w \<le> x" if "(k, x) \<in> set (mdb_insert (k, v) t)" for x
    using that mdb_get_le [OF assms(1) Some, of x] by (auto simp: min_le_iff_disj)
  ultimately have "mdb_get (mdb_insert (k, v) t) k = Some (min v w)"
    by (rule mdb_get_least [OF table_ok_insert [OF assms(1)] assms(2)])
  then show ?thesis using Some by simp
qed

end
