(* ===== verification/Lmdb_Datastore.thy ===== *)
theory Lmdb_Datastore
  imports Lmdb Blockstore
begin

text \<open>
  The database behind the block store: \<open>libipfs/repo/fsrepo/lmdb_datastore.c\<close> and
  \<open>lmdb_journalstore.c\<close>. A table of records, by key, and a journal of when each came, by time.

  \<open>lmdb_journalstore_generate_key\<close> and \<open>lmdb_journalstore_build_key_value_pair\<close> hand out pointers to
  their own local arrays, which the database reads after they have returned. What it finds
  there is \<open>env_stale\<close> of what was written.
\<close>

section \<open>Journal records\<close>

record journal_record =
  jr_timestamp :: u64
  jr_pin :: int
  jr_pending :: int
  jr_hash :: bytes

definition lmdb_journal_record_new :: journal_record where
  "lmdb_journal_record_new = \<lparr>jr_timestamp = 0, jr_pin = 0, jr_pending = 0, jr_hash = []\<rparr>"

text \<open>A time stamp of more than eight bytes leaves the size at zero.\<close>

definition lmdb_journalstore_generate_key :: "lmdb_env \<Rightarrow> journal_record \<Rightarrow> bytes" where
  "lmdb_journalstore_generate_key env r =
     (case varint_encode (jr_timestamp r) 8 8 of Inl e \<Rightarrow> [] | Inr bs \<Rightarrow> env_stale env bs)"

definition lmdb_journalstore_build_key_value_pair :: "lmdb_env \<Rightarrow> journal_record \<Rightarrow> bytes \<times> bytes" where
  "lmdb_journalstore_build_key_value_pair env r =
     (lmdb_journalstore_generate_key env r,
      env_stale env (word_of_int (jr_pin r) # word_of_int (jr_pending r) # jr_hash r))"

definition lmdb_journalstore_build_record :: "row \<Rightarrow> journal_record result" where
  "lmdb_journalstore_build_record row =
     bind_res (varint_decode (fst row) (int (length (fst row)))) (\<lambda>(ts, n).
     case snd row of
       pin # pending # hash \<Rightarrow> Inr \<lparr>jr_timestamp = ts, jr_pin = uint pin, jr_pending = uint pending, jr_hash = hash\<rparr>
     | _ \<Rightarrow> Inl Undefined)"

text \<open>The tables of the node; \<open>ticks\<close> counts the readings of the clock.\<close>

record lmdb =
  datastore_db :: mdb_table
  journal_db :: mdb_table
  ticks :: nat

definition lmdb_journalstore_journal_add :: "lmdb_env \<Rightarrow> journal_record \<Rightarrow> lmdb \<Rightarrow> bool \<times> lmdb" where
  "lmdb_journalstore_journal_add env r db =
     (let (key, data) = lmdb_journalstore_build_key_value_pair env r;
          (ret, t) = mdb_put env (journal_db db) key data False
      in (ret = 0, db\<lparr>journal_db := t\<rparr>))"

definition lmdb_journalstore_cursor_open :: "lmdb_env \<Rightarrow> lmdb_trans_cursor option \<Rightarrow> bool \<Rightarrow> bool \<times> lmdb_trans_cursor" where
  "lmdb_journalstore_cursor_open env crsr trans_to_use =
     (let c = (case crsr of None \<Rightarrow> lmdb_trans_cursor_new | Some c \<Rightarrow> c) in
      if \<not> tc_transaction c \<and> \<not> trans_to_use \<and> \<not> env_begin env then (False, c)
      else
        let c1 = c\<lparr>tc_transaction := True\<rparr> in
        if tc_cursor c1 = None then (True, c1\<lparr>tc_cursor := Some None\<rparr>) else (False, c1))"

definition lmdb_journalstore_composite_key_compare :: "journal_record option \<Rightarrow> journal_record option \<Rightarrow> int" where
  "lmdb_journalstore_composite_key_compare a b =
     (case (a, b) of
        (None, None) \<Rightarrow> 0
      | (None, Some y) \<Rightarrow> 1
      | (Some x, None) \<Rightarrow> - 1
      | (Some x, Some y) \<Rightarrow>
          if jr_timestamp x \<noteq> jr_timestamp y then (if jr_timestamp y < jr_timestamp x then - 1 else 1)
          else if length (jr_hash x) \<noteq> length (jr_hash y) then
            (if length (jr_hash y) < length (jr_hash x) then - 1 else 1)
          else
            (case List.find (\<lambda>(p, q). p \<noteq> q) (zip (jr_hash x) (jr_hash y)) of
               None \<Rightarrow> 0 | Some (p, q) \<Rightarrow> uint q - uint p))"

text \<open>
  The loop that looks for the record with the hash among those with the same time. Its call for the next row is
  not checked: at the end of the table the row stays the one it was. The result is what was
  found and where the cursor is.
\<close>

partial_function (option) find_exact ::
    "mdb_table \<Rightarrow> journal_record \<Rightarrow> nat \<Rightarrow> (journal_record option \<times> nat) run" where
  "find_exact t want i =
     (case lmdb_journalstore_build_record (t ! i) of
        Inl e \<Rightarrow> Some (Inl e)
      | Inr here \<Rightarrow>
          if lmdb_journalstore_composite_key_compare (Some want) (Some here) = 0 then Some (Inr (Some here, i))
          else if jr_timestamp want \<noteq> jr_timestamp here then Some (Inr (None, i))
          else find_exact t want (case mdb_cursor_get t (Some i) CURSOR_NEXT of None \<Rightarrow> i | Some j \<Rightarrow> j))"

text \<open>With no cursor the database refuses. The time of the record that is passed in is not used to find the first row.\<close>

definition lmdb_journalstore_cursor_get ::
    "mdb_table \<Rightarrow> lmdb_trans_cursor \<Rightarrow> cursor_op \<Rightarrow> journal_record option \<Rightarrow>
     (bool \<times> lmdb_trans_cursor \<times> journal_record option) run" where
  "lmdb_journalstore_cursor_get t tc op rec =
     (case tc_cursor tc of
        None \<Rightarrow> Some (Inr (False, tc, rec))
      | Some place \<Rightarrow>
          (case mdb_cursor_get t place op of
             None \<Rightarrow> Some (Inr (False, tc, rec))
           | Some i \<Rightarrow>
               (case rec of
                  None \<Rightarrow>
                    Some (bind_res (lmdb_journalstore_build_record (t ! i)) (\<lambda>r.
                    Inr (True, tc\<lparr>tc_cursor := Some (Some i)\<rparr>, Some r)))
                | Some want \<Rightarrow>
                    if jr_hash want \<noteq> [] then
                      bind_run (find_exact t want i) (\<lambda>(found, j).
                      let tc1 = tc\<lparr>tc_cursor := Some (Some j)\<rparr> in
                      Some (Inr (case found of
                          None \<Rightarrow> (False, tc1, rec)
                        | Some c \<Rightarrow> (True, tc1, Some (want\<lparr>jr_pending := jr_pending c, jr_pin := jr_pin c\<rparr>)))))
                    else
                      Some (bind_res (lmdb_journalstore_build_record (t ! i)) (\<lambda>r.
                      Inr (True, tc\<lparr>tc_cursor := Some (Some i)\<rparr>, Some r))))))"

definition lmdb_journalstore_get_record ::
    "lmdb_env \<Rightarrow> mdb_table \<Rightarrow> lmdb_trans_cursor \<Rightarrow> journal_record option \<Rightarrow>
     (bool \<times> lmdb_trans_cursor \<times> journal_record option) run" where
  "lmdb_journalstore_get_record env t crsr rec =
     (if \<not> tc_transaction crsr \<and> \<not> env_begin env then Some (Inr (False, crsr, rec))
      else
        let c = crsr\<lparr>tc_transaction := True\<rparr>;
            (ok, c1) = (if tc_cursor c = None then lmdb_journalstore_cursor_open env (Some c) False else (True, c))
        in if \<not> ok then Some (Inr (False, c1, rec))
           else lmdb_journalstore_cursor_get t c1 CURSOR_FIRST rec)"

definition lmdb_journalstore_cursor_put :: "lmdb_env \<Rightarrow> journal_record \<Rightarrow> lmdb \<Rightarrow> bool \<times> lmdb" where
  "lmdb_journalstore_cursor_put env r db =
     (let (key, data) = lmdb_journalstore_build_key_value_pair env r;
          (ret, t) = mdb_put env (journal_db db) key data False
      in (ret = 0, db\<lparr>journal_db := t\<rparr>))"

section \<open>Records\<close>

definition repo_fsrepo_lmdb_encode_record :: "datastore_record \<Rightarrow> bytes result" where
  "repo_fsrepo_lmdb_encode_record r =
     bind_res (varint_encode (ds_timestamp r) 8 8) (\<lambda>ts.
     if malloc_ok (length ts + length (ds_value r)) then Inr (ts @ ds_value r) else Inl Failure)"

definition repo_fsrepo_lmdb_build_record :: "bytes \<Rightarrow> bytes \<Rightarrow> datastore_record result" where
  "repo_fsrepo_lmdb_build_record key value =
     bind_res (varint_decode value (int (length value))) (\<lambda>(ts, n).
     Inr \<lparr>ds_key = key, ds_value = drop n value, ds_timestamp = ts\<rparr>)"

definition repo_fsrepo_lmdb_get_with_transaction :: "bytes \<Rightarrow> mdb_table \<Rightarrow> datastore_record option result" where
  "repo_fsrepo_lmdb_get_with_transaction key t =
     (case mdb_get t key of
        None \<Rightarrow> Inr None
      | Some value \<Rightarrow> bind_res (repo_fsrepo_lmdb_build_record key value) (\<lambda>r. Inr (Some r)))"

definition repo_fsrepo_lmdb_get :: "lmdb_env \<Rightarrow> bytes \<Rightarrow> lmdb \<Rightarrow> datastore_record option result" where
  "repo_fsrepo_lmdb_get env key db =
     (if env_begin env then repo_fsrepo_lmdb_get_with_transaction key (datastore_db db) else Inr None)"

text \<open>A record that is there already lends its time, unless the new one has an earlier one.\<close>

definition lend_time :: "datastore_record option \<Rightarrow> datastore_record \<Rightarrow> datastore_record" where
  "lend_time existing r =
     (case existing of
        None \<Rightarrow> r
      | Some e \<Rightarrow>
          if ds_timestamp e \<noteq> 0 \<and> ds_timestamp e < ds_timestamp r then r\<lparr>ds_timestamp := ds_timestamp e\<rparr> else r)"

text \<open>No time, or one in the future, becomes the time now.\<close>

definition time_put :: "u64 \<Rightarrow> u64 \<Rightarrow> u64" where
  "time_put now ts = (if ts = 0 \<or> now < ts then now else ts)"

text \<open>
  The writing, with the record of the journal that was looked up: what is returned, and the tables. When the record
  could not be encoded, what is freed in the end was never set.
\<close>

definition put_rows :: "lmdb_env \<Rightarrow> datastore_record \<Rightarrow> journal_record option \<Rightarrow> lmdb \<Rightarrow> (int \<times> lmdb) result" where
  "put_rows env r journalstore_record db =
     (case repo_fsrepo_lmdb_encode_record r of
        Inl e \<Rightarrow> Inl Undefined
      | Inr value \<Rightarrow>
          let (ret, t) = mdb_put env (datastore_db db) (ds_key r) value True;
              db1 = db\<lparr>datastore_db := t\<rparr>
          in Inr
            (if ret \<noteq> 0 then (if ret = MDB_KEYEXIST then ret else 0, db1)
             else
               case journalstore_record of
                 Some j \<Rightarrow>
                   if jr_timestamp j \<noteq> ds_timestamp r then
                     let (put, db2) = lmdb_journalstore_cursor_put env (j\<lparr>jr_timestamp := ds_timestamp r\<rparr>) db1
                     in (if put then 1 else 0, db2)
                   else (0, db1)
               | None \<Rightarrow>
                   let (added, db2) = lmdb_journalstore_journal_add env
                         \<lparr>jr_timestamp = ds_timestamp r, jr_pin = 1, jr_pending = 1, jr_hash = ds_key r\<rparr> db1
                   in (1, db2)))"

text \<open>The number that is returned, the record of the caller, whose time may have been changed, and the tables.\<close>

definition repo_fsrepo_lmdb_put :: "lmdb_env \<Rightarrow> datastore_record \<Rightarrow> lmdb \<Rightarrow> (int \<times> datastore_record \<times> lmdb) run" where
  "repo_fsrepo_lmdb_put env r db =
     (if \<not> env_begin env then Some (Inr (0, r, db))
      else
        let (ok, cursor) = lmdb_journalstore_cursor_open env None True in
        bind_run (Some (repo_fsrepo_lmdb_get_with_transaction (ds_key r) (datastore_db db))) (\<lambda>existing.
        let r1 = lend_time existing r in
        bind_run
          (case existing of
             None \<Rightarrow> Some (Inr (False, cursor, None))
           | Some e \<Rightarrow>
               lmdb_journalstore_get_record env (journal_db db) cursor
                 (Some (lmdb_journal_record_new\<lparr>jr_hash := ds_key r, jr_timestamp := ds_timestamp r1\<rparr>)))
          (\<lambda>(found, cursor', journalstore_record).
        let r2 = r1\<lparr>ds_timestamp := time_put (env_clock env (ticks db)) (ds_timestamp r1)\<rparr> in
        bind_run (Some (put_rows env r2 journalstore_record (db\<lparr>ticks := ticks db + 1\<rparr>))) (\<lambda>(ret, db').
        Some (Inr (ret, r2, db'))))))"

text \<open>
  \<open>repo_fsrepo_lmdb_cast\<close>: the functions as those of a datastore. Its type has no place for
  faults; there are none in the states that occur (below).
\<close>

definition repo_fsrepo_lmdb_cast :: "lmdb_env \<Rightarrow> lmdb datastore" where
  "repo_fsrepo_lmdb_cast env =
     \<lparr>datastore_put = (\<lambda>r db.
        case repo_fsrepo_lmdb_put env r db of Some (Inr (n, r', db')) \<Rightarrow> (n \<noteq> 0, db') | _ \<Rightarrow> (False, db)),
      datastore_get = (\<lambda>key db. case repo_fsrepo_lmdb_get env key db of Inl e \<Rightarrow> None | Inr x \<Rightarrow> x)\<rparr>"

section \<open>Time stamps and rows\<close>

abbreviation stamp :: "u64 \<Rightarrow> bytes" where
  "stamp ts \<equiv> leb128 (unat ts)"

definition time_ok :: "u64 \<Rightarrow> bool" where
  "time_ok ts \<longleftrightarrow> 0 < ts \<and> unat ts < 2 ^ 56"

lemma stamp_length: "time_ok ts \<Longrightarrow> length (stamp ts) \<le> 8"
  using leb128_length_le [of "unat ts" 7] by (simp add: time_ok_def)

lemma stamp_encode: "time_ok ts \<Longrightarrow> varint_encode ts 8 8 = Inr (stamp ts)"
  using stamp_length by (intro varint_encode_ok) simp_all

lemma stamp_inj: "stamp ts @ a = stamp us @ b \<longleftrightarrow> ts = us \<and> a = b"
proof
  assume e: "stamp ts @ a = stamp us @ b"
  have len: "int (length (stamp x)) \<le> 10" for x :: u64 using length_leb128_u64 [of x] by simp
  from varint_decode_leb128 [OF len, of ts a] varint_decode_leb128 [OF len, of us b] e
  show "ts = us \<and> a = b" by auto
qed simp

definition data_row :: "row \<Rightarrow> bool" where
  "data_row r \<longleftrightarrow> (\<exists>ts v. time_ok ts \<and> snd r = stamp ts @ v)"

definition journal_row :: "row \<Rightarrow> bool" where
  "journal_row r \<longleftrightarrow> (\<exists>ts p q h. time_ok ts \<and> r = (stamp ts, p # q # h))"

text \<open>The states that occur: tables in order, with rows that can be read.\<close>

definition lmdb_ok :: "lmdb \<Rightarrow> bool" where
  "lmdb_ok db \<longleftrightarrow> table_ok (datastore_db db) \<and> table_ok (journal_db db) \<and>
     (\<forall>r\<in>set (datastore_db db). data_row r) \<and> (\<forall>r\<in>set (journal_db db). journal_row r)"

text \<open>
  The database works, the clock is set, and the memory of the functions that have returned is left
  alone until the database has read it.
\<close>

definition env_ok :: "lmdb_env \<Rightarrow> bool" where
  "env_ok env \<longleftrightarrow> env_begin env \<and> (\<forall>r. env_error env r = 0) \<and> (\<forall>n. time_ok (env_clock env n)) \<and> (\<forall>bs. env_stale env bs = bs)"

lemma encode_data:
  assumes "time_ok (ds_timestamp r)" and "length (ds_value r) < 2 ^ 32"
  shows "repo_fsrepo_lmdb_encode_record r = Inr (stamp (ds_timestamp r) @ ds_value r)"
  using assms stamp_length [OF assms(1)]
  by (simp add: repo_fsrepo_lmdb_encode_record_def stamp_encode malloc_ok_def)

lemma build_data: "repo_fsrepo_lmdb_build_record key (stamp ts @ v) = Inr \<lparr>ds_key = key, ds_value = v, ds_timestamp = ts\<rparr>"
  using varint_decode_leb128 [of ts "int (length (stamp ts @ v))" v] by (simp add: repo_fsrepo_lmdb_build_record_def)

lemma build_journal:
  "lmdb_journalstore_build_record (stamp ts, p # q # h) =
    Inr \<lparr>jr_timestamp = ts, jr_pin = uint p, jr_pending = uint q, jr_hash = h\<rparr>"
  using varint_decode_leb128 [of ts "int (length (stamp ts))" "[]"] by (simp add: lmdb_journalstore_build_record_def)

lemma key_value:
  assumes "env_ok env" and "time_ok (jr_timestamp r)"
  shows "lmdb_journalstore_build_key_value_pair env r =
    (stamp (jr_timestamp r), word_of_int (jr_pin r) # word_of_int (jr_pending r) # jr_hash r)"
  using assms by (simp add: lmdb_journalstore_build_key_value_pair_def lmdb_journalstore_generate_key_def stamp_encode env_ok_def)

lemma env_mdb_put:
  assumes "env_ok env" and "key \<noteq> []" and "length key \<le> 511" and "length data \<le> 511"
  shows "mdb_put env t key data nodup =
    (if nodup \<and> (key, data) \<in> set t then (MDB_KEYEXIST, t) else (0, mdb_insert (key, data) t))"
  using assms by (simp add: mdb_put_def env_ok_def)

section \<open>Getting\<close>

lemma lmdb_get:
  assumes "lmdb_ok db" and "env_ok env"
  shows "\<exists>r. repo_fsrepo_lmdb_get env k db = Inr r \<and>
      repo_fsrepo_lmdb_get_with_transaction k (datastore_db db) = Inr r \<and>
      (case mdb_get (datastore_db db) k of
         None \<Rightarrow> r = None
       | Some w \<Rightarrow> \<exists>ts v. time_ok ts \<and> w = stamp ts @ v \<and> r = Some \<lparr>ds_key = k, ds_value = v, ds_timestamp = ts\<rparr>)"
proof (cases "mdb_get (datastore_db db) k")
  case None
  then show ?thesis using assms by (simp add: repo_fsrepo_lmdb_get_def repo_fsrepo_lmdb_get_with_transaction_def env_ok_def)
next
  case (Some w)
  then obtain ts v where w: "time_ok ts" "w = stamp ts @ v"
    using mdb_get_in [OF Some] assms(1) by (auto simp: lmdb_ok_def data_row_def)
  then show ?thesis using Some assms(2)
    by (auto simp: repo_fsrepo_lmdb_get_def repo_fsrepo_lmdb_get_with_transaction_def env_ok_def build_data)
qed

lemma lmdb_get_eq:
  assumes "lmdb_ok db" and "env_ok env" and "mdb_get (datastore_db db) k = Some (stamp ts @ v)"
  shows "repo_fsrepo_lmdb_get env k db = Inr (Some \<lparr>ds_key = k, ds_value = v, ds_timestamp = ts\<rparr>)"
  using assms by (simp add: repo_fsrepo_lmdb_get_def repo_fsrepo_lmdb_get_with_transaction_def env_ok_def build_data)

section \<open>Putting\<close>

definition record_fits :: "datastore_record \<Rightarrow> bool" where
  "record_fits r \<longleftrightarrow> 0 < length (ds_key r) \<and> length (ds_key r) \<le> 509 \<and> length (ds_value r) \<le> 503"

lemma time_put_ok: "time_ok now \<Longrightarrow> time_ok (time_put now ts)"
  by (auto simp: time_put_def time_ok_def word_gt_0 not_less word_le_nat_alt)

lemma lmdb_ok_insert:
  assumes "lmdb_ok db" and "time_ok ts"
  shows "lmdb_ok (db\<lparr>datastore_db := mdb_insert (k, stamp ts @ v) (datastore_db db), ticks := n\<rparr>)"
    and "lmdb_ok (db\<lparr>journal_db := mdb_insert (stamp ts, p # q # h) (journal_db db)\<rparr>)"
  using assms by (auto simp: lmdb_ok_def table_ok_insert data_row_def journal_row_def)

lemma put_rows_new:
  assumes "env_ok env" and "record_fits r" and "time_ok (ds_timestamp r)"
  defines "row \<equiv> (ds_key r, stamp (ds_timestamp r) @ ds_value r)"
  assumes "row \<notin> set (datastore_db db)"
  shows "put_rows env r None db =
      Inr (1, db\<lparr>datastore_db := mdb_insert row (datastore_db db),
        journal_db := mdb_insert (stamp (ds_timestamp r), 1 # 1 # ds_key r) (journal_db db)\<rparr>)"
    and "put_rows env r (Some j) db =
      (if jr_timestamp j = ds_timestamp r then Inr (0, db\<lparr>datastore_db := mdb_insert row (datastore_db db)\<rparr>)
       else if length (jr_hash j) \<le> 509 then Inr (1, db\<lparr>datastore_db := mdb_insert row (datastore_db db),
          journal_db := mdb_insert (stamp (ds_timestamp r), word_of_int (jr_pin j) # word_of_int (jr_pending j) # jr_hash j) (journal_db db)\<rparr>)
       else Inr (0, db\<lparr>datastore_db := mdb_insert row (datastore_db db)\<rparr>))"
proof -
  note len = stamp_length [OF assms(3)]
  have enc: "repo_fsrepo_lmdb_encode_record r = Inr (stamp (ds_timestamp r) @ ds_value r)"
    using encode_data [OF assms(3)] assms(2) by (simp add: record_fits_def)
  have put: "mdb_put env (datastore_db db) (ds_key r) (stamp (ds_timestamp r) @ ds_value r) True = (0, mdb_insert row (datastore_db db))"
    using len assms(2,5) by (subst env_mdb_put [OF assms(1)]) (auto simp: record_fits_def row_def)
  have journal: "mdb_put env t (stamp (ds_timestamp r)) (p # q # h) False =
      (if length h \<le> 509 then (0, mdb_insert (stamp (ds_timestamp r), p # q # h) t) else (MDB_BAD_VALSIZE, t))" for t p q h
    using len assms(1) by (auto simp: mdb_put_def env_ok_def)
  show "put_rows env r None db =
      Inr (1, db\<lparr>datastore_db := mdb_insert row (datastore_db db),
        journal_db := mdb_insert (stamp (ds_timestamp r), 1 # 1 # ds_key r) (journal_db db)\<rparr>)"
    using enc put journal assms(2,3)
    by (simp add: put_rows_def key_value [OF assms(1)] lmdb_journalstore_journal_add_def record_fits_def)
  show "put_rows env r (Some j) db =
      (if jr_timestamp j = ds_timestamp r then Inr (0, db\<lparr>datastore_db := mdb_insert row (datastore_db db)\<rparr>)
       else if length (jr_hash j) \<le> 509 then Inr (1, db\<lparr>datastore_db := mdb_insert row (datastore_db db),
          journal_db := mdb_insert (stamp (ds_timestamp r), word_of_int (jr_pin j) # word_of_int (jr_pending j) # jr_hash j) (journal_db db)\<rparr>)
       else Inr (0, db\<lparr>datastore_db := mdb_insert row (datastore_db db)\<rparr>))"
    using enc put journal assms(3)
    by (simp add: put_rows_def key_value [OF assms(1)] lmdb_journalstore_cursor_put_def MDB_BAD_VALSIZE_def)
qed

lemma put_rows_again:
  assumes "env_ok env" and "record_fits r" and "time_ok (ds_timestamp r)"
    and "(ds_key r, stamp (ds_timestamp r) @ ds_value r) \<in> set (datastore_db db)"
  shows "put_rows env r j db = Inr (MDB_KEYEXIST, db)"
  using assms encode_data [OF assms(3)] stamp_length [OF assms(3)]
  by (simp add: put_rows_def env_mdb_put [OF assms(1)] record_fits_def MDB_KEYEXIST_def)

lemma put_fresh:
  assumes "lmdb_ok db" and "env_ok env" and "record_fits r" and "mdb_get (datastore_db db) (ds_key r) = None"
  defines "ts \<equiv> time_put (env_clock env (ticks db)) (ds_timestamp r)"
  defines "db' \<equiv> \<lparr>datastore_db = mdb_insert (ds_key r, stamp ts @ ds_value r) (datastore_db db),
      journal_db = mdb_insert (stamp ts, 1 # 1 # ds_key r) (journal_db db), ticks = ticks db + 1\<rparr>"
  shows "repo_fsrepo_lmdb_put env r db = Some (Inr (1, r\<lparr>ds_timestamp := ts\<rparr>, db'))" and "lmdb_ok db'" and "time_ok ts"
proof -
  show ts: "time_ok ts" using assms(2) by (simp add: env_ok_def ts_def time_put_ok)
  have get: "repo_fsrepo_lmdb_get_with_transaction (ds_key r) (datastore_db db) = Inr None"
    using assms(4) by (simp add: repo_fsrepo_lmdb_get_with_transaction_def)
  have new: "(ds_key r, stamp ts @ ds_value r) \<notin> set (datastore_db db)"
    using assms(3,4) by (auto simp: mdb_get_None record_fits_def)
  show "repo_fsrepo_lmdb_put env r db = Some (Inr (1, r\<lparr>ds_timestamp := ts\<rparr>, db'))"
    using put_rows_new(1) [OF assms(2), of "r\<lparr>ds_timestamp := ts\<rparr>" "db\<lparr>ticks := ticks db + 1\<rparr>"] assms(2,3) get new ts
    by (simp add: repo_fsrepo_lmdb_put_def env_ok_def lend_time_def record_fits_def db'_def Let_def
        ts_def [symmetric] split: prod.split)
  show "lmdb_ok db'"
    using assms(1) ts by (auto simp: lmdb_ok_def db'_def table_ok_insert data_row_def journal_row_def)
qed

text \<open>A record that is there: one without a time is not looked for among those of the journal, which all have one.\<close>

lemma get_record_untimed:
  assumes "lmdb_ok db" and "jr_timestamp want = 0" and "jr_hash want \<noteq> []"
  shows "\<exists>c. lmdb_journalstore_get_record env (journal_db db) (snd (lmdb_journalstore_cursor_open env None True)) (Some want) =
    Some (Inr (False, c, Some want))"
proof (cases "journal_db db")
  case Nil
  then show ?thesis
    by (simp add: lmdb_journalstore_get_record_def lmdb_journalstore_cursor_open_def lmdb_trans_cursor_new_def
        lmdb_journalstore_cursor_get_def mdb_cursor_get_def Let_def)
next
  case (Cons row rows)
  then have "journal_row row" using assms(1) by (simp add: lmdb_ok_def)
  then obtain ts p q h where "time_ok ts" "row = (stamp ts, p # q # h)" by (auto simp: journal_row_def)
  then have "find_exact (journal_db db) want 0 = Some (Inr (None, 0))"
    using assms(2) Cons
    by (subst find_exact.simps) (auto simp: build_journal lmdb_journalstore_composite_key_compare_def time_ok_def)
  then show ?thesis using assms(3) Cons
    by (simp add: lmdb_journalstore_get_record_def lmdb_journalstore_cursor_open_def lmdb_trans_cursor_new_def
        lmdb_journalstore_cursor_get_def mdb_cursor_get_def Let_def)
qed

lemma put_untimed_again:
  assumes "lmdb_ok db" and "env_ok env" and "record_fits r" and "ds_timestamp r = 0"
    and "mdb_get (datastore_db db) (ds_key r) = Some w"
  defines "now \<equiv> env_clock env (ticks db)"
  shows "\<exists>n db'. repo_fsrepo_lmdb_put env r db = Some (Inr (n, r\<lparr>ds_timestamp := now\<rparr>, db')) \<and> n \<noteq> 0 \<and> lmdb_ok db' \<and>
    datastore_db db' = mdb_insert (ds_key r, stamp now @ ds_value r) (datastore_db db)"
proof -
  have now: "time_ok now" using assms(2) by (simp add: env_ok_def now_def)
  obtain e where e: "repo_fsrepo_lmdb_get_with_transaction (ds_key r) (datastore_db db) = Inr (Some e)"
    using lmdb_get [OF assms(1,2), of "ds_key r"] assms(5) by auto
  let ?want = "lmdb_journal_record_new\<lparr>jr_hash := ds_key r, jr_timestamp := 0\<rparr>" and ?r = "r\<lparr>ds_timestamp := now\<rparr>"
  let ?row = "(ds_key r, stamp now @ ds_value r)" and ?db = "db\<lparr>ticks := ticks db + 1\<rparr>"
  have "jr_hash ?want \<noteq> []" using assms(3) by (auto simp: record_fits_def)
  from get_record_untimed [OF assms(1) _ this] obtain c where
    c: "lmdb_journalstore_get_record env (journal_db db) (snd (lmdb_journalstore_cursor_open env None True)) (Some ?want) =
      Some (Inr (False, c, Some ?want))" by auto
  have lend: "lend_time (Some e) r = r" using assms(4) by (simp add: lend_time_def)
  have fits: "record_fits ?r" "time_ok (ds_timestamp ?r)" using assms(3) now by (simp_all add: record_fits_def)
  obtain n db' where rows: "put_rows env ?r (Some ?want) ?db = Inr (n, db')" "n \<noteq> 0" "lmdb_ok db'"
    "datastore_db db' = mdb_insert ?row (datastore_db db)"
  proof (cases "?row \<in> set (datastore_db db)")
    case True
    have "mdb_insert ?row (datastore_db db) = datastore_db db"
      using assms(1) True by (simp add: lmdb_ok_def mdb_insert_present)
    then show ?thesis
      using put_rows_again [OF assms(2) fits, of ?db] True assms(1) that [of MDB_KEYEXIST ?db]
      by (simp add: MDB_KEYEXIST_def lmdb_ok_def)
  next
    case False
    have "lmdb_ok (?db\<lparr>datastore_db := mdb_insert ?row (datastore_db db),
        journal_db := mdb_insert (stamp now, 0 # 0 # ds_key r) (journal_db db)\<rparr>)"
      using assms(1) now by (auto simp: lmdb_ok_def table_ok_insert data_row_def journal_row_def)
    moreover have "now \<noteq> 0" using now by (auto simp: time_ok_def)
    ultimately show ?thesis
      using put_rows_new(2) [OF assms(2) fits, of ?db ?want] False assms(3)
        that [of 1 "?db\<lparr>datastore_db := mdb_insert ?row (datastore_db db),
          journal_db := mdb_insert (stamp now, 0 # 0 # ds_key r) (journal_db db)\<rparr>"]
      by (auto simp: record_fits_def lmdb_journal_record_new_def)
  qed
  have "repo_fsrepo_lmdb_put env r db = Some (Inr (n, ?r, db'))"
    using assms(2,4) e c lend rows(1)
    by (cases "lmdb_journalstore_cursor_open env None True")
      (simp add: repo_fsrepo_lmdb_put_def env_ok_def Let_def now_def time_put_def)
  then show ?thesis using rows by blast
qed

section \<open>The contract of the store\<close>

lemma lmdb_put_block:
  assumes "lmdb_ok db" and "env_ok env" and "block_record r"
  shows "\<exists>n r' db'. repo_fsrepo_lmdb_put env r db = Some (Inr (n, r', db')) \<and> n \<noteq> 0 \<and> lmdb_ok db' \<and>
    (\<forall>k. (mdb_get (datastore_db db') k \<noteq> None) = (k = ds_key r \<or> mdb_get (datastore_db db) k \<noteq> None))"
proof -
  have fits: "record_fits r" "ds_timestamp r = 0" "ds_key r \<noteq> []" using assms(3) by (auto simp: block_record_def record_fits_def)
  have found: "(mdb_get (mdb_insert (ds_key r, v) t) k \<noteq> None) = (k = ds_key r \<or> mdb_get t k \<noteq> None)" for v t k
    using fits(3) by (auto simp: mdb_get_None)
  show ?thesis
  proof (cases "mdb_get (datastore_db db) (ds_key r)")
    case None
    then show ?thesis using put_fresh [OF assms(1,2) fits(1)] found by fastforce
  next
    case (Some w)
    then show ?thesis using put_untimed_again [OF assms(1,2) fits(1,2)] found by metis
  qed
qed


text \<open>An environment in which all works, at one time, for the examples.\<close>

definition env_at :: "u64 \<Rightarrow> lmdb_env" where
  "env_at now = \<lparr>env_begin = True, env_error = (\<lambda>_. 0), env_clock = (\<lambda>_. now), env_stale = (\<lambda>bs. bs)\<rparr>"

lemma env_at: "time_ok now \<Longrightarrow> env_ok (env_at now)"
  by (simp add: env_ok_def env_at_def)

definition no_rows :: lmdb where
  "no_rows = \<lparr>datastore_db = [], journal_db = [], ticks = 0\<rparr>"

lemma no_rows: "lmdb_ok no_rows"
  by (simp add: no_rows_def lmdb_ok_def)


section \<open>New records and updates\<close>





text \<open>
  An update with the time of the record that is there is reported as a failure, though it is stored. So is one with an
  earlier time, which is how the journal protocol adjusts times. (The first row of the journal is one of another time, or the one of the record.)
\<close>

theorem lmdb_update_reports_failure:
  assumes "lmdb_ok db" and "env_ok env" and "record_fits r" and "time_ok (ds_timestamp r)"
    and "ds_timestamp r \<le> env_clock env (ticks db)"
    and "repo_fsrepo_lmdb_get env (ds_key r) db = Inr (Some e)" and "ds_timestamp r \<le> ds_timestamp e"
    and "journal_db db = (stamp ts, p # q # h) # rows" and "ts \<noteq> ds_timestamp r \<or> h = ds_key r"
    and "(ds_key r, stamp (ds_timestamp r) @ ds_value r) \<notin> set (datastore_db db)"
  shows "\<exists>db'. repo_fsrepo_lmdb_put env r db = Some (Inr (0, r, db')) \<and> journal_db db' = journal_db db \<and>
    set (datastore_db db') = insert (ds_key r, stamp (ds_timestamp r) @ ds_value r) (set (datastore_db db))"
proof -
  have get: "repo_fsrepo_lmdb_get_with_transaction (ds_key r) (datastore_db db) = Inr (Some e)"
    using assms(2,6) by (simp add: repo_fsrepo_lmdb_get_def env_ok_def)
  have lend: "lend_time (Some e) r = r" using assms(7) by (auto simp: lend_time_def)
  have same: "r\<lparr>ds_timestamp := time_put (env_clock env (ticks db)) (ds_timestamp r)\<rparr> = r"
    using assms(4,5) by (auto simp: time_put_def time_ok_def)
  let ?want = "lmdb_journal_record_new\<lparr>jr_hash := ds_key r, jr_timestamp := ds_timestamp r\<rparr>"
  have row: "journal_db db ! 0 = (stamp ts, p # q # h)" using assms(8) by simp
  have equal: "List.find (\<lambda>(p, q). p \<noteq> q) (zip xs xs) = None" for xs :: bytes by (induction xs) auto
  have "\<exists>found. find_exact (journal_db db) ?want 0 = Some (Inr (found, 0))"
    using assms(9) by (subst find_exact.simps)
      (auto simp: row build_journal lmdb_journalstore_composite_key_compare_def lmdb_journal_record_new_def equal)
  then obtain found where "find_exact (journal_db db) ?want 0 = Some (Inr (found, 0))" by blast
  moreover have "jr_hash ?want \<noteq> []" using assms(3) by (auto simp: record_fits_def)
  ultimately obtain b c j where c: "lmdb_journalstore_get_record env (journal_db db) (snd (lmdb_journalstore_cursor_open env None True)) (Some ?want) =
      Some (Inr (b, c, Some j))" "jr_timestamp j = ds_timestamp r"
    using assms(8)
    by (cases found) (auto simp: lmdb_journalstore_get_record_def lmdb_journalstore_cursor_open_def lmdb_trans_cursor_new_def
        lmdb_journalstore_cursor_get_def mdb_cursor_get_def Let_def)
  let ?db = "db\<lparr>ticks := ticks db + 1\<rparr>" and ?row = "(ds_key r, stamp (ds_timestamp r) @ ds_value r)"
  have "put_rows env r (Some j) ?db = Inr (0, ?db\<lparr>datastore_db := mdb_insert ?row (datastore_db db)\<rparr>)"
    using put_rows_new(2) [OF assms(2-4), of ?db j] assms(10) c(2) by simp
  then have "repo_fsrepo_lmdb_put env r db = Some (Inr (0, r, ?db\<lparr>datastore_db := mdb_insert ?row (datastore_db db)\<rparr>))"
    using assms(2) get lend same c(1)
    by (cases "lmdb_journalstore_cursor_open env None True")
      (simp add: repo_fsrepo_lmdb_put_def env_ok_def Let_def)
  then show ?thesis by simp
qed

theorem lmdb_update_reports_failure_witness:
  "\<exists>db'. repo_fsrepo_lmdb_put (env_at 101) \<lparr>ds_key = [1], ds_value = [8], ds_timestamp = 90\<rparr>
      \<lparr>datastore_db = [([1], [100, 7])], journal_db = [([100], [1, 1, 1])], ticks = 1\<rparr> =
      Some (Inr (0, \<lparr>ds_key = [1], ds_value = [8], ds_timestamp = 90\<rparr>, db')) \<and>
    ([1], [90, 8]) \<in> set (datastore_db db')"
proof -
  let ?db = "\<lparr>datastore_db = [([1], [100, 7])], journal_db = [([100], [1, 1, 1])], ticks = 1\<rparr>"
  let ?r = "\<lparr>ds_key = [1], ds_value = [8], ds_timestamp = 90\<rparr>"
  have t: "time_ok 101" "time_ok 100" "time_ok 90" "stamp 100 = [100]" "stamp 90 = [90]" by (simp_all add: time_ok_def leb128_small)
  have "data_row ([1], [100, 7])" using t(2,4) by (auto simp: data_row_def intro!: exI [of _ 100])
  moreover have "journal_row ([100], [1, 1, 1])" using t(2,4) by (auto simp: journal_row_def intro!: exI [of _ 100])
  ultimately have "lmdb_ok ?db" by (simp add: lmdb_ok_def table_ok_Cons)
  note ok = this
  have "mdb_get (datastore_db ?db) (ds_key ?r) = Some (stamp 100 @ [7])" using t(4) by (simp add: mdb_get_def)
  note e = lmdb_get_eq [OF ok env_at [OF t(1)] this]
  have "record_fits ?r" "time_ok (ds_timestamp ?r)" "ds_timestamp ?r \<le> env_clock (env_at 101) (ticks ?db)"
    using t(3) by (simp_all add: record_fits_def env_at_def)
  from lmdb_update_reports_failure [OF ok env_at [OF t(1)] this e, of 100 1 1 "[1]" "[]"] t(4,5) show ?thesis by auto
qed

end
