(* ===== verification/Journal_Protocol.thy ===== *)
theory Journal_Protocol
  imports Lmdb_Datastore Journal Peerstore Net_Protocol
begin

text \<open>
  The journal protocol, \<open>libipfs/journal/journal.c\<close>: a node tells another one what came into its store
  lately, and the other one fetches what it does not have.

  The store is a \<open>struct Datastore\<close> as in \<open>Blockstore\<close>, the exchange a state with a call that asks for a block. A
  message is decoded with one byte more than it has; what lies there is the parameter \<open>beyond\<close>.
\<close>

section \<open>Sending\<close>

definition journal_header :: bytes where
  "journal_header = map of_char ''/ipfs/journalio/1.0.0''"

definition ipfs_journal_can_handle :: "stream_message option \<Rightarrow> bool" where
  "ipfs_journal_can_handle msg =
     (case msg of
        None \<Rightarrow> False
      | Some m \<Rightarrow>
          (case msg_data m of
             None \<Rightarrow> False
           | Some d \<Rightarrow> 21 \<le> length d \<and> strnstr d journal_header (length d) = Some 0))"

text \<open>
  The vector holds the pointer of one record, as often as the number says: the record that the first read makes is handed to
  the later ones, which look for it again. \<open>left\<close> is how often the loop may go on.
\<close>

fun get_last_loop ::
    "mdb_table \<Rightarrow> lmdb_trans_cursor \<Rightarrow> journal_record \<Rightarrow> nat \<Rightarrow> nat \<Rightarrow> (journal_record \<times> nat) run" where
  "get_last_loop t tc r left vec =
     bind_run (lmdb_journalstore_cursor_get t tc CURSOR_PREVIOUS (Some r)) (\<lambda>(ok, tc', r').
     let r1 = (case r' of None \<Rightarrow> r | Some x \<Rightarrow> x) in
     if \<not> ok then Some (Inr (r1, vec + 1))
     else case left of 0 \<Rightarrow> Some (Inr (r1, vec + 1)) | Suc l \<Rightarrow> get_last_loop t tc' r1 l (vec + 1))"

declare get_last_loop.simps [simp del]

definition ipfs_journal_get_last :: "lmdb_env \<Rightarrow> lmdb \<Rightarrow> int \<Rightarrow> (journal_record \<times> nat) option run" where
  "ipfs_journal_get_last env db n =
     (let (ok, cursor) = lmdb_journalstore_cursor_open env None False in
      if \<not> ok then Some (Inr None)
      else
        bind_run (lmdb_journalstore_cursor_get (journal_db db) cursor CURSOR_LAST None) (\<lambda>(ok, cursor1, r).
        case r of
          Some x \<Rightarrow>
            if ok then bind_run (get_last_loop (journal_db db) cursor1 x (nat (n - 1)) 0) (\<lambda>res. Some (Inr (Some res)))
            else Some (Inr None)
        | None \<Rightarrow> Some (Inr None)))"

text \<open>Every pointer of the vector is freed.\<close>

definition ipfs_journal_free_records :: "(journal_record \<times> nat) option \<Rightarrow> unit result" where
  "ipfs_journal_free_records records =
     (case records of None \<Rightarrow> Inr () | Some (r, n) \<Rightarrow> if 2 \<le> n then Inl Undefined else Inr ())"

text \<open>
  \<open>connects\<close> is the answer of the dialer. The stream's write is given the session instead of its own context.
\<close>

definition ipfs_journal_send_message :: "bool \<Rightarrow> libp2p_peer \<Rightarrow> journal_message \<Rightarrow> bool result" where
  "ipfs_journal_send_message connects peer message =
     (if connection_type peer \<noteq> CONNECTION_TYPE_CONNECTED \<and> \<not> connects then Inr False
      else
        case ipfs_journal_message_encode message (c_size (ipfs_journal_message_encode_size message)) of
          Inl e \<Rightarrow> (if e = Failure then Inr False else Inl e)
        | Inr bs \<Rightarrow> Inl Undefined)"

record replication_peer =
  rp_peer :: libp2p_peer
  rp_lastConnect :: u64
  rp_lastJournalTime :: u64

text \<open>The entries of the message are made one for each pointer of the vector.\<close>

definition journal_message_of :: "journal_record \<Rightarrow> nat \<Rightarrow> journal_message" where
  "journal_message_of r n =
     ipfs_journal_message_new\<lparr>end_epoch := jr_timestamp r, start_epoch := jr_timestamp r,
       journal_entries := replicate n (ipfs_journal_entry_new\<lparr>timestamp := jr_timestamp r, pin := 1, je_hash := jr_hash r\<rparr>)\<rparr>"

text \<open>\<open>secure\<close> says of a session whether it has a secure stream, \<open>now\<close> is the time.\<close>

definition ipfs_journal_sync ::
    "lmdb_env \<Rightarrow> (session_context \<Rightarrow> bool) \<Rightarrow> bool \<Rightarrow> u64 \<Rightarrow> peerstore \<Rightarrow> lmdb \<Rightarrow> replication_peer \<Rightarrow>
     (bool \<times> replication_peer) run" where
  "ipfs_journal_sync env secure connects now peers db rp =
     bind_run (Some (libp2p_peer_id_to_string (rp_peer rp))) (\<lambda>s.
     case libp2p_peerstore_get_peer peers (peer_id (rp_peer rp)) of
       None \<Rightarrow> Some (Inr (False, rp))
     | Some i \<Rightarrow>
         let peer = peers ! i in
         if is_local peer then Some (Inr (False, rp))
         else if (case session peer of None \<Rightarrow> True | Some c \<Rightarrow> \<not> secure c) then Some (Inr (False, rp))
         else
           bind_run (ipfs_journal_get_last env db 10) (\<lambda>records.
           case records of
             None \<Rightarrow> Some (Inr (True, rp\<lparr>rp_lastConnect := now\<rparr>))
           | Some (r, n) \<Rightarrow>
               let message = (journal_message_of r n)\<lparr>current_epoch := now\<rparr> in
               bind_run (Some (ipfs_journal_send_message connects peer message)) (\<lambda>ret.
               bind_run (Some (ipfs_journal_free_records records)) (\<lambda>u.
               Some (Inr (ret,
                 if ret then rp\<lparr>rp_lastConnect := now, rp_lastJournalTime := end_epoch message\<rparr> else rp))))))"

section \<open>What is to be done\<close>

datatype journal_action = JOURNAL_ENTRY_NEEDED | JOURNAL_TIME_ADJUST | JOURNAL_REMOTE_NEEDS

record journal_todo =
  td_action :: journal_action
  td_local_timestamp :: u64
  td_remote_timestamp :: u64
  td_hash :: bytes

definition ipfs_journal_todo_new :: journal_todo where
  "ipfs_journal_todo_new =
     \<lparr>td_action = JOURNAL_ENTRY_NEEDED, td_local_timestamp = 0, td_remote_timestamp = 0, td_hash = []\<rparr>"

definition ipfs_journal_build_todo :: "'d datastore \<Rightarrow> 'd \<Rightarrow> journal_message \<Rightarrow> journal_todo list" where
  "ipfs_journal_build_todo ds d incoming =
     concat (map (\<lambda>e.
       case datastore_get ds (je_hash e) d of
         None \<Rightarrow>
           [ipfs_journal_todo_new\<lparr>td_action := JOURNAL_ENTRY_NEEDED, td_hash := je_hash e, td_remote_timestamp := timestamp e\<rparr>]
       | Some r \<Rightarrow>
           if ds_timestamp r = 0 \<and> timestamp e \<noteq> 0 \<or> timestamp e \<noteq> 0 \<and> timestamp e < ds_timestamp r then
             [ipfs_journal_todo_new\<lparr>td_action := JOURNAL_TIME_ADJUST, td_hash := je_hash e, td_local_timestamp := ds_timestamp r,
                td_remote_timestamp := timestamp e\<rparr>]
           else []) (journal_entries incoming))"

text \<open>A record without a time is not given one: what is tested against 0 is the pointer, not the time.\<close>

definition ipfs_journal_adjust_time :: "'d datastore \<Rightarrow> journal_todo \<Rightarrow> 'd \<Rightarrow> bool \<times> 'd" where
  "ipfs_journal_adjust_time ds todo d =
     (case datastore_get ds (td_hash todo) d of
        None \<Rightarrow> (False, d)
      | Some r \<Rightarrow>
          if td_remote_timestamp todo \<noteq> 0 then
            (if td_remote_timestamp todo < ds_timestamp r
             then datastore_put ds (r\<lparr>ds_timestamp := td_remote_timestamp todo\<rparr>) d
             else (True, d))
          else datastore_put ds r d)"

text \<open>
  What follows the first newline. When that is the last byte, the next message is read, and freed before it is used.
  \<open>reply\<close> is what a read of the stream gives.
\<close>

definition journal_payload :: "bytes option \<Rightarrow> byte \<Rightarrow> bytes \<Rightarrow> bytes result" where
  "journal_payload reply beyond data =
     (case dropWhile (\<lambda>b. b \<noteq> 10) data of
        [] \<Rightarrow> Inr data
      | nl # rest \<Rightarrow>
          if rest \<noteq> [] then Inr (rest @ [beyond])
          else (case reply of None \<Rightarrow> Inl Failure | Some m \<Rightarrow> Inl Undefined))"

text \<open>
  One thing that is to be done. \<open>get_block_async\<close> answers whether it succeeded and whether the block is there already.
\<close>

definition journal_do ::
    "'d datastore \<Rightarrow> (cid \<Rightarrow> 'x \<Rightarrow> bool \<times> bool \<times> 'x) \<Rightarrow> journal_todo \<Rightarrow> 'd \<times> 'x \<Rightarrow> ('d \<times> 'x) result" where
  "journal_do ds get_block_async todo s =
     (let (d, x) = s in
      case td_action todo of
        JOURNAL_ENTRY_NEEDED \<Rightarrow>
          (case ipfs_cid_new 0 (td_hash todo) CID_DAG_PROTOBUF of
             Inl e \<Rightarrow> Inl Undefined
           | Inr c \<Rightarrow>
               let (ok, got, x') = get_block_async c x
               in Inr (if ok \<and> got then snd (ipfs_journal_adjust_time ds todo d) else d, x'))
      | JOURNAL_TIME_ADJUST \<Rightarrow> Inr (snd (ipfs_journal_adjust_time ds todo d), x)
      | JOURNAL_REMOTE_NEEDS \<Rightarrow> Inr (d, x))"

definition ipfs_journal_handle_message ::
    "'d datastore \<Rightarrow> (cid \<Rightarrow> 'x \<Rightarrow> bool \<times> bool \<times> 'x) \<Rightarrow> bytes option \<Rightarrow> byte \<Rightarrow> u64 \<Rightarrow> bytes \<Rightarrow> 'd \<times> 'x \<Rightarrow>
     (int \<times> 'd \<times> 'x) run" where
  "ipfs_journal_handle_message ds get_block_async reply beyond now data s =
     (case journal_payload reply beyond data of
        Inl e \<Rightarrow> Some (if e = Failure then Inr (- 1, s) else Inl e)
      | Inr payload \<Rightarrow>
          (case ipfs_journal_message_decode payload of
             None \<Rightarrow> None
           | Some (Inl e) \<Rightarrow> Some (if e = Failure then Inr (- 1, s) else Inl e)
           | Some (Inr message) \<Rightarrow>
               if sint (now - current_epoch message) = - (2 ^ 63) then Some (Inl Undefined)
               else if 300 < \<bar>sint (now - current_epoch message)\<bar> then Some (Inr (- 1, s))
               else
                 Some (bind_res
                   (chain (map (journal_do ds get_block_async) (ipfs_journal_build_todo ds (fst s) message)) s)
                   (\<lambda>s'. Inr (1, s')))))"

section \<open>Looking back\<close>

lemma cursor_get_previous:
  fixes t :: mdb_table
  assumes "t ! i = (stamp ts', p' # q' # h')" and "i + 1 < length t" and "t ! (i + 1) = (stamp ts, p # q # h)"
    and "h \<noteq> []" and "h' \<noteq> h \<or> ts' \<noteq> ts"
    and "tc_cursor tc = Some (Some (i + 1))"
  defines "r \<equiv> \<lparr>jr_timestamp = ts, jr_pin = uint p, jr_pending = uint q, jr_hash = h\<rparr>"
  shows "lmdb_journalstore_cursor_get t tc CURSOR_PREVIOUS (Some r) =
    Some (Inr (if ts' = ts then (True, tc, Some r) else (False, tc\<lparr>tc_cursor := Some (Some i)\<rparr>, Some r)))"
proof -
  have differ: "List.find (\<lambda>(a, b). a \<noteq> b) (zip x y) \<noteq> None" if "length x = length y" "x \<noteq> y" for x y :: bytes
    using that by (induction x y rule: list_induct2) auto
  have neq: "lmdb_journalstore_composite_key_compare (Some r) (Some \<lparr>jr_timestamp = ts', jr_pin = a, jr_pending = b, jr_hash = h'\<rparr>) \<noteq> 0" for a b
  proof (cases "ts' = ts \<and> length h' = length h")
    case True
    then have "h' \<noteq> h" using assms(5) by auto
    then obtain x y where xy: "List.find (\<lambda>(a, b). a \<noteq> b) (zip h h') = Some (x, y)" using differ [of h h'] True by auto
    then have "x \<noteq> y" by (auto simp: find_Some_iff)
    then have "uint x \<noteq> uint y" by (simp add: word_uint_eq_iff)
    then show ?thesis using True xy by (auto simp: lmdb_journalstore_composite_key_compare_def r_def)
  next
    case False
    then show ?thesis by (auto simp: lmdb_journalstore_composite_key_compare_def r_def)
  qed
  have equal: "List.find (\<lambda>(p, q). p \<noteq> q) (zip xs xs) = None" for xs :: bytes by (induction xs) auto
  have "find_exact t r i = Some (Inr (if ts' = ts then (Some r, i + 1) else (None, i)))"
  proof (cases "ts' = ts")
    case True
    have "find_exact t r (i + 1) = Some (Inr (Some r, i + 1))"
      by (subst find_exact.simps)
        (simp add: assms(3) [simplified] build_journal r_def lmdb_journalstore_composite_key_compare_def equal)
    moreover have "find_exact t r i = find_exact t r (i + 1)"
      using neq True assms(2) by (subst find_exact.simps) (simp add: assms(1) build_journal r_def mdb_cursor_get_def)
    ultimately show ?thesis using True by simp
  next
    case False
    then show ?thesis
      using neq by (subst find_exact.simps) (auto simp: assms(1) build_journal r_def)
  qed
  moreover have "tc\<lparr>tc_cursor := Some (Some (i + 1))\<rparr> = tc" using assms(6) by simp
  ultimately show ?thesis
    using assms(4,6) by (auto simp: lmdb_journalstore_cursor_get_def mdb_cursor_get_def r_def Let_def)
qed

text \<open>
  Looking back, the protocol never gets further than the last record. If the row before it in the journal has another time the vector is that one record;
  if it has the same time, which is what rows get that are written in the same second, the vector is filled with the pointer of the last record, which is then freed as often
  as it is there. (The last is the one whose time has the greatest bytes, lowest bits first, not the latest.)
\<close>

theorem journal_last_repeats:
  assumes "env_ok env" and "journal_db db = rows @ [(stamp ts', p' # q' # h'), (stamp ts, p # q # h)]"
    and "h \<noteq> []" and "h' \<noteq> h \<or> ts' \<noteq> ts"
  defines "r \<equiv> \<lparr>jr_timestamp = ts, jr_pin = uint p, jr_pending = uint q, jr_hash = h\<rparr>"
  shows "ipfs_journal_get_last env db n = Some (Inr (Some (r, if ts' = ts then nat (max 1 n) else 1))) \<and>
    (ts' = ts \<and> 2 \<le> n \<longrightarrow> ipfs_journal_free_records (Some (r, nat (max 1 n))) = Inl Undefined)"
proof -
  let ?t = "journal_db db" and ?i = "length rows"
  let ?tc = "\<lparr>tc_transaction = True, tc_cursor = Some (Some (?i + 1))\<rparr>"
  have rows: "?t ! ?i = (stamp ts', p' # q' # h')" "?t ! (?i + 1) = (stamp ts, p # q # h)" "length ?t = ?i + 2"
    by (simp_all add: assms(2) nth_append)
  have step: "lmdb_journalstore_cursor_get ?t ?tc CURSOR_PREVIOUS (Some r) =
      Some (Inr (if ts' = ts then (True, ?tc, Some r) else (False, ?tc\<lparr>tc_cursor := Some (Some ?i)\<rparr>, Some r)))"
    unfolding r_def by (rule cursor_get_previous [OF rows(1) _ rows(2) assms(3,4)]) (simp_all add: rows(3))
  have loop: "get_last_loop ?t ?tc r left vec = Some (Inr (r, if ts' = ts then vec + left + 1 else vec + 1))" for left vec
    by (induction left arbitrary: vec) (subst get_last_loop.simps, simp add: step [unfolded Suc_eq_plus1 [symmetric]])+
  have "lmdb_journalstore_cursor_get ?t \<lparr>tc_transaction = True, tc_cursor = Some None\<rparr> CURSOR_LAST None = Some (Inr (True, ?tc, Some r))"
    using rows by (simp add: lmdb_journalstore_cursor_get_def mdb_cursor_get_def r_def build_journal Let_def)
      (auto simp: assms(2) nth_append build_journal)
  moreover have "nat (n - 1) + 1 = nat (max 1 n)" by simp
  ultimately have "ipfs_journal_get_last env db n = Some (Inr (Some (r, if ts' = ts then nat (max 1 n) else 1)))"
    using assms(1) loop [of "nat (n - 1)" 0]
    by (simp add: ipfs_journal_get_last_def lmdb_journalstore_cursor_open_def lmdb_trans_cursor_new_def env_ok_def)
  moreover have "2 \<le> nat (max 1 n)" if "2 \<le> n" using that by (simp add: le_nat_iff)
  ultimately show ?thesis by (simp add: ipfs_journal_free_records_def)
qed

theorem journal_last_repeats_witness:
  "ipfs_journal_get_last (env_at 101) \<lparr>datastore_db = [], journal_db = [([100], [1, 1, 5]), ([100], [1, 1, 6])], ticks = 2\<rparr> 10 =
    Some (Inr (Some (\<lparr>jr_timestamp = 100, jr_pin = 1, jr_pending = 1, jr_hash = [6]\<rparr>, 10)))"
proof -
  have t: "time_ok 101" "stamp 100 = [100]" by (simp_all add: time_ok_def leb128_small)
  let ?db = "\<lparr>datastore_db = [], journal_db = [([100], [1, 1, 5]), ([100], [1, 1, 6])], ticks = 2\<rparr>"
  have "journal_db ?db = [] @ [(stamp 100, 1 # 1 # [5]), (stamp 100, 1 # 1 # [6])]" using t(2) by simp
  from journal_last_repeats [OF env_at [OF t(1)] this, of 10] show ?thesis by simp
qed



section \<open>Handling a message\<close>

text \<open>A message of which only the header is in the first frame, as the sender writes it, is used after it was freed.\<close>

lemma drop_to_newline: "10 \<notin> set header \<Longrightarrow> dropWhile (\<lambda>b. b \<noteq> 10) (header @ 10 # rest) = 10 # rest"
  for header :: "8 word list"
  by (induction header) auto

lemma journal_second_frame_faults:
  assumes "10 \<notin> set header"
  shows "ipfs_journal_handle_message ds ask (Some m) beyond now (header @ [10]) s = Some (Inl Undefined)"
  using assms by (simp add: ipfs_journal_handle_message_def journal_payload_def drop_to_newline)

lemma decode_with_beyond:
  assumes "journal_message_wf m" and "length (wire (journal_message_fields m)) + 1 < 2 ^ 31"
    and "beyond < 8 \<or> 40 \<le> beyond \<and> beyond < 128"
  shows "ipfs_journal_message_decode (wire (journal_message_fields m) @ [beyond]) = Some (Inr (journal_message_norm m))"
proof -
  let ?w = "wire (journal_message_fields m)"
  let ?buf = "?w @ [beyond]" and ?k = "unat beyond div 8"
  have n: "length ?buf < 2 ^ 31" using assms(2) by simp
  have b: "unat beyond < 128" "?k \<notin> {1, 2, 3, 4}"
    using assms(3) by (auto simp: word_less_nat_alt word_le_nat_alt)
  then have "leb128 (8 * ?k + unat beyond mod 8) = [beyond]" by (simp add: leb128_small)
  then have "\<exists>t. protobuf_decode_field_and_type [beyond] (length ?buf) = Inr (int ?k, t, 1)"
    using varint_decode_tag [of ?k "unat beyond mod 8" "length ?buf" "[]"] b(1) n by simp
  moreover have "ipfs_journal_message_field ?buf (int ?k) pos s = Some (Inr (s, pos))" for pos s
    using b(2) by (auto simp: ipfs_journal_message_field_def Let_def)
  ultimately have "pb_decode_loop (ipfs_journal_message_field ?buf) ?buf (length ?w) s = Some (Inr s)" for s
    by (cases s; subst pb_decode_loop.simps) (auto simp: pb_decode_loop_end)
  moreover have "fold journal_message_store (journal_message_fields m) (ipfs_journal_message_new, False) = (journal_message_norm m, True)"
    using assms(1) by (simp add: journal_message_fields_def journal_message_wf_def fold_entries ipfs_journal_message_new_def
        journal_message_norm_def)
  moreover have "pb_decode_loop (ipfs_journal_message_field ?buf) ?buf 0 (ipfs_journal_message_new, False) =
      pb_decode_loop (ipfs_journal_message_field ?buf) ?buf (0 + length ?w)
        (fold journal_message_store (journal_message_fields m) (ipfs_journal_message_new, False))"
    by (rule pb_decode_loop_wire_rest [OF n journal_message_decodes [OF n assms(1)]]) simp_all
  ultimately show ?thesis by (simp add: ipfs_journal_message_decode_def)
qed

text \<open>What is done in the end, for an exchange that notes what it is asked for.\<close>

lemma journal_do_all:
  assumes "\<forall>td\<in>set todos. length (td_hash td) < 2 ^ 20"
  shows "chain (map (journal_do ds (\<lambda>c x. (True, False, x @ [c]))) todos) (d, x) =
    Inr (fold (\<lambda>td d. snd (ipfs_journal_adjust_time ds td d)) (filter (\<lambda>td. td_action td = JOURNAL_TIME_ADJUST) todos) d,
      x @ map (\<lambda>td. \<lparr>cid_version = 0, cid_codec = CID_DAG_PROTOBUF, cid_hash = td_hash td\<rparr>)
        (filter (\<lambda>td. td_action td = JOURNAL_ENTRY_NEEDED) todos))"
  using assms
proof (induction todos arbitrary: d x)
  case (Cons td todos)
  then show ?case
    by (cases "td_action td") (simp_all add: journal_do_def ipfs_cid_new_def malloc_ok_def c_char_def CID_DAG_PROTOBUF_def)
qed simp

lemma build_todo_needed:
  "filter (\<lambda>td. td_action td = JOURNAL_ENTRY_NEEDED) (ipfs_journal_build_todo ds d m) =
    map (\<lambda>e. ipfs_journal_todo_new\<lparr>td_action := JOURNAL_ENTRY_NEEDED, td_hash := je_hash e, td_remote_timestamp := timestamp e\<rparr>)
      (filter (\<lambda>e. datastore_get ds (je_hash e) d = None) (journal_entries m))"
proof -
  have "filter P (concat (map f es)) = map g (filter Q es)"
    if "\<And>e. filter P (f e) = (if Q e then [g e] else [])" for P f g Q and es :: "journal_entry list"
    by (induction es) (simp_all add: that)
  then show ?thesis unfolding ipfs_journal_build_todo_def by (rule meta_mp) (auto split: option.splits)
qed

text \<open>
  C35: a message that comes in one frame is handled as it was meant: if the clocks of the two nodes are at most five minutes
  apart, each file that the message names and the store does not have is asked for, in the order of the message, and no other one; then only times
  are adjusted. (The byte behind the message, which the decoder reads as well, is not the tag of one of its fields.)
\<close>

theorem journal_message_is_handled:
  assumes "journal_message_wf m" and "length (wire (journal_message_fields m)) + 1 < 2 ^ 31"
    and "10 \<notin> set header" and "beyond < 8 \<or> 40 \<le> beyond \<and> beyond < 128"
    and "\<bar>sint (now - current_epoch m)\<bar> \<le> 300"
  shows "ipfs_journal_handle_message ds (\<lambda>c x. (True, False, x @ [c])) reply beyond now
      (header @ [10] @ wire (journal_message_fields m)) (d, []) =
    Some (Inr (1,
      fold (\<lambda>td d. snd (ipfs_journal_adjust_time ds td d))
        (filter (\<lambda>td. td_action td = JOURNAL_TIME_ADJUST) (ipfs_journal_build_todo ds d m)) d,
      map (\<lambda>e. \<lparr>cid_version = 0, cid_codec = CID_DAG_PROTOBUF, cid_hash = je_hash e\<rparr>)
        (filter (\<lambda>e. datastore_get ds (je_hash e) d = None) (journal_entries m))))"
proof -
  have entries: "journal_entries (journal_message_norm m) = map journal_entry_norm (journal_entries m)"
    by (simp add: journal_message_norm_def)
  have entry: "je_hash (journal_entry_norm e) = je_hash e" "timestamp (journal_entry_norm e) = timestamp e" for e
    by (simp_all add: journal_entry_norm_def)
  have "wire (journal_message_fields m) \<noteq> []" by (simp add: journal_message_fields_def)
  then have "journal_payload reply beyond (header @ [10] @ wire (journal_message_fields m)) =
      Inr (wire (journal_message_fields m) @ [beyond])"
    using assms(3) by (cases "wire (journal_message_fields m)") (simp_all add: journal_payload_def drop_to_newline)
  moreover have "ipfs_journal_build_todo ds d (journal_message_norm m) = ipfs_journal_build_todo ds d m"
    unfolding ipfs_journal_build_todo_def by (simp only: entries entry map_map comp_def)
  moreover have "current_epoch (journal_message_norm m) = current_epoch m" by (simp add: journal_message_norm_def)
  moreover have "\<forall>td\<in>set (ipfs_journal_build_todo ds d m). length (td_hash td) < 2 ^ 20"
    using assms(1) by (auto simp: ipfs_journal_build_todo_def journal_message_wf_def journal_entry_wf_def split: option.splits if_splits)
  ultimately show ?thesis
    using decode_with_beyond [OF assms(1,2,4)] assms(5) journal_do_all [of "ipfs_journal_build_todo ds d m" ds d "[]"]
    by (simp add: ipfs_journal_handle_message_def build_todo_needed comp_def)
qed

theorem journal_message_is_handled_witness:
  "\<exists>d'. ipfs_journal_handle_message (repo_fsrepo_lmdb_cast (env_at 101)) (\<lambda>c x. (True, False, x @ [c])) None 0 101
      (journal_header @ [10] @ wire (journal_message_fields
        \<lparr>current_epoch = 100, start_epoch = 90, end_epoch = 99, journal_entries = [\<lparr>timestamp = 90, pin = 1, je_hash = [7, 8]\<rparr>]\<rparr>))
      (no_rows, []) =
    Some (Inr (1, d', [\<lparr>cid_version = 0, cid_codec = CID_DAG_PROTOBUF, cid_hash = [7, 8]\<rparr>]))"
proof -
  let ?m = "\<lparr>current_epoch = 100, start_epoch = 90, end_epoch = 99, journal_entries = [\<lparr>timestamp = 90, pin = 1, je_hash = [7, 8]\<rparr>]\<rparr>"
  have wf: "journal_message_wf ?m" by (simp add: journal_message_wf_def journal_entry_wf_def)
  have "length (wire (journal_message_fields ?m)) + 1 < 2 ^ 31"
    by (simp add: journal_message_fields_def journal_entry_fields_def field_bytes_def leb128_small)
  moreover have "10 \<notin> set journal_header" by code_simp
  moreover have "datastore_get (repo_fsrepo_lmdb_cast (env_at 101)) [7, 8] no_rows = None"
    by (simp add: repo_fsrepo_lmdb_cast_def repo_fsrepo_lmdb_get_def repo_fsrepo_lmdb_get_with_transaction_def no_rows_def mdb_get_def)
  ultimately show ?thesis
    using journal_message_is_handled [OF wf, of journal_header 0 101 "repo_fsrepo_lmdb_cast (env_at 101)" None no_rows] by simp
qed

end
