(* ===== verification/Varhex.thy ===== *)
theory Varhex
  imports Base58
begin

text \<open>
  The hexadecimal forms that a multiaddress goes through, \<open>libp2p/multiaddr/varhexutils.c\<close>, with the numbers of
  variable length of \<open>multiaddr/varint.h\<close> and the table of protocols, \<open>multiaddr/protocols.c\<close>. Strings are lists of bytes without their
  terminating zero. The functions that return a static buffer return what is in it.
\<close>

section \<open>Digits\<close>

fun digits :: "nat \<Rightarrow> nat \<Rightarrow> nat list" where
  "digits b n = (if n < b \<or> b < 2 then [n] else digits b (n div b) @ [n mod b])"

declare digits.simps [simp del]

definition hex_upper :: "nat \<Rightarrow> byte" where
  "hex_upper d = (if d < 10 then of_nat (48 + d) else of_nat (55 + d))"

definition hex_lower :: "nat \<Rightarrow> byte" where
  "hex_lower d = (if d < 10 then of_nat (48 + d) else of_nat (87 + d))"

text \<open>\<open>%d\<close> and \<open>%lu\<close>, \<open>%02lX\<close> and \<open>%02x\<close>, the last two of a byte.\<close>

definition print_decimal :: "nat \<Rightarrow> bytes" where
  "print_decimal n = map (\<lambda>d. of_nat (48 + d)) (digits 10 n)"

definition print_02X :: "nat \<Rightarrow> bytes" where
  "print_02X n = (if n < 16 then [48] else []) @ map hex_upper (digits 16 n)"

definition pair_upper :: "byte \<Rightarrow> bytes" where
  "pair_upper b = [hex_upper (unat b div 16), hex_upper (unat b mod 16)]"

definition pair_lower :: "byte \<Rightarrow> bytes" where
  "pair_lower b = [hex_lower (unat b div 16), hex_lower (unat b mod 16)]"

text \<open>The value of a character in base 16, for \<open>strtol\<close>.\<close>

definition hex_value :: "byte \<Rightarrow> nat option" where
  "hex_value c =
     (if 48 \<le> unat c \<and> unat c \<le> 57 then Some (unat c - 48)
      else if 65 \<le> unat c \<and> unat c \<le> 70 then Some (unat c - 55)
      else if 97 \<le> unat c \<and> unat c \<le> 102 then Some (unat c - 87)
      else None)"

fun strtol_digits :: "nat \<Rightarrow> bytes \<Rightarrow> nat" where
  "strtol_digits acc [] = acc"
| "strtol_digits acc (c # cs) = (case hex_value c of None \<Rightarrow> acc | Some d \<Rightarrow> strtol_digits (16 * acc + d) cs)"

text \<open>
  \<open>strtol(code, NULL, 16)\<close> of a string of at most two characters: white space, a sign, digits. (A prefix \<open>0x\<close> has the value of its zero.)
\<close>

definition strtol16 :: "bytes \<Rightarrow> int" where
  "strtol16 code =
     (case dropWhile (\<lambda>c. c = 32 \<or> 9 \<le> unat c \<and> unat c \<le> 13) (c_string code) of
        [] \<Rightarrow> 0
      | c # cs \<Rightarrow>
          if c = 45 then - int (strtol_digits 0 cs)
          else if c = 43 then int (strtol_digits 0 cs)
          else int (strtol_digits 0 (c # cs)))"

section \<open>Numbers of variable length\<close>

text \<open>
  \<open>DEFN_ENCODER\<close> and \<open>DEFN_DECODER\<close>: what is returned (\<open>None\<close> is -1) and the bytes written, or the number. Every byte gets the bit
  that says that another one follows, the last one too; the number of bytes is limited by that of the bytes of the type.
\<close>

fun uvarint_encode_loop :: "nat \<Rightarrow> nat \<Rightarrow> 'a::len word \<Rightarrow> bytes" where
  "uvarint_encode_loop 0 bufsize val = []"
| "uvarint_encode_loop left 0 val = []"
| "uvarint_encode_loop (Suc left) (Suc bufsize) val =
     (ucast val OR 0x80) # (if drop_bit 7 val = 0 then [] else uvarint_encode_loop left bufsize (drop_bit 7 val))"

definition uvarint_encode32 :: "u32 \<Rightarrow> nat \<Rightarrow> bytes" where
  "uvarint_encode32 val bufsize = uvarint_encode_loop 4 bufsize val"

definition uvarint_encode64 :: "u64 \<Rightarrow> nat \<Rightarrow> bytes" where
  "uvarint_encode64 val bufsize = uvarint_encode_loop 8 bufsize val"

text \<open>The seven bits are shifted as an \<open>int\<close>, which has a meaning only as long as the result fits.\<close>

fun uvarint_decode_loop :: "nat \<Rightarrow> nat \<Rightarrow> bytes \<Rightarrow> 'a::len word \<Rightarrow> 'a word result" where
  "uvarint_decode_loop 0 i buf val = Inr val"
| "uvarint_decode_loop left i [] val = Inr val"
| "uvarint_decode_loop (Suc left) i (b # buf) val =
     (let bits = unat (b AND 0x7f) * 2 ^ (7 * i)
      in if 32 \<le> 7 * i \<or> 2 ^ 31 \<le> bits then Inl Undefined
         else
           let val' = val OR of_nat bits
           in if b AND 0x80 = 0 then Inr val' else uvarint_decode_loop left (Suc i) buf val')"

definition uvarint_decode32 :: "bytes \<Rightarrow> u32 result" where
  "uvarint_decode32 buf = uvarint_decode_loop 4 0 buf 0"

definition uvarint_decode64 :: "bytes \<Rightarrow> u64 result" where
  "uvarint_decode64 buf = uvarint_decode_loop 8 0 buf 0"

section \<open>Conversions\<close>

text \<open>The buffer that is returned: at first all zeros, it keeps what earlier calls left behind the new bytes.\<close>

definition Num_To_Varint_64 :: "bytes \<Rightarrow> u64 \<Rightarrow> bytes" where
  "Num_To_Varint_64 buffy n = (let v = uvarint_encode64 n 60 in v @ drop (length v) buffy)"

definition Num_To_Varint_32 :: "bytes \<Rightarrow> u32 \<Rightarrow> bytes" where
  "Num_To_Varint_32 buffy n = (let v = uvarint_encode32 n 60 in v @ drop (length v) buffy)"

definition Varint_To_Num_64 :: "bytes \<Rightarrow> u64 result" where
  "Varint_To_Num_64 input = uvarint_decode64 (take 60 input)"

definition Varint_To_Num_32 :: "bytes \<Rightarrow> u32 result" where
  "Varint_To_Num_32 input = uvarint_decode32 (take 60 input)"

definition Int_To_Hex :: "u64 \<Rightarrow> bytes" where
  "Int_To_Hex int2hex =
     (let result = print_02X (unat int2hex)
      in if odd (length result) then 48 # result else result)"

text \<open>A character that is no digit counts with its low four bits.\<close>

definition nibble :: "byte \<Rightarrow> byte" where
  "nibble c =
     (if 48 \<le> c \<and> c \<le> 57 then c - 48
      else if 97 \<le> c \<and> c \<le> 102 then c - 97 + 10
      else if 65 \<le> c \<and> c \<le> 70 then c - 65 + 10
      else c) AND 0xF"

definition Hex_To_Int :: "bytes \<Rightarrow> u64" where
  "Hex_To_Int hax = foldl (\<lambda>val c. push_bit 4 val OR ucast (nibble c)) 0 (c_string hax)"

definition vthconvert :: "bytes \<Rightarrow> bytes" where
  "vthconvert input = concat (map pair_lower input)"

definition Var_To_Hex :: "bytes option \<Rightarrow> bytes option" where
  "Var_To_Hex incoming = map_option vthconvert incoming"

text \<open>\<open>Hex_To_Var\<close>: two characters are one byte; after an odd number of them the last byte is written behind the result.\<close>

fun hex_bytes :: "bytes \<Rightarrow> bytes result" where
  "hex_bytes [] = Inr []"
| "hex_bytes [c] = Inl Undefined"
| "hex_bytes (c # c' # cs) = bind_res (hex_bytes cs) (\<lambda>bs. Inr (word_of_int (strtol16 [c, c']) # bs))"

definition Hex_To_Var :: "bytes \<Rightarrow> bytes result" where
  "Hex_To_Var incoming = hex_bytes (c_string incoming)"

definition convert :: "bytes \<Rightarrow> bytes \<Rightarrow> bytes" where
  "convert convert_result buf = convert_result @ concat (map pair_upper (take 10 buf))"

definition Num_To_HexVar_64 :: "u64 \<Rightarrow> bytes" where
  "Num_To_HexVar_64 n = (let v = uvarint_encode64 n 800 in convert [] (v @ replicate (400 - length v) 0))"

definition convert2 :: "bytes \<Rightarrow> bytes \<Rightarrow> bytes" where
  "convert2 convert_result2 buf = convert_result2 @ concat (map pair_upper (take 1 buf))"

text \<open>\<open>Num_To_HexVar_32\<close> has a buffer of one byte.\<close>

definition Num_To_HexVar_32 :: "u32 \<Rightarrow> bytes" where
  "Num_To_HexVar_32 n = (let v = uvarint_encode32 n 1 in convert2 [] (v @ replicate (1 - length v) 0))"

text \<open>
  The first 400 characters, two at a time; behind the string there are zeros. The string is copied into 800 bytes.
\<close>

definition hex_pairs :: "bytes \<Rightarrow> bytes" where
  "hex_pairs s = (let codo = s @ replicate (800 - length s) 0
     in map (\<lambda>i. word_of_int (strtol16 [codo ! (2 * i), codo ! (2 * i + 1)])) [0..<200] @ replicate 200 0)"

definition HexVar_To_Num_64 :: "bytes \<Rightarrow> u64 result" where
  "HexVar_To_Num_64 theHEXstring =
     (let s = c_string theHEXstring
      in if 800 \<le> length s then Inl Undefined else uvarint_decode64 (hex_pairs s))"

definition HexVar_To_Num_32 :: "bytes \<Rightarrow> u32 result" where
  "HexVar_To_Num_32 theHEXstring =
     (let s = c_string theHEXstring
      in if 800 \<le> length s then Inl Undefined else uvarint_decode32 (take 10 (hex_pairs s)))"

section \<open>Protocols\<close>

record protocol =
  deccode :: int
  proto_size :: int
  proto_name :: bytes

definition load_protocols :: "protocol list" where
  "load_protocols =
     map (\<lambda>(code, n, name). \<lparr>deccode = code, proto_size = n, proto_name = map of_char name\<rparr>)
       [(4, 32, ''ip4''), (41, 128, ''ip6''), (6, 16, ''tcp''), (17, 16, ''udp''), (33, 16, ''dccp''), (132, 16, ''sctp''),
        (301, 0, ''udt''), (302, 0, ''utp''), (42, -1, ''ipfs''), (480, 0, ''http''), (443, 0, ''https''), (477, 0, ''ws''),
        (444, 10, ''onion''), (275, 0, ''libp2p-webrtc-star'')]"

definition proto_with_name :: "protocol list \<Rightarrow> bytes \<Rightarrow> protocol option" where
  "proto_with_name head name = find (\<lambda>p. proto_name p = name) head"

definition proto_with_deccode :: "protocol list \<Rightarrow> int \<Rightarrow> protocol option" where
  "proto_with_deccode head code = find (\<lambda>p. deccode p = code) head"

section \<open>Hexadecimal digits and bytes\<close>

lemma digits_less: "d \<in> set (digits b n) \<Longrightarrow> 2 \<le> b \<Longrightarrow> d < b"
proof (induction b n rule: digits.induct)
  case (1 b n)
  then show ?case by (subst (asm) (2) digits.simps) (auto split: if_splits)
qed

lemma be_digits: "2 \<le> b \<Longrightarrow> be b (digits b n) = n"
proof (induction b n rule: digits.induct)
  case (1 b n)
  then show ?case by (subst digits.simps) (auto simp: be_def)
qed

lemma digits_small: "n < b \<Longrightarrow> digits b n = [n]"
  by (simp add: digits.simps)

lemma digits_step: "b \<le> n \<Longrightarrow> 2 \<le> b \<Longrightarrow> digits b n = digits b (n div b) @ [n mod b]"
  by (subst digits.simps) simp

lemma hex_value_digit [simp]: "d < 16 \<Longrightarrow> hex_value (hex_upper d) = Some d" "d < 16 \<Longrightarrow> hex_value (hex_lower d) = Some d"
proof -
  have "list_all (\<lambda>d. hex_value (hex_upper d) = Some d \<and> hex_value (hex_lower d) = Some d) [0..<16]"
    by (simp add: hex_value_def hex_upper_def hex_lower_def upt_rec)
  then show "d < 16 \<Longrightarrow> hex_value (hex_upper d) = Some d" "d < 16 \<Longrightarrow> hex_value (hex_lower d) = Some d"
    by (simp_all add: list_all_length)
qed

lemma nibble_digit [simp]: "d < 16 \<Longrightarrow> nibble (hex_upper d) = of_nat d" "d < 16 \<Longrightarrow> nibble (hex_lower d) = of_nat d"
proof -
  have "list_all (\<lambda>d. nibble (hex_upper d) = of_nat d \<and> nibble (hex_lower d) = of_nat d) [0..<16]"
    by (simp add: nibble_def hex_upper_def hex_lower_def upt_rec)
  then show "d < 16 \<Longrightarrow> nibble (hex_upper d) = of_nat d" "d < 16 \<Longrightarrow> nibble (hex_lower d) = of_nat d"
    by (simp_all add: list_all_length)
qed

lemma hex_digit_code: "hex_value c = Some d \<Longrightarrow> 48 \<le> unat c \<and> d < 16"
  by (auto simp: hex_value_def split: if_splits)

lemma strtol_pair:
  assumes "hex_value c = Some d" and "hex_value c' = Some d'"
  shows "strtol16 [c, c'] = 16 * int d + int d'"
proof -
  have "48 \<le> unat c" "48 \<le> unat c'" using assms hex_digit_code by blast+
  then have "c \<noteq> 0" "c' \<noteq> 0" "c \<noteq> 32" "c \<noteq> 45" "c \<noteq> 43" by auto
  with \<open>48 \<le> unat c\<close> show ?thesis using assms by (simp add: strtol16_def c_string_def)
qed

lemma byte_of_nibbles: "16 * of_nat (unat b div 16) + of_nat (unat b mod 16) = (b :: byte)"
proof -
  have "of_nat (16 * (unat b div 16) + unat b mod 16) = b" by (simp only: mult_div_mod_eq) simp
  then show ?thesis by (simp only: of_nat_add of_nat_mult of_nat_numeral)
qed

lemma nibbles [simp]: "unat (b :: byte) div 16 < 16" "unat (b :: byte) mod 16 < 16"
  using unat_byte_less [of b] by simp_all

lemma hex_bytes_pairs:
  "hex_bytes (pair_lower b @ cs) = bind_res (hex_bytes cs) (\<lambda>bs. Inr (b # bs))"
  "hex_bytes (pair_upper b @ cs) = bind_res (hex_bytes cs) (\<lambda>bs. Inr (b # bs))"
  by (simp_all add: pair_lower_def pair_upper_def strtol_pair byte_of_nibbles)

lemma hex_digit_nonzero: "d < 16 \<Longrightarrow> hex_upper d \<noteq> 0" "d < 16 \<Longrightarrow> hex_lower d \<noteq> 0"
proof -
  have "hex_value 0 = None" by (simp add: hex_value_def)
  then show "d < 16 \<Longrightarrow> hex_upper d \<noteq> 0" "d < 16 \<Longrightarrow> hex_lower d \<noteq> 0"
    by (metis hex_value_digit option.distinct(1))+
qed

lemma pair_nonzero [simp]: "0 \<notin> set (pair_lower b)" "0 \<notin> set (pair_upper b)"
  by (simp_all add: pair_lower_def pair_upper_def hex_digit_nonzero [THEN not_sym])

lemma pairs_nonzero [simp]: "0 \<notin> set (vthconvert bs)" "0 \<notin> set (concat (map pair_upper bs))"
  by (auto simp: vthconvert_def dest: pair_nonzero [THEN notE])

lemma pair_length [simp]: "length (pair_lower b) = 2" "length (pair_upper b) = 2"
  by (simp_all add: pair_lower_def pair_upper_def)

lemma vthconvert_simps [simp]:
  "vthconvert [] = []" "vthconvert (b # bs) = pair_lower b @ vthconvert bs"
  "vthconvert (as @ bs) = vthconvert as @ vthconvert bs"
  by (simp_all add: vthconvert_def)

lemma vthconvert_length [simp]: "length (vthconvert bs) = 2 * length bs"
  by (induction bs) simp_all

lemma hex_bytes_vthconvert [simp]: "hex_bytes (vthconvert bs) = Inr bs"
  by (induction bs) (simp_all add: hex_bytes_pairs)

section \<open>Numbers in hexadecimal form\<close>

text \<open>A number is written as the bytes of its value in base 256, the most significant one first.\<close>

lemma pair_of_nat: "n < 256 \<Longrightarrow> pair_upper (of_nat n) = [hex_upper (n div 16), hex_upper (n mod 16)]"
  by (simp add: pair_upper_def unat_of_nat)

lemma Int_To_Hex_nat:
  "(let r = print_02X n in if odd (length r) then 48 # r else r) = concat (map pair_upper (map of_nat (digits 256 n)))"
proof (induction n rule: less_induct)
  case (less n)
  have h0: "hex_upper 0 = 48" by (simp add: hex_upper_def)
  show ?case
  proof (cases "n < 256")
    case True
    then have "digits 16 n = (if n < 16 then [n] else [n div 16, n mod 16])"
      by (simp add: digits_small digits_step)
    with True show ?thesis by (simp add: print_02X_def digits_small pair_of_nat h0)
  next
    case False
    let ?m = "n div 256"
    have d: "digits 16 n = digits 16 ?m @ [n div 16 mod 16, n mod 16]"
      using False by (simp add: digits_step [of 16 n] digits_step [of 16 "n div 16"] flip: div_mult2_eq)
    have "n mod (16 * 16) = 16 * (n div 16 mod 16) + n mod 16" by (rule mod_mult2_eq)
    then have "n mod 256 div 16 = n div 16 mod 16" "n mod 256 mod 16 = n mod 16" by simp_all
    then have p: "pair_upper (of_nat (n mod 256)) = [hex_upper (n div 16 mod 16), hex_upper (n mod 16)]"
      using pair_of_nat [of "n mod 256"] by (simp only: mod_less_divisor zero_less_numeral simp_thms)
    have "digits 256 n = digits 256 ?m @ [n mod 256]" using False by (simp add: digits_step)
    moreover have "?m < n" using False by simp
    note less.IH [OF this]
    moreover have "print_02X n = map hex_upper (digits 16 ?m) @ [hex_upper (n div 16 mod 16), hex_upper (n mod 16)]"
      using False d by (simp add: print_02X_def)
    moreover have "odd (length (print_02X ?m)) \<longleftrightarrow> (if ?m < 16 then False else odd (length (digits 16 ?m)))"
      by (simp add: print_02X_def digits_small)
    moreover have "length (digits 16 ?m) = 1" if "?m < 16" using that by (simp add: digits_small)
    ultimately show ?thesis using p by (simp add: Let_def print_02X_def split: if_splits)
  qed
qed

lemma Int_To_Hex_pairs: "Int_To_Hex n = concat (map pair_upper (map of_nat (digits 256 (unat n))))"
  using Int_To_Hex_nat [of "unat n"] by (simp add: Int_To_Hex_def)

lemma shift_or: "d < 16 \<Longrightarrow> push_bit 4 v OR of_nat d = v * 16 + (of_nat d :: u64)"
proof -
  assume d: "d < 16"
  have "(of_nat d :: u64) = take_bit 4 (of_nat d)"
    by (simp only: take_bit_of_nat) (use d in \<open>simp add: take_bit_nat_eq_self\<close>)
  then have "\<not> bit (of_nat d :: u64) k" if "4 \<le> k" for k
    using that by (metis bit_take_bit_iff not_less)
  then have "push_bit 4 v OR of_nat d = push_bit 4 v + of_nat d"
    by (intro disjunctive_add [symmetric]) (auto simp: bit_simps not_le)
  then show ?thesis by (simp add: push_bit_eq_mult)
qed

lemma byte_of_nibbles_u64: "16 * of_nat (unat (b :: byte) div 16) + of_nat (unat b mod 16) = (of_nat (unat b) :: u64)"
proof -
  have "of_nat (16 * (unat b div 16) + unat b mod 16) = (of_nat (unat b) :: u64)" by (simp only: mult_div_mod_eq)
  then show ?thesis by (simp only: of_nat_add of_nat_mult of_nat_numeral)
qed

lemma ucast_nibble: "d < 16 \<Longrightarrow> ucast (of_nat d :: byte) = (of_nat d :: u64)"
  by (simp add: unsigned_of_nat take_bit_nat_eq_self)

lemma Hex_To_Int_vthconvert: "Hex_To_Int (vthconvert bs) = of_nat (be 256 (map unat bs))"
proof -
  let ?step = "\<lambda>val c. push_bit 4 val OR ucast (nibble c) :: u64"
  have pair: "foldl ?step v (pair_lower b @ cs) = foldl ?step (v * 256 + of_nat (unat b)) cs" for v b cs
  proof -
    have "(v * 16 + of_nat (unat b div 16)) * 16 + of_nat (unat b mod 16) =
        v * 256 + (16 * of_nat (unat b div 16) + (of_nat (unat b mod 16)))" by (simp add: algebra_simps)
    then show ?thesis by (simp only: pair_lower_def append.simps foldl.simps nibble_digit nibbles ucast_nibble shift_or byte_of_nibbles_u64)
  qed
  have "foldl ?step v (vthconvert bs) = v * 256 ^ length bs + of_nat (be 256 (map unat bs))" for v
    by (induction bs arbitrary: v) (simp_all only: vthconvert_simps pair foldl.simps list.map be_Cons be_Nil of_nat_add of_nat_mult of_nat_power of_nat_numeral
        list.size length_map power_0 power_Suc, simp_all add: algebra_simps)
  then show ?thesis by (simp add: Hex_To_Int_def)
qed

lemma hex_pairs_two:
  assumes "word_of_int (strtol16 [c, c']) = (b :: byte)"
  shows "hex_pairs [c, c'] = b # replicate 399 0"
proof -
  have "strtol16 [0, 0] = 0" by (simp add: strtol16_def c_string_def)
  then have "map (\<lambda>i. word_of_int (strtol16 [([c, c'] @ replicate 798 0) ! (2 * i), ([c, c'] @ replicate 798 0) ! (2 * i + 1)])) [0..<200] =
      b # map (\<lambda>i. 0) [1..<200]"
    using assms by (simp only: upt_conv_Cons zero_less_numeral list.map) (simp add: nth_Cons' nth_append)
  then show ?thesis by (simp add: hex_pairs_def map_replicate_const flip: replicate_add)
qed

lemma hex_pairs_pair: "hex_pairs (pair_upper b) = b # replicate 399 0" "hex_pairs (pair_lower b) = b # replicate 399 0"
  unfolding pair_upper_def pair_lower_def by (rule hex_pairs_two; simp add: strtol_pair byte_of_nibbles)+

text \<open>The size of an address of the ipfs kind goes through one byte: what comes back are its seven lowest bits.\<close>

lemma uvarint_decode_one:
  assumes "b AND 0x80 \<noteq> 0"
  shows "uvarint_decode32 (b # 0 # bs) = Inr (of_nat (unat (b AND 0x7f)))"
proof -
  have n: "(4 :: nat) = Suc (Suc 2)" by simp
  have "unat (b AND 0x7f) < 2 ^ 31" using unat_byte_less [of "b AND 0x7f"] by simp
  then show ?thesis unfolding uvarint_decode32_def n
    by (simp only: uvarint_decode_loop.simps Let_def) (simp add: assms)
qed

lemma uvarint_encode_full [simp]: "uvarint_encode_loop left 0 v = []"
  by (cases left) simp_all

lemma ucast_of_nat_eq: "ucast (of_nat n :: u32) = (of_nat n :: byte)"
  by (simp add: word_unat_eq_iff) (simp add: unsigned_ucast_eq unsigned_of_nat take_bit_eq_mod mod_mod_cancel)

lemma Num_To_HexVar_32_pair: "Num_To_HexVar_32 (of_nat n) = pair_upper (of_nat n OR 0x80)"
proof -
  have n: "(4 :: nat) = Suc 3" "(1 :: nat) = Suc 0" by simp_all
  have "uvarint_encode32 (of_nat n) 1 = [ucast (of_nat n :: u32) OR 0x80]"
    unfolding uvarint_encode32_def n by (cases "drop_bit 7 (of_nat n :: u32) = 0") (simp_all only: uvarint_encode_loop.simps if_True if_False, simp_all)
  then show ?thesis by (simp add: Num_To_HexVar_32_def convert2_def ucast_of_nat_eq)
qed

lemma hexvar_prefix:
  "HexVar_To_Num_32 (pair_upper (of_nat n OR 0x80)) = Inr (of_nat (n mod 128))"
  "HexVar_To_Num_32 (pair_lower (of_nat n OR 0x80)) = Inr (of_nat (n mod 128))"
proof -
  let ?b = "of_nat n OR 0x80 :: byte"
  have num: "HexVar_To_Num_32 (pair_upper b) = uvarint_decode32 (b # 0 # replicate 8 0)"
    "HexVar_To_Num_32 (pair_lower b) = uvarint_decode32 (b # 0 # replicate 8 0)" for b
    by (simp_all add: HexVar_To_Num_32_def hex_pairs_pair take_Cons' flip: replicate_Suc)
  have "?b AND 0x80 = 0x80" by (rule bit_word_eqI) (auto simp: bit_simps)
  moreover have "?b AND 0x7f = take_bit 7 (of_nat n)"
  proof -
    have "?b AND 0x7f = (of_nat n :: byte) AND 0x7f OR 0x80 AND 0x7f"
      by (simp only: bit.conj_disj_distrib2)
    also have "\<dots> = of_nat n AND mask 7" by (simp add: mask_numeral)
    finally show ?thesis by (simp only: take_bit_eq_mask)
  qed
  moreover have "unat (take_bit 7 (of_nat n :: byte)) = n mod 128"
    by (simp only: unsigned_take_bit_eq unsigned_of_nat) (simp add: take_bit_eq_mod mod_mod_cancel)
  ultimately have "uvarint_decode32 (?b # 0 # replicate 8 0) = Inr (of_nat (n mod 128))"
    by (simp add: uvarint_decode_one)
  then show "HexVar_To_Num_32 (pair_upper ?b) = Inr (of_nat (n mod 128))" "HexVar_To_Num_32 (pair_lower ?b) = Inr (of_nat (n mod 128))"
    by (simp_all only: num)
qed

end
