(* ===== verification/Protoutils.thy ===== *)
theory Protoutils
  imports Varhex Multiaddr
begin

text \<open>
  The two forms of a multiaddress, \<open>libp2p/multiaddr/protoutils.c\<close>, and the copy of the base 58 code in
  \<open>multiaddr/base58.c\<close>. A string goes to bytes by way of its hexadecimal form, in a buffer of 800 characters, and back the same way.
\<close>

section \<open>Words of a string\<close>

fun split_words :: "byte \<Rightarrow> bytes \<Rightarrow> bytes list" where
  "split_words d [] = [[]]"
| "split_words d (c # cs) =
     (if c = d then [] # split_words d cs
      else case split_words d cs of [] \<Rightarrow> [[c]] | t # ts \<Rightarrow> (c # t) # ts)"

text \<open>What repeated calls of \<open>strtok\<close> give for one delimiter.\<close>

definition strtok_words :: "byte \<Rightarrow> bytes \<Rightarrow> bytes list" where
  "strtok_words d s = filter (\<lambda>t. t \<noteq> []) (split_words d s)"

section \<open>Base 58, once more\<close>

definition multiaddr_encoding_base58_decode :: "bytes \<Rightarrow> nat \<Rightarrow> (bytes \<times> nat) result" where
  "multiaddr_encoding_base58_decode b58 binsz = libp2p_crypto_encoding_base58_decode b58 binsz"

definition multiaddr_encoding_base58_encode :: "bytes \<Rightarrow> nat \<Rightarrow> (int \<times> nat \<times> bytes) result" where
  "multiaddr_encoding_base58_encode data b58sz = libp2p_crypto_encoding_base58_encode data b58sz"

definition multiaddr_encoding_base58_decode_size :: "bytes \<Rightarrow> nat" where
  "multiaddr_encoding_base58_decode_size s = nat \<lfloor>real (strlen s) * log 2 58 / 8\<rfloor>"

definition multiaddr_encoding_base58_decode_max_size :: "bytes \<Rightarrow> nat" where
  "multiaddr_encoding_base58_decode_max_size s = nat \<lceil>real (strlen s) * log 2 58 / 8\<rceil>"

section \<open>Hexadecimal digits\<close>

definition ASCII2bits :: "byte \<Rightarrow> byte" where
  "ASCII2bits ch =
     (if 48 \<le> ch \<and> ch \<le> 57 then ch - 48
      else if 97 \<le> ch \<and> ch \<le> 122 then (ch - 97) + 10
      else if 65 \<le> ch \<and> ch \<le> 90 then (ch - 65) + 10
      else 0)"

fun hex2bin :: "bytes \<Rightarrow> nat \<Rightarrow> bytes result" where
  "hex2bin src 0 = Inr []"
| "hex2bin (a # b # src) (Suc len) =
     bind_res (hex2bin src len) (\<lambda>dst. Inr ((push_bit 4 (ASCII2bits a) OR ASCII2bits b) # dst))"
| "hex2bin src (Suc len) = Inl Undefined"

definition bits2ASCII :: "byte \<Rightarrow> byte" where
  "bits2ASCII b = (if unat b < 10 then b + 48 else if unat b \<le> 15 then b - 10 + 97 else 0)"

fun bin2hex :: "bytes \<Rightarrow> nat \<Rightarrow> bytes result" where
  "bin2hex src 0 = Inr [0]"
| "bin2hex (b # src) (Suc len) =
     bind_res (bin2hex src len) (\<lambda>dst. Inr (bits2ASCII (drop_bit 4 b AND 0xf) # bits2ASCII (b AND 0xf) # dst))"
| "bin2hex [] (Suc len) = Inl Undefined"

section \<open>IP addresses\<close>

definition valid_digit :: "bytes \<Rightarrow> bool" where
  "valid_digit ip_str \<longleftrightarrow> (\<forall>c \<in> set (c_string ip_str). 48 \<le> unat c \<and> unat c \<le> 57)"

text \<open>
  The loop over the parts of an address: a number that does not fit is an error, but the loop stays at its part, and so
  never ends.
\<close>

partial_function (option) ipv4_loop :: "bytes list \<Rightarrow> bool \<Rightarrow> nat \<Rightarrow> (bool \<times> nat) run" where
  "ipv4_loop ptrs err dots =
     (case ptrs of
        [] \<Rightarrow> Some (Inr (err, dots))
      | ptr # rest \<Rightarrow>
          let err1 = err \<or> \<not> valid_digit ptr in
          (case atoi ptr of
             Inl e \<Rightarrow> Some (Inl e)
           | Inr num \<Rightarrow>
               if 0 \<le> num \<and> num \<le> 255 then ipv4_loop rest err1 (if rest = [] then dots else dots + 1)
               else ipv4_loop ptrs True dots))"

definition is_valid_ipv4 :: "bytes \<Rightarrow> bool run" where
  "is_valid_ipv4 ip_str =
     (let ptrs = strtok_words 46 (c_string ip_str) in
      bind_run (ipv4_loop ptrs (ptrs = []) 0) (\<lambda>(err, dots). Some (Inr (\<not> err \<and> dots = 3))))"

definition ishexdigit :: "byte \<Rightarrow> bool" where
  "ishexdigit ch \<longleftrightarrow> 48 \<le> ch \<and> ch \<le> 57 \<or> 97 \<le> ch \<and> ch \<le> 102 \<or> 65 \<le> ch \<and> ch \<le> 70"

definition MAX_HEX_NUMBER_COUNT :: nat where "MAX_HEX_NUMBER_COUNT = 8"

text \<open>The loop over the rest of the string; \<open>None\<close> is an error, otherwise the number of groups and whether some were left out.\<close>

fun ipv6_loop :: "bytes \<Rightarrow> nat \<Rightarrow> nat \<Rightarrow> bool \<Rightarrow> (nat \<times> bool) option" where
  "ipv6_loop [] hdcount hncount packed = Some (hncount, packed)"
| "ipv6_loop (c # cs) hdcount hncount packed =
     (if c = 58 then
        (case cs of
           [] \<Rightarrow> None
         | d # ds \<Rightarrow>
             if d = 58 then
               if packed then None
               else
                 (case ds of
                    [] \<Rightarrow> if hncount < MAX_HEX_NUMBER_COUNT then Some (hncount + 1, True) else None
                  | e # es \<Rightarrow>
                      if ishexdigit e then
                        if hncount + 1 = MAX_HEX_NUMBER_COUNT then None else ipv6_loop es 1 (hncount + 2) True
                      else None)
             else if \<not> ishexdigit d then None
             else if hncount = MAX_HEX_NUMBER_COUNT then None
             else ipv6_loop ds 1 (hncount + 1) packed)
      else if ishexdigit c then if hdcount = 4 then None else ipv6_loop cs (hdcount + 1) hncount packed
      else None)"

definition is_valid_ipv6 :: "bytes \<Rightarrow> bool" where
  "is_valid_ipv6 str =
     (let s = c_string str;
          start = (\<lambda>s packed.
            (case s of
               [] \<Rightarrow> False
             | c # cs \<Rightarrow>
                 if \<not> ishexdigit c then False
                 else case ipv6_loop cs 1 1 packed of
                        None \<Rightarrow> False
                      | Some (hncount, packed') \<Rightarrow> \<not> (hncount < MAX_HEX_NUMBER_COUNT \<and> \<not> packed')))
      in case s of
           [] \<Rightarrow> False
         | c # cs \<Rightarrow>
             if c = 58 then
               (case cs of
                  [] \<Rightarrow> False
                | d # ds \<Rightarrow> if d \<noteq> 58 then False else if ds = [] then True else start ds True)
             else start s False)"

text \<open>The arithmetic is that of \<open>double\<close>s, which is exact for the numbers of an address.\<close>

definition ip2int :: "bytes \<Rightarrow> u64 result" where
  "ip2int ipconvertint =
     (let s = c_string ipconvertint in
      if 16 \<le> length s then Inl Undefined
      else
        case strtok_words 46 s of
          p1 # p2 # p3 # p4 # rest \<Rightarrow>
            bind_res (atoi p1) (\<lambda>n1. bind_res (atoi p2) (\<lambda>n2. bind_res (atoi p3) (\<lambda>n3. bind_res (atoi p4) (\<lambda>n4.
            let v = n1 * 2 ^ 24 + n2 * 2 ^ 16 + n3 * 2 ^ 8 + n4
            in if v < 0 then Inl Undefined else Inr (word_of_int v)))))
        | _ \<Rightarrow> Inl Undefined)"

definition int2ip :: "int \<Rightarrow> bytes" where
  "int2ip inputintip =
     (let ipint = (word_of_int inputintip :: u32);
          part = (\<lambda>k. print_decimal (unat (drop_bit (8 * k) ipint) mod 256))
      in part 3 @ [46] @ part 2 @ [46] @ part 1 @ [46] @ part 0)"

section \<open>From bytes to a string\<close>

text \<open>\<open>strcat\<close> to the 800 characters of the result.\<close>

definition strcat_800 :: "bytes \<Rightarrow> bytes \<Rightarrow> bytes result" where
  "strcat_800 results s = (if 800 \<le> length results + length s then Inl Undefined else Inr (results @ s))"

text \<open>
  The steps at the label \<open>NAX\<close>. \<open>hex\<close> is the array with the hexadecimal form and its terminating zero. A port is printed into five
  characters. What follows a peer id is not looked at.
\<close>

function bytes_to_string_from :: "bytes \<Rightarrow> nat \<Rightarrow> bytes \<Rightarrow> bytes result" where
  "bytes_to_string_from hex lastpos results =
     (if length hex \<le> lastpos + 1 then Inl Undefined
      else
        case proto_with_deccode load_protocols (c_int (uint (Hex_To_Int (take 2 (drop lastpos hex))))) of
          None \<Rightarrow> strcat_800 results [47]
        | Some protocol \<Rightarrow>
            let name = proto_name protocol in
            if name \<noteq> map of_char ''ipfs'' then
              let n = nat (proto_size protocol div 4); pos = lastpos + 2; address = take n (drop pos hex) in
              if length hex < pos + n then Inl Undefined
              else
                bind_res (strcat_800 results ([47] @ name @ [47])) (\<lambda>results1.
                bind_res
                  (if name = map of_char ''ip4'' then strcat_800 results1 (int2ip (c_int (uint (Hex_To_Int address))))
                   else if name = map of_char ''tcp'' \<or> name = map of_char ''udp'' then
                     let a = print_decimal (unat (Hex_To_Int address))
                     in if 5 \<le> length a then Inl Undefined else strcat_800 results1 a
                   else Inr results1) (\<lambda>results2.
                if pos + n < length hex - 1 then bytes_to_string_from hex (pos + n) results2
                else strcat_800 results2 [47]))
            else
              let pos = lastpos + 4 in
              if length hex < pos then Inl Undefined
              else
                bind_res (HexVar_To_Num_32 (take 2 (drop (pos - 2) hex))) (\<lambda>prefix.
                let addrsize = c_int (uint prefix) in
                if addrsize < 0 \<or> length hex < pos + nat addrsize then Inl Undefined
                else
                  let IPFS_ADDR = c_string (take (nat addrsize) (drop pos hex)) in
                  bind_res (Hex_To_Var IPFS_ADDR) (\<lambda>addrbuf.
                  if IPFS_ADDR = [] then Inl Undefined
                  else
                    bind_res (multiaddr_encoding_base58_encode addrbuf (length IPFS_ADDR)) (\<lambda>(status, n, b58).
                    if status = 0 then Inl Failure
                    else strcat_800 results ([47] @ name @ [47] @ c_string b58 @ [47])))))"
  by pat_completeness auto
termination by (relation "measure (\<lambda>(hex, lastpos, results). length hex - lastpos)") auto

declare bytes_to_string_from.simps [simp del]

definition bytes_to_string :: "bytes \<Rightarrow> bytes result" where
  "bytes_to_string in_bytes = bytes_to_string_from (vthconvert in_bytes @ [0]) 0 []"

section \<open>From a string to bytes\<close>

text \<open>
  \<open>address_string_to_bytes\<close>: \<open>None\<close> is the string \<open>ERR\<close>; otherwise the string that is put in the result and the size that is
  given with it. The bytes of a peer id are written into 300 characters.
\<close>

definition address_string_to_bytes :: "protocol \<Rightarrow> bytes \<Rightarrow> (bytes \<times> nat) option run" where
  "address_string_to_bytes protocol incoming =
     (let s = c_string incoming in
      if deccode protocol = 4 then
        if 16 \<le> length s then Some (Inl Undefined)
        else
          bind_run (is_valid_ipv4 s) (\<lambda>valid.
          if valid then
            bind_run (Some (ip2int s)) (\<lambda>iip. let h = Int_To_Hex iip in Some (Inr (Some (h, length h))))
          else Some (Inr None))
      else if deccode protocol = 6 \<or> deccode protocol = 17 then
        bind_run (Some (atoi s)) (\<lambda>port.
        if port < 65536 \<and> 0 < port then
          let h = Int_To_Hex (word_of_int port);
              h4 = (if length h = 2 then [48, 48] @ h else if length h = 3 then [48] @ h else h)
          in Some (Inr (Some (h4, 5)))
        else Some (Inr None))
      else if deccode protocol = 42 then
        (case multiaddr_encoding_base58_decode s (multiaddr_encoding_base58_decode_max_size s) of
           Inl Failure \<Rightarrow> Some (Inr None)
         | Inl e \<Rightarrow> Some (Inl e)
         | Inr (bin, n) \<Rightarrow>
             if length bin < n then Some (Inl Undefined)
             else
               let addr_encoded = vthconvert (take n bin); ilen = length addr_encoded in
               if 300 \<le> ilen then Some (Inl Undefined)
               else Some (Inr (Some (Num_To_HexVar_32 (of_nat ilen) @ addr_encoded, ilen + 3))))
      else Some (Inr None))"

text \<open>
  The loop over the words, a protocol and its address in turn: \<open>protx\<close> is there when an address comes next. It ends with
  whether there was an error and the hexadecimal form.
\<close>

fun string_words :: "bytes list \<Rightarrow> protocol option \<Rightarrow> bool \<Rightarrow> bytes \<Rightarrow> (bool \<times> bytes) run" where
  "string_words [] protx malf processed = Some (Inr (malf, processed))"
| "string_words (wp # ws) None malf processed =
     (case proto_with_name load_protocols wp of
        None \<Rightarrow> Some (Inr (True, processed))
      | Some p \<Rightarrow>
          let h = Int_To_Hex (word_of_int (deccode p)) in
          if 800 \<le> length processed + length h then Some (Inl Undefined)
          else string_words ws (Some p) malf (processed @ h))"
| "string_words (wp # ws) (Some p) malf processed =
     bind_run (address_string_to_bytes p wp) (\<lambda>r.
     case r of
       None \<Rightarrow> string_words ws None True processed
     | Some (s, n) \<Rightarrow>
         if 800 \<le> length processed + n then Some (Inl Undefined)
         else string_words ws None malf (processed @ s))"

definition string_to_bytes :: "bytes \<Rightarrow> nat \<Rightarrow> bytes run" where
  "string_to_bytes strx strsize =
     (let s = c_string strx in
      if s = [] \<or> hd s \<noteq> 47 then Some (Inl Failure)
      else if strsize < length s then Some (Inl Undefined)
      else
        bind_run (string_words (strtok_words 47 s) None False []) (\<lambda>(malf, processed).
        if malf then Some (Inl Failure) else Some (Hex_To_Var processed)))"

end
