(* ===== verification/Multiaddr_Codec.thy ===== *)
theory Multiaddr_Codec
  imports Protoutils Cid
begin

text \<open>
  The two conversions of a multiaddress against what an address means: a list of parts, with the words of its string
  and the bytes of its binary form.
\<close>

section \<open>Words\<close>

lemma split_words_end: "d \<notin> set w \<Longrightarrow> split_words d w = [w]"
  by (induction w) auto

lemma split_words_next: "d \<notin> set w \<Longrightarrow> split_words d (w @ d # s) = w # split_words d s"
  by (induction w) auto

definition join_words :: "byte \<Rightarrow> bytes list \<Rightarrow> bytes" where
  "join_words d ws = concat (map ((#) d) ws)"

lemma join_words_simps [simp]:
  "join_words d [] = []" "join_words d (w # ws) = d # w @ join_words d ws"
  "join_words d (vs @ ws) = join_words d vs @ join_words d ws"
  by (simp_all add: join_words_def)

lemma split_join: "\<forall>w\<in>set (w # ws). d \<notin> set w \<Longrightarrow> split_words d (w @ join_words d ws) = w # ws"
proof (induction ws arbitrary: w)
  case (Cons v vs)
  then show ?case using split_words_next [of d w "v @ join_words d vs"] by simp
qed (simp add: split_words_end)

lemma strtok_filter:
  assumes "\<forall>w\<in>set ws. d \<notin> set w"
  shows "strtok_words d (join_words d ws) = filter (\<lambda>t. t \<noteq> []) ws" and "strtok_words d (tl (join_words d ws)) = filter (\<lambda>t. t \<noteq> []) ws"
  using assms split_join [of _ _ d] by (cases ws; simp add: strtok_words_def)+

lemma strtok_join:
  assumes "\<forall>w\<in>set ws. w \<noteq> [] \<and> d \<notin> set w"
  shows "strtok_words d (join_words d ws) = ws" and "strtok_words d (tl (join_words d ws)) = ws"
    and "strtok_words d (join_words d ws @ [d]) = ws"
proof -
  have f: "filter (\<lambda>t. t \<noteq> []) ws = ws" using assms by (simp add: filter_id_conv)
  have "join_words d ws @ [d] = join_words d (ws @ [[]])" by simp
  then show "strtok_words d (join_words d ws @ [d]) = ws"
    using strtok_filter(1) [of "ws @ [[]]" d] assms f by (simp del: join_words_simps)
  show "strtok_words d (join_words d ws) = ws" "strtok_words d (tl (join_words d ws)) = ws"
    using strtok_filter [of ws d] assms f by simp_all
qed

section \<open>Decimal numbers\<close>

lemma decimal_append:
  "\<forall>c\<in>set xs. 48 \<le> unat c \<and> unat c \<le> 57 \<Longrightarrow> decimal acc (xs @ ys) = decimal (decimal acc xs) ys"
  by (induction xs arbitrary: acc) auto

lemma digit_char: "d < 10 \<Longrightarrow> unat (of_nat (48 + d) :: byte) = 48 + d"
  by (subst unsigned_of_nat) (simp add: take_bit_nat_eq_self)

lemma print_decimal_chars: "c \<in> set (print_decimal n) \<Longrightarrow> 48 \<le> unat c \<and> unat c \<le> 57"
  using digits_less [of _ 10 n] digit_char by (fastforce simp: print_decimal_def)

lemma print_decimal_nonempty [simp]: "print_decimal n \<noteq> []"
  by (simp add: print_decimal_def digits.simps)

lemma decimal_print: "decimal 0 (print_decimal n) = int n"
proof (induction n rule: less_induct)
  case (less n)
  show ?case
  proof (cases "n < 10")
    case True
    then show ?thesis using digit_char [OF True]
      by (simp add: print_decimal_def digits_small uint_nat del: of_nat_add)
  next
    case False
    then have "print_decimal n = print_decimal (n div 10) @ [of_nat (48 + n mod 10)]"
      by (simp add: print_decimal_def digits_step)
    moreover have "int n = int (n div 10) * 10 + int (n mod 10)"
      by (metis div_mult_mod_eq of_nat_add of_nat_mult of_nat_numeral)
    moreover have "n mod 10 \<le> 9" by simp
    ultimately show ?thesis
      using less [of "n div 10"] False digit_char [of "n mod 10"] decimal_append [of "print_decimal (n div 10)"] print_decimal_chars
      by (simp add: uint_nat del: of_nat_add)
  qed
qed

lemma atoi_print: "n < 2 ^ 31 \<Longrightarrow> atoi (print_decimal n) = Inr (int n)"
proof -
  assume "n < 2 ^ 31"
  obtain c cs where s: "print_decimal n = c # cs" by (cases "print_decimal n") auto
  then have "48 \<le> unat c" using print_decimal_chars [of c n] by simp
  then have "c \<noteq> 32" "c \<noteq> 45" "c \<noteq> 43" "\<not> unat c \<le> 13" by auto
  then show ?thesis using s decimal_print [of n] \<open>n < 2 ^ 31\<close> by (simp add: atoi_def c_int_nat_small)
qed

lemma print_decimal_not:
  assumes "unat c < 48 \<or> 57 < unat c" shows "c \<notin> set (print_decimal n)"
  using assms print_decimal_chars by fastforce

lemma print_decimal_length: "n < 10 ^ k \<Longrightarrow> 0 < k \<Longrightarrow> length (print_decimal n) \<le> k"
proof (induction k arbitrary: n)
  case (Suc k)
  show ?case
  proof (cases "n < 10")
    case True
    then show ?thesis by (simp add: print_decimal_def digits_small)
  next
    case False
    then have "0 < k" using Suc.prems by (cases k) auto
    moreover have "n div 10 < 10 ^ k" using Suc.prems(1) by (simp add: less_mult_imp_div_less mult.commute)
    ultimately have "length (print_decimal (n div 10)) \<le> k" using Suc.IH by blast
    then show ?thesis using False by (simp add: print_decimal_def digits_step)
  qed
qed simp

lemma print_decimal_long: "10 ^ k \<le> n \<Longrightarrow> k < length (print_decimal n)"
proof (induction k arbitrary: n)
  case 0
  then show ?case using print_decimal_nonempty [of n] by blast
next
  case (Suc k)
  then have "10 ^ k \<le> n div 10" by (simp add: div_le_mono [of "10 * 10 ^ k" n 10, simplified])
  then have "k < length (print_decimal (n div 10))" by (rule Suc.IH)
  moreover have "10 \<le> n" using Suc.prems order_trans [of 10 "10 * 10 ^ k" n] by simp
  ultimately show ?case by (simp add: print_decimal_def digits_step [of 10 n])
qed

section \<open>Addresses of IP, version 4\<close>

definition dotted :: "nat list \<Rightarrow> bytes" where
  "dotted ns = tl (join_words 46 (map print_decimal ns))"

lemma strtok_dotted: "strtok_words 46 (dotted ns) = map print_decimal ns"
  unfolding dotted_def by (rule strtok_join) (auto simp: print_decimal_not)

lemma valid_digit_print: "valid_digit (print_decimal n)"
  using print_decimal_chars print_decimal_not [of 0 n] by (simp add: valid_digit_def)

lemma ipv4_loop_valid:
  "\<forall>n\<in>set ns. n < 256 \<Longrightarrow> ipv4_loop (map print_decimal ns) False dots = Some (Inr (False, dots + (length ns - 1)))"
proof (induction ns arbitrary: dots)
  case Nil
  then show ?case by (simp add: ipv4_loop.simps)
next
  case (Cons n ns)
  then show ?case
    by (subst ipv4_loop.simps) (auto simp: atoi_print valid_digit_print neq_Nil_conv Suc_diff_le)
qed

text \<open>With a number beyond 255 the loop is there for ever.\<close>

lemma ipv4_loop_stuck: "255 < n \<Longrightarrow> n < 2 ^ 31 \<Longrightarrow> ipv4_loop (print_decimal n # ptrs) err dots = None"
proof (rule ccontr)
  assume n: "255 < n" "n < 2 ^ 31" and "ipv4_loop (print_decimal n # ptrs) err dots \<noteq> None"
  then obtain y where y: "ipv4_loop (print_decimal n # ptrs) err dots = Some y" by auto
  have "print_decimal n # ptrs \<noteq> print_decimal n # ptrs"
    by (rule ipv4_loop.raw_induct [where P = "\<lambda>ps err dots y. ps \<noteq> print_decimal n # ptrs", OF _ y])
      (use n atoi_print [of n] in \<open>auto split: list.splits; blast\<close>)
  then show False by simp
qed

lemma ipv4_loop_diverges:
  assumes "\<forall>n\<in>set ms. n < 256" and "255 < n" and "n < 2 ^ 31"
  shows "ipv4_loop (map print_decimal (ms @ n # ns)) err dots = None"
  using assms(1)
proof (induction ms arbitrary: err dots)
  case Nil
  then show ?case using ipv4_loop_stuck [OF assms(2,3)] by simp
next
  case (Cons m ms)
  then show ?case by (subst ipv4_loop.simps) (simp add: atoi_print)
qed

definition ip4_nat :: "byte \<Rightarrow> byte \<Rightarrow> byte \<Rightarrow> byte \<Rightarrow> nat" where
  "ip4_nat a b c d = be 256 (map unat [a, b, c, d])"

definition ip4_string :: "byte \<Rightarrow> byte \<Rightarrow> byte \<Rightarrow> byte \<Rightarrow> bytes" where
  "ip4_string a b c d = dotted (map unat [a, b, c, d])"

lemma ip4_string_length: "length (ip4_string a b c d) \<le> 15"
proof -
  have "length (print_decimal (unat x)) \<le> 3" for x :: byte
    using print_decimal_length [of "unat x" 3] unat_byte_less [of x] by simp
  from this [of a] this [of b] this [of c] this [of d] show ?thesis
    by (simp add: ip4_string_def dotted_def)
qed

lemma ip4_nat_less: "ip4_nat a b c d < 2 ^ 32"
  using be_less [of "map unat [a, b, c, d]" 256] unat_byte_less by (auto simp: ip4_nat_def)

lemma ip4_string_chars: "0 \<notin> set (ip4_string a b c d)" "47 \<notin> set (ip4_string a b c d)" "ip4_string a b c d \<noteq> []"
  by (simp_all add: ip4_string_def dotted_def print_decimal_not)

lemma is_valid_ip4: "is_valid_ipv4 (ip4_string a b c d) = Some (Inr True)"
  using ipv4_loop_valid [of "map unat [a, b, c, d]" 0] unat_byte_less
  unfolding is_valid_ipv4_def c_string_id [OF ip4_string_chars(1)] Let_def
  by (simp add: ip4_string_def strtok_dotted)

lemma ip2int_string: "ip2int (ip4_string a b c d) = Inr (of_nat (ip4_nat a b c d))"
proof -
  have at: "atoi (print_decimal (unat x)) = Inr (int (unat x))" for x :: byte
    using atoi_print [of "unat x"] unat_byte_less [of x] by simp
  have "int (unat a) * 2 ^ 24 + int (unat b) * 2 ^ 16 + int (unat c) * 2 ^ 8 + int (unat d) = int (ip4_nat a b c d)"
    by (simp add: ip4_nat_def be_def algebra_simps)
  then show ?thesis
    using ip4_string_length [of a b c d]
    by (simp only: ip2int_def c_string_id [OF ip4_string_chars(1)] Let_def, simp add: ip4_string_def strtok_dotted at)
qed

lemma base256_parts:
  assumes "N = ((a * 256 + b) * 256 + c) * 256 + (d :: nat)" and "d < 256" and "c < 256" and "b < 256"
  shows "N mod 256 = d" "N div 2 ^ 8 mod 256 = c" "N div 2 ^ 16 mod 256 = b" "N div 2 ^ 24 = a"
proof -
  have step: "(x * 256 + y) div 256 = x" "(x * 256 + y) mod 256 = y" if "y < 256" for x y :: nat using that by simp_all
  have 1: "N div 2 ^ 8 = (a * 256 + b) * 256 + c" "N mod 256 = d"
    using step [OF assms(2), of "(a * 256 + b) * 256 + c"] by (simp_all only: assms(1)) simp
  have "N div 2 ^ 16 = N div 2 ^ 8 div 256" "N div 2 ^ 24 = N div 2 ^ 16 div 256" by (simp_all flip: div_mult2_eq)
  then show "N mod 256 = d" "N div 2 ^ 8 mod 256 = c" "N div 2 ^ 16 mod 256 = b" "N div 2 ^ 24 = a"
    using 1 step [OF assms(3), of "a * 256 + b"] step [OF assms(4), of a] by simp_all
qed

lemma int2ip_nat: "int2ip (c_int (int (ip4_nat a b c d))) = ip4_string a b c d"
proof -
  let ?N = "ip4_nat a b c d"
  have "(word_of_int (c_int k) :: u32) = word_of_int k" for k
    by (simp add: word_of_int_eq_iff c_int_def take_bit_signed_take_bit)
  then have "(word_of_int (c_int (int ?N)) :: u32) = of_nat ?N" by simp
  moreover have "unat (drop_bit k (of_nat ?N :: u32)) = ?N div 2 ^ k" for k
    using ip4_nat_less [of a b c d] by (simp add: unat_drop_bit_eq unsigned_of_nat take_bit_nat_eq_self drop_bit_nat_def)
  moreover from this [of 0] have "unat (of_nat ?N :: u32) = ?N" by simp
  moreover have "?N = ((unat a * 256 + unat b) * 256 + unat c) * 256 + unat d"
    by (simp add: ip4_nat_def be_def)
  note base256_parts [OF this unat_byte_less unat_byte_less unat_byte_less]
  ultimately show ?thesis using unat_byte_less [of a]
    by (simp add: int2ip_def ip4_string_def dotted_def)
qed

section \<open>Addresses\<close>

datatype part = Ip4 byte byte byte byte | Tcp nat | Udp nat | Peer bytes

definition peer_name :: "bytes \<Rightarrow> bytes" where
  "peer_name data = map b58_digit (base58_digits (bytes_value data))"

fun part_words :: "part \<Rightarrow> bytes list" where
  "part_words (Ip4 a b c d) = [map of_char ''ip4'', ip4_string a b c d]"
| "part_words (Tcp p) = [map of_char ''tcp'', print_decimal p]"
| "part_words (Udp p) = [map of_char ''udp'', print_decimal p]"
| "part_words (Peer data) = [map of_char ''ipfs'', peer_name data]"

fun part_bytes :: "part \<Rightarrow> bytes" where
  "part_bytes (Ip4 a b c d) = [4, a, b, c, d]"
| "part_bytes (Tcp p) = [6, of_nat (p div 256), of_nat (p mod 256)]"
| "part_bytes (Udp p) = [17, of_nat (p div 256), of_nat (p mod 256)]"
| "part_bytes (Peer data) = [42, of_nat (2 * length data) OR 0x80] @ data"

text \<open>
  The parts that survive: the first number of an IP address is not 0, a peer id has at most 63 bytes, does not begin with 0, and its
  name has the length from which its size is computed.
\<close>

fun part_ok :: "part \<Rightarrow> bool" where
  "part_ok (Ip4 a b c d) \<longleftrightarrow> a \<noteq> 0"
| "part_ok (Tcp p) \<longleftrightarrow> 0 < p \<and> p < 65536"
| "part_ok (Udp p) \<longleftrightarrow> 0 < p \<and> p < 65536"
| "part_ok (Peer data) \<longleftrightarrow> data \<noteq> [] \<and> hd data \<noteq> 0 \<and> length data < 64 \<and>
    multiaddr_encoding_base58_decode_max_size (peer_name data) = length data"

definition addr_string :: "part list \<Rightarrow> bytes" where
  "addr_string ps = join_words 47 (concat (map part_words ps))"

definition addr_bytes_of :: "part list \<Rightarrow> bytes" where
  "addr_bytes_of ps = concat (map part_bytes ps)"

text \<open>A hexadecimal form of some bytes, whatever the case of its letters.\<close>

definition hexes :: "bytes \<Rightarrow> bytes \<Rightarrow> bool" where
  "hexes h bs \<longleftrightarrow> 0 \<notin> set h \<and> length h = 2 * length bs \<and>
     (\<forall>cs. hex_bytes (h @ cs) = bind_res (hex_bytes cs) (\<lambda>r. Inr (bs @ r)))"

lemma hexes_Nil: "hexes [] []"
  by (simp add: hexes_def) (simp add: bind_res_def split: sum.splits)

lemma hexes_append: "hexes h bs \<Longrightarrow> hexes h' bs' \<Longrightarrow> hexes (h @ h') (bs @ bs')"
  by (auto simp: hexes_def bind_res_def split: sum.splits)

lemma hexes_pair: "hexes (pair_upper b) [b]" "hexes (pair_lower b) [b]"
  by (simp_all add: hexes_def hex_bytes_pairs)

lemma hexes_upper: "hexes (concat (map pair_upper bs)) bs"
  by (induction bs) (auto simp: hexes_Nil dest: hexes_append [OF hexes_pair(1)])

lemma hexes_lower: "hexes (vthconvert bs) bs"
  by (induction bs) (auto simp: hexes_Nil dest: hexes_append [OF hexes_pair(2)])

lemma hexes_var: "hexes h bs \<Longrightarrow> Hex_To_Var h = Inr bs"
  using hexes_def [of h bs] by (auto simp: Hex_To_Var_def dest: spec [where x = "[]"])

lemma b58_digit_code: "d < 58 \<Longrightarrow> 48 < unat (b58_digit d)"
proof -
  have "list_all (\<lambda>c. 48 < unat c) b58digits_ordered"
    unfolding b58digits_ordered_def by simp
  then show "d < 58 \<Longrightarrow> 48 < unat (b58_digit d)"
    by (simp add: b58_digit_def list_all_length b58_tables(3))
qed

lemma peer_name_chars: "c \<in> set (peer_name data) \<Longrightarrow> 48 < unat c"
  using b58_digit_code base58_digits_less by (fastforce simp: peer_name_def)

lemma peer_name_no_zero [simp]: "0 \<notin> set (peer_name data)"
  using peer_name_chars [of 0 data] by auto

lemma part_words_ok: "part_ok p \<Longrightarrow> \<forall>w\<in>set (part_words p). w \<noteq> [] \<and> 47 \<notin> set w \<and> 0 \<notin> set w"
proof (cases p)
  case (Peer data)
  assume ok: "part_ok p"
  have "47 \<notin> set (peer_name data)" "0 \<notin> set (peer_name data)"
    using peer_name_chars [of 47 data] peer_name_chars [of 0 data] by auto
  moreover have "peer_name data \<noteq> []"
    using ok Peer by (auto simp: multiaddr_encoding_base58_decode_max_size_def strlen_def c_string_def)
  ultimately show ?thesis by (simp add: Peer)
qed (auto simp: ip4_string_chars print_decimal_not)

section \<open>From a string to bytes\<close>

lemma digits_be: "2 \<le> b \<Longrightarrow> ds \<noteq> [] \<Longrightarrow> hd ds \<noteq> 0 \<Longrightarrow> \<forall>d\<in>set ds. d < b \<Longrightarrow> digits b (be b ds) = ds"
proof (induction ds rule: rev_induct)
  case (snoc d ds)
  show ?case
  proof (cases "ds = []")
    case True
    then show ?thesis using snoc.prems by (simp add: be_def digits_small)
  next
    case False
    have "be b ds \<noteq> 0" using False snoc.prems by (cases ds) (auto simp: be_zero_iff)
    then have "1 * b \<le> be b ds * b" by (intro mult_le_mono1) simp
    then have "b \<le> be b ds * b + d" by (simp only: mult_1 trans_le_add1)
    then show ?thesis using snoc False by (simp add: digits_step [of b "be b ds * b + d"])
  qed
qed simp

lemma hex_of_nat: "n < 2 ^ 64 \<Longrightarrow> Int_To_Hex (of_nat n) = concat (map pair_upper (map of_nat (digits 256 n)))"
  by (simp add: Int_To_Hex_pairs unat_of_nat)

lemma hex_ip4:
  assumes "a \<noteq> 0"
  shows "Int_To_Hex (of_nat (ip4_nat a b c d)) = concat (map pair_upper [a, b, c, d])"
proof -
  have "digits 256 (ip4_nat a b c d) = map unat [a, b, c, d]"
    unfolding ip4_nat_def by (rule digits_be) (use assms unat_byte_less in \<open>auto simp: unat_eq_0\<close>)
  then show ?thesis using ip4_nat_less [of a b c d] by (simp add: hex_of_nat)
qed

lemma hex_port:
  assumes "p < 65536"
  defines "h \<equiv> Int_To_Hex (word_of_int (int p))"
  shows "(if length h = 2 then [48, 48] @ h else if length h = 3 then [48] @ h else h) =
    concat (map pair_upper [of_nat (p div 256), of_nat (p mod 256)])"
proof -
  have h: "h = concat (map pair_upper (map of_nat (digits 256 p)))"
    using assms hex_of_nat [of p] by simp
  have "pair_upper 0 = [48, 48]" by (simp add: pair_upper_def hex_upper_def)
  then show ?thesis
    by (cases "p < 256") (use assms(1) in \<open>simp_all add: h digits_small digits_step\<close>)
qed

lemma protocols_by_name:
  "proto_with_name load_protocols (map of_char ''ip4'') = Some \<lparr>deccode = 4, proto_size = 32, proto_name = map of_char ''ip4''\<rparr>"
  "proto_with_name load_protocols (map of_char ''tcp'') = Some \<lparr>deccode = 6, proto_size = 16, proto_name = map of_char ''tcp''\<rparr>"
  "proto_with_name load_protocols (map of_char ''udp'') = Some \<lparr>deccode = 17, proto_size = 16, proto_name = map of_char ''udp''\<rparr>"
  "proto_with_name load_protocols (map of_char ''ipfs'') = Some \<lparr>deccode = 42, proto_size = - 1, proto_name = map of_char ''ipfs''\<rparr>"
  by (simp_all add: proto_with_name_def load_protocols_def)

lemmas protocols_named = protocols_by_name protocols_by_name [simplified]

lemma hex_codes: "n < 256 \<Longrightarrow> Int_To_Hex (word_of_int (int n)) = pair_upper (of_nat n)"
  using hex_of_nat [of n] by (simp add: digits_small)

lemma address_of_port:
  assumes "0 < p" and "p < 65536" and "deccode pr = 6 \<or> deccode pr = 17"
  shows "address_string_to_bytes pr (print_decimal p) =
    Some (Inr (Some (concat (map pair_upper [of_nat (p div 256), of_nat (p mod 256)]), 5)))"
  using assms hex_port [OF assms(2)] atoi_print [of p]
  by (auto simp: address_string_to_bytes_def print_decimal_not Let_def)

lemma address_of_peer:
  assumes "part_ok (Peer data)" and "deccode pr = 42"
  shows "address_string_to_bytes pr (peer_name data) =
    Some (Inr (Some (pair_upper (of_nat (2 * length data) OR 0x80) @ vthconvert data, 2 * length data + 3)))"
proof -
  have "0 \<notin> set (peer_name data)" using peer_name_chars [of 0 data] by auto
  moreover have "multiaddr_encoding_base58_decode (peer_name data) (length data) = Inr (data, length data)"
    using base58_decode_encoded [of data] assms(1) by (simp add: multiaddr_encoding_base58_decode_def peer_name_def)
  ultimately show ?thesis using assms Num_To_HexVar_32_pair [of "2 * length data"]
    by (simp add: address_string_to_bytes_def)
qed

lemma address_of_ip4:
  assumes "a \<noteq> 0" and "deccode pr = 4"
  shows "address_string_to_bytes pr (ip4_string a b c d) = Some (Inr (Some (concat (map pair_upper [a, b, c, d]), 8)))"
  using assms ip4_string_length [of a b c d]
  by (simp add: address_string_to_bytes_def ip4_string_chars is_valid_ip4 ip2int_string hex_ip4 Let_def)

lemma string_words_part:
  assumes "part_ok p" and "length processed + 2 * length (part_bytes p) + 3 < 800"
  shows "\<exists>h. hexes h (part_bytes p) \<and>
    string_words (part_words p @ ws) None malf processed = string_words ws None malf (processed @ h)"
proof (cases p)
  case (Ip4 a b c d)
  then show ?thesis using assms hexes_upper [of "[4, a, b, c, d]"]
    by (intro exI [of _ "concat (map pair_upper [4, a, b, c, d])"])
      (simp add: protocols_named address_of_ip4 hex_codes [of 4, simplified])
next
  case (Tcp q)
  then show ?thesis using assms hexes_upper [of "[6, of_nat (q div 256), of_nat (q mod 256)]"]
    by (intro exI [of _ "concat (map pair_upper [6, of_nat (q div 256), of_nat (q mod 256)])"])
      (simp add: protocols_named address_of_port hex_codes [of 6, simplified])
next
  case (Udp q)
  then show ?thesis using assms hexes_upper [of "[17, of_nat (q div 256), of_nat (q mod 256)]"]
    by (intro exI [of _ "concat (map pair_upper [17, of_nat (q div 256), of_nat (q mod 256)])"])
      (simp add: protocols_named address_of_port hex_codes [of 17, simplified])
next
  case (Peer data)
  let ?n = "of_nat (2 * length data) OR 0x80 :: byte"
  have "hexes (concat (map pair_upper [42, ?n]) @ vthconvert data) ([42, ?n] @ data)"
    by (rule hexes_append [OF hexes_upper hexes_lower])
  with Peer assms show ?thesis
    by (intro exI [of _ "concat (map pair_upper [42, ?n]) @ vthconvert data"])
      (simp add: protocols_named address_of_peer hex_codes [of 42, simplified])
qed

lemma string_words_parts:
  assumes "\<forall>p\<in>set ps. part_ok p" and "length processed + 2 * length (addr_bytes_of ps) + 3 < 800"
  shows "\<exists>h. hexes h (addr_bytes_of ps) \<and>
    string_words (concat (map part_words ps)) None malf processed = Some (Inr (malf, processed @ h))"
  using assms
proof (induction ps arbitrary: processed)
  case Nil
  then show ?case by (intro exI [of _ "[]"]) (simp add: addr_bytes_of_def hexes_Nil)
next
  case (Cons p ps)
  have len: "length (addr_bytes_of (p # ps)) = length (part_bytes p) + length (addr_bytes_of ps)"
    by (simp add: addr_bytes_of_def)
  obtain h where h: "hexes h (part_bytes p)"
    "string_words (part_words p @ concat (map part_words ps)) None malf processed =
      string_words (concat (map part_words ps)) None malf (processed @ h)"
    using string_words_part [of p processed "concat (map part_words ps)" malf] Cons.prems len by auto
  then have "length (processed @ h) + 2 * length (addr_bytes_of ps) + 3 < 800"
    using Cons.prems(2) len by (simp add: hexes_def)
  then obtain h' where "hexes h' (addr_bytes_of ps)"
    "string_words (concat (map part_words ps)) None malf (processed @ h) = Some (Inr (malf, (processed @ h) @ h'))"
    using Cons.IH [of "processed @ h"] Cons.prems(1) by auto
  then show ?case using h hexes_append [of h "part_bytes p" h' "addr_bytes_of ps"]
    by (intro exI [of _ "h @ h'"]) (simp add: addr_bytes_of_def)
qed

lemma addr_string_chars: "\<forall>p\<in>set ps. part_ok p \<Longrightarrow> 0 \<notin> set (addr_string ps)"
proof (induction ps)
  case (Cons p ps)
  have "0 \<notin> set (join_words d ws)" if "\<forall>w\<in>set ws. 0 \<notin> set w" "d \<noteq> 0" for d ws
    using that by (induction ws) auto
  then have "0 \<notin> set (join_words 47 (part_words p))" using part_words_ok [of p] Cons.prems by simp
  then show ?case using Cons by (simp add: addr_string_def)
qed (simp add: addr_string_def)

text \<open>A slash at the end makes no difference.\<close>

lemma addr_string_to_bytes:
  assumes "\<forall>p\<in>set ps. part_ok p" and "ps \<noteq> []" and "2 * length (addr_bytes_of ps) + 3 < 800"
    and "t = [] \<or> t = [47]" and "length (addr_string ps @ t) \<le> n"
  shows "string_to_bytes (addr_string ps @ t) n = Some (Inr (addr_bytes_of ps))"
proof -
  let ?ws = "concat (map part_words ps)" and ?s = "addr_string ps @ t"
  have "\<forall>w\<in>set ?ws. w \<noteq> [] \<and> 47 \<notin> set w" using assms(1) part_words_ok by fastforce
  then have words: "strtok_words 47 ?s = ?ws"
    using strtok_join [of ?ws 47] assms(4) by (auto simp: addr_string_def)
  have "?ws \<noteq> []" using assms(2) by (cases ps; cases "hd ps") auto
  then have "?s \<noteq> [] \<and> hd ?s = 47" by (cases ?ws) (simp_all add: addr_string_def)
  moreover have "0 \<notin> set ?s" using assms(4) addr_string_chars [OF assms(1)] by auto
  moreover obtain h where "hexes h (addr_bytes_of ps)" "string_words ?ws None False [] = Some (Inr (False, h))"
    using string_words_parts [OF assms(1), of "[]" False] assms(3) by auto
  ultimately show ?thesis using assms(5) hexes_var unfolding string_to_bytes_def c_string_id [OF \<open>0 \<notin> set ?s\<close>] Let_def words
    by (simp del: append_is_Nil_conv)
qed

section \<open>From bytes to a string\<close>

text \<open>What is printed: an address of IP, a port of at most four digits.\<close>

fun shown :: "part \<Rightarrow> bool" where
  "shown (Ip4 a b c d) \<longleftrightarrow> True"
| "shown (Tcp p) \<longleftrightarrow> p < 10000"
| "shown (Udp p) \<longleftrightarrow> p < 10000"
| "shown (Peer data) \<longleftrightarrow> False"

definition part_string :: "part \<Rightarrow> bytes" where
  "part_string p = join_words 47 (part_words p)"

lemma protocols_by_code:
  "proto_with_deccode load_protocols 4 = Some \<lparr>deccode = 4, proto_size = 32, proto_name = map of_char ''ip4''\<rparr>"
  "proto_with_deccode load_protocols 6 = Some \<lparr>deccode = 6, proto_size = 16, proto_name = map of_char ''tcp''\<rparr>"
  "proto_with_deccode load_protocols 17 = Some \<lparr>deccode = 17, proto_size = 16, proto_name = map of_char ''udp''\<rparr>"
  "proto_with_deccode load_protocols 42 = Some \<lparr>deccode = 42, proto_size = - 1, proto_name = map of_char ''ipfs''\<rparr>"
  by (simp_all add: proto_with_deccode_def load_protocols_def)

lemma hex_code: "c_int (uint (Hex_To_Int (pair_lower b))) = int (unat b)"
proof -
  have "Hex_To_Int (pair_lower b) = of_nat (unat b)" using Hex_To_Int_vthconvert [of "[b]"] by (simp add: be_def)
  moreover have "uint (of_nat (unat b) :: u64) = int (unat b)"
    using unat_byte_less [of b] by (simp only: unsigned_of_nat) (simp add: take_bit_nat_eq_self)
  ultimately show ?thesis using unat_byte_less [of b] c_int_nat_small [of "unat b"] by simp
qed

lemma hex_ip: "c_int (uint (Hex_To_Int (vthconvert [a, b, c, d]))) = c_int (int (ip4_nat a b c d))"
  unfolding Hex_To_Int_vthconvert ip4_nat_def [symmetric]
  using ip4_nat_less [of a b c d] by (simp only: unsigned_of_nat) (simp add: take_bit_nat_eq_self)

lemma hex_port_value: "p < 65536 \<Longrightarrow> unat (Hex_To_Int (vthconvert [of_nat (p div 256), of_nat (p mod 256)])) = p"
proof -
  assume "p < 65536"
  then have "unat (of_nat (p div 256) :: byte) = p div 256" "unat (of_nat (p mod 256) :: byte) = p mod 256"
    by (simp_all add: unat_of_nat)
  then have "be 256 (map unat [of_nat (p div 256) :: byte, of_nat (p mod 256)]) = p" by (simp add: be_def)
  with \<open>p < 65536\<close> show ?thesis unfolding Hex_To_Int_vthconvert by (simp add: unat_of_nat)
qed

text \<open>The three steps at the label, for a part of the array whose bytes are known.\<close>

lemma show_part:
  assumes "hex = vthconvert (xs @ part_bytes p @ ys) @ [0]" and "shown p" and "part_ok p"
    and "length r + length (part_string p) + 1 < 800"
  shows "bytes_to_string_from hex (2 * length xs) r =
    (if ys = [] then Inr (r @ part_string p @ [47])
     else bytes_to_string_from hex (2 * length (xs @ part_bytes p)) (r @ part_string p))"
proof -
  define m where "m = 2 * length (xs @ part_bytes p)"
  have "bytes_to_string_from hex (2 * length xs) r =
    (if ys = [] then Inr (r @ part_string p @ [47]) else bytes_to_string_from hex m (r @ part_string p))"
  proof (cases p)
    case (Ip4 a b c d)
    have "take 8 (drop (2 * length xs + 2) hex) = vthconvert [a, b, c, d]" by (simp add: assms(1) Ip4)
    then have "int2ip (c_int (uint (Hex_To_Int (take 8 (drop (2 * length xs + 2) hex))))) = ip4_string a b c d"
      by (simp only: hex_ip int2ip_nat)
    moreover have "take 2 (drop (2 * length xs) hex) = pair_lower 4" "length hex = 2 * length xs + 11 + 2 * length ys"
      by (simp_all add: assms(1) Ip4)
    moreover have "m = 2 * length xs + 2 + 8" by (simp add: m_def Ip4)
    ultimately show ?thesis using assms(4) Ip4
      by (subst bytes_to_string_from.simps)
        (simp add: hex_code protocols_by_code strcat_800_def part_string_def Let_def)
  next
    case (Tcp q)
    have q: "q < 10000" using assms(2) Tcp by simp
    have "take 4 (drop (2 * length xs + 2) hex) = vthconvert [of_nat (q div 256), of_nat (q mod 256)]"
      by (simp add: assms(1) Tcp)
    then have "unat (Hex_To_Int (take 4 (drop (2 * length xs + 2) hex))) = q"
      using hex_port_value [of q] q by (simp only:)
    moreover have "take 2 (drop (2 * length xs) hex) = pair_lower 6" "length hex = 2 * length xs + 7 + 2 * length ys"
      by (simp_all add: assms(1) Tcp)
    moreover have "m = 2 * length xs + 2 + 4" by (simp add: m_def Tcp)
    moreover have "\<not> 5 \<le> length (print_decimal q)" using print_decimal_length [of q 4] q by simp
    ultimately show ?thesis using assms(4) Tcp
      by (subst bytes_to_string_from.simps)
        (simp add: hex_code protocols_by_code strcat_800_def part_string_def Let_def)
  next
    case (Udp q)
    have q: "q < 10000" using assms(2) Udp by simp
    have "take 4 (drop (2 * length xs + 2) hex) = vthconvert [of_nat (q div 256), of_nat (q mod 256)]"
      by (simp add: assms(1) Udp)
    then have "unat (Hex_To_Int (take 4 (drop (2 * length xs + 2) hex))) = q"
      using hex_port_value [of q] q by (simp only:)
    moreover have "take 2 (drop (2 * length xs) hex) = pair_lower 17" "length hex = 2 * length xs + 7 + 2 * length ys"
      by (simp_all add: assms(1) Udp)
    moreover have "m = 2 * length xs + 2 + 4" by (simp add: m_def Udp)
    moreover have "\<not> 5 \<le> length (print_decimal q)" using print_decimal_length [of q 4] q by simp
    ultimately show ?thesis using assms(4) Udp
      by (subst bytes_to_string_from.simps)
        (simp add: hex_code protocols_by_code strcat_800_def part_string_def Let_def)
  qed (use assms(2) in simp)
  then show ?thesis by (simp only: m_def)
qed

text \<open>The name has fewer than two characters for a byte, so it fits into the buffer it is given.\<close>

lemma peer_name_short:
  assumes "part_ok (Peer data)" shows "length (peer_name data) < 2 * length data"
proof -
  let ?L = "length (peer_name data)"
  have "c_string (peer_name data) = peer_name data" by simp
  then have "nat \<lceil>real ?L * log 2 58 / 8\<rceil> = length data"
    using assms by (simp add: multiaddr_encoding_base58_decode_max_size_def strlen_def)
  then have "real ?L * log 2 58 / 8 \<le> real (length data)" by linarith
  moreover have "log 2 (2 ^ 4) < log 2 (58 :: real)"
    by (rule log_less_cancel_iff [THEN iffD2]) simp_all
  then have "4 < log 2 (58 :: real)" by (simp only: log_pow_cancel)
  moreover have "0 < ?L" using part_words_ok [OF assms] by simp
  ultimately have "real ?L * 4 < real (length data) * 8"
    using mult_strict_left_mono [of 4 "log 2 58" "real ?L"] by linarith
  then show ?thesis by linarith
qed

lemma show_peer:
  assumes "hex = vthconvert (xs @ part_bytes (Peer data) @ ys) @ [0]" and "part_ok (Peer data)"
    and "length r + length (part_string (Peer data)) + 1 < 800"
  shows "bytes_to_string_from hex (2 * length xs) r = Inr (r @ part_string (Peer data) @ [47])"
proof -
  let ?n = "2 * length data"
  have n: "0 < ?n" "?n < 128" "data \<noteq> []" "hd data \<noteq> 0" using assms(2) by auto
  have "take 2 (drop (2 * length xs) hex) = pair_lower 42"
    "take 2 (drop (2 * length xs + 2) hex) = pair_lower (of_nat ?n OR 0x80)"
    "take ?n (drop (2 * length xs + 4) hex) = vthconvert data" "length hex = 2 * length xs + 5 + ?n + 2 * length ys"
    by (simp_all add: assms(1))
  moreover have "HexVar_To_Num_32 (pair_lower (of_nat ?n OR 0x80)) = Inr (of_nat ?n)"
    using hexvar_prefix(2) [of ?n] n(2) by simp
  moreover have "c_int (uint (of_nat ?n :: u32)) = int ?n"
    using n(2) by (simp only: unsigned_of_nat) (simp add: take_bit_nat_eq_self c_int_small)
  moreover have "nat (2 * int (length data)) = ?n" by (simp add: nat_mult_distrib)
  moreover have "c_string (vthconvert data) = vthconvert data" by simp
  moreover have "Hex_To_Var (vthconvert data) = Inr data" by (simp add: Hex_To_Var_def)
  moreover have "vthconvert data \<noteq> []" using n(3) by (cases data) (auto simp: pair_lower_def)
  moreover have "multiaddr_encoding_base58_encode data ?n = Inr (1, length (peer_name data) + 1, peer_name data @ [0])"
    using base58_encode_digits [of data ?n] peer_name_short [OF assms(2)] n
    by (simp add: multiaddr_encoding_base58_encode_def peer_name_def Let_def)
  moreover have "c_string (peer_name data @ [0]) = peer_name data" by simp
  ultimately show ?thesis using assms(3)
    by (subst bytes_to_string_from.simps)
      (simp add: hex_code protocols_by_code strcat_800_def part_string_def Let_def)
qed

lemma addr_bytes_to_string_from:
  assumes "\<forall>p\<in>set ps. part_ok p" and "\<forall>p\<in>set (butlast ps). shown p" and "ps \<noteq> []"
    and "shown (last ps) \<or> (\<exists>data. last ps = Peer data)"
    and "hex = vthconvert (xs @ addr_bytes_of ps) @ [0]" and "length r + length (addr_string ps) + 1 < 800"
  shows "bytes_to_string_from hex (2 * length xs) r = Inr (r @ addr_string ps @ [47])"
  using assms
proof (induction ps arbitrary: xs r)
  case (Cons p ps)
  have str: "addr_string (p # ps) = part_string p @ addr_string ps" by (simp add: addr_string_def part_string_def)
  have bytes: "addr_bytes_of (p # ps) = part_bytes p @ addr_bytes_of ps" by (simp add: addr_bytes_of_def)
  have hex: "hex = vthconvert (xs @ part_bytes p @ addr_bytes_of ps) @ [0]" using Cons.prems(5) by (simp add: bytes)
  show ?case
  proof (cases "ps = []")
    case True
    then show ?thesis
      using show_part [OF hex, of r] show_peer [of hex xs _ "[]" r] Cons.prems str hex
      by (auto simp: addr_string_def addr_bytes_of_def)
  next
    case False
    have "addr_bytes_of ps \<noteq> []" using False by (cases ps; cases "hd ps") (auto simp: addr_bytes_of_def)
    then have "bytes_to_string_from hex (2 * length xs) r = bytes_to_string_from hex (2 * length (xs @ part_bytes p)) (r @ part_string p)"
      using show_part [OF hex, of r] Cons.prems(1,2,6) False str by simp
    also have "\<dots> = Inr ((r @ part_string p) @ addr_string ps @ [47])"
      by (rule Cons.IH) (use Cons.prems False str hex in auto)
    finally show ?thesis by (simp add: str)
  qed
qed simp

section \<open>Properties\<close>

text \<open>The conversions as \<open>Multiaddr\<close> has them.\<close>

definition to_string :: "bytes \<Rightarrow> bytes option" where
  "to_string bs = (case bytes_to_string bs of Inr s \<Rightarrow> Some s | Inl e \<Rightarrow> None)"

definition to_bytes :: "bytes \<Rightarrow> nat \<Rightarrow> bytes option" where
  "to_bytes s n = (case string_to_bytes s n of Some (Inr bs) \<Rightarrow> Some bs | _ \<Rightarrow> None)"

text \<open>
  C22: an address of parts that the code can hold keeps its meaning: its string gives the bytes of its parts, the bytes give the string with a
  slash at the end, and that string gives the bytes again, so that the multiaddress made of the string and the one made of its bytes differ in that slash
  only. A part may be an IP address that does not begin with 0 or a port below 10000; a peer id comes last.
\<close>

theorem multiaddr_round_trip:
  assumes "\<forall>p\<in>set ps. part_ok p" and "\<forall>p\<in>set (butlast ps). shown p" and "ps \<noteq> []"
    and "shown (last ps) \<or> (\<exists>data. last ps = Peer data)"
    and "length (addr_bytes_of ps) < 398" and "length (addr_string ps) < 799"
  defines "s \<equiv> addr_string ps" and "b \<equiv> addr_bytes_of ps"
  shows "string_to_bytes s (length s) = Some (Inr b) \<and> bytes_to_string b = Inr (s @ [47]) \<and>
    string_to_bytes (s @ [47]) (length s + 1) = Some (Inr b) \<and>
    multiaddress_new_from_string to_bytes s = Some \<lparr>ma_string = Some s, ma_bytes = b\<rparr> \<and>
    multiaddress_new_from_bytes to_string b = Some \<lparr>ma_string = Some (s @ [47]), ma_bytes = b\<rparr>"
proof -
  have 1: "string_to_bytes (s @ t) (length (s @ t)) = Some (Inr b)" if "t = [] \<or> t = [47]" for t
    unfolding s_def b_def by (rule addr_string_to_bytes) (use assms(1,3,5) that in auto)
  have 2: "bytes_to_string b = Inr (s @ [47])"
    using addr_bytes_to_string_from [OF assms(1-4), of "vthconvert b @ [0]" "[]" "[]"] assms(6)
    by (simp add: bytes_to_string_def b_def s_def)
  have "0 \<notin> set s" unfolding s_def by (rule addr_string_chars [OF assms(1)])
  then show ?thesis
    using 1 [of "[]"] 1 [of "[47]"] 2 assms(5,6)
    by (simp add: multiaddress_new_from_string_def multiaddress_new_from_bytes_def to_bytes_def to_string_def s_def [symmetric]
        b_def [symmetric] malloc_ok_def c_int_nat_small c_size_nat)
qed

text \<open>A peer id that is a SHA-256 multihash is one that survives.\<close>

lemma sha256_peer_ok:
  assumes "length h = 32"
  shows "part_ok (Peer (0x12 # 0x20 # h))" and "length (peer_name (0x12 # 0x20 # h)) = 46"
proof -
  show len: "length (peer_name (0x12 # 0x20 # h)) = 46"
    using sha256_multihash_digits(1) [OF assms] by (simp add: peer_name_def)
  have "libp2p_crypto_encoding_base58_decode_size 46 = 34" using base58_decode_size_eq [of 33 46] by simp
  then show "part_ok (Peer (0x12 # 0x20 # h))" using len assms
    by (simp add: multiaddr_encoding_base58_decode_max_size_def libp2p_crypto_encoding_base58_decode_size_def strlen_def)
qed

theorem multiaddr_round_trip_witness:
  "let ps = [Ip4 127 0 0 1, Tcp 4001, Peer (0x12 # 0x20 # replicate 32 7)] in
    string_to_bytes (addr_string ps) (length (addr_string ps)) = Some (Inr (addr_bytes_of ps)) \<and>
    bytes_to_string (addr_bytes_of ps) = Inr (addr_string ps @ [47])"
proof -
  let ?d = "0x12 # 0x20 # replicate 32 7 :: bytes"
  let ?ps = "[Ip4 127 0 0 1, Tcp 4001, Peer ?d]"
  note peer = sha256_peer_ok [of "replicate 32 7"]
  have ok: "\<forall>p\<in>set ?ps. part_ok p" "\<forall>p\<in>set (butlast ?ps). shown p" "shown (last ?ps) \<or> (\<exists>data. last ?ps = Peer data)"
    using peer(1) by (simp_all del: part_ok.simps(4))
  have "length (addr_string ?ps) < 799"
    using peer(2) ip4_string_length [of 127 0 0 1] print_decimal_length [of 4001 4] by (simp add: addr_string_def)
  moreover have "length (addr_bytes_of ?ps) < 398" by (simp add: addr_bytes_of_def)
  ultimately show ?thesis using multiaddr_round_trip [OF ok(1,2) _ ok(3)] by (simp add: Let_def)
qed

text \<open>
  C23: the string of an IP address with a number beyond 255 is never refused: the conversion goes round in the loop over its numbers for ever, whatever
  stands before and after the number.
\<close>

theorem multiaddr_bad_ip4_hangs:
  assumes "\<forall>m\<in>set ms. m < 256" and "255 < n" and "n < 2 ^ 31" and "length (dotted (ms @ n # ns)) < 16"
    and "\<forall>w\<in>set ws. 47 \<notin> set w \<and> 0 \<notin> set w"
  defines "s \<equiv> join_words 47 (map of_char ''ip4'' # dotted (ms @ n # ns) # ws)"
  shows "string_to_bytes s (length s) = None"
proof -
  let ?d = "dotted (ms @ n # ns)"
  have no: "c \<notin> set (join_words 46 (map print_decimal ks))" if "c = 47 \<or> c = 0" for c ks
    using that by (induction ks) (auto simp: print_decimal_not)
  moreover have "c \<in> set (dotted ks) \<Longrightarrow> c \<in> set (join_words 46 (map print_decimal ks))" for c ks
    by (cases ks) (auto simp: dotted_def)
  ultimately have d: "47 \<notin> set ?d" "0 \<notin> set ?d" by blast+
  have "0 \<notin> set (join_words 47 ws)" using assms(5) by (induction ws) auto
  then have "0 \<notin> set s" using d(2) by (simp add: s_def)
  moreover have "strtok_words 47 s = filter (\<lambda>t. t \<noteq> []) (map of_char ''ip4'' # ?d # ws)"
    unfolding s_def by (rule strtok_filter(1)) (use d(1) assms(5) in simp)
  moreover have "?d \<noteq> []" using strtok_dotted [of "ms @ n # ns"] by (auto simp: strtok_words_def)
  moreover have "is_valid_ipv4 ?d = None"
    using ipv4_loop_diverges [OF assms(1-3)] d(2) by (simp add: is_valid_ipv4_def strtok_dotted)
  moreover have "s \<noteq> []" "hd s = 47" by (simp_all add: s_def)
  ultimately show ?thesis
    using assms(4) d(2) by (simp add: string_to_bytes_def protocols_named hex_codes [of 4, simplified] address_string_to_bytes_def)
qed

theorem multiaddr_bad_ip4_hangs_witness:
  "let s = map of_char ''/ip4/300.1.1.1/tcp/80'' in string_to_bytes s (length s) = None"
proof -
  let ?ws = "[map of_char ''tcp'', map of_char ''80''] :: bytes list"
  have d: "dotted ([] @ 300 # [1, 1, 1]) = map of_char ''300.1.1.1''"
    by (simp add: dotted_def print_decimal_def digits_step digits_small)
  have "length (dotted ([] @ 300 # [1, 1, 1])) < 16" "\<forall>w\<in>set ?ws. 47 \<notin> set w \<and> 0 \<notin> set w"
    unfolding d by simp_all
  from multiaddr_bad_ip4_hangs [OF _ _ _ this] show ?thesis unfolding d by simp
qed

text \<open>
  C24: a port above 9999 is stored and then cannot be shown. The string of such an address is converted, but printing the port from its bytes
  writes six characters into an array of five: a multiaddress of the bytes, which is what a peer's message holds, has no meaning.
\<close>

theorem multiaddr_high_port_overflows:
  assumes "a \<noteq> 0" and "10000 \<le> q" and "q < 65536" and "p = Tcp q \<or> p = Udp q"
  shows "string_to_bytes (addr_string [Ip4 a b c d, p]) (length (addr_string [Ip4 a b c d, p])) =
      Some (Inr (addr_bytes_of [Ip4 a b c d, p])) \<and>
    bytes_to_string (addr_bytes_of [Ip4 a b c d, p] @ rest) = Inl Undefined"
proof -
  let ?ip = "Ip4 a b c d"
  have ok: "\<forall>x\<in>set [?ip, p]. part_ok x" using assms by auto
  have 1: "string_to_bytes (addr_string [?ip, p] @ []) (length (addr_string [?ip, p])) = Some (Inr (addr_bytes_of [?ip, p]))"
    by (rule addr_string_to_bytes [OF ok]) (use assms(4) in \<open>auto simp: addr_bytes_of_def\<close>)
  let ?hex = "vthconvert (addr_bytes_of [?ip, p] @ rest) @ [0]" and ?r = "part_string ?ip"
  have r: "length ?r < 30" using ip4_string_length [of a b c d] by (simp add: part_string_def)
  have "bytes_to_string_from ?hex (2 * length ([] :: bytes)) [] = bytes_to_string_from ?hex (2 * length ([] @ part_bytes ?ip)) ([] @ ?r)"
    using show_part [of ?hex "[]" ?ip "part_bytes p @ rest" "[]"] assms r by (auto simp: addr_bytes_of_def)
  moreover have "bytes_to_string_from ?hex 10 ?r = Inl Undefined"
  proof -
    have "take 4 (drop 12 ?hex) = vthconvert [of_nat (q div 256), of_nat (q mod 256)]"
      using assms(4) by (auto simp: addr_bytes_of_def)
    then have "unat (Hex_To_Int (take 4 (drop 12 ?hex))) = q" using hex_port_value [OF assms(3)] by (simp only:)
    moreover have "take 2 (drop 10 ?hex) = pair_lower (if p = Tcp q then 6 else 17)"
      using assms(4) by (auto simp: addr_bytes_of_def)
    moreover have "length ?hex = 17 + 2 * length rest" using assms(4) by (auto simp: addr_bytes_of_def)
    moreover have "5 \<le> length (print_decimal q)" using print_decimal_long [of 4 q] assms(2) by simp
    ultimately show ?thesis using r assms(4)
      by (subst bytes_to_string_from.simps)
        (simp add: hex_code protocols_by_code strcat_800_def Let_def split: if_splits)
  qed
  ultimately show ?thesis using 1 by (simp add: bytes_to_string_def)
qed

theorem multiaddr_high_port_overflows_witness:
  "bytes_to_string [4, 127, 0, 0, 1, 6, 0xc3, 0x50] = Inl Undefined"
  using multiaddr_high_port_overflows [of 127 50000 "Tcp 50000" 0 0 1 "[]"] by (simp add: addr_bytes_of_def)

end
