(* ===== verification/Multistream.thy ===== *)
theory Multistream
  imports Net_Protocol Varint
begin

text \<open>
  The negotiation of protocols and the framing of messages, \<open>libp2p/net/multistream.c\<close>: every message is preceded by its size.
  The stream below is given by what its functions do: a read of some bytes (\<open>read_raw\<close>), a write.
\<close>

section \<open>The header\<close>

definition multistream_protocol :: bytes where
  "multistream_protocol = map of_char ''/multistream/1.0.0'' @ [10]"

text \<open>
  \<open>strncmp(protocol, s, strlen(protocol)) == 0\<close> where only the bytes of \<open>s\<close> are there: reading on past them has no meaning.
\<close>

definition header_matches :: "bytes \<Rightarrow> bytes \<Rightarrow> bool result" where
  "header_matches protocol s =
     (if length s < length protocol \<and> take (length s) protocol = s then Inl Undefined
      else Inr (take (length protocol) s = protocol))"

text \<open>
  What \<open>libp2p_net_multistream_can_handle\<close> and \<open>libp2p_identify_can_handle\<close> have in common. A size is taken to be in front when
  neither the first nor the second byte is that of the header.
\<close>

definition can_handle_header :: "bytes \<Rightarrow> stream_message option \<Rightarrow> bool result" where
  "can_handle_header protocol msg =
     (case msg of
        None \<Rightarrow> Inr False
      | Some m \<Rightarrow>
          (case msg_data m of
             None \<Rightarrow> Inr False
           | Some incoming \<Rightarrow>
               if incoming = [] then Inr False
               else if incoming ! 0 \<noteq> protocol ! 0 \<and> length incoming = 1 then Inl Undefined
               else
                 bind_res
                   (if incoming ! 0 \<noteq> protocol ! 0 \<and> incoming ! 1 \<noteq> protocol ! 1
                    then bind_res (varint_decode incoming (int (length incoming))) (\<lambda>(v, n). Inr n) else Inr 0)
                   (\<lambda>num_bytes.
                    if (length protocol - num_bytes) \<le> length incoming then header_matches protocol (drop num_bytes incoming)
                    else Inr False)))"

definition libp2p_net_multistream_can_handle :: "stream_message option \<Rightarrow> bool result" where
  "libp2p_net_multistream_can_handle msg = can_handle_header multistream_protocol msg"

text \<open>Sending the header by the default stream; and looking for it behind the message, which is not where it is.\<close>

definition libp2p_net_multistream_send_protocol :: "(bytes \<Rightarrow> 's \<Rightarrow> bool \<times> 's) \<Rightarrow> 's \<Rightarrow> bool \<times> 's" where
  "libp2p_net_multistream_send_protocol default_write s = default_write multistream_protocol s"

definition libp2p_net_multistream_receive_protocol :: "('s \<Rightarrow> bytes option \<times> 's) \<Rightarrow> 's \<Rightarrow> (bool \<times> 's) result" where
  "libp2p_net_multistream_receive_protocol default_read s =
     (case default_read s of (None, s') \<Rightarrow> Inr (False, s') | (Some results, s') \<Rightarrow> Inl Undefined)"

section \<open>Messages\<close>

text \<open>\<open>None\<close> is a message that could not be made.\<close>

definition libp2p_net_multistream_prepare_to_send :: "bytes \<Rightarrow> bytes option result" where
  "libp2p_net_multistream_prepare_to_send incoming =
     bind_res (varint_encode (of_nat (length incoming)) 12 12) (\<lambda>varint.
     let out = varint @ incoming in Inr (if malloc_ok (length out) then Some out else None))"

text \<open>
  The write of the stream below gives the number of bytes it wrote; the result is that number, or the size of the message when all was written.
\<close>

definition libp2p_net_multistream_write_without_check ::
    "(bytes \<Rightarrow> 's \<Rightarrow> int \<times> 's) \<Rightarrow> bytes \<Rightarrow> 's \<Rightarrow> (int \<times> 's) result" where
  "libp2p_net_multistream_write_without_check parent_write incoming s =
     (if incoming = [] then Inr (0, s)
      else
        bind_res (libp2p_net_multistream_prepare_to_send incoming) (\<lambda>out.
        case out of
          None \<Rightarrow> Inl Undefined
        | Some out \<Rightarrow>
            let (num_bytes, s') = parent_write out s in
            Inr (if num_bytes mod 2 ^ 64 = int (length out) then c_int (int (length incoming)) else num_bytes, s')))"

text \<open>
  The bytes of the size, into an array of twelve zeros, until one without the bit for more. Reading no byte counts as reading a zero.
\<close>

fun read_length :: "(int \<Rightarrow> 's \<Rightarrow> bytes option \<times> 's) \<Rightarrow> bytes \<Rightarrow> nat \<Rightarrow> 's \<Rightarrow> (nat option \<times> 's) result" where
  "read_length read_raw varint 0 s = Inr (Some 0, s)"
| "read_length read_raw varint (Suc left) s =
     (case read_raw 1 s of
        (None, s') \<Rightarrow> Inr (None, s')
      | (Some bs, s') \<Rightarrow>
          let varint' = varint @ [if bs = [] then 0 else hd bs] in
          if drop_bit 7 (last varint') = 0 then
            bind_res (varint_decode (varint' @ replicate left 0) (int (length varint'))) (\<lambda>(n, k). Inr (Some (unat n), s'))
          else read_length read_raw varint' left s')"

definition libp2p_net_multistream_read :: "(int \<Rightarrow> 's \<Rightarrow> bytes option \<times> 's) \<Rightarrow> 's \<Rightarrow> (bytes option \<times> 's) result" where
  "libp2p_net_multistream_read read_raw s =
     bind_res (read_length read_raw [] 12 s) (\<lambda>(n, s1).
     case n of
       None \<Rightarrow> Inr (None, s1)
     | Some num_bytes_requested \<Rightarrow>
         if num_bytes_requested = 0 then Inr (None, s1)
         else if \<not> malloc_ok num_bytes_requested then Inl Undefined
         else
           let (data, s2) = read_raw (c_int (int num_bytes_requested)) s1 in
           Inr (case data of
                  None \<Rightarrow> None
                | Some d \<Rightarrow> if length d = num_bytes_requested then Some d else None, s2))"

definition libp2p_net_multistream_read_raw ::
    "(int \<Rightarrow> 's \<Rightarrow> bytes option \<times> 's) \<Rightarrow> int \<Rightarrow> 's \<Rightarrow> bytes option \<times> 's" where
  "libp2p_net_multistream_read_raw read_raw buffer_len s = read_raw buffer_len s"

section \<open>States\<close>

datatype multistream_status = multistream_status_initialized | multistream_status_syn | multistream_status_ack

datatype stream_type = STREAM_TYPE_UNKNOWN | STREAM_TYPE_MULTISTREAM | STREAM_TYPE_SECIO | STREAM_TYPE_KADEMLIA |
  STREAM_TYPE_IDENTIFY | STREAM_TYPE_YAMUX | STREAM_TYPE_JOURNAL | STREAM_TYPE_RAW

definition libp2p_net_multistream_write ::
    "(bytes \<Rightarrow> 's \<Rightarrow> int \<times> 's) \<Rightarrow> multistream_status \<Rightarrow> bytes \<Rightarrow> 's \<Rightarrow> (int \<times> 's) result" where
  "libp2p_net_multistream_write parent_write status incoming s =
     (if status \<noteq> multistream_status_ack then Inr (0, s)
      else libp2p_net_multistream_write_without_check parent_write incoming s)"

text \<open>The result is whether the header was sent, with the new status.\<close>

definition libp2p_net_multistream_negotiate ::
    "(bytes \<Rightarrow> 's \<Rightarrow> int \<times> 's) \<Rightarrow> bool \<Rightarrow> multistream_status \<Rightarrow> 's \<Rightarrow> (bool \<times> multistream_status \<times> 's) result" where
  "libp2p_net_multistream_negotiate parent_write they_requested status s =
     bind_res (libp2p_net_multistream_write_without_check parent_write multistream_protocol s) (\<lambda>(n, s').
     Inr (if n = 0 then (False, status, s')
          else (True, if they_requested then multistream_status_ack else multistream_status_syn, s')))"

text \<open>
  The waiting: what another thread has made of the status by each second is \<open>status_at\<close>. The result is whether it is there.
\<close>

fun wait_for_ack :: "(nat \<Rightarrow> multistream_status) \<Rightarrow> nat \<Rightarrow> nat \<Rightarrow> nat" where
  "wait_for_ack status_at counter 0 = counter"
| "wait_for_ack status_at counter (Suc left) =
     (if status_at counter \<noteq> multistream_status_ack then wait_for_ack status_at (counter + 1) left else counter)"

definition multistream_wait :: "(nat \<Rightarrow> multistream_status) \<Rightarrow> int \<Rightarrow> bool" where
  "multistream_wait status_at timeout_secs =
     (status_at (wait_for_ack status_at 0 (nat (timeout_secs + 1))) = multistream_status_ack)"

text \<open>
  \<open>libp2p_net_multistream_ready\<close> waits for a stream of this type first. After more than five seconds it gives up, whatever the limit it was given.
\<close>

fun wait_for_type :: "(nat \<Rightarrow> stream_type) \<Rightarrow> nat \<Rightarrow> nat \<Rightarrow> nat" where
  "wait_for_type type_at counter 0 = counter"
| "wait_for_type type_at counter (Suc left) =
     (if type_at counter \<noteq> STREAM_TYPE_MULTISTREAM then wait_for_type type_at (counter + 1) left else counter)"

definition libp2p_net_multistream_ready ::
    "(nat \<Rightarrow> stream_type) \<Rightarrow> (nat \<Rightarrow> multistream_status) \<Rightarrow> int \<Rightarrow> bool" where
  "libp2p_net_multistream_ready type_at status_at timeout_secs =
     (let counter = wait_for_type type_at 0 (nat (timeout_secs + 1))
      in counter \<le> 5 \<and> multistream_wait (\<lambda>n. status_at (counter + n)) (timeout_secs - int counter))"

text \<open>
  A new stream on top of another one, which is told of it first (\<open>parent_upgrade\<close>): \<open>None\<close> when the header could not be sent,
  and the stream below is closed, else the status in the end; how it changes while the function waits for the answer of the other side
  is \<open>status_at\<close>.
\<close>

definition libp2p_net_multistream_stream_new ::
    "(bytes \<Rightarrow> 's \<Rightarrow> int \<times> 's) \<Rightarrow> ('s \<Rightarrow> 's) \<Rightarrow> ('s \<Rightarrow> 's) \<Rightarrow> (nat \<Rightarrow> multistream_status) \<Rightarrow> bool \<Rightarrow> 's \<Rightarrow>
     (multistream_status option \<times> 's) result" where
  "libp2p_net_multistream_stream_new parent_write parent_upgrade parent_close status_at they_requested s =
     bind_res (libp2p_net_multistream_negotiate parent_write they_requested multistream_status_initialized (parent_upgrade s))
       (\<lambda>(ok, status, s').
        Inr (if \<not> ok then (None, parent_close s')
             else (Some (if they_requested then status else status_at (wait_for_ack status_at 0 5)), s')))"

text \<open>
  A header came in on a stream of the given type. When that is a multistream, it is the answer to our header. Else the other side
  asks: then the status is set in the context of the old stream, which is not that of a multistream.
\<close>

definition libp2p_net_multistream_handle_message ::
    "(bytes \<Rightarrow> 's \<Rightarrow> int \<times> 's) \<Rightarrow> ('s \<Rightarrow> 's) \<Rightarrow> ('s \<Rightarrow> 's) \<Rightarrow> stream_type \<Rightarrow> multistream_status \<Rightarrow> 's \<Rightarrow>
     (int \<times> multistream_status \<times> 's) result" where
  "libp2p_net_multistream_handle_message parent_write parent_upgrade parent_close type status s =
     (if type = STREAM_TYPE_MULTISTREAM then
        Inr (if status = multistream_status_ack then (- 1, status, s) else (1, multistream_status_ack, s))
      else
        bind_res (libp2p_net_multistream_stream_new parent_write parent_upgrade parent_close (\<lambda>n. multistream_status_ack) True s) (\<lambda>(new_stream, s').
        case new_stream of None \<Rightarrow> Inr (- 1, status, s') | Some st \<Rightarrow> Inl Undefined))"

text \<open>The protocol above takes the place of the multistream, if its parent is this stream.\<close>

definition libp2p_net_multistream_handle_upgrade :: "stream_type \<Rightarrow> bool \<Rightarrow> ('s \<Rightarrow> 's) \<Rightarrow> 's \<Rightarrow> bool \<times> 's" where
  "libp2p_net_multistream_handle_upgrade type is_parent parent_upgrade s =
     (if type \<noteq> STREAM_TYPE_MULTISTREAM then (False, s) else (True, if is_parent then parent_upgrade s else s))"

text \<open>Bytes are waiting: a message is read and goes to the handlers of the stream, none of which it has. The result is the number of bytes.\<close>

definition libp2p_net_multistream_bytes_waiting ::
    "(int \<Rightarrow> 's \<Rightarrow> bytes option \<times> 's) \<Rightarrow> 's protocol_handler list option \<Rightarrow> 's \<Rightarrow> (nat \<times> bytes list \<times> 's) result" where
  "libp2p_net_multistream_bytes_waiting read_raw handlers s =
     bind_res (libp2p_net_multistream_read read_raw s) (\<lambda>(message, s1).
     case message of
       None \<Rightarrow> Inr (0, [], s1)
     | Some d \<Rightarrow>
         bind_res (libp2p_protocol_marshal \<lparr>msg_data = Some d, error_number = 0\<rparr> handlers s1) (\<lambda>(ret, m, written, s2).
         Inr (if 0 \<le> ret then length d else 0, written, s2)))"

section \<open>The bytes of a size\<close>

lemma leb128_last_byte: "acc @ b # rest = leb128 n \<Longrightarrow> drop_bit 7 b = 0 \<longleftrightarrow> rest = []"
proof (induction n arbitrary: acc rule: leb128.induct)
  case (1 n)
  have high: "drop_bit 7 (of_nat m :: byte) = 0 \<longleftrightarrow> m < 128" if "m < 256" for m
    using that by (simp add: word_unat_eq_iff unat_drop_bit_eq unsigned_of_nat take_bit_nat_eq_self drop_bit_nat_def div_eq_0_iff)
  show ?case
  proof (cases "n < 128")
    case True
    then show ?thesis using 1(2) high [of n] by (subst (asm) leb128.simps) (auto simp: append_eq_Cons_conv)
  next
    case False
    then have l: "leb128 n = of_nat (n mod 128 + 128) # leb128 (n div 128)" by (subst leb128.simps) simp
    have "leb128 (n div 128) \<noteq> []" by (subst leb128.simps) simp
    with 1 False l high [of "n mod 128 + 128"] show ?thesis by (cases acc) (auto simp del: of_nat_add)
  qed
qed

section \<open>Reading what was written\<close>

text \<open>Reading messages one after another.\<close>

fun read_messages :: "(int \<Rightarrow> 's \<Rightarrow> bytes option \<times> 's) \<Rightarrow> nat \<Rightarrow> 's \<Rightarrow> (bytes option list \<times> 's) result" where
  "read_messages read_raw 0 s = Inr ([], s)"
| "read_messages read_raw (Suc k) s =
     bind_res (libp2p_net_multistream_read read_raw s) (\<lambda>(m, s1).
     bind_res (read_messages read_raw k s1) (\<lambda>(ms, s2). Inr (m # ms, s2)))"

text \<open>
  What the reads rely on of the stream below: in a good state it gives the bytes that wait in it, if as many as are asked for are there.
\<close>

locale raw_stream =
  fixes read_raw :: "int \<Rightarrow> 's \<Rightarrow> bytes option \<times> 's" and waiting :: "'s \<Rightarrow> bytes" and good :: "'s \<Rightarrow> bool"
  assumes read_waiting: "good s \<Longrightarrow> waiting s = xs @ ys \<Longrightarrow> length xs < 2 ^ 31 \<Longrightarrow>
    \<exists>s'. read_raw (int (length xs)) s = (Some xs, s') \<and> waiting s' = ys \<and> good s'"
begin

lemma read_length_varint:
  assumes "good s" and "waiting s = rest @ ys" and "acc @ rest = leb128 (unat (n :: u64))" and "rest \<noteq> []" and "length acc + left = 12"
  shows "\<exists>s'. read_length read_raw acc left s = Inr (Some (unat n), s') \<and> waiting s' = ys \<and> good s'"
  using assms
proof (induction rest arbitrary: acc left s)
  case (Cons b rest)
  have "left \<noteq> 0" using Cons.prems(3,5) length_leb128_u64 [of n] by (auto dest: arg_cong [where f = length])
  then obtain l where l: "left = Suc l" by (cases left) auto
  obtain s1 where s1: "read_raw 1 s = (Some [b], s1)" "waiting s1 = rest @ ys" "good s1"
    using read_waiting [of s "[b]" "rest @ ys"] Cons.prems(1,2) by auto
  have last: "drop_bit 7 b = 0 \<longleftrightarrow> rest = []" by (rule leb128_last_byte [OF Cons.prems(3)])
  show ?case
  proof (cases "rest = []")
    case True
    then have "varint_decode ((acc @ [b]) @ replicate l 0) (int (length (acc @ [b]))) = Inr (n, length (acc @ [b]))"
      using Cons.prems(3) varint_decode_leb128 [of n "int (length (acc @ [b]))" "replicate l 0"] by simp
    then show ?thesis using True s1 last by (simp add: l)
  next
    case False
    then show ?thesis using Cons.IH [of s1 "acc @ [b]" l] Cons.prems s1 last l by simp
  qed
qed simp

lemma read_message:
  assumes "good s" and "libp2p_net_multistream_prepare_to_send d = Inr (Some f)" and "waiting s = f @ ys"
    and "d \<noteq> []" and "length d < 2 ^ 31"
  shows "\<exists>s'. libp2p_net_multistream_read read_raw s = Inr (Some d, s') \<and> waiting s' = ys \<and> good s'"
proof -
  let ?n = "of_nat (length d) :: u64"
  have n: "unat ?n = length d" using assms(5) by (simp add: unat_of_nat)
  have f: "f = leb128 (length d) @ d"
    using assms(2) n varint_encode_Inr [of ?n 12 12]
    by (auto simp: libp2p_net_multistream_prepare_to_send_def bind_res_Inr_iff Let_def split: if_splits)
  have "leb128 (length d) \<noteq> []" by (subst leb128.simps) simp
  then obtain s1 where s1: "read_length read_raw [] 12 s = Inr (Some (length d), s1)" "waiting s1 = d @ ys" "good s1"
    using read_length_varint [OF assms(1), of "leb128 (length d)" "d @ ys" "[]" ?n 12] assms(3) n by (auto simp: f)
  moreover obtain s2 where "read_raw (int (length d)) s1 = (Some d, s2)" "waiting s2 = ys" "good s2"
    using read_waiting [OF s1(3,2) assms(5)] by auto
  ultimately show ?thesis using assms(4,5)
    by (simp add: libp2p_net_multistream_read_def malloc_ok_def c_int_nat_small)
qed

lemma messages_read:
  assumes "good s" and "map (\<lambda>d. libp2p_net_multistream_prepare_to_send d) ds = map (\<lambda>f. Inr (Some f)) fs"
    and "waiting s = concat fs @ ys" and "list_all (\<lambda>d. d \<noteq> [] \<and> length d < 2 ^ 31) ds"
  shows "\<exists>s'. read_messages read_raw (length ds) s = Inr (map Some ds, s') \<and> waiting s' = ys \<and> good s'"
  using assms
proof (induction ds arbitrary: fs s)
  case (Cons d ds)
  then obtain f gs where f: "fs = f # gs" "libp2p_net_multistream_prepare_to_send d = Inr (Some f)" by (cases fs) auto
  obtain s1 where s1: "libp2p_net_multistream_read read_raw s = Inr (Some d, s1)" "waiting s1 = concat gs @ ys" "good s1"
    using read_message [OF Cons.prems(1) f(2), of "concat gs @ ys"] Cons.prems(3,4) f(1) by auto
  then show ?case using Cons.IH [of s1 gs] Cons.prems f(1) by auto
qed simp

end

end
