(* ===== verification/Multistream_Session.thy ===== *)
theory Multistream_Session
  imports Multistream Yamux_Session
begin

text \<open>
  Messages of \<open>libp2p/net/multistream.c\<close> over a channel of \<open>libp2p/yamux/yamux.c\<close>: what \<open>libp2p_net_multistream_write\<close> puts on the channel
  is what \<open>libp2p_net_multistream_read\<close> gives on the other side. Then the headers that are recognised, and the answer to one.
\<close>

section \<open>A channel as the stream below\<close>

definition channel_read_raw :: "(nat \<Rightarrow> bytes) \<Rightarrow> nat \<Rightarrow> nat \<Rightarrow> int \<Rightarrow> yamux \<Rightarrow> bytes option \<times> yamux" where
  "channel_read_raw arrives c timeout n y =
     (case libp2p_yamux_channel_read_raw arrives c (nat n) timeout y of (bs, y') \<Rightarrow> (Some bs, y'))"

definition channel_waiting :: "nat \<Rightarrow> yamux \<Rightarrow> bytes" where
  "channel_waiting c y = ch_buffer (channels y ! c)"

definition channel_there :: "nat \<Rightarrow> yamux \<Rightarrow> bool" where
  "channel_there c y \<longleftrightarrow> c < length (channels y)"

lemma wait_for_bytes_there: "n \<le> length b \<Longrightarrow> wait_for_bytes arrives (int n) t b = b"
  by (cases t) simp_all

interpretation channel_stream: raw_stream "channel_read_raw arrives c timeout" "channel_waiting c" "channel_there c"
proof unfold_locales
  fix y xs ys
  assume "channel_there c y" and "channel_waiting c y = xs @ ys" and "length xs < 2 ^ 31"
  then show "\<exists>y'. channel_read_raw arrives c timeout (int (length xs)) y = (Some xs, y') \<and>
      channel_waiting c y' = ys \<and> channel_there c y'"
    by (simp add: channel_read_raw_def libp2p_yamux_channel_read_raw_def channel_waiting_def channel_there_def
        wait_for_bytes_there buffer_get_eq Let_def)
qed

section \<open>Headers\<close>

lemma header_matches_iff: "header_matches p s = Inr True \<longleftrightarrow> (\<exists>rest. s = p @ rest)"
proof
  assume "header_matches p s = Inr True"
  then have "take (length p) s = p" by (simp add: header_matches_def split: if_splits)
  then show "\<exists>rest. s = p @ rest" by (metis append_take_drop_id)
qed (auto simp: header_matches_def)

lemma can_handle_header_True:
  assumes "p \<noteq> []"
  shows "can_handle_header p (Some \<lparr>msg_data = Some d, error_number = e\<rparr>) = Inr True \<longleftrightarrow>
    (\<exists>rest. d = p @ rest) \<or>
    (\<exists>v size rest. d = size @ p @ rest \<and> d ! 0 \<noteq> p ! 0 \<and> d ! 1 \<noteq> p ! 1 \<and>
       varint_decode d (int (length d)) = Inr (v, length size))"
proof (cases "d \<noteq> [] \<and> d ! 0 \<noteq> p ! 0 \<and> d ! 1 \<noteq> p ! 1")
  case True
  then have "d \<noteq> p @ rest" for rest using assms by (auto simp: nth_append)
  moreover have "can_handle_header p (Some \<lparr>msg_data = Some d, error_number = e\<rparr>) = Inr True \<longleftrightarrow>
    (\<exists>v size rest. d = size @ p @ rest \<and> varint_decode d (int (length d)) = Inr (v, length size))"
  proof (cases "varint_decode d (int (length d))")
    case (Inl err)
    then show ?thesis using True by (simp add: can_handle_header_def)
  next
    case (Inr vn)
    obtain v n where vn: "vn = (v, n)" by force
    then have n: "0 < n" "n \<le> length d" using varint_decode_bounds Inr by auto
    have "header_matches p (drop n d) = Inr True \<longleftrightarrow> (\<exists>size rest. d = size @ p @ rest \<and> n = length size)"
      unfolding header_matches_iff using n(2)
      by (metis append_eq_conv_conj append_take_drop_id length_take min_absorb2)
    moreover have "length p - n \<le> length d \<and> length d \<noteq> 1" if "d = size @ p @ rest" "n = length size" for size rest
      using that assms n(1) by (cases size; cases p) auto
    moreover have "can_handle_header p (Some \<lparr>msg_data = Some d, error_number = e\<rparr>) =
        (if length d = 1 then Inl Undefined
         else if length p - n \<le> length d then header_matches p (drop n d) else Inr False)"
      using True Inr vn by (simp add: can_handle_header_def)
    ultimately have "can_handle_header p (Some \<lparr>msg_data = Some d, error_number = e\<rparr>) = Inr True \<longleftrightarrow>
        (\<exists>size rest. d = size @ p @ rest \<and> n = length size)" by (auto split: if_splits)
    then show ?thesis unfolding Inr vn by simp
  qed
  ultimately show ?thesis using True by blast
next
  case False
  moreover have "(p @ rest) ! 0 = p ! 0" for rest using assms by (simp add: nth_append)
  ultimately show ?thesis using assms
    by (auto simp: can_handle_header_def header_matches_iff)
qed

lemma prepare_to_send_eq:
  assumes "length d < 2 ^ 31"
  shows "libp2p_net_multistream_prepare_to_send d = Inr (Some (leb128 (length d) @ d))"
proof -
  let ?n = "of_nat (length d) :: u64"
  have n: "unat ?n = length d" using assms by (simp add: unat_of_nat)
  then have l: "length (leb128 (length d)) \<le> 10" using length_leb128_u64 [of ?n] by simp
  have "varint_encode ?n 12 12 = Inr (leb128 (length d))"
    using varint_encode_ok [of ?n 12 12] n l by simp
  then show ?thesis using assms l
    by (simp add: libp2p_net_multistream_prepare_to_send_def malloc_ok_def Let_def)
qed

section \<open>Properties\<close>

text \<open>
  C31: messages arrive as they were sent: those written as multistream messages on one channel of an open connection are read, as many
  times as there are messages, as the messages that were written, in their order, whatever they hold, and nothing is left over.
\<close>

theorem multistream_over_yamux:
  assumes "channel_open c i s a b" and "ch_buffer (channels b ! ys_channel s) = []"
    and "\<forall>d\<in>set ds. d \<noteq> [] \<and> length d < 2 ^ 31"
    and "map libp2p_net_multistream_prepare_to_send ds = map (\<lambda>f. Inr (Some f)) fs" and "length (concat fs) < 2 ^ 63"
  shows "\<exists>a' b' b''. transfer ok valid marshal negotiate c fs a b = Inr (a', b') \<and>
    read_messages (channel_read_raw arrives (ys_channel s) timeout) (length ds) b' = Inr (map Some ds, b'') \<and>
    channel_waiting (ys_channel s) b'' = []"
proof -
  have "\<forall>f\<in>set fs. length f < 2 ^ 32"
  proof
    fix f assume "f \<in> set fs"
    then have "Inr (Some f) \<in> libp2p_net_multistream_prepare_to_send ` set ds"
      using arg_cong [OF assms(4), of set] by simp
    then obtain d where d: "d \<in> set ds" "f = leb128 (length d) @ d"
      using assms(3) prepare_to_send_eq by force
    moreover have "unat (of_nat (length d) :: u64) = length d" using assms(3) d(1) by (auto simp: unat_of_nat)
    then have "length (leb128 (length d)) \<le> 10" using length_leb128_u64 [of "of_nat (length d)"] by simp
    ultimately show "length f < 2 ^ 32" using assms(3) by auto
  qed
  then obtain a' b' where t: "transfer ok valid marshal negotiate c fs a b = Inr (a', b')" "channel_open c i s a' b'"
    "ch_buffer (channels b' ! ys_channel s) = concat fs"
    using transfer_all [OF assms(1), of fs ok valid marshal negotiate] assms(2,5) by auto
  then have "channel_there (ys_channel s) b'" by (simp add: channel_there_def channel_open_def)
  then obtain b'' where "read_messages (channel_read_raw arrives (ys_channel s) timeout) (length ds) b' = Inr (map Some ds, b'')"
    "channel_waiting (ys_channel s) b'' = []"
    using channel_stream.messages_read [of "ys_channel s" b' ds fs "[]" arrives timeout] assms(3,4) t(3)
    by (auto simp: channel_waiting_def list_all_iff)
  with t(1) show ?thesis by blast
qed

theorem multistream_over_yamux_witness:
  "\<exists>a' b' b''. transfer (\<lambda>_. True) (\<lambda>_. True) (\<lambda>c d y. y) (\<lambda>c y. y) 0 [[1, 7], [2, 8, 9]]
      (channel_session yamux_stream_est 0 False) (channel_session yamux_stream_est 0 True) = Inr (a', b') \<and>
    read_messages (channel_read_raw (\<lambda>_. []) 0 5) 2 b' = Inr ([Some [7], Some [8, 9]], b'') \<and>
    channel_waiting 0 b'' = []"
proof -
  let ?s = "\<lparr>ys_id = 1, ys_state = yamux_stream_inited, ys_window_size = YAMUX_DEFAULT_WINDOW, ys_channel = 0\<rparr>"
  let ?a = "channel_session yamux_stream_est 0 False" and ?b = "channel_session yamux_stream_est 0 True"
  have o: "channel_open 0 0 ?s ?a ?b" "ch_buffer (channels ?b ! ys_channel ?s) = []"
    by (auto simp: channel_open_def channel_session_def opened_session_eq(2) new_channel_def session_of_def
        threadsafe_buffer_context_new_def)
  have f: "map libp2p_net_multistream_prepare_to_send [[7], [8, 9]] = map (\<lambda>f. Inr (Some f)) [[1, 7], [2, 8, 9]]"
    by (simp add: prepare_to_send_eq leb128.simps)
  have n: "length [[7 :: byte], [8, 9]] = 2" by simp
  show ?thesis
    using multistream_over_yamux [OF o _ f, of "\<lambda>_. True" "\<lambda>_. True" "\<lambda>c d y. y" "\<lambda>c y. y" "\<lambda>_. []" 5]
    unfolding n by (simp del: transfer.simps read_messages.simps)
qed

text \<open>
  A message is taken for the start of a negotiation exactly when the header is its beginning, or comes after a size that the two
  first bytes of the header cannot be confused with.
\<close>

theorem multistream_can_handle:
  "libp2p_net_multistream_can_handle (Some \<lparr>msg_data = Some d, error_number = e\<rparr>) = Inr True \<longleftrightarrow>
    (\<exists>rest. d = multistream_protocol @ rest) \<or>
    (\<exists>v size rest. d = size @ multistream_protocol @ rest \<and> d ! 0 \<noteq> multistream_protocol ! 0 \<and>
       d ! 1 \<noteq> multistream_protocol ! 1 \<and> varint_decode d (int (length d)) = Inr (v, length size))"
  unfolding libp2p_net_multistream_can_handle_def by (rule can_handle_header_True) (simp add: multistream_protocol_def)

text \<open>The answer to a header from the other side never gets as far as its end.\<close>

lemma multistream_answer_faults:
  assumes "type \<noteq> STREAM_TYPE_MULTISTREAM"
    and "libp2p_net_multistream_write_without_check parent_write multistream_protocol (parent_upgrade s) = Inr (n, s')" and "n \<noteq> 0"
  shows "libp2p_net_multistream_handle_message parent_write parent_upgrade parent_close type status s = Inl Undefined"
  using assms
  by (simp add: libp2p_net_multistream_handle_message_def libp2p_net_multistream_stream_new_def libp2p_net_multistream_negotiate_def)

end
