(* ===== verification/Identify.thy ===== *)
theory Identify
  imports Multistream_Session Protobuf
begin

text \<open>
  The identify protocol, \<open>libp2p/identify/identify.c\<close>: what a node tells another of itself, as a protobuf message, and how it is asked for.
  A member that is a C string is the bytes of it; a list that ends with a null pointer is the list of its items.
\<close>

section \<open>What is told\<close>

record identify =
  PublicKey :: "bytes option"
  PublicKeyLength :: "int option"
  ListenAddrs :: "bytes list option"
  Protocols :: "bytes list option"
  ObservedAddr :: "bytes option"
  ProtocolVersion :: "bytes option"
  AgentVersion :: "bytes option"
  XXX_unrecognized :: "bytes option"

definition IDENTIFY_PROTOCOL_VERSION :: bytes where
  "IDENTIFY_PROTOCOL_VERSION = map of_char ''ipfs/0.1.0''"

definition IDENTIFY_AGENT_VERSION :: bytes where
  "IDENTIFY_AGENT_VERSION = map of_char ''c-ipfs/1.0''"

text \<open>The length of the key is not set.\<close>

definition libp2p_identify_new :: identify where
  "libp2p_identify_new =
     \<lparr>PublicKey = None, PublicKeyLength = None, ListenAddrs = None, Protocols = None, ObservedAddr = None,
      ProtocolVersion = Some IDENTIFY_PROTOCOL_VERSION, AgentVersion = Some IDENTIFY_AGENT_VERSION, XXX_unrecognized = None\<rparr>"

definition libp2p_identify_new_item :: "bytes option \<Rightarrow> nat \<Rightarrow> bytes option result" where
  "libp2p_identify_new_item item n =
     (case item of
        None \<Rightarrow> Inr None
      | Some i \<Rightarrow>
          if \<not> malloc_ok n then Inr None
          else if n \<le> length i then Inr (Some (take n i)) else Inl Undefined)"

text \<open>
  \<open>*array[count]\<close> is \<open>*(array[count])\<close>: what is written is not the end of the list but what the next member of the struct points to.
\<close>

definition libp2p_identify_array_add_item ::
    "bytes list option option \<Rightarrow> bytes option \<Rightarrow> (bytes list option option \<times> int) result" where
  "libp2p_identify_array_add_item array item =
     (case array of
        None \<Rightarrow> Inr (array, 0)
      | Some a \<Rightarrow> (case item of None \<Rightarrow> Inr (array, 0) | Some i \<Rightarrow> Inl Undefined))"

section \<open>The message\<close>

definition put_public_key :: "identify \<Rightarrow> nat \<Rightarrow> bytes \<Rightarrow> bytes result" where
  "put_public_key x max_len out =
     (case PublicKey x of
        None \<Rightarrow> Inr out
      | Some k \<Rightarrow>
          (case PublicKeyLength x of
             None \<Rightarrow> Inl Undefined
           | Some n \<Rightarrow>
               if 0 \<le> n \<and> nat n \<le> length k then put_bytes 1 (take (nat n) k) max_len out else Inl Undefined))"

definition put_strings :: "int \<Rightarrow> bytes list \<Rightarrow> nat \<Rightarrow> (bytes \<Rightarrow> bytes result) list" where
  "put_strings k items max_len = map (\<lambda>i. put_string k i max_len) items"

definition items_of :: "'a list option \<Rightarrow> 'a list" where
  "items_of l = (case l of None \<Rightarrow> [] | Some xs \<Rightarrow> xs)"

definition string_of :: "'a option \<Rightarrow> 'a list" where
  "string_of l = (case l of None \<Rightarrow> [] | Some x \<Rightarrow> [x])"

definition libp2p_identify_protobuf_encode :: "identify \<Rightarrow> nat \<Rightarrow> bytes result" where
  "libp2p_identify_protobuf_encode x max_buffer_size =
     chain
       ([put_public_key x max_buffer_size] @
        put_strings 2 (items_of (ListenAddrs x)) max_buffer_size @
        put_strings 3 (items_of (Protocols x)) max_buffer_size @
        put_strings 4 (string_of (ObservedAddr x)) max_buffer_size @
        put_strings 5 (string_of (ProtocolVersion x)) max_buffer_size @
        put_strings 6 (string_of (AgentVersion x)) max_buffer_size) []"

text \<open>
  What is not known is kept, the items with commas between them: a string of \<open>len\<close> bytes, with its end, gives way to as many bytes as
  its field had, which are no more only when the length took one byte.
\<close>

definition add_unrecognized :: "bytes option \<Rightarrow> bytes \<Rightarrow> nat \<Rightarrow> bytes result" where
  "add_unrecognized old item bytes_read =
     (if bytes_read \<noteq> length item + 1 then Inl Undefined
      else Inr ((case old of None \<Rightarrow> [] | Some u \<Rightarrow> c_string u @ [44]) @ item @ [0]))"

text \<open>A string of no bytes leaves the pointer it was to be stored at as it is.\<close>

definition identify_field :: "bytes \<Rightarrow> int \<Rightarrow> nat \<Rightarrow> identify \<Rightarrow> (identify \<times> nat) run" where
  "identify_field buf field_no pos x =
     Some (bind_res (protobuf_decode_string (drop pos buf) (length buf - pos)) (\<lambda>(s, n).
       let pos' = c_size (int pos + int n);
           keep = (\<lambda>set. Inr (case s of None \<Rightarrow> x | Some d \<Rightarrow> set d, pos'))
       in if field_no = 1 then keep (\<lambda>d. x\<lparr>PublicKey := Some d\<rparr>)
          else if field_no = 2 \<or> field_no = 3 then
            (case s of
               None \<Rightarrow> Inl Undefined
             | Some d \<Rightarrow>
                 bind_res (libp2p_identify_array_add_item (Some (if field_no = 2 then ListenAddrs x else Protocols x)) (Some d)) (\<lambda>(a, count).
                 if count = 0 then Inl Failure
                 else Inr (if field_no = 2 then x\<lparr>ListenAddrs := the a\<rparr> else x\<lparr>Protocols := the a\<rparr>, pos')))
          else if field_no = 4 then keep (\<lambda>d. x\<lparr>ObservedAddr := Some d\<rparr>)
          else if field_no = 5 then keep (\<lambda>d. x\<lparr>ProtocolVersion := Some d\<rparr>)
          else if field_no = 6 then keep (\<lambda>d. x\<lparr>AgentVersion := Some d\<rparr>)
          else
            (case s of
               None \<Rightarrow> Inl Undefined
             | Some d \<Rightarrow> bind_res (add_unrecognized (XXX_unrecognized x) d n) (\<lambda>u. Inr (x\<lparr>XXX_unrecognized := Some u\<rparr>, pos')))))"

definition libp2p_identify_protobuf_decode :: "bytes \<Rightarrow> identify run" where
  "libp2p_identify_protobuf_decode buf = pb_decode_loop (identify_field buf) buf 0 libp2p_identify_new"

section \<open>The protocol\<close>

definition identify_protocol :: bytes where
  "identify_protocol = map of_char ''/ipfs/id/1.0.0'' @ [10]"

definition libp2p_identify_can_handle :: "stream_message option \<Rightarrow> bool result" where
  "libp2p_identify_can_handle msg = can_handle_header identify_protocol msg"

definition libp2p_identify_send_protocol ::
    "(bytes \<Rightarrow> 's \<Rightarrow> bool \<times> 's) \<Rightarrow> identify \<Rightarrow> bool \<Rightarrow> 's \<Rightarrow> (bool \<times> 's) result" where
  "libp2p_identify_send_protocol stream_write x initiatedByUs s =
     (if initiatedByUs then Inr (stream_write identify_protocol s)
      else
        (case libp2p_identify_protobuf_encode x (6000 - length identify_protocol) of
           Inl Failure \<Rightarrow> Inr (False, s)
         | Inl e \<Rightarrow> Inl e
         | Inr body \<Rightarrow> Inr (stream_write (identify_protocol @ body) s)))"

text \<open>
  The reply is a string, or ends after it; the string begins after the first byte when that is not a slash. It must have an end.
\<close>

definition find_string :: "bytes \<Rightarrow> bytes \<Rightarrow> nat option" where
  "find_string text_bytes s = List.find (\<lambda>i. take (length s) (drop i text_bytes) = s) [0..<length text_bytes]"

definition libp2p_identify_receive_protocol :: "('s \<Rightarrow> bytes option \<times> 's) \<Rightarrow> 's \<Rightarrow> (bool \<times> 's) result" where
  "libp2p_identify_receive_protocol stream_read s =
     (case stream_read s of
        (None, s') \<Rightarrow> Inr (False, s')
      | (Some d, s') \<Rightarrow>
          if d = [] then Inl Undefined
          else
            let d' = if hd d \<noteq> 47 then tl d else d in
            case find_string (c_string d') identify_protocol of
              Some i \<Rightarrow> Inr (i \<le> 1, s')
            | None \<Rightarrow> if 0 \<in> set d' then Inr (False, s') else Inl Undefined)"

text \<open>A stream that was not read from is \<open>False\<close>; reading gives nothing to the caller in any case.\<close>

definition libp2p_identify_read :: "('s \<Rightarrow> bool \<times> 's) \<Rightarrow> 's \<Rightarrow> int \<times> 's" where
  "libp2p_identify_read parent_read s = (0, snd (parent_read s))"

definition libp2p_identify_stream_new ::
    "(bytes \<Rightarrow> 's \<Rightarrow> bool \<times> 's) \<Rightarrow> identify \<Rightarrow> bool \<Rightarrow> 's \<Rightarrow> (bool \<times> 's) result" where
  "libp2p_identify_stream_new stream_write x initiatedByUs s = libp2p_identify_send_protocol stream_write x initiatedByUs s"

text \<open>
  The header came on a stream whose own context and those of the streams below it are \<open>contexts\<close>; \<open>child_is_yamux\<close> says of a channel
  that the protocol on it is yamux still.
\<close>

definition libp2p_identify_handle_message ::
    "(bytes \<Rightarrow> 's \<Rightarrow> bool \<times> 's) \<Rightarrow> ('s \<Rightarrow> int \<times> 's) \<Rightarrow> (nat \<Rightarrow> bool) \<Rightarrow> yamux_context list \<Rightarrow> yamux \<Rightarrow> identify \<Rightarrow> 's \<Rightarrow>
     (int \<times> 's) result" where
  "libp2p_identify_handle_message stream_write handle_upgrade child_is_yamux contexts y x s =
     (let they_initiated =
        bind_res (libp2p_identify_stream_new stream_write x False s) (\<lambda>(new_stream, s').
        Inr (if new_stream then handle_upgrade s' else (- 1, s')))
      in bind_res (libp2p_yamux_get_parent_channel_context contexts) (\<lambda>channel.
         case channel of
           Channel_Context c \<Rightarrow>
             if child_is_yamux c then
               (if (am_server y \<and> even (unat (ch_number (channels y ! c)))) \<or>
                   (\<not> am_server y \<and> odd (unat (ch_number (channels y ! c)))) then Inr (1, s)
                else Inr (1, s))
             else they_initiated
         | _ \<Rightarrow> they_initiated))"

definition libp2p_identify_build_protocol_handler :: "bytes \<Rightarrow> int \<Rightarrow> identify" where
  "libp2p_identify_build_protocol_handler public_key public_key_length =
     libp2p_identify_new\<lparr>PublicKey := Some public_key, PublicKeyLength := Some public_key_length\<rparr>"

section \<open>The wire format\<close>

definition key_field :: "identify \<Rightarrow> wire_field list" where
  "key_field x = (case PublicKey x of None \<Rightarrow> [] | Some k \<Rightarrow> [Bytes_Field 1 (take (nat (the (PublicKeyLength x))) k)])"

definition string_fields :: "nat \<Rightarrow> bytes list \<Rightarrow> wire_field list" where
  "string_fields k items = map (\<lambda>i. Bytes_Field k (c_string i)) items"

definition name_fields :: "identify \<Rightarrow> wire_field list" where
  "name_fields x = string_fields 4 (string_of (ObservedAddr x)) @ string_fields 5 (string_of (ProtocolVersion x)) @
     string_fields 6 (string_of (AgentVersion x))"

definition list_fields :: "identify \<Rightarrow> wire_field list" where
  "list_fields x = string_fields 2 (items_of (ListenAddrs x)) @ string_fields 3 (items_of (Protocols x))"

definition identify_fields :: "identify \<Rightarrow> wire_field list" where
  "identify_fields x = key_field x @ list_fields x @ name_fields x"

text \<open>The key is as long as it is said to be.\<close>

definition key_ok :: "identify \<Rightarrow> bool" where
  "key_ok x \<longleftrightarrow> (case PublicKey x of None \<Rightarrow> True
     | Some k \<Rightarrow> (case PublicKeyLength x of None \<Rightarrow> False | Some n \<Rightarrow> 0 \<le> n \<and> nat n \<le> length k))"

lemma writes_put_public_key:
  assumes "key_ok x" and "max_len < 2 ^ 31"
  shows "writes max_len (chain [put_public_key x max_len]) (key_field x)"
proof (cases "PublicKey x")
  case None
  then show ?thesis by (simp add: writes_def put_public_key_def key_field_def)
next
  case (Some k)
  then have "put_public_key x max_len = put_bytes 1 (take (nat (the (PublicKeyLength x))) k) max_len"
    using assms(1) by (auto simp: key_ok_def put_public_key_def split: option.splits)
  then show ?thesis using Some assms(2)
    by (simp add: key_field_def) (intro writes_intros; simp)
qed

lemma writes_put_strings:
  "max_len < 2 ^ 31 \<Longrightarrow> j = int k \<Longrightarrow> k < 2 ^ 28 \<Longrightarrow> writes max_len (chain (put_strings j items max_len)) (string_fields k items)"
  unfolding put_strings_def string_fields_def by (intro writes_map writes_put_string) simp_all

lemma identify_encode_wire:
  assumes "key_ok x" and "length (wire (identify_fields x)) \<le> n" and "n < 2 ^ 31"
  shows "libp2p_identify_protobuf_encode x n = Inr (wire (identify_fields x))"
  unfolding libp2p_identify_protobuf_encode_def
  by (rule chain_writes [OF _ assms(2)], unfold identify_fields_def list_fields_def name_fields_def append_assoc)
    (intro writes_append writes_put_public_key [OF assms(1,3)] writes_put_strings [OF assms(3)]; simp)

fun identify_store :: "wire_field \<Rightarrow> identify \<Rightarrow> identify" where
  "identify_store (Varint_Field n v) x = x"
| "identify_store (Bytes_Field n d) x =
     (if d = [] then x
      else if n = 1 then x\<lparr>PublicKey := Some d\<rparr> else if n = 4 then x\<lparr>ObservedAddr := Some d\<rparr>
      else if n = 5 then x\<lparr>ProtocolVersion := Some d\<rparr> else if n = 6 then x\<lparr>AgentVersion := Some d\<rparr> else x)"

lemma identify_decodes:
  assumes "length buf < 2 ^ 31" and "n = 1 \<or> n = 4 \<or> n = 5 \<or> n = 6"
  shows "decodes (identify_field buf) buf identify_store (Bytes_Field n d)"
proof (rule decodesI)
  fix pos rest x
  assume d: "drop pos buf = field_body (Bytes_Field n d) @ rest"
    and l: "length buf - pos = length (field_body (Bytes_Field n d)) + length rest"
  then have "length buf - pos = length (leb128 (length d)) + (length d + length rest)" by simp
  then have "c_size (int pos + int (length (leb128 (length d)) + length d)) = pos + (length (leb128 (length d)) + length d)"
    by (rule c_size_pos) (use assms(1) in simp_all)
  with assms d l show "identify_field buf (int (fnum (Bytes_Field n d))) pos x =
      Some (Inr (identify_store (Bytes_Field n d) x, pos + length (field_body (Bytes_Field n d))))"
    by (auto simp: identify_field_def Let_def)
qed

section \<open>Properties\<close>

text \<open>What the other side has of a string: the string as far as its end, and what it had before when there is none.\<close>

definition told :: "bytes option \<Rightarrow> bytes option \<Rightarrow> bytes option" where
  "told old s = (case s of None \<Rightarrow> old | Some d \<Rightarrow> if c_string d = [] then old else Some (c_string d))"

definition identify_told :: "identify \<Rightarrow> identify" where
  "identify_told x = libp2p_identify_new
     \<lparr>PublicKey := (case PublicKey x of None \<Rightarrow> None
        | Some k \<Rightarrow> (let d = take (nat (the (PublicKeyLength x))) k in if d = [] then None else Some d)),
      ObservedAddr := told None (ObservedAddr x),
      ProtocolVersion := told (Some IDENTIFY_PROTOCOL_VERSION) (ProtocolVersion x),
      AgentVersion := told (Some IDENTIFY_AGENT_VERSION) (AgentVersion x)\<rparr>"

text \<open>
  C32: a node is seen as it tells of itself: the key, the address it sees of the other side and the two versions are read from its message
  as they were written, when it names no addresses to listen at and no protocols; a version that is left out is that of the reader.
\<close>

theorem identify_round_trip:
  assumes "key_ok x" and "items_of (ListenAddrs x) = []" and "items_of (Protocols x) = []"
    and "length (wire (identify_fields x)) \<le> n" and "n < 2 ^ 31"
  shows "bind_run (Some (libp2p_identify_protobuf_encode x n)) libp2p_identify_protobuf_decode = Some (Inr (identify_told x))"
proof -
  let ?buf = "wire (identify_fields x)"
  have f: "identify_fields x = key_field x @ name_fields x"
    using assms(2,3) by (simp add: identify_fields_def list_fields_def string_fields_def)
  have "fnum f < 2 ^ 28 \<and> decodes (identify_field ?buf) ?buf identify_store f" if "f \<in> set (identify_fields x)" for f
    using that assms(4,5) identify_decodes [of ?buf] unfolding f
    by (auto simp: key_field_def name_fields_def string_fields_def string_of_def split: option.splits)
  then have "libp2p_identify_protobuf_decode ?buf = Some (Inr (fold identify_store (identify_fields x) libp2p_identify_new))"
    unfolding libp2p_identify_protobuf_decode_def
    by (intro pb_decode_loop_wire) (use assms(4,5) in auto)
  also have "fold identify_store (identify_fields x) libp2p_identify_new = identify_told x"
    unfolding f
    by (auto simp: key_field_def name_fields_def string_fields_def string_of_def identify_told_def told_def
        libp2p_identify_new_def Let_def split: option.splits)
  finally show ?thesis
    by (simp add: identify_encode_wire [OF assms(1,4,5)] bind_run_def)
qed

theorem identify_round_trip_witness:
  "bind_run (Some (libp2p_identify_protobuf_encode ((libp2p_identify_build_protocol_handler [1, 2, 0, 3] 4)\<lparr>AgentVersion := Some [65, 66]\<rparr>) 100))
     libp2p_identify_protobuf_decode =
   Some (Inr (libp2p_identify_new\<lparr>PublicKey := Some [1, 2, 0, 3], AgentVersion := Some [65, 66]\<rparr>))"
proof -
  let ?x = "(libp2p_identify_build_protocol_handler [1, 2, 0, 3] 4)\<lparr>AgentVersion := Some [65, 66]\<rparr>"
  have 1: "key_ok ?x" "items_of (ListenAddrs ?x) = []" "items_of (Protocols ?x) = []" "(100::nat) < 2 ^ 31"
    by (simp_all add: key_ok_def items_of_def libp2p_identify_build_protocol_handler_def libp2p_identify_new_def)
  have 2: "length (wire (identify_fields ?x)) \<le> 100"
    by (simp add: identify_fields_def key_field_def list_fields_def name_fields_def string_fields_def items_of_def string_of_def
        libp2p_identify_build_protocol_handler_def libp2p_identify_new_def field_bytes_def leb128.simps c_string_def IDENTIFY_PROTOCOL_VERSION_def)
  have 3: "identify_told ?x = libp2p_identify_new\<lparr>PublicKey := Some [1, 2, 0, 3], AgentVersion := Some [65, 66]\<rparr>"
    by (simp add: identify_told_def told_def c_string_def IDENTIFY_PROTOCOL_VERSION_def libp2p_identify_build_protocol_handler_def
        libp2p_identify_new_def)
  show ?thesis using identify_round_trip [OF 1(1-3) 2 1(4)] unfolding 3 .
qed

lemma identify_list_field:
  assumes "length buf < 2 ^ 31" and "k = 2 \<or> k = 3" and "drop pos buf = field_bytes (Bytes_Field k d) @ rest" and "pos \<le> length buf"
  shows "pb_decode_loop (identify_field buf) buf pos x = Some (Inl Undefined)"
proof -
  let ?f = "Bytes_Field k d"
  have b: "drop pos buf = field_tag ?f @ leb128 (length d) @ d @ rest" using assms(3) by (simp add: field_bytes_def)
  have "length buf - (pos + length (field_tag ?f)) = length (leb128 (length d)) + length d + length rest"
    using arg_cong [OF b, of length] by simp
  moreover have "drop (pos + length (field_tag ?f)) buf = leb128 (length d) @ d @ rest"
    by (rule drop_append_shift [OF b])
  ultimately have "protobuf_decode_string (drop (pos + length (field_tag ?f)) buf) (length buf - (pos + length (field_tag ?f))) =
      Inr (if d = [] then None else Some d, length (leb128 (length d)) + length d)"
    using assms(1) by simp
  then have "identify_field buf (int (fnum ?f)) (pos + length (field_tag ?f)) x = Some (Inl Undefined)"
    using assms(2) by (auto simp: identify_field_def libp2p_identify_array_add_item_def Let_def)
  then show ?thesis
    using pb_decode_loop_tag [of ?f buf pos "leb128 (length d) @ d @ rest" "identify_field buf" x] assms(1,2) b
    by (auto simp: bind_run_def)
qed

text \<open>
  C33: a message that names an address or a protocol cannot be read: what such a node writes faults at the other side, whatever it writes
  of them and however many it names.
\<close>

theorem identify_lists_fault:
  assumes "key_ok x" and "items_of (ListenAddrs x) @ items_of (Protocols x) \<noteq> []"
    and "length (wire (identify_fields x)) \<le> n" and "n < 2 ^ 31"
  shows "bind_run (Some (libp2p_identify_protobuf_encode x n)) libp2p_identify_protobuf_decode = Some (Inl Undefined)"
proof -
  let ?buf = "wire (identify_fields x)" and ?pos = "length (wire (key_field x))"
  have n: "length ?buf < 2 ^ 31" using assms(3,4) by simp
  obtain k d more where k: "k = 2 \<or> k = 3" and l: "list_fields x = Bytes_Field k d # more"
    using assms(2) by (cases "items_of (ListenAddrs x)"; cases "items_of (Protocols x)") (auto simp: list_fields_def string_fields_def)
  have d: "drop ?pos ?buf = field_bytes (Bytes_Field k d) @ wire (more @ name_fields x)" and "?pos \<le> length ?buf"
    by (simp_all add: identify_fields_def l)
  then have fault: "pb_decode_loop (identify_field ?buf) ?buf ?pos y = Some (Inl Undefined)" for y
    using identify_list_field [OF n k] by blast
  have "fnum f < 2 ^ 28 \<and> decodes (identify_field ?buf) ?buf identify_store f" if "f \<in> set (key_field x)" for f
    using that identify_decodes [OF n] by (auto simp: key_field_def split: option.splits)
  then have "pb_decode_loop (identify_field ?buf) ?buf 0 libp2p_identify_new =
      pb_decode_loop (identify_field ?buf) ?buf (0 + ?pos) (fold identify_store (key_field x) libp2p_identify_new)"
    by (intro pb_decode_loop_wire_rest [OF n, where rest = "wire (list_fields x @ name_fields x)"]) (auto simp: identify_fields_def)
  then show ?thesis
    by (simp add: identify_encode_wire [OF assms(1,3,4)] bind_run_def libp2p_identify_protobuf_decode_def fault)
qed

theorem identify_lists_fault_witness:
  "bind_run (Some (libp2p_identify_protobuf_encode (libp2p_identify_new\<lparr>Protocols := Some [[47, 105]]\<rparr>) 100))
     libp2p_identify_protobuf_decode = Some (Inl Undefined)"
proof -
  let ?x = "libp2p_identify_new\<lparr>Protocols := Some [[47, 105]]\<rparr>"
  have "length (wire (identify_fields ?x)) \<le> 100"
    by (simp add: identify_fields_def key_field_def list_fields_def name_fields_def string_fields_def items_of_def string_of_def
        libp2p_identify_new_def field_bytes_def leb128.simps c_string_def IDENTIFY_PROTOCOL_VERSION_def IDENTIFY_AGENT_VERSION_def)
  moreover have "key_ok ?x" and "items_of (ListenAddrs ?x) @ items_of (Protocols ?x) \<noteq> []"
    by (simp_all add: key_ok_def items_of_def libp2p_identify_new_def)
  ultimately show ?thesis by (intro identify_lists_fault) simp_all
qed

text \<open>
  C34: an answer is answered: whatever stream the header comes on, one of the node's own asking or not, the node takes it that the other side
  asks, and tells of itself.
\<close>

theorem identify_answers_answers:
  assumes "Null_Context \<notin> set contexts"
  shows "libp2p_identify_handle_message stream_write handle_upgrade child_is_yamux contexts y x s =
    bind_res (libp2p_identify_send_protocol stream_write x False s) (\<lambda>(sent, s'). Inr (if sent then handle_upgrade s' else (- 1, s')))"
proof -
  have "libp2p_yamux_get_parent_channel_context contexts = Inr Null_Context"
    using assms by (induction contexts rule: libp2p_yamux_get_parent_channel_context.induct) auto
  then show ?thesis by (simp add: libp2p_identify_handle_message_def libp2p_identify_stream_new_def)
qed

theorem identify_answers_answers_witness:
  "libp2p_identify_handle_message (\<lambda>m ms. (True, ms @ [m])) (\<lambda>ms. (1, ms)) (\<lambda>_. True) [Channel_Context 0] opened_session
     (libp2p_identify_new\<lparr>ProtocolVersion := None, AgentVersion := None\<rparr>) [] = Inr (1, [identify_protocol])"
  using identify_answers_answers [of "[Channel_Context 0]" "\<lambda>m ms. (True, ms @ [m])" "\<lambda>ms. (1, ms)" "\<lambda>_. True" opened_session
      "libp2p_identify_new\<lparr>ProtocolVersion := None, AgentVersion := None\<rparr>" "[]"]
  by (simp add: libp2p_identify_send_protocol_def libp2p_identify_protobuf_encode_def put_public_key_def put_strings_def
      libp2p_identify_new_def items_of_def string_of_def)

end
