(* ===== verification/Hashmap.thy ===== *)
theory Hashmap
  imports Ipfs_Prelude
begin

text \<open>
  The hash table with strings as keys, \<open>libp2p/hashmap/hashmap.c\<close>: open addressing, with a search that looks at eight places and no
  more, and a table that doubles when it is half full or when the eight places are taken.
\<close>

section \<open>The hash\<close>

definition crc32_tab :: "u64 list" where
  "crc32_tab = [
     0x00000000, 0x77073096, 0xee0e612c, 0x990951ba, 0x076dc419, 0x706af48f, 0xe963a535, 0x9e6495a3,
     0x0edb8832, 0x79dcb8a4, 0xe0d5e91e, 0x97d2d988, 0x09b64c2b, 0x7eb17cbd, 0xe7b82d07, 0x90bf1d91,
     0x1db71064, 0x6ab020f2, 0xf3b97148, 0x84be41de, 0x1adad47d, 0x6ddde4eb, 0xf4d4b551, 0x83d385c7,
     0x136c9856, 0x646ba8c0, 0xfd62f97a, 0x8a65c9ec, 0x14015c4f, 0x63066cd9, 0xfa0f3d63, 0x8d080df5,
     0x3b6e20c8, 0x4c69105e, 0xd56041e4, 0xa2677172, 0x3c03e4d1, 0x4b04d447, 0xd20d85fd, 0xa50ab56b,
     0x35b5a8fa, 0x42b2986c, 0xdbbbc9d6, 0xacbcf940, 0x32d86ce3, 0x45df5c75, 0xdcd60dcf, 0xabd13d59,
     0x26d930ac, 0x51de003a, 0xc8d75180, 0xbfd06116, 0x21b4f4b5, 0x56b3c423, 0xcfba9599, 0xb8bda50f,
     0x2802b89e, 0x5f058808, 0xc60cd9b2, 0xb10be924, 0x2f6f7c87, 0x58684c11, 0xc1611dab, 0xb6662d3d,
     0x76dc4190, 0x01db7106, 0x98d220bc, 0xefd5102a, 0x71b18589, 0x06b6b51f, 0x9fbfe4a5, 0xe8b8d433,
     0x7807c9a2, 0x0f00f934, 0x9609a88e, 0xe10e9818, 0x7f6a0dbb, 0x086d3d2d, 0x91646c97, 0xe6635c01,
     0x6b6b51f4, 0x1c6c6162, 0x856530d8, 0xf262004e, 0x6c0695ed, 0x1b01a57b, 0x8208f4c1, 0xf50fc457,
     0x65b0d9c6, 0x12b7e950, 0x8bbeb8ea, 0xfcb9887c, 0x62dd1ddf, 0x15da2d49, 0x8cd37cf3, 0xfbd44c65,
     0x4db26158, 0x3ab551ce, 0xa3bc0074, 0xd4bb30e2, 0x4adfa541, 0x3dd895d7, 0xa4d1c46d, 0xd3d6f4fb,
     0x4369e96a, 0x346ed9fc, 0xad678846, 0xda60b8d0, 0x44042d73, 0x33031de5, 0xaa0a4c5f, 0xdd0d7cc9,
     0x5005713c, 0x270241aa, 0xbe0b1010, 0xc90c2086, 0x5768b525, 0x206f85b3, 0xb966d409, 0xce61e49f,
     0x5edef90e, 0x29d9c998, 0xb0d09822, 0xc7d7a8b4, 0x59b33d17, 0x2eb40d81, 0xb7bd5c3b, 0xc0ba6cad,
     0xedb88320, 0x9abfb3b6, 0x03b6e20c, 0x74b1d29a, 0xead54739, 0x9dd277af, 0x04db2615, 0x73dc1683,
     0xe3630b12, 0x94643b84, 0x0d6d6a3e, 0x7a6a5aa8, 0xe40ecf0b, 0x9309ff9d, 0x0a00ae27, 0x7d079eb1,
     0xf00f9344, 0x8708a3d2, 0x1e01f268, 0x6906c2fe, 0xf762575d, 0x806567cb, 0x196c3671, 0x6e6b06e7,
     0xfed41b76, 0x89d32be0, 0x10da7a5a, 0x67dd4acc, 0xf9b9df6f, 0x8ebeeff9, 0x17b7be43, 0x60b08ed5,
     0xd6d6a3e8, 0xa1d1937e, 0x38d8c2c4, 0x4fdff252, 0xd1bb67f1, 0xa6bc5767, 0x3fb506dd, 0x48b2364b,
     0xd80d2bda, 0xaf0a1b4c, 0x36034af6, 0x41047a60, 0xdf60efc3, 0xa867df55, 0x316e8eef, 0x4669be79,
     0xcb61b38c, 0xbc66831a, 0x256fd2a0, 0x5268e236, 0xcc0c7795, 0xbb0b4703, 0x220216b9, 0x5505262f,
     0xc5ba3bbe, 0xb2bd0b28, 0x2bb45a92, 0x5cb36a04, 0xc2d7ffa7, 0xb5d0cf31, 0x2cd99e8b, 0x5bdeae1d,
     0x9b64c2b0, 0xec63f226, 0x756aa39c, 0x026d930a, 0x9c0906a9, 0xeb0e363f, 0x72076785, 0x05005713,
     0x95bf4a82, 0xe2b87a14, 0x7bb12bae, 0x0cb61b38, 0x92d28e9b, 0xe5d5be0d, 0x7cdcefb7, 0x0bdbdf21,
     0x86d3d2d4, 0xf1d4e242, 0x68ddb3f8, 0x1fda836e, 0x81be16cd, 0xf6b9265b, 0x6fb077e1, 0x18b74777,
     0x88085ae6, 0xff0f6a70, 0x66063bca, 0x11010b5c, 0x8f659eff, 0xf862ae69, 0x616bffd3, 0x166ccf45,
     0xa00ae278, 0xd70dd2ee, 0x4e048354, 0x3903b3c2, 0xa7672661, 0xd06016f7, 0x4969474d, 0x3e6e77db,
     0xaed16a4a, 0xd9d65adc, 0x40df0b66, 0x37d83bf0, 0xa9bcae53, 0xdebb9ec5, 0x47b2cf7f, 0x30b5ffe9,
     0xbdbdf21c, 0xcabac28a, 0x53b39330, 0x24b4a3a6, 0xbad03605, 0xcdd70693, 0x54de5729, 0x23d967bf,
     0xb3667a2e, 0xc4614ab8, 0x5d681b02, 0x2a6f2b94, 0xb40bbe37, 0xc30c8ea1, 0x5a05df1b, 0x2d02ef8d]"

text \<open>One byte of the checksum, and all of them.\<close>

definition crc32_byte :: "u64 \<Rightarrow> byte \<Rightarrow> u64" where
  "crc32_byte crc32val b = crc32_tab ! unat ((crc32val XOR ucast b) AND 0xff) XOR drop_bit 8 crc32val"

definition crc32 :: "bytes \<Rightarrow> nat \<Rightarrow> u64" where
  "crc32 s len = foldl crc32_byte 0 (take len s)"

definition hashmap_mix :: "u64 \<Rightarrow> u64" where
  "hashmap_mix key0 =
     (let key1 = key0 + push_bit 12 key0;
          key2 = key1 XOR drop_bit 22 key1;
          key3 = key2 + push_bit 4 key2;
          key4 = key3 XOR drop_bit 9 key3;
          key5 = key4 + push_bit 10 key4;
          key6 = key5 XOR drop_bit 2 key5;
          key7 = key6 + push_bit 7 key6;
          key8 = key7 XOR drop_bit 12 key7
      in drop_bit 3 key8 * 2654435761)"

text \<open>The length of the string is an \<open>unsigned int\<close>.\<close>

definition hashmap_hash_int :: "nat \<Rightarrow> bytes \<Rightarrow> nat" where
  "hashmap_hash_int tsize keystring = unat (hashmap_mix (crc32 keystring (strlen keystring mod 2 ^ 32))) mod tsize"

section \<open>The table\<close>

definition MAP_MISSING :: int where "MAP_MISSING = - 3"
definition MAP_FULL :: int where "MAP_FULL = - 2"
definition MAP_OMEM :: int where "MAP_OMEM = - 1"
definition MAP_OK :: int where "MAP_OK = 0"

definition INITIAL_SIZE :: nat where "INITIAL_SIZE = 256"
definition MAX_CHAIN_LENGTH :: nat where "MAX_CHAIN_LENGTH = 8"

text \<open>
  A place of the table that is in use has a key, which the table does not copy, and a pointer of the caller's. The places the table
  holds are \<open>elements\<close>, in the order they have.
\<close>

record 'v hashmap =
  table_size :: nat
  map_size :: int
  elements :: "(bytes \<times> 'v) option list"

definition libp2p_libp2p_hashmap_new :: "'v hashmap" where
  "libp2p_libp2p_hashmap_new = \<lparr>table_size = INITIAL_SIZE, map_size = 0, elements = replicate INITIAL_SIZE None\<rparr>"

text \<open>The first place that is free or has the key, among so many.\<close>

fun hashmap_probe :: "(bytes \<times> 'v) option list \<Rightarrow> nat \<Rightarrow> bytes \<Rightarrow> nat \<Rightarrow> nat \<Rightarrow> nat option" where
  "hashmap_probe es tsize key c 0 = None"
| "hashmap_probe es tsize key c (Suc n) =
     (case es ! c of
        None \<Rightarrow> Some c
      | Some (k, v) \<Rightarrow> if k = key then Some c else hashmap_probe es tsize key ((c + 1) mod tsize) n)"

definition hashmap_hash :: "'v hashmap \<Rightarrow> bytes \<Rightarrow> nat option" where
  "hashmap_hash m key =
     (if int (table_size m div 2) \<le> map_size m then None
      else hashmap_probe (elements m) (table_size m) key (hashmap_hash_int (table_size m) key) MAX_CHAIN_LENGTH)"

text \<open>The first place that has the key; free places are passed over.\<close>

fun hashmap_find :: "(bytes \<times> 'v) option list \<Rightarrow> nat \<Rightarrow> bytes \<Rightarrow> nat \<Rightarrow> nat \<Rightarrow> nat option" where
  "hashmap_find es tsize key c 0 = None"
| "hashmap_find es tsize key c (Suc n) =
     (case es ! c of
        Some (k, v) \<Rightarrow> if k = key then Some c else hashmap_find es tsize key ((c + 1) mod tsize) n
      | None \<Rightarrow> hashmap_find es tsize key ((c + 1) mod tsize) n)"

definition hashmap_place :: "'v hashmap \<Rightarrow> bytes \<Rightarrow> nat option" where
  "hashmap_place m key =
     hashmap_find (elements m) (table_size m) key (hashmap_hash_int (table_size m) key) MAX_CHAIN_LENGTH"

section \<open>Operations\<close>

text \<open>
  The loop over the old places of \<open>hashmap_rehash\<close>, with the function that puts a pointer into the table.
\<close>

fun rehash_elements ::
    "('v hashmap \<Rightarrow> bytes \<Rightarrow> 'v \<Rightarrow> (int \<times> 'v hashmap) run) \<Rightarrow> (bytes \<times> 'v) option list \<Rightarrow> 'v hashmap \<Rightarrow> (int \<times> 'v hashmap) run" where
  "rehash_elements put [] m = Some (Inr (MAP_OK, m))"
| "rehash_elements put (None # es) m = rehash_elements put es m"
| "rehash_elements put (Some (key, v) # es) m =
     bind_run (put m key v) (\<lambda>(status, m').
     if status \<noteq> MAP_OK then Some (Inr (status, m')) else rehash_elements put es m')"

text \<open>An element takes 24 bytes. Twice the size of the table is an \<open>int\<close>.\<close>

definition hashmap_rehash ::
    "('v hashmap \<Rightarrow> bytes \<Rightarrow> 'v \<Rightarrow> (int \<times> 'v hashmap) run) \<Rightarrow> 'v hashmap \<Rightarrow> (int \<times> 'v hashmap) run" where
  "hashmap_rehash put m =
     (if 2 ^ 30 \<le> table_size m then Some (Inl Undefined)
      else if \<not> malloc_ok (2 * table_size m * 24) then Some (Inr (MAP_OMEM, m))
      else
        rehash_elements put (elements m)
          \<lparr>table_size = 2 * table_size m, map_size = 0, elements = replicate (2 * table_size m) None\<rparr>)"

text \<open>
  \<open>libp2p_hashmap_put\<close> and \<open>hashmap_rehash\<close> call each other; so many calls deep at most.
\<close>

primrec put_within :: "nat \<Rightarrow> 'v hashmap \<Rightarrow> bytes \<Rightarrow> 'v \<Rightarrow> (int \<times> 'v hashmap) run" where
  "put_within 0 m key v = None"
| "put_within (Suc d) m key v =
     (case hashmap_hash m key of
        Some i \<Rightarrow>
          Some (Inr (MAP_OK, m\<lparr>elements := (elements m)[i := Some (key, v)], map_size := map_size m + 1\<rparr>))
      | None \<Rightarrow>
          bind_run (hashmap_rehash (put_within d) m) (\<lambda>(status, m').
          if status = MAP_OMEM then Some (Inr (MAP_OMEM, m')) else put_within d m' key v))"

definition libp2p_hashmap_put :: "'v hashmap \<Rightarrow> bytes \<Rightarrow> 'v \<Rightarrow> (int \<times> 'v hashmap) run" where
  "libp2p_hashmap_put m key v = put_within 32 m key v"

definition libp2p_hashmap_get :: "'v hashmap \<Rightarrow> bytes \<Rightarrow> int \<times> 'v option" where
  "libp2p_hashmap_get m key =
     (case hashmap_place m key of
        Some i \<Rightarrow> (MAP_OK, map_option snd (elements m ! i))
      | None \<Rightarrow> (MAP_MISSING, None))"

definition libp2p_hashmap_length :: "'v hashmap option \<Rightarrow> int" where
  "libp2p_hashmap_length m = (case m of None \<Rightarrow> 0 | Some m \<Rightarrow> map_size m)"

fun iterate_elements :: "('v \<Rightarrow> 's \<Rightarrow> int \<times> 's) \<Rightarrow> (bytes \<times> 'v) option list \<Rightarrow> 's \<Rightarrow> int \<times> 's" where
  "iterate_elements f [] s = (MAP_OK, s)"
| "iterate_elements f (None # es) s = iterate_elements f es s"
| "iterate_elements f (Some (key, v) # es) s =
     (case f v s of (status, s') \<Rightarrow> if status \<noteq> MAP_OK then (status, s') else iterate_elements f es s')"

definition libp2p_hashmap_iterate :: "('v \<Rightarrow> 's \<Rightarrow> int \<times> 's) \<Rightarrow> 'v hashmap \<Rightarrow> 's \<Rightarrow> int \<times> 's" where
  "libp2p_hashmap_iterate f m s =
     (if libp2p_hashmap_length (Some m) \<le> 0 then (MAP_MISSING, s) else iterate_elements f (elements m) s)"

definition libp2p_hashmap_remove :: "'v hashmap \<Rightarrow> bytes \<Rightarrow> int \<times> 'v hashmap" where
  "libp2p_hashmap_remove m key =
     (case hashmap_place m key of
        Some i \<Rightarrow> (MAP_OK, m\<lparr>elements := (elements m)[i := None], map_size := map_size m - 1\<rparr>)
      | None \<Rightarrow> (MAP_MISSING, m))"

end
