(* ===== verification/Hashmap_Crc.thy ===== *)
theory Hashmap_Crc
  imports Hashmap
begin

text \<open>The checksum of \<open>libp2p/hashmap/hashmap.c\<close>, made by the byte with a table, is the one that is made by the bit.\<close>

section \<open>The checksum\<close>

text \<open>One bit of the checksum with the polynomial that the table was made for.\<close>

definition crc32_bit :: "u64 \<Rightarrow> u64" where
  "crc32_bit c = (if bit c 0 then drop_bit 1 c XOR 0xedb88320 else drop_bit 1 c)"

definition crc32_bits :: "bytes \<Rightarrow> u64" where
  "crc32_bits s = foldl (\<lambda>c b. (crc32_bit ^^ 8) (c XOR ucast b)) 0 s"

lemma crc32_bit_xor: "crc32_bit (x XOR y) = crc32_bit x XOR crc32_bit y"
  by (auto simp: crc32_bit_def bit_xor_iff drop_bit_xor xor.assoc xor.left_commute xor.commute)

lemma crc32_bit_power_xor: "(crc32_bit ^^ n) (x XOR y) = (crc32_bit ^^ n) x XOR (crc32_bit ^^ n) y"
  by (induction n arbitrary: x y) (simp_all add: crc32_bit_xor funpow_swap1)

lemma crc32_bit_power_shift: "(\<And>i. i < n \<Longrightarrow> \<not> bit x i) \<Longrightarrow> (crc32_bit ^^ n) x = drop_bit n x"
proof (induction n arbitrary: x)
  case (Suc n)
  then have "crc32_bit x = drop_bit 1 x" by (simp add: crc32_bit_def)
  then show ?case using Suc.IH [of "drop_bit 1 x"] Suc.prems by (simp add: funpow_swap1 bit_drop_bit_eq drop_bit_drop_bit)
qed simp

lemma crc_eight: "(crc32_bit ^^ 8) x = crc32_bit (crc32_bit (crc32_bit (crc32_bit (crc32_bit (crc32_bit (crc32_bit (crc32_bit x)))))))"
  by (simp add: eval_nat_numeral)

lemma crc32_bit_numeral:
  "crc32_bit 0 = 0" "crc32_bit 1 = 0xedb88320"
  "(numeral (num.Bit0 n) :: nat) < 2 ^ 64 \<Longrightarrow> crc32_bit (numeral (num.Bit0 n)) = numeral n"
  "(numeral (num.Bit1 n) :: nat) < 2 ^ 64 \<Longrightarrow> crc32_bit (numeral (num.Bit1 n)) = numeral n XOR 0xedb88320"
proof -
  have half: "drop_bit 1 (of_nat k :: u64) = of_nat (k div 2)" if "k < 2 ^ 64" for k
    using that by (simp add: word_unat_eq_iff unat_drop_bit_eq unat_of_nat drop_bit_nat_def)
  show "crc32_bit 0 = 0" "crc32_bit 1 = 0xedb88320" by (simp_all add: crc32_bit_def)
  show "crc32_bit (numeral (num.Bit0 n)) = numeral n" if "(numeral (num.Bit0 n) :: nat) < 2 ^ 64"
    using half [OF that] by (simp add: crc32_bit_def)
  show "crc32_bit (numeral (num.Bit1 n)) = numeral n XOR 0xedb88320" if "(numeral (num.Bit1 n) :: nat) < 2 ^ 64"
    using half [OF that] by (simp add: crc32_bit_def)
qed

lemma crc32_tab_eq: "crc32_tab = map (\<lambda>i. (crc32_bit ^^ 8) (of_nat i)) [0..<256]"
proof -
  have "[0..<256] = 0 # 1 # [2..<256]" by (simp add: upt_rec [of 0] upt_rec [of "Suc 0"] numeral_2_eq_2)
  then show ?thesis
    unfolding crc32_tab_def crc_eight
    by (simp add: upt_rec_numeral crc32_bit_numeral)
qed

lemma crc32_byte_eq: "crc32_byte c b = (crc32_bit ^^ 8) (c XOR ucast b)"
proof -
  let ?x = "c XOR ucast b :: u64"
  have mask: "(255 :: u64) = mask 8" by (simp add: mask_eq_exp_minus_1)
  have "unat (take_bit 8 ?x) < 256" unfolding unsigned_take_bit_eq by (simp add: take_bit_nat_def)
  then have "crc32_tab ! unat (take_bit 8 ?x) = (crc32_bit ^^ 8) (take_bit 8 ?x)"
    unfolding crc32_tab_eq by simp
  moreover have "drop_bit 8 c = (crc32_bit ^^ 8) (?x AND NOT (mask 8))"
  proof -
    have "(crc32_bit ^^ 8) (?x AND NOT (mask 8)) = drop_bit 8 (?x AND NOT (mask 8))"
      by (rule crc32_bit_power_shift) (auto simp: bit_simps)
    moreover have "drop_bit 8 (?x AND NOT (mask 8)) = drop_bit 8 c"
      by (rule bit_word_eqI) (auto simp: bit_simps dest: bit_imp_le_length)
    ultimately show ?thesis by simp
  qed
  moreover have "take_bit 8 ?x XOR (?x AND NOT (mask 8)) = ?x"
    by (rule bit_word_eqI) (auto simp: bit_simps)
  ultimately have "crc32_tab ! unat (take_bit 8 ?x) XOR drop_bit 8 c = (crc32_bit ^^ 8) ?x"
    by (metis crc32_bit_power_xor)
  then show ?thesis by (simp only: crc32_byte_def mask take_bit_eq_mask)
qed

section \<open>Properties\<close>

text \<open>
  C30: the table of 256 numbers is the right one: the checksum that is made with it, a byte at a time, is that of the polynomial, made a bit
  at a time, for every string and every length.
\<close>

theorem crc32_is_bitwise: "crc32 s len = crc32_bits (take len s)"
  by (simp add: crc32_def crc32_bits_def crc32_byte_eq cong: foldl_cong)

end
