(* ===== verification/Hashmap_Table.thy ===== *)
theory Hashmap_Table
  imports Hashmap
begin

text \<open>
  When the table of \<open>libp2p/hashmap/hashmap.c\<close> is a map from keys to values: as long as no key is put into it that is there already once
  something has been removed.
\<close>

section \<open>Searching\<close>

lemma probe_Some:
  assumes "hashmap_probe es n key c k = Some i" and "c < n"
  shows "\<exists>j<k. i = (c + j) mod n \<and> (\<forall>l<j. \<exists>k' v. es ! ((c + l) mod n) = Some (k', v) \<and> k' \<noteq> key) \<and>
    (es ! i = None \<or> (\<exists>v. es ! i = Some (key, v)))"
  using assms
proof (induction es n key c k rule: hashmap_probe.induct)
  case (2 es n key c k)
  show ?case
  proof (cases "\<exists>k' v. es ! c = Some (k', v) \<and> k' \<noteq> key")
    case False
    then show ?thesis using 2(2,3) by (intro exI [of _ 0]) (auto split: option.splits prod.splits if_splits)
  next
    case True
    then obtain k' v where e: "es ! c = Some (k', v)" "k' \<noteq> key" by blast
    have "(c + 1) mod n < n" using 2(3) by simp
    then obtain j where j: "j < k" "i = ((c + 1) mod n + j) mod n"
      "\<forall>l<j. \<exists>k' v. es ! (((c + 1) mod n + l) mod n) = Some (k', v) \<and> k' \<noteq> key"
      "es ! i = None \<or> (\<exists>v. es ! i = Some (key, v))"
      using 2(1) [OF e(1) refl e(2)] 2(2) e by auto
    have "\<exists>k' v. es ! ((c + l) mod n) = Some (k', v) \<and> k' \<noteq> key" if "l < Suc j" for l
      using that j(3) e 2(3) by (cases l) (auto simp: mod_simps)
    then show ?thesis using j(1,2,4) by (intro exI [of _ "Suc j"]) (auto simp: mod_simps)
  qed
qed simp

lemma find_Some:
  "hashmap_find es n key c k = Some i \<Longrightarrow> c < n \<Longrightarrow> i < n \<and> (\<exists>v. es ! i = Some (key, v))"
  by (induction es n key c k rule: hashmap_find.induct) (auto split: option.splits prod.splits if_splits)

lemma find_None:
  "hashmap_find es n key c k = None \<Longrightarrow> c < n \<Longrightarrow> j < k \<Longrightarrow> es ! ((c + j) mod n) \<noteq> Some (key, v)"
proof (induction es n key c k arbitrary: j rule: hashmap_find.induct)
  case (2 es n key c k)
  then show ?case by (cases j) (auto split: option.splits prod.splits if_splits simp: mod_simps)
qed simp

section \<open>Tables\<close>

text \<open>
  The keys and values of a table. In a table every key is within eight places of where its hash says, and in one place only; the table
  is \<open>filled\<close> when there is no free place before that of a key.
\<close>

definition hashmap_entries :: "'v hashmap \<Rightarrow> (bytes \<times> 'v) list" where
  "hashmap_entries m = List.map_filter (\<lambda>e. e) (elements m)"

definition hashmap_abs :: "'v hashmap \<Rightarrow> bytes \<rightharpoonup> 'v" where
  "hashmap_abs m = map_of (hashmap_entries m)"

definition hashmap_wf :: "'v hashmap \<Rightarrow> bool" where
  "hashmap_wf m \<longleftrightarrow> 0 < table_size m \<and> length (elements m) = table_size m \<and>
     (\<forall>i<table_size m. \<forall>k v. elements m ! i = Some (k, v) \<longrightarrow>
        (\<exists>j<MAX_CHAIN_LENGTH. i = (hashmap_hash_int (table_size m) k + j) mod table_size m) \<and>
        (\<forall>i'<table_size m. \<forall>v'. elements m ! i' = Some (k, v') \<longrightarrow> i' = i))"

definition hashmap_filled :: "'v hashmap \<Rightarrow> bool" where
  "hashmap_filled m \<longleftrightarrow>
     (\<forall>i<table_size m. \<forall>k v. elements m ! i = Some (k, v) \<longrightarrow>
        (\<exists>j. i = (hashmap_hash_int (table_size m) k + j) mod table_size m \<and>
           (\<forall>l<j. elements m ! ((hashmap_hash_int (table_size m) k + l) mod table_size m) \<noteq> None)))"

lemma wf_near:
  "hashmap_wf m \<Longrightarrow> i < table_size m \<Longrightarrow> elements m ! i = Some (k, v) \<Longrightarrow>
   \<exists>j<MAX_CHAIN_LENGTH. i = (hashmap_hash_int (table_size m) k + j) mod table_size m"
  by (auto simp: hashmap_wf_def)

lemma wf_unique:
  "hashmap_wf m \<Longrightarrow> i < table_size m \<Longrightarrow> elements m ! i = Some (k, v) \<Longrightarrow>
   i' < table_size m \<Longrightarrow> elements m ! i' = Some (k, v') \<Longrightarrow> i' = i"
  by (auto simp: hashmap_wf_def)

lemma set_entries: "(k, v) \<in> set (hashmap_entries m) \<longleftrightarrow> (\<exists>i<length (elements m). elements m ! i = Some (k, v))"
  by (auto simp: hashmap_entries_def List.map_filter_def in_set_conv_nth image_iff)

lemma abs_Some_iff:
  assumes "hashmap_wf m"
  shows "hashmap_abs m k = Some v \<longleftrightarrow> (\<exists>i<table_size m. elements m ! i = Some (k, v))"
proof
  assume "hashmap_abs m k = Some v"
  then show "\<exists>i<table_size m. elements m ! i = Some (k, v)"
    using assms map_of_SomeD [of "hashmap_entries m" k v] by (auto simp: hashmap_abs_def set_entries hashmap_wf_def)
next
  assume "\<exists>i<table_size m. elements m ! i = Some (k, v)"
  then obtain i where i: "i < table_size m" "elements m ! i = Some (k, v)" by blast
  then have "(k, v) \<in> set (hashmap_entries m)" using assms by (auto simp: set_entries hashmap_wf_def)
  then obtain w where w: "map_of (hashmap_entries m) k = Some w" by (metis weak_map_of_SomeI)
  then obtain i' where "i' < table_size m" "elements m ! i' = Some (k, w)"
    using assms map_of_SomeD [OF w] by (auto simp: set_entries hashmap_wf_def)
  with i assms have "i' = i" by (auto simp: hashmap_wf_def)
  with i(2) w \<open>elements m ! i' = Some (k, w)\<close> show "hashmap_abs m k = Some v" by (simp add: hashmap_abs_def)
qed

lemma hash_int_less: "0 < n \<Longrightarrow> hashmap_hash_int n k < n"
  by (simp add: hashmap_hash_int_def)

lemma place_iff:
  assumes "hashmap_wf m"
  shows "hashmap_place m k = Some i \<longleftrightarrow> i < table_size m \<and> (\<exists>v. elements m ! i = Some (k, v))"
proof -
  have h: "hashmap_hash_int (table_size m) k < table_size m" using assms by (simp add: hash_int_less hashmap_wf_def)
  have "hashmap_place m k \<noteq> None" if e: "i' < table_size m" "elements m ! i' = Some (k, v)" for i' v
  proof -
    obtain j where "j < MAX_CHAIN_LENGTH" "i' = (hashmap_hash_int (table_size m) k + j) mod table_size m"
      using wf_near [OF assms e] by blast
    then show ?thesis using find_None [OF _ h, of "elements m" k MAX_CHAIN_LENGTH j v] e(2)
      by (auto simp: hashmap_place_def)
  qed
  moreover have "i' < table_size m \<and> (\<exists>v. elements m ! i' = Some (k, v))" if "hashmap_place m k = Some i'" for i'
    using find_Some [OF _ h] that by (auto simp: hashmap_place_def)
  moreover have "i' = i" if "i' < table_size m" "i < table_size m" "elements m ! i' = Some (k, v)" "elements m ! i = Some (k, w)" for i' v w
    using wf_unique [OF assms] that by blast
  ultimately show ?thesis by (metis not_Some_eq)
qed

section \<open>Putting and removing\<close>

text \<open>The table with another element at a place.\<close>

definition set_place :: "nat \<Rightarrow> (bytes \<times> 'v) option \<Rightarrow> int \<Rightarrow> 'v hashmap \<Rightarrow> 'v hashmap" where
  "set_place i e s m = m\<lparr>elements := (elements m)[i := e], map_size := s\<rparr>"

lemma set_place_simps [simp]:
  "table_size (set_place i e s m) = table_size m"
  "elements (set_place i e s m) = (elements m)[i := e]"
  by (simp_all add: set_place_def)

lemma wf_set_place:
  assumes "hashmap_wf m" and "i < table_size m"
    and "\<And>k v. e = Some (k, v) \<Longrightarrow>
      (\<exists>j<MAX_CHAIN_LENGTH. i = (hashmap_hash_int (table_size m) k + j) mod table_size m) \<and>
      (\<forall>i'<table_size m. i' \<noteq> i \<longrightarrow> (\<forall>v'. elements m ! i' \<noteq> Some (k, v')))"
  shows "hashmap_wf (set_place i e s m)"
  unfolding hashmap_wf_def
proof (intro conjI allI impI)
  have len: "length (elements m) = table_size m" and n: "0 < table_size m" using assms(1) by (simp_all add: hashmap_wf_def)
  then show "0 < table_size (set_place i e s m)" and "length (elements (set_place i e s m)) = table_size (set_place i e s m)" by simp_all
  fix x k v
  assume x: "x < table_size (set_place i e s m)" "elements (set_place i e s m) ! x = Some (k, v)"
  show "\<exists>j<MAX_CHAIN_LENGTH. x = (hashmap_hash_int (table_size (set_place i e s m)) k + j) mod table_size (set_place i e s m)"
    using x assms(3) [of k v] wf_near [OF assms(1), of x k v] assms(2) len by (cases "x = i") auto
  fix y v'
  assume "y < table_size (set_place i e s m)" "elements (set_place i e s m) ! y = Some (k, v')"
  then show "y = x"
    using x assms(3) [of k v] assms(3) [of k v'] wf_unique [OF assms(1), of x k v y v'] assms(2) len by (cases "x = i"; cases "y = i") auto
qed

lemma abs_put_place:
  assumes "hashmap_wf m" and "hashmap_wf (set_place i (Some (k, v)) s m)" and "i < table_size m"
    and "elements m ! i = None \<or> (\<exists>v. elements m ! i = Some (k, v))"
  shows "hashmap_abs (set_place i (Some (k, v)) s m) = (hashmap_abs m)(k \<mapsto> v)"
proof
  fix k'
  have len: "length (elements m) = table_size m" using assms(1) by (simp add: hashmap_wf_def)
  show "hashmap_abs (set_place i (Some (k, v)) s m) k' = ((hashmap_abs m)(k \<mapsto> v)) k'"
  proof (cases "k' = k")
    case True
    have "hashmap_abs (set_place i (Some (k, v)) s m) k = Some v"
      using assms(3) len by (auto simp: abs_Some_iff [OF assms(2)])
    then show ?thesis using True by simp
  next
    case False
    have "hashmap_abs (set_place i (Some (k, v)) s m) k' = Some w \<longleftrightarrow> hashmap_abs m k' = Some w" for w
    proof -
      have "(elements m)[i := Some (k, v)] ! x = Some (k', w) \<longleftrightarrow> elements m ! x = Some (k', w)" for x
        using False assms(3,4) len by (cases "x = i") auto
      then show ?thesis by (simp add: abs_Some_iff [OF assms(2)] abs_Some_iff [OF assms(1)])
    qed
    then have "hashmap_abs (set_place i (Some (k, v)) s m) k' = hashmap_abs m k'"
      by (metis not_Some_eq)
    then show ?thesis using False by simp
  qed
qed

lemma abs_free_place:
  assumes "hashmap_wf m" and "i < table_size m" and "elements m ! i = Some (k, v)"
  shows "hashmap_abs (set_place i None s m) = (hashmap_abs m)(k := None)"
proof
  fix k'
  have len: "length (elements m) = table_size m" using assms(1) by (simp add: hashmap_wf_def)
  have wf: "hashmap_wf (set_place i None s m)" by (rule wf_set_place [OF assms(1,2)]) simp
  have "hashmap_abs (set_place i None s m) k' = Some w \<longleftrightarrow> ((hashmap_abs m)(k := None)) k' = Some w" for w
  proof (cases "k' = k")
    case True
    have "(elements m)[i := None] ! x \<noteq> Some (k, w)" if "x < table_size m" for x
      using wf_unique [OF assms that, of w] assms(2) len by (cases "x = i") auto
    then show ?thesis using True by (auto simp: abs_Some_iff [OF wf])
  next
    case False
    have "(elements m)[i := None] ! x = Some (k', w) \<longleftrightarrow> elements m ! x = Some (k', w)" for x
      using False assms(2,3) len by (cases "x = i") auto
    then show ?thesis using False by (simp add: abs_Some_iff [OF wf] abs_Some_iff [OF assms(1)])
  qed
  then show "hashmap_abs (set_place i None s m) k' = ((hashmap_abs m)(k := None)) k'"
    by (metis not_Some_eq)
qed

text \<open>Where \<open>hashmap_hash\<close> says a key is to be put.\<close>

lemma put_place:
  fixes v :: 'v
  assumes wf: "hashmap_wf m" and hash: "hashmap_hash m k = Some i" and new: "hashmap_abs m k = None \<or> hashmap_filled m"
  defines "m' \<equiv> set_place i (Some (k, v)) (map_size m + 1) m"
  shows "hashmap_wf m' \<and> (hashmap_filled m \<longrightarrow> hashmap_filled m') \<and> hashmap_abs m' = (hashmap_abs m)(k \<mapsto> v)"
proof -
  let ?n = "table_size m" and ?h = "hashmap_hash_int (table_size m) k"
  have h: "?h < ?n" using wf by (simp add: hash_int_less hashmap_wf_def)
  obtain j where j: "j < MAX_CHAIN_LENGTH" "i = (?h + j) mod ?n"
    "\<And>l. l < j \<Longrightarrow> \<exists>k' v. elements m ! ((?h + l) mod ?n) = Some (k', v) \<and> k' \<noteq> k"
    "elements m ! i = None \<or> (\<exists>v. elements m ! i = Some (k, v))"
    using probe_Some [OF _ h, of "elements m" k MAX_CHAIN_LENGTH i] hash by (auto simp: hashmap_hash_def split: if_splits)
  have i: "i < ?n" using h j(2) by simp
  have other: "elements m ! i' \<noteq> Some (k, w)" if "i' < ?n" "i' \<noteq> i" for i' w
  proof
    assume e: "elements m ! i' = Some (k, w)"
    then have "hashmap_abs m k = Some w" using that(1) by (auto simp: abs_Some_iff [OF wf])
    with new have "hashmap_filled m" by simp
    then have "\<exists>j. i' = (?h + j) mod ?n \<and> (\<forall>l<j. elements m ! ((?h + l) mod ?n) \<noteq> None)"
      using that(1) e unfolding hashmap_filled_def by blast
    then obtain a where a: "i' = (?h + a) mod ?n" "\<And>l. l < a \<Longrightarrow> elements m ! ((?h + l) mod ?n) \<noteq> None" by blast
    consider "a < j" | "a = j" | "j < a" by linarith
    then show False
    proof cases
      case 1
      then show False using j(3) a(1) e by fastforce
    next
      case 2
      then show False using a(1) j(2) that(2) by simp
    next
      case 3
      then obtain u where "elements m ! i = Some (k, u)" using a(2) [OF 3] j(2,4) by auto
      then show False using wf_unique [OF wf i _ that(1) e] that(2) by blast
    qed
  qed
  have 1: "hashmap_wf m'" unfolding m'_def by (rule wf_set_place [OF wf i]) (use j(1,2) other in auto)
  have 2: "hashmap_abs m' = (hashmap_abs m)(k \<mapsto> v)"
    unfolding m'_def by (rule abs_put_place [OF wf 1 [unfolded m'_def] i j(4)])
  have 3: "hashmap_filled m'" if f: "hashmap_filled m"
    unfolding hashmap_filled_def
  proof (intro allI impI)
    fix i' k' v' assume "i' < table_size m'" and e: "elements m' ! i' = Some (k', v')"
    then have i': "i' < ?n" by (simp add: m'_def)
    have stays: "elements m' ! x \<noteq> None" if "elements m ! x \<noteq> None" for x
      using that i wf by (auto simp: m'_def nth_list_update hashmap_wf_def)
    show "\<exists>j. i' = (hashmap_hash_int (table_size m') k' + j) mod table_size m' \<and>
        (\<forall>l<j. elements m' ! ((hashmap_hash_int (table_size m') k' + l) mod table_size m') \<noteq> None)"
    proof (cases "i' = i")
      case True
      then have "k' = k" using e i wf by (simp add: m'_def hashmap_wf_def)
      then show ?thesis using j(2,3) stays True by (intro exI [of _ j]) (fastforce simp: m'_def)
    next
      case False
      then have "elements m ! i' = Some (k', v')" using e by (simp add: m'_def)
      then obtain a where "i' = (hashmap_hash_int ?n k' + a) mod ?n"
        "\<forall>l<a. elements m ! ((hashmap_hash_int ?n k' + l) mod ?n) \<noteq> None"
        using f i' unfolding hashmap_filled_def by blast
      then show ?thesis using stays by (intro exI [of _ a]) (auto simp: m'_def)
    qed
  qed
  from 1 2 3 show ?thesis by blast
qed

section \<open>The larger table\<close>

text \<open>What putting leads to: a fault when the table cannot be doubled any more, else the new table.\<close>

definition leads_to :: "(int \<times> 'v hashmap) run \<Rightarrow> ('v hashmap \<Rightarrow> bool) \<Rightarrow> bool" where
  "leads_to r P \<longleftrightarrow> r = None \<or> r = Some (Inl Undefined) \<or> (\<exists>m'. r = Some (Inr (MAP_OK, m')) \<and> P m')"

definition good_table :: "'v hashmap \<Rightarrow> (bytes \<rightharpoonup> 'v) \<Rightarrow> bool" where
  "good_table m f \<longleftrightarrow> hashmap_wf m \<and> hashmap_filled m \<and> hashmap_abs m = f"

lemma leads_toE:
  assumes "leads_to r P"
  obtains "r = None" | "r = Some (Inl Undefined)" | m' where "r = Some (Inr (MAP_OK, m'))" and "P m'"
  using assms by (auto simp: leads_to_def)

lemma rehash_elements_puts:
  assumes put: "\<And>m f k v. good_table m f \<Longrightarrow> leads_to (put m k v) (\<lambda>m'. good_table m' (f(k \<mapsto> v)))"
    and "good_table m f"
  shows "leads_to (rehash_elements put es m) (\<lambda>m'. good_table m' (f ++ map_of (rev (List.map_filter (\<lambda>e. e) es))))"
  using assms(2)
proof (induction es arbitrary: m f)
  case Nil
  then show ?case by (simp add: leads_to_def List.map_filter_def)
next
  case (Cons e es)
  show ?case
  proof (cases e)
    case None
    then show ?thesis using Cons by (simp add: List.map_filter_def)
  next
    case (Some kv)
    obtain k v where e: "e = Some (k, v)" using Some by (cases kv) simp
    from put [OF Cons.prems, of k v] show ?thesis
    proof (cases rule: leads_toE)
      case (3 m')
      then show ?thesis using Cons.IH [OF 3(2)] by (simp add: e List.map_filter_def del: fun_upd_apply)
    qed (simp_all add: e leads_to_def)
  qed
qed

lemma good_empty: "0 < n \<Longrightarrow> good_table \<lparr>table_size = n, map_size = s, elements = replicate n None\<rparr> Map.empty"
  by (auto simp: good_table_def hashmap_filled_def hashmap_wf_def hashmap_abs_def hashmap_entries_def List.map_filter_def)

lemma map_of_rev_entries:
  assumes "hashmap_wf m"
  shows "map_of (rev (hashmap_entries m)) = hashmap_abs m"
proof
  fix k
  have iff: "(k, v) \<in> set (hashmap_entries m) \<longleftrightarrow> hashmap_abs m k = Some v" for v
    using assms by (auto simp: set_entries abs_Some_iff [OF assms] hashmap_wf_def)
  show "map_of (rev (hashmap_entries m)) k = hashmap_abs m k"
  proof (cases "map_of (rev (hashmap_entries m)) k")
    case None
    then have "(k, v) \<notin> set (hashmap_entries m)" for v by (force simp: map_of_eq_None_iff)
    then show ?thesis using None iff by (metis not_Some_eq)
  next
    case (Some v)
    then show ?thesis using map_of_SomeD [OF Some] iff by simp
  qed
qed

lemma put_within_puts:
  assumes "hashmap_wf m" and "hashmap_abs m k = None \<or> hashmap_filled m"
  shows "leads_to (put_within d m k v)
    (\<lambda>m'. hashmap_wf m' \<and> (hashmap_filled m \<longrightarrow> hashmap_filled m') \<and> hashmap_abs m' = (hashmap_abs m)(k \<mapsto> v))"
  using assms
proof (induction d arbitrary: m k v)
  case (Suc d)
  show ?case
  proof (cases "hashmap_hash m k")
    case (Some i)
    then show ?thesis using put_place [OF Suc.prems(1) Some Suc.prems(2), of v]
      by (simp add: leads_to_def set_place_def del: fun_upd_apply)
  next
    case None
    have put: "leads_to (put_within d m k v) (\<lambda>m'. good_table m' (f(k \<mapsto> v)))" if "good_table m f" for m f k and v :: 'a
      using Suc.IH [of m k v] that by (auto simp: good_table_def leads_to_def simp del: fun_upd_apply)
    have n: "0 < table_size m" using Suc.prems(1) by (simp add: hashmap_wf_def)
    have "leads_to (hashmap_rehash (put_within d) m) (\<lambda>m'. good_table m' (hashmap_abs m))"
      using rehash_elements_puts [of "put_within d", OF put good_empty [of "2 * table_size m" 0], of "elements m"] n
        map_of_rev_entries [OF Suc.prems(1)]
      by (auto simp: hashmap_rehash_def hashmap_entries_def malloc_ok_def leads_to_def)
    then show ?thesis
    proof (cases rule: leads_toE)
      case (3 m')
      then show ?thesis using put [OF 3(2), of k v] None
        by (auto simp: leads_to_def good_table_def MAP_OK_def MAP_OMEM_def simp del: fun_upd_apply)
    qed (simp_all add: None leads_to_def)
  qed
qed (simp add: leads_to_def)

section \<open>The end of doubling\<close>

lemma rehash_elements_grows:
  assumes "\<And>m k v st m'. put m k v = Some (Inr (st, m')) \<Longrightarrow> table_size m \<le> table_size m'"
    and "rehash_elements put es m = Some (Inr (st, m'))"
  shows "table_size m \<le> table_size m'"
  using assms(2)
proof (induction es arbitrary: m)
  case (Cons e es)
  show ?case
  proof (cases e)
    case (Some kv)
    obtain k v where e: "e = Some (k, v)" using Some by (cases kv) simp
    then obtain st' m'' where 1: "put m k v = Some (Inr (st', m''))"
      and 2: "(if st' \<noteq> MAP_OK then Some (Inr (st', m'')) else rehash_elements put es m'') = Some (Inr (st, m'))"
      using Cons.prems by (auto simp: bind_run_Inr_iff)
    have "table_size m'' \<le> table_size m'" using 2 Cons.IH by (cases "st' = MAP_OK") auto
    then show ?thesis using assms(1) [OF 1] by simp
  qed (use Cons in simp)
qed simp

lemma put_within_grows: "put_within d m k v = Some (Inr (st, m')) \<Longrightarrow> table_size m \<le> table_size m'"
proof (induction d arbitrary: m k v st m')
  case (Suc d)
  have rehash: "table_size m \<le> table_size m'" if "hashmap_rehash (put_within d) m = Some (Inr (st, m'))" for st m'
    using that rehash_elements_grows [OF Suc.IH, where m' = m'] by (fastforce simp: hashmap_rehash_def split: if_splits)
  show ?case using Suc.prems
    by (auto simp: bind_run_Inr_iff split: option.splits if_splits dest!: rehash Suc.IH)
qed simp

lemma put_within_ends:
  "2 ^ 30 \<le> table_size m * 2 ^ d \<Longrightarrow> put_within (Suc d) m k v \<noteq> None"
proof (induction d arbitrary: m k v)
  case 0
  then show ?case by (simp add: hashmap_rehash_def split: option.split)
next
  case (Suc d)
  have elements: "rehash_elements (put_within (Suc d)) es m' \<noteq> None" if "2 ^ 30 \<le> table_size m' * 2 ^ d" for es and m' :: "'a hashmap"
    using that
  proof (induction es arbitrary: m')
    case (Cons e es)
    show ?case
    proof (cases e)
      case (Some kv)
      obtain k v where e: "e = Some (k, v)" using Some by (cases kv) simp
      have "2 ^ 30 \<le> table_size m'' * 2 ^ d" if "put_within (Suc d) m' k v = Some (Inr (st, m''))" for st m''
        using put_within_grows [OF that] Cons.prems by (meson le_trans mult_le_mono1)
      then show ?thesis using Suc.IH [OF Cons.prems, of k v] Cons.IH
        by (auto simp: e bind_run_def simp del: put_within.simps split: sum.splits)
    qed (use Cons in simp)
  qed simp
  have rehash: "hashmap_rehash (put_within (Suc d)) m \<noteq> None"
    using elements Suc.prems by (simp add: hashmap_rehash_def)
  have "2 ^ 30 \<le> table_size m' * 2 ^ d" if "hashmap_rehash (put_within (Suc d)) m = Some (Inr (st, m'))" "st \<noteq> MAP_OMEM" for st m'
  proof -
    have "2 * table_size m \<le> table_size m'"
      using that rehash_elements_grows [OF put_within_grows, where m' = m'] by (fastforce simp: hashmap_rehash_def split: if_splits)
    then have "2 * table_size m * 2 ^ d \<le> table_size m' * 2 ^ d" by (rule mult_le_mono1)
    then show ?thesis by (rule le_trans [rotated]) (use Suc.prems in simp)
  qed
  then show ?case using rehash Suc.IH
    by (subst put_within.simps) (auto simp del: put_within.simps simp: bind_run_def split: option.split sum.split)
qed

lemma put_ends: "0 < table_size m \<Longrightarrow> libp2p_hashmap_put m k v \<noteq> None"
  using put_within_ends [of m 31 k v] by (simp add: libp2p_hashmap_put_def del: put_within.simps)

section \<open>Runs of operations\<close>

datatype 'v map_op = Map_Put bytes 'v | Map_Get bytes | Map_Remove bytes

text \<open>What each operation gives back, and the state in the end.\<close>

fun run_map_ops ::
    "('m \<Rightarrow> bytes \<Rightarrow> 'v \<Rightarrow> (int \<times> 'm) run) \<Rightarrow> ('m \<Rightarrow> bytes \<Rightarrow> int \<times> 'v option) \<Rightarrow> ('m \<Rightarrow> bytes \<Rightarrow> int \<times> 'm) \<Rightarrow>
     'v map_op list \<Rightarrow> 'm \<Rightarrow> ((int \<times> 'v option) list \<times> 'm) run" where
  "run_map_ops put get remove [] m = Some (Inr ([], m))"
| "run_map_ops put get remove (Map_Put k v # ops) m =
     bind_run (put m k v) (\<lambda>(st, m').
     bind_run (run_map_ops put get remove ops m') (\<lambda>(outs, m''). Some (Inr ((st, None) # outs, m''))))"
| "run_map_ops put get remove (Map_Get k # ops) m =
     bind_run (run_map_ops put get remove ops m) (\<lambda>(outs, m'). Some (Inr (get m k # outs, m')))"
| "run_map_ops put get remove (Map_Remove k # ops) m =
     (case remove m k of (st, m') \<Rightarrow>
      bind_run (run_map_ops put get remove ops m') (\<lambda>(outs, m''). Some (Inr ((st, None) # outs, m''))))"

definition map_lookup :: "(bytes \<rightharpoonup> 'v) \<Rightarrow> bytes \<Rightarrow> int \<times> 'v option" where
  "map_lookup f k = (case f k of None \<Rightarrow> (MAP_MISSING, None) | Some v \<Rightarrow> (MAP_OK, Some v))"

text \<open>The same on a map; and the operations that put only keys that are not there.\<close>

fun spec_map_ops :: "'v map_op list \<Rightarrow> (bytes \<rightharpoonup> 'v) \<Rightarrow> (int \<times> 'v option) list" where
  "spec_map_ops [] f = []"
| "spec_map_ops (Map_Put k v # ops) f = (MAP_OK, None) # spec_map_ops ops (f(k \<mapsto> v))"
| "spec_map_ops (Map_Get k # ops) f = map_lookup f k # spec_map_ops ops f"
| "spec_map_ops (Map_Remove k # ops) f = (fst (map_lookup f k), None) # spec_map_ops ops (f(k := None))"

fun fresh_puts :: "'v map_op list \<Rightarrow> (bytes \<rightharpoonup> 'v) \<Rightarrow> bool" where
  "fresh_puts [] f = True"
| "fresh_puts (Map_Put k v # ops) f = (f k = None \<and> fresh_puts ops (f(k \<mapsto> v)))"
| "fresh_puts (Map_Get k # ops) f = fresh_puts ops f"
| "fresh_puts (Map_Remove k # ops) f = fresh_puts ops (f(k := None))"

locale key_map =
  fixes ok :: "'m \<Rightarrow> bool" and abstract :: "'m \<Rightarrow> bytes \<rightharpoonup> 'v"
    and put :: "'m \<Rightarrow> bytes \<Rightarrow> 'v \<Rightarrow> (int \<times> 'm) run" and get :: "'m \<Rightarrow> bytes \<Rightarrow> int \<times> 'v option"
    and remove :: "'m \<Rightarrow> bytes \<Rightarrow> int \<times> 'm"
  assumes put_new: "ok m \<Longrightarrow> abstract m k = None \<Longrightarrow> put m k v = Some (Inl Undefined) \<or>
      (\<exists>m'. put m k v = Some (Inr (MAP_OK, m')) \<and> ok m' \<and> abstract m' = (abstract m)(k \<mapsto> v))"
    and get_lookup: "ok m \<Longrightarrow> get m k = map_lookup (abstract m) k"
    and remove_lookup: "ok m \<Longrightarrow> \<exists>m'. remove m k = (fst (map_lookup (abstract m) k), m') \<and> ok m' \<and>
      abstract m' = (abstract m)(k := None)"
begin

lemma run_refines:
  assumes "ok m" and "fresh_puts ops (abstract m)"
  shows "run_map_ops put get remove ops m = Some (Inl Undefined) \<or>
    (\<exists>m'. run_map_ops put get remove ops m = Some (Inr (spec_map_ops ops (abstract m), m')))"
  using assms
proof (induction ops arbitrary: m)
  case (Cons x ops)
  show ?case
  proof (cases x)
    case (Map_Put k v)
    then have "put m k v = Some (Inl Undefined) \<or>
        (\<exists>m'. put m k v = Some (Inr (MAP_OK, m')) \<and> ok m' \<and> abstract m' = (abstract m)(k \<mapsto> v))"
      using Cons.prems put_new by simp
    then show ?thesis using Cons.IH Cons.prems Map_Put by (fastforce simp del: fun_upd_apply)
  next
    case (Map_Get k)
    then show ?thesis using Cons.IH [OF Cons.prems(1)] Cons.prems by (auto simp: get_lookup)
  next
    case (Map_Remove k)
    then obtain m' where "remove m k = (fst (map_lookup (abstract m) k), m')" "ok m'" "abstract m' = (abstract m)(k := None)"
      using remove_lookup Cons.prems(1) by blast
    then show ?thesis using Cons.IH [of m'] Cons.prems Map_Remove by (auto simp del: fun_upd_apply)
  qed
qed simp

end

lemma get_abs: "hashmap_wf m \<Longrightarrow> libp2p_hashmap_get m k = map_lookup (hashmap_abs m) k"
proof -
  assume wf: "hashmap_wf m"
  show ?thesis
  proof (cases "hashmap_place m k")
    case None
    then have "hashmap_abs m k = None" using place_iff [OF wf] abs_Some_iff [OF wf] by (metis not_Some_eq)
    then show ?thesis using None by (simp add: libp2p_hashmap_get_def map_lookup_def)
  next
    case (Some i)
    then obtain v where v: "i < table_size m" "elements m ! i = Some (k, v)" using place_iff [OF wf] by blast
    then have "hashmap_abs m k = Some v" using abs_Some_iff [OF wf] by blast
    then show ?thesis using Some v by (simp add: libp2p_hashmap_get_def map_lookup_def)
  qed
qed

lemma remove_abs:
  assumes wf: "hashmap_wf m"
  shows "\<exists>m'. libp2p_hashmap_remove m k = (fst (map_lookup (hashmap_abs m) k), m') \<and> hashmap_wf m' \<and>
    hashmap_abs m' = (hashmap_abs m)(k := None)"
proof (cases "hashmap_place m k")
  case None
  then have "hashmap_abs m k = None" using place_iff [OF wf] abs_Some_iff [OF wf] by (metis not_Some_eq)
  then show ?thesis using None wf by (simp add: libp2p_hashmap_remove_def map_lookup_def fun_upd_idem)
next
  case (Some i)
  then obtain v where v: "i < table_size m" "elements m ! i = Some (k, v)" using place_iff [OF wf] by blast
  then have "hashmap_abs m k = Some v" using abs_Some_iff [OF wf] by blast
  moreover have "hashmap_wf (set_place i None (map_size m - 1) m)" by (rule wf_set_place [OF wf v(1)]) simp
  ultimately show ?thesis using Some abs_free_place [OF wf v]
    by (simp add: libp2p_hashmap_remove_def map_lookup_def set_place_def)
qed

interpretation hashmap: key_map hashmap_wf hashmap_abs libp2p_hashmap_put libp2p_hashmap_get libp2p_hashmap_remove
proof unfold_locales
  fix m :: "'v hashmap" and k v
  assume wf: "hashmap_wf m" and "hashmap_abs m k = None"
  then have "leads_to (libp2p_hashmap_put m k v)
      (\<lambda>m'. hashmap_wf m' \<and> (hashmap_filled m \<longrightarrow> hashmap_filled m') \<and> hashmap_abs m' = (hashmap_abs m)(k \<mapsto> v))"
    unfolding libp2p_hashmap_put_def by (intro put_within_puts) simp_all
  moreover have "libp2p_hashmap_put m k v \<noteq> None" using wf by (intro put_ends) (simp add: hashmap_wf_def)
  ultimately show "libp2p_hashmap_put m k v = Some (Inl Undefined) \<or>
      (\<exists>m'. libp2p_hashmap_put m k v = Some (Inr (MAP_OK, m')) \<and> hashmap_wf m' \<and> hashmap_abs m' = (hashmap_abs m)(k \<mapsto> v))"
    unfolding leads_to_def by blast
qed (simp_all add: get_abs remove_abs)

lemma good_new: "good_table libp2p_libp2p_hashmap_new Map.empty"
  unfolding libp2p_libp2p_hashmap_new_def by (rule good_empty) (simp add: INITIAL_SIZE_def)

abbreviation run_hashmap :: "'v map_op list \<Rightarrow> 'v hashmap \<Rightarrow> ((int \<times> 'v option) list \<times> 'v hashmap) run" where
  "run_hashmap \<equiv> run_map_ops libp2p_hashmap_put libp2p_hashmap_get libp2p_hashmap_remove"

lemma puts_then_get:
  assumes "good_table m f"
  shows "run_hashmap (map (\<lambda>(k, v). Map_Put k v) kvs @ [Map_Get key]) m = Some (Inl Undefined) \<or>
    (\<exists>outs m'. run_hashmap (map (\<lambda>(k, v). Map_Put k v) kvs @ [Map_Get key]) m =
      Some (Inr (outs @ [map_lookup (f ++ map_of (rev kvs)) key], m')))"
  using assms
proof (induction kvs arbitrary: m f)
  case Nil
  then show ?case by (simp add: get_abs good_table_def)
next
  case (Cons kv kvs)
  obtain k v where kv: "kv = (k, v)" by force
  have "leads_to (libp2p_hashmap_put m k v) (\<lambda>m'. good_table m' (f(k \<mapsto> v)))"
    using put_within_puts [of m k 32 v] Cons.prems
    by (auto simp: good_table_def leads_to_def libp2p_hashmap_put_def simp del: put_within.simps fun_upd_apply)
  moreover have "libp2p_hashmap_put m k v \<noteq> None"
    using Cons.prems by (intro put_ends) (simp add: good_table_def hashmap_wf_def)
  ultimately consider "libp2p_hashmap_put m k v = Some (Inl Undefined)"
    | m' where "libp2p_hashmap_put m k v = Some (Inr (MAP_OK, m'))" "good_table m' (f(k \<mapsto> v))"
    by (auto simp: leads_to_def)
  then show ?case
  proof cases
    case 1
    then show ?thesis by (simp add: kv)
  next
    case 2
    have "f ++ map_of (rev (kv # kvs)) = f(k \<mapsto> v) ++ map_of (rev kvs)" by (simp add: kv del: fun_upd_apply)
    then show ?thesis using Cons.IH [OF 2(2)] 2(1)
      by (auto simp: kv simp del: fun_upd_apply)
  qed
qed

text \<open>The first two places.\<close>

lemma first_places:
  "es ! c = None \<Longrightarrow> hashmap_probe es n k c MAX_CHAIN_LENGTH = Some c"
  "es ! c = Some (k', v) \<Longrightarrow> k' \<noteq> k \<Longrightarrow> es ! (Suc c mod n) = None \<Longrightarrow> hashmap_probe es n k c MAX_CHAIN_LENGTH = Some (Suc c mod n)"
  "es ! c = Some (k, v) \<Longrightarrow> hashmap_find es n k c MAX_CHAIN_LENGTH = Some c"
  "es ! c = None \<Longrightarrow> es ! (Suc c mod n) = Some (k, v) \<Longrightarrow> hashmap_find es n k c MAX_CHAIN_LENGTH = Some (Suc c mod n)"
  by (simp_all add: MAX_CHAIN_LENGTH_def numeral_eq_Suc)

lemma put_eval:
  assumes "hashmap_hash m k = Some i"
  shows "libp2p_hashmap_put m k v =
    Some (Inr (MAP_OK, m\<lparr>elements := (elements m)[i := Some (k, v)], map_size := map_size m + 1\<rparr>))"
proof -
  have "(32 :: nat) = Suc 31" by simp
  then show ?thesis unfolding libp2p_hashmap_put_def by (simp only: put_within.simps assms option.case)
qed

section \<open>Properties\<close>



text \<open>
  As long as nothing is removed, a key that is put again has its new value, and every other key the one it had.
\<close>

theorem hashmap_last_put_wins:
  "run_hashmap (map (\<lambda>(k, v). Map_Put k v) kvs @ [Map_Get key]) libp2p_libp2p_hashmap_new = Some (Inl Undefined) \<or>
    (\<exists>outs m'. run_hashmap (map (\<lambda>(k, v). Map_Put k v) kvs @ [Map_Get key]) libp2p_libp2p_hashmap_new =
      Some (Inr (outs @ [map_lookup (map_of (rev kvs)) key], m')))"
  using puts_then_get [OF good_new, of kvs key] by simp

text \<open>
  C29: a key that was removed is found again, with a value it had before it was given another: when it was put into the second of its places
  because another key had the first, that other key was removed, and the key was put again, it is in the table twice.
\<close>

theorem hashmap_removed_key_returns:
  fixes a b c :: 'v
  assumes "k1 \<noteq> k2" and "hashmap_hash_int 256 k1 = hashmap_hash_int 256 k2"
  shows "\<exists>m'. run_hashmap [Map_Put k1 a, Map_Put k2 b, Map_Remove k1, Map_Put k2 c, Map_Remove k2, Map_Get k2] libp2p_libp2p_hashmap_new =
    Some (Inr ([(MAP_OK, None), (MAP_OK, None), (MAP_OK, None), (MAP_OK, None), (MAP_OK, None), (MAP_OK, Some b)], m'))"
proof -
  define h where "h = hashmap_hash_int 256 k2"
  have "h < 256" by (simp add: h_def hash_int_less)
  moreover have "Suc h mod 256 \<noteq> h" by (cases "h = 255") (use \<open>h < 256\<close> in \<open>simp_all add: mod_less\<close>)
  ultimately have h: "h < 256" "Suc h mod 256 < 256" "Suc h mod 256 \<noteq> h" by simp_all
  have hash: "hashmap_hash_int 256 k1 = h" "hashmap_hash_int 256 k2 = h" using assms(2) by (simp_all add: h_def)
  define R :: "(bytes \<times> 'v) option list" where "R = replicate 256 None"
  have R: "length R = 256" "x < 256 \<Longrightarrow> R ! x = None" for x by (simp_all add: R_def)
  have new: "libp2p_libp2p_hashmap_new = \<lparr>table_size = 256, map_size = 0, elements = R\<rparr>"
    by (simp add: libp2p_libp2p_hashmap_new_def INITIAL_SIZE_def R_def)
  let ?t = "\<lambda>s es. \<lparr>table_size = 256, map_size = s, elements = es\<rparr>" and ?g = "Suc h mod 256"
  let ?E1 = "R[h := Some (k1, a)]" and ?E2 = "R[h := Some (k1, a), ?g := Some (k2, b)]" and ?E3 = "R[h := None, ?g := Some (k2, b)]"
  have swap: "R[h := x, ?g := y, h := z] = R[h := z, ?g := y]" for x y z by (metis h(3) list_update_overwrite list_update_swap)
  have "libp2p_hashmap_put (?t 0 R) k1 a = Some (Inr (MAP_OK, ?t 1 ?E1))"
    using first_places(1) [of R h 256 k1] R h by (subst put_eval [where i = h]) (simp_all add: hashmap_hash_def hash)
  moreover have "libp2p_hashmap_put (?t 1 ?E1) k2 b = Some (Inr (MAP_OK, ?t 2 ?E2))"
    using first_places(2) [of ?E1 h k1 a k2 256] R h assms(1)
    by (subst put_eval [where i = ?g]) (simp_all add: hashmap_hash_def hash)
  moreover have "libp2p_hashmap_remove (?t 2 ?E2) k1 = (MAP_OK, ?t 1 ?E3)"
    using first_places(3) [of ?E2 h k1 a 256] R h
    by (simp add: libp2p_hashmap_remove_def hashmap_place_def hash swap)
  moreover have "libp2p_hashmap_put (?t 1 ?E3) k2 c = Some (Inr (MAP_OK, ?t 2 (R[h := Some (k2, c), ?g := Some (k2, b)])))"
    using first_places(1) [of ?E3 h 256 k2] R h by (subst put_eval [where i = h]) (simp_all add: hashmap_hash_def hash swap)
  moreover have "libp2p_hashmap_remove (?t 2 (R[h := Some (k2, c), ?g := Some (k2, b)])) k2 = (MAP_OK, ?t 1 ?E3)"
    using first_places(3) [of "R[h := Some (k2, c), ?g := Some (k2, b)]" h k2 c 256] R h
    by (simp add: libp2p_hashmap_remove_def hashmap_place_def hash swap)
  moreover have "libp2p_hashmap_get (?t 1 ?E3) k2 = (MAP_OK, Some b)"
    using first_places(4) [of ?E3 h 256 k2 b] R h by (simp add: libp2p_hashmap_get_def hashmap_place_def hash)
  ultimately show ?thesis by (simp add: new)
qed

theorem hashmap_removed_key_returns_witness:
  "\<exists>m'. run_hashmap [Map_Put [99] (1 :: nat), Map_Put [107] 2, Map_Remove [99], Map_Put [107] 3, Map_Remove [107], Map_Get [107]]
      libp2p_libp2p_hashmap_new =
    Some (Inr ([(MAP_OK, None), (MAP_OK, None), (MAP_OK, None), (MAP_OK, None), (MAP_OK, None), (MAP_OK, Some 2)], m'))"
proof -
  have "hashmap_hash_int 256 [99] = 64" "hashmap_hash_int 256 [107] = 64"
    by (simp_all add: hashmap_hash_int_def hashmap_mix_def Let_def crc32_def crc32_byte_def crc32_tab_def strlen_def c_string_def)
  then show ?thesis by (intro hashmap_removed_key_returns) simp_all
qed

end
