(* ===== verification/Spec2Isabelle.thy ===== *)
theory Spec2Isabelle
  imports Vector Dht_Record Multihash Crypto_Key Peer_Id Cid_Set Block Node Journal Bitswap_Message
    Kad_Message Bitswap_Engine Yamux_Session Importer Dht_Session Resolver
    Secio_Channel Journal_Protocol Multiaddr_Codec Multistream_Session Identify Hashmap_Crc Hashmap_Table
begin

text \<open>
  A verification library for libipfs, the C implementation of IPFS, and the libp2p library it
  is built on.

  The program. libipfs stores files as blocks addressed by the hash of their content (a CID).
  Files and directories are Merkle DAG nodes whose data are unixfs objects; nodes, blocks, CIDs
  and everything that travels between peers are protobuf messages, written and read by one
  small wire library. Content identifiers and peer ids are multihashes in base 58. Blocks are
  exchanged with the bitswap protocol, whose messages are filled from queues of wanted CIDs;
  records of the distributed hash table say who has what, and a journal message lets replicas
  synchronise. The part modelled here is this core: the wire library, the data types and their
  coding, and the operations on them.

  How C is modelled (theory \<open>Ipfs_Prelude\<close>). A struct is a record, an array of characters the
  list of its bytes, a pointer that may be null an \<open>option\<close>, an \<open>int\<close> a HOL integer narrowed by
  \<open>c_int\<close> where C narrows it, \<open>unsigned\<close> types are words. A call returns \<open>Inr\<close> its results or
  \<open>Inl\<close> a fault: \<open>Failure\<close> (the function reports an error), \<open>Abort\<close> (an \<open>assert\<close> stops the
  process), \<open>Undefined\<close> (the C standard gives no meaning: an access outside an array, a null,
  freed or uninitialised object). \<open>malloc\<close> fails exactly beyond \<open>PTRDIFF_MAX\<close>. A function that
  may run for ever returns an option more (\<open>'a run\<close>), \<open>None\<close> standing for divergence, so that termination and divergence are
  theorems. Fuel is used in one place, where two functions of the hash table call each other: 32 calls, more than the size of the table,
  an \<open>int\<close>, can be doubled, so it never runs out (\<open>put_ends\<close>).

  The theories, each over those it calls:

  \<^item> \<open>Varint\<close> and \<open>Protobuf\<close>: \<open>libp2p/protobuf/varint.c\<close> and \<open>protobuf.c\<close>. The encoders and
    decoders of the wire types with the caller's buffer lengths, the loop over the fields that
    every message decoder has (\<open>pb_decode_loop\<close>), and the reference: base-128 numbers (\<open>leb128\<close>)
    and lists of wire fields (\<open>wire\<close>). The locales \<open>pb_encoder\<close> and \<open>pb_codec\<close> are the contract
    of a message: its encoder writes the wire form of its fields, the size estimate is enough,
    and its decoder reads the wire form back. Every message below interprets them, and embedded
    messages are verified through the interpretation of the inner one.
  \<^item> \<open>Vector\<close>: \<open>libp2p/utils/vector.c\<close>, the growing array.
  \<^item> \<open>Dht_Record\<close>: \<open>libp2p/record/record.c\<close>; \<open>Crypto_Key\<close>: \<open>libp2p/crypto/key.c\<close>;
    \<open>Multihash\<close>: \<open>libp2p/multihash\<close>; \<open>Base58\<close>: \<open>libp2p/crypto/encoding/base58.c\<close>;
    \<open>Peer_Id\<close>: \<open>libp2p/crypto/peerutils.c\<close> and the peer id of a key.
  \<^item> \<open>Cid\<close>, \<open>Cid_Set\<close>: \<open>libipfs/cid\<close>; \<open>Block\<close>: \<open>libipfs/blocks/block.c\<close>; \<open>Unixfs\<close>:
    \<open>libipfs/unixfs/unixfs.c\<close>; \<open>Node\<close>: \<open>libipfs/merkledag/node.c\<close>; \<open>Journal\<close>: the two message
    files of \<open>libipfs/journal\<close>.
  \<^item> \<open>Base32\<close>: \<open>libp2p/crypto/encoding/base32.c\<close> and the database keys of
    \<open>libipfs/datastore/ds_helper.c\<close>. \<open>Blockstore\<close>: \<open>libipfs/blocks/blockstore.c\<close> and the parts of
    \<open>ds_helper.c\<close> and \<open>repo/fsrepo/fs_repo.c\<close> that store and fetch; the repository is a record of
    its path, a map of files and a database. \<open>Merkledag\<close>: \<open>libipfs/merkledag/merkledag.c\<close>.
    \<open>Importer\<close>: \<open>libipfs/importer/importer.c\<close> and \<open>exporter.c\<close> on top of these.
  \<^item> \<open>Lmdb\<close>, \<open>Lmdb_Datastore\<close>: the database, \<open>libipfs/repo/fsrepo/lmdb_datastore.c\<close>, \<open>lmdb_journalstore.c\<close> and
    \<open>lmdb_cursor.c\<close>: the table of records and the table of the journal, each a sorted list of rows. Of \<open>liblmdb\<close> itself
    only the order of keys is translated (\<open>mdb_cmp_memn\<close>); its calls stand for what its documentation says of a table with several rows for a
    key. \<open>Journal_Protocol\<close>: \<open>libipfs/journal/journal.c\<close>, replication on top of the journal and a store.
  \<^item> \<open>Varhex\<close>, \<open>Protoutils\<close>: the other files of \<open>libp2p/multiaddr\<close>, which turn the string of an address into bytes and back by
    way of a hexadecimal form; \<open>Multiaddr_Codec\<close>: both against the parts an address is made of.
  \<^item> \<open>Multiaddr\<close>, \<open>Peer\<close>, \<open>Peerstore\<close>, \<open>Kad_Message\<close>: \<open>libp2p/multiaddr/multiaddr.c\<close>, the files of
    \<open>libp2p/peer\<close>, \<open>libp2p/record/message.c\<close>. \<open>Net_Protocol\<close>: \<open>libp2p/net/protocol.c\<close>.
  \<^item> \<open>Dht_Protocol\<close>: \<open>libp2p/routing/dht_protocol.c\<close>, the handlers of the Kademlia protocol over the
    stores of the node; \<open>Dht_Session\<close>: what holds after any sequence of messages. \<open>Resolver\<close>:
    \<open>libipfs/importer/resolver.c\<close>, from a path to a node.
  \<^item> \<open>Bitswap_Message\<close>, \<open>Wantlist_Queue\<close>, \<open>Peer_Request_Queue\<close>, \<open>Bitswap_Network\<close>,
    \<open>Bitswap_Engine\<close>: the files of \<open>libipfs/exchange/bitswap\<close>. The queue of peer requests is a
    doubly linked list in a memory of entries; its two threads are rounds of a loop over the state of the node.
  \<^item> \<open>Threadsafe_Buffer\<close>: \<open>libp2p/utils/threadsafe_buffer.c\<close>. \<open>Yamux_Frame\<close>, \<open>Yamux\<close>: the files of
    \<open>libp2p/yamux\<close>, with a session's streams, the channels and the messages that were sent as the
    state; \<open>Yamux_Session\<close>: what holds of every state a connection can reach.
  \<^item> \<open>Multistream\<close>: \<open>libp2p/net/multistream.c\<close>, the negotiation of a protocol and messages with their size in front;
    \<open>Multistream_Session\<close>: such messages on a channel of a yamux connection. \<open>Identify\<close>: \<open>libp2p/identify/identify.c\<close>.
  \<^item> \<open>Hashmap\<close>: \<open>libp2p/hashmap/hashmap.c\<close>; \<open>Hashmap_Crc\<close>: its checksum against the one by the bit; \<open>Hashmap_Table\<close>: when the table
    is a map (the locale \<open>key_map\<close>), and when it is not.
  \<^item> \<open>Secio_Message\<close>, \<open>Secio_Crypto\<close>, \<open>Secio_Frame\<close>, \<open>Secio\<close>: the files of \<open>libp2p/secio\<close>, with HMAC and
    counter mode of \<open>libp2p/mbedtls\<close>. The context of a stream holds the session, the socket as a script of
    what the system answers, and the peer store; the handshake is the composition of its phases.
    \<open>Secio_Session\<close>: two nodes that run it with each other; \<open>Secio_Channel\<close>: the channel afterwards.

  How the parts meet. A file is imported in chunks, each a unixfs object in a node in a block; a
  block is a file named by the base 32 form of its hash and a database record. A wanted CID goes
  from the want list to the requests of the peers that may have it, from there into a message
  and through the network layer to the other node, whose handler fills its queues in turn.

  What the theorems show. For every message type: encoding into a buffer of the estimated size
  succeeds and decoding gives the message back, with the exact normalisation the code performs
  (lost members, narrowed numbers, empty vectors that come back null). For the base 58 and base 32
  codes: the digits, and the round trip. For the store and the importer: what is added is found
  again, and an imported file of any length comes out byte for byte. For lists, sets, queues,
  vectors and orders: refinement of the abstract operation, and the invariant of the doubly linked queue. For the
  addresses: a string and its bytes have the same parts. For the
  database: it keeps what the block store relies on; what an update leaves; which files a journal message asks for. For
  the bitswap node: a message that is sent is handled as it was meant, a request is sent once, the
  engine comes to every peer, a wait ends when the block is there. For the Kademlia node: a provider
  that was announced is named in the answer, whatever messages come in between. For yamux: data arrives in
  order on an open channel, and an invariant of all reachable sessions from which it follows
  that no acknowledgement is ever accepted and no window ever opened. For the secure channel: two nodes whose
  hashes differ agree on the algorithms and the keys, whatever pieces the bytes come in, and messages are then read
  as they were written, in their order. Where the code does
  not do what it means to, the theorem states what it does: decoders that loop for ever or read
  out of bounds on a given input, keys that are cut short, list operations that lose or free the
  wrong item, faults of the threads.

  Bounds. Messages are taken below 2 GiB where the code passes lengths as \<open>int\<close>; the hypotheses
  say so. Chunks have the 256 KiB of the code, and a file fewer than 512 GiB, for the size of its node.

  Parameters. Hash functions, the AES block, signatures and elliptic curves (mbedtls); the answers of the system to a read or write on a socket; what the dialer and the router of the node
  answer; whether a send succeeds, and what comes in; the database behind the function pointers
  of \<open>struct Datastore\<close>, whose contract \<open>datastore_keeps\<close> (the record of a block that is put is found) is proved for the LMDB store;
  the clock, the errors of a write and the bytes of a dead stack frame for that store;
  in the theories that use addresses, the two conversions of \<open>multiaddr/protoutils.c\<close>.

  Not modelled: functions that only free memory; the pages and files of the LMDB database, the DHT behind the protocol handlers, name
  resolution and the remaining text encodings, which are planned next; sockets, thread
  pools, configuration, HTTP and the command line, which are input and output.
\<close>

end
